(* ===== verification/Prelude.thy ===== *)
theory Prelude
  imports Main "HOL-Library.AList" "HOL-Library.Multiset" "HOL-Library.Sublist"
begin

text \<open>
  Shared vocabulary of the development: JavaScript strings and the string and array
  operations of the language's standard library that the modelled code calls.

  A JavaScript string is a sequence of 16-bit code units, so a string is modelled as a list
  of integers; \<open>js ''abc''\<close> is the string of an ASCII literal. Operations that
  depend on Unicode tables are modelled on the code units the programs test:
  \<open>lower\<close> maps the ASCII letters only.
\<close>

named_theorems js_str "evaluation of string operations on literals"

section \<open>Strings\<close>

type_synonym jstr = "int list"

definition js :: "string \<Rightarrow> jstr" where
  "js s = map of_char s"

lemma js_eq_iff [simp]: "js a = js b \<longleftrightarrow> a = b"
  unfolding js_def by (rule inj_map_eq_map) (rule injI, simp)

lemma js_Nil [simp]: "js [] = []"
  by (simp add: js_def)

lemma js_eq_Nil [simp]: "js a = [] \<longleftrightarrow> a = []" "[] = js a \<longleftrightarrow> a = []"
  by (auto simp: js_def)

lemma js_Cons: "js (c # cs) = of_char c # js cs"
  by (simp add: js_def)

lemma js_append: "js (a @ b) = js a @ js b"
  by (simp add: js_def)

lemma length_js [simp]: "length (js a) = length a"
  by (simp add: js_def)

text \<open>The code units \<open>\s\<close> and \<open>trim\<close> treat as white space (ECMAScript
  WhiteSpace and LineTerminator).\<close>

definition is_ws :: "int \<Rightarrow> bool" where
  "is_ws c \<longleftrightarrow> (9 \<le> c \<and> c \<le> 13) \<or> c = 32 \<or> c = 160 \<or> c = 5760 \<or>
     (8192 \<le> c \<and> c \<le> 8202) \<or> c = 8232 \<or> c = 8233 \<or> c = 8239 \<or> c = 8287 \<or>
     c = 12288 \<or> c = 65279"

definition is_digit :: "int \<Rightarrow> bool" where
  "is_digit c \<longleftrightarrow> 48 \<le> c \<and> c \<le> 57"

definition trim_left :: "jstr \<Rightarrow> jstr" where
  "trim_left s = dropWhile is_ws s"

definition trim_right :: "jstr \<Rightarrow> jstr" where
  "trim_right s = rev (dropWhile is_ws (rev s))"

definition trim :: "jstr \<Rightarrow> jstr" where
  "trim s = trim_right (trim_left s)"

text \<open>A string trimmed on both sides: its first and last code units are not white space.\<close>

definition trimmed :: "jstr \<Rightarrow> bool" where
  "trimmed s \<longleftrightarrow> s = [] \<or> (\<not> is_ws (hd s) \<and> \<not> is_ws (last s))"

lemma trim_left_trimmed: "trimmed s \<Longrightarrow> trim_left s = s"
  by (cases s) (auto simp: trimmed_def trim_left_def)

lemma trim_right_trimmed: "trimmed s \<Longrightarrow> trim_right s = s"
  by (cases s rule: rev_cases) (auto simp: trimmed_def trim_right_def)

lemma trim_trimmed: "trimmed s \<Longrightarrow> trim s = s"
  by (simp add: trim_def trim_left_trimmed trim_right_trimmed)

lemma trim_right_split: "\<exists>t. s = trim_right s @ t \<and> (\<forall>c \<in> set t. is_ws c)"
proof -
  have "s = rev (takeWhile is_ws (rev s) @ dropWhile is_ws (rev s))"
    by simp
  then have "s = trim_right s @ rev (takeWhile is_ws (rev s))"
    unfolding trim_right_def by (metis rev_append)
  then show ?thesis by (metis set_rev set_takeWhileD)
qed

lemma trim_left_hd: "trim_left s \<noteq> [] \<Longrightarrow> \<not> is_ws (hd (trim_left s))"
  by (simp add: trim_left_def hd_dropWhile)

lemma trim_right_last: "trim_right s \<noteq> [] \<Longrightarrow> \<not> is_ws (last (trim_right s))"
  by (simp add: trim_right_def last_rev hd_dropWhile)

lemma trimmed_trim [simp]: "trimmed (trim s)"
proof (cases "trim s = []")
  case False
  let ?l = "trim_left s"
  obtain t where t: "?l = trim s @ t" using trim_right_split [of ?l] by (auto simp: trim_def)
  with False have "?l \<noteq> []" by auto
  then have "\<not> is_ws (hd ?l)" by (rule trim_left_hd)
  moreover have "hd ?l = hd (trim s)" using t False by (metis hd_append2)
  ultimately show ?thesis
    using False trim_right_last [of ?l] by (simp add: trimmed_def trim_def)
qed (simp add: trimmed_def)

lemma trim_trim [simp]: "trim (trim s) = trim s"
  by (simp add: trim_trimmed)

lemma trim_Nil [simp]: "trim [] = []"
  by (simp add: trim_def trim_left_def trim_right_def)

lemma set_trim: "set (trim s) \<subseteq> set s"
  unfolding trim_def trim_right_def trim_left_def by (metis set_dropWhileD set_rev subsetI)

lemma trim_no_ws: "\<forall>c \<in> set s. \<not> is_ws c \<Longrightarrow> trim s = s"
  by (rule trim_trimmed) (auto simp: trimmed_def)

lemma trim_eq_Nil_iff: "trim s = [] \<longleftrightarrow> (\<forall>c \<in> set s. is_ws c)"
proof
  assume "trim s = []"
  then have "\<forall>c \<in> set (trim_left s). is_ws c"
    using trim_right_split [of "trim_left s"] by (auto simp: trim_def)
  then have "trim_left s = []" using trim_left_hd [of s] by (cases "trim_left s") auto
  then show "\<forall>c \<in> set s. is_ws c" by (simp add: trim_left_def)
next
  assume "\<forall>c \<in> set s. is_ws c"
  then have "trim_left s = []" by (simp add: trim_left_def)
  then show "trim s = []" by (simp add: trim_def trim_right_def)
qed

section \<open>Splitting, joining and searching\<close>

text \<open>\<open>s.split(c)\<close> for a separator of one code unit.\<close>

fun split_on :: "int \<Rightarrow> jstr \<Rightarrow> jstr list" where
  "split_on c [] = [[]]"
| "split_on c (x # xs) =
     (if x = c then [] # split_on c xs
      else (case split_on c xs of [] \<Rightarrow> [[x]] | y # ys \<Rightarrow> (x # y) # ys))"

text \<open>\<open>xs.join(sep)\<close>.\<close>

fun join :: "jstr \<Rightarrow> jstr list \<Rightarrow> jstr" where
  "join sep [] = []"
| "join sep [x] = x"
| "join sep (x # y # zs) = x @ sep @ join sep (y # zs)"

lemma split_on_not_Nil [simp]: "split_on c s \<noteq> []"
  by (induction s) (auto split: list.splits)

lemma split_on_free: "c \<notin> set s \<Longrightarrow> split_on c s = [s]"
  by (induction s) auto

lemma split_on_append: "c \<notin> set a \<Longrightarrow> split_on c (a @ c # s) = a # split_on c s"
  by (induction a) auto

lemma set_split_on: "p \<in> set (split_on c s) \<Longrightarrow> c \<notin> set p \<and> set p \<subseteq> set s"
proof (induction s arbitrary: p)
  case (Cons x s)
  show ?case
  proof (cases "x = c")
    case True
    with Cons show ?thesis by auto
  next
    case False
    then obtain y ys where ys: "split_on c s = y # ys" by (cases "split_on c s") auto
    have q: "c \<notin> set q \<and> set q \<subseteq> set s" if "q \<in> set (y # ys)" for q
      using Cons.IH [of q] that ys by simp
    have "p = x # y \<or> p \<in> set ys" using Cons.prems False ys by simp
    then show ?thesis
    proof
      assume "p = x # y"
      with q [of y] False show ?thesis by auto
    next
      assume "p \<in> set ys"
      with q [of p] show ?thesis by auto
    qed
  qed
qed auto

lemma join_Cons: "xs \<noteq> [] \<Longrightarrow> join sep (x # xs) = x @ sep @ join sep xs"
  by (cases xs) auto

lemma join_split_on [simp]: "join [c] (split_on c s) = s"
proof (induction s)
  case (Cons x s)
  then show ?case
    by (cases "split_on c s") (auto simp: join_Cons split: list.splits, cases "tl (split_on c s)", auto)
qed simp

lemma split_on_join:
  "ps \<noteq> [] \<Longrightarrow> (\<And>p. p \<in> set ps \<Longrightarrow> c \<notin> set p) \<Longrightarrow> split_on c (join [c] ps) = ps"
  by (induction "[c]" ps rule: join.induct) (auto simp: split_on_append split_on_free)

lemma set_join: "set (join sep xs) \<subseteq> set sep \<union> (\<Union>x \<in> set xs. set x)"
  by (induction sep xs rule: join.induct) auto

text \<open>\<open>s.includes(t)\<close>, \<open>s.startsWith(t)\<close>, and \<open>s.indexOf(t, from)\<close>
  with None for -1. An index is a position in the string.\<close>

definition starts_with :: "jstr \<Rightarrow> jstr \<Rightarrow> bool" where
  "starts_with s t \<longleftrightarrow> take (length t) s = t"

definition ends_with :: "jstr \<Rightarrow> jstr \<Rightarrow> bool" where
  "ends_with s t \<longleftrightarrow> starts_with (rev s) (rev t)"

fun find_sub :: "jstr \<Rightarrow> jstr \<Rightarrow> nat option" where
  "find_sub t [] = (if t = [] then Some 0 else None)"
| "find_sub t (x # xs) =
     (if starts_with (x # xs) t then Some 0 else map_option Suc (find_sub t xs))"

definition index_of :: "jstr \<Rightarrow> jstr \<Rightarrow> nat \<Rightarrow> nat option" where
  "index_of s t start = map_option ((+) start) (find_sub t (drop start s))"

definition str_includes :: "jstr \<Rightarrow> jstr \<Rightarrow> bool" where
  "str_includes s t \<longleftrightarrow> find_sub t s \<noteq> None"

lemma starts_with_append [simp]: "starts_with (t @ s) t"
  by (simp add: starts_with_def)

lemma starts_with_iff: "starts_with s t \<longleftrightarrow> (\<exists>r. s = t @ r)"
  unfolding starts_with_def by (metis append_eq_conv_conj append_take_drop_id)

lemma starts_with_Nil [simp]: "starts_with s []"
  by (simp add: starts_with_def)

lemma find_sub_Some:
  "find_sub t s = Some i \<Longrightarrow> \<exists>r. s = take i s @ t @ r \<and> i + length t \<le> length s"
proof (induction s arbitrary: i)
  case (Cons x xs)
  show ?case
  proof (cases "starts_with (x # xs) t")
    case True
    with Cons.prems obtain r where "x # xs = t @ r" "i = 0" by (auto simp: starts_with_iff)
    then show ?thesis
      by (metis add_0 append_Nil append_Nil2 length_append le_add1 take0)
  next
    case False
    with Cons.prems obtain j where j: "find_sub t xs = Some j" "i = Suc j" by auto
    with Cons.IH obtain r where "xs = take j xs @ t @ r" "j + length t \<le> length xs" by blast
    with j show ?thesis by auto
  qed
qed (auto split: if_splits)

lemma find_sub_None: "find_sub t s = None \<longleftrightarrow> (\<nexists>a b. s = a @ t @ b)"
proof (induction s)
  case (Cons x xs)
  show ?case
  proof (cases "starts_with (x # xs) t")
    case True
    then show ?thesis by (auto simp: starts_with_iff) (metis append_Nil)
  next
    case False
    have "(\<exists>a b. x # xs = a @ t @ b) \<longleftrightarrow> (\<exists>a b. xs = a @ t @ b)"
    proof
      assume "\<exists>a b. x # xs = a @ t @ b"
      then obtain a b where ab: "x # xs = a @ t @ b" by blast
      with False have "a \<noteq> []" by (auto simp: starts_with_iff)
      with ab show "\<exists>a b. xs = a @ t @ b" by (cases a) auto
    next
      assume "\<exists>a b. xs = a @ t @ b"
      then show "\<exists>a b. x # xs = a @ t @ b" by (metis append_Cons)
    qed
    with False Cons.IH show ?thesis by simp
  qed
qed auto

lemma find_sub_first:
  "find_sub t (a @ t @ b) = Some i \<Longrightarrow> i \<le> length a"
proof (induction a arbitrary: i)
  case Nil
  then show ?case
  proof (cases "t @ b")
    case (Cons x xs)
    with Nil show ?thesis using starts_with_append [of t b] by simp
  qed (auto split: if_splits)
qed (auto split: if_splits)

section \<open>Case mapping, searching and decimal numerals\<close>

definition lower_c :: "int \<Rightarrow> int" where
  "lower_c c = (if 65 \<le> c \<and> c \<le> 90 then c + 32 else c)"

definition lower :: "jstr \<Rightarrow> jstr" where
  "lower s = map lower_c s"

text \<open>The value of a string of decimal digits, and the decimal numeral of a number.\<close>

definition digits_val :: "jstr \<Rightarrow> int" where
  "digits_val s = foldl (\<lambda>a c. 10 * a + (c - 48)) 0 s"

fun nat_digits :: "nat \<Rightarrow> jstr" where
  "nat_digits n = (if n < 10 then [48 + int n] else nat_digits (n div 10) @ [48 + int (n mod 10)])"

declare nat_digits.simps [simp del]

definition int_str :: "int \<Rightarrow> jstr" where
  "int_str i = (if i < 0 then 45 # nat_digits (nat (- i)) else nat_digits (nat i))"

lemma foldl_digits: "foldl (\<lambda>a c. 10 * a + (c - 48)) k (s @ [d]) =
    10 * foldl (\<lambda>a c. 10 * a + (c - 48)) k s + (d - (48::int))"
  by simp

lemma digits_val_snoc: "digits_val (s @ [d]) = 10 * digits_val s + (d - 48)"
  by (simp add: digits_val_def)

lemma digits_val_nat_digits [simp]: "digits_val (nat_digits n) = int n"
proof (induction n rule: nat_digits.induct)
  case (1 n)
  show ?case
  proof (cases "n < 10")
    case True
    then show ?thesis by (simp add: nat_digits.simps [of n] digits_val_def)
  next
    case False
    have "10 * int (n div 10) + int (n mod 10) = int n"
      by (metis div_mult_mod_eq mult.commute of_nat_add of_nat_mult of_nat_numeral)
    with False "1.IH" show ?thesis by (simp add: nat_digits.simps [of n] digits_val_snoc)
  qed
qed

lemma nat_digits_digits: "c \<in> set (nat_digits n) \<Longrightarrow> is_digit c"
proof (induction n rule: nat_digits.induct)
  case (1 n)
  then show ?case
    by (cases "n < 10") (auto simp: nat_digits.simps [of n] is_digit_def)
qed

lemma nat_digits_not_Nil [simp]: "nat_digits n \<noteq> []"
  by (simp add: nat_digits.simps [of n])

lemma nat_digits_inj: "nat_digits m = nat_digits n \<Longrightarrow> m = n"
  by (metis digits_val_nat_digits of_nat_eq_iff)

lemma digit_not_ws: "is_digit c \<Longrightarrow> \<not> is_ws c"
  by (auto simp: is_digit_def is_ws_def)

lemma trimmed_nat_digits [simp]: "trimmed (nat_digits n)"
  unfolding trimmed_def using nat_digits_digits [of _ n] digit_not_ws by (meson hd_in_set last_in_set)

section \<open>Arrays\<close>

text \<open>\<open>Array.from(new Set(xs))\<close>: the first occurrence of each element, in order.\<close>

fun uniq :: "'a list \<Rightarrow> 'a list" where
  "uniq [] = []"
| "uniq (x # xs) = x # filter (\<lambda>y. y \<noteq> x) (uniq xs)"

lemma set_uniq [simp]: "set (uniq xs) = set xs"
  by (induction xs) auto

lemma distinct_uniq [simp]: "distinct (uniq xs)"
  by (induction xs) auto

lemma uniq_distinct: "distinct xs \<Longrightarrow> uniq xs = xs"
  by (induction xs) (auto simp: filter_id_conv)

lemma uniq_uniq [simp]: "uniq (uniq xs) = uniq xs"
  by (simp add: uniq_distinct)

lemma length_uniq: "length (uniq xs) \<le> length xs"
  by (induction xs) (auto intro: le_trans [OF length_filter_le])

lemma subseq_uniq: "subseq (uniq xs) xs"
proof (induction xs)
  case (Cons x xs)
  have "subseq (filter (\<lambda>y. y \<noteq> x) (uniq xs)) (uniq xs)" by (rule subseq_filter_left)
  then have "subseq (filter (\<lambda>y. y \<noteq> x) (uniq xs)) xs"
    using Cons by (rule subseq_order.order_trans)
  then show ?case by simp
qed simp

lemma filter_uniq: "filter P (uniq xs) = uniq (filter P xs)"
proof (induction xs)
  case (Cons x xs)
  have "filter (\<lambda>y. P y \<and> y \<noteq> x) (uniq xs) = filter (\<lambda>y. y \<noteq> x) (filter P (uniq xs))"
    by (auto simp: filter_filter conj_commute)
  also have "\<dots> = filter (\<lambda>y. y \<noteq> x) (uniq (filter P xs))" by (simp add: Cons)
  finally have e: "filter (\<lambda>y. P y \<and> y \<noteq> x) (uniq xs) =
    filter (\<lambda>y. y \<noteq> x) (uniq (filter P xs))" .
  show ?case
  proof (cases "P x")
    case True
    with e show ?thesis by (simp add: filter_filter conj_commute)
  next
    case False
    then have "x \<notin> set (uniq (filter P xs))" by simp
    then have "filter (\<lambda>y. y \<noteq> x) (uniq (filter P xs)) = uniq (filter P xs)"
      by (auto simp: filter_id_conv)
    with e False show ?thesis by (simp add: filter_filter conj_commute)
  qed
qed simp

lemma uniq_append: "uniq (xs @ ys) = uniq xs @ filter (\<lambda>y. y \<notin> set xs) (uniq ys)"
  by (induction xs) (auto simp: filter_filter intro!: filter_cong)

text \<open>\<open>xs.sort(cmp)\<close>, stable, for a comparison that never puts \<open>a\<close> after \<open>b\<close>
  when \<open>le a b\<close>.\<close>

fun sort_ins :: "('a \<Rightarrow> 'a \<Rightarrow> bool) \<Rightarrow> 'a \<Rightarrow> 'a list \<Rightarrow> 'a list" where
  "sort_ins le x [] = [x]"
| "sort_ins le x (y # ys) = (if le x y then x # y # ys else y # sort_ins le x ys)"

fun js_sort :: "('a \<Rightarrow> 'a \<Rightarrow> bool) \<Rightarrow> 'a list \<Rightarrow> 'a list" where
  "js_sort le [] = []"
| "js_sort le (x # xs) = sort_ins le x (js_sort le xs)"

lemma mset_sort_ins: "mset (sort_ins le x xs) = add_mset x (mset xs)"
  by (induction xs) auto

lemma mset_js_sort [simp]: "mset (js_sort le xs) = mset xs"
  by (induction xs) (auto simp: mset_sort_ins)

lemma set_js_sort [simp]: "set (js_sort le xs) = set xs"
  by (metis mset_js_sort set_mset_mset)

lemma length_js_sort [simp]: "length (js_sort le xs) = length xs"
  by (metis mset_js_sort size_mset)

lemma distinct_js_sort [simp]: "distinct (js_sort le xs) \<longleftrightarrow> distinct xs"
  by (metis mset_js_sort mset_eq_imp_distinct_iff)

lemma set_sort_ins: "set (sort_ins le x xs) = insert x (set xs)"
  by (induction xs) auto

lemma sorted_sort_ins:
  assumes total: "\<And>a b. \<not> le a b \<Longrightarrow> le b a"
    and trans: "\<And>a b c. le a b \<Longrightarrow> le b c \<Longrightarrow> le a c"
  shows "sorted_wrt le xs \<Longrightarrow> sorted_wrt le (sort_ins le x xs)"
proof (induction xs)
  case (Cons y ys)
  show ?case
  proof (cases "le x y")
    case True
    with Cons.prems show ?thesis by (auto intro: trans)
  next
    case False
    with Cons total show ?thesis by (auto simp: set_sort_ins)
  qed
qed simp

lemma sorted_js_sort:
  assumes "\<And>a b. \<not> le a b \<Longrightarrow> le b a" "\<And>a b c. le a b \<Longrightarrow> le b c \<Longrightarrow> le a c"
  shows "sorted_wrt le (js_sort le xs)"
  by (induction xs) (auto intro: sorted_sort_ins assms)

lemma sort_ins_Cons_le: "(\<And>y. y \<in> set ys \<Longrightarrow> le x y) \<Longrightarrow> sort_ins le x ys = x # ys"
  by (cases ys) auto

lemma js_sort_sorted: "sorted_wrt le xs \<Longrightarrow> js_sort le xs = xs"
  by (induction xs) (auto simp: sort_ins_Cons_le)

text \<open>The default order of \<open>sort()\<close>: lexicographic by code units.\<close>

fun str_le :: "jstr \<Rightarrow> jstr \<Rightarrow> bool" where
  "str_le [] ys = True"
| "str_le (x # xs) [] = False"
| "str_le (x # xs) (y # ys) = (x < y \<or> (x = y \<and> str_le xs ys))"

lemma str_le_total: "\<not> str_le a b \<Longrightarrow> str_le b a"
  by (induction a b rule: str_le.induct) auto

lemma str_le_trans: "str_le a b \<Longrightarrow> str_le b c \<Longrightarrow> str_le a c"
proof (induction a b arbitrary: c rule: str_le.induct)
  case (3 x xs y ys)
  then show ?case by (cases c) auto
qed auto

lemma sorted_str_sort [simp]: "sorted_wrt str_le (js_sort str_le xs)"
  by (rule sorted_js_sort [OF str_le_total str_le_trans])

text \<open>\<open>arr[i] := v\<close> for the last element, and \<open>findLastIndex\<close> as a downward loop.\<close>

fun find_last :: "('a \<Rightarrow> bool) \<Rightarrow> 'a list \<Rightarrow> nat option" where
  "find_last P [] = None"
| "find_last P (x # xs) =
     (case find_last P xs of Some i \<Rightarrow> Some (Suc i) | None \<Rightarrow> if P x then Some 0 else None)"

lemma find_last_None: "find_last P xs = None \<longleftrightarrow> (\<forall>x \<in> set xs. \<not> P x)"
  by (induction xs) (auto split: option.splits if_splits)

lemma find_last_Some:
  "find_last P xs = Some i \<Longrightarrow> i < length xs \<and> P (xs ! i) \<and> (\<forall>j. i < j \<and> j < length xs \<longrightarrow> \<not> P (xs ! j))"
proof (induction xs arbitrary: i)
  case (Cons x xs)
  show ?case
  proof (cases "find_last P xs")
    case None
    with Cons.prems show ?thesis
      by (auto simp: find_last_None nth_Cons split: if_splits nat.splits)
  next
    case (Some k)
    with Cons show ?thesis by (auto simp: nth_Cons split: nat.splits)
  qed
qed simp

lemmas js_str_ops = trim_def trim_left_def trim_right_def is_ws_def is_digit_def js_Cons
  starts_with_def lower_def lower_c_def

end
