(* ===== verification/JsNumber.thy ===== *)
theory JsNumber
  imports Prelude Complex_Main
begin

text \<open>
  JavaScript numbers. A number is an IEEE 754 binary64 value: NaN, the infinities, negative
  zero, or a finite rational. Arithmetic is exact rational arithmetic followed by \<open>rnd\<close>,
  which rounds to the nearest binary64 value, ties to even, with gradual underflow and
  overflow to infinity. \<open>num_str\<close> is Number.prototype.toString in base 10 (the shortest
  decimal that rounds back), \<open>to_fixed\<close> is toFixed, \<open>parse_decimal\<close> reads a decimal
  literal. The group of lemmas at the end shows that integers below 2^53 are exact.
\<close>

section \<open>Values and rounding\<close>

datatype jsnum = NaN | PosInf | NegInf | NegZero | Fin rat

fun bitlen :: "int \<Rightarrow> nat" where
  "bitlen n = (if n \<le> 0 then 0 else Suc (bitlen (n div 2)))"

declare bitlen.simps [simp del]

text \<open>\<open>floor (log2 q)\<close> of a positive rational.\<close>

definition ilog2 :: "rat \<Rightarrow> int" where
  "ilog2 q = (let (n, d) = quotient_of q; k = int (bitlen n) - int (bitlen d)
     in if 2 powi k \<le> q then k else k - 1)"

definition round_half_even :: "rat \<Rightarrow> int" where
  "round_half_even q = (let f = \<lfloor>q\<rfloor>; r = q - of_int f
     in if r < 1/2 then f else if r > 1/2 then f + 1 else if even f then f else f + 1)"

definition rnd :: "rat \<Rightarrow> jsnum" where
  "rnd q = (if q = 0 then Fin 0 else
     let e = max (ilog2 \<bar>q\<bar> - 52) (- 1074);
         m = round_half_even (q / 2 powi e);
         v = of_int m * 2 powi e
     in if m = 0 then (if q < 0 then NegZero else Fin 0)
        else if ilog2 \<bar>v\<bar> \<ge> 1024 then (if v < 0 then NegInf else PosInf) else Fin v)"

definition num_of_int :: "int \<Rightarrow> jsnum" where
  "num_of_int i = rnd (of_int i)"

text \<open>The real value of a number that has one (0 for the others), and the sign bit.\<close>

fun nval :: "jsnum \<Rightarrow> rat" where
  "nval (Fin q) = q"
| "nval _ = 0"

fun is_neg :: "jsnum \<Rightarrow> bool" where
  "is_neg (Fin q) = (q < 0)"
| "is_neg NegZero = True"
| "is_neg NegInf = True"
| "is_neg _ = False"

fun is_finite :: "jsnum \<Rightarrow> bool" where
  "is_finite (Fin q) = True"
| "is_finite NegZero = True"
| "is_finite _ = False"

definition is_zero :: "jsnum \<Rightarrow> bool" where
  "is_zero x \<longleftrightarrow> x = NegZero \<or> x = Fin 0"

definition is_integer :: "jsnum \<Rightarrow> bool" where
  "is_integer x \<longleftrightarrow> is_finite x \<and> of_int \<lfloor>nval x\<rfloor> = nval x"

section \<open>Arithmetic and comparison\<close>

fun num_neg :: "jsnum \<Rightarrow> jsnum" where
  "num_neg NaN = NaN"
| "num_neg PosInf = NegInf"
| "num_neg NegInf = PosInf"
| "num_neg NegZero = Fin 0"
| "num_neg (Fin q) = (if q = 0 then NegZero else Fin (- q))"

definition num_add :: "jsnum \<Rightarrow> jsnum \<Rightarrow> jsnum" where
  "num_add x y =
     (if x = NaN \<or> y = NaN then NaN
      else if x = PosInf then (if y = NegInf then NaN else PosInf)
      else if x = NegInf then (if y = PosInf then NaN else NegInf)
      else if y = PosInf \<or> y = NegInf then y
      else if x = NegZero \<and> y = NegZero then NegZero
      else rnd (nval x + nval y))"

definition num_sub :: "jsnum \<Rightarrow> jsnum \<Rightarrow> jsnum" where
  "num_sub x y = num_add x (num_neg y)"

definition signed_zero :: "bool \<Rightarrow> jsnum" where
  "signed_zero neg = (if neg then NegZero else Fin 0)"

definition signed_inf :: "bool \<Rightarrow> jsnum" where
  "signed_inf neg = (if neg then NegInf else PosInf)"

definition num_mul :: "jsnum \<Rightarrow> jsnum \<Rightarrow> jsnum" where
  "num_mul x y = (let s = (is_neg x \<noteq> is_neg y) in
     if x = NaN \<or> y = NaN then NaN
     else if \<not> is_finite x then (if is_zero y then NaN else signed_inf s)
     else if \<not> is_finite y then (if is_zero x then NaN else signed_inf s)
     else if is_zero x \<or> is_zero y then signed_zero s
     else rnd (nval x * nval y))"

definition num_div :: "jsnum \<Rightarrow> jsnum \<Rightarrow> jsnum" where
  "num_div x y = (let s = (is_neg x \<noteq> is_neg y) in
     if x = NaN \<or> y = NaN then NaN
     else if \<not> is_finite x then (if is_finite y then signed_inf s else NaN)
     else if \<not> is_finite y then signed_zero s
     else if is_zero y then (if is_zero x then NaN else signed_inf s)
     else if is_zero x then signed_zero s
     else rnd (nval x / nval y))"

text \<open>\<open>===\<close>, \<open><\<close> and \<open><=\<close>: false whenever an operand is NaN.\<close>

definition num_eq :: "jsnum \<Rightarrow> jsnum \<Rightarrow> bool" where
  "num_eq x y \<longleftrightarrow> x \<noteq> NaN \<and> y \<noteq> NaN \<and> (x = y \<or> (is_zero x \<and> is_zero y))"

definition num_lt :: "jsnum \<Rightarrow> jsnum \<Rightarrow> bool" where
  "num_lt x y \<longleftrightarrow> x \<noteq> NaN \<and> y \<noteq> NaN \<and> x \<noteq> PosInf \<and> y \<noteq> NegInf \<and>
     (x = NegInf \<or> y = PosInf \<or> nval x < nval y)"

definition num_le :: "jsnum \<Rightarrow> jsnum \<Rightarrow> bool" where
  "num_le x y \<longleftrightarrow> num_lt x y \<or> num_eq x y"

text \<open>A number is falsy when it is NaN or a zero.\<close>

definition num_truthy :: "jsnum \<Rightarrow> bool" where
  "num_truthy x \<longleftrightarrow> x \<noteq> NaN \<and> \<not> is_zero x"

section \<open>Decimal numerals\<close>

text \<open>The number of a decimal literal: sign, digits before and after the point, exponent.\<close>

definition parse_decimal :: "bool \<Rightarrow> jstr \<Rightarrow> jstr \<Rightarrow> int \<Rightarrow> jsnum" where
  "parse_decimal neg ip fp ex =
     (let q = of_int (digits_val (ip @ fp)) * 10 powi (ex - int (length fp))
      in if q = 0 then signed_zero neg else rnd (if neg then - q else q))"

text \<open>The decimal exponent: the least n with q < 10^n, searched from a first guess.\<close>

fun dec_down :: "nat \<Rightarrow> rat \<Rightarrow> int \<Rightarrow> int" where
  "dec_down 0 q n = n"
| "dec_down (Suc f) q n = (if q < 10 powi (n - 1) then dec_down f q (n - 1) else n)"

fun dec_up :: "nat \<Rightarrow> rat \<Rightarrow> int \<Rightarrow> int" where
  "dec_up 0 q n = n"
| "dec_up (Suc f) q n = (if q < 10 powi n then n else dec_up f q (n + 1))"

definition dec_exp :: "rat \<Rightarrow> int" where
  "dec_exp q = (if q < 1 then dec_down 400 q 0 else dec_up 400 q 0)"

text \<open>The shortest digits: for k = 1, 2, ... the k-digit decimals next to q, of those that
  round back to q the closer one (the even one of two equally close).\<close>

fun shortest :: "nat \<Rightarrow> rat \<Rightarrow> int \<Rightarrow> nat \<Rightarrow> nat \<times> nat" where
  "shortest 0 q n k = (nat \<lfloor>q / 10 powi (n - int k)\<rfloor>, k)"
| "shortest (Suc f) q n k =
     (let u = 10 powi (n - int k); lo = \<lfloor>q / u\<rfloor>; hi = lo + 1;
          dlo = q - of_int lo * u; dhi = of_int hi * u - q;
          oklo = (lo \<noteq> 0 \<and> rnd (of_int lo * u) = Fin q); okhi = (rnd (of_int hi * u) = Fin q)
      in if oklo \<and> (\<not> okhi \<or> dlo < dhi \<or> (dlo = dhi \<and> even lo)) then (nat lo, k)
         else if okhi then (nat hi, k) else shortest f q n (Suc k))"

definition num_format :: "jstr \<Rightarrow> int \<Rightarrow> jstr" where
  "num_format ds n =
     (let k = int (length ds) in
      if k \<le> n \<and> n \<le> 21 then ds @ replicate (nat (n - k)) 48
      else if 0 < n \<and> n \<le> 21 then take (nat n) ds @ [46] @ drop (nat n) ds
      else if - 6 < n \<and> n \<le> 0 then js ''0.'' @ replicate (nat (- n)) 48 @ ds
      else (let e = n - 1;
                es = 101 # (if e < 0 then 45 else 43) # nat_digits (nat \<bar>e\<bar>)
            in if k = 1 then ds @ es else take 1 ds @ [46] @ drop 1 ds @ es))"

definition pos_str :: "rat \<Rightarrow> jstr" where
  "pos_str q = (let n = dec_exp q; (s, k) = shortest 17 q n 1
     in if s = 10 ^ k then num_format (js ''1'') (n + 1) else num_format (nat_digits s) n)"

fun num_str :: "jsnum \<Rightarrow> jstr" where
  "num_str NaN = js ''NaN''"
| "num_str PosInf = js ''Infinity''"
| "num_str NegInf = js ''-Infinity''"
| "num_str NegZero = js ''0''"
| "num_str (Fin q) = (if q = 0 then js ''0'' else if q < 0 then 45 # pos_str (- q) else pos_str q)"

text \<open>\<open>x.toFixed(d)\<close>: the nearest multiple of 10^-d, the larger of two equally near.\<close>

definition fixed_digits :: "nat \<Rightarrow> nat \<Rightarrow> jstr" where
  "fixed_digits d n =
     (if d = 0 then nat_digits n
      else (let z = nat_digits n; p = replicate (d + 1 - length z) 48 @ z
            in take (length p - d) p @ [46] @ drop (length p - d) p))"

definition to_fixed :: "jsnum \<Rightarrow> nat \<Rightarrow> jstr" where
  "to_fixed x d = (if \<not> is_finite x \<or> \<bar>nval x\<bar> \<ge> 10 ^ 21 then num_str x
     else (let q = nval x; n = nat \<lfloor>\<bar>q\<bar> * 10 ^ d + 1 / 2\<rfloor>
           in if q < 0 then 45 # fixed_digits d n else fixed_digits d n))"

section \<open>Integers are exact below 2^53\<close>

lemma bitlen_le: "n < 2 ^ k \<Longrightarrow> bitlen n \<le> k"
proof (induction n arbitrary: k rule: bitlen.induct)
  case (1 n)
  show ?case
  proof (cases "n \<le> 0")
    case True
    then show ?thesis by (simp add: bitlen.simps [of n])
  next
    case False
    with "1.prems" obtain j where k: "k = Suc j" by (cases k) auto
    with "1.prems" have "n div 2 < 2 ^ j" by auto
    with False "1.IH" have "bitlen (n div 2) \<le> j" by simp
    with False k show ?thesis by (simp add: bitlen.simps [of n])
  qed
qed

lemma bitlen_1 [simp]: "bitlen 1 = 1"
  by (simp add: bitlen.simps [of 1] bitlen.simps [of 0])

lemma ilog2_int_le: "0 < k \<Longrightarrow> k < 2 ^ m \<Longrightarrow> ilog2 (of_int k) \<le> int m - 1"
  using bitlen_le [of k m] by (auto simp: ilog2_def Let_def)

lemma round_half_even_int [simp]: "round_half_even (of_int k) = k"
  by (simp add: round_half_even_def)

lemma of_int_div_powi: "e \<le> 0 \<Longrightarrow> (of_int k :: rat) / 2 powi e = of_int (k * 2 ^ nat (- e))"
  by (simp add: power_int_def field_simps)

lemma rnd_int: 
  assumes "\<bar>k\<bar> < 2 ^ 53"
  shows "rnd (of_int k) = Fin (of_int k)"
proof (cases "k = 0")
  case False
  define e where "e = max (ilog2 \<bar>of_int k\<bar> - 52) (- 1074)"
  have "ilog2 (of_int \<bar>k\<bar>) \<le> 52"
    using ilog2_int_le [of "\<bar>k\<bar>" 53] assms False by simp
  then have e: "e \<le> 0" by (simp add: e_def)
  define m where "m = round_half_even ((of_int k :: rat) / 2 powi e)"
  have m: "m = k * 2 ^ nat (- e)"
    unfolding m_def of_int_div_powi [OF e] by (rule round_half_even_int)
  have v: "of_int m * 2 powi e = (of_int k :: rat)"
    using e by (simp add: m power_int_def field_simps)
  have b: "ilog2 \<bar>of_int k\<bar> < 1024"
    using ilog2_int_le [of "\<bar>k\<bar>" 53] assms False by simp
  have m0: "m \<noteq> 0" using False by (simp add: m)
  have "rnd (of_int k) = (let v = of_int m * 2 powi e
     in if m = 0 then (if (of_int k :: rat) < 0 then NegZero else Fin 0)
        else if ilog2 \<bar>v\<bar> \<ge> 1024 then (if v < 0 then NegInf else PosInf) else Fin v)"
    unfolding rnd_def Let_def e_def [symmetric] m_def [symmetric] using False by simp
  then show ?thesis
    using b m0 by (simp add: v Let_def not_le)
qed (simp add: rnd_def)

lemma num_of_int: "\<bar>k\<bar> < 2 ^ 53 \<Longrightarrow> num_of_int k = Fin (of_int k)"
  by (simp add: num_of_int_def rnd_int)

lemma rnd_0 [simp]: "rnd 0 = Fin 0"
  by (simp add: rnd_def)

lemma num_add_int:
  "\<bar>a + b\<bar> < 2 ^ 53 \<Longrightarrow> num_add (Fin (of_int a)) (Fin (of_int b)) = Fin (of_int (a + b))"
  using rnd_int [of "a + b"] by (simp add: num_add_def)

lemma num_eq_Fin [simp]: "num_eq (Fin a) (Fin b) \<longleftrightarrow> a = b"
  by (auto simp: num_eq_def is_zero_def)

lemma num_lt_Fin [simp]: "num_lt (Fin a) (Fin b) \<longleftrightarrow> a < b"
  by (simp add: num_lt_def)

lemma num_le_Fin [simp]: "num_le (Fin a) (Fin b) \<longleftrightarrow> a \<le> b"
  by (auto simp: num_le_def)

lemma num_NaN [simp]: "\<not> num_eq NaN x" "\<not> num_eq x NaN" "\<not> num_lt NaN x" "\<not> num_lt x NaN"
  "\<not> num_le NaN x" "\<not> num_le x NaN"
  by (simp_all add: num_eq_def num_lt_def num_le_def)

lemma num_truthy_simps [simp]: "num_truthy (Fin q) \<longleftrightarrow> q \<noteq> 0" "\<not> num_truthy NaN"
  "\<not> num_truthy NegZero" "num_truthy PosInf" "num_truthy NegInf"
  by (simp_all add: num_truthy_def is_zero_def)

end
