(* ===== verification/JsValue.thy ===== *)
theory JsValue
  imports JsNumber
begin

text \<open>
  JavaScript values as the modelled code sees them: the results of JSON.parse, form values and
  localStorage contents. An object is its list of own properties in insertion order;
  \<open>own_entries\<close> is the order in which Object.keys, Object.values and Object.entries list
  them (array-index keys first, ascending). Reading an absent property gives undefined.
\<close>

named_theorems obj_simps "reading and writing properties"

datatype jsval = VUndef | VNull | VBool bool | VNum jsnum | VStr jstr
  | VArr "jsval list" | VObj "(jstr \<times> jsval) list"

type_synonym jsobj = "(jstr \<times> jsval) list"

section \<open>Objects\<close>

definition obj_get :: "jsobj \<Rightarrow> jstr \<Rightarrow> jsval" where
  "obj_get ob k = (case map_of ob k of Some v \<Rightarrow> v | None \<Rightarrow> VUndef)"

definition obj_has :: "jsobj \<Rightarrow> jstr \<Rightarrow> bool" where
  "obj_has ob k \<longleftrightarrow> map_of ob k \<noteq> None"

text \<open>\<open>ob[k] = v\<close> overwrites in place or appends; \<open>delete ob[k]\<close> removes.\<close>

definition obj_set :: "jstr \<Rightarrow> jsval \<Rightarrow> jsobj \<Rightarrow> jsobj" where
  "obj_set k v ob = AList.update k v ob"

definition obj_del :: "jstr \<Rightarrow> jsobj \<Rightarrow> jsobj" where
  "obj_del k ob = AList.delete k ob"

text \<open>Objects built by writing properties one after the other have each key once.\<close>

definition obj_wf :: "jsobj \<Rightarrow> bool" where
  "obj_wf ob \<longleftrightarrow> distinct (map fst ob)"

text \<open>Array-index keys: canonical decimal numerals below 2^32 - 1.\<close>

definition is_index_key :: "jstr \<Rightarrow> bool" where
  "is_index_key k \<longleftrightarrow> k \<noteq> [] \<and> list_all is_digit k \<and> (k = [48] \<or> hd k \<noteq> 48) \<and>
     digits_val k < 4294967295"

definition own_entries :: "(jstr \<times> 'v) list \<Rightarrow> (jstr \<times> 'v) list" where
  "own_entries ob =
     js_sort (\<lambda>a b. digits_val (fst a) \<le> digits_val (fst b)) (filter (\<lambda>p. is_index_key (fst p)) ob)
     @ filter (\<lambda>p. \<not> is_index_key (fst p)) ob"

definition obj_keys :: "jsobj \<Rightarrow> jstr list" where
  "obj_keys ob = map fst (own_entries ob)"

lemma obj_get_set [obj_simps, simp]:
  "obj_get (obj_set k v ob) k' = (if k' = k then v else obj_get ob k')"
  by (simp add: obj_get_def obj_set_def update_conv')

lemma obj_get_del [obj_simps, simp]:
  "obj_get (obj_del k ob) k' = (if k' = k then VUndef else obj_get ob k')"
  by (simp add: obj_get_def obj_del_def delete_conv')

lemma obj_has_set [obj_simps, simp]: "obj_has (obj_set k v ob) k' \<longleftrightarrow> k' = k \<or> obj_has ob k'"
  by (simp add: obj_has_def obj_set_def update_conv')

lemma obj_has_del [obj_simps, simp]: "obj_has (obj_del k ob) k' \<longleftrightarrow> k' \<noteq> k \<and> obj_has ob k'"
  by (simp add: obj_has_def obj_del_def delete_conv')

lemma obj_get_Nil [obj_simps, simp]: "obj_get [] k = VUndef" "\<not> obj_has [] k"
  by (simp_all add: obj_get_def obj_has_def)

lemma obj_has_iff: "obj_has ob k \<longleftrightarrow> k \<in> fst ` set ob"
  by (simp add: obj_has_def map_of_eq_None_iff)

lemma obj_wf_set [simp]: "obj_wf ob \<Longrightarrow> obj_wf (obj_set k v ob)"
  by (simp add: obj_wf_def obj_set_def distinct_update)

lemma obj_wf_del [simp]: "obj_wf ob \<Longrightarrow> obj_wf (obj_del k ob)"
  by (simp add: obj_wf_def obj_del_def distinct_delete)

lemma obj_wf_Nil [simp]: "obj_wf []"
  by (simp add: obj_wf_def)

lemma set_own_entries [simp]: "set (own_entries ob) = set ob"
  by (auto simp: own_entries_def)

lemma mset_own_entries: "mset (own_entries ob) = mset ob"
  by (simp add: own_entries_def multiset_partition [of "mset ob" "\<lambda>p. is_index_key (fst p)", symmetric])

lemma distinct_own_entries: "obj_wf ob \<Longrightarrow> distinct (map fst (own_entries ob))"
  unfolding obj_wf_def
  by (metis mset_eq_imp_distinct_iff mset_map mset_own_entries)

lemma map_of_own_entries: "obj_wf ob \<Longrightarrow> map_of (own_entries ob) = map_of ob"
  by (rule map_of_inject_set [THEN iffD2]) (auto simp: distinct_own_entries, simp add: obj_wf_def)

lemma set_obj_keys: "set (obj_keys ob) = {k. obj_has ob k}"
  by (auto simp: obj_keys_def obj_has_iff)

text \<open>The laws a string-keyed record keeps, as an interface: reading after a write, reading
  after a removal, and membership. Clients fold lists of writes and removals over a record.\<close>

locale keyed_record =
  fixes get :: "'r \<Rightarrow> 'k \<Rightarrow> 'v"
    and has :: "'r \<Rightarrow> 'k \<Rightarrow> bool"
    and put :: "'k \<Rightarrow> 'v \<Rightarrow> 'r \<Rightarrow> 'r"
    and del :: "'k \<Rightarrow> 'r \<Rightarrow> 'r"
    and wf :: "'r \<Rightarrow> bool"
  assumes get_put: "get (put k v r) k' = (if k' = k then v else get r k')"
    and has_put: "has (put k v r) k' \<longleftrightarrow> k' = k \<or> has r k'"
    and get_del_other: "k' \<noteq> k \<Longrightarrow> get (del k r) k' = get r k'"
    and has_del: "has (del k r) k' \<longleftrightarrow> k' \<noteq> k \<and> has r k'"
    and wf_put: "wf r \<Longrightarrow> wf (put k v r)"
    and wf_del: "wf r \<Longrightarrow> wf (del k r)"
begin

definition put_all :: "('k \<times> 'v) list \<Rightarrow> 'r \<Rightarrow> 'r" where
  "put_all kvs r = foldl (\<lambda>s (k, v). put k v s) r kvs"

lemma put_all_simps: "put_all [] r = r" "put_all ((k, v) # kvs) r = put_all kvs (put k v r)"
  by (simp_all add: put_all_def)

lemma has_put_all: "has (put_all kvs r) k \<longleftrightarrow> k \<in> fst ` set kvs \<or> has r k"
proof (induction kvs arbitrary: r)
  case (Cons kv kvs)
  then show ?case by (cases kv) (auto simp: put_all_simps has_put)
qed (simp add: put_all_simps)

lemma get_put_all:
  "get (put_all kvs r) k = (case map_of (rev kvs) k of Some v \<Rightarrow> v | None \<Rightarrow> get r k)"
  by (induction kvs arbitrary: r) (auto simp: put_all_simps get_put map_add_def split: option.splits)

lemma wf_put_all: "wf r \<Longrightarrow> wf (put_all kvs r)"
  by (induction kvs arbitrary: r) (auto simp: put_all_simps wf_put)

end

interpretation obj: keyed_record obj_get obj_has obj_set obj_del obj_wf
  by unfold_locales auto

section \<open>Coercions and type tests\<close>

fun truthy :: "jsval \<Rightarrow> bool" where
  "truthy VUndef = False"
| "truthy VNull = False"
| "truthy (VBool b) = b"
| "truthy (VNum x) = num_truthy x"
| "truthy (VStr s) = (s \<noteq> [])"
| "truthy (VArr _) = True"
| "truthy (VObj _) = True"

text \<open>\<open>a || b\<close> and \<open>a ?? b\<close>.\<close>

definition js_or :: "jsval \<Rightarrow> jsval \<Rightarrow> jsval" where
  "js_or a b = (if truthy a then a else b)"

fun nullish :: "jsval \<Rightarrow> bool" where
  "nullish VUndef = True"
| "nullish VNull = True"
| "nullish _ = False"

definition js_coalesce :: "jsval \<Rightarrow> jsval \<Rightarrow> jsval" where
  "js_coalesce a b = (if nullish a then b else a)"

text \<open>\<open>String(v)\<close>; in an array, null and undefined print as nothing.\<close>

fun to_str :: "jsval \<Rightarrow> jstr" where
  "to_str VUndef = js ''undefined''"
| "to_str VNull = js ''null''"
| "to_str (VBool b) = (if b then js ''true'' else js ''false'')"
| "to_str (VNum x) = num_str x"
| "to_str (VStr s) = s"
| "to_str (VArr vs) = join (js '','') (map (\<lambda>v. if nullish v then [] else to_str v) vs)"
| "to_str (VObj _) = js ''[object Object]''"

text \<open>\<open>typeof v === 'object'\<close> holds for null, arrays and objects.\<close>

fun is_object_type :: "jsval \<Rightarrow> bool" where
  "is_object_type VNull = True"
| "is_object_type (VArr _) = True"
| "is_object_type (VObj _) = True"
| "is_object_type _ = False"

fun is_array :: "jsval \<Rightarrow> bool" where
  "is_array (VArr _) = True"
| "is_array _ = False"

text \<open>The own enumerable properties of a value, as Object.entries lists them; the elements of
  an array are its index properties.\<close>

definition index_entries :: "jsval list \<Rightarrow> jsobj" where
  "index_entries vs = zip (map nat_digits [0..<length vs]) vs"

fun entries_of :: "jsval \<Rightarrow> jsobj" where
  "entries_of (VObj ob) = own_entries ob"
| "entries_of (VArr vs) = index_entries vs"
| "entries_of (VStr s) = index_entries (map (\<lambda>c. VStr [c]) s)"
| "entries_of _ = []"

text \<open>Reading a property of a value that is not nullish (reading one of null or undefined throws,
  which callers model). Only plain properties are read by the code: of an array or a string
  the named properties the code asks for are absent.\<close>

fun js_prop :: "jsval \<Rightarrow> jstr \<Rightarrow> jsval" where
  "js_prop (VObj ob) k = obj_get ob k"
| "js_prop _ k = VUndef"

definition obj_of :: "jsval \<Rightarrow> jsobj" where
  "obj_of v = (case v of VObj ob \<Rightarrow> ob | _ \<Rightarrow> [])"

text \<open>\<open>===\<close> on primitive values (the code never compares objects by identity here).\<close>

fun strict_eq :: "jsval \<Rightarrow> jsval \<Rightarrow> bool" where
  "strict_eq (VNum x) (VNum y) = num_eq x y"
| "strict_eq (VBool a) (VBool b) = (a = b)"
| "strict_eq (VStr a) (VStr b) = (a = b)"
| "strict_eq VNull VNull = True"
| "strict_eq VUndef VUndef = True"
| "strict_eq _ _ = False"

lemma is_true_iff: "strict_eq v (VBool True) \<longleftrightarrow> v = VBool True"
  by (cases v) auto

end
