(* ===== verification/JsJson.thy ===== *)
theory JsJson
  imports JsValue
begin

text \<open>
  JSON.parse and JSON.stringify on the values of JsValue. \<open>json_parse\<close> returns None where
  JSON.parse throws a SyntaxError. The parser runs on fuel; every call on the way down consumes
  input within two calls, so twice the length of the text is enough, and
  \<open>json_parse_stringify\<close> shows that it reads back everything \<open>stringify\<close> writes.
\<close>

section \<open>Parsing\<close>

definition json_ws :: "int \<Rightarrow> bool" where
  "json_ws c \<longleftrightarrow> c = 32 \<or> c = 9 \<or> c = 10 \<or> c = 13"

definition skip_ws :: "jstr \<Rightarrow> jstr" where
  "skip_ws s = dropWhile json_ws s"

definition hex_val :: "int \<Rightarrow> int option" where
  "hex_val c = (if 48 \<le> c \<and> c \<le> 57 then Some (c - 48)
     else if 97 \<le> c \<and> c \<le> 102 then Some (c - 87)
     else if 65 \<le> c \<and> c \<le> 70 then Some (c - 55) else None)"

definition hex4 :: "int \<Rightarrow> int \<Rightarrow> int \<Rightarrow> int \<Rightarrow> int option" where
  "hex4 a b c d = (case (hex_val a, hex_val b, hex_val c, hex_val d) of
     (Some w, Some x, Some y, Some z) \<Rightarrow> Some (4096 * w + 256 * x + 16 * y + z) | _ \<Rightarrow> None)"

definition simple_escape :: "int \<Rightarrow> int option" where
  "simple_escape e = (if e = 34 \<or> e = 92 \<or> e = 47 then Some e
     else if e = 98 then Some 8 else if e = 102 then Some 12 else if e = 110 then Some 10
     else if e = 114 then Some 13 else if e = 116 then Some 9 else None)"

text \<open>The characters of a string literal after its opening quote, and what follows.\<close>

fun p_chars :: "jstr \<Rightarrow> (jstr \<times> jstr) option" where
  "p_chars [] = None"
| "p_chars (c # s) =
     (if c = 34 then Some ([], s)
      else if c = 92 then
        (case s of [] \<Rightarrow> None
         | e # s1 \<Rightarrow>
             if e = 117 then
               (case s1 of
                  a # b # c1 # d # r \<Rightarrow>
                    (case hex4 a b c1 d of None \<Rightarrow> None
                     | Some u \<Rightarrow> map_option (apfst ((#) u)) (p_chars r))
                | _ \<Rightarrow> None)
             else (case simple_escape e of None \<Rightarrow> None
                   | Some u \<Rightarrow> map_option (apfst ((#) u)) (p_chars s1)))
      else if c < 32 then None
      else map_option (apfst ((#) c)) (p_chars s))"

definition p_frac :: "jstr \<Rightarrow> (jstr \<times> jstr) option" where
  "p_frac s = (if s \<noteq> [] \<and> hd s = 46
     then (let f = takeWhile is_digit (tl s)
           in if f = [] then None else Some (f, dropWhile is_digit (tl s)))
     else Some ([], s))"

definition p_exp :: "jstr \<Rightarrow> (int \<times> jstr) option" where
  "p_exp s = (if s \<noteq> [] \<and> (hd s = 101 \<or> hd s = 69)
     then (let t = tl s; neg = (t \<noteq> [] \<and> hd t = 45);
               u = (if t \<noteq> [] \<and> (hd t = 45 \<or> hd t = 43) then tl t else t);
               ds = takeWhile is_digit u
           in if ds = [] then None
              else Some (if neg then - digits_val ds else digits_val ds, dropWhile is_digit u))
     else Some (0, s))"

definition p_number :: "jstr \<Rightarrow> (jsnum \<times> jstr) option" where
  "p_number s =
     (let neg = (s \<noteq> [] \<and> hd s = 45); t = (if neg then tl s else s); ip = takeWhile is_digit t
      in if ip = [] \<or> (hd ip = 48 \<and> tl ip \<noteq> []) then None
         else (case p_frac (dropWhile is_digit t) of None \<Rightarrow> None
               | Some (fp, r) \<Rightarrow>
                   (case p_exp r of None \<Rightarrow> None
                    | Some (ex, r') \<Rightarrow> Some (parse_decimal neg ip fp ex, r'))))"

definition p_lit :: "jstr \<Rightarrow> jsval \<Rightarrow> jstr \<Rightarrow> (jsval \<times> jstr) option" where
  "p_lit w v s = (if starts_with s w then Some (v, drop (length w) s) else None)"

fun p_value :: "nat \<Rightarrow> jstr \<Rightarrow> (jsval \<times> jstr) option"
  and p_members :: "nat \<Rightarrow> jsobj \<Rightarrow> jstr \<Rightarrow> (jsval \<times> jstr) option"
  and p_elems :: "nat \<Rightarrow> jsval list \<Rightarrow> jstr \<Rightarrow> (jsval \<times> jstr) option" where
  "p_value 0 s = None"
| "p_value (Suc n) s =
     (case skip_ws s of
        [] \<Rightarrow> None
      | c # r \<Rightarrow>
          if c = 34 then map_option (apfst VStr) (p_chars r)
          else if c = 123 then
            (case skip_ws r of [] \<Rightarrow> None
             | d # r' \<Rightarrow> if d = 125 then Some (VObj [], r') else p_members n [] r)
          else if c = 91 then
            (case skip_ws r of [] \<Rightarrow> None
             | d # r' \<Rightarrow> if d = 93 then Some (VArr [], r') else p_elems n [] r)
          else if c = 116 then p_lit (js ''true'') (VBool True) (c # r)
          else if c = 102 then p_lit (js ''false'') (VBool False) (c # r)
          else if c = 110 then p_lit (js ''null'') VNull (c # r)
          else map_option (apfst VNum) (p_number (c # r)))"
| "p_members 0 acc s = None"
| "p_members (Suc n) acc s =
     (case skip_ws s of
        [] \<Rightarrow> None
      | c # r \<Rightarrow>
          if c \<noteq> 34 then None
          else (case p_chars r of None \<Rightarrow> None
                | Some (k, r1) \<Rightarrow>
                    (case skip_ws r1 of [] \<Rightarrow> None
                     | d # r2 \<Rightarrow>
                         if d \<noteq> 58 then None
                         else (case p_value n r2 of None \<Rightarrow> None
                               | Some (v, r3) \<Rightarrow>
                                   (case skip_ws r3 of [] \<Rightarrow> None
                                    | e # r4 \<Rightarrow>
                                        if e = 44 then p_members n (obj_set k v acc) r4
                                        else if e = 125 then Some (VObj (obj_set k v acc), r4)
                                        else None)))))"
| "p_elems 0 acc s = None"
| "p_elems (Suc n) acc s =
     (case p_value n s of None \<Rightarrow> None
      | Some (v, r) \<Rightarrow>
          (case skip_ws r of [] \<Rightarrow> None
           | e # r' \<Rightarrow>
               if e = 44 then p_elems n (acc @ [v]) r'
               else if e = 93 then Some (VArr (acc @ [v]), r')
               else None))"

definition json_parse :: "jstr \<Rightarrow> jsval option" where
  "json_parse s = (case p_value (2 * length s + 2) s of
     Some (v, r) \<Rightarrow> if skip_ws r = [] then Some v else None | None \<Rightarrow> None)"

section \<open>Printing\<close>

definition hex_digit :: "int \<Rightarrow> int" where
  "hex_digit d = (if d < 10 then 48 + d else 87 + d)"

definition u_escape :: "int \<Rightarrow> jstr" where
  "u_escape c = [92, 117, hex_digit (c div 4096 mod 16), hex_digit (c div 256 mod 16),
     hex_digit (c div 16 mod 16), hex_digit (c mod 16)]"

definition is_high :: "int \<Rightarrow> bool" where
  "is_high c \<longleftrightarrow> 55296 \<le> c \<and> c \<le> 56319"

definition is_low :: "int \<Rightarrow> bool" where
  "is_low c \<longleftrightarrow> 56320 \<le> c \<and> c \<le> 57343"

definition quote_unit :: "int \<Rightarrow> jstr" where
  "quote_unit c = (if c = 34 \<or> c = 92 then [92, c]
     else if c = 8 then [92, 98] else if c = 12 then [92, 102] else if c = 10 then [92, 110]
     else if c = 13 then [92, 114] else if c = 9 then [92, 116]
     else if c < 32 then u_escape c else [c])"

text \<open>Surrogate pairs are printed as they are, lone surrogates as escapes.\<close>

fun quote_chars :: "jstr \<Rightarrow> jstr" where
  "quote_chars [] = []"
| "quote_chars [c] = (if is_high c \<or> is_low c then u_escape c else quote_unit c)"
| "quote_chars (c # d # s) =
     (if is_high c \<and> is_low d then c # d # quote_chars s
      else (if is_high c \<or> is_low c then u_escape c else quote_unit c) @ quote_chars (d # s))"

definition quote :: "jstr \<Rightarrow> jstr" where
  "quote s = [34] @ quote_chars s @ [34]"

fun stringify :: "jsval \<Rightarrow> jstr" where
  "stringify VUndef = js ''null''"
| "stringify VNull = js ''null''"
| "stringify (VBool b) = (if b then js ''true'' else js ''false'')"
| "stringify (VNum x) = (if is_finite x then num_str x else js ''null'')"
| "stringify (VStr s) = quote s"
| "stringify (VArr vs) = [91] @ join [44] (map stringify vs) @ [93]"
| "stringify (VObj ob) =
     [123] @ join [44] (map (\<lambda>p. quote (fst p) @ [58] @ snd p)
       (own_entries (map (\<lambda>p. (fst p, stringify (snd p))) (filter (\<lambda>p. snd p \<noteq> VUndef) ob))))
     @ [125]"

text \<open>\<open>JSON.stringify(v)\<close>: undefined for undefined.\<close>

definition json_stringify :: "jsval \<Rightarrow> jsval" where
  "json_stringify v = (if v = VUndef then VUndef else VStr (stringify v))"

section \<open>Reading back what was printed\<close>

text \<open>What may follow a value inside a JSON text: nothing, a comma, a closing bracket or a line break.\<close>

definition delim :: "jstr \<Rightarrow> bool" where
  "delim r \<longleftrightarrow> r = [] \<or> hd r = 44 \<or> hd r = 93 \<or> hd r = 125 \<or> hd r = 10"

definition units :: "jstr \<Rightarrow> bool" where
  "units s \<longleftrightarrow> (\<forall>c \<in> set s. 0 \<le> c \<and> c < 65536)"

text \<open>The values JSON can carry: no undefined inside, strings of code units, objects whose keys
  are distinct and listed in the order Object.keys gives, and numbers whose decimal numeral
  denotes them.\<close>

fun json_ok :: "jsval \<Rightarrow> bool" where
  "json_ok VUndef = False"
| "json_ok VNull = True"
| "json_ok (VBool b) = True"
| "json_ok (VNum x) = (is_finite x \<and> p_number (num_str x) = Some (x, []))"
| "json_ok (VStr s) = units s"
| "json_ok (VArr vs) = (\<forall>v \<in> set vs. json_ok v)"
| "json_ok (VObj ob) = (obj_wf ob \<and> own_entries ob = ob \<and>
     (\<forall>p \<in> set ob. units (fst p) \<and> json_ok (snd p)))"

lemma hex_val_digit: "0 \<le> d \<Longrightarrow> d < 16 \<Longrightarrow> hex_val (hex_digit d) = Some d"
  by (auto simp: hex_val_def hex_digit_def)

lemma horner16:
  fixes c :: int
  assumes "c = 16 * q1 + r0" "q1 = 16 * q2 + r1" "q2 = 16 * q3 + r2"
  shows "4096 * q3 + 256 * r2 + 16 * r1 + r0 = c"
  using assms by simp

lemma hex_nibbles:
  fixes c :: int
  assumes "0 \<le> c" "c < 65536"
  shows "4096 * (c div 4096 mod 16) + 256 * (c div 256 mod 16) + 16 * (c div 16 mod 16) + c mod 16 = c"
proof -
  have a: "c div 256 = c div 16 div 16" "c div 4096 = c div 16 div 16 div 16"
    by (simp_all add: div_mult2_eq [symmetric])
  have "0 \<le> c div 4096" "c div 4096 < 16" using assms by auto
  then have "c div 16 div 16 div 16 mod 16 = c div 16 div 16 div 16" by (simp add: a)
  then show ?thesis
    unfolding a
    using horner16 [of c "c div 16" "c mod 16" "c div 16 div 16" "c div 16 mod 16"
        "c div 16 div 16 div 16" "c div 16 div 16 mod 16"]
    by (metis mult_div_mod_eq)
qed

lemma hex4_escape:
  assumes "0 \<le> c" "c < 65536"
  shows "hex4 (hex_digit (c div 4096 mod 16)) (hex_digit (c div 256 mod 16))
    (hex_digit (c div 16 mod 16)) (hex_digit (c mod 16)) = Some c"
  using hex_nibbles [OF assms] by (simp only: hex4_def hex_val_digit pos_mod_sign pos_mod_bound
      zero_less_numeral prod.case option.case)

lemma p_chars_u_escape:
  "0 \<le> c \<Longrightarrow> c < 65536 \<Longrightarrow> p_chars (u_escape c @ r) = map_option (apfst ((#) c)) (p_chars r)"
  using hex4_escape [of c] by (simp add: u_escape_def)

lemma p_chars_quote_unit:
  "0 \<le> c \<Longrightarrow> c < 65536 \<Longrightarrow> p_chars (quote_unit c @ r) = map_option (apfst ((#) c)) (p_chars r)"
  by (simp add: quote_unit_def p_chars_u_escape simple_escape_def)

lemma p_chars_quote_chars:
  "units s \<Longrightarrow> p_chars (quote_chars s @ 34 # r) = Some (s, r)"
proof (induction s rule: quote_chars.induct)
  case (3 c d s)
  show ?case
  proof (cases "is_high c \<and> is_low d")
    case True
    then have "34 < c" "34 < d" "c \<noteq> 92" "d \<noteq> 92" by (auto simp: is_high_def is_low_def)
    with True "3.IH"(1) "3.prems" show ?thesis by (simp add: units_def)
  next
    case False
    then have "p_chars (quote_chars (d # s) @ 34 # r) = Some (d # s, r)"
      using "3.IH"(2) "3.prems" by (simp add: units_def)
    then show ?thesis
      using False "3.prems" by (auto simp: p_chars_u_escape p_chars_quote_unit units_def)
  qed
qed (auto simp: p_chars_u_escape p_chars_quote_unit units_def)

lemma skip_ws_Cons [simp]: "\<not> json_ws c \<Longrightarrow> skip_ws (c # r) = c # r"
  by (simp add: skip_ws_def)

lemma json_ws_simps [simp]: "\<not> json_ws 34" "\<not> json_ws 44" "\<not> json_ws 58" "\<not> json_ws 91"
  "\<not> json_ws 93" "\<not> json_ws 123" "\<not> json_ws 125" "\<not> json_ws 116" "\<not> json_ws 102" "\<not> json_ws 110"
  by (simp_all add: json_ws_def)

lemma digits_app:
  "r = [] \<or> \<not> is_digit (hd r) \<Longrightarrow> takeWhile is_digit (s @ r) = takeWhile is_digit s"
  "r = [] \<or> \<not> is_digit (hd r) \<Longrightarrow> dropWhile is_digit (s @ r) = dropWhile is_digit s @ r"
  by (induction s) (cases r; auto)+

lemma delim_not_digit: "delim r \<Longrightarrow> r = [] \<or> \<not> is_digit (hd r)"
  by (auto simp: delim_def is_digit_def)

lemma p_frac_app: "delim r \<Longrightarrow> p_frac s = Some (f, t) \<Longrightarrow> p_frac (s @ r) = Some (f, t @ r)"
  by (cases s) (auto simp: p_frac_def digits_app delim_not_digit delim_def Let_def split: if_splits)

lemma p_exp_app: "delim r \<Longrightarrow> p_exp s = Some (e, t) \<Longrightarrow> p_exp (s @ r) = Some (e, t @ r)"
proof -
  assume r: "delim r" and s: "p_exp s = Some (e, t)"
  show ?thesis
  proof (cases "s \<noteq> [] \<and> (hd s = 101 \<or> hd s = 69)")
    case True
    then obtain c u where su: "s = c # u" "c = 101 \<or> c = 69" by (cases s) auto
    from s su have "u \<noteq> []" by (auto simp: p_exp_def)
    then obtain d v where uv: "u = d # v" by (cases u) auto
    from r have r': "r = [] \<or> \<not> is_digit (hd r)" by (rule delim_not_digit)
    from s su uv show ?thesis
      by (auto simp: p_exp_def Let_def digits_app [OF r'] digits_app [OF r', of "_ # _", simplified]
          split: if_splits)
  next
    case False
    with r s show ?thesis by (cases s) (auto simp: p_exp_def delim_def)
  qed
qed

lemma p_number_app:
  assumes "delim r" "p_number s = Some (x, [])"
  shows "p_number (s @ r) = Some (x, r)"
proof -
  have r: "r = [] \<or> \<not> is_digit (hd r)" using assms(1) by (rule delim_not_digit)
  have s: "s \<noteq> []" using assms(2) by (auto simp: p_number_def)
  define t where "t = (if hd s = 45 then tl s else s)"
  have t: "(if s @ r \<noteq> [] \<and> hd (s @ r) = 45 then tl (s @ r) else s @ r) = t @ r"
    using s by (simp add: t_def)
  have t0: "(if s \<noteq> [] \<and> hd s = 45 then tl s else s) = t" using s by (simp add: t_def)
  obtain fp u ex where f: "p_frac (dropWhile is_digit t) = Some (fp, u)" and e: "p_exp u = Some (ex, [])"
    and ip: "\<not> (takeWhile is_digit t = [] \<or> (hd (takeWhile is_digit t) = 48 \<and> tl (takeWhile is_digit t) \<noteq> []))"
    and x: "x = parse_decimal (hd s = 45) (takeWhile is_digit t) fp ex"
    using assms(2) s unfolding p_number_def Let_def t0 by (auto split: if_splits option.splits prod.splits)
  show ?thesis
    unfolding p_number_def Let_def t digits_app [OF r] using ip s
    by (simp add: p_frac_app [OF assms(1) f] p_exp_app [OF assms(1) e] x)
qed

lemma p_number_hd: "p_number s = Some (x, r) \<Longrightarrow> s \<noteq> [] \<and> (hd s = 45 \<or> is_digit (hd s))"
  by (cases s) (auto simp: p_number_def Let_def split: if_splits)

lemma p_value_number:
  assumes "delim r" "p_number s = Some (x, [])"
  shows "p_value (Suc n) (s @ r) = Some (VNum x, r)"
proof -
  obtain c t where s: "s = c # t" "c = 45 \<or> is_digit c" using p_number_hd [OF assms(2)] by (cases s) auto
  then have "\<not> json_ws c" "c \<noteq> 34" "c \<noteq> 123" "c \<noteq> 91" "c \<noteq> 116" "c \<noteq> 102" "c \<noteq> 110"
    by (auto simp: json_ws_def is_digit_def)
  with s p_number_app [OF assms] show ?thesis by simp
qed

definition reads_back :: "jsval \<Rightarrow> bool" where
  "reads_back v \<longleftrightarrow> (\<forall>n r. delim r \<longrightarrow> 2 * length (stringify v) \<le> n \<longrightarrow>
     p_value n (stringify v @ r) = Some (v, r))"

lemma reads_backD:
  "reads_back v \<Longrightarrow> delim r \<Longrightarrow> 2 * length (stringify v) \<le> n \<Longrightarrow> p_value n (stringify v @ r) = Some (v, r)"
  by (simp add: reads_back_def)

lemma stringify_hd:
  "json_ok v \<Longrightarrow> \<exists>c t. stringify v = c # t \<and> \<not> json_ws c \<and> c \<noteq> 93"
proof (cases v)
  case (VNum x)
  assume "json_ok v"
  with VNum have "is_finite x" "p_number (num_str x) = Some (x, [])" by auto
  with p_number_hd [of "num_str x"] VNum show ?thesis
    by (cases "num_str x") (auto simp: json_ws_def is_digit_def)
qed (auto simp: js_def json_ws_def quote_def)

lemma p_elems_join:
  "vs \<noteq> [] \<Longrightarrow> (\<And>v. v \<in> set vs \<Longrightarrow> reads_back v) \<Longrightarrow>
   2 * length (join [44] (map stringify vs)) + 1 \<le> n \<Longrightarrow>
   p_elems n acc (join [44] (map stringify vs) @ 93 # r) = Some (VArr (acc @ vs), r)"
proof (induction vs arbitrary: n acc)
  case (Cons v vs)
  from Cons.prems(3) obtain m where n: "n = Suc m" by (cases n) auto
  show ?case
  proof (cases vs)
    case Nil
    have "p_value m (stringify v @ 93 # r) = Some (v, 93 # r)"
      using Cons.prems n Nil by (intro reads_backD) (auto simp: delim_def)
    with Nil n show ?thesis by simp
  next
    case (Cons w ws)
    let ?j = "join [44] (map stringify vs)"
    have j: "join [44] (map stringify (v # vs)) = stringify v @ 44 # ?j" using Cons by simp
    have "p_value m (stringify v @ 44 # ?j @ 93 # r) = Some (v, 44 # ?j @ 93 # r)"
      using Cons.prems n j by (intro reads_backD) (auto simp: delim_def)
    moreover have "p_elems m (acc @ [v]) (?j @ 93 # r) = Some (VArr ((acc @ [v]) @ vs), r)"
      using Cons.prems n j Cons by (intro Cons.IH) auto
    ultimately show ?thesis using n j by simp
  qed
qed simp

lemma obj_set_new: "\<not> obj_has acc k \<Longrightarrow> obj_set k v acc = acc @ [(k, v)]"
  unfolding obj_set_def obj_has_def by (induction acc) (auto split: if_splits)

definition member_str :: "jstr \<times> jsval \<Rightarrow> jstr" where
  "member_str p = quote (fst p) @ [58] @ stringify (snd p)"

lemma p_members_join:
  "ob \<noteq> [] \<Longrightarrow> obj_wf (acc @ ob) \<Longrightarrow>
   (\<And>p. p \<in> set ob \<Longrightarrow> units (fst p) \<and> reads_back (snd p)) \<Longrightarrow>
   2 * length (join [44] (map member_str ob)) + 1 \<le> n \<Longrightarrow>
   p_members n acc (join [44] (map member_str ob) @ 125 # r) = Some (VObj (acc @ ob), r)"
proof (induction ob arbitrary: n acc)
  case (Cons p ob)
  obtain k v where p: "p = (k, v)" by (cases p)
  from Cons.prems(4) obtain m where n: "n = Suc m" by (cases n) auto
  have new: "obj_set k v acc = acc @ [p]"
    using Cons.prems(2) p by (auto simp: obj_set_new obj_has_iff obj_wf_def)
  have k: "p_chars (quote_chars k @ 34 # t) = Some (k, t)" for t
    using Cons.prems(3) [of p] p by (simp add: p_chars_quote_chars)
  have v: "reads_back v" using Cons.prems(3) [of p] p by simp
  have m: "member_str p @ t = 34 # quote_chars k @ 34 # 58 # stringify v @ t" for t
    by (simp add: member_str_def quote_def p)
  have len: "length (stringify v) \<le> length (member_str p)" using m [of "[]"] by simp
  show ?case
  proof (cases ob)
    case Nil
    have "p_value m (stringify v @ 125 # r) = Some (v, 125 # r)"
      using Cons.prems(4) n Nil len by (intro reads_backD v) (auto simp: delim_def)
    with Nil n new show ?thesis by (simp add: m k)
  next
    case (Cons q qs)
    let ?j = "join [44] (map member_str ob)"
    have j: "join [44] (map member_str (p # ob)) = member_str p @ 44 # ?j" using Cons by simp
    have "p_value m (stringify v @ 44 # ?j @ 125 # r) = Some (v, 44 # ?j @ 125 # r)"
      using Cons.prems(4) n j len by (intro reads_backD v) (auto simp: delim_def)
    moreover have "p_members m (acc @ [p]) (?j @ 125 # r) = Some (VObj ((acc @ [p]) @ ob), r)"
      using Cons.prems n j Cons by (intro Cons.IH) auto
    ultimately show ?thesis using n j new by (simp add: m k)
  qed
qed simp

lemma own_entries_map:
  "own_entries (map (\<lambda>p. (fst p, f (snd p))) ob) = map (\<lambda>p. (fst p, f (snd p))) (own_entries ob)"
proof -
  let ?g = "\<lambda>p. (fst p, f (snd p))"
  have ins: "sort_ins (\<lambda>a b. digits_val (fst a) \<le> digits_val (fst b)) (?g x) (map ?g xs) =
     map ?g (sort_ins (\<lambda>a b. digits_val (fst a) \<le> digits_val (fst b)) x xs)" for x xs
    by (induction xs) auto
  have "js_sort (\<lambda>a b. digits_val (fst a) \<le> digits_val (fst b)) (map ?g xs) =
     map ?g (js_sort (\<lambda>a b. digits_val (fst a) \<le> digits_val (fst b)) xs)" for xs
    by (induction xs) (auto simp: ins)
  then show ?thesis by (simp add: own_entries_def filter_map o_def)
qed

lemma stringify_obj:
  assumes "own_entries ob = ob" "\<forall>p \<in> set ob. snd p \<noteq> VUndef"
  shows "stringify (VObj ob) = [123] @ join [44] (map member_str ob) @ [125]"
proof -
  have "filter (\<lambda>p. snd p \<noteq> VUndef) ob = ob" using assms(2) by (auto simp: filter_id_conv)
  moreover have "member_str = (\<lambda>p. quote (fst p) @ [58] @ stringify (snd p))"
    by (rule ext) (simp add: member_str_def)
  ultimately show ?thesis using assms(1) by (simp add: own_entries_map o_def)
qed

lemma json_ok_not_undef: "json_ok v \<Longrightarrow> v \<noteq> VUndef"
  by auto

lemma json_ok_reads_back: "json_ok v \<Longrightarrow> reads_back v"
proof (induction v rule: stringify.induct)
  case (4 x)
  then have x: "is_finite x" "p_number (num_str x) = Some (x, [])" by auto
  have "2 * length (num_str x) \<le> n \<Longrightarrow> \<exists>m. n = Suc m" for n
    using p_number_hd [OF x(2)] by (cases n) auto
  with x p_value_number show ?case by (fastforce simp: reads_back_def)
next
  case (5 s)
  show ?case unfolding reads_back_def
  proof (intro allI impI)
    fix n r assume "2 * length (stringify (VStr s)) \<le> n"
    then obtain m where "n = Suc m" by (cases n) (auto simp: quote_def)
    then show "p_value n (stringify (VStr s) @ r) = Some (VStr s, r)"
      using "5.prems" by (simp add: quote_def p_chars_quote_chars)
  qed
next
  case (6 vs)
  show ?case unfolding reads_back_def
  proof (intro allI impI)
    fix n r assume "2 * length (stringify (VArr vs)) \<le> n"
    then obtain m where n: "n = Suc m" "2 * length (join [44] (map stringify vs)) + 1 \<le> m"
      by (cases n) auto
    show "p_value n (stringify (VArr vs) @ r) = Some (VArr vs, r)"
    proof (cases vs)
      case (Cons v ws)
      then obtain c t where c: "stringify v = c # t" "\<not> json_ws c" "c \<noteq> 93"
        using stringify_hd [of v] "6.prems" by auto
      then obtain t' where t': "join [44] (map stringify vs) = c # t'"
        using Cons by (cases ws) auto
      have "p_elems m [] (join [44] (map stringify vs) @ 93 # r) = Some (VArr ([] @ vs), r)"
        using Cons n(2) "6.IH" "6.prems" by (intro p_elems_join) auto
      then show ?thesis using n(1) c(2,3) t' by simp
    qed (simp add: n(1))
  qed
next
  case (7 ob)
  have ok: "\<forall>p \<in> set ob. snd p \<noteq> VUndef" "own_entries ob = ob" "obj_wf ob"
    using "7.prems" json_ok_not_undef by auto
  note str = stringify_obj [OF ok(2) ok(1)]
  show ?case unfolding reads_back_def str
  proof (intro allI impI)
    fix n r assume "2 * length ([123] @ join [44] (map member_str ob) @ [125]) \<le> n"
    then obtain m where n: "n = Suc m" "2 * length (join [44] (map member_str ob)) + 1 \<le> m"
      by (cases n) auto
    show "p_value n (([123] @ join [44] (map member_str ob) @ [125]) @ r) = Some (VObj ob, r)"
    proof (cases ob)
      case (Cons p ps)
      then obtain t' where t': "join [44] (map member_str ob) = 34 # t'"
        by (cases ps) (auto simp: member_str_def quote_def)
      have "p_members m [] (join [44] (map member_str ob) @ 125 # r) = Some (VObj ([] @ ob), r)"
        using Cons n(2) "7.IH" "7.prems" ok by (intro p_members_join) auto
      then show ?thesis using n(1) t' by simp
    qed (simp add: n(1))
  qed
next
  case 2
  have "8 \<le> n \<Longrightarrow> p_value n (js ''null'' @ r) = Some (VNull, r)" for n r
    by (cases n) (auto simp: js_def p_lit_def starts_with_def)
  then show ?case by (simp add: reads_back_def)
next
  case (3 b)
  have "8 \<le> n \<Longrightarrow> p_value n (js ''true'' @ r) = Some (VBool True, r)"
    "8 \<le> n \<Longrightarrow> p_value n (js ''false'' @ r) = Some (VBool False, r)" for n r
    by (cases n; auto simp: js_def p_lit_def starts_with_def)+
  then show ?case by (simp add: reads_back_def)
qed simp

lemma json_parse_stringify: "json_ok v \<Longrightarrow> json_parse (stringify v) = Some v"
  using reads_backD [OF json_ok_reads_back, of v "[]" "2 * length (stringify v) + 2"]
  unfolding json_parse_def by (simp add: delim_def skip_ws_def)

section \<open>Writing a property keeps an object printable\<close>

text \<open>A property name that is not an array index, so that it is listed where it was written.\<close>

definition plain_key :: "jstr \<Rightarrow> bool" where
  "plain_key k \<longleftrightarrow> units k \<and> \<not> is_index_key k"

lemma plain_key_letter: "units k \<Longrightarrow> k \<noteq> [] \<Longrightarrow> \<not> is_digit (hd k) \<Longrightarrow> plain_key k"
  by (cases k) (auto simp: plain_key_def is_index_key_def)

lemma filter_update_index: "\<not> is_index_key k \<Longrightarrow>
    filter (\<lambda>p. is_index_key (fst p)) (AList.update k v ob) = filter (\<lambda>p. is_index_key (fst p)) ob"
  by (induction ob) auto

lemma filter_update_plain: "\<not> is_index_key k \<Longrightarrow>
    filter (\<lambda>p. \<not> is_index_key (fst p)) (AList.update k v ob) =
    AList.update k v (filter (\<lambda>p. \<not> is_index_key (fst p)) ob)"
  by (induction ob) auto

lemma update_append: "k \<notin> fst ` set a \<Longrightarrow> AList.update k v (a @ b) = a @ AList.update k v b"
  by (induction a) auto

lemma own_entries_update:
  assumes "own_entries ob = ob" "\<not> is_index_key k"
  shows "own_entries (obj_set k v ob) = obj_set k v ob"
proof -
  let ?a = "js_sort (\<lambda>a b. digits_val (fst a) \<le> digits_val (fst b)) (filter (\<lambda>p. is_index_key (fst p)) ob)"
  let ?b = "filter (\<lambda>p. \<not> is_index_key (fst p)) ob"
  have "k \<notin> fst ` set ?a" using assms(2) by auto
  then have "obj_set k v (?a @ ?b) = ?a @ AList.update k v ?b" by (simp add: obj_set_def update_append)
  moreover have "own_entries (obj_set k v ob) = ?a @ AList.update k v ?b"
    using assms(2) by (simp add: own_entries_def obj_set_def filter_update_index filter_update_plain)
  ultimately show ?thesis using assms(1) by (simp add: own_entries_def)
qed

lemma own_entries_delete:
  assumes "own_entries ob = ob" "\<not> is_index_key k"
  shows "own_entries (obj_del k ob) = obj_del k ob"
proof -
  let ?a = "js_sort (\<lambda>a b. digits_val (fst a) \<le> digits_val (fst b)) (filter (\<lambda>p. is_index_key (fst p)) ob)"
  let ?b = "filter (\<lambda>p. \<not> is_index_key (fst p)) ob"
  have f: "filter (\<lambda>p. is_index_key (fst p)) (AList.delete k ob) = filter (\<lambda>p. is_index_key (fst p)) ob"
    "filter (\<lambda>p. \<not> is_index_key (fst p)) (AList.delete k ob) = AList.delete k ?b"
    using assms(2) by (induction ob) auto
  have "filter (\<lambda>p. fst p \<noteq> k) ?a = ?a" using assms(2) by (auto simp: filter_id_conv)
  then have "obj_del k (?a @ ?b) = ?a @ AList.delete k ?b" by (simp add: obj_del_def AList.delete_eq case_prod_beta filter_id_conv) (metis (no_types, lifting) filter_cong)
  then show ?thesis using assms(1) f by (simp add: own_entries_def obj_del_def)
qed

lemma set_update_subset: "set (AList.update k v ob) \<subseteq> insert (k, v) (set ob)"
  by (induction ob) auto

lemma json_ok_set:
  assumes "json_ok (VObj ob)" "plain_key k" "json_ok v"
  shows "json_ok (VObj (obj_set k v ob))"
  using assms own_entries_update [of ob k v] set_update_subset [of k v ob]
  by (auto simp: plain_key_def) (fastforce simp: obj_set_def)+

lemma json_ok_del:
  assumes "json_ok (VObj ob)" "plain_key k"
  shows "json_ok (VObj (obj_del k ob))"
  using assms own_entries_delete [of ob k]
  by (auto simp: plain_key_def) (auto simp: obj_del_def AList.delete_eq)

lemma json_ok_empty [simp]: "json_ok (VObj [])"
  by (simp add: own_entries_def)

lemma json_ok_plain:
  assumes "distinct (map fst ob)" "list_all plain_key (map fst ob)" "list_all (\<lambda>p. json_ok (snd p)) ob"
  shows "json_ok (VObj ob)"
  using assms
  by (auto simp: obj_wf_def list_all_iff plain_key_def own_entries_def filter_id_conv filter_empty_conv)

end
