(* ===== verification/JsonPretty.thy ===== *)
theory JsonPretty
  imports JsJson
begin

text \<open>
  \<open>JSON.stringify(v, null, 2)\<close>: one member or element a line, two blanks for each level. What it writes is read
  back by the parser of JsJson, as the compact form is.
\<close>

definition blanks :: "nat \<Rightarrow> jstr" where
  "blanks k = replicate k 32"

text \<open>\<open>pretty k v\<close> is the text of a value whose line is indented by k blanks.\<close>

fun pretty :: "nat \<Rightarrow> jsval \<Rightarrow> jstr" where
  "pretty k (VArr vs) =
     (if vs = [] then js ''[]''
      else [91, 10] @ join [44, 10] (map (\<lambda>v. blanks (k + 2) @ pretty (k + 2) v) vs) @ [10] @ blanks k @ [93])"
| "pretty k (VObj ob) =
     (let ms = own_entries (map (\<lambda>p. (fst p, pretty (k + 2) (snd p))) (filter (\<lambda>p. snd p \<noteq> VUndef) ob)) in
      if ms = [] then js ''{}''
      else [123, 10] @ join [44, 10] (map (\<lambda>p. blanks (k + 2) @ quote (fst p) @ [58, 32] @ snd p) ms) @ [10] @ blanks k @ [125])"
| "pretty k v = stringify v"

definition stringify2 :: "jsval \<Rightarrow> jstr" where
  "stringify2 v = pretty 0 v"

section \<open>White space between tokens\<close>

lemma json_ws_blanks [simp]: "json_ws 32" "json_ws 10"
  by (simp_all add: json_ws_def)

lemma skip_ws_ws [simp]: "json_ws c \<Longrightarrow> skip_ws (c # s) = skip_ws s"
  by (simp add: skip_ws_def)

lemma skip_ws_blanks [simp]: "skip_ws (blanks k @ s) = skip_ws s"
  by (induction k) (simp_all add: blanks_def)

lemma p_value_ws [simp]: "json_ws c \<Longrightarrow> p_value n (c # s) = p_value n s" "p_value n (blanks k @ s) = p_value n s"
  by (cases n; simp)+

lemma p_elems_ws [simp]: "json_ws c \<Longrightarrow> p_elems n acc (c # s) = p_elems n acc s"
  by (cases n) simp_all

lemma p_members_ws [simp]: "json_ws c \<Longrightarrow> p_members n acc (c # s) = p_members n acc s"
  by (cases n) simp_all

section \<open>Reading back\<close>

definition reads_pretty :: "jsval \<Rightarrow> bool" where
  "reads_pretty v \<longleftrightarrow> (\<forall>k n r. delim r \<longrightarrow> 2 * length (pretty k v) \<le> n \<longrightarrow>
     p_value n (pretty k v @ r) = Some (v, r))"

lemma reads_prettyD:
  "reads_pretty v \<Longrightarrow> delim r \<Longrightarrow> 2 * length (pretty k v) \<le> n \<Longrightarrow> p_value n (pretty k v @ r) = Some (v, r)"
  by (simp add: reads_pretty_def)

lemma delim_line [simp]: "delim (10 # s)" "delim (44 # s)"
  by (simp_all add: delim_def)

lemma p_elems_pretty:
  "vs \<noteq> [] \<Longrightarrow> (\<And>v. v \<in> set vs \<Longrightarrow> reads_pretty v) \<Longrightarrow>
   2 * length (join [44, 10] (map (\<lambda>v. blanks j @ pretty j v) vs)) + 1 \<le> n \<Longrightarrow>
   p_elems n acc (join [44, 10] (map (\<lambda>v. blanks j @ pretty j v) vs) @ 10 # blanks k @ 93 # r) = Some (VArr (acc @ vs), r)"
proof (induction vs arbitrary: n acc)
  case (Cons v vs)
  from Cons.prems(3) obtain m where n: "n = Suc m" by (cases n) auto
  have v: "reads_pretty v" using Cons.prems(2) by simp
  show ?case
  proof (cases vs)
    case Nil
    have "p_value m (pretty j v @ 10 # blanks k @ 93 # r) = Some (v, 10 # blanks k @ 93 # r)"
      using Cons.prems(3) n Nil by (intro reads_prettyD v) auto
    with Nil n show ?thesis by simp
  next
    case (Cons w ws)
    let ?j = "join [44, 10] (map (\<lambda>v. blanks j @ pretty j v) vs)"
    have j: "join [44, 10] (map (\<lambda>v. blanks j @ pretty j v) (v # vs)) = blanks j @ pretty j v @ 44 # 10 # ?j"
      using Cons by simp
    have "p_value m (pretty j v @ 44 # 10 # ?j @ 10 # blanks k @ 93 # r) = Some (v, 44 # 10 # ?j @ 10 # blanks k @ 93 # r)"
      using Cons.prems(3) n j by (intro reads_prettyD v) auto
    moreover have "p_elems m (acc @ [v]) (?j @ 10 # blanks k @ 93 # r) = Some (VArr ((acc @ [v]) @ vs), r)"
      using Cons.prems n j Cons by (intro Cons.IH) auto
    ultimately show ?thesis using n j by simp
  qed
qed simp

definition member_line :: "nat \<Rightarrow> jstr \<times> jsval \<Rightarrow> jstr" where
  "member_line j p = blanks j @ quote (fst p) @ [58, 32] @ pretty j (snd p)"

lemma p_members_pretty:
  "ob \<noteq> [] \<Longrightarrow> obj_wf (acc @ ob) \<Longrightarrow> (\<And>p. p \<in> set ob \<Longrightarrow> units (fst p) \<and> reads_pretty (snd p)) \<Longrightarrow>
   2 * length (join [44, 10] (map (member_line j) ob)) + 1 \<le> n \<Longrightarrow>
   p_members n acc (join [44, 10] (map (member_line j) ob) @ 10 # blanks k @ 125 # r) = Some (VObj (acc @ ob), r)"
proof (induction ob arbitrary: n acc)
  case (Cons p ob)
  obtain key v where p: "p = (key, v)" by (cases p)
  from Cons.prems(4) obtain m where n: "n = Suc m" by (cases n) auto
  have new: "obj_set key v acc = acc @ [p]"
    using Cons.prems(2) p by (auto simp: obj_set_new obj_has_iff obj_wf_def)
  have c: "p_chars (quote_chars key @ 34 # t) = Some (key, t)" for t
    using Cons.prems(3) [of p] p by (simp add: p_chars_quote_chars)
  have v: "reads_pretty v" using Cons.prems(3) [of p] p by simp
  have m: "member_line j p @ t = blanks j @ 34 # quote_chars key @ 34 # 58 # 32 # pretty j v @ t" for t
    by (simp add: member_line_def quote_def p)
  have len: "length (pretty j v) \<le> length (member_line j p)" by (simp add: member_line_def p)
  show ?case
  proof (cases ob)
    case Nil
    have "p_value m (pretty j v @ 10 # blanks k @ 125 # r) = Some (v, 10 # blanks k @ 125 # r)"
      using Cons.prems(4) n Nil len by (intro reads_prettyD v) auto
    with Nil n new show ?thesis by (simp add: m c)
  next
    case (Cons q qs)
    let ?j = "join [44, 10] (map (member_line j) ob)"
    have j: "join [44, 10] (map (member_line j) (p # ob)) = member_line j p @ 44 # 10 # ?j" using Cons by simp
    have "p_value m (pretty j v @ 44 # 10 # ?j @ 10 # blanks k @ 125 # r) = Some (v, 44 # 10 # ?j @ 10 # blanks k @ 125 # r)"
      using Cons.prems(4) n j len by (intro reads_prettyD v) auto
    moreover have "p_members m (acc @ [p]) (?j @ 10 # blanks k @ 125 # r) = Some (VObj ((acc @ [p]) @ ob), r)"
      using Cons.prems n j Cons by (intro Cons.IH) auto
    ultimately show ?thesis using n j new by (simp add: m c)
  qed
qed simp

lemma pretty_hd: "json_ok v \<Longrightarrow> \<exists>c t. pretty k v = c # t \<and> \<not> json_ws c \<and> c \<noteq> 93"
proof (cases v)
  case (VObj ob)
  then show ?thesis by (simp add: Let_def js_def)
qed (use stringify_hd [of v] in \<open>auto simp: js_def\<close>)

lemma pretty_obj:
  assumes "own_entries ob = ob" "\<forall>p \<in> set ob. snd p \<noteq> VUndef"
  shows "pretty k (VObj ob) = (if ob = [] then js ''{}''
     else [123, 10] @ join [44, 10] (map (member_line (k + 2)) ob) @ [10] @ blanks k @ [125])"
proof -
  have "filter (\<lambda>p. snd p \<noteq> VUndef) ob = ob" using assms(2) by (auto simp: filter_id_conv)
  moreover have "member_line j = (\<lambda>p. blanks j @ quote (fst p) @ [58, 32] @ pretty j (snd p))" for j
    by (rule ext) (simp add: member_line_def)
  ultimately show ?thesis using assms(1) by (simp add: own_entries_map o_def Let_def)
qed

lemma scalar_reads_pretty: "json_ok v \<Longrightarrow> (\<And>k. pretty k v = stringify v) \<Longrightarrow> reads_pretty v"
  using json_ok_reads_back [of v] by (simp add: reads_pretty_def reads_back_def)

lemma json_ok_reads_pretty: "json_ok v \<Longrightarrow> reads_pretty v"
proof (induction v)
  case (VArr vs)
  show ?case unfolding reads_pretty_def
  proof (intro allI impI)
    fix k n r assume le: "2 * length (pretty k (VArr vs)) \<le> n"
    show "p_value n (pretty k (VArr vs) @ r) = Some (VArr vs, r)"
    proof (cases vs)
      case Nil
      then show ?thesis using le by (cases n) (simp_all add: js_def)
    next
      case (Cons v ws)
      let ?j = "join [44, 10] (map (\<lambda>v. blanks (k + 2) @ pretty (k + 2) v) vs)"
      have ok: "json_ok v" using VArr.prems Cons by simp
      obtain c t where c: "pretty (k + 2) v = c # t" "\<not> json_ws c" "c \<noteq> 93"
        using pretty_hd [OF ok] by blast
      obtain t' where t': "?j = blanks (k + 2) @ c # t'" using Cons c(1) by (cases ws) auto
      obtain m where n: "n = Suc m" "2 * length ?j + 1 \<le> m" using le Cons by (cases n) auto
      have "p_elems m [] (?j @ 10 # blanks k @ 93 # r) = Some (VArr ([] @ vs), r)"
        using Cons n(2) VArr by (intro p_elems_pretty) auto
      moreover have "skip_ws (?j @ 10 # blanks k @ 93 # r) = c # t' @ 10 # blanks k @ 93 # r" using t' c(2) by simp
      ultimately show ?thesis using n(1) Cons c(3) by simp
    qed
  qed
next
  case (VObj ob)
  have ok: "\<forall>p \<in> set ob. snd p \<noteq> VUndef" "own_entries ob = ob" "obj_wf ob"
    using VObj.prems json_ok_not_undef by auto
  have parts: "\<And>p. p \<in> set ob \<Longrightarrow> units (fst p) \<and> reads_pretty (snd p)"
    using VObj.IH VObj.prems by (metis json_ok.simps(7) prod.collapse snds.intros)
  show ?case unfolding reads_pretty_def pretty_obj [OF ok(2) ok(1)]
  proof (intro allI impI)
    fix k n r
    let ?j = "join [44, 10] (map (member_line (k + 2)) ob)"
    assume le: "2 * length (if ob = [] then js ''{}'' else [123, 10] @ ?j @ [10] @ blanks k @ [125]) \<le> n"
    show "p_value n ((if ob = [] then js ''{}'' else [123, 10] @ ?j @ [10] @ blanks k @ [125]) @ r) = Some (VObj ob, r)"
    proof (cases ob)
      case Nil
      then show ?thesis using le by (cases n) (simp_all add: js_def)
    next
      case (Cons p ps)
      obtain t' where t': "?j = blanks (k + 2) @ 34 # t'"
        using Cons by (cases ps) (auto simp: member_line_def quote_def)
      obtain m where n: "n = Suc m" "2 * length ?j + 1 \<le> m" using le Cons by (cases n) auto
      have "p_members m [] (?j @ 10 # blanks k @ 125 # r) = Some (VObj ([] @ ob), r)"
        using Cons n(2) parts ok by (intro p_members_pretty) auto
      moreover have "skip_ws (?j @ 10 # blanks k @ 125 # r) = 34 # t' @ 10 # blanks k @ 125 # r" using t' by simp
      ultimately show ?thesis using n(1) Cons by simp
    qed
  qed
qed (rule scalar_reads_pretty; simp)+

lemma json_parse_pretty: "json_ok v \<Longrightarrow> json_parse (pretty k v) = Some v"
  using reads_prettyD [OF json_ok_reads_pretty, of v "[]" k "2 * length (pretty k v) + 2"]
  unfolding json_parse_def by (simp add: delim_def skip_ws_def)

end
