(* ===== verification/JsCoerce.thy ===== *)
theory JsCoerce
  imports JsJson
begin

text \<open>
  Conversions and property reads that go with the values: Number(v), optional chaining, and records
  of values of one type.
\<close>

section \<open>Numbers from strings and values\<close>

definition radix_num :: "int \<Rightarrow> jstr \<Rightarrow> jsnum" where
  "radix_num b s =
     (if s = [] \<or> \<not> list_all (\<lambda>c. case hex_val c of Some d \<Rightarrow> d < b | None \<Rightarrow> False) s then NaN
      else rnd (of_int (foldl (\<lambda>a c. b * a + the (hex_val c)) 0 s)))"

definition unsigned_decimal :: "bool \<Rightarrow> jstr \<Rightarrow> jsnum" where
  "unsigned_decimal neg s =
     (if s = js ''Infinity'' then signed_inf neg
      else let ip = takeWhile is_digit s; rest = dropWhile is_digit s;
               point = (rest \<noteq> [] \<and> hd rest = 46);
               fp = (if point then takeWhile is_digit (tl rest) else []);
               r = (if point then dropWhile is_digit (tl rest) else rest)
           in if ip = [] \<and> fp = [] then NaN
              else case p_exp r of Some (ex, []) \<Rightarrow> parse_decimal neg ip fp ex | _ \<Rightarrow> NaN)"

definition str_to_num :: "jstr \<Rightarrow> jsnum" where
  "str_to_num str =
     (case trim str of
        [] \<Rightarrow> Fin 0
      | c # s \<Rightarrow>
          if c = 43 then unsigned_decimal False s
          else if c = 45 then unsigned_decimal True s
          else if c = 48 \<and> s \<noteq> [] \<and> (hd s = 120 \<or> hd s = 88) then radix_num 16 (tl s)
          else if c = 48 \<and> s \<noteq> [] \<and> (hd s = 111 \<or> hd s = 79) then radix_num 8 (tl s)
          else if c = 48 \<and> s \<noteq> [] \<and> (hd s = 98 \<or> hd s = 66) then radix_num 2 (tl s)
          else unsigned_decimal False (c # s))"

fun to_number :: "jsval \<Rightarrow> jsnum" where
  "to_number VUndef = NaN"
| "to_number VNull = Fin 0"
| "to_number (VBool b) = (if b then Fin 1 else Fin 0)"
| "to_number (VNum x) = x"
| "to_number (VStr s) = str_to_num s"
| "to_number (VArr vs) = str_to_num (to_str (VArr vs))"
| "to_number (VObj _) = NaN"

section \<open>parseFloat\<close>

text \<open>The longest prefix that is a decimal literal, after white space.\<close>

definition float_exponent :: "jstr \<Rightarrow> int" where
  "float_exponent s = (if s \<noteq> [] \<and> (hd s = 101 \<or> hd s = 69)
     then (let t = tl s; neg = (t \<noteq> [] \<and> hd t = 45);
               u = (if t \<noteq> [] \<and> (hd t = 45 \<or> hd t = 43) then tl t else t);
               ds = takeWhile is_digit u
           in if neg then - digits_val ds else digits_val ds)
     else 0)"

definition parse_float :: "jstr \<Rightarrow> jsnum" where
  "parse_float str =
     (let s = trim_left str; neg = (s \<noteq> [] \<and> hd s = 45);
          r = (if s \<noteq> [] \<and> (hd s = 45 \<or> hd s = 43) then tl s else s);
          ip = takeWhile is_digit r; rest = dropWhile is_digit r;
          point = (rest \<noteq> [] \<and> hd rest = 46);
          fp = (if point then takeWhile is_digit (tl rest) else []);
          after = (if point then dropWhile is_digit (tl rest) else rest)
      in if starts_with r (js ''Infinity'') then signed_inf neg
         else if ip = [] \<and> fp = [] then NaN
         else parse_decimal neg ip fp (float_exponent after))"

section \<open>Optional chaining\<close>

definition opt_prop :: "jsval \<Rightarrow> jstr \<Rightarrow> jsval" where
  "opt_prop v k = (if nullish v then VUndef else js_prop v k)"

text \<open>Element 0 of a value that is not nullish.\<close>

definition first_element :: "jsval \<Rightarrow> jsval" where
  "first_element v =
     (case v of
        VArr (x # _) \<Rightarrow> x
      | VStr (c # _) \<Rightarrow> VStr [c]
      | _ \<Rightarrow> js_prop v (js ''0''))"

definition opt_first :: "jsval \<Rightarrow> jsval" where
  "opt_first v = (if nullish v then VUndef else first_element v)"

section \<open>Records of other values\<close>

text \<open>A TypeScript record with values of one type: writing overwrites in place or appends.\<close>

type_synonym 'v named = "(jstr \<times> 'v) list"

definition named_has :: "'v named \<Rightarrow> jstr \<Rightarrow> bool" where
  "named_has r k \<longleftrightarrow> map_of r k \<noteq> None"

definition named_put :: "jstr \<Rightarrow> 'v \<Rightarrow> 'v named \<Rightarrow> 'v named" where
  "named_put k v r = AList.update k v r"

definition named_get :: "'v named \<Rightarrow> jstr \<Rightarrow> 'v option" where
  "named_get r k = map_of r k"

lemma named_get_put [simp]: "named_get (named_put k v r) k' = (if k' = k then Some v else named_get r k')"
  by (simp add: named_get_def named_put_def update_conv')

lemma named_has_put [simp]: "named_has (named_put k v r) k' \<longleftrightarrow> k' = k \<or> named_has r k'"
  by (simp add: named_has_def named_put_def update_conv')

lemma named_get_Nil [simp]: "named_get [] k = None"
  by (simp add: named_get_def)

lemma named_has_iff: "named_has r k \<longleftrightarrow> named_get r k \<noteq> None"
  by (simp add: named_has_def named_get_def)

text \<open>Folding over the entries of a record with distinct keys: the step for a key sees what the others
  left alone.\<close>

lemma foldl_entries_get:
  assumes "distinct (map fst kvs)"
    and other: "\<And>k v r k'. k' \<noteq> k \<Longrightarrow> named_get (step r (k, v)) k' = named_get r k'"
    and own: "\<And>v r r' k. named_get r k = named_get r' k \<Longrightarrow> named_get (step r (k, v)) k = named_get (step r' (k, v)) k"
  shows "named_get (foldl step r kvs) k =
    (case map_of kvs k of Some v \<Rightarrow> named_get (step r (k, v)) k | None \<Rightarrow> named_get r k)"
  using assms(1)
proof (induction kvs arbitrary: r)
  case (Cons kv kvs)
  obtain k' v' where kv: "kv = (k', v')" by (cases kv)
  have IH: "named_get (foldl step (step r kv) kvs) k =
      (case map_of kvs k of Some v \<Rightarrow> named_get (step (step r kv) (k, v)) k | None \<Rightarrow> named_get (step r kv) k)"
    using Cons by simp
  show ?case
  proof (cases "k = k'")
    case True
    then have "map_of kvs k = None" using Cons.prems kv by (simp add: map_of_eq_None_iff)
    then show ?thesis using IH True kv by simp
  next
    case False
    then have "named_get (step r kv) k = named_get r k" using other kv by simp
    with own have "named_get (step (step r kv) (k, v)) k = named_get (step r (k, v)) k" for v by blast
    then show ?thesis using IH False kv other by (simp split: option.split)
  qed
qed simp

section \<open>Blank texts are not JSON\<close>

lemma ws_not_number: "is_ws c \<Longrightarrow> p_number (c # r) = None"
proof -
  assume "is_ws c"
  then have "c \<noteq> 45" "\<not> is_digit c" by (auto simp: is_ws_def is_digit_def)
  then show ?thesis by (simp add: p_number_def Let_def)
qed

lemma parse_blank: "trim s = [] \<Longrightarrow> json_parse s = None"
proof -
  assume "trim s = []"
  then have ws: "\<forall>c \<in> set (skip_ws s). is_ws c"
    by (auto simp: trim_eq_Nil_iff skip_ws_def dest: set_dropWhileD)
  show ?thesis
  proof (cases "skip_ws s")
    case (Cons c r)
    then have "is_ws c" using ws by simp
    moreover from this have "c \<noteq> 34" "c \<noteq> 123" "c \<noteq> 91" "c \<noteq> 116" "c \<noteq> 102" "c \<noteq> 110"
      by (auto simp: is_ws_def)
    ultimately show ?thesis using Cons by (simp add: json_parse_def ws_not_number)
  qed (simp add: json_parse_def)
qed

end
