(* ===== verification/Regex.thy ===== *)
theory Regex
  imports JsCoerce
begin

text \<open>
  Regular expressions with the backtracking semantics of JavaScript: matching yields the list of
  all ways to match a prefix of the text, in the order in which the engine tries them; the first
  one is the match. A state is the rest of the text with the captures made so far.
\<close>

type_synonym captures = "(nat \<times> jstr) list"

datatype regex =
    Lit jstr
  | Cls "int \<Rightarrow> bool"
  | Seq regex regex
  | Alt regex regex
  | Star regex
  | Grp nat regex
  | Ref nat

text \<open>The greedy loop: more iterations first; an iteration that consumes nothing is not taken, so the
  length of the text bounds the iterations.\<close>

fun star_loop :: "(jstr \<times> captures \<Rightarrow> (jstr \<times> captures) list) \<Rightarrow> nat \<Rightarrow> jstr \<times> captures \<Rightarrow> (jstr \<times> captures) list" where
  "star_loop f 0 st = [st]"
| "star_loop f (Suc n) st =
     concat (map (star_loop f n) (filter (\<lambda>st'. length (fst st') < length (fst st)) (f st))) @ [st]"

fun re_run :: "regex \<Rightarrow> jstr \<times> captures \<Rightarrow> (jstr \<times> captures) list" where
  "re_run (Lit t) (s, cs) = (if starts_with s t then [(drop (length t) s, cs)] else [])"
| "re_run (Cls P) (s, cs) = (case s of x # xs \<Rightarrow> if P x then [(xs, cs)] else [] | [] \<Rightarrow> [])"
| "re_run (Seq a b) st = concat (map (re_run b) (re_run a st))"
| "re_run (Alt a b) st = re_run a st @ re_run b st"
| "re_run (Star r) st = star_loop (re_run r) (length (fst st)) st"
| "re_run (Grp n r) (s, cs) =
     map (\<lambda>(s', cs'). (s', (n, take (length s - length s') s) # cs')) (re_run r (s, cs))"
| "re_run (Ref n) (s, cs) =
     (case map_of cs n of
        Some t \<Rightarrow> if starts_with s t then [(drop (length t) s, cs)] else []
      | None \<Rightarrow> [(s, cs)])"

definition Eps :: regex where
  "Eps = Lit []"

definition Opt :: "regex \<Rightarrow> regex" where
  "Opt r = Alt r Eps"

definition Plus :: "regex \<Rightarrow> regex" where
  "Plus r = Seq r (Star r)"

fun seq :: "regex list \<Rightarrow> regex" where
  "seq [] = Eps"
| "seq [r] = r"
| "seq (r # rs) = Seq r (seq rs)"

fun alts :: "regex list \<Rightarrow> regex" where
  "alts [] = Cls (\<lambda>_. False)"
| "alts [r] = r"
| "alts (r # rs) = Alt r (alts rs)"

text \<open>A literal of the pattern.\<close>

definition lit :: "string \<Rightarrow> regex" where
  "lit s = Lit (js s)"

text \<open>The match of a pattern between \<^verbatim>\<open>^\<close> and \<^verbatim>\<open>$\<close>, and whether there is one.\<close>

definition match_all :: "regex \<Rightarrow> jstr \<Rightarrow> captures option" where
  "match_all r s = (case filter (\<lambda>(rest, cs). rest = []) (re_run r (s, [])) of
     [] \<Rightarrow> None | (rest, cs) # _ \<Rightarrow> Some cs)"

definition re_test :: "regex \<Rightarrow> jstr \<Rightarrow> bool" where
  "re_test r s \<longleftrightarrow> match_all r s \<noteq> None"

text \<open>A captured text; a group that took no part is undefined, read as the empty text.\<close>

definition cap :: "captures \<Rightarrow> nat \<Rightarrow> jstr" where
  "cap cs n = (case map_of cs n of Some t \<Rightarrow> t | None \<Rightarrow> [])"

text \<open>Repeated search from left to right, as by exec with the global flag. The guard looks at the unit
  before a position and at the rest of the text there; patterns here match at least one unit.\<close>

fun search_all :: "nat \<Rightarrow> (int option \<Rightarrow> jstr \<Rightarrow> bool) \<Rightarrow> regex \<Rightarrow> int option \<Rightarrow> jstr \<Rightarrow> captures list" where
  "search_all 0 guard r before s = []"
| "search_all (Suc n) guard r before s =
     (case (if guard before s then re_run r (s, []) else []) of
        (rest, cs) # _ \<Rightarrow>
          cs # search_all n guard r (Some (last (take (length s - length rest) s))) rest
      | [] \<Rightarrow> (case s of [] \<Rightarrow> [] | c # s' \<Rightarrow> search_all n guard r (Some c) s'))"

definition search :: "(int option \<Rightarrow> jstr \<Rightarrow> bool) \<Rightarrow> regex \<Rightarrow> jstr \<Rightarrow> captures list" where
  "search guard r s = search_all (length s + 1) guard r None s"

text \<open>Replacing every match, and splitting at every match, of a pattern that matches at least one unit.\<close>

fun replace_loop :: "nat \<Rightarrow> regex \<Rightarrow> jstr \<Rightarrow> jstr \<Rightarrow> jstr" where
  "replace_loop 0 r t s = s"
| "replace_loop (Suc n) r t s =
     (case re_run r (s, []) of
        (rest, cs) # _ \<Rightarrow> t @ replace_loop n r t rest
      | [] \<Rightarrow> (case s of [] \<Rightarrow> [] | c # s' \<Rightarrow> c # replace_loop n r t s'))"

definition replace_all :: "regex \<Rightarrow> jstr \<Rightarrow> jstr \<Rightarrow> jstr" where
  "replace_all r t s = replace_loop (length s + 1) r t s"

fun split_loop :: "nat \<Rightarrow> regex \<Rightarrow> jstr \<Rightarrow> jstr \<Rightarrow> jstr list" where
  "split_loop 0 r cur s = [cur @ s]"
| "split_loop (Suc n) r cur s =
     (case re_run r (s, []) of
        (rest, cs) # _ \<Rightarrow> cur # split_loop n r [] rest
      | [] \<Rightarrow> (case s of [] \<Rightarrow> [cur] | c # s' \<Rightarrow> split_loop n r (cur @ [c]) s'))"

definition re_split :: "regex \<Rightarrow> jstr \<Rightarrow> jstr list" where
  "re_split r s = split_loop (length s + 1) r [] s"

section \<open>Character classes\<close>

definition digit :: regex where
  "digit = Cls is_digit"

definition digits :: regex where
  "digits = Plus digit"

definition spaces :: regex where
  "spaces = Star (Cls is_ws)"

definition not_in :: "int list \<Rightarrow> regex" where
  "not_in cs = Cls (\<lambda>c. c \<notin> set cs)"

text \<open>The dot: any unit but a line terminator.\<close>

definition dot :: regex where
  "dot = not_in [10, 13, 8232, 8233]"

definition word_unit :: "int \<Rightarrow> bool" where
  "word_unit c \<longleftrightarrow> is_digit c \<or> 65 \<le> c \<and> c \<le> 90 \<or> 97 \<le> c \<and> c \<le> 122 \<or> c = 95"

text \<open>A word boundary before a position.\<close>

definition word_boundary :: "int option \<Rightarrow> jstr \<Rightarrow> bool" where
  "word_boundary before s \<longleftrightarrow>
     (case before of Some c \<Rightarrow> word_unit c | None \<Rightarrow> False) \<noteq> (case s of c # _ \<Rightarrow> word_unit c | [] \<Rightarrow> False)"

section \<open>Facts\<close>

lemma re_run_suffix: "(rest, cs') \<in> set (re_run r (s, cs)) \<Longrightarrow> \<exists>pre. s = pre @ rest"
proof (induction r arbitrary: s cs rest cs')
  case (Lit t)
  then show ?case by (auto simp: starts_with_iff split: if_splits)
next
  case (Cls P)
  then show ?case by (auto split: list.splits if_splits) 
next
  case (Seq a b)
  then obtain s1 c1 where "(s1, c1) \<in> set (re_run a (s, cs))" "(rest, cs') \<in> set (re_run b (s1, c1))" by auto
  then show ?case using Seq.IH by (metis append.assoc)
next
  case (Star r)
  have "(rest, cs') \<in> set (star_loop (re_run r) n (s, cs)) \<Longrightarrow> \<exists>pre. s = pre @ rest" for n s cs
  proof (induction n arbitrary: s cs)
    case (Suc n)
    show ?case
    proof (cases "(rest, cs') = (s, cs)")
      case False
      with Suc.prems obtain s1 c1 where "(s1, c1) \<in> set (re_run r (s, cs))"
        "(rest, cs') \<in> set (star_loop (re_run r) n (s1, c1))" by auto
      then show ?thesis using Suc.IH Star.IH by (metis append.assoc)
    qed auto
  qed auto
  then show ?case using Star.prems by simp
next
  case (Ref n)
  then show ?case by (auto simp: starts_with_iff split: option.splits if_splits)
qed (auto split: prod.splits)

section \<open>Captures\<close>

text \<open>The groups of a pattern, and the texts a pattern can match.\<close>

fun groups :: "regex \<Rightarrow> (nat \<times> regex) list" where
  "groups (Seq a b) = groups a @ groups b"
| "groups (Alt a b) = groups a @ groups b"
| "groups (Star r) = groups r"
| "groups (Grp n r) = (n, r) # groups r"
| "groups _ = []"

definition matches :: "regex \<Rightarrow> jstr \<Rightarrow> bool" where
  "matches r t \<longleftrightarrow> (\<exists>rest cs cs'. (rest, cs') \<in> set (re_run r (t @ rest, cs)))"

lemma matches_run:
  "(rest, cs') \<in> set (re_run r (s, cs)) \<Longrightarrow> matches r (take (length s - length rest) s)"
  using re_run_suffix [of rest cs' r s cs] unfolding matches_def by fastforce

text \<open>Every capture is a text that its group matches.\<close>

lemma re_run_caps:
  "(rest, cs') \<in> set (re_run r (s, cs)) \<Longrightarrow> (n, t) \<in> set cs' \<Longrightarrow>
     (n, t) \<in> set cs \<or> (\<exists>q. (n, q) \<in> set (groups r) \<and> matches q t)"
proof (induction r arbitrary: s cs rest cs')
  case (Seq a b)
  then obtain s1 c1 where "(s1, c1) \<in> set (re_run a (s, cs))" "(rest, cs') \<in> set (re_run b (s1, c1))" by auto
  with Seq.IH Seq.prems(2) show ?case by (metis UnCI groups.simps(1) set_append)
next
  case (Alt a b)
  then show ?case by (metis UnE UnCI groups.simps(2) re_run.simps(4) set_append)
next
  case (Star r)
  have "(rest, cs') \<in> set (star_loop (re_run r) k (s, cs)) \<Longrightarrow>
    (n, t) \<in> set cs \<or> (\<exists>q. (n, q) \<in> set (groups r) \<and> matches q t)" for k s cs
  proof (induction k arbitrary: s cs)
    case (Suc k)
    show ?case
    proof (cases "(rest, cs') = (s, cs)")
      case False
      with Suc.prems obtain s1 c1 where "(s1, c1) \<in> set (re_run r (s, cs))"
        "(rest, cs') \<in> set (star_loop (re_run r) k (s1, c1))" by auto
      then show ?thesis using Suc.IH [of s1 c1] Star.IH [of s1 c1 s cs] Star.prems(2) by blast
    qed (use Star.prems in simp)
  qed (use Star.prems in simp)
  then show ?case using Star.prems by simp
next
  case (Grp m r)
  then obtain c1 where c1: "(rest, c1) \<in> set (re_run r (s, cs))"
      "cs' = (m, take (length s - length rest) s) # c1" by auto
  with Grp.IH [OF c1(1)] Grp.prems(2) matches_run [OF c1(1)] show ?case by auto
qed (auto split: list.splits if_splits option.splits)

lemma map_of_capture:
  "(rest, cs') \<in> set (re_run r (s, [])) \<Longrightarrow> map_of cs' n = Some t \<Longrightarrow>
     \<exists>q. (n, q) \<in> set (groups r) \<and> matches q t"
  using re_run_caps [of rest cs' r s "[]" n t] by (auto dest: map_of_SomeD)

lemma match_all_run: "match_all r s = Some cs \<Longrightarrow> ([], cs) \<in> set (re_run r (s, []))"
proof -
  assume "match_all r s = Some cs"
  then obtain rest ms where "filter (\<lambda>(rest, cs). rest = []) (re_run r (s, [])) = (rest, cs) # ms"
    by (auto simp: match_all_def split: list.splits)
  then have "(rest, cs) \<in> set (filter (\<lambda>(rest, cs). rest = []) (re_run r (s, [])))" by simp
  then show ?thesis by auto
qed

text \<open>The groups that take part in every match.\<close>

fun always_captures :: "regex \<Rightarrow> nat \<Rightarrow> bool" where
  "always_captures (Seq a b) n \<longleftrightarrow> always_captures a n \<or> always_captures b n"
| "always_captures (Alt a b) n \<longleftrightarrow> always_captures a n \<and> always_captures b n"
| "always_captures (Grp m r) n \<longleftrightarrow> m = n \<or> always_captures r n"
| "always_captures _ n \<longleftrightarrow> False"

lemma re_run_Seq:
  "(rest, cs') \<in> set (re_run (Seq a b) (s, cs)) \<longleftrightarrow>
     (\<exists>s1 c1. (s1, c1) \<in> set (re_run a (s, cs)) \<and> (rest, cs') \<in> set (re_run b (s1, c1)))"
  by auto

lemma re_run_keeps:
  "(rest, cs') \<in> set (re_run r (s, cs)) \<Longrightarrow> n \<in> fst ` set cs \<Longrightarrow> n \<in> fst ` set cs'"
proof (induction r arbitrary: s cs rest cs')
  case (Seq a b)
  then show ?case unfolding re_run_Seq by blast
next
  case (Alt a b)
  then show ?case by (metis UnE re_run.simps(4) set_append)
next
  case (Star r)
  have "(rest, cs') \<in> set (star_loop (re_run r) k (s, cs)) \<Longrightarrow> n \<in> fst ` set cs \<Longrightarrow>
    n \<in> fst ` set cs'" for k s cs
  proof (induction k arbitrary: s cs)
    case (Suc k)
    show ?case
    proof (cases "(rest, cs') = (s, cs)")
      case False
      with Suc.prems obtain s1 c1 where "(s1, c1) \<in> set (re_run r (s, cs))"
        "(rest, cs') \<in> set (star_loop (re_run r) k (s1, c1))" by auto
      then show ?thesis using Suc.IH Star.IH Suc.prems(2) by blast
    qed (use Suc.prems in simp)
  qed simp
  then show ?case using Star.prems by simp
next
  case (Grp m r)
  then obtain c1 where "(rest, c1) \<in> set (re_run r (s, cs))"
      "cs' = (m, take (length s - length rest) s) # c1" by auto
  then show ?case using Grp.IH Grp.prems(2) by auto
qed (auto split: list.splits if_splits option.splits)

lemma re_run_captures:
  "(rest, cs') \<in> set (re_run r (s, cs)) \<Longrightarrow> always_captures r n \<Longrightarrow> n \<in> fst ` set cs'"
proof (induction r arbitrary: s cs rest cs')
  case (Seq a b)
  then show ?case unfolding re_run_Seq using re_run_keeps by (metis always_captures.simps(1))
next
  case (Alt a b)
  then show ?case by (metis UnE re_run.simps(4) set_append always_captures.simps(2))
next
  case (Grp m r)
  then obtain c1 where "(rest, c1) \<in> set (re_run r (s, cs))"
      "cs' = (m, take (length s - length rest) s) # c1" by auto
  then show ?case using Grp.IH Grp.prems(2) by auto
qed auto

text \<open>A group that always takes part is captured, and what it captured is a text that it matches.\<close>

lemma capture_matches:
  assumes "match_all r s = Some cs" "always_captures r n" "\<And>q. (n, q) \<in> set (groups r) \<Longrightarrow> q = g"
  shows "matches g (cap cs n)"
proof -
  note run = match_all_run [OF assms(1)]
  obtain t where t: "map_of cs n = Some t"
    using re_run_captures [OF run assms(2)] by (metis image_iff map_of_eq_None_iff not_Some_eq)
  then show ?thesis using map_of_capture [OF run t] assms(3) by (auto simp: cap_def)
qed

lemma matches_Lit [simp]: "matches (Lit u) t \<longleftrightarrow> t = u"
proof
  assume "matches (Lit u) t"
  then obtain rest where "starts_with (t @ rest) u" "drop (length u) (t @ rest) = rest"
    unfolding matches_def by (auto simp del: drop_append split: if_splits)
  then have "t @ rest = u @ rest" by (metis append_take_drop_id starts_with_def)
  then show "t = u" by simp
qed (auto simp: matches_def)

lemma matches_Alt [simp]: "matches (Alt a b) t \<longleftrightarrow> matches a t \<or> matches b t"
  by (auto simp: matches_def)

end
