(* ===== verification/HttpStatusRules.thy ===== *)
theory HttpStatusRules
  imports JsValue
begin

text \<open>
  The HTTP status code rules of the automatic channel disabling settings
  (web/default/src/lib/http-status-code-rules.ts): a comma separated list of codes and
  ranges is parsed, merged into disjoint ascending ranges and printed in a normal form.
  Codes are integers: a numeral that does not fit a double is far above 599 and rejected
  either way.
\<close>

section \<open>The parser\<close>

record status_range =
  r_start :: int
  r_end :: int

record parsed_rules =
  ok :: bool
  ranges :: "status_range list"
  tokens :: "jstr list"
  normalized :: jstr
  invalidTokens :: "jstr list"

definition isNumber :: "jstr \<Rightarrow> bool" where
  "isNumber s \<longleftrightarrow> s \<noteq> [] \<and> list_all is_digit s"

definition isValidCode :: "int \<Rightarrow> bool" where
  "isValidCode code \<longleftrightarrow> 100 \<le> code \<and> code \<le> 599"

text \<open>\<open>const [a, b] = cleaned.split('-')\<close> keeps the first two parts; any further part is
  ignored.\<close>

definition parseToken :: "jstr \<Rightarrow> status_range option" where
  "parseToken token =
     (let cleaned = filter (\<lambda>c. \<not> is_ws c) (trim token) in
      if cleaned = [] then None
      else if 45 \<in> set cleaned then
        (case split_on 45 cleaned of
           a # b # _ \<Rightarrow>
             if \<not> isNumber a \<or> \<not> isNumber b then None
             else (let s = digits_val a; e = digits_val b in
               if \<not> isValidCode s \<or> \<not> isValidCode e \<or> s > e then None
               else Some \<lparr>r_start = s, r_end = e\<rparr>)
         | _ \<Rightarrow> None)
      else if \<not> isNumber cleaned then None
      else (let code = digits_val cleaned in
        if \<not> isValidCode code then None else Some \<lparr>r_start = code, r_end = code\<rparr>))"

definition range_le :: "status_range \<Rightarrow> status_range \<Rightarrow> bool" where
  "range_le a b \<longleftrightarrow> (if r_start a \<noteq> r_start b then r_start a - r_start b \<le> 0
     else r_end a - r_end b \<le> 0)"

definition merge_step :: "status_range list \<Rightarrow> status_range \<Rightarrow> status_range list" where
  "merge_step merged current =
     (if merged = [] \<or> r_start current > r_end (last merged) + 1 then merged @ [current]
      else butlast merged @ [(last merged)\<lparr>r_end := max (r_end (last merged)) (r_end current)\<rparr>])"

definition mergeRanges :: "status_range list \<Rightarrow> status_range list" where
  "mergeRanges rs = (if rs = [] then [] else foldl merge_step [] (js_sort range_le rs))"

definition range_token :: "status_range \<Rightarrow> jstr" where
  "range_token r = (if r_start r = r_end r then int_str (r_start r)
     else int_str (r_start r) @ js ''-'' @ int_str (r_end r))"

definition rule_segments :: "jstr \<Rightarrow> jstr list" where
  "rule_segments raw = filter (\<lambda>s. s \<noteq> [])
     (map trim (split_on 44 (map (\<lambda>c. if c = 65292 then 44 else c) raw)))"

text \<open>The loop over the segments collects the parsed ranges and the invalid tokens.\<close>

fun parse_segments :: "jstr list \<Rightarrow> status_range list \<times> jstr list" where
  "parse_segments [] = ([], [])"
| "parse_segments (s # ss) =
     (case parse_segments ss of (rs, bad) \<Rightarrow>
       (case parseToken s of None \<Rightarrow> (rs, s # bad) | Some r \<Rightarrow> (r # rs, bad)))"

definition parseHttpStatusCodeRules :: "jsval \<Rightarrow> parsed_rules" where
  "parseHttpStatusCodeRules input =
     (let raw = trim (if nullish input then [] else to_str input) in
      if raw = [] then
        \<lparr>ok = True, ranges = [], tokens = [], normalized = [], invalidTokens = []\<rparr>
      else (case parse_segments (rule_segments raw) of (rs, bad) \<Rightarrow>
        if bad \<noteq> [] then
          \<lparr>ok = False, ranges = [], tokens = [], normalized = raw, invalidTokens = bad\<rparr>
        else (let merged = mergeRanges rs; toks = map range_token merged in
          \<lparr>ok = True, ranges = merged, tokens = toks, normalized = join (js '','') toks,
            invalidTokens = []\<rparr>)))"

section \<open>Merging\<close>

text \<open>The codes a list of ranges stands for, and the normal form the merge reaches.\<close>

definition codes :: "status_range list \<Rightarrow> int set" where
  "codes rs = (\<Union>r \<in> set rs. {r_start r .. r_end r})"

definition range_ok :: "status_range \<Rightarrow> bool" where
  "range_ok r \<longleftrightarrow> 100 \<le> r_start r \<and> r_start r \<le> r_end r \<and> r_end r \<le> 599"

definition separated :: "status_range list \<Rightarrow> bool" where
  "separated rs \<longleftrightarrow> sorted_wrt (\<lambda>a b. r_end a + 1 < r_start b) rs"

lemma range_le_total: "\<not> range_le a b \<Longrightarrow> range_le b a"
  by (auto simp: range_le_def split: if_splits)

lemma range_le_trans: "range_le a b \<Longrightarrow> range_le b c \<Longrightarrow> range_le a c"
  by (auto simp: range_le_def split: if_splits)

lemma range_le_start: "range_le a b \<Longrightarrow> r_start a \<le> r_start b"
  by (auto simp: range_le_def split: if_splits)

lemmas range_sorted = sorted_js_sort [where le = range_le, OF range_le_total range_le_trans]

text \<open>One step of the fold: the accumulated ranges stay separated, and each code of the current
  range is added, provided it does not start before the last accumulated range.\<close>

lemma merge_step_snoc:
  "merge_step (ms @ [l]) c = (if r_start c > r_end l + 1 then ms @ [l, c]
     else ms @ [l\<lparr>r_end := max (r_end l) (r_end c)\<rparr>])"
  by (simp add: merge_step_def)

lemma merge_step_props:
  assumes "separated ms" "\<forall>m \<in> set ms. range_ok m" "range_ok c"
    and "ms \<noteq> [] \<longrightarrow> r_start (last ms) \<le> r_start c"
  shows "separated (merge_step ms c) \<and> (\<forall>m \<in> set (merge_step ms c). range_ok m) \<and>
    codes (merge_step ms c) = codes ms \<union> {r_start c .. r_end c} \<and>
    merge_step ms c \<noteq> [] \<and> r_start (last (merge_step ms c)) \<le> r_start c"
proof (cases ms rule: rev_cases)
  case Nil
  then show ?thesis
    using assms(3) by (simp add: merge_step_def separated_def codes_def)
next
  case (snoc ns l)
  have sep: "\<forall>n \<in> set ns. r_end n + 1 < r_start l" "separated ns"
    using assms(1) snoc by (auto simp: separated_def sorted_wrt_append)
  have ok: "range_ok l" "\<forall>n \<in> set ns. range_ok n" and le: "r_start l \<le> r_start c"
    using assms(2,4) snoc by auto
  show ?thesis
  proof (cases "r_start c > r_end l + 1")
    case True
    then show ?thesis
      using sep ok le assms(3)
      by (auto simp: snoc merge_step_snoc separated_def sorted_wrt_append codes_def range_ok_def)
  next
    case False
    have "{r_start l .. max (r_end l) (r_end c)} = {r_start l .. r_end l} \<union> {r_start c .. r_end c}"
      using False le ok(1) by (auto simp: range_ok_def)
    then have "codes (ns @ [l\<lparr>r_end := max (r_end l) (r_end c)\<rparr>]) = codes (ns @ [l]) \<union> {r_start c .. r_end c}"
      by (auto simp: codes_def)
    with False show ?thesis
      using sep ok le assms(3)
      by (auto simp: snoc merge_step_snoc separated_def sorted_wrt_append range_ok_def)
  qed
qed

lemma foldl_merge_step:
  assumes "sorted_wrt range_le rs" "\<forall>r \<in> set rs. range_ok r"
    and "separated ms" "\<forall>m \<in> set ms. range_ok m"
    and "ms \<noteq> [] \<longrightarrow> (\<forall>r \<in> set rs. r_start (last ms) \<le> r_start r)"
  shows "separated (foldl merge_step ms rs) \<and> (\<forall>m \<in> set (foldl merge_step ms rs). range_ok m) \<and>
    codes (foldl merge_step ms rs) = codes ms \<union> codes rs"
  using assms
proof (induction rs arbitrary: ms)
  case (Cons r rs)
  have step: "separated (merge_step ms r)" "\<forall>m \<in> set (merge_step ms r). range_ok m"
    "codes (merge_step ms r) = codes ms \<union> {r_start r .. r_end r}" "merge_step ms r \<noteq> []"
    "r_start (last (merge_step ms r)) \<le> r_start r"
    using merge_step_props [of ms r] Cons.prems by auto
  have "\<forall>q \<in> set rs. r_start (last (merge_step ms r)) \<le> r_start q"
    using step(5) Cons.prems(1) by (fastforce dest: range_le_start)
  with Cons.IH [of "merge_step ms r"] Cons.prems step show ?case
    by (auto simp: codes_def)
qed (auto simp: codes_def)

lemma mergeRanges_props:
  assumes "\<forall>r \<in> set rs. range_ok r"
  shows "separated (mergeRanges rs)" "\<forall>m \<in> set (mergeRanges rs). range_ok m"
    "codes (mergeRanges rs) = codes rs"
  using foldl_merge_step [OF range_sorted [where xs = rs], where ms = "[]"] assms
  by (auto simp: mergeRanges_def separated_def codes_def)

text \<open>A list in normal form is left alone by the merge.\<close>

lemma merge_separated:
  "separated (ms @ rs) \<Longrightarrow> foldl merge_step ms rs = ms @ rs"
proof (induction rs arbitrary: ms)
  case (Cons r rs)
  have "merge_step ms r = ms @ [r]"
    using Cons.prems by (cases ms rule: rev_cases) (auto simp: merge_step_def separated_def sorted_wrt_append)
  with Cons.IH [of "ms @ [r]"] Cons.prems show ?case by simp
qed simp

lemma separated_sorted: "separated rs \<Longrightarrow> \<forall>r \<in> set rs. range_ok r \<Longrightarrow> sorted_wrt range_le rs"
  unfolding separated_def
  by (erule sorted_wrt_mono_rel [rotated]) (auto simp: range_le_def range_ok_def)

lemma mergeRanges_separated: "separated rs \<Longrightarrow> \<forall>r \<in> set rs. range_ok r \<Longrightarrow> mergeRanges rs = rs"
  using merge_separated [of "[]" rs] by (simp add: mergeRanges_def js_sort_sorted separated_sorted)

section \<open>Tokens\<close>

lemma parse_segments_eq:
  "parse_segments ss = (List.map_filter parseToken ss, filter (\<lambda>s. parseToken s = None) ss)"
  by (induction ss) (auto simp: List.map_filter_simps split: option.splits)

lemma parseToken_ok: "parseToken t = Some r \<Longrightarrow> range_ok r"
  by (auto simp: parseToken_def Let_def isValidCode_def range_ok_def split: if_splits list.splits)

lemma isNumber_nat_digits [simp]: "isNumber (nat_digits n)"
  using nat_digits_digits by (auto simp: isNumber_def list_all_iff)

lemma nat_digits_free: "\<not> is_digit c \<Longrightarrow> c \<notin> set (nat_digits n)"
  using nat_digits_digits by auto

lemma range_token_units: "range_ok r \<Longrightarrow> c \<in> set (range_token r) \<Longrightarrow> is_digit c \<or> c = 45"
  using nat_digits_digits
  by (auto simp: range_token_def int_str_def range_ok_def js_def split: if_splits)

lemma range_token_not_ws: "range_ok r \<Longrightarrow> c \<in> set (range_token r) \<Longrightarrow> \<not> is_ws c"
  using range_token_units [of r c] digit_not_ws [of c] by (auto simp: is_ws_def)

lemma range_token_clean:
  assumes "range_ok r"
  shows "filter (\<lambda>c. \<not> is_ws c) (trim (range_token r)) = range_token r" "trim (range_token r) = range_token r"
    "range_token r \<noteq> []" "44 \<notin> set (range_token r)" "65292 \<notin> set (range_token r)"
proof -
  have u: "\<not> is_ws c \<and> c \<noteq> 44 \<and> c \<noteq> 65292" if "c \<in> set (range_token r)" for c
    using range_token_units [OF assms that] range_token_not_ws [OF assms that] by (auto simp: is_digit_def)
  then show "44 \<notin> set (range_token r)" "65292 \<notin> set (range_token r)" by blast+
  from u show t: "trim (range_token r) = range_token r" by (intro trim_no_ws) auto
  from u show "filter (\<lambda>c. \<not> is_ws c) (trim (range_token r)) = range_token r"
    unfolding t by (simp add: filter_id_conv)
  show "range_token r \<noteq> []" using assms by (auto simp: range_token_def int_str_def range_ok_def)
qed

lemma parseToken_range_token: "range_ok r \<Longrightarrow> parseToken (range_token r) = Some r"
proof -
  assume r: "range_ok r"
  have nonneg: "0 \<le> r_start r" "0 \<le> r_end r" "\<not> r_start r < 0" "\<not> r_end r < 0"
    using r by (auto simp: range_ok_def)
  have no_dash: "45 \<notin> set (nat_digits n)" for n by (rule nat_digits_free) (simp add: is_digit_def)
  show ?thesis
  proof (cases "r_start r = r_end r")
    case True
    then have t: "range_token r = nat_digits (nat (r_end r))"
      using nonneg by (simp add: range_token_def int_str_def)
    show ?thesis
      using range_token_clean [OF r] nonneg r True no_dash
      by (simp add: parseToken_def t isValidCode_def range_ok_def Let_def)
  next
    case False
    then have t: "range_token r = nat_digits (nat (r_start r)) @ 45 # nat_digits (nat (r_end r))"
      using nonneg by (simp add: range_token_def int_str_def js_def)
    show ?thesis
      using range_token_clean [OF r] nonneg r no_dash
      by (simp add: parseToken_def t isValidCode_def range_ok_def Let_def split_on_append split_on_free)
  qed
qed

lemma rule_segments_tokens:
  assumes "\<forall>r \<in> set rs. range_ok r" "rs \<noteq> []"
  shows "rule_segments (join (js '','') (map range_token rs)) = map range_token rs"
proof -
  let ?j = "join [44] (map range_token rs)"
  have "c \<noteq> 65292" if "c \<in> set ?j" for c
    using set_join [of "[44]" "map range_token rs"] that range_token_clean(5) assms(1) by fastforce
  then have "map (\<lambda>c. if c = 65292 then 44 else c) ?j = ?j" by (auto intro!: map_idI)
  moreover have "split_on 44 ?j = map range_token rs"
    using assms range_token_clean(4) by (intro split_on_join) auto
  moreover have "map trim (map range_token rs) = map range_token rs"
    using assms(1) range_token_clean(2) by simp
  moreover have "filter (\<lambda>s. s \<noteq> []) (map range_token rs) = map range_token rs"
    using assms(1) range_token_clean(3) by (auto simp: filter_id_conv)
  moreover have "js '','' = [44]" by (simp add: js_def)
  ultimately show ?thesis by (simp only: rule_segments_def)
qed

lemma trim_join_tokens:
  assumes "\<forall>r \<in> set rs. range_ok r"
  shows "trim (join (js '','') (map range_token rs)) = join (js '','') (map range_token rs)"
proof (rule trim_no_ws)
  show "\<forall>c \<in> set (join (js '','') (map range_token rs)). \<not> is_ws c"
  proof
    fix c assume "c \<in> set (join (js '','') (map range_token rs))"
    then have "c = 44 \<or> (\<exists>r \<in> set rs. c \<in> set (range_token r))"
      using set_join [of "js '',''" "map range_token rs"] by (auto simp: js_def)
    then show "\<not> is_ws c" using range_token_not_ws assms by (auto simp: is_ws_def)
  qed
qed

lemma map_filter_parse_tokens:
  "\<forall>r \<in> set rs. range_ok r \<Longrightarrow> List.map_filter parseToken (map range_token rs) = rs"
  by (induction rs) (auto simp: List.map_filter_simps parseToken_range_token)

section \<open>Properties\<close>

text \<open>The text the rules are read from, trimmed.\<close>

definition rules_text :: "jsval \<Rightarrow> jstr" where
  "rules_text input = trim (if nullish input then [] else to_str input)"

lemma parse_cases:
  "parseHttpStatusCodeRules input =
     (let raw = rules_text input; segs = rule_segments raw;
          bad = filter (\<lambda>s. parseToken s = None) segs;
          merged = mergeRanges (List.map_filter parseToken segs) in
      if raw = [] then \<lparr>ok = True, ranges = [], tokens = [], normalized = [], invalidTokens = []\<rparr>
      else if bad \<noteq> [] then
        \<lparr>ok = False, ranges = [], tokens = [], normalized = raw, invalidTokens = bad\<rparr>
      else \<lparr>ok = True, ranges = merged, tokens = map range_token merged,
        normalized = join (js '','') (map range_token merged), invalidTokens = []\<rparr>)"
  unfolding parseHttpStatusCodeRules_def rules_text_def Let_def parse_segments_eq by simp

lemma parsed_ranges_ok: "\<forall>r \<in> set (List.map_filter parseToken ss). range_ok r"
  by (auto simp: List.map_filter_def parseToken_ok)

text \<open>A list of rules is rejected exactly when one of its segments is not a code or a range
  of codes; the result then carries the untouched text and exactly the segments at fault.\<close>

theorem status_rules_error:
  "ok (parseHttpStatusCodeRules input) = False \<longleftrightarrow>
     (\<exists>s. s \<in> set (rule_segments (rules_text input)) \<and> parseToken s = None)"
proof (cases "rules_text input = []")
  case True
  then have "rule_segments (rules_text input) = []" by (simp add: rule_segments_def)
  with True show ?thesis by (simp add: parse_cases)
next
  case False
  then show ?thesis by (auto simp: parse_cases Let_def filter_empty_conv)
qed

text \<open>C40. Accepted rules are in normal form: the ranges ascend, are disjoint and do not touch,
  lie within 100 to 599, and cover exactly the codes the segments denote.\<close>

theorem status_rules_normal_form:
  assumes "ok (parseHttpStatusCodeRules input)"
  shows "separated (ranges (parseHttpStatusCodeRules input)) \<and>
    list_all range_ok (ranges (parseHttpStatusCodeRules input)) \<and>
    codes (ranges (parseHttpStatusCodeRules input)) =
      codes (List.map_filter parseToken (rule_segments (rules_text input)))"
proof (cases "rules_text input = []")
  case True
  then show ?thesis
    by (simp add: parse_cases separated_def codes_def rule_segments_def List.map_filter_simps)
next
  case False
  then show ?thesis
    using assms mergeRanges_props [OF parsed_ranges_ok]
    by (auto simp: parse_cases Let_def list_all_iff split: if_splits)
qed

theorem status_rules_normal_form_witness:
  "separated (ranges (parseHttpStatusCodeRules (VStr (js ''500-502, 429,501-599''))))"
proof -
  have "ok (parseHttpStatusCodeRules (VStr (js ''500-502, 429,501-599'')))" by code_simp
  from status_rules_normal_form [OF this] show ?thesis by simp
qed

text \<open>The printed normal form reads back to the same rules, so normalising is idempotent.\<close>

theorem status_rules_roundtrip:
  assumes "ok (parseHttpStatusCodeRules input)"
  shows "parseHttpStatusCodeRules (VStr (normalized (parseHttpStatusCodeRules input))) =
    parseHttpStatusCodeRules input"
proof -
  let ?merged = "mergeRanges (List.map_filter parseToken (rule_segments (rules_text input)))"
  let ?n = "join (js '','') (map range_token ?merged)"
  note props = mergeRanges_props [OF parsed_ranges_ok, of "rule_segments (rules_text input)"]
  show ?thesis
  proof (cases "rules_text input = [] \<or> ?merged = []")
    case True
    then show ?thesis using assms
      by (auto simp: parse_cases [of input] Let_def split: if_splits) (simp_all add: parse_cases rules_text_def)
  next
    case False
    have n: "rules_text (VStr ?n) = ?n"
      using props(2) by (simp add: rules_text_def trim_join_tokens)
    have ne: "?n \<noteq> []"
      using False props(2) range_token_clean(3) by (cases ?merged rule: list.exhaust; cases "tl ?merged") auto
    have seg: "rule_segments ?n = map range_token ?merged"
      using props(2) False by (intro rule_segments_tokens) auto
    have bad: "filter (\<lambda>s. parseToken s = None) (map range_token ?merged) = []"
      using props(2) by (auto simp: filter_empty_conv parseToken_range_token)
    have mf: "List.map_filter parseToken (map range_token ?merged) = ?merged"
      using props(2) by (rule map_filter_parse_tokens)
    have out: "normalized (parseHttpStatusCodeRules input) = ?n"
      "parseHttpStatusCodeRules input = \<lparr>ok = True, ranges = ?merged, tokens = map range_token ?merged,
        normalized = ?n, invalidTokens = []\<rparr>"
      using assms False by (auto simp: parse_cases [of input] Let_def split: if_splits)
    have "parseHttpStatusCodeRules (VStr ?n) = \<lparr>ok = True, ranges = ?merged,
        tokens = map range_token ?merged, normalized = ?n, invalidTokens = []\<rparr>"
      unfolding parse_cases [of "VStr ?n"] n seg bad mf Let_def
        mergeRanges_separated [OF props(1,2)] using ne by simp
    then show ?thesis unfolding out(1) by (rule trans [OF _ out(2) [symmetric]])
  qed
qed

theorem status_rules_roundtrip_witness:
  "normalized (parseHttpStatusCodeRules (VStr (js ''500-502, 429,501-599''))) = js ''429,500-599'' \<and>
   parseHttpStatusCodeRules (VStr (js ''429,500-599'')) =
     parseHttpStatusCodeRules (VStr (js ''500-502, 429,501-599''))"
proof -
  have o: "ok (parseHttpStatusCodeRules (VStr (js ''500-502, 429,501-599'')))" by code_simp
  have n: "normalized (parseHttpStatusCodeRules (VStr (js ''500-502, 429,501-599''))) = js ''429,500-599''"
    by code_simp
  show ?thesis using status_rules_roundtrip [OF o] unfolding n by simp
qed

end
