(* ===== verification/StatusCodeRisk.thy ===== *)
theory StatusCodeRisk
  imports JsJson
begin

text \<open>
  The guard against risky status code mappings of a channel
  (web/default/src/features/channels/lib/status-code-risk-guard.ts): the JSON object maps
  upstream status codes to returned ones, and mapping away 504 or 524 needs a confirmation.
\<close>

definition NON_REDIRECTABLE_STATUS_CODES :: "int set" where
  "NON_REDIRECTABLE_STATUS_CODES = {504, 524}"

text \<open>The pattern \<open>[1-5]\d{2}\<close> on a whole string.\<close>

definition is_status_text :: "jstr \<Rightarrow> bool" where
  "is_status_text s \<longleftrightarrow> length s = 3 \<and> 49 \<le> hd s \<and> hd s \<le> 53 \<and> list_all is_digit (tl s)"

definition parseStatusCodeKey :: "jstr \<Rightarrow> int option" where
  "parseStatusCodeKey rawKey =
     (let nk = trim rawKey in if \<not> is_status_text nk then None else Some (digits_val nk))"

definition parseStatusCodeMappingTarget :: "jsval \<Rightarrow> int option" where
  "parseStatusCodeMappingTarget rawValue =
     (case rawValue of
        VNum x \<Rightarrow> if is_integer x then
            (if num_le (Fin 100) x \<and> num_le x (Fin 599) then Some \<lfloor>nval x\<rfloor> else None)
          else None
      | VStr s \<Rightarrow> (let n = trim s in
          if \<not> is_status_text n then None
          else (let code = digits_val n in if 100 \<le> code \<and> code \<le> 599 then Some code else None))
      | _ \<Rightarrow> None)"

text \<open>The entries of the mapping; nothing for a blank text, a text that is not JSON, or a JSON
  value that is not an object.\<close>

definition mapping_entries :: "jstr \<Rightarrow> jsobj" where
  "mapping_entries str =
     (if trim str = [] then []
      else (case json_parse str of Some (VObj ob) \<Rightarrow> own_entries ob | _ \<Rightarrow> []))"

definition collectInvalidStatusCodeEntries :: "jstr \<Rightarrow> jstr list" where
  "collectInvalidStatusCodeEntries str =
     concat (map (\<lambda>(rawKey, rawValue).
       if parseStatusCodeKey rawKey = None \<or> parseStatusCodeMappingTarget rawValue = None
       then [rawKey @ js '' '' @ [8594] @ js '' '' @ to_str rawValue] else [])
     (mapping_entries str))"

definition redirect_text :: "int \<Rightarrow> int \<Rightarrow> jstr" where
  "redirect_text a b = int_str a @ js '' -> '' @ int_str b"

definition risky_entry :: "jstr \<times> jsval \<Rightarrow> jstr list" where
  "risky_entry e = (case (parseStatusCodeKey (fst e), parseStatusCodeMappingTarget (snd e)) of
     (Some fromCode, Some toCode) \<Rightarrow>
       if fromCode \<notin> NON_REDIRECTABLE_STATUS_CODES then []
       else if fromCode = toCode then []
       else [redirect_text fromCode toCode]
   | _ \<Rightarrow> [])"

definition collectDisallowedStatusCodeRedirects :: "jstr \<Rightarrow> jstr list" where
  "collectDisallowedStatusCodeRedirects str =
     js_sort str_le (uniq (concat (map risky_entry (mapping_entries str))))"

definition collectNewDisallowedStatusCodeRedirects :: "jstr \<Rightarrow> jstr \<Rightarrow> jstr list" where
  "collectNewDisallowedStatusCodeRedirects originalStr currentStr =
     (let currentRisky = collectDisallowedStatusCodeRedirects currentStr in
      if currentRisky = [] then []
      else filter (\<lambda>m. m \<notin> set (collectDisallowedStatusCodeRedirects originalStr)) currentRisky)"

section \<open>Properties\<close>

lemma is_status_text_digits: "is_status_text s \<Longrightarrow> list_all is_digit s"
  by (cases s) (auto simp: is_status_text_def is_digit_def)

lemma status_text_val:
  assumes "is_status_text s"
  shows "100 \<le> digits_val s \<and> digits_val s \<le> 599"
proof -
  from assms obtain a b c where s: "s = [a, b, c]"
    unfolding is_status_text_def by (metis length_Suc_conv length_0_conv numeral_3_eq_3)
  with assms have "49 \<le> a" "a \<le> 53" "48 \<le> b" "b \<le> 57" "48 \<le> c" "c \<le> 57"
    by (auto simp: is_status_text_def is_digit_def)
  with s show ?thesis by (simp add: digits_val_def)
qed

lemma parseStatusCodeKey_range: "parseStatusCodeKey k = Some c \<Longrightarrow> 100 \<le> c \<and> c \<le> 599"
  using status_text_val by (auto simp: parseStatusCodeKey_def Let_def split: if_splits)

lemma int_str_digits: "0 \<le> i \<Longrightarrow> c \<in> set (int_str i) \<Longrightarrow> is_digit c"
  using nat_digits_digits by (auto simp: int_str_def split: if_splits)

lemma append_digits_eq:
  assumes "\<And>c. c \<in> set a \<Longrightarrow> is_digit c" "\<And>c. c \<in> set a' \<Longrightarrow> is_digit c"
  shows "a @ 32 # b = a' @ 32 # b' \<Longrightarrow> a = a' \<and> b = b'"
  using assms
proof (induction a arbitrary: a')
  case Nil
  then show ?case by (cases a') (force simp: is_digit_def)+
next
  case (Cons x a)
  show ?case
  proof (cases a')
    case Nil
    with Cons.prems show ?thesis by (force simp: is_digit_def)
  next
    case (Cons y ys)
    with Cons.prems Cons.IH [of ys] show ?thesis by auto
  qed
qed

lemma int_str_inj: "0 \<le> a \<Longrightarrow> 0 \<le> b \<Longrightarrow> int_str a = int_str b \<Longrightarrow> a = b"
  by (auto simp: int_str_def dest: nat_digits_inj)

text \<open>Two redirects print the same only when they are the same redirect.\<close>

lemma redirect_text_inj:
  assumes "0 \<le> a" "0 \<le> b" "0 \<le> a'" "0 \<le> b'" "redirect_text a b = redirect_text a' b'"
  shows "a = a' \<and> b = b'"
proof -
  have "int_str a @ 32 # (45 # 62 # 32 # int_str b) = int_str a' @ 32 # (45 # 62 # 32 # int_str b')"
    using assms(5) by (simp add: redirect_text_def js_def)
  then have "int_str a = int_str a'" "int_str b = int_str b'"
    using append_digits_eq [OF int_str_digits [OF assms(1)] int_str_digits [OF assms(3)]] by auto
  then show ?thesis using assms int_str_inj by blast
qed

lemma target_range: "parseStatusCodeMappingTarget v = Some c \<Longrightarrow> 100 \<le> c \<and> c \<le> 599"
proof (cases v)
  case (VNum x)
  assume "parseStatusCodeMappingTarget v = Some c"
  with VNum have i: "is_integer x" and le: "num_le (Fin 100) x" "num_le x (Fin 599)" and c: "c = \<lfloor>nval x\<rfloor>"
    by (auto simp: parseStatusCodeMappingTarget_def split: if_splits)
  show ?thesis
  proof (cases x)
    case (Fin q)
    with le have "100 \<le> q" "q \<le> 599" by auto
    with Fin c show ?thesis by (simp add: le_floor_iff floor_le_iff)
  qed (use i le in \<open>auto simp: is_integer_def num_le_def num_lt_def num_eq_def is_zero_def\<close>)
qed (auto simp: parseStatusCodeMappingTarget_def Let_def split: if_splits)

text \<open>The redirects reported as disallowed are exactly the entries of the mapping that send
  504 or 524 to another valid code, each once, in sorted order.\<close>

theorem disallowed_redirects_exact:
  "(redirect_text a b \<in> set (collectDisallowedStatusCodeRedirects str) \<and> 0 \<le> a \<and> 0 \<le> b \<longleftrightarrow>
     (a = 504 \<or> a = 524) \<and> a \<noteq> b \<and>
     (\<exists>k v. (k, v) \<in> set (mapping_entries str) \<and> parseStatusCodeKey k = Some a \<and>
        parseStatusCodeMappingTarget v = Some b)) \<and>
   distinct (collectDisallowedStatusCodeRedirects str) \<and>
   sorted_wrt str_le (collectDisallowedStatusCodeRedirects str)"
proof (intro conjI iffI; (elim conjE)?)
  assume m: "redirect_text a b \<in> set (collectDisallowedStatusCodeRedirects str)" and nn: "0 \<le> a" "0 \<le> b"
  from m obtain e where e: "e \<in> set (mapping_entries str)" "redirect_text a b \<in> set (risky_entry e)"
    by (auto simp: collectDisallowedStatusCodeRedirects_def)
  then obtain a' b' where r: "parseStatusCodeKey (fst e) = Some a'"
      "parseStatusCodeMappingTarget (snd e) = Some b'" "a' \<in> NON_REDIRECTABLE_STATUS_CODES" "a' \<noteq> b'"
      "redirect_text a b = redirect_text a' b'"
    by (cases "parseStatusCodeKey (fst e)"; cases "parseStatusCodeMappingTarget (snd e)")
      (auto simp: risky_entry_def split: if_splits)
  have "0 \<le> a'" "0 \<le> b'" using parseStatusCodeKey_range [OF r(1)] target_range [OF r(2)] by auto
  then have ab: "a = a'" "b = b'" using redirect_text_inj nn r(5) by blast+
  show "a = 504 \<or> a = 524" "a \<noteq> b" using r ab by (auto simp: NON_REDIRECTABLE_STATUS_CODES_def)
  show "\<exists>k v. (k, v) \<in> set (mapping_entries str) \<and> parseStatusCodeKey k = Some a \<and>
        parseStatusCodeMappingTarget v = Some b"
    using e(1) r(1,2) ab by (intro exI [of _ "fst e"] exI [of _ "snd e"]) simp
next
  assume a: "a = 504 \<or> a = 524" "a \<noteq> b"
    and ex: "\<exists>k v. (k, v) \<in> set (mapping_entries str) \<and> parseStatusCodeKey k = Some a \<and>
        parseStatusCodeMappingTarget v = Some b"
  then obtain k v where kv: "(k, v) \<in> set (mapping_entries str)" "parseStatusCodeKey k = Some a"
    "parseStatusCodeMappingTarget v = Some b" by blast
  then have "redirect_text a b \<in> set (risky_entry (k, v))"
    using a by (auto simp: risky_entry_def NON_REDIRECTABLE_STATUS_CODES_def)
  with kv(1) show "redirect_text a b \<in> set (collectDisallowedStatusCodeRedirects str)"
    by (force simp: collectDisallowedStatusCodeRedirects_def)
  show "0 \<le> a" "0 \<le> b" using a(1) target_range [OF kv(3)] by auto
qed (simp_all add: collectDisallowedStatusCodeRedirects_def)

text \<open>A confirmation is asked for exactly the risky redirects the saved mapping did not have:
  saving the same mapping again never asks.\<close>

theorem new_disallowed_is_difference:
  "set (collectNewDisallowedStatusCodeRedirects orig cur) =
     set (collectDisallowedStatusCodeRedirects cur) - set (collectDisallowedStatusCodeRedirects orig) \<and>
   collectNewDisallowedStatusCodeRedirects cur cur = []"
  by (auto simp: collectNewDisallowedStatusCodeRedirects_def Let_def filter_empty_conv)

lemma risky_example:
  "collectDisallowedStatusCodeRedirects (js ''{\"524\": 200, \"504\": \"500\", \"429\": 503}'') =
    [js ''504 -> 500'', js ''524 -> 200'']"
  by code_simp

end
