(* ===== verification/ModelMapping.thy ===== *)
theory ModelMapping
  imports JsJson
begin

text \<open>
  Validation of the model list and the model mapping of a channel
  (web/default/src/features/channels/lib/model-mapping-validation.ts). The mapping is the text
  of a JSON object from requested to actual model names. Sets are lists without repetition, in
  the insertion order of the JavaScript Set.
\<close>

definition parseModelsString :: "jstr \<Rightarrow> jstr list" where
  "parseModelsString modelsStr =
     (if modelsStr \<noteq> [] then filter (\<lambda>m. m \<noteq> []) (map trim (split_on 44 modelsStr)) else [])"

definition formatModelsArray :: "jstr list \<Rightarrow> jstr" where
  "formatModelsArray models = join (js '','') (uniq models)"

text \<open>The parameter is typed as a string; the check for other values gives ''.\<close>

definition normalizeModelName :: "jsval \<Rightarrow> jstr" where
  "normalizeModelName model = (case model of VStr s \<Rightarrow> trim s | _ \<Rightarrow> [])"

definition extractMappingSourceModels :: "jsval \<Rightarrow> jstr list" where
  "extractMappingSourceModels modelMapping =
     (case modelMapping of
        VStr s \<Rightarrow> (let trimmed = trim s in
          if trimmed = [] then []
          else (case json_parse trimmed of
                  Some (VObj ob) \<Rightarrow> uniq (filter (\<lambda>k. k \<noteq> []) (map trim (obj_keys ob)))
                | _ \<Rightarrow> []))
      | _ \<Rightarrow> [])"

definition string_value :: "jsval \<Rightarrow> jstr option" where
  "string_value v = (case v of VStr s \<Rightarrow> if trim s \<noteq> [] then Some (trim s) else None | _ \<Rightarrow> None)"

definition extractRedirectModels :: "jsval \<Rightarrow> jstr list" where
  "extractRedirectModels modelMapping =
     (case modelMapping of
        VStr s \<Rightarrow> (let trimmed = trim s in
          if trimmed = [] then []
          else (case json_parse trimmed of
                  Some (VObj ob) \<Rightarrow> uniq (List.map_filter (string_value \<circ> snd) (own_entries ob))
                | _ \<Rightarrow> []))
      | _ \<Rightarrow> [])"

text \<open>The loop compares the two arrays position by position; both have the same length here.\<close>

fun differ_somewhere :: "jstr list \<Rightarrow> jstr list \<Rightarrow> bool" where
  "differ_somewhere (c # cs) (i # is) = (if c \<noteq> i then True else differ_somewhere cs is)"
| "differ_somewhere _ _ = False"

definition hasModelConfigChanged :: "jstr list \<Rightarrow> jstr \<Rightarrow> jstr list \<Rightarrow> jstr \<Rightarrow> bool" where
  "hasModelConfigChanged currentModels currentModelMapping initialModels initialModelMapping =
     (if initialModels = [] \<and> initialModelMapping = [] then True
      else if length currentModels \<noteq> length initialModels then True
      else if differ_somewhere currentModels initialModels then True
      else trim currentModelMapping \<noteq> trim initialModelMapping)"

definition findMissingModelsInMapping :: "jstr \<Rightarrow> jstr list \<Rightarrow> jstr list" where
  "findMissingModelsInMapping modelMapping currentModels =
     (if modelMapping = [] \<or> trim modelMapping = [] then []
      else (case json_parse modelMapping of
              Some (VObj ob) \<Rightarrow>
                (let modelSet = map (\<lambda>m. normalizeModelName (VStr m)) currentModels in
                 uniq (filter (\<lambda>key. key \<noteq> [] \<and> key \<notin> set modelSet)
                   (map (\<lambda>k. normalizeModelName (VStr k)) (obj_keys ob))))
            | _ \<Rightarrow> []))"

datatype mapping_check = MappingValid | MappingInvalid jstr

definition validateModelMappingJson :: "jstr \<Rightarrow> mapping_check" where
  "validateModelMappingJson modelMapping =
     (if modelMapping = [] \<or> trim modelMapping = [] then MappingValid
      else (case json_parse modelMapping of
              None \<Rightarrow> MappingInvalid (js ''Model mapping must be valid JSON format'')
            | Some (VObj ob) \<Rightarrow> MappingValid
            | Some _ \<Rightarrow> MappingInvalid (js ''Model mapping must be a valid JSON object'')))"

definition findExposedTargetModels :: "jsval \<Rightarrow> jstr list \<Rightarrow> jstr list" where
  "findExposedTargetModels modelMapping currentModels =
     (let redirectModels = extractRedirectModels modelMapping in
      if redirectModels = [] then []
      else (let modelSet = map (\<lambda>m. normalizeModelName (VStr m)) currentModels in
        filter (\<lambda>m. normalizeModelName (VStr m) \<in> set modelSet) redirectModels))"

record model_categories =
  normalizedCurrentModels :: "jstr list"
  normalizedRedirectModels :: "jstr list"
  classificationSet :: "jstr list"
  redirectOnlySet :: "jstr list"

definition categorizeModelsWithRedirect :: "jstr list \<Rightarrow> jstr list \<Rightarrow> model_categories" where
  "categorizeModelsWithRedirect currentModels redirectModels =
     (let cur = uniq (filter (\<lambda>m. m \<noteq> []) (map (\<lambda>m. normalizeModelName (VStr m)) currentModels));
          red = uniq (filter (\<lambda>m. m \<noteq> []) (map (\<lambda>m. normalizeModelName (VStr m)) redirectModels))
      in \<lparr>normalizedCurrentModels = cur, normalizedRedirectModels = red,
          classificationSet = uniq (cur @ red),
          redirectOnlySet = uniq (filter (\<lambda>m. m \<notin> set cur) red)\<rparr>)"

section \<open>Properties\<close>

lemma normalizeModelName_VStr [simp]: "normalizeModelName (VStr s) = trim s"
  by (simp add: normalizeModelName_def)

definition model_name :: "jstr \<Rightarrow> bool" where
  "model_name m \<longleftrightarrow> m \<noteq> [] \<and> trimmed m \<and> 44 \<notin> set m"

text \<open>Printing a list of model names and parsing it again gives the list without its
  repetitions, and parsing always gives model names.\<close>

theorem models_roundtrip:
  assumes "list_all model_name ms"
  shows "parseModelsString (formatModelsArray ms) = uniq ms \<and> list_all model_name (parseModelsString s)"
proof
  show "parseModelsString (formatModelsArray ms) = uniq ms"
  proof (cases "ms = []")
    case True
    then show ?thesis by (simp add: parseModelsString_def formatModelsArray_def)
  next
    case False
    have m: "m \<noteq> [] \<and> trim m = m \<and> 44 \<notin> set m" if "m \<in> set (uniq ms)" for m
      using assms that by (auto simp: list_all_iff model_name_def trim_trimmed)
    have ne: "uniq ms \<noteq> []" using False by (cases ms) auto
    have j: "js '','' = [44]" by (simp add: js_def)
    have s: "split_on 44 (join [44] (uniq ms)) = uniq ms"
      using ne m by (intro split_on_join) auto
    then have "join [44] (uniq ms) \<noteq> []" using m ne by (metis hd_in_set split_on.simps(1) list.sel(1))
    moreover have "map trim (uniq ms) = uniq ms" using m by (auto intro!: map_idI)
    moreover have "filter (\<lambda>m. m \<noteq> []) (uniq ms) = uniq ms" using m by (auto simp: filter_id_conv)
    ultimately show ?thesis
      by (simp only: parseModelsString_def formatModelsArray_def j s) simp
  qed
next
  show "list_all model_name (parseModelsString s)"
    using set_split_on [of _ 44 s] set_trim
    by (fastforce simp: parseModelsString_def list_all_iff model_name_def)
qed

theorem models_roundtrip_witness:
  "parseModelsString (formatModelsArray [js ''gpt-4o'', js ''o1'', js ''gpt-4o'']) = [js ''gpt-4o'', js ''o1'']"
proof -
  have "list_all model_name [js ''gpt-4o'', js ''o1'', js ''gpt-4o'']"
    by (simp add: model_name_def trimmed_def js_def is_ws_def)
  from models_roundtrip [OF this] show ?thesis by simp
qed

lemma differ_somewhere_iff: "length cs = length is \<Longrightarrow> differ_somewhere cs is \<longleftrightarrow> cs \<noteq> is"
  by (induction cs "is" rule: differ_somewhere.induct) auto

text \<open>An edited channel counts as unchanged exactly when the models are the same list and
  the mappings agree up to surrounding white space; a new channel always counts as changed.\<close>

theorem model_config_unchanged_iff:
  "hasModelConfigChanged cur curMap ini iniMap = False \<longleftrightarrow>
     \<not> (ini = [] \<and> iniMap = []) \<and> cur = ini \<and> trim curMap = trim iniMap"
  by (auto simp: hasModelConfigChanged_def differ_somewhere_iff)

text \<open>The missing models are exactly the trimmed non-empty keys of the mapping that no entry
  of the model list equals up to white space, each once; adding them leaves none missing.\<close>

theorem missing_models_exact:
  "findMissingModelsInMapping mapping (cur @ findMissingModelsInMapping mapping cur) = [] \<and>
   distinct (findMissingModelsInMapping mapping cur) \<and>
   (m \<in> set (findMissingModelsInMapping mapping cur) \<longleftrightarrow>
     trim mapping \<noteq> [] \<and> (\<exists>ob k. json_parse mapping = Some (VObj ob) \<and> obj_has ob k \<and> m = trim k) \<and>
     m \<noteq> [] \<and> m \<notin> trim ` set cur)"
proof (cases "json_parse mapping")
  case (Some v)
  then show ?thesis
  proof (cases v)
    case (VObj ob)
    have keys: "fst ` set (own_entries ob) = {k. obj_has ob k}" using set_obj_keys [of ob] by (simp add: obj_keys_def)
    show ?thesis using Some VObj keys
      by (auto simp: findMissingModelsInMapping_def filter_empty_conv set_obj_keys image_iff
          simp flip: set_empty)
  qed (auto simp: findMissingModelsInMapping_def)
qed (auto simp: findMissingModelsInMapping_def)

text \<open>The four sets shown for a mapping: the redirect-only models are the redirect targets
  that are not listed, and together with the listed models they make up the classification set.\<close>

theorem categories_partition:
  "set (classificationSet (categorizeModelsWithRedirect cur red)) =
     set (normalizedCurrentModels (categorizeModelsWithRedirect cur red)) \<union>
     set (redirectOnlySet (categorizeModelsWithRedirect cur red)) \<and>
   set (normalizedCurrentModels (categorizeModelsWithRedirect cur red)) \<inter>
     set (redirectOnlySet (categorizeModelsWithRedirect cur red)) = {} \<and>
   set (normalizedRedirectModels (categorizeModelsWithRedirect cur red)) = trim ` set red - {[]} \<and>
   classificationSet (categorizeModelsWithRedirect cur red) =
     normalizedCurrentModels (categorizeModelsWithRedirect cur red) @
     redirectOnlySet (categorizeModelsWithRedirect cur red)"
  by (auto simp: categorizeModelsWithRedirect_def Let_def uniq_append uniq_distinct)

end
