(* ===== verification/ChannelTypes.thy ===== *)
theory ChannelTypes
  imports JsJson
begin

text \<open>
  Channels of the relay: the constants of web/default/src/features/channels/constants.ts and the
  channel record of features/channels/types.ts. Numbers of the API are JavaScript numbers;
  a field that may be null or missing, and the two fields that a tag row abuses (\<open>id\<close> and
  \<open>status\<close>), hold any JavaScript value. Tables keyed by a channel type are association
  lists of integers.
\<close>

text \<open>Reading a property of a table whose keys are integers: the number is printed and looked up,
  so only integral numbers (and the two zeros) can find an entry.\<close>

fun table_get :: "(int \<times> 'v) list \<Rightarrow> jsnum \<Rightarrow> 'v option" where
  "table_get tab (Fin q) = (if q = of_int \<lfloor>q\<rfloor> then map_of tab \<lfloor>q\<rfloor> else None)"
| "table_get tab NegZero = map_of tab 0"
| "table_get _ _ = None"

text \<open>The lookup followed by || with a default text.\<close>

definition text_or :: "jstr option \<Rightarrow> jstr \<Rightarrow> jstr" where
  "text_or v d = (case v of Some s \<Rightarrow> if s \<noteq> [] then s else d | None \<Rightarrow> d)"

definition CHANNEL_TYPES :: "(int \<times> jstr) list" where
  "CHANNEL_TYPES =
    [(0, js ''Unknown''), (1, js ''OpenAI''), (3, js ''Azure''), (4, js ''Ollama''),
     (6, js ''OpenAIMax''), (7, js ''OhMyGPT''), (8, js ''Custom''), (9, js ''AILS''),
     (10, js ''AI Proxy''), (11, js ''PaLM''), (12, js ''API2GPT''), (13, js ''AIGC2D''),
     (14, js ''Anthropic''), (15, js ''Baidu''), (16, js ''Zhipu''), (17, js ''Ali''),
     (18, js ''Xunfei''), (19, js ''360''), (20, js ''OpenRouter''), (21, js ''AI Proxy Library''),
     (22, js ''FastGPT''), (23, js ''Tencent''), (24, js ''Gemini''), (25, js ''Moonshot''),
     (26, js ''Zhipu V4''), (27, js ''Perplexity''), (31, js ''LingYiWanWu''), (33, js ''AWS''),
     (34, js ''Cohere''), (35, js ''MiniMax''), (36, js ''SunoAPI''), (37, js ''Dify''),
     (38, js ''Jina''), (39, js ''Cloudflare''), (40, js ''SiliconFlow''), (41, js ''Vertex AI''),
     (42, js ''Mistral''), (43, js ''DeepSeek''), (44, js ''MokaAI''), (45, js ''VolcEngine''),
     (46, js ''Baidu V2''), (47, js ''Xinference''), (48, js ''xAI''), (49, js ''Coze''),
     (50, js ''Kling''), (51, js ''Jimeng''), (52, js ''Vidu''), (53, js ''Submodel''),
     (54, js ''DoubaoVideo''), (56, js ''Replicate''), (57, js ''Codex'')]"

definition CHANNEL_TYPE_DISPLAY_ORDER :: "int list" where
  "CHANNEL_TYPE_DISPLAY_ORDER =
    [1, 14, 33, 24, 43, 3, 41, 48, 42, 34, 20, 4, 40, 27, 25, 17, 26, 15, 46, 23,
     18, 45, 31, 35, 49, 19, 47, 37, 38, 39, 11, 8, 57, 22, 21, 44, 36, 50, 51,
     52, 53, 54, 56]"

text \<open>The options are the types of the display order that have a label, followed by the other
  types but 0; the set holds the types already listed.\<close>

fun ordered_options :: "int list \<Rightarrow> (int \<times> jstr) list" where
  "ordered_options [] = []"
| "ordered_options (i # rest) =
     (case map_of CHANNEL_TYPES i of
        Some label \<Rightarrow> if label \<noteq> [] then (i, label) # ordered_options rest else ordered_options rest
      | None \<Rightarrow> ordered_options rest)"

definition CHANNEL_TYPE_OPTIONS :: "(int \<times> jstr) list" where
  "CHANNEL_TYPE_OPTIONS =
     (let ordered = ordered_options CHANNEL_TYPE_DISPLAY_ORDER in
      ordered @ filter (\<lambda>(id, label). id \<noteq> 0 \<and> id \<notin> set (map fst ordered)) CHANNEL_TYPES)"

definition STATUS_UNKNOWN :: int where "STATUS_UNKNOWN = 0"
definition STATUS_ENABLED :: int where "STATUS_ENABLED = 1"
definition STATUS_MANUAL_DISABLED :: int where "STATUS_MANUAL_DISABLED = 2"
definition STATUS_AUTO_DISABLED :: int where "STATUS_AUTO_DISABLED = 3"

datatype variant = Vneutral | Vsuccess | Vinfo | Vwarning | Vdanger

record badge =
  badge_variant :: variant
  badge_label :: jstr

text \<open>Every entry has showDot: true.\<close>

definition CHANNEL_STATUS_CONFIG :: "(int \<times> badge) list" where
  "CHANNEL_STATUS_CONFIG =
    [(STATUS_UNKNOWN, \<lparr> badge_variant = Vneutral, badge_label = js ''Unknown'' \<rparr>),
     (STATUS_ENABLED, \<lparr> badge_variant = Vsuccess, badge_label = js ''Enabled'' \<rparr>),
     (STATUS_MANUAL_DISABLED, \<lparr> badge_variant = Vneutral, badge_label = js ''Disabled'' \<rparr>),
     (STATUS_AUTO_DISABLED, \<lparr> badge_variant = Vdanger, badge_label = js ''Auto Disabled'' \<rparr>)]"

definition MULTI_KEY_STATUS_CONFIG :: "(int \<times> badge) list" where
  "MULTI_KEY_STATUS_CONFIG =
    [(1, \<lparr> badge_variant = Vsuccess, badge_label = js ''Enabled'' \<rparr>),
     (2, \<lparr> badge_variant = Vneutral, badge_label = js ''Manual Disabled'' \<rparr>),
     (3, \<lparr> badge_variant = Vdanger, badge_label = js ''Auto Disabled'' \<rparr>)]"

definition RESPONSE_EXCELLENT :: badge where
  "RESPONSE_EXCELLENT = \<lparr> badge_variant = Vsuccess, badge_label = js ''Excellent'' \<rparr>"
definition RESPONSE_GOOD :: badge where
  "RESPONSE_GOOD = \<lparr> badge_variant = Vinfo, badge_label = js ''Good'' \<rparr>"
definition RESPONSE_FAIR :: badge where
  "RESPONSE_FAIR = \<lparr> badge_variant = Vwarning, badge_label = js ''Fair'' \<rparr>"
definition RESPONSE_POOR :: badge where
  "RESPONSE_POOR = \<lparr> badge_variant = Vdanger, badge_label = js ''Poor'' \<rparr>"
definition RESPONSE_UNKNOWN :: badge where
  "RESPONSE_UNKNOWN = \<lparr> badge_variant = Vneutral, badge_label = js ''Not tested'' \<rparr>"

text \<open>The thresholds EXCELLENT, GOOD, FAIR and POOR in milliseconds.\<close>

definition RESPONSE_TIME_THRESHOLDS :: "jsnum \<times> jsnum \<times> jsnum \<times> jsnum" where
  "RESPONSE_TIME_THRESHOLDS = (Fin 500, Fin 1000, Fin 2000, Fin 5000)"

definition MODEL_FETCHABLE_TYPES :: "jsnum list" where
  "MODEL_FETCHABLE_TYPES =
     map Fin [1, 4, 14, 17, 20, 23, 24, 25, 26, 27, 31, 34, 35, 40, 42, 43, 47, 48]"

definition TYPE_TO_KEY_PROMPT :: "(int \<times> jstr) list" where
  "TYPE_TO_KEY_PROMPT =
    [(15, js ''Format: APIKey|SecretKey''),
     (18, js ''Format: APPID|APISecret|APIKey''),
     (22, js ''Format: APIKey-AppId, e.g., fastgpt-0sp2gtvfdgyi4k30jwlgwf1i-64f335d84283f05518e9e041''),
     (23, js ''Format: AppId|SecretId|SecretKey''),
     (33, js ''Format: Ak|Sk|Region''),
     (50, js ''Format: AccessKey|SecretKey (or just ApiKey if upstream is New API)''),
     (51, js ''Format: Access Key ID|Secret Access Key''),
     (57, js ''Paste Codex OAuth JSON credential (access_token / refresh_token / account_id)'')]"

definition TYPE_TO_ICON :: "(int \<times> jstr) list" where
  "TYPE_TO_ICON =
    [(1, js ''OpenAI''), (6, js ''OpenAI''), (7, js ''OpenAI''), (8, js ''OpenAI''), (3, js ''Azure''),
     (14, js ''Claude''), (24, js ''Gemini''), (11, js ''Google''), (41, js ''Gemini''), (33, js ''Aws''),
     (39, js ''Cloudflare''), (15, js ''Baidu''), (46, js ''Baidu''), (16, js ''Zhipu''), (26, js ''Zhipu''),
     (17, js ''Qwen''), (18, js ''Spark''), (23, js ''Hunyuan''), (19, js ''Ai360''), (25, js ''Moonshot''),
     (31, js ''Yi''), (35, js ''Minimax''), (45, js ''Volcengine''), (4, js ''Ollama''), (27, js ''Perplexity''),
     (34, js ''Cohere''), (42, js ''Mistral''), (43, js ''DeepSeek''), (48, js ''XAI''), (49, js ''Coze''),
     (40, js ''SiliconCloud''), (44, js ''OpenAI''), (20, js ''OpenRouter''), (50, js ''Kling''), (51, js ''Jimeng''),
     (52, js ''Vidu''), (36, js ''Suno''), (54, js ''Doubao''), (56, js ''Replicate''), (37, js ''Dify''),
     (38, js ''Jina''), (22, js ''FastGPT''), (47, js ''Xinference''), (53, js ''OpenAI''), (10, js ''OpenAI''),
     (21, js ''OpenAI''), (12, js ''OpenAI''), (13, js ''OpenAI''), (9, js ''OpenAI'')]"


text \<open>The keys of a channel with several keys. An optional map is an association list or None.\<close>

record channel_info =
  is_multi_key :: bool
  multi_key_size :: jsnum
  multi_key_status_list :: "(jstr \<times> jsnum) list option"
  multi_key_disabled_reason :: "(jstr \<times> jstr) list option"
  multi_key_disabled_time :: "(jstr \<times> jsnum) list option"
  multi_key_polling_index :: jsnum
  multi_key_mode :: jstr

record channel =
  ch_id :: jsval
  ch_type :: jsnum
  ch_key :: jstr
  ch_openai_organization :: jsval
  ch_test_model :: jsval
  ch_status :: jsval
  ch_name :: jstr
  ch_weight :: jsval
  ch_created_time :: jsnum
  ch_test_time :: jsnum
  ch_response_time :: jsnum
  ch_base_url :: jsval
  ch_other :: jstr
  ch_balance :: jsnum
  ch_balance_updated_time :: jsnum
  ch_models :: jstr
  ch_group :: jstr
  ch_used_quota :: jsnum
  ch_model_mapping :: jsval
  ch_status_code_mapping :: jsval
  ch_priority :: jsval
  ch_auto_ban :: jsval
  ch_other_info :: jstr
  ch_tag :: jsval
  ch_setting :: jsval
  ch_param_override :: jsval
  ch_header_override :: jsval
  ch_remark :: jstr
  ch_max_input_tokens :: jsnum
  ch_channel_info :: "channel_info option"
  ch_settings :: jstr

text \<open>The types that channelSchema gives to the fields held as JavaScript values.\<close>

fun nullish_string :: "jsval \<Rightarrow> bool" where
  "nullish_string (VStr _) = True"
| "nullish_string v = nullish v"

fun nullish_number :: "jsval \<Rightarrow> bool" where
  "nullish_number (VNum _) = True"
| "nullish_number v = nullish v"

definition is_number :: "jsval \<Rightarrow> bool" where
  "is_number v = (case v of VNum _ \<Rightarrow> True | _ \<Rightarrow> False)"

definition channelSchema :: "channel \<Rightarrow> bool" where
  "channelSchema ch \<longleftrightarrow>
     is_number (ch_id ch) \<and> is_number (ch_status ch) \<and>
     list_all nullish_string
       [ch_openai_organization ch, ch_test_model ch, ch_base_url ch, ch_model_mapping ch,
        ch_status_code_mapping ch, ch_tag ch, ch_setting ch, ch_param_override ch,
        ch_header_override ch] \<and>
     list_all nullish_number [ch_weight ch, ch_priority ch, ch_auto_ban ch] \<and>
     (case ch_channel_info ch of
        None \<Rightarrow> False
      | Some info \<Rightarrow> multi_key_mode info = js ''random'' \<or> multi_key_mode info = js ''polling'')"

text \<open>A channel as the API sends it, to build the concrete channels of the examples.\<close>

definition sample_channel :: channel where
  "sample_channel =
     \<lparr> ch_id = VNum (Fin 1), ch_type = Fin 1, ch_key = [], ch_openai_organization = VNull,
       ch_test_model = VNull, ch_status = VNum (Fin 1), ch_name = js ''main'', ch_weight = VNum (Fin 0),
       ch_created_time = Fin 0, ch_test_time = Fin 0, ch_response_time = Fin 0,
       ch_base_url = VNull, ch_other = [], ch_balance = Fin 0, ch_balance_updated_time = Fin 0,
       ch_models = js ''gpt-4o'', ch_group = js ''default'', ch_used_quota = Fin 0,
       ch_model_mapping = VNull, ch_status_code_mapping = VNull, ch_priority = VNum (Fin 0),
       ch_auto_ban = VNum (Fin 1), ch_other_info = [], ch_tag = VNull, ch_setting = VNull,
       ch_param_override = VNull, ch_header_override = VNull, ch_remark = [],
       ch_max_input_tokens = Fin 0,
       ch_channel_info = Some \<lparr> is_multi_key = False, multi_key_size = Fin 0,
         multi_key_status_list = None, multi_key_disabled_reason = None,
         multi_key_disabled_time = None, multi_key_polling_index = Fin 0,
         multi_key_mode = js ''random'' \<rparr>,
       ch_settings = js ''{}'' \<rparr>"

lemma sample_channel_ok: "channelSchema sample_channel"
  by code_simp

subsection \<open>Tables\<close>

lemma set_ordered_options:
  "set (ordered_options is) = {(i, label). i \<in> set is \<and> map_of CHANNEL_TYPES i = Some label \<and> label \<noteq> []}"
  by (induction "is" rule: ordered_options.induct) (auto split: option.splits)

lemma types_distinct: "distinct (map fst CHANNEL_TYPES)"
  by (simp add: CHANNEL_TYPES_def)

lemma types_labelled: "(i, label) \<in> set CHANNEL_TYPES \<Longrightarrow> label \<noteq> []"
  by (auto simp: CHANNEL_TYPES_def)

lemma ordered_options_ids:
  "map fst (ordered_options is) = filter (\<lambda>i. i \<in> fst ` set CHANNEL_TYPES) is"
  by (induction "is" rule: ordered_options.induct)
    (auto split: option.splits dest: map_of_SomeD types_labelled simp: map_of_eq_None_iff
      rev_image_eqI)

lemma display_order_known:
  "set CHANNEL_TYPE_DISPLAY_ORDER \<subseteq> fst ` set CHANNEL_TYPES - {0}" "distinct CHANNEL_TYPE_DISPLAY_ORDER"
  by (simp_all add: CHANNEL_TYPE_DISPLAY_ORDER_def CHANNEL_TYPES_def)

lemma ordered_display: "map fst (ordered_options CHANNEL_TYPE_DISPLAY_ORDER) = CHANNEL_TYPE_DISPLAY_ORDER"
  using display_order_known by (auto simp: ordered_options_ids filter_id_conv)

lemma type_0: "map_of CHANNEL_TYPES 0 = Some (js ''Unknown'')"
  by (simp add: CHANNEL_TYPES_def)

lemma type_0_only: "(0, l) \<in> set CHANNEL_TYPES \<Longrightarrow> l = js ''Unknown''"
  using map_of_is_SomeI [OF types_distinct, of 0 l] type_0 by simp

text \<open>The type selector offers every known type but 0 exactly once, with the label the
  type has, the types of the display order first; every type whose models can be fetched is
  offered.\<close>

theorem channel_type_options_complete:
  "distinct (map fst CHANNEL_TYPE_OPTIONS) \<and>
   set CHANNEL_TYPE_OPTIONS = set CHANNEL_TYPES - {(0, js ''Unknown'')} \<and>
   take (length CHANNEL_TYPE_DISPLAY_ORDER) (map fst CHANNEL_TYPE_OPTIONS) = CHANNEL_TYPE_DISPLAY_ORDER \<and>
   set MODEL_FETCHABLE_TYPES \<subseteq> (\<lambda>i. Fin (of_int i)) ` set (map fst CHANNEL_TYPE_OPTIONS)"
proof (intro conjI)
  let ?o = "ordered_options CHANNEL_TYPE_DISPLAY_ORDER"
  let ?r = "filter (\<lambda>(i, label). i \<noteq> 0 \<and> i \<notin> set (map fst ?o)) CHANNEL_TYPES"
  have o: "CHANNEL_TYPE_OPTIONS = ?o @ ?r" by (simp add: CHANNEL_TYPE_OPTIONS_def Let_def)
  have len: "length ?o = length CHANNEL_TYPE_DISPLAY_ORDER" using arg_cong [OF ordered_display, of length] by simp
  show "distinct (map fst CHANNEL_TYPE_OPTIONS)"
    using types_distinct display_order_known(2) by (auto simp: o ordered_display distinct_map_filter)
  show "take (length CHANNEL_TYPE_DISPLAY_ORDER) (map fst CHANNEL_TYPE_OPTIONS) = CHANNEL_TYPE_DISPLAY_ORDER"
    using len by (simp add: o ordered_display)
  show eq: "set CHANNEL_TYPE_OPTIONS = set CHANNEL_TYPES - {(0, js ''Unknown'')}"
    using types_distinct type_0 display_order_known(1)
    by (auto simp: o ordered_display set_ordered_options map_of_eq_Some_iff dest: types_labelled type_0_only)
  have "\<forall>k \<in> set MODEL_FETCHABLE_TYPES. \<exists>i \<in> fst ` set CHANNEL_TYPE_OPTIONS. k = Fin (of_int i)"
    unfolding eq by (simp add: CHANNEL_TYPES_def MODEL_FETCHABLE_TYPES_def)
  then show "set MODEL_FETCHABLE_TYPES \<subseteq> (\<lambda>i. Fin (of_int i)) ` set (map fst CHANNEL_TYPE_OPTIONS)"
    by (simp add: subset_iff image_iff)
qed

end
