(* ===== verification/ChannelUtils.thy ===== *)
theory ChannelUtils
  imports ChannelTypes
begin

text \<open>
  The helpers of the channel table, web/default/src/features/channels/lib/channel-utils.ts:
  labels and badges, masking and counting of keys, the lists of models and groups, the settings
  texts, ratings, validation and the attention marker. What the browser does with
  localeCompare and with translations is a parameter.
\<close>

subsection \<open>Labels and badges\<close>

definition getChannelTypeLabel :: "jsnum \<Rightarrow> jstr" where
  "getChannelTypeLabel t = text_or (table_get CHANNEL_TYPES t) (js ''Unknown'')"

definition getChannelTypeIcon :: "jsnum \<Rightarrow> jstr" where
  "getChannelTypeIcon t = text_or (table_get TYPE_TO_ICON t) (js ''OpenAI'')"

definition getKeyPromptForType :: "jsnum \<Rightarrow> jstr" where
  "getKeyPromptForType t = text_or (table_get TYPE_TO_KEY_PROMPT t) (js ''Enter API key for this channel'')"

definition getChannelStatusBadge :: "jsnum \<Rightarrow> badge" where
  "getChannelStatusBadge status =
     (case table_get CHANNEL_STATUS_CONFIG status of
        Some b \<Rightarrow> b | None \<Rightarrow> the (map_of CHANNEL_STATUS_CONFIG 0))"

definition getMultiKeyStatusBadge :: "jsnum \<Rightarrow> badge" where
  "getMultiKeyStatusBadge status =
     (case table_get MULTI_KEY_STATUS_CONFIG status of
        Some b \<Rightarrow> b | None \<Rightarrow> the (map_of MULTI_KEY_STATUS_CONFIG 1))"

definition isChannelEnabled :: "channel \<Rightarrow> bool" where
  "isChannelEnabled ch = strict_eq (ch_status ch) (VNum (Fin 1))"

definition isMultiKeyChannel :: "channel \<Rightarrow> bool" where
  "isMultiKeyChannel ch = (case ch_channel_info ch of Some info \<Rightarrow> is_multi_key info | None \<Rightarrow> False)"

subsection \<open>Keys\<close>

definition slice_last :: "nat \<Rightarrow> jstr \<Rightarrow> jstr" where
  "slice_last n s = drop (length s - n) s"

definition key_lines :: "jstr \<Rightarrow> jstr list" where
  "key_lines key = filter (\<lambda>k. trim k \<noteq> []) (split_on 10 key)"

definition formatChannelKey :: "jstr \<Rightarrow> bool \<Rightarrow> jstr" where
  "formatChannelKey key isMultiKey =
     (if key = [] then []
      else if isMultiKey then nat_digits (length (key_lines key)) @ js '' keys''
      else if length key \<le> 16 then take 4 key @ js ''...'' @ slice_last 4 key
      else take 8 key @ js ''...'' @ slice_last 8 key)"

definition formatKeyPreview :: "jstr \<Rightarrow> nat \<Rightarrow> jstr" where
  "formatKeyPreview key maxLength =
     (if key = [] then []
      else if length key \<le> maxLength then key
      else take maxLength key @ js ''...'')"

definition countKeys :: "jstr \<Rightarrow> nat" where
  "countKeys key = (if key = [] then 0 else length (key_lines key))"

record dedup_result =
  deduplicatedText :: jstr
  beforeCount :: int
  afterCount :: int
  removedCount :: int

text \<open>The loop pushes a trimmed line unless it is empty or already in the set of keys seen.\<close>

fun dedup_loop :: "jstr list \<Rightarrow> jstr list \<Rightarrow> jstr list" where
  "dedup_loop [] keySet = []"
| "dedup_loop (line # rest) keySet =
     (let trimmedLine = trim line in
      if trimmedLine \<noteq> [] \<and> trimmedLine \<notin> set keySet
      then trimmedLine # dedup_loop rest (trimmedLine # keySet)
      else dedup_loop rest keySet)"

definition deduplicateKeys :: "jstr \<Rightarrow> dedup_result" where
  "deduplicateKeys keysText =
     (if trim keysText = []
      then \<lparr> deduplicatedText = [], beforeCount = 0, afterCount = 0, removedCount = 0 \<rparr>
      else let keyLines = split_on 10 keysText;
               deduplicatedKeys = dedup_loop keyLines []
           in \<lparr> deduplicatedText = join [10] deduplicatedKeys,
                beforeCount = int (length keyLines),
                afterCount = int (length deduplicatedKeys),
                removedCount = int (length keyLines) - int (length deduplicatedKeys) \<rparr>)"

subsection \<open>Models and groups\<close>

definition parseModelsList :: "jstr \<Rightarrow> jstr list" where
  "parseModelsList models =
     (if models = [] then [] else filter (\<lambda>m. length m > 0) (map trim (split_on 44 models)))"

text \<open>The comparator of the groups; its first argument is localeCompare, the sign of the result decides.\<close>

definition group_le :: "(jstr \<Rightarrow> jstr \<Rightarrow> int) \<Rightarrow> jstr \<Rightarrow> jstr \<Rightarrow> bool" where
  "group_le localeCompare a b =
     (if a = js ''default'' then True
      else if b = js ''default'' then False
      else localeCompare a b \<le> 0)"

definition parseGroupsList :: "(jstr \<Rightarrow> jstr \<Rightarrow> int) \<Rightarrow> jstr \<Rightarrow> jstr list" where
  "parseGroupsList localeCompare groups =
     (if groups = [] then []
      else js_sort (group_le localeCompare) (filter (\<lambda>g. length g > 0) (map trim (split_on 44 groups))))"

definition formatModelsString :: "jstr list \<Rightarrow> jstr" where
  "formatModelsString models = join (js '','') models"

definition formatGroupsString :: "jstr list \<Rightarrow> jstr" where
  "formatGroupsString groups = join (js '','') groups"

subsection \<open>Settings, ratings, validation\<close>

text \<open>The settings are parsed JSON of any shape; the result type of the source is only a cast.\<close>

definition parseChannelSettings :: "jsval \<Rightarrow> jsval" where
  "parseChannelSettings settingStr =
     (case settingStr of
        VStr s \<Rightarrow> if s = [] then VObj [] else (case json_parse s of Some v \<Rightarrow> v | None \<Rightarrow> VObj [])
      | _ \<Rightarrow> VObj [])"

definition parseChannelOtherSettings :: "jsval \<Rightarrow> jsval" where
  "parseChannelOtherSettings settingsStr =
     (case settingsStr of
        VStr s \<Rightarrow> if s = [] \<or> s = js ''{}'' then VObj []
                  else (case json_parse s of Some v \<Rightarrow> v | None \<Rightarrow> VObj [])
      | _ \<Rightarrow> VObj [])"

definition validateChannelSettings :: "jstr \<Rightarrow> bool" where
  "validateChannelSettings settings =
     (if settings = [] \<or> trim settings = [] then True else json_parse settings \<noteq> None)"

definition getBalanceVariant :: "jsnum \<Rightarrow> variant" where
  "getBalanceVariant balance =
     (if num_eq balance (Fin 0) then Vneutral
      else if num_lt balance (Fin 1) then Vdanger
      else if num_lt balance (Fin 10) then Vwarning
      else Vsuccess)"

text \<open>The optional translation gets the key and the value to insert.\<close>

definition formatResponseTime :: "jsnum \<Rightarrow> (jstr \<Rightarrow> jsval \<Rightarrow> jstr) option \<Rightarrow> jstr" where
  "formatResponseTime timeMs t =
     (if num_eq timeMs (Fin 0)
      then (case t of Some f \<Rightarrow> f (js ''Not tested'') VUndef | None \<Rightarrow> js ''Not tested'')
      else if num_lt timeMs (Fin 1000)
      then (case t of Some f \<Rightarrow> f (js ''{{value}}ms'') (VNum timeMs) | None \<Rightarrow> num_str timeMs @ js ''ms'')
      else let secs = to_fixed (num_div timeMs (Fin 1000)) 2 in
           (case t of Some f \<Rightarrow> f (js ''{{value}}s'') (VStr secs) | None \<Rightarrow> secs @ js ''s''))"

definition getResponseTimeConfig :: "jsnum \<Rightarrow> badge" where
  "getResponseTimeConfig timeMs =
     (case RESPONSE_TIME_THRESHOLDS of (EXCELLENT, GOOD, FAIR, POOR) \<Rightarrow>
        if num_eq timeMs (Fin 0) then RESPONSE_UNKNOWN
        else if num_le timeMs EXCELLENT then RESPONSE_EXCELLENT
        else if num_le timeMs GOOD then RESPONSE_GOOD
        else if num_le timeMs FAIR then RESPONSE_FAIR
        else if num_le timeMs POOR then RESPONSE_POOR
        else RESPONSE_POOR)"

definition getPriorityDisplay :: "jsval \<Rightarrow> jstr" where
  "getPriorityDisplay priority = (if nullish priority then js ''0'' else to_str priority)"

definition getWeightDisplay :: "jsval \<Rightarrow> jstr" where
  "getWeightDisplay weight = (if nullish weight then js ''0'' else to_str weight)"

definition validateChannelName :: "jstr \<Rightarrow> bool" where
  "validateChannelName name = (length (trim name) > 0)"

definition validateApiKey :: "jstr \<Rightarrow> bool" where
  "validateApiKey key = (length (trim key) > 0)"

definition validateModels :: "jstr \<Rightarrow> bool" where
  "validateModels models = (length (parseModelsList models) > 0)"

definition validateGroups :: "(jstr \<Rightarrow> jstr \<Rightarrow> int) \<Rightarrow> jstr \<Rightarrow> bool" where
  "validateGroups localeCompare groups = (length (parseGroupsList localeCompare groups) > 0)"

text \<open>The condition on the keys that both attention functions repeat.\<close>

definition all_keys_disabled :: "channel \<Rightarrow> bool" where
  "all_keys_disabled ch =
     (case ch_channel_info ch of
        Some info \<Rightarrow> is_multi_key info \<and>
          (case multi_key_status_list info of
             Some l \<Rightarrow> num_le (multi_key_size info) (num_of_int (int (length l)))
           | None \<Rightarrow> False)
      | None \<Rightarrow> False)"

definition channelNeedsAttention :: "channel \<Rightarrow> bool" where
  "channelNeedsAttention ch =
     (if strict_eq (ch_status ch) (VNum (Fin 3)) then True
      else if num_lt (Fin 0) (ch_balance ch) \<and> num_lt (ch_balance ch) (Fin 1) then True
      else if all_keys_disabled ch then True
      else False)"

definition getAttentionReason :: "channel \<Rightarrow> jstr option" where
  "getAttentionReason ch =
     (if strict_eq (ch_status ch) (VNum (Fin 3)) then Some (js ''Auto-disabled'')
      else if num_lt (Fin 0) (ch_balance ch) \<and> num_lt (ch_balance ch) (Fin 1)
      then Some (js ''Low balance'')
      else if all_keys_disabled ch then Some (js ''All keys disabled'')
      else None)"

subsection \<open>Properties of the keys\<close>

lemma dedup_loop_uniq:
  "dedup_loop ls seen = filter (\<lambda>k. k \<notin> set seen) (uniq (filter (\<lambda>k. k \<noteq> []) (map trim ls)))"
proof (induction ls seen rule: dedup_loop.induct)
  case (2 line rest seen)
  then show ?case by (simp add: Let_def filter_uniq conj_ac)
qed simp

lemma dedup_loop_Nil: "dedup_loop ls [] = uniq (filter (\<lambda>k. k \<noteq> []) (map trim ls))"
  by (simp add: dedup_loop_uniq)

text \<open>A text of keys that needs no cleaning: non-empty trimmed keys on lines of their own.\<close>

definition clean_keys :: "jstr list \<Rightarrow> bool" where
  "clean_keys ks \<longleftrightarrow> distinct ks \<and> (\<forall>k \<in> set ks. k \<noteq> [] \<and> trimmed k \<and> 10 \<notin> set k)"

lemma clean_dedup: "clean_keys (uniq (filter (\<lambda>k. k \<noteq> []) (map trim (split_on 10 s))))"
  unfolding clean_keys_def using set_split_on [of _ 10 s] set_trim by fastforce

lemma dedup_clean: "clean_keys ks \<Longrightarrow> ks \<noteq> [] \<Longrightarrow> dedup_loop (split_on 10 (join [10] ks)) [] = ks"
  by (simp add: clean_keys_def split_on_join dedup_loop_Nil map_idI trim_trimmed uniq_distinct filter_id_conv)

lemma trim_lines_empty: "filter (\<lambda>k. k \<noteq> []) (map trim (split_on 10 s)) = [] \<longleftrightarrow> trim s = []"
proof
  assume "filter (\<lambda>k. k \<noteq> []) (map trim (split_on 10 s)) = []"
  then have "\<forall>l \<in> set (split_on 10 s). \<forall>c \<in> set l. is_ws c"
    by (simp add: filter_empty_conv trim_eq_Nil_iff)
  moreover have "is_ws 10" by (simp add: is_ws_def)
  ultimately have "\<forall>c \<in> set (join [10] (split_on 10 s)). is_ws c"
    using set_join [of "[10]" "split_on 10 s"] by (auto simp del: join_split_on)
  then show "trim s = []" by (simp add: trim_eq_Nil_iff)
next
  assume "trim s = []"
  then show "filter (\<lambda>k. k \<noteq> []) (map trim (split_on 10 s)) = []"
    using set_split_on [of _ 10 s] by (fastforce simp: filter_empty_conv trim_eq_Nil_iff)
qed

lemma split_clean: "clean_keys ks \<Longrightarrow> ks \<noteq> [] \<Longrightarrow> split_on 10 (join [10] ks) = ks"
  by (simp add: clean_keys_def split_on_join)

lemma dedup_nonempty:
  "trim s \<noteq> [] \<Longrightarrow> deduplicateKeys s =
     \<lparr> deduplicatedText = join [10] (uniq (filter (\<lambda>k. k \<noteq> []) (map trim (split_on 10 s)))),
       beforeCount = int (length (split_on 10 s)),
       afterCount = int (length (uniq (filter (\<lambda>k. k \<noteq> []) (map trim (split_on 10 s))))),
       removedCount = int (length (split_on 10 s)) -
         int (length (uniq (filter (\<lambda>k. k \<noteq> []) (map trim (split_on 10 s))))) \<rparr>"
  by (simp add: deduplicateKeys_def Let_def dedup_loop_Nil)

lemma dedup_empty: "trim s = [] \<Longrightarrow> deduplicateKeys s =
     \<lparr> deduplicatedText = [], beforeCount = 0, afterCount = 0, removedCount = 0 \<rparr>"
  by (simp add: deduplicateKeys_def)

lemma dedup_clean_text:
  assumes "clean_keys ks" "ks \<noteq> []"
  shows "deduplicateKeys (join [10] ks) =
    \<lparr> deduplicatedText = join [10] ks, beforeCount = int (length ks),
      afterCount = int (length ks), removedCount = 0 \<rparr>"
proof -
  have f: "filter (\<lambda>k. k \<noteq> []) (map trim (split_on 10 (join [10] ks))) = ks"
    using assms by (simp add: clean_keys_def split_on_join map_idI trim_trimmed filter_id_conv)
  then have "trim (join [10] ks) \<noteq> []" using assms(2) trim_lines_empty [of "join [10] ks"] by metis
  then show ?thesis using assms f by (simp add: dedup_nonempty split_clean uniq_distinct clean_keys_def)
qed

text \<open>Removing repeated keys keeps each non-blank trimmed line once, in the order of the first
  occurrences; the counts are those of the lines, of the kept keys and of the difference; and a
  second run changes nothing.\<close>

theorem deduplicate_keys_correct:
  "(let r = deduplicateKeys s; again = deduplicateKeys (deduplicatedText r) in
     split_on 10 (deduplicatedText r) =
       (if trim s = [] then [[]] else uniq (filter (\<lambda>k. k \<noteq> []) (map trim (split_on 10 s)))) \<and>
     afterCount r = int (card (trim ` set (split_on 10 s) - {[]})) \<and>
     removedCount r = beforeCount r - afterCount r \<and> 0 \<le> removedCount r \<and>
     deduplicatedText again = deduplicatedText r \<and> removedCount again = 0)"
proof (cases "trim s = []")
  case True
  then have "trim ` set (split_on 10 s) - {[]} = {}"
    using trim_lines_empty [of s] by (auto simp: filter_empty_conv)
  then show ?thesis using True by (simp add: dedup_empty Let_def)
next
  case False
  let ?f = "filter (\<lambda>k. k \<noteq> []) (map trim (split_on 10 s))"
  let ?ks = "uniq ?f"
  have c: "clean_keys ?ks" and n: "?ks \<noteq> []" and ks: "set ?ks = trim ` set (split_on 10 s) - {[]}"
    using clean_dedup False trim_lines_empty [of s] by (auto simp flip: set_empty)
  have "length ?ks = card (set ?ks)" by (simp add: distinct_card del: set_uniq)
  moreover have "length ?ks \<le> length ?f" "length ?f \<le> length (split_on 10 s)"
    using length_uniq [of ?f] length_filter_le [of "\<lambda>k. k \<noteq> []" "map trim (split_on 10 s)"]
    by (simp_all del: filter_map length_filter_map)
  ultimately have le: "length ?ks \<le> length (split_on 10 s)" by (meson le_trans)
  show ?thesis using False c n le \<open>length ?ks = card (set ?ks)\<close>
    unfolding ks by (simp add: dedup_nonempty Let_def split_clean dedup_clean_text)
qed

lemma key_lines_of_dedup: "clean_keys ks \<Longrightarrow> ks \<noteq> [] \<Longrightarrow> key_lines (join [10] ks) = ks"
  by (simp add: key_lines_def split_clean) (simp add: clean_keys_def filter_id_conv trim_trimmed)

lemma masked_long:
  "16 < length key \<Longrightarrow> formatChannelKey key False = take 8 key @ js ''...'' @ slice_last 8 key"
  "16 < length key \<Longrightarrow> length (slice_last 8 key) = 8"
  by (auto simp: formatChannelKey_def slice_last_def)

lemma short_key_shown:
  assumes "length key \<le> 4"
  shows "take (min 4 (length key)) (formatChannelKey key False) @
    slice_last (length key - 4) (formatChannelKey key False) = key"
  using assms by (simp add: formatChannelKey_def slice_last_def)

lemma mid_key_shown:
  assumes "4 < length key" "length key \<le> 8"
  shows "take 4 (formatChannelKey key False) @
    slice_last (length key - 4) (formatChannelKey key False) = key"
proof -
  have t: "formatChannelKey key False = take 4 key @ js ''...'' @ drop (length key - 4) key"
    using assms by (auto simp: formatChannelKey_def slice_last_def)
  have "slice_last (length key - 4) (formatChannelKey key False) = drop 4 key"
    using assms unfolding t by (simp add: slice_last_def)
  then show ?thesis using assms by (simp add: t)
qed

text \<open>What masking shows of a key. Of more than 16 characters exactly the first and last eight
  are shown, in a text of 19 characters that is the same for every key that agrees on them. A key of
  at most eight characters can be read off the shown text completely.\<close>

theorem format_channel_key_shows:
  "(16 < length key \<and> 16 < length key' \<and> take 8 key' = take 8 key \<and>
      slice_last 8 key' = slice_last 8 key \<longrightarrow>
    formatChannelKey key' False = formatChannelKey key False \<and>
    length (formatChannelKey key False) = 19) \<and>
   (length key \<le> 8 \<longrightarrow>
    take (min 4 (length key)) (formatChannelKey key False) @
      slice_last (length key - 4) (formatChannelKey key False) = key)"
proof (intro conjI impI)
  assume "length key \<le> 8"
  then show "take (min 4 (length key)) (formatChannelKey key False) @
      slice_last (length key - 4) (formatChannelKey key False) = key"
    using short_key_shown [of key] mid_key_shown [of key] by (cases "length key \<le> 4") simp_all
qed (auto simp: masked_long)

theorem format_channel_key_shows_witness:
  "formatChannelKey (js ''sk-0123456-abcdefghij'') False = formatChannelKey (js ''sk-01234---cdefghij'') False"
  by (rule format_channel_key_shows [THEN conjunct1, THEN mp, THEN conjunct1]) (simp add: slice_last_def js_Cons)

subsection \<open>Groups\<close>

lemma group_le_total:
  "(\<And>a b. localeCompare a b \<le> 0 \<or> localeCompare b a \<le> 0) \<Longrightarrow> \<not> group_le localeCompare a b \<Longrightarrow> group_le localeCompare b a"
  unfolding group_le_def by (metis (full_types))

lemma group_le_trans:
  "(\<And>a b c. localeCompare a b \<le> 0 \<Longrightarrow> localeCompare b c \<le> 0 \<Longrightarrow> localeCompare a c \<le> 0) \<Longrightarrow>
   group_le localeCompare a b \<Longrightarrow> group_le localeCompare b c \<Longrightarrow> group_le localeCompare a c"
  by (auto simp: group_le_def split: if_splits)

text \<open>The groups of a channel are the trimmed non-empty pieces of the text, default first and
  the others in the order of localeCompare, when that compares as a total preorder.\<close>

theorem parse_groups_sorted:
  assumes total: "\<And>a b. localeCompare a b \<le> 0 \<or> localeCompare b a \<le> 0"
      and trans: "\<And>a b c. localeCompare a b \<le> 0 \<Longrightarrow> localeCompare b c \<le> 0 \<Longrightarrow> localeCompare a c \<le> (0::int)"
  shows "mset (parseGroupsList localeCompare groups) =
      mset (filter (\<lambda>g. g \<noteq> []) (map trim (split_on 44 groups))) \<and>
    sorted_wrt (\<lambda>a b. a = js ''default'' \<or> b \<noteq> js ''default'' \<and> localeCompare a b \<le> 0)
      (parseGroupsList localeCompare groups)"
proof -
  have "sorted_wrt (group_le localeCompare) (js_sort (group_le localeCompare) xs)" for xs
    by (rule sorted_js_sort; rule group_le_total group_le_trans; (rule total trans | assumption))
  moreover have "group_le localeCompare =
      (\<lambda>a b. a = js ''default'' \<or> b \<noteq> js ''default'' \<and> localeCompare a b \<le> 0)"
    by (auto simp: group_le_def fun_eq_iff)
  ultimately show ?thesis by (auto simp: parseGroupsList_def)
qed

theorem parse_groups_sorted_witness:
  "parseGroupsList (\<lambda>a b. if str_le a b then -1 else 1) (js ''vip, default,,beta'') =
     [js ''default'', js ''beta'', js ''vip''] \<and>
   mset (parseGroupsList (\<lambda>a b. if str_le a b then -1 else 1) (js ''vip, default,,beta'')) =
     mset [js ''vip'', js ''default'', js ''beta'']"
proof
  show "parseGroupsList (\<lambda>a b. if str_le a b then -1 else 1) (js ''vip, default,,beta'') =
     [js ''default'', js ''beta'', js ''vip'']" by code_simp
  have pieces: "filter (\<lambda>g. g \<noteq> []) (map trim (split_on 44 (js ''vip, default,,beta''))) =
     [js ''vip'', js ''default'', js ''beta'']" by code_simp
  show "mset (parseGroupsList (\<lambda>a b. if str_le a b then -1 else 1) (js ''vip, default,,beta'')) =
     mset [js ''vip'', js ''default'', js ''beta'']"
    unfolding pieces [symmetric]
    by (rule parse_groups_sorted [THEN conjunct1]) (auto split: if_splits dest: str_le_total str_le_trans)
qed

subsection \<open>Attention\<close>

text \<open>The attention marker is shown exactly when there is a reason to show with it.\<close>

theorem attention_has_reason: "channelNeedsAttention ch \<longleftrightarrow> (\<exists>r. getAttentionReason ch = Some r)"
  by (simp add: channelNeedsAttention_def getAttentionReason_def)

end
