(* ===== verification/ChannelTags.thy ===== *)
theory ChannelTags
  imports ChannelTypes
begin

text \<open>
  The tag mode of the channel table: aggregateChannelsByTag of
  web/default/src/features/channels/lib/channel-utils.ts groups channels into one row per tag.
  The Map from tags to rows and the result array hold the same mutable rows in the same order,
  so one association list of tags and rows stands for both.
\<close>

record tag_row =
  tr_row :: channel
  tr_children :: "channel list"

datatype table_row = Plain channel | Aggregate tag_row

definition isTagAggregateRow :: "table_row \<Rightarrow> bool" where
  "isTagAggregateRow r = (case r of Aggregate _ \<Rightarrow> True | Plain _ \<Rightarrow> False)"

text \<open>channel.tag || '' for a tag that is a string, null or missing.\<close>

definition tag_text :: "channel \<Rightarrow> jstr" where
  "tag_text ch = (case ch_tag ch of VStr s \<Rightarrow> s | _ \<Rightarrow> [])"

definition minus_one :: jsval where
  "minus_one = VNum (Fin (-1))"

definition new_tag_row :: "channel \<Rightarrow> tag_row" where
  "new_tag_row ch =
     (let t = tag_text ch in
      \<lparr> tr_row = ch \<lparr> ch_key := t, ch_id := VStr t, ch_tag := VStr t, ch_name := t, ch_type := Fin 0,
          ch_status := VUndef, ch_group := [], ch_used_quota := Fin 0, ch_response_time := Fin 0,
          ch_priority := minus_one, ch_weight := minus_one, ch_balance := Fin 0,
          ch_test_time := Fin 0, ch_created_time := Fin 0, ch_balance_updated_time := Fin 0,
          ch_models := [] \<rparr>,
        tr_children = [] \<rparr>)"

text \<open>One value while all agree, null from the first difference on; -1 marks "no value yet".\<close>

definition merge_same :: "jsval \<Rightarrow> jsval \<Rightarrow> jsval" where
  "merge_same acc v =
     (if strict_eq acc minus_one then v
      else if \<not> strict_eq acc v then VNull
      else acc)"

definition merge_groups :: "jstr \<Rightarrow> jstr \<Rightarrow> jstr" where
  "merge_groups acc grp =
     (if acc = [] then grp
      else let existing = filter (\<lambda>g. g \<noteq> []) (split_on 44 acc);
               new = filter (\<lambda>g. g \<noteq> []) (split_on 44 grp)
           in foldl (\<lambda>s g. if g \<notin> set existing then s @ js '','' @ g else s) acc new)"

definition merge_status :: "jsval \<Rightarrow> jsval \<Rightarrow> jsval" where
  "merge_status acc status =
     (if strict_eq status (VNum (Fin 1)) then VNum (Fin 1)
      else if strict_eq acc VUndef then status
      else acc)"

definition mean_step :: "jsnum \<Rightarrow> nat \<Rightarrow> jsnum \<Rightarrow> jsnum" where
  "mean_step acc childCount t =
     num_div (num_add (num_mul acc (num_of_int (int childCount - 1))) t) (num_of_int (int childCount))"

definition add_child :: "tag_row \<Rightarrow> channel \<Rightarrow> tag_row" where
  "add_child r ch =
     (let children = tr_children r @ [ch]; row = tr_row r in
      \<lparr> tr_row = row \<lparr>
          ch_used_quota := num_add (ch_used_quota row) (ch_used_quota ch),
          ch_response_time := mean_step (ch_response_time row) (length children) (ch_response_time ch),
          ch_priority := merge_same (ch_priority row) (ch_priority ch),
          ch_weight := merge_same (ch_weight row) (ch_weight ch),
          ch_group := merge_groups (ch_group row) (ch_group ch),
          ch_status := merge_status (ch_status row) (ch_status ch) \<rparr>,
        tr_children = children \<rparr>)"

definition aggregate_step :: "(jstr \<times> tag_row) list \<Rightarrow> channel \<Rightarrow> (jstr \<times> tag_row) list" where
  "aggregate_step rows ch =
     (let t = tag_text ch;
          rows' = (if t \<in> set (map fst rows) then rows else rows @ [(t, new_tag_row ch)])
      in map (\<lambda>(k, r). (k, if k = t then add_child r ch else r)) rows')"

definition aggregateChannelsByTag :: "channel list \<Rightarrow> tag_row list" where
  "aggregateChannelsByTag channels = map snd (foldl aggregate_step [] channels)"

subsection \<open>The rows of the loop\<close>

definition rows_of :: "channel list \<Rightarrow> (jstr \<times> tag_row) list" where
  "rows_of channels = foldl aggregate_step [] channels"

definition tagged :: "jstr \<Rightarrow> channel list \<Rightarrow> channel list" where
  "tagged t channels = filter (\<lambda>ch. tag_text ch = t) channels"

definition row_of :: "channel list \<Rightarrow> tag_row" where
  "row_of children = foldl add_child (new_tag_row (hd children)) children"

lemma row_of_snoc: "row_of (c # cs @ [ch]) = add_child (row_of (c # cs)) ch"
  by (simp add: row_of_def)

lemma keys_step: "map fst (aggregate_step rows ch) =
    (if tag_text ch \<in> set (map fst rows) then map fst rows else map fst rows @ [tag_text ch])"
  by (auto simp: aggregate_step_def Let_def)

lemma uniq_snoc: "uniq (xs @ [x]) = (if x \<in> set xs then uniq xs else uniq xs @ [x])"
  by (simp add: uniq_append)

lemma rows_of_snoc: "rows_of (channels @ [ch]) = aggregate_step (rows_of channels) ch"
  by (simp add: rows_of_def)

lemma keys_rows_of: "map fst (rows_of channels) = uniq (map tag_text channels)"
proof (induction channels rule: rev_induct)
  case (snoc ch channels)
  have "set (map fst (rows_of channels)) = set (map tag_text channels)"
    using arg_cong [OF snoc, of set] by simp
  then show ?case using snoc by (simp add: rows_of_snoc keys_step uniq_snoc del: set_map)
qed (simp add: rows_of_def)

lemma rows_of_eq: "rows_of channels = map (\<lambda>t. (t, row_of (tagged t channels))) (uniq (map tag_text channels))"
proof (induction channels rule: rev_induct)
  case (snoc ch channels)
  let ?t = "tag_text ch"
  have old: "t \<in> tag_text ` set channels \<Longrightarrow> tagged t channels \<noteq> []" for t
    by (auto simp: tagged_def filter_empty_conv)
  have grow: "row_of (tagged ?t channels @ [ch]) = add_child (row_of (tagged ?t channels)) ch"
    if "?t \<in> tag_text ` set channels"
    using old [OF that] by (cases "tagged ?t channels") (simp_all add: row_of_snoc)
  have fresh: "tagged ?t channels = []" if "?t \<notin> tag_text ` set channels"
    using that by (simp add: tagged_def filter_empty_conv) (metis imageI)
  have one: "row_of [ch] = add_child (new_tag_row ch) ch" by (simp add: row_of_def)
  have keys: "set (map fst (rows_of channels)) = tag_text ` set channels"
    by (simp only: keys_rows_of set_uniq set_map)
  have step: "tagged t (channels @ [ch]) = tagged t channels @ (if t = ?t then [ch] else [])" for t
    by (auto simp: tagged_def)
  show ?case
  proof (cases "?t \<in> tag_text ` set channels")
    case True
    then show ?thesis using grow keys
      by (auto simp: rows_of_snoc aggregate_step_def Let_def snoc uniq_snoc step)
  next
    case False
    then have "\<forall>x \<in> set channels. tag_text x \<noteq> ?t" by (metis imageI)
    then show ?thesis using False fresh one keys
      by (auto simp: rows_of_snoc aggregate_step_def Let_def snoc uniq_snoc step)
  qed
qed (simp add: rows_of_def)

lemma aggregate_eq:
  "aggregateChannelsByTag channels = map (\<lambda>t. row_of (tagged t channels)) (uniq (map tag_text channels))"
  by (simp add: aggregateChannelsByTag_def rows_of_eq flip: rows_of_def)

lemma key_add_child [simp]: "ch_key (tr_row (add_child r ch)) = ch_key (tr_row r)"
  "tr_children (add_child r ch) = tr_children r @ [ch]"
  by (simp_all add: add_child_def Let_def)

lemma fold_add_child:
  "ch_key (tr_row (foldl add_child r cs)) = ch_key (tr_row r)"
  "tr_children (foldl add_child r cs) = tr_children r @ cs"
  "ch_status (tr_row (foldl add_child r cs)) = foldl merge_status (ch_status (tr_row r)) (map ch_status cs)"
  "ch_priority (tr_row (foldl add_child r cs)) = foldl merge_same (ch_priority (tr_row r)) (map ch_priority cs)"
  "ch_weight (tr_row (foldl add_child r cs)) = foldl merge_same (ch_weight (tr_row r)) (map ch_weight cs)"
  "ch_used_quota (tr_row (foldl add_child r cs)) = foldl num_add (ch_used_quota (tr_row r)) (map ch_used_quota cs)"
  by (induction cs arbitrary: r) (simp_all add: add_child_def Let_def)

lemma num_eq_right: "num_eq x (Fin q) \<longleftrightarrow> x = Fin q \<or> x = NegZero \<and> q = 0"
  by (cases x) (auto simp: num_eq_def is_zero_def)

lemma strict_eq_simps [simp]:
  "strict_eq v VUndef \<longleftrightarrow> v = VUndef"
  "strict_eq v (VNum (Fin q)) \<longleftrightarrow> v = VNum (Fin q) \<or> v = VNum NegZero \<and> q = 0"
  by (cases v; simp add: num_eq_right)+

text \<open>The status of a row: enabled if a child is, else the first status that is set.\<close>

definition status_of :: "jsval list \<Rightarrow> jsval" where
  "status_of ss = (if VNum (Fin 1) \<in> set ss then VNum (Fin 1) else hd (filter (\<lambda>s. s \<noteq> VUndef) ss @ [VUndef]))"

lemma merge_status_fold: "foldl merge_status acc ss = status_of (acc # ss)"
proof (induction ss rule: rev_induct)
  case (snoc s ss)
  have hd1: "hd (filter (\<lambda>s. s \<noteq> VUndef) (ts @ [s]) @ [VUndef]) =
      (if hd (filter (\<lambda>s. s \<noteq> VUndef) ts @ [VUndef]) = VUndef then s else hd (filter (\<lambda>s. s \<noteq> VUndef) ts @ [VUndef]))" for ts
    by (induction ts) auto
  show ?case using snoc hd1 [of "acc # ss"] by (auto simp: merge_status_def status_of_def)
qed (simp add: status_of_def)

lemma status_of_undef [simp]: "status_of (VUndef # ss) = status_of ss"
  by (simp add: status_of_def)

lemma row_of_fields:
  "ch_key (tr_row (row_of cs)) = tag_text (hd cs)"
  "tr_children (row_of cs) = cs"
  "ch_status (tr_row (row_of cs)) = status_of (map ch_status cs)"
  "ch_priority (tr_row (row_of cs)) = foldl merge_same minus_one (map ch_priority cs)"
  "ch_weight (tr_row (row_of cs)) = foldl merge_same minus_one (map ch_weight cs)"
  "ch_used_quota (tr_row (row_of cs)) = foldl num_add (Fin 0) (map ch_used_quota cs)"
  by (simp_all add: row_of_def fold_add_child new_tag_row_def Let_def merge_status_fold)

lemma hd_tagged: "t \<in> tag_text ` set channels \<Longrightarrow> tag_text (hd (tagged t channels)) = t"
proof -
  assume "t \<in> tag_text ` set channels"
  then have "tagged t channels \<noteq> []" by (auto simp: tagged_def filter_empty_conv)
  then have "hd (tagged t channels) \<in> set (tagged t channels)" by simp
  then show ?thesis by (simp add: tagged_def)
qed

text \<open>Tag mode makes one row per tag, in the order in which the tags first occur; the children
  of a row are exactly the channels with that tag, in order; the row is enabled when a child is and
  otherwise has the first child status that is set.\<close>

theorem tag_rows_exact:
  "map (\<lambda>r. (ch_key (tr_row r), tr_children r, ch_status (tr_row r))) (aggregateChannelsByTag channels) =
   map (\<lambda>t. let cs = filter (\<lambda>ch. tag_text ch = t) channels in (t, cs, status_of (map ch_status cs)))
     (uniq (map tag_text channels))"
  by (auto simp: aggregate_eq row_of_fields hd_tagged Let_def simp flip: tagged_def)

text \<open>Values that the comparison of the loop tells apart exactly as they differ.\<close>

definition plain_value :: "jsval \<Rightarrow> bool" where
  "plain_value v = (case v of VUndef \<Rightarrow> True | VNull \<Rightarrow> True | VNum (Fin q) \<Rightarrow> q \<noteq> -1 | _ \<Rightarrow> False)"

lemma plain_strict: "plain_value a \<Longrightarrow> plain_value b \<Longrightarrow> strict_eq a b \<longleftrightarrow> a = b"
  by (auto simp: plain_value_def split: jsval.splits jsnum.splits)

lemma merge_same_plain:
  "plain_value a \<Longrightarrow> plain_value v \<Longrightarrow> merge_same a v = (if a = v then a else VNull)"
  by (auto simp: merge_same_def plain_strict minus_one_def plain_value_def split: jsval.splits jsnum.splits)

lemma merge_same_fold_plain:
  "plain_value a \<Longrightarrow> list_all plain_value vs \<Longrightarrow>
   foldl merge_same a vs = (if set vs \<subseteq> {a} then a else VNull)"
proof (induction vs arbitrary: a)
  case (Cons v vs)
  have "plain_value (merge_same a v)" using Cons.prems by (simp add: merge_same_plain plain_value_def)
  then show ?case using Cons by (auto simp: merge_same_plain)
qed simp

definition common_value :: "jsval list \<Rightarrow> jsval" where
  "common_value vs = (if set vs \<subseteq> {hd vs} then hd vs else VNull)"

lemma merge_same_first: "merge_same minus_one v = v"
  by (simp add: merge_same_def minus_one_def)

lemma merge_same_fold:
  "list_all plain_value vs \<Longrightarrow> vs \<noteq> [] \<Longrightarrow> foldl merge_same minus_one vs = common_value vs"
  by (cases vs) (simp_all add: common_value_def merge_same_first merge_same_fold_plain)

text \<open>While no priority is -1, the row of a tag shows the priority its children share, or null
  when two of them differ.\<close>

theorem tag_priority_common:
  assumes "list_all (\<lambda>ch. plain_value (ch_priority ch)) channels"
  shows "map (\<lambda>r. ch_priority (tr_row r)) (aggregateChannelsByTag channels) =
    map (\<lambda>t. common_value (map ch_priority (filter (\<lambda>ch. tag_text ch = t) channels)))
      (uniq (map tag_text channels))"
proof -
  have "foldl merge_same minus_one (map ch_priority (tagged t channels)) = common_value (map ch_priority (tagged t channels))"
    if "t \<in> tag_text ` set channels" for t
    using that assms by (intro merge_same_fold) (auto simp: tagged_def filter_empty_conv list_all_iff)
  then show ?thesis by (simp add: aggregate_eq row_of_fields flip: tagged_def)
qed

theorem tag_priority_common_witness:
  "map (\<lambda>r. ch_priority (tr_row r)) (aggregateChannelsByTag
      [sample_channel \<lparr> ch_priority := VNum (Fin 5) \<rparr>, sample_channel \<lparr> ch_priority := VNum (Fin 7) \<rparr>,
       sample_channel \<lparr> ch_tag := VStr [97], ch_priority := VNum (Fin 7) \<rparr>]) = [VNull, VNum (Fin 7)]"
  by (subst tag_priority_common) (code_simp, code_simp)

text \<open>A real priority of -1 is taken for "no value yet": behind such a channel the row shows
  the priority of the next one, although the two differ.\<close>

theorem tag_priority_sentinel:
  "map (\<lambda>r. ch_priority (tr_row r)) (aggregateChannelsByTag
     [ch \<lparr> ch_tag := VStr t, ch_priority := VNum (Fin (-1)) \<rparr>, ch' \<lparr> ch_tag := VStr t \<rparr>]) = [ch_priority ch']"
  by (simp add: aggregate_eq row_of_fields tagged_def tag_text_def) (simp add: merge_same_def minus_one_def)

end
