(* ===== verification/ChannelForm.thy ===== *)
theory ChannelForm
  imports ChannelTypes
begin

text \<open>
  The channel form, web/default/src/features/channels/lib/channel-form.ts: the values of the form,
  the form of an existing channel, and the two JSON texts a channel keeps its settings in. A form value that may be missing, or that is
  read from parsed JSON without a check, is any JavaScript value; a request body is an object.
  The option None stands for a thrown TypeError.
\<close>

record channel_form =
  f_name :: jstr
  f_type :: jsnum
  f_base_url :: jsval
  f_key :: jstr
  f_openai_organization :: jsval
  f_models :: jstr
  f_group :: "jstr list"
  f_model_mapping :: jsval
  f_priority :: jsval
  f_weight :: jsval
  f_test_model :: jsval
  f_auto_ban :: jsval
  f_status :: jsval
  f_status_code_mapping :: jsval
  f_tag :: jsval
  f_remark :: jsval
  f_setting :: jsval
  f_param_override :: jsval
  f_header_override :: jsval
  f_settings :: jsval
  f_other :: jsval
  f_multi_key_mode :: jsval
  f_multi_key_type :: jsval
  f_batch_add_set_key_prefix_2_name :: jsval
  f_key_mode :: jsval
  f_force_format :: jsval
  f_thinking_to_content :: jsval
  f_claude_wallet_enabled :: jsval
  f_proxy :: jsval
  f_pass_through_body_enabled :: jsval
  f_system_prompt :: jsval
  f_system_prompt_override :: jsval
  f_is_enterprise_account :: jsval
  f_vertex_key_type :: jsval
  f_aws_key_type :: jsval
  f_azure_responses_version :: jsval
  f_allow_service_tier :: jsval
  f_disable_store :: jsval
  f_allow_safety_identifier :: jsval
  f_allow_include_obfuscation :: jsval
  f_allow_inference_geo :: jsval
  f_allow_speed :: jsval
  f_claude_beta_query :: jsval
  f_upstream_model_update_check_enabled :: jsval
  f_upstream_model_update_auto_sync_enabled :: jsval
  f_upstream_model_update_ignored_models :: jsval

abbreviation s0 :: jsval where "s0 \<equiv> VStr []"

abbreviation vfalse :: jsval where "vfalse \<equiv> VBool False"

definition CHANNEL_FORM_DEFAULT_VALUES :: channel_form where
  "CHANNEL_FORM_DEFAULT_VALUES =
     \<lparr> f_name = [], f_type = Fin 1, f_base_url = s0, f_key = [], f_openai_organization = s0,
       f_models = [], f_group = [js ''default''], f_model_mapping = s0, f_priority = VNum (Fin 0),
       f_weight = VNum (Fin 0), f_test_model = s0, f_auto_ban = VNum (Fin 1), f_status = VNum (Fin 1),
       f_status_code_mapping = s0, f_tag = s0, f_remark = s0, f_setting = s0,
       f_param_override = s0, f_header_override = s0, f_settings = VStr (js ''{}''), f_other = s0,
       f_multi_key_mode = VStr (js ''single''), f_multi_key_type = VStr (js ''random''),
       f_batch_add_set_key_prefix_2_name = vfalse, f_key_mode = VStr (js ''append''),
       f_force_format = vfalse, f_thinking_to_content = vfalse, f_claude_wallet_enabled = vfalse,
       f_proxy = s0, f_pass_through_body_enabled = vfalse, f_system_prompt = s0,
       f_system_prompt_override = vfalse, f_is_enterprise_account = vfalse,
       f_vertex_key_type = VStr (js ''json''), f_aws_key_type = VStr (js ''ak_sk''),
       f_azure_responses_version = s0, f_allow_service_tier = vfalse, f_disable_store = vfalse,
       f_allow_safety_identifier = vfalse, f_allow_include_obfuscation = vfalse,
       f_allow_inference_geo = vfalse, f_allow_speed = vfalse, f_claude_beta_query = vfalse,
       f_upstream_model_update_check_enabled = vfalse,
       f_upstream_model_update_auto_sync_enabled = vfalse,
       f_upstream_model_update_ignored_models = s0 \<rparr>"

text \<open>v === true as a value.\<close>

definition is_true :: "jsval \<Rightarrow> jsval" where
  "is_true v = VBool (strict_eq v (VBool True))"

subsection \<open>Parsing helpers\<close>

definition parseGroups :: "jstr \<Rightarrow> jstr list" where
  "parseGroups groups =
     (if groups = [] then [] else filter (\<lambda>g. length g > 0) (map trim (split_on 44 groups)))"

definition parseModels :: "jstr \<Rightarrow> jstr list" where
  "parseModels models =
     (if models = [] then [] else filter (\<lambda>m. length m > 0) (map trim (split_on 44 models)))"

definition formatModels :: "jstr list \<Rightarrow> jstr" where
  "formatModels models = join (js '','') models"

definition formatGroups :: "jstr list \<Rightarrow> jstr" where
  "formatGroups groups = join (js '','') groups"

definition validateJSON :: "jstr \<Rightarrow> bool" where
  "validateJSON v = (if v = [] \<or> trim v = [] then True else json_parse v \<noteq> None)"

definition validateModelMapping :: "jstr \<Rightarrow> bool" where
  "validateModelMapping v = (if v = [] \<or> trim v = [] then True else validateJSON v)"

subsection \<open>The form of an existing channel\<close>

record extra_settings =
  x_force_format :: jsval
  x_thinking_to_content :: jsval
  x_claude_wallet_enabled :: jsval
  x_proxy :: jsval
  x_pass_through_body_enabled :: jsval
  x_system_prompt :: jsval
  x_system_prompt_override :: jsval

text \<open>The settings read from the setting text; a text that is not JSON, and the JSON value null
  (reading a property of it throws), leave the defaults.\<close>

definition default_extra :: extra_settings where
  "default_extra =
     \<lparr> x_force_format = vfalse, x_thinking_to_content = vfalse, x_claude_wallet_enabled = vfalse,
       x_proxy = s0, x_pass_through_body_enabled = vfalse, x_system_prompt = s0,
       x_system_prompt_override = vfalse \<rparr>"

definition read_extra :: "jsval \<Rightarrow> extra_settings" where
  "read_extra parsed =
     \<lparr> x_force_format = js_or (js_prop parsed (js ''force_format'')) vfalse,
       x_thinking_to_content = js_or (js_prop parsed (js ''thinking_to_content'')) vfalse,
       x_claude_wallet_enabled = is_true (js_prop parsed (js ''claude_wallet_enabled'')),
       x_proxy = js_or (js_prop parsed (js ''proxy'')) s0,
       x_pass_through_body_enabled = js_or (js_prop parsed (js ''pass_through_body_enabled'')) vfalse,
       x_system_prompt = js_or (js_prop parsed (js ''system_prompt'')) s0,
       x_system_prompt_override = js_or (js_prop parsed (js ''system_prompt_override'')) vfalse \<rparr>"

definition parse_text :: "jsval \<Rightarrow> jsval option" where
  "parse_text v = (case v of
     VStr s \<Rightarrow> if s = [] then None
       else (case json_parse s of Some parsed \<Rightarrow> if nullish parsed then None else Some parsed | None \<Rightarrow> None)
   | _ \<Rightarrow> None)"

definition extraSettings_of :: "channel \<Rightarrow> extra_settings" where
  "extraSettings_of ch = (case parse_text (ch_setting ch) of None \<Rightarrow> default_extra | Some v \<Rightarrow> read_extra v)"

record other_settings =
  o_vertexKeyType :: jsval
  o_azureResponsesVersion :: jsval
  o_isEnterpriseAccount :: jsval
  o_awsKeyType :: jsval
  o_allowServiceTier :: jsval
  o_disableStore :: jsval
  o_allowSafetyIdentifier :: jsval
  o_allowIncludeObfuscation :: jsval
  o_allowInferenceGeo :: jsval
  o_allowSpeed :: jsval
  o_claudeBetaQuery :: jsval
  o_upstreamModelUpdateCheckEnabled :: jsval
  o_upstreamModelUpdateAutoSyncEnabled :: jsval
  o_upstreamModelUpdateIgnoredModels :: jsval

definition default_other :: other_settings where
  "default_other =
     \<lparr> o_vertexKeyType = VStr (js ''json''), o_azureResponsesVersion = s0, o_isEnterpriseAccount = vfalse,
       o_awsKeyType = VStr (js ''ak_sk''), o_allowServiceTier = vfalse, o_disableStore = vfalse,
       o_allowSafetyIdentifier = vfalse, o_allowIncludeObfuscation = vfalse,
       o_allowInferenceGeo = vfalse, o_allowSpeed = vfalse, o_claudeBetaQuery = vfalse,
       o_upstreamModelUpdateCheckEnabled = vfalse, o_upstreamModelUpdateAutoSyncEnabled = vfalse,
       o_upstreamModelUpdateIgnoredModels = s0 \<rparr>"

text \<open>Joining the elements of an array with commas is the string of the array.\<close>

definition read_other :: "jsval \<Rightarrow> other_settings" where
  "read_other parsed =
     (let flag = (\<lambda>k. is_true (js_prop parsed k));
          ignored = js_prop parsed (js ''upstream_model_update_ignored_models'')
      in \<lparr> o_vertexKeyType = js_or (js_prop parsed (js ''vertex_key_type'')) (VStr (js ''json'')),
           o_azureResponsesVersion = js_or (js_prop parsed (js ''azure_responses_version'')) s0,
           o_isEnterpriseAccount = flag (js ''openrouter_enterprise''),
           o_awsKeyType = js_or (js_prop parsed (js ''aws_key_type'')) (VStr (js ''ak_sk'')),
           o_allowServiceTier = flag (js ''allow_service_tier''),
           o_disableStore = flag (js ''disable_store''),
           o_allowSafetyIdentifier = flag (js ''allow_safety_identifier''),
           o_allowIncludeObfuscation = flag (js ''allow_include_obfuscation''),
           o_allowInferenceGeo = flag (js ''allow_inference_geo''),
           o_allowSpeed = flag (js ''allow_speed''),
           o_claudeBetaQuery = flag (js ''claude_beta_query''),
           o_upstreamModelUpdateCheckEnabled = flag (js ''upstream_model_update_check_enabled''),
           o_upstreamModelUpdateAutoSyncEnabled = flag (js ''upstream_model_update_auto_sync_enabled''),
           o_upstreamModelUpdateIgnoredModels = (if is_array ignored then VStr (to_str ignored) else s0) \<rparr>)"

definition otherSettings_of :: "channel \<Rightarrow> other_settings" where
  "otherSettings_of ch =
     (case parse_text (VStr (ch_settings ch)) of None \<Rightarrow> default_other | Some v \<Rightarrow> read_other v)"

text \<open>A channel without channel_info makes the read of its multi_key_mode throw.\<close>

definition transformChannelToFormDefaults :: "channel \<Rightarrow> channel_form option" where
  "transformChannelToFormDefaults ch = (case ch_channel_info ch of None \<Rightarrow> None | Some info \<Rightarrow>
     (let x = extraSettings_of ch; y = otherSettings_of ch in
      Some \<lparr> f_name = ch_name ch, f_type = ch_type ch, f_base_url = js_or (ch_base_url ch) s0,
        f_key = [], f_openai_organization = js_or (ch_openai_organization ch) s0,
        f_models = ch_models ch,
        f_group = parseGroups (if ch_group ch \<noteq> [] then ch_group ch else js ''default''),
        f_model_mapping = js_or (ch_model_mapping ch) s0,
        f_priority = js_or (ch_priority ch) (VNum (Fin 0)),
        f_weight = js_or (ch_weight ch) (VNum (Fin 0)),
        f_test_model = js_or (ch_test_model ch) s0,
        f_auto_ban = js_coalesce (ch_auto_ban ch) (VNum (Fin 1)),
        f_status = ch_status ch, f_status_code_mapping = js_or (ch_status_code_mapping ch) s0,
        f_tag = js_or (ch_tag ch) s0, f_remark = VStr (ch_remark ch),
        f_setting = js_or (ch_setting ch) s0, f_param_override = js_or (ch_param_override ch) s0,
        f_header_override = js_or (ch_header_override ch) s0,
        f_settings = js_or (VStr (ch_settings ch)) (VStr (js ''{}'')),
        f_other = VStr (ch_other ch), f_multi_key_mode = VStr (js ''single''),
        f_multi_key_type = js_or (VStr (multi_key_mode info)) (VStr (js ''random'')),
        f_batch_add_set_key_prefix_2_name = vfalse, f_key_mode = VStr (js ''append''),
        f_force_format = x_force_format x, f_thinking_to_content = x_thinking_to_content x,
        f_claude_wallet_enabled = x_claude_wallet_enabled x, f_proxy = x_proxy x,
        f_pass_through_body_enabled = x_pass_through_body_enabled x,
        f_system_prompt = x_system_prompt x, f_system_prompt_override = x_system_prompt_override x,
        f_is_enterprise_account = o_isEnterpriseAccount y, f_vertex_key_type = o_vertexKeyType y,
        f_aws_key_type = o_awsKeyType y, f_azure_responses_version = o_azureResponsesVersion y,
        f_allow_service_tier = o_allowServiceTier y, f_disable_store = o_disableStore y,
        f_allow_safety_identifier = o_allowSafetyIdentifier y,
        f_allow_include_obfuscation = o_allowIncludeObfuscation y,
        f_allow_inference_geo = o_allowInferenceGeo y, f_allow_speed = o_allowSpeed y,
        f_claude_beta_query = o_claudeBetaQuery y,
        f_upstream_model_update_check_enabled = o_upstreamModelUpdateCheckEnabled y,
        f_upstream_model_update_auto_sync_enabled = o_upstreamModelUpdateAutoSyncEnabled y,
        f_upstream_model_update_ignored_models = o_upstreamModelUpdateIgnoredModels y \<rparr>))"

subsection \<open>The settings texts\<close>

definition setting_object :: "channel_form \<Rightarrow> jsobj" where
  "setting_object f =
     [(js ''force_format'', js_or (f_force_format f) vfalse),
      (js ''thinking_to_content'', js_or (f_thinking_to_content f) vfalse),
      (js ''claude_wallet_enabled'', is_true (f_claude_wallet_enabled f)),
      (js ''proxy'', js_or (f_proxy f) s0),
      (js ''pass_through_body_enabled'', js_or (f_pass_through_body_enabled f) vfalse),
      (js ''system_prompt'', js_or (f_system_prompt f) s0),
      (js ''system_prompt_override'', js_or (f_system_prompt_override f) vfalse)]"

definition buildSettingJSON :: "channel_form \<Rightarrow> jstr" where
  "buildSettingJSON f = stringify (VObj (setting_object f))"

text \<open>The settings the form starts from; anything but a parsable text starts from an empty object.\<close>

definition existing_settings :: "channel_form \<Rightarrow> jsval" where
  "existing_settings f =
     (case f_settings f of
        VStr s \<Rightarrow> if s \<noteq> [] \<and> s \<noteq> js ''{}''
                  then (case json_parse s of Some v \<Rightarrow> v | None \<Rightarrow> VObj []) else VObj []
      | _ \<Rightarrow> VObj [])"

definition has_type :: "channel_form \<Rightarrow> rat \<Rightarrow> bool" where
  "has_type f n = num_eq (f_type f) (Fin n)"

text \<open>Set the property under the condition, delete it otherwise.\<close>

definition put_if :: "bool \<Rightarrow> jstr \<Rightarrow> jsval \<Rightarrow> jsobj \<Rightarrow> jsobj" where
  "put_if c k v ob = (if c then obj_set k v ob else if obj_has ob k then obj_del k ob else ob)"

definition provider_settings :: "channel_form \<Rightarrow> jsobj \<Rightarrow> jsobj" where
  "provider_settings f ob =
     (let ob = put_if (has_type f 41) (js ''vertex_key_type'') (js_or (f_vertex_key_type f) (VStr (js ''json''))) ob;
          ob = put_if (has_type f 3 \<and> truthy (f_azure_responses_version f))
                 (js ''azure_responses_version'') (f_azure_responses_version f) ob;
          ob = put_if (has_type f 20) (js ''openrouter_enterprise'') (is_true (f_is_enterprise_account f)) ob
      in put_if (has_type f 33) (js ''aws_key_type'') (js_or (f_aws_key_type f) (VStr (js ''ak_sk''))) ob)"

definition openai_settings :: "channel_form \<Rightarrow> jsobj \<Rightarrow> jsobj" where
  "openai_settings f ob =
     (if has_type f 1
      then let ob = obj_set (js ''disable_store'') (is_true (f_disable_store f)) ob;
               ob = obj_set (js ''allow_safety_identifier'') (is_true (f_allow_safety_identifier f)) ob;
               ob = obj_set (js ''allow_include_obfuscation'') (is_true (f_allow_include_obfuscation f)) ob
           in obj_set (js ''allow_inference_geo'') (is_true (f_allow_inference_geo f)) ob
      else let ob = obj_del (js ''disable_store'') ob;
               ob = obj_del (js ''allow_safety_identifier'') ob;
               ob = obj_del (js ''allow_include_obfuscation'') ob
           in if \<not> has_type f 14 then obj_del (js ''allow_inference_geo'') ob else ob)"

definition anthropic_settings :: "channel_form \<Rightarrow> jsobj \<Rightarrow> jsobj" where
  "anthropic_settings f ob =
     (if has_type f 14
      then let ob = obj_set (js ''allow_inference_geo'') (is_true (f_allow_inference_geo f)) ob;
               ob = obj_set (js ''allow_speed'') (is_true (f_allow_speed f)) ob
           in obj_set (js ''claude_beta_query'') (is_true (f_claude_beta_query f)) ob
      else let ob = obj_del (js ''allow_speed'') ob in obj_del (js ''claude_beta_query'') ob)"

definition passthrough_settings :: "channel_form \<Rightarrow> jsobj \<Rightarrow> jsobj" where
  "passthrough_settings f ob =
     anthropic_settings f (openai_settings f
       (put_if (has_type f 1 \<or> has_type f 14) (js ''allow_service_tier'') (is_true (f_allow_service_tier f)) ob))"

definition ignored_models :: "channel_form \<Rightarrow> jstr list" where
  "ignored_models f =
     uniq (filter (\<lambda>m. m \<noteq> []) (map trim
       (split_on 44 (to_str (js_or (f_upstream_model_update_ignored_models f) s0)))))"

definition model_fetchable :: "channel_form \<Rightarrow> bool" where
  "model_fetchable f = list_ex (num_eq (f_type f)) MODEL_FETCHABLE_TYPES"

definition upstream_settings :: "channel_form \<Rightarrow> jsobj \<Rightarrow> jsobj" where
  "upstream_settings f ob =
     (if model_fetchable f
      then let enabled = is_true (f_upstream_model_update_check_enabled f);
               ob = obj_set (js ''upstream_model_update_check_enabled'') enabled ob;
               ob = obj_set (js ''upstream_model_update_auto_sync_enabled'')
                 (VBool (strict_eq enabled (VBool True) \<and>
                         strict_eq (f_upstream_model_update_auto_sync_enabled f) (VBool True))) ob;
               ob = obj_set (js ''upstream_model_update_ignored_models'') (VArr (map VStr (ignored_models f))) ob;
               ob = (if \<not> is_array (obj_get ob (js ''upstream_model_update_last_detected_models'')) \<or>
                        \<not> strict_eq enabled (VBool True)
                     then obj_set (js ''upstream_model_update_last_detected_models'') (VArr []) ob else ob)
           in if \<not> is_number (obj_get ob (js ''upstream_model_update_last_check_time''))
              then obj_set (js ''upstream_model_update_last_check_time'') (VNum (Fin 0)) ob else ob
      else ob)"

definition settings_object :: "channel_form \<Rightarrow> jsobj \<Rightarrow> jsobj" where
  "settings_object f ob = upstream_settings f (passthrough_settings f (provider_settings f ob))"

text \<open>On an array only named properties change, which JSON.stringify does not print. On null, a
  number, a string or a boolean the first step throws: either the assignment or the test with in.\<close>

definition buildSettingsJSON :: "channel_form \<Rightarrow> jstr option" where
  "buildSettingsJSON f =
     (case existing_settings f of
        VObj ob \<Rightarrow> Some (stringify (VObj (settings_object f ob)))
      | VArr vs \<Rightarrow> Some (stringify (VArr vs))
      | _ \<Rightarrow> None)"

subsection \<open>The keys of the settings\<close>

definition provider_keys :: "jstr list" where
  "provider_keys =
     [js ''vertex_key_type'', js ''azure_responses_version'', js ''openrouter_enterprise'', js ''aws_key_type'',
      js ''allow_service_tier'', js ''disable_store'', js ''allow_safety_identifier'',
      js ''allow_include_obfuscation'', js ''allow_inference_geo'', js ''allow_speed'', js ''claude_beta_query'']"

definition upstream_keys :: "jstr list" where
  "upstream_keys =
     [js ''upstream_model_update_check_enabled'', js ''upstream_model_update_auto_sync_enabled'',
      js ''upstream_model_update_ignored_models'', js ''upstream_model_update_last_detected_models'',
      js ''upstream_model_update_last_check_time'']"

lemma has_type_unique: "has_type f a \<Longrightarrow> has_type f b \<Longrightarrow> a = b"
  by (cases "f_type f") (auto simp: has_type_def num_eq_def is_zero_def)

lemma has_type_neq: "has_type f a \<Longrightarrow> a \<noteq> b \<Longrightarrow> \<not> has_type f b"
  using has_type_unique by blast

lemma put_if_has [simp]: "obj_has (put_if c k v ob) k' \<longleftrightarrow> (if k' = k then c else obj_has ob k')"
  by (auto simp: put_if_def)

lemma obj_get_absent: "\<not> obj_has ob k \<Longrightarrow> obj_get ob k = VUndef"
  by (simp add: obj_has_def obj_get_def)

lemma put_if_get [simp]: "obj_get (put_if c k v ob) k' =
    (if k' = k then (if c then v else VUndef) else obj_get ob k')"
  by (auto simp: put_if_def obj_get_absent)

lemma provider_has:
  "obj_has (provider_settings f ob) k \<longleftrightarrow>
     (if k = js ''vertex_key_type'' then has_type f 41
      else if k = js ''azure_responses_version'' then has_type f 3 \<and> truthy (f_azure_responses_version f)
      else if k = js ''openrouter_enterprise'' then has_type f 20
      else if k = js ''aws_key_type'' then has_type f 33
      else obj_has ob k)"
  by (auto simp: provider_settings_def Let_def)

lemma provider_get:
  "obj_get (provider_settings f ob) k =
     (if k = js ''vertex_key_type'' then (if has_type f 41 then js_or (f_vertex_key_type f) (VStr (js ''json'')) else VUndef)
      else if k = js ''azure_responses_version''
      then (if has_type f 3 \<and> truthy (f_azure_responses_version f) then f_azure_responses_version f else VUndef)
      else if k = js ''openrouter_enterprise'' then (if has_type f 20 then is_true (f_is_enterprise_account f) else VUndef)
      else if k = js ''aws_key_type'' then (if has_type f 33 then js_or (f_aws_key_type f) (VStr (js ''ak_sk'')) else VUndef)
      else obj_get ob k)"
  by (auto simp: provider_settings_def Let_def)

lemma passthrough_has:
  "obj_has (passthrough_settings f ob) k \<longleftrightarrow>
     (if k \<in> {js ''disable_store'', js ''allow_safety_identifier'', js ''allow_include_obfuscation''} then has_type f 1
      else if k \<in> {js ''allow_service_tier'', js ''allow_inference_geo''} then has_type f 1 \<or> has_type f 14
      else if k \<in> {js ''allow_speed'', js ''claude_beta_query''} then has_type f 14
      else obj_has ob k)"
  using has_type_neq [of f 1 14]
  by (auto simp: passthrough_settings_def anthropic_settings_def openai_settings_def Let_def)

lemma passthrough_get:
  "obj_get (passthrough_settings f ob) k =
     (if k = js ''disable_store'' then (if has_type f 1 then is_true (f_disable_store f) else VUndef)
      else if k = js ''allow_safety_identifier'' then (if has_type f 1 then is_true (f_allow_safety_identifier f) else VUndef)
      else if k = js ''allow_include_obfuscation'' then (if has_type f 1 then is_true (f_allow_include_obfuscation f) else VUndef)
      else if k = js ''allow_service_tier'' then (if has_type f 1 \<or> has_type f 14 then is_true (f_allow_service_tier f) else VUndef)
      else if k = js ''allow_inference_geo'' then (if has_type f 1 \<or> has_type f 14 then is_true (f_allow_inference_geo f) else VUndef)
      else if k = js ''allow_speed'' then (if has_type f 14 then is_true (f_allow_speed f) else VUndef)
      else if k = js ''claude_beta_query'' then (if has_type f 14 then is_true (f_claude_beta_query f) else VUndef)
      else obj_get ob k)"
  using has_type_neq [of f 1 14]
  by (auto simp: passthrough_settings_def anthropic_settings_def openai_settings_def Let_def)

lemma upstream_has:
  "obj_has (upstream_settings f ob) k \<longleftrightarrow> (model_fetchable f \<and> k \<in> set upstream_keys) \<or> obj_has ob k"
proof -
  have "is_number (obj_get ob k) \<Longrightarrow> obj_has ob k" "is_array (obj_get ob k) \<Longrightarrow> obj_has ob k" for k
    using obj_get_absent [of ob k] by (cases "obj_has ob k"; simp add: is_number_def)+
  then show ?thesis by (auto simp: upstream_settings_def Let_def upstream_keys_def)
qed

lemma upstream_get_other: "k \<notin> set upstream_keys \<Longrightarrow> obj_get (upstream_settings f ob) k = obj_get ob k"
  by (auto simp: upstream_settings_def Let_def upstream_keys_def)

lemma settings_unmanaged:
  "k \<in> set provider_keys \<or> k \<in> set upstream_keys \<or> obj_get (settings_object f ob) k = obj_get ob k"
proof (cases "k \<in> set provider_keys \<or> k \<in> set upstream_keys")
  case False
  then have "obj_get (settings_object f ob) k = obj_get (passthrough_settings f (provider_settings f ob)) k"
    by (simp add: settings_object_def upstream_get_other)
  then show ?thesis using False by (auto simp: passthrough_get provider_get provider_keys_def)
qed auto

text \<open>C1. The settings text of a channel holds a provider-specific key exactly when the type of the
  channel is one the key belongs to, whatever settings it had before; keys the form does not manage
  are kept.\<close>

theorem settings_keys_match_type:
  "(let ob' = settings_object f ob in
     (obj_has ob' (js ''vertex_key_type'') \<longleftrightarrow> has_type f 41) \<and>
     (obj_has ob' (js ''azure_responses_version'') \<longleftrightarrow> has_type f 3 \<and> truthy (f_azure_responses_version f)) \<and>
     (obj_has ob' (js ''openrouter_enterprise'') \<longleftrightarrow> has_type f 20) \<and>
     (obj_has ob' (js ''aws_key_type'') \<longleftrightarrow> has_type f 33) \<and>
     (obj_has ob' (js ''allow_service_tier'') \<longleftrightarrow> has_type f 1 \<or> has_type f 14) \<and>
     (obj_has ob' (js ''allow_inference_geo'') \<longleftrightarrow> has_type f 1 \<or> has_type f 14) \<and>
     (obj_has ob' (js ''disable_store'') \<longleftrightarrow> has_type f 1) \<and>
     (obj_has ob' (js ''allow_safety_identifier'') \<longleftrightarrow> has_type f 1) \<and>
     (obj_has ob' (js ''allow_include_obfuscation'') \<longleftrightarrow> has_type f 1) \<and>
     (obj_has ob' (js ''allow_speed'') \<longleftrightarrow> has_type f 14) \<and>
     (obj_has ob' (js ''claude_beta_query'') \<longleftrightarrow> has_type f 14) \<and>
     (k \<in> set provider_keys \<or> k \<in> set upstream_keys \<or> obj_get ob' k = obj_get ob k))"
  using settings_unmanaged [of k f ob]
  by (simp add: Let_def settings_object_def upstream_has provider_has passthrough_has upstream_keys_def)

lemma obj_set_same: "obj_has ob k \<Longrightarrow> obj_get ob k = v \<Longrightarrow> obj_set k v ob = ob"
  unfolding obj_set_def obj_has_def obj_get_def by (induction ob) auto

lemma obj_del_absent: "\<not> obj_has ob k \<Longrightarrow> obj_del k ob = ob"
  by (auto simp: obj_del_def obj_has_def map_of_eq_None_iff)

lemma put_if_same: "obj_has ob k = c \<Longrightarrow> (c \<Longrightarrow> obj_get ob k = v) \<Longrightarrow> put_if c k v ob = ob"
  by (auto simp: put_if_def obj_set_same)

lemma provider_fixed:
  assumes "\<And>k. obj_has ob k = obj_has (provider_settings f ob) k"
    "\<And>k. obj_get ob k = obj_get (provider_settings f ob) k"
  shows "provider_settings f ob = ob"
  using assms(1) [of "js ''vertex_key_type''"] assms(2) [of "js ''vertex_key_type''"]
    assms(1) [of "js ''azure_responses_version''"] assms(2) [of "js ''azure_responses_version''"]
    assms(1) [of "js ''openrouter_enterprise''"] assms(2) [of "js ''openrouter_enterprise''"]
    assms(1) [of "js ''aws_key_type''"] assms(2) [of "js ''aws_key_type''"]
  by (simp add: provider_has provider_get) (simp add: provider_settings_def Let_def put_if_same)

lemma passthrough_fixed:
  assumes "\<And>k. obj_has ob k = obj_has (passthrough_settings f ob) k"
    "\<And>k. obj_get ob k = obj_get (passthrough_settings f ob) k"
  shows "passthrough_settings f ob = ob"
  using assms(1) [of "js ''allow_service_tier''"] assms(2) [of "js ''allow_service_tier''"]
    assms(1) [of "js ''disable_store''"] assms(2) [of "js ''disable_store''"]
    assms(1) [of "js ''allow_safety_identifier''"] assms(2) [of "js ''allow_safety_identifier''"]
    assms(1) [of "js ''allow_include_obfuscation''"] assms(2) [of "js ''allow_include_obfuscation''"]
    assms(1) [of "js ''allow_inference_geo''"] assms(2) [of "js ''allow_inference_geo''"]
    assms(1) [of "js ''allow_speed''"] assms(2) [of "js ''allow_speed''"]
    assms(1) [of "js ''claude_beta_query''"] assms(2) [of "js ''claude_beta_query''"]
    has_type_neq [of f 1 14]
  by (simp add: passthrough_has passthrough_get)
    (cases "has_type f 1"; cases "has_type f 14";
     simp add: passthrough_settings_def anthropic_settings_def openai_settings_def Let_def put_if_same
       obj_set_same obj_del_absent)

text \<open>What the upstream block writes.\<close>

lemma upstream_get:
  assumes "model_fetchable f"
  shows "obj_get (upstream_settings f ob) (js ''upstream_model_update_check_enabled'') =
      is_true (f_upstream_model_update_check_enabled f)"
    "obj_get (upstream_settings f ob) (js ''upstream_model_update_auto_sync_enabled'') =
      VBool (f_upstream_model_update_check_enabled f = VBool True \<and> f_upstream_model_update_auto_sync_enabled f = VBool True)"
    "obj_get (upstream_settings f ob) (js ''upstream_model_update_ignored_models'') = VArr (map VStr (ignored_models f))"
    "obj_get (upstream_settings f ob) (js ''upstream_model_update_last_detected_models'') =
      (if is_array (obj_get ob (js ''upstream_model_update_last_detected_models'')) \<and>
          f_upstream_model_update_check_enabled f = VBool True
       then obj_get ob (js ''upstream_model_update_last_detected_models'') else VArr [])"
    "obj_get (upstream_settings f ob) (js ''upstream_model_update_last_check_time'') =
      (if is_number (obj_get ob (js ''upstream_model_update_last_check_time''))
       then obj_get ob (js ''upstream_model_update_last_check_time'') else VNum (Fin 0))"
  using assms by (auto simp: upstream_settings_def Let_def is_true_iff is_true_def)

lemma upstream_fixed:
  assumes "\<And>k. obj_has ob k = obj_has (upstream_settings f ob) k"
    "\<And>k. obj_get ob k = obj_get (upstream_settings f ob) k"
  shows "upstream_settings f ob = ob"
proof (cases "model_fetchable f")
  case True
  note g = upstream_get [OF True, of ob, folded assms(2)]
  have h: "k \<in> set upstream_keys \<Longrightarrow> obj_has ob k" for k using True assms(1) [of k] by (simp add: upstream_has)
  show ?thesis using True g h
    by (auto simp: upstream_settings_def Let_def obj_set_same upstream_keys_def is_true_iff is_true_def split: if_splits)
qed (simp add: upstream_settings_def)

lemma settings_has:
  "obj_has (settings_object f ob) k \<longleftrightarrow>
     (if k = js ''vertex_key_type'' then has_type f 41
      else if k = js ''azure_responses_version'' then has_type f 3 \<and> truthy (f_azure_responses_version f)
      else if k = js ''openrouter_enterprise'' then has_type f 20
      else if k = js ''aws_key_type'' then has_type f 33
      else if k \<in> {js ''disable_store'', js ''allow_safety_identifier'', js ''allow_include_obfuscation''} then has_type f 1
      else if k \<in> {js ''allow_service_tier'', js ''allow_inference_geo''} then has_type f 1 \<or> has_type f 14
      else if k \<in> {js ''allow_speed'', js ''claude_beta_query''} then has_type f 14
      else (model_fetchable f \<and> k \<in> set upstream_keys) \<or> obj_has ob k)"
  by (simp add: settings_object_def upstream_has provider_has passthrough_has upstream_keys_def)

lemma managed_get:
  "k \<notin> set upstream_keys \<Longrightarrow>
   obj_get (settings_object f ob) k = obj_get (passthrough_settings f (provider_settings f ob)) k"
  by (simp add: settings_object_def upstream_get_other)

text \<open>C27. Saving a form twice stores the same settings as saving it once.\<close>

theorem settings_idempotent: "settings_object f (settings_object f ob) = settings_object f ob"
proof -
  let ?s = "settings_object f ob"
  have p: "provider_settings f ?s = ?s"
  proof (rule provider_fixed)
    fix k
    show "obj_has ?s k = obj_has (provider_settings f ?s) k"
      unfolding provider_has [of f ?s] by (simp add: settings_has)
    show "obj_get ?s k = obj_get (provider_settings f ?s) k"
      unfolding provider_get [of f ?s]
      by (simp add: managed_get upstream_keys_def passthrough_get provider_get)
  qed
  have a: "passthrough_settings f ?s = ?s"
  proof (rule passthrough_fixed)
    fix k
    show "obj_has ?s k = obj_has (passthrough_settings f ?s) k"
      unfolding passthrough_has [of f ?s] by (simp add: settings_has)
    show "obj_get ?s k = obj_get (passthrough_settings f ?s) k"
      unfolding passthrough_get [of f ?s] by (simp add: managed_get upstream_keys_def passthrough_get)
  qed
  have u: "upstream_settings f ?s = ?s"
  proof (rule upstream_fixed)
    fix k
    show "obj_has ?s k = obj_has (upstream_settings f ?s) k"
      unfolding upstream_has [of f ?s] by (simp add: settings_has upstream_keys_def)
    show "obj_get ?s k = obj_get (upstream_settings f ?s) k"
    proof (cases "model_fetchable f \<and> k \<in> set upstream_keys")
      case True
      then show ?thesis
        unfolding settings_object_def upstream_keys_def by (auto simp: upstream_get is_number_def)
    qed (auto simp: upstream_get_other, auto simp: upstream_settings_def)
  qed
  show ?thesis using p a u by (simp add: settings_object_def [of f ?s])
qed

lemma ignored_models_ok:
  "distinct (ignored_models f)" "list_all (\<lambda>m. m \<noteq> [] \<and> trim m = m) (ignored_models f)"
  by (auto simp: ignored_models_def list_all_iff)

text \<open>For a channel type whose models can be fetched, automatic syncing is stored only together
  with update checks, the ignored models are stored trimmed, non-empty and once each, and the models
  detected by earlier checks are dropped when checks are off.\<close>

theorem upstream_settings_consistent:
  assumes "model_fetchable f"
  shows "(let ob' = settings_object f ob in
     (obj_get ob' (js ''upstream_model_update_auto_sync_enabled'') = VBool True \<longrightarrow>
      obj_get ob' (js ''upstream_model_update_check_enabled'') = VBool True) \<and>
     (obj_get ob' (js ''upstream_model_update_check_enabled'') \<noteq> VBool True \<longrightarrow>
      obj_get ob' (js ''upstream_model_update_last_detected_models'') = VArr []) \<and>
     is_array (obj_get ob' (js ''upstream_model_update_last_detected_models'')) \<and>
     is_number (obj_get ob' (js ''upstream_model_update_last_check_time'')) \<and>
     obj_get ob' (js ''upstream_model_update_ignored_models'') = VArr (map VStr (ignored_models f)) \<and>
     distinct (ignored_models f) \<and> list_all (\<lambda>m. m \<noteq> [] \<and> trim m = m) (ignored_models f))"
  using assms ignored_models_ok [of f]
  by (auto simp: settings_object_def upstream_get Let_def is_true_def is_true_iff is_number_def)

theorem upstream_settings_consistent_witness:
  "is_array (obj_get (settings_object CHANNEL_FORM_DEFAULT_VALUES [])
     (js ''upstream_model_update_last_detected_models''))"
  using upstream_settings_consistent [of CHANNEL_FORM_DEFAULT_VALUES "[]"]
  by (simp add: Let_def model_fetchable_def CHANNEL_FORM_DEFAULT_VALUES_def MODEL_FETCHABLE_TYPES_def)

subsection \<open>Round trips\<close>

lemma units_Nil [simp]: "units []"
  by (simp add: units_def)

lemma join_units: "units sep \<Longrightarrow> (\<forall>x \<in> set xs. units x) \<Longrightarrow> units (join sep xs)"
  using set_join [of sep xs] by (fastforce simp: units_def)

text \<open>The extra settings of a form have the types that the form schema gives them.\<close>

fun bool_value :: "jsval \<Rightarrow> bool" where
  "bool_value (VBool _) = True"
| "bool_value _ = False"

fun text_value :: "jsval \<Rightarrow> bool" where
  "text_value (VStr s) = units s"
| "text_value _ = False"

definition extra_typed :: "channel_form \<Rightarrow> bool" where
  "extra_typed f \<longleftrightarrow>
     list_all bool_value [f_force_format f, f_thinking_to_content f, f_claude_wallet_enabled f,
       f_pass_through_body_enabled f, f_system_prompt_override f] \<and>
     list_all text_value [f_proxy f, f_system_prompt f]"

lemma bool_valueD: "bool_value v \<Longrightarrow> js_or v vfalse = v" "bool_value v \<Longrightarrow> is_true v = v" "bool_value v \<Longrightarrow> json_ok v"
  by (cases v; simp add: js_or_def is_true_def)+

lemma text_valueD: "text_value v \<Longrightarrow> js_or v s0 = v" "text_value v \<Longrightarrow> json_ok v"
  by (cases v; simp add: js_or_def)+

lemma setting_keys_plain:
  "list_all plain_key (map fst (setting_object f))" "distinct (map fst (setting_object f))"
proof -
  show "list_all plain_key (map fst (setting_object f))" unfolding setting_object_def list.map fst_conv by code_simp
qed (simp add: setting_object_def)

lemma parse_setting: "extra_typed f \<Longrightarrow> json_parse (buildSettingJSON f) = Some (VObj (setting_object f))"
  unfolding buildSettingJSON_def
  by (rule json_parse_stringify, rule json_ok_plain [OF setting_keys_plain(2)])
    (use setting_keys_plain(1) in \<open>auto simp: setting_object_def extra_typed_def bool_valueD text_valueD\<close>)

definition extras_of_form :: "channel_form \<Rightarrow> extra_settings" where
  "extras_of_form f =
     \<lparr> x_force_format = f_force_format f, x_thinking_to_content = f_thinking_to_content f,
       x_claude_wallet_enabled = f_claude_wallet_enabled f, x_proxy = f_proxy f,
       x_pass_through_body_enabled = f_pass_through_body_enabled f, x_system_prompt = f_system_prompt f,
       x_system_prompt_override = f_system_prompt_override f \<rparr>"

lemma extras_of_transform:
  "map_option extras_of_form (transformChannelToFormDefaults ch) =
     (if ch_channel_info ch = None then None else Some (extraSettings_of ch))"
  by (cases "ch_channel_info ch") (simp_all add: transformChannelToFormDefaults_def Let_def extras_of_form_def)

text \<open>C17. The extra settings of a channel survive saving and reopening: the form of a channel that
  stores the setting text of a well-typed form shows the values of that form.\<close>

theorem setting_roundtrip:
  assumes "extra_typed f" "ch_channel_info ch \<noteq> None"
  shows "map_option extras_of_form
      (transformChannelToFormDefaults (ch \<lparr> ch_setting := VStr (buildSettingJSON f) \<rparr>)) = Some (extras_of_form f)"
proof -
  have n: "buildSettingJSON f \<noteq> []" by (simp add: buildSettingJSON_def)
  have "extraSettings_of (ch \<lparr> ch_setting := VStr (buildSettingJSON f) \<rparr>) = read_extra (VObj (setting_object f))"
    using n parse_setting [OF assms(1)] by (simp add: extraSettings_of_def parse_text_def)
  also have "\<dots> = extras_of_form f"
    using assms(1)
    by (simp add: read_extra_def extras_of_form_def setting_object_def obj_get_def extra_typed_def
        bool_valueD text_valueD)
  finally show ?thesis using assms(2) by (simp add: extras_of_transform)
qed

theorem setting_roundtrip_witness:
  "map_option extras_of_form
     (transformChannelToFormDefaults (sample_channel \<lparr> ch_setting := VStr (buildSettingJSON
        (CHANNEL_FORM_DEFAULT_VALUES \<lparr> f_force_format := VBool True, f_proxy := VStr (js ''http://p'') \<rparr>)) \<rparr>)) =
   Some (extras_of_form (CHANNEL_FORM_DEFAULT_VALUES \<lparr> f_force_format := VBool True, f_proxy := VStr (js ''http://p'') \<rparr>))"
  by (rule setting_roundtrip)
    (simp_all add: extra_typed_def CHANNEL_FORM_DEFAULT_VALUES_def sample_channel_def units_def js_def)

lemma settings_keys_plain:
  "list_all plain_key (provider_keys @ upstream_keys)"
  by code_simp

lemma plain_settings_key: "k \<in> set (provider_keys @ upstream_keys) \<Longrightarrow> plain_key k"
  using settings_keys_plain unfolding list_all_iff by (rule bspec)

lemma json_ok_put_if:
  "json_ok (VObj ob) \<Longrightarrow> plain_key k \<Longrightarrow> (c \<Longrightarrow> json_ok v) \<Longrightarrow> json_ok (VObj (put_if c k v ob))"
  by (simp add: put_if_def json_ok_set json_ok_del del: json_ok.simps)

lemma json_ok_is_true [simp]: "json_ok (is_true v)"
  by (simp add: is_true_def)

lemma json_ok_zero: "json_ok (VNum (Fin 0))"
  by code_simp

text \<open>The texts of the provider settings; a missing key type gets the default.\<close>

definition other_typed :: "channel_form \<Rightarrow> bool" where
  "other_typed f \<longleftrightarrow> list_all text_value [f_vertex_key_type f, f_aws_key_type f, f_azure_responses_version f] \<and>
     text_value (f_upstream_model_update_ignored_models f)"

lemma json_ok_or_text: "text_value v \<Longrightarrow> units d \<Longrightarrow> json_ok (js_or v (VStr d))"
  by (cases v) (simp_all add: js_or_def)

lemma units_literals: "units (js ''json'')" "units (js ''ak_sk'')" "units (js '','')"
  by (simp_all add: units_def js_def)

lemma provider_json_ok:
  assumes "json_ok (VObj ob)" "other_typed f"
  shows "json_ok (VObj (provider_settings f ob))"
  using assms unfolding provider_settings_def Let_def other_typed_def
  by (intro json_ok_put_if plain_settings_key)
    (simp_all add: provider_keys_def json_ok_or_text units_literals text_valueD del: json_ok.simps)

lemma passthrough_json_ok:
  assumes "json_ok (VObj ob)"
  shows "json_ok (VObj (passthrough_settings f ob))"
proof -
  have k: "k \<in> set provider_keys \<Longrightarrow> plain_key k" for k by (rule plain_settings_key) simp
  show ?thesis
    using assms
    by (simp add: passthrough_settings_def openai_settings_def anthropic_settings_def Let_def json_ok_put_if
        json_ok_set json_ok_del k provider_keys_def del: json_ok.simps)
qed

lemma ignored_units: "text_value (f_upstream_model_update_ignored_models f) \<Longrightarrow> m \<in> set (ignored_models f) \<Longrightarrow> units m"
  using set_trim set_split_on
  by (cases "f_upstream_model_update_ignored_models f")
    (fastforce simp: ignored_models_def js_or_def units_def split: if_splits)+

lemma upstream_json_ok:
  assumes "json_ok (VObj ob)" "other_typed f"
  shows "json_ok (VObj (upstream_settings f ob))"
proof -
  have k: "k \<in> set upstream_keys \<Longrightarrow> plain_key k" for k by (rule plain_settings_key) simp
  have v: "json_ok (VArr (map VStr (ignored_models f)))" "json_ok (VArr [])"
    using assms(2) ignored_units by (auto simp: other_typed_def)
  show ?thesis
    using assms v
    by (simp add: upstream_settings_def Let_def json_ok_set k upstream_keys_def json_ok_zero
        json_ok.simps(3) del: json_ok.simps(4-7))
qed

lemma parse_settings:
  assumes "existing_settings f = VObj ob" "json_ok (VObj ob)" "other_typed f"
  shows "\<exists>s. buildSettingsJSON f = Some s \<and> s \<noteq> [] \<and> json_parse s = Some (VObj (settings_object f ob))"
proof -
  have "json_ok (VObj (settings_object f ob))"
    unfolding settings_object_def using assms by (intro upstream_json_ok passthrough_json_ok provider_json_ok)
  from json_parse_stringify [OF this] show ?thesis using assms(1) by (simp add: buildSettingsJSON_def)
qed

lemma to_str_texts: "to_str (VArr (map VStr ms)) = join (js '','') ms"
  by (simp add: comp_def)

lemma keys_disjoint: "k \<in> set upstream_keys \<Longrightarrow> k \<notin> set provider_keys"
  by (auto simp: upstream_keys_def provider_keys_def)

lemma settings_get_stale:
  assumes "\<not> model_fetchable f" "k \<in> set upstream_keys"
  shows "obj_get (settings_object f ob) k = obj_get ob k"
  using keys_disjoint [OF assms(2)] assms(1)
  by (simp add: settings_object_def upstream_settings_def passthrough_get provider_get provider_keys_def)

lemma settings_get_provider:
  "obj_get (settings_object f ob) (js ''vertex_key_type'') =
     (if has_type f 41 then js_or (f_vertex_key_type f) (VStr (js ''json'')) else VUndef)"
  "obj_get (settings_object f ob) (js ''azure_responses_version'') =
     (if has_type f 3 \<and> truthy (f_azure_responses_version f) then f_azure_responses_version f else VUndef)"
  "obj_get (settings_object f ob) (js ''openrouter_enterprise'') =
     (if has_type f 20 then is_true (f_is_enterprise_account f) else VUndef)"
  "obj_get (settings_object f ob) (js ''aws_key_type'') =
     (if has_type f 33 then js_or (f_aws_key_type f) (VStr (js ''ak_sk'')) else VUndef)"
  "obj_get (settings_object f ob) (js ''allow_service_tier'') =
     (if has_type f 1 \<or> has_type f 14 then is_true (f_allow_service_tier f) else VUndef)"
  "obj_get (settings_object f ob) (js ''disable_store'') = (if has_type f 1 then is_true (f_disable_store f) else VUndef)"
  "obj_get (settings_object f ob) (js ''allow_safety_identifier'') =
     (if has_type f 1 then is_true (f_allow_safety_identifier f) else VUndef)"
  "obj_get (settings_object f ob) (js ''allow_include_obfuscation'') =
     (if has_type f 1 then is_true (f_allow_include_obfuscation f) else VUndef)"
  "obj_get (settings_object f ob) (js ''allow_inference_geo'') =
     (if has_type f 1 \<or> has_type f 14 then is_true (f_allow_inference_geo f) else VUndef)"
  "obj_get (settings_object f ob) (js ''allow_speed'') = (if has_type f 14 then is_true (f_allow_speed f) else VUndef)"
  "obj_get (settings_object f ob) (js ''claude_beta_query'') =
     (if has_type f 14 then is_true (f_claude_beta_query f) else VUndef)"
  by (simp_all add: managed_get upstream_keys_def passthrough_get provider_get)

lemma or_absent:
  "js_or (if c then js_or v d else VUndef) d = js_or (if c then v else VUndef) d"
  "js_or v d = v \<Longrightarrow> js_or (if c \<and> truthy v then v else VUndef) d = (if c then v else d)"
  "((if c then is_true v else VUndef) = VBool True) = (c \<and> v = VBool True)"
  by (auto simp: js_or_def is_true_def is_true_iff)

text \<open>C8. The provider settings survive saving and reopening: the form of a channel that stores the
  settings text shows, for the type of the channel, the flags and texts that were saved, and the
  defaults for settings of other types.\<close>

theorem settings_roundtrip:
  assumes "existing_settings f = VObj ob" "json_ok (VObj ob)" "other_typed f"
    "buildSettingsJSON f = Some s"
  shows "otherSettings_of (ch \<lparr> ch_settings := s \<rparr>) =
    (let on = (\<lambda>c v. VBool (c \<and> v = VBool True)) in
     \<lparr> o_vertexKeyType = js_or (if has_type f 41 then f_vertex_key_type f else VUndef) (VStr (js ''json'')),
       o_azureResponsesVersion = (if has_type f 3 then f_azure_responses_version f else s0),
       o_isEnterpriseAccount = on (has_type f 20) (f_is_enterprise_account f),
       o_awsKeyType = js_or (if has_type f 33 then f_aws_key_type f else VUndef) (VStr (js ''ak_sk'')),
       o_allowServiceTier = on (has_type f 1 \<or> has_type f 14) (f_allow_service_tier f),
       o_disableStore = on (has_type f 1) (f_disable_store f),
       o_allowSafetyIdentifier = on (has_type f 1) (f_allow_safety_identifier f),
       o_allowIncludeObfuscation = on (has_type f 1) (f_allow_include_obfuscation f),
       o_allowInferenceGeo = on (has_type f 1 \<or> has_type f 14) (f_allow_inference_geo f),
       o_allowSpeed = on (has_type f 14) (f_allow_speed f),
       o_claudeBetaQuery = on (has_type f 14) (f_claude_beta_query f),
       o_upstreamModelUpdateCheckEnabled =
         (if model_fetchable f then on True (f_upstream_model_update_check_enabled f)
          else o_upstreamModelUpdateCheckEnabled (read_other (VObj ob))),
       o_upstreamModelUpdateAutoSyncEnabled =
         (if model_fetchable f
          then on (f_upstream_model_update_check_enabled f = VBool True) (f_upstream_model_update_auto_sync_enabled f)
          else o_upstreamModelUpdateAutoSyncEnabled (read_other (VObj ob))),
       o_upstreamModelUpdateIgnoredModels =
         (if model_fetchable f then VStr (join (js '','') (ignored_models f))
          else o_upstreamModelUpdateIgnoredModels (read_other (VObj ob))) \<rparr>)"
proof -
  let ?ob = "settings_object f ob"
  have "otherSettings_of (ch \<lparr> ch_settings := s \<rparr>) = read_other (VObj ?ob)"
    using parse_settings [OF assms(1-3)] assms(4) by (auto simp: otherSettings_of_def parse_text_def)
  moreover note settings_get_provider [of f ob]
  moreover have "\<not> model_fetchable f \<Longrightarrow> k \<in> set upstream_keys \<Longrightarrow> obj_get ?ob k = obj_get ob k" for k
    by (rule settings_get_stale)
  moreover note upstream_get [of f "passthrough_settings f (provider_settings f ob)", folded settings_object_def]
  moreover have "js_or (f_azure_responses_version f) s0 = f_azure_responses_version f"
    using assms(3) by (simp add: other_typed_def text_valueD)
  ultimately show ?thesis
    by (cases "model_fetchable f")
      (simp_all add: read_other_def Let_def upstream_keys_def to_str_texts is_true_iff or_absent del: to_str.simps,
        simp_all add: is_true_def is_true_iff)
qed

theorem settings_roundtrip_witness:
  "o_allowSpeed (otherSettings_of (sample_channel \<lparr> ch_settings :=
     the (buildSettingsJSON (CHANNEL_FORM_DEFAULT_VALUES \<lparr> f_type := Fin 14, f_allow_speed := VBool True \<rparr>)) \<rparr>)) = VBool True"
proof -
  let ?f = "CHANNEL_FORM_DEFAULT_VALUES \<lparr> f_type := Fin 14, f_allow_speed := VBool True \<rparr>"
  have e: "existing_settings ?f = VObj []" by (simp add: existing_settings_def CHANNEL_FORM_DEFAULT_VALUES_def)
  have "buildSettingsJSON ?f = Some (the (buildSettingsJSON ?f))" by (simp add: buildSettingsJSON_def e)
  from settings_roundtrip [OF e json_ok_empty _ this, of sample_channel] show ?thesis
    by (simp add: Let_def other_typed_def CHANNEL_FORM_DEFAULT_VALUES_def has_type_def units_literals)
qed

end
