(* ===== verification/ChannelPayload.thy ===== *)
theory ChannelPayload
  imports ChannelForm
begin

text \<open>
  The request bodies that the channel form sends for creating and updating a channel
  (transformFormDataToCreatePayload and transformFormDataToUpdatePayload of
  web/default/src/features/channels/lib/channel-form.ts), and what of a channel survives
  opening its form and saving it.
\<close>

subsection \<open>Request bodies\<close>

text \<open>The clean-up loop: properties with the value '' become null.\<close>

definition empty_to_null :: "jsobj \<Rightarrow> jsobj" where
  "empty_to_null ob = map (\<lambda>(k, v). (k, if v = VStr [] then VNull else v)) ob"

record create_payload =
  cp_mode :: jsval
  cp_multi_key_mode :: jsval
  cp_batch_add_set_key_prefix_2_name :: jsval
  cp_channel :: jsobj

definition or_null :: "jsval \<Rightarrow> jsval" where
  "or_null v = js_or v VNull"

definition transformFormDataToCreatePayload :: "channel_form \<Rightarrow> create_payload option" where
  "transformFormDataToCreatePayload f =
     (case buildSettingsJSON f of None \<Rightarrow> None | Some settings \<Rightarrow>
      (let mode = js_or (f_multi_key_mode f) (VStr (js ''single''));
           ob = [(js ''name'', VStr (f_name f)), (js ''type'', VNum (f_type f)),
             (js ''base_url'', or_null (f_base_url f)), (js ''key'', VStr (f_key f)),
             (js ''openai_organization'', or_null (f_openai_organization f)),
             (js ''models'', VStr (f_models f)), (js ''group'', VStr (formatGroups (f_group f))),
             (js ''model_mapping'', or_null (f_model_mapping f)),
             (js ''priority'', or_null (f_priority f)), (js ''weight'', or_null (f_weight f)),
             (js ''test_model'', or_null (f_test_model f)),
             (js ''auto_ban'', js_coalesce (f_auto_ban f) (VNum (Fin 1))),
             (js ''status'', f_status f), (js ''status_code_mapping'', or_null (f_status_code_mapping f)),
             (js ''tag'', or_null (f_tag f)), (js ''remark'', js_or (f_remark f) s0),
             (js ''setting'', VStr (buildSettingJSON f)),
             (js ''param_override'', or_null (f_param_override f)),
             (js ''header_override'', or_null (f_header_override f)),
             (js ''settings'', VStr settings), (js ''other'', js_or (f_other f) s0)]
       in Some \<lparr> cp_mode = mode,
            cp_multi_key_mode =
              (if strict_eq mode (VStr (js ''multi_to_single'')) then f_multi_key_type f else VUndef),
            cp_batch_add_set_key_prefix_2_name =
              (if strict_eq mode (VStr (js ''batch'')) then f_batch_add_set_key_prefix_2_name f else VUndef),
            cp_channel = empty_to_null ob \<rparr>))"

definition update_fields :: "channel_form \<Rightarrow> jsnum \<Rightarrow> jstr \<Rightarrow> jsobj" where
  "update_fields f channelId settings =
     [(js ''id'', VNum channelId), (js ''name'', VStr (f_name f)), (js ''type'', VNum (f_type f)),
      (js ''base_url'', or_null (f_base_url f)),
      (js ''openai_organization'', or_null (f_openai_organization f)),
      (js ''models'', VStr (f_models f)), (js ''group'', VStr (formatGroups (f_group f))),
      (js ''model_mapping'', or_null (f_model_mapping f)),
      (js ''priority'', js_coalesce (f_priority f) (VNum (Fin 0))),
      (js ''weight'', js_coalesce (f_weight f) (VNum (Fin 0))),
      (js ''test_model'', or_null (f_test_model f)),
      (js ''auto_ban'', js_coalesce (f_auto_ban f) (VNum (Fin 1))),
      (js ''status'', f_status f), (js ''status_code_mapping'', or_null (f_status_code_mapping f)),
      (js ''tag'', or_null (f_tag f)), (js ''remark'', js_or (f_remark f) s0),
      (js ''setting'', VStr (buildSettingJSON f)),
      (js ''param_override'', or_null (f_param_override f)),
      (js ''header_override'', or_null (f_header_override f)),
      (js ''settings'', VStr settings), (js ''other'', js_or (f_other f) s0)]"

definition cleared_fields :: "channel_form \<Rightarrow> jsobj" where
  "cleared_fields f =
     [(js ''base_url'', js_or (f_base_url f) s0),
      (js ''openai_organization'', js_or (f_openai_organization f) s0),
      (js ''test_model'', js_or (f_test_model f) s0), (js ''tag'', js_or (f_tag f) s0),
      (js ''remark'', js_or (f_remark f) s0), (js ''model_mapping'', js_or (f_model_mapping f) s0),
      (js ''status_code_mapping'', js_or (f_status_code_mapping f) s0),
      (js ''param_override'', js_or (f_param_override f) s0),
      (js ''header_override'', js_or (f_header_override f) s0)]"

definition transformFormDataToUpdatePayload :: "channel_form \<Rightarrow> jsnum \<Rightarrow> jsobj option" where
  "transformFormDataToUpdatePayload f channelId =
     (case buildSettingsJSON f of None \<Rightarrow> None | Some settings \<Rightarrow>
      (let payload = update_fields f channelId settings;
           payload = (if f_key f \<noteq> [] \<and> trim (f_key f) \<noteq> []
                      then obj_set (js ''key'') (VStr (f_key f)) payload else payload)
       in Some (foldl (\<lambda>ob (k, v). obj_set k v ob) (empty_to_null payload) (cleared_fields f))))"

subsection \<open>What the bodies carry\<close>

lemma get_empty_to_null: "obj_get (empty_to_null ob) k = (if obj_get ob k = VStr [] then VNull else obj_get ob k)"
  by (induction ob) (auto simp: empty_to_null_def obj_get_def)

lemma has_empty_to_null: "obj_has (empty_to_null ob) k = obj_has ob k"
  by (induction ob) (auto simp: empty_to_null_def obj_has_def)

lemma set_all: "foldl (\<lambda>ob (k, v). obj_set k v ob) ob kvs = obj.put_all kvs ob"
  by (simp add: obj.put_all_def case_prod_beta)

text \<open>A channel cannot be saved exactly when its stored settings are valid JSON but neither an
  object nor an array: then building either request body throws.\<close>

theorem save_fails_iff:
  "(transformFormDataToUpdatePayload f i = None \<longleftrightarrow> transformFormDataToCreatePayload f = None) \<and>
   (transformFormDataToCreatePayload f = None \<longleftrightarrow>
     (\<exists>s v. f_settings f = VStr s \<and> s \<noteq> [] \<and> s \<noteq> js ''{}'' \<and> json_parse s = Some v \<and>
        (\<nexists>ob. v = VObj ob) \<and> (\<nexists>vs. v = VArr vs)))"
proof -
  have "(existing_settings f = VObj ob \<or> existing_settings f = VArr vs) \<Longrightarrow> buildSettingsJSON f \<noteq> None" for ob vs
    by (auto simp: buildSettingsJSON_def)
  moreover have "buildSettingsJSON f = None \<longleftrightarrow>
      (\<nexists>ob. existing_settings f = VObj ob) \<and> (\<nexists>vs. existing_settings f = VArr vs)"
    by (auto simp: buildSettingsJSON_def split: jsval.splits)
  ultimately show ?thesis
    by (auto simp: transformFormDataToUpdatePayload_def transformFormDataToCreatePayload_def Let_def
        existing_settings_def split: option.splits jsval.splits if_splits)
qed

lemma trim_some: "s \<noteq> [] \<and> trim s \<noteq> [] \<longleftrightarrow> trim s \<noteq> []"
  by auto

lemma update_payload_eq:
  "transformFormDataToUpdatePayload f i = Some p \<longleftrightarrow>
   (\<exists>settings. buildSettingsJSON f = Some settings \<and>
      p = obj.put_all (cleared_fields f) (empty_to_null
        (if trim (f_key f) \<noteq> [] then obj_set (js ''key'') (VStr (f_key f)) (update_fields f i settings)
         else update_fields f i settings)))"
  by (auto simp: transformFormDataToUpdatePayload_def Let_def set_all split: option.splits)

lemma update_get:
  assumes "transformFormDataToUpdatePayload f i = Some p"
  obtains settings where "buildSettingsJSON f = Some settings"
    "\<And>k. obj_get p k = (case map_of (rev (cleared_fields f)) k of Some v \<Rightarrow> v | None \<Rightarrow>
      (let v = if k = js ''key'' \<and> trim (f_key f) \<noteq> [] then VStr (f_key f) else obj_get (update_fields f i settings) k
       in if v = VStr [] then VNull else v))"
    "obj_has p (js ''key'') \<longleftrightarrow> trim (f_key f) \<noteq> []"
proof -
  obtain settings where s: "buildSettingsJSON f = Some settings"
    and p: "p = obj.put_all (cleared_fields f) (empty_to_null
        (if trim (f_key f) \<noteq> [] then obj_set (js ''key'') (VStr (f_key f)) (update_fields f i settings)
         else update_fields f i settings))"
    using assms by (auto simp: update_payload_eq)
  have "js ''key'' \<notin> fst ` set (cleared_fields f)" by (simp add: cleared_fields_def)
  moreover have "\<not> obj_has (update_fields f i settings) (js ''key'')" by (simp add: obj_has_iff update_fields_def)
  ultimately show thesis
    by (intro that [OF s]) (simp_all add: p obj.get_put_all obj.has_put_all get_empty_to_null has_empty_to_null Let_def
        split: option.split)
qed

lemma cleared_values: "map_of (rev (cleared_fields f)) k = Some v \<Longrightarrow> \<exists>x. v = js_or x s0"
  using map_of_SomeD [of "rev (cleared_fields f)" k v] by (auto simp: cleared_fields_def)

text \<open>The body of an update carries the key exactly when one was typed in, and an empty text
  only in the nine fields that an update must be able to clear, which are never null.\<close>

theorem update_payload_shape:
  assumes "transformFormDataToUpdatePayload f i = Some p"
  shows "(obj_has p (js ''key'') \<longleftrightarrow> trim (f_key f) \<noteq> []) \<and>
    (k \<in> fst ` set (cleared_fields f) \<longrightarrow> obj_get p k \<noteq> VNull \<and> obj_get p k \<noteq> VUndef) \<and>
    (obj_get p k = VStr [] \<longrightarrow> k \<in> fst ` set (cleared_fields f)) \<and>
    obj_get p (js ''id'') = VNum i"
proof -
  obtain settings where g: "\<And>k. obj_get p k = (case map_of (rev (cleared_fields f)) k of Some v \<Rightarrow> v | None \<Rightarrow>
      (let v = if k = js ''key'' \<and> trim (f_key f) \<noteq> [] then VStr (f_key f) else obj_get (update_fields f i settings) k
       in if v = VStr [] then VNull else v))" "obj_has p (js ''key'') \<longleftrightarrow> trim (f_key f) \<noteq> []"
    using update_get [OF assms] by metis
  have in_dom: "map_of (rev (cleared_fields f)) k = None \<longleftrightarrow> k \<notin> fst ` set (cleared_fields f)"
    by (simp add: map_of_eq_None_iff)
  show ?thesis
  proof (intro conjI impI)
    assume "k \<in> fst ` set (cleared_fields f)"
    then obtain x where "obj_get p k = js_or x s0"
      using in_dom g(1) [of k] cleared_values [of f k] by (auto split: option.splits)
    then show "obj_get p k \<noteq> VNull" "obj_get p k \<noteq> VUndef" by (cases x; simp add: js_or_def)+
  next
    assume "obj_get p k = VStr []"
    then show "k \<in> fst ` set (cleared_fields f)"
      using in_dom g(1) [of k] by (auto simp: Let_def split: option.splits if_splits)
  next
    have "map_of (rev (cleared_fields f)) (js ''id'') = None" by (simp add: cleared_fields_def)
    moreover have "obj_get (update_fields f i settings) (js ''id'') = VNum i" by (simp add: obj_get_def update_fields_def)
    ultimately show "obj_get p (js ''id'') = VNum i" using g(1) [of "js ''id''"] by simp
  qed (fact g(2))
qed

theorem update_payload_shape_witness:
  "\<not> obj_has (the (transformFormDataToUpdatePayload CHANNEL_FORM_DEFAULT_VALUES (Fin 7))) (js ''key'') \<and>
   obj_get (the (transformFormDataToUpdatePayload CHANNEL_FORM_DEFAULT_VALUES (Fin 7))) (js ''id'') = VNum (Fin 7)"
proof -
  have "transformFormDataToUpdatePayload CHANNEL_FORM_DEFAULT_VALUES (Fin 7) =
      Some (the (transformFormDataToUpdatePayload CHANNEL_FORM_DEFAULT_VALUES (Fin 7)))"
    by (simp add: transformFormDataToUpdatePayload_def buildSettingsJSON_def existing_settings_def
        CHANNEL_FORM_DEFAULT_VALUES_def Let_def)
  from update_payload_shape [OF this] show ?thesis by (simp add: CHANNEL_FORM_DEFAULT_VALUES_def)
qed

lemma parse_groups_eq: "parseGroups s = filter (\<lambda>g. g \<noteq> []) (map trim (split_on 44 s))"
  by (simp add: parseGroups_def)

text \<open>Printing a list of groups and reading it again loses nothing.\<close>

lemma parse_format_groups: "parseGroups (formatGroups (parseGroups s)) = parseGroups s"
proof (cases "parseGroups s = []")
  case False
  have p: "g \<in> set (parseGroups s) \<Longrightarrow> g \<noteq> [] \<and> trim g = g \<and> 44 \<notin> set g" for g
    using set_trim set_split_on [of _ 44 s] by (fastforce simp: parse_groups_eq)
  have "split_on 44 (join [44] (parseGroups s)) = parseGroups s"
    using False p by (intro split_on_join) auto
  moreover have "js '','' = [44]" by (simp add: js_def)
  ultimately show ?thesis
    using p unfolding formatGroups_def by (subst parse_groups_eq) (simp add: map_idI filter_id_conv)
qed (simp add: formatGroups_def parseGroups_def)

lemma js_or_idem: "js_or (js_or v s0) s0 = js_or v s0"
  by (simp add: js_or_def)

definition null_if_empty :: "jstr \<Rightarrow> jsval" where
  "null_if_empty s = (if s = [] then VNull else VStr s)"



end
