(* ===== verification/ThinkTags.thy ===== *)
theory ThinkTags
  imports JsCoerce
begin

text \<open>
  Separating the thinking of a model from its visible answer: parseThinkTags of
  web/default/src/features/playground/lib/message-utils.ts. The loop runs over positions in the
  text; what it computes is specified by how a text is put together from visible parts, closed
  thoughts and at most one open thought at the end.
\<close>

definition open_tag :: jstr where
  "open_tag = js ''<think>''"

definition close_tag :: jstr where
  "close_tag = js ''</think>''"

definition substring :: "jstr \<Rightarrow> nat \<Rightarrow> nat \<Rightarrow> jstr" where
  "substring s i j = drop i (take j s)"

record think_parts =
  visibleContent :: jstr
  reasoning_text :: jstr
  hasUnclosedTag :: bool

lemma open_tag_length [simp]: "length open_tag = 7" and close_tag_length [simp]: "length close_tag = 8"
  by (simp_all add: open_tag_def close_tag_def)

lemma index_of_bounds: "index_of s t p = Some i \<Longrightarrow> t \<noteq> [] \<Longrightarrow> p \<le> i \<and> i + length t \<le> length s"
proof -
  assume a: "index_of s t p = Some i" "t \<noteq> []"
  then obtain j where j: "find_sub t (drop p s) = Some j" "i = p + j" by (auto simp: index_of_def)
  then have "j + length t \<le> length (drop p s)" using find_sub_Some by blast
  with a j show ?thesis by (cases t) auto
qed

text \<open>The loop: the visible parts, the reasoning parts and whether a tag is left open.\<close>

function think_loop :: "jstr \<Rightarrow> nat \<Rightarrow> jstr list \<times> jstr list \<times> bool" where
  "think_loop content currentPos =
     (case index_of content open_tag currentPos of
        None \<Rightarrow> (if currentPos < length content then [drop currentPos content] else [], [], False)
      | Some openPos \<Rightarrow>
          (let before = (if openPos > currentPos then [substring content currentPos openPos] else []) in
           case index_of content close_tag (openPos + 7) of
             None \<Rightarrow> (before, [drop (openPos + 7) content], True)
           | Some closePos \<Rightarrow>
               (let (vs, rs, unclosed) = think_loop content (closePos + 8)
                in (before @ vs, substring content (openPos + 7) closePos # rs, unclosed))))"
  by pat_completeness auto
termination
proof (relation "measure (\<lambda>(content, pos). length content - pos)")
  fix content :: jstr and pos openPos closePos :: nat and before
  assume "index_of content open_tag pos = Some openPos"
    and "index_of content close_tag (openPos + 7) = Some closePos"
  then have "pos \<le> openPos" "openPos + 7 \<le> closePos" "closePos + 8 \<le> length content"
    using index_of_bounds [of content open_tag] index_of_bounds [of content close_tag]
    by (fastforce simp: open_tag_def close_tag_def)+
  then show "((content, closePos + 8), content, pos) \<in> measure (\<lambda>(content, pos). length content - pos)"
    by simp
qed simp

declare think_loop.simps [simp del]

definition parseThinkTags :: "jstr \<Rightarrow> think_parts" where
  "parseThinkTags content =
     (if \<not> str_includes content open_tag
      then \<lparr> visibleContent = content, reasoning_text = [], hasUnclosedTag = False \<rparr>
      else let (visibleParts, reasoningParts, hasUnclosed) = think_loop content 0
           in \<lparr> visibleContent = trim (join [] visibleParts),
                reasoning_text = trim (join [10, 10] reasoningParts),
                hasUnclosedTag = hasUnclosed \<rparr>)"

subsection \<open>Texts made of thoughts\<close>

text \<open>A closed thought after some visible text, repeated; then visible text; then perhaps a thought
  that is not closed.\<close>

definition render_think :: "(jstr \<times> jstr) list \<Rightarrow> jstr \<Rightarrow> jstr option \<Rightarrow> jstr" where
  "render_think ps tail unclosed =
     concat (map (\<lambda>(v, r). v @ open_tag @ r @ close_tag) ps) @ tail @
     (case unclosed of None \<Rightarrow> [] | Some r \<Rightarrow> open_tag @ r)"

definition think_ok :: "(jstr \<times> jstr) list \<Rightarrow> jstr \<Rightarrow> jstr option \<Rightarrow> bool" where
  "think_ok ps tail unclosed \<longleftrightarrow>
     (\<forall>(v, r) \<in> set ps. \<not> str_includes v open_tag \<and> \<not> str_includes r close_tag) \<and>
     \<not> str_includes tail open_tag \<and>
     (case unclosed of None \<Rightarrow> True | Some r \<Rightarrow> \<not> str_includes r close_tag)"

text \<open>A word whose first letter occurs only there is first found where it was put.\<close>

lemma find_sub_append:
  assumes "c \<notin> set q" "find_sub (c # q) t = None"
  shows "find_sub (c # q) (t @ (c # q) @ rest) = Some (length t)"
  using assms(2)
proof (induction t)
  case Nil
  show ?case using starts_with_append [of "c # q" rest] by simp
next
  case (Cons x t)
  have "\<not> starts_with ((x # t) @ (c # q) @ rest) (c # q)"
  proof
    assume "starts_with ((x # t) @ (c # q) @ rest) (c # q)"
    then have s: "take (length q) (t @ (c # q) @ rest) = q" "x = c" by (simp_all add: starts_with_def)
    have le: "length q \<le> length t"
    proof (rule ccontr)
      assume "\<not> length q \<le> length t"
      then have "(take (length q) (t @ (c # q) @ rest)) ! length t = c" "length t < length q"
        by (simp_all add: nth_append)
      with s(1) assms(1) show False by (metis nth_mem)
    qed
    then have "take (length q) t = q" using s(1) by simp
    then have "starts_with (x # t) (c # q)" using s(2) by (simp add: starts_with_def)
    with Cons.prems show False by simp
  qed
  moreover have "find_sub (c # q) t = None" using Cons.prems by (simp split: if_splits)
  ultimately show ?case using Cons.IH by simp
qed

lemma find_open: "\<not> str_includes v open_tag \<Longrightarrow> find_sub open_tag (v @ open_tag @ rest) = Some (length v)"
  using find_sub_append [of 60 "js ''think>''" v rest] by (simp add: str_includes_def open_tag_def js_def)

lemma find_close: "\<not> str_includes v close_tag \<Longrightarrow> find_sub close_tag (v @ close_tag @ rest) = Some (length v)"
  using find_sub_append [of 60 "js ''/think>''" v rest] by (simp add: str_includes_def close_tag_def js_def)

text \<open>The parts a text of thoughts has.\<close>

definition nonempty :: "jstr \<Rightarrow> jstr list" where
  "nonempty s = (if s = [] then [] else [s])"

lemma think_loop_render:
  assumes "think_ok ps tail unclosed"
  shows "think_loop (pre @ render_think ps tail unclosed) (length pre) =
    (concat (map (nonempty \<circ> fst) ps) @ nonempty tail,
     map snd ps @ (case unclosed of None \<Rightarrow> [] | Some r \<Rightarrow> [r]), unclosed \<noteq> None)"
  using assms
proof (induction ps arbitrary: pre)
  case Nil
  show ?case
  proof (cases unclosed)
    case None
    have "index_of (pre @ tail) open_tag (length pre) = None"
      using Nil by (simp add: index_of_def think_ok_def str_includes_def)
    then show ?thesis using None by (subst think_loop.simps) (simp add: render_think_def nonempty_def)
  next
    case (Some r)
    have "index_of (pre @ tail @ open_tag @ r) open_tag (length pre) = Some (length pre + length tail)"
      using Nil find_open [of tail r] by (simp add: index_of_def think_ok_def)
    moreover have "index_of (pre @ tail @ open_tag @ r) close_tag (length pre + length tail + 7) = None"
      using Nil Some by (simp add: index_of_def think_ok_def str_includes_def)
    ultimately show ?thesis
      using Some by (subst think_loop.simps) (simp add: render_think_def nonempty_def substring_def)
  qed
next
  case (Cons p ps)
  obtain v r where p: "p = (v, r)" by (cases p)
  let ?rest = "render_think ps tail unclosed"
  let ?c = "pre @ v @ open_tag @ r @ close_tag @ ?rest"
  have c: "pre @ render_think (p # ps) tail unclosed = ?c" by (simp add: render_think_def p)
  have ok: "\<not> str_includes v open_tag" "\<not> str_includes r close_tag" "think_ok ps tail unclosed"
    using Cons.prems by (auto simp: think_ok_def p)
  have o: "index_of ?c open_tag (length pre) = Some (length pre + length v)"
    using find_open [OF ok(1)] by (simp add: index_of_def)
  have cl: "index_of ?c close_tag (length pre + length v + 7) = Some (length pre + length v + 7 + length r)"
    using find_close [OF ok(2)] by (simp add: index_of_def)
  have rec: "think_loop ?c (length pre + length v + 7 + length r + 8) =
      (concat (map (nonempty \<circ> fst) ps) @ nonempty tail,
       map snd ps @ (case unclosed of None \<Rightarrow> [] | Some r \<Rightarrow> [r]), unclosed \<noteq> None)"
    using Cons.IH [OF ok(3), of "pre @ v @ open_tag @ r @ close_tag"] by (simp add: ac_simps comp_def)
  have "think_loop ?c (length pre) =
      (let (vs, rs, u) = think_loop ?c (length pre + length v + 7 + length r + 8) in (nonempty v @ vs, r # rs, u))"
    by (subst think_loop.simps) (simp add: o cl nonempty_def substring_def)
  then show ?case unfolding c rec by (simp add: p comp_def)
qed

lemma includes_render: "think_ok ps tail unclosed \<Longrightarrow>
    str_includes (render_think ps tail unclosed) open_tag \<longleftrightarrow> ps \<noteq> [] \<or> unclosed \<noteq> None"
proof -
  assume ok: "think_ok ps tail unclosed"
  have "str_includes (v @ open_tag @ rest) open_tag" for v rest
    by (auto simp: str_includes_def find_sub_None)
  then show ?thesis using ok
    by (cases ps; cases unclosed) (auto simp: render_think_def think_ok_def split: prod.splits)
qed

lemma join_Nil_concat: "join [] xs = concat xs"
  by (induction "[] :: jstr" xs rule: join.induct) auto

lemma concat_nonempty: "concat (concat (map (nonempty \<circ> f) xs)) = concat (map f xs)"
  by (induction xs) (auto simp: nonempty_def)

lemma think_tags_render:
  assumes "think_ok ps tail unclosed"
  shows "parseThinkTags (render_think ps tail unclosed) =
    (if ps = [] \<and> unclosed = None
     then \<lparr> visibleContent = tail, reasoning_text = [], hasUnclosedTag = False \<rparr>
     else \<lparr> visibleContent = trim (concat (map fst ps) @ tail),
            reasoning_text = trim (join [10, 10] (map snd ps @ (case unclosed of None \<Rightarrow> [] | Some r \<Rightarrow> [r]))),
            hasUnclosedTag = (unclosed \<noteq> None) \<rparr>)"
proof (cases "ps = [] \<and> unclosed = None")
  case True
  then show ?thesis using includes_render [OF assms] by (simp add: parseThinkTags_def) (simp add: render_think_def)
next
  case False
  then have "str_includes (render_think ps tail unclosed) open_tag" using includes_render [OF assms] by simp
  moreover have "concat (nonempty tail) = tail" by (simp add: nonempty_def)
  ultimately show ?thesis
    using False think_loop_render [OF assms, of "[]"]
    by (auto simp: parseThinkTags_def join_Nil_concat concat_nonempty)
qed

text \<open>Every text is made of thoughts in this way: cut it at its first tag, and go on behind it.\<close>

lemma find_sub_take: "find_sub t s = Some i \<Longrightarrow> t \<noteq> [] \<Longrightarrow> find_sub t (take i s) = None"
proof -
  assume a: "find_sub t s = Some i" "t \<noteq> []"
  have False if "take i s = b @ t @ c" for b c
  proof -
    have "s = b @ t @ (c @ drop i s)" using that by (metis append.assoc append_take_drop_id)
    with a(1) have "i \<le> length b" using find_sub_first [of t b "c @ drop i s" i] by simp
    moreover have "length (take i s) \<le> i" by simp
    ultimately show False using that a(2) by (cases t) auto
  qed
  then show ?thesis by (auto simp: find_sub_None)
qed

lemma cut_tag:
  assumes "str_includes s t" "t \<noteq> []"
  obtains v rest where "s = v @ t @ rest" "\<not> str_includes v t"
proof -
  obtain i where i: "find_sub t s = Some i" using assms(1) by (auto simp: str_includes_def)
  obtain r where "s = take i s @ t @ r" using find_sub_Some [OF i] by blast
  then show thesis using that find_sub_take [OF i assms(2)] by (simp add: str_includes_def)
qed

lemma think_decompose: "\<exists>ps tail unclosed. think_ok ps tail unclosed \<and> content = render_think ps tail unclosed"
proof (induction content rule: length_induct)
  case (1 content)
  show ?case
  proof (cases "str_includes content open_tag")
    case False
    then show ?thesis
      by (intro exI [of _ "[]"] exI [of _ content] exI [of _ None]) (simp add: think_ok_def render_think_def)
  next
    case True
    then obtain v rest where v: "content = v @ open_tag @ rest" "\<not> str_includes v open_tag"
      by (rule cut_tag) (simp_all add: open_tag_def)
    show ?thesis
    proof (cases "str_includes rest close_tag")
      case False
      then show ?thesis using v
        by (intro exI [of _ "[]"] exI [of _ v] exI [of _ "Some rest"]) (simp add: think_ok_def render_think_def)
    next
      case True
      then obtain r rest' where r: "rest = r @ close_tag @ rest'" "\<not> str_includes r close_tag"
        by (rule cut_tag) (simp_all add: close_tag_def)
      have "length rest' < length content" using v r by simp
      then obtain ps tail unclosed where "think_ok ps tail unclosed" "rest' = render_think ps tail unclosed"
        using 1 by blast
      then show ?thesis using v r
        by (intro exI [of _ "(v, r) # ps"] exI [of _ tail] exI [of _ unclosed])
          (simp add: think_ok_def render_think_def)
    qed
  qed
qed

text \<open>C5. Any text is, in exactly the way the parser reads it, closed thoughts between visible parts
  followed by visible text and perhaps an open thought: the visible content joins the visible parts,
  the reasoning joins the thoughts by blank lines, both trimmed, and a text without tags is left as
  it is.\<close>

theorem think_tags_exact:
  "\<exists>ps tail unclosed. think_ok ps tail unclosed \<and> content = render_think ps tail unclosed \<and>
     parseThinkTags content =
       (if ps = [] \<and> unclosed = None
        then \<lparr> visibleContent = content, reasoning_text = [], hasUnclosedTag = False \<rparr>
        else \<lparr> visibleContent = trim (concat (map fst ps) @ tail),
               reasoning_text = trim (join [10, 10] (map snd ps @ (case unclosed of None \<Rightarrow> [] | Some r \<Rightarrow> [r]))),
               hasUnclosedTag = (unclosed \<noteq> None) \<rparr>)"
proof -
  obtain ps tail unclosed where d: "think_ok ps tail unclosed" "content = render_think ps tail unclosed"
    using think_decompose by blast
  have "ps = [] \<and> unclosed = None \<Longrightarrow> content = tail" using d(2) by (simp add: render_think_def)
  with think_tags_render [OF d(1), folded d(2)] d show ?thesis
    by (intro exI [of _ ps] exI [of _ tail] exI [of _ unclosed]) (simp split: if_splits)
qed

text \<open>A text put together from visible parts and thoughts is taken apart into the same parts.\<close>

theorem think_tags_roundtrip:
  assumes "\<not> str_includes v open_tag" "\<not> str_includes r close_tag" "\<not> str_includes w open_tag"
  shows "parseThinkTags (v @ open_tag @ r @ close_tag @ w) =
    \<lparr> visibleContent = trim (v @ w), reasoning_text = trim r, hasUnclosedTag = False \<rparr>"
  using think_tags_render [of "[(v, r)]" w None] assms by (simp add: think_ok_def render_think_def)

theorem think_tags_roundtrip_witness:
  "parseThinkTags (js ''<think>carry the one</think> 42'') =
     \<lparr> visibleContent = js ''42'', reasoning_text = js ''carry the one'', hasUnclosedTag = False \<rparr>"
proof -
  have "js ''<think>carry the one</think> 42'' = [] @ open_tag @ js ''carry the one'' @ close_tag @ js '' 42''"
    by (simp add: open_tag_def close_tag_def js_def)
  moreover have "\<not> str_includes [] open_tag" "\<not> str_includes (js ''carry the one'') close_tag"
    "\<not> str_includes (js '' 42'') open_tag" by code_simp+
  moreover have "trim ([] @ js '' 42'') = js ''42''" "trim (js ''carry the one'') = js ''carry the one''" by code_simp+
  ultimately show ?thesis using think_tags_roundtrip [of "[]" "js ''carry the one''" "js '' 42''"] by simp
qed

end
