(* ===== verification/ChatMessage.thy ===== *)
theory ChatMessage
  imports ThinkTags
begin

text \<open>
  Messages of the playground chat: the types of web/default/src/features/playground/types.ts and
  the functions of lib/message-utils.ts. An optional field is an option, missing is None; an error
  code, which the API chooses, is any JavaScript value. Identifiers that the code draws from nanoid are arguments.
\<close>

datatype role = User | Assistant | System

datatype message_status = Loading | Streaming | Complete | Failed

record message_version =
  v_id :: jstr
  v_content :: jstr

record reasoning =
  r_content :: jstr
  r_duration :: jsnum

record source =
  s_href :: jstr
  s_title :: jstr

record message =
  m_key :: jstr
  m_from :: role
  m_versions :: "message_version list"
  m_sources :: "source list option"
  m_reasoning :: "reasoning option"
  m_isReasoningStreaming :: "bool option"
  m_isReasoningComplete :: "bool option"
  m_isContentComplete :: "bool option"
  m_status :: "message_status option"
  m_errorCode :: jsval

definition API_REQUEST_ERROR :: jstr where "API_REQUEST_ERROR = js ''Request error occurred''"
definition PARSE_ERROR :: jstr where "PARSE_ERROR = js ''Error parsing response data''"
definition STREAM_START_ERROR :: jstr where "STREAM_START_ERROR = js ''Error establishing connection''"
definition CONNECTION_CLOSED :: jstr where "CONNECTION_CLOSED = js ''Connection closed''"
definition INTERRUPTED :: jstr where "INTERRUPTED = js ''Generation was interrupted''"

subsection \<open>Building messages\<close>

definition createMessageVersion :: "jstr \<Rightarrow> jstr \<Rightarrow> message_version" where
  "createMessageVersion nanoid content = \<lparr> v_id = nanoid, v_content = content \<rparr>"

definition getCurrentVersion :: "message \<Rightarrow> message_version" where
  "getCurrentVersion m =
     (case m_versions m of v # _ \<Rightarrow> v | [] \<Rightarrow> \<lparr> v_id = js ''default'', v_content = [] \<rparr>)"

definition updateCurrentVersionContent :: "message \<Rightarrow> jstr \<Rightarrow> message" where
  "updateCurrentVersionContent m content =
     m \<lparr> m_versions := [getCurrentVersion m \<lparr> v_content := content \<rparr>] \<rparr>"

definition blank_message :: "jstr \<Rightarrow> role \<Rightarrow> message_version list \<Rightarrow> message" where
  "blank_message key sender versions =
     \<lparr> m_key = key, m_from = sender, m_versions = versions, m_sources = None, m_reasoning = None,
       m_isReasoningStreaming = None, m_isReasoningComplete = None, m_isContentComplete = None,
       m_status = None, m_errorCode = VUndef \<rparr>"

definition createUserMessage :: "jstr \<Rightarrow> jstr \<Rightarrow> jstr \<Rightarrow> message" where
  "createUserMessage nanoid_key nanoid_version content =
     blank_message nanoid_key User [createMessageVersion nanoid_version content]"

definition createLoadingAssistantMessage :: "jstr \<Rightarrow> jstr \<Rightarrow> message" where
  "createLoadingAssistantMessage nanoid_key nanoid_version =
     (blank_message nanoid_key Assistant [createMessageVersion nanoid_version []])
       \<lparr> m_isReasoningComplete := Some False, m_isContentComplete := Some False,
         m_isReasoningStreaming := Some False, m_status := Some Loading \<rparr>"

subsection \<open>Content for the API\<close>

datatype content_part = TextPart jstr | ImagePart jstr

datatype message_content = Plain jstr | Parts "content_part list"

definition buildMessageContent :: "jstr \<Rightarrow> jstr list \<Rightarrow> message_content" where
  "buildMessageContent t imageUrls =
     (let validImages = filter (\<lambda>url. trim url \<noteq> []) imageUrls in
      if length validImages = 0 then Plain t
      else Parts (TextPart t # map (\<lambda>url. ImagePart (trim url)) validImages))"

definition is_text_part :: "content_part \<Rightarrow> bool" where
  "is_text_part p = (case p of TextPart _ \<Rightarrow> True | ImagePart _ \<Rightarrow> False)"

definition getTextContent :: "message_content \<Rightarrow> jstr" where
  "getTextContent content =
     (case content of
        Plain t \<Rightarrow> t
      | Parts ps \<Rightarrow> (case List.find is_text_part ps of Some (TextPart t) \<Rightarrow> t | _ \<Rightarrow> []))"

record api_message =
  api_role :: role
  api_content :: jstr

definition formatMessageForAPI :: "message \<Rightarrow> api_message" where
  "formatMessageForAPI m = \<lparr> api_role = m_from m, api_content = v_content (getCurrentVersion m) \<rparr>"

text \<open>The guards against missing fields cannot fail for a typed message.\<close>

definition isValidMessage :: "message \<Rightarrow> bool" where
  "isValidMessage m =
     (case m_versions m of
        [] \<Rightarrow> False
      | v # _ \<Rightarrow> if m_from m = Assistant \<and> trim (v_content v) = [] then False else True)"

subsection \<open>Updating the answer\<close>

definition updateLastAssistantMessage :: "message list \<Rightarrow> (message \<Rightarrow> message) \<Rightarrow> message list" where
  "updateLastAssistantMessage messages updater =
     (if messages = [] then messages
      else let l = last messages in
           if m_from l \<noteq> Assistant then messages else butlast messages @ [updater l])"

text \<open>The message is put into a template, so any value prints; a falsy code is stored as null.\<close>

definition updateAssistantMessageWithError :: "message list \<Rightarrow> jsval \<Rightarrow> jsval \<Rightarrow> message list" where
  "updateAssistantMessageWithError messages errorMessage errorCode =
     updateLastAssistantMessage messages (\<lambda>m.
       (updateCurrentVersionContent m (API_REQUEST_ERROR @ js '': '' @ to_str errorMessage))
         \<lparr> m_status := Some Failed, m_isReasoningStreaming := Some False,
           m_errorCode := js_or errorCode VNull \<rparr>)"

text \<open>A missing chunk adds nothing, as an empty one does.\<close>

definition processStreamingContent :: "message \<Rightarrow> jstr \<Rightarrow> message" where
  "processStreamingContent m contentChunk =
     (let fullContent = v_content (getCurrentVersion m) @ contentChunk;
          parts = parseThinkTags fullContent;
          finalReasoning = (if reasoning_text parts \<noteq> []
            then Some \<lparr> r_content = reasoning_text parts, r_duration = Fin 0 \<rparr> else m_reasoning m)
      in (updateCurrentVersionContent m fullContent)
           \<lparr> m_reasoning := finalReasoning, m_isReasoningStreaming := Some (hasUnclosedTag parts) \<rparr>)"

definition or_text :: "jstr \<Rightarrow> jstr \<Rightarrow> jstr" where
  "or_text a b = (if a \<noteq> [] then a else b)"

definition reasoning_content :: "message \<Rightarrow> jstr" where
  "reasoning_content m = (case m_reasoning m of Some r \<Rightarrow> r_content r | None \<Rightarrow> [])"

definition reasoning_duration :: "message \<Rightarrow> jsnum" where
  "reasoning_duration m =
     (case m_reasoning m of Some r \<Rightarrow> if num_truthy (r_duration r) then r_duration r else Fin 0 | None \<Rightarrow> Fin 0)"

definition finalizeMessage :: "message \<Rightarrow> jstr \<Rightarrow> message" where
  "finalizeMessage m apiReasoningContent =
     (let parts = parseThinkTags (v_content (getCurrentVersion m));
          finalReasoning = or_text apiReasoningContent (or_text (reasoning_content m) (reasoning_text parts))
      in (updateCurrentVersionContent m (visibleContent parts))
           \<lparr> m_reasoning := (if finalReasoning \<noteq> []
               then Some \<lparr> r_content = finalReasoning, r_duration = reasoning_duration m \<rparr> else None),
             m_isReasoningStreaming := Some False \<rparr>)"

subsection \<open>Loading stored messages\<close>

definition stuck :: "message \<Rightarrow> bool" where
  "stuck m \<longleftrightarrow> m_from m = Assistant \<and> (m_status m = Some Loading \<or> m_status m = Some Streaming)"

definition sanitize_message :: "message \<Rightarrow> message" where
  "sanitize_message m =
     (let finalized = finalizeMessage m [];
          hasContent = trim (v_content (getCurrentVersion finalized));
          hasReasoning = trim (reasoning_content finalized)
      in if hasContent \<noteq> [] \<or> hasReasoning \<noteq> []
         then finalized \<lparr> m_status := Some Complete, m_isReasoningStreaming := Some False \<rparr>
         else (updateCurrentVersionContent finalized (API_REQUEST_ERROR @ js '': '' @ INTERRUPTED))
                \<lparr> m_status := Some Failed, m_isReasoningStreaming := Some False \<rparr>)"

definition sanitizeMessagesOnLoad :: "message list \<Rightarrow> message list" where
  "sanitizeMessagesOnLoad messages =
     (case find_last stuck messages of
        None \<Rightarrow> messages
      | Some i \<Rightarrow> messages[i := sanitize_message (messages ! i)])"

subsection \<open>Only the last answer changes\<close>

text \<open>Everything the chat does to the messages while an answer arrives goes through
  \<open>updateLastAssistantMessage\<close>.\<close>

lemma update_last_append:
  "updateLastAssistantMessage (ms @ [m]) f = ms @ [if m_from m = Assistant then f m else m]"
  by (simp add: updateLastAssistantMessage_def Let_def)

lemma update_last_Nil [simp]: "updateLastAssistantMessage [] f = []"
  by (simp add: updateLastAssistantMessage_def)

lemma update_last_comp:
  assumes "\<And>m. m_from (f m) = m_from m"
  shows "updateLastAssistantMessage (updateLastAssistantMessage ms f) g = updateLastAssistantMessage ms (g \<circ> f)"
  using assms by (cases ms rule: rev_cases) (auto simp: update_last_append)

lemma update_last_id: "updateLastAssistantMessage ms (\<lambda>m. m) = ms"
  by (cases ms rule: rev_cases) (simp_all add: update_last_append)

lemma length_update_last [simp]: "length (updateLastAssistantMessage ms f) = length ms"
  by (cases ms rule: rev_cases) (simp_all add: update_last_append)

subsection \<open>Streaming an answer in chunks\<close>

lemma current_update [simp]:
  "v_content (getCurrentVersion (updateCurrentVersionContent m c)) = c"
  "updateCurrentVersionContent (updateCurrentVersionContent m c) d = updateCurrentVersionContent m d"
  by (simp_all add: updateCurrentVersionContent_def getCurrentVersion_def)

lemma process_fields [simp]:
  "m_from (processStreamingContent m c) = m_from m"
  "m_status (processStreamingContent m c) = m_status m"
  "v_content (getCurrentVersion (processStreamingContent m c)) = v_content (getCurrentVersion m) @ c"
  by (simp_all add: processStreamingContent_def Let_def updateCurrentVersionContent_def getCurrentVersion_def)

lemma finalize_fields [simp]:
  "m_from (finalizeMessage m a) = m_from m" "m_status (finalizeMessage m a) = m_status m"
  "v_content (getCurrentVersion (finalizeMessage m a)) = visibleContent (parseThinkTags (v_content (getCurrentVersion m)))"
  by (simp_all add: finalizeMessage_def Let_def updateCurrentVersionContent_def getCurrentVersion_def)

lemma process_content: "v_content (getCurrentVersion (foldl processStreamingContent m cs)) =
    v_content (getCurrentVersion m) @ concat cs"
  by (induction cs arbitrary: m) simp_all

lemma process_update: "updateCurrentVersionContent (processStreamingContent m c) d =
    (updateCurrentVersionContent m d) \<lparr> m_reasoning := m_reasoning (processStreamingContent m c),
      m_isReasoningStreaming := m_isReasoningStreaming (processStreamingContent m c) \<rparr>"
  by (simp add: processStreamingContent_def Let_def updateCurrentVersionContent_def getCurrentVersion_def)

lemma process_all_update: "\<exists>r b. updateCurrentVersionContent (foldl processStreamingContent m cs) d =
    (updateCurrentVersionContent m d) \<lparr> m_reasoning := r, m_isReasoningStreaming := b \<rparr>"
proof (induction cs arbitrary: m)
  case Nil
  show ?case by (intro exI [of _ "m_reasoning m"] exI [of _ "m_isReasoningStreaming m"])
    (simp add: updateCurrentVersionContent_def)
next
  case (Cons c cs)
  obtain r b where "updateCurrentVersionContent (foldl processStreamingContent (processStreamingContent m c) cs) d =
      (updateCurrentVersionContent (processStreamingContent m c) d) \<lparr> m_reasoning := r, m_isReasoningStreaming := b \<rparr>"
    using Cons by blast
  then show ?case by (intro exI [of _ r] exI [of _ b]) (simp add: process_update)
qed

text \<open>However a stream is cut into chunks, the finished answer is that of the whole text when
  the whole text has some reasoning: the visible part and the reasoning come from the text alone.\<close>

theorem chunking_irrelevant:
  assumes "cs \<noteq> []" "reasoning_text (parseThinkTags (v_content (getCurrentVersion m) @ concat cs)) \<noteq> []"
  shows "finalizeMessage (foldl processStreamingContent m cs) [] =
    (let parts = parseThinkTags (v_content (getCurrentVersion m) @ concat cs) in
     (updateCurrentVersionContent m (visibleContent parts))
       \<lparr> m_reasoning := Some \<lparr> r_content = reasoning_text parts, r_duration = Fin 0 \<rparr>,
         m_isReasoningStreaming := Some False \<rparr>)"
proof -
  obtain cs' c where cs: "cs = cs' @ [c]" using assms(1) by (cases cs rule: rev_cases) auto
  let ?m = "foldl processStreamingContent m cs"
  let ?p = "parseThinkTags (v_content (getCurrentVersion m) @ concat cs)"
  have r: "m_reasoning ?m = Some \<lparr> r_content = reasoning_text ?p, r_duration = Fin 0 \<rparr>"
    using assms(2) by (simp add: cs processStreamingContent_def Let_def process_content)
  obtain q b where u: "updateCurrentVersionContent ?m (visibleContent ?p) =
      (updateCurrentVersionContent m (visibleContent ?p)) \<lparr> m_reasoning := q, m_isReasoningStreaming := b \<rparr>"
    using process_all_update by blast
  show ?thesis
    using assms(2)
    by (simp add: finalizeMessage_def Let_def process_content r reasoning_content_def reasoning_duration_def or_text_def u)
qed

theorem chunking_irrelevant_witness:
  "m_reasoning (finalizeMessage (foldl processStreamingContent (createLoadingAssistantMessage [] [])
     [js ''<thi'', js ''nk>sum</think>'', js ''4'']) []) = Some \<lparr> r_content = js ''sum'', r_duration = Fin 0 \<rparr>"
proof -
  have p: "parseThinkTags (v_content (getCurrentVersion (createLoadingAssistantMessage [] [])) @
      concat [js ''<thi'', js ''nk>sum</think>'', js ''4'']) =
      \<lparr> visibleContent = js ''4'', reasoning_text = js ''sum'', hasUnclosedTag = False \<rparr>" by code_simp
  show ?thesis by (subst chunking_irrelevant) (simp_all only: p, simp_all)
qed

text \<open>When a closing tag arrives in two chunks and the thought is empty, half of the tag stays
  as the reasoning of the finished answer, although the whole text has no reasoning.\<close>

theorem split_tag_leaves_reasoning:
  "reasoning_text (parseThinkTags (concat [js ''<think></'', js ''think>hi''])) = [] \<and>
   m_reasoning (finalizeMessage (foldl processStreamingContent (createLoadingAssistantMessage k v)
     [js ''<think></'', js ''think>hi'']) []) = Some \<lparr> r_content = js ''</'', r_duration = Fin 0 \<rparr>"
proof -
  have p: "parseThinkTags (js ''<think></'') =
      \<lparr> visibleContent = [], reasoning_text = js ''</'', hasUnclosedTag = True \<rparr>"
    "parseThinkTags (js ''<think></'' @ js ''think>hi'') =
      \<lparr> visibleContent = js ''hi'', reasoning_text = [], hasUnclosedTag = False \<rparr>"
    by code_simp+
  show ?thesis
    by (simp add: p processStreamingContent_def finalizeMessage_def Let_def createLoadingAssistantMessage_def
        blank_message_def createMessageVersion_def getCurrentVersion_def updateCurrentVersionContent_def
        or_text_def reasoning_content_def reasoning_duration_def)
qed

subsection \<open>Stuck messages\<close>

lemma sanitize_not_stuck: "\<not> stuck (sanitize_message m)"
  by (simp add: sanitize_message_def Let_def stuck_def)

lemma interrupted_text: "trim (API_REQUEST_ERROR @ js '': '' @ INTERRUPTED) \<noteq> []"
  by code_simp

lemma sanitize_shows_something:
  "trim (v_content (getCurrentVersion (sanitize_message m))) \<noteq> [] \<or> trim (reasoning_content (sanitize_message m)) \<noteq> []"
  by (auto simp: sanitize_message_def Let_def reasoning_content_def updateCurrentVersionContent_def
      getCurrentVersion_def interrupted_text split: option.splits)

text \<open>Loading stored messages settles the last answer that was still loading or streaming and no
  other message: it becomes complete or failed, with some text or reasoning to show, so one load
  leaves one stuck message less.\<close>

theorem sanitize_exact:
  "length (filter stuck (sanitizeMessagesOnLoad ms)) = length (filter stuck ms) - 1 \<and>
   (list_all (Not \<circ> stuck) ms \<and> sanitizeMessagesOnLoad ms = ms \<or>
    (\<exists>before m after. ms = before @ m # after \<and> stuck m \<and> list_all (Not \<circ> stuck) after \<and>
       sanitizeMessagesOnLoad ms = before @ sanitize_message m # after \<and>
       m_status (sanitize_message m) \<in> {Some Complete, Some Failed} \<and>
       \<not> (trim (v_content (getCurrentVersion (sanitize_message m))) = [] \<and>
          trim (reasoning_content (sanitize_message m)) = [])))"
proof (cases "find_last stuck ms")
  case None
  then have "sanitizeMessagesOnLoad ms = ms" "list_all (Not \<circ> stuck) ms" "filter stuck ms = []"
    by (simp add: sanitizeMessagesOnLoad_def, auto simp: find_last_None list_all_iff filter_empty_conv)
  then show ?thesis by simp
next
  case (Some i)
  then have i: "i < length ms" "stuck (ms ! i)" "\<forall>j. i < j \<and> j < length ms \<longrightarrow> \<not> stuck (ms ! j)"
    using find_last_Some [of stuck ms i] by auto
  let ?a = "take i ms" and ?b = "drop (Suc i) ms" and ?m = "ms ! i"
  have ms: "ms = ?a @ ?m # ?b" using i(1) by (simp add: id_take_nth_drop [symmetric])
  have b: "list_all (Not \<circ> stuck) ?b"
    using i(3) by (auto simp: list_all_length)
  have s: "sanitizeMessagesOnLoad ms = ?a @ sanitize_message ?m # ?b"
    using i(1) Some by (simp add: sanitizeMessagesOnLoad_def upd_conv_take_nth_drop)
  have "length (filter stuck ms) = Suc (length (filter stuck ?a) + length (filter stuck ?b))"
    by (subst ms) (simp add: i(2))
  moreover have "length (filter stuck (sanitizeMessagesOnLoad ms)) = length (filter stuck ?a) + length (filter stuck ?b)"
    by (simp add: s sanitize_not_stuck)
  moreover have "m_status (sanitize_message ?m) \<in> {Some Complete, Some Failed}"
    by (simp add: sanitize_message_def Let_def)
  ultimately show ?thesis
    using ms b s i(2) sanitize_shows_something [of ?m] by auto
qed

end
