(* ===== verification/ChatStream.thy ===== *)
theory ChatStream
  imports ChatMessage
begin

text \<open>
  Sending a chat and receiving the answer: the request body (lib/payload-builder.ts of
  web/default/src/features/playground), the server-sent events of hooks/use-stream-request.ts and
  the handlers of hooks/use-chat-handler.ts. The state holds the messages, the two refs of the
  stream hook (whether a source is open, whether the stream is complete) and the effects outside it:
  the calls of the workshop counters and the error notices. The event source is a library;
  its events are the input of the machine, with the fields the handlers read. A source that closes
  itself from inside a handler may deliver further events, which are further inputs.
\<close>

subsection \<open>The request body\<close>

definition parameter_keys :: "jstr list" where
  "parameter_keys =
     [js ''temperature'', js ''top_p'', js ''max_tokens'', js ''frequency_penalty'', js ''presence_penalty'', js ''seed'']"

definition role_str :: "role \<Rightarrow> jstr" where
  "role_str r = (case r of User \<Rightarrow> js ''user'' | Assistant \<Rightarrow> js ''assistant'' | System \<Rightarrow> js ''system'')"

definition api_message_val :: "api_message \<Rightarrow> jsval" where
  "api_message_val m = VObj [(js ''role'', VStr (role_str (api_role m))), (js ''content'', VStr (api_content m))]"

definition add_parameter :: "jsobj \<Rightarrow> jsobj \<Rightarrow> jsobj \<Rightarrow> jstr \<Rightarrow> jsobj" where
  "add_parameter config parameterEnabled payload key =
     (if truthy (obj_get parameterEnabled key)
      then let v = obj_get config key in
           if v \<noteq> VUndef \<and> v \<noteq> VNull then obj_set key v payload else payload
      else payload)"

definition buildChatCompletionPayload :: "message list \<Rightarrow> jsobj \<Rightarrow> jsobj \<Rightarrow> jsobj" where
  "buildChatCompletionPayload messages config parameterEnabled =
     (let processedMessages = map formatMessageForAPI (filter isValidMessage messages);
          payload = [(js ''model'', obj_get config (js ''model'')), (js ''group'', obj_get config (js ''group'')),
            (js ''messages'', VArr (map api_message_val processedMessages)),
            (js ''stream'', obj_get config (js ''stream''))]
      in foldl (add_parameter config parameterEnabled) payload parameter_keys)"

subsection \<open>The state\<close>

datatype effect = WorkshopSuccess | WorkshopFailure | ToastError jsval

record chat_state =
  c_messages :: "message list"
  c_source_open :: bool
  c_complete :: bool
  c_effects :: "effect list"

definition on_message_update :: "(message \<Rightarrow> message) \<Rightarrow> chat_state \<Rightarrow> chat_state" where
  "on_message_update f st = st \<lparr> c_messages := updateLastAssistantMessage (c_messages st) f \<rparr>"

definition emit :: "effect list \<Rightarrow> chat_state \<Rightarrow> chat_state" where
  "emit es st = st \<lparr> c_effects := c_effects st @ es \<rparr>"

subsection \<open>The handlers of the chat\<close>

datatype chunk_kind = ReasoningChunk | ContentChunk

definition apply_chunk :: "chunk_kind \<Rightarrow> jsval \<Rightarrow> message \<Rightarrow> message" where
  "apply_chunk kind chunk m =
     (if m_status m = Some Failed then m
      else case kind of
        ReasoningChunk \<Rightarrow>
          m \<lparr> m_reasoning := Some \<lparr> r_content = reasoning_content m @ to_str chunk, r_duration = Fin 0 \<rparr>,
              m_isReasoningStreaming := Some True, m_status := Some Streaming \<rparr>
      | ContentChunk \<Rightarrow> (processStreamingContent m (to_str chunk)) \<lparr> m_status := Some Streaming \<rparr>)"

definition handleStreamUpdate :: "chunk_kind \<Rightarrow> jsval \<Rightarrow> chat_state \<Rightarrow> chat_state" where
  "handleStreamUpdate kind chunk st = on_message_update (apply_chunk kind chunk) st"

definition complete_message :: "message \<Rightarrow> message" where
  "complete_message m =
     (if m_status m = Some Complete \<or> m_status m = Some Failed then m
      else (finalizeMessage m []) \<lparr> m_status := Some Complete \<rparr>)"

definition handleStreamComplete :: "chat_state \<Rightarrow> chat_state" where
  "handleStreamComplete st = on_message_update complete_message (emit [WorkshopSuccess] st)"

definition handleStreamError :: "jsval \<Rightarrow> jsval \<Rightarrow> chat_state \<Rightarrow> chat_state" where
  "handleStreamError err errorCode st =
     (let st = emit [WorkshopFailure, ToastError err] st in
      st \<lparr> c_messages := updateAssistantMessageWithError (c_messages st) err errorCode \<rparr>)"

definition stop_message :: "message \<Rightarrow> message" where
  "stop_message m =
     (if m_status m = Some Loading \<or> m_status m = Some Streaming
      then (finalizeMessage m []) \<lparr> m_status := Some Complete \<rparr> else m)"

definition stopStream :: "chat_state \<Rightarrow> chat_state" where
  "stopStream st = (if c_source_open st then st \<lparr> c_source_open := False \<rparr> else st)"

definition stopGeneration :: "chat_state \<Rightarrow> chat_state" where
  "stopGeneration st = on_message_update stop_message (stopStream st)"

subsection \<open>The event source\<close>

text \<open>A message with its data, an error event with its data and the readyState of the source, and a
  change of the readyState with the status of the source, both perhaps missing.\<close>

datatype sse_event = SseMessage jstr | SseError jsval jsnum | SseReadyState "jsnum option" "jsnum option"

definition close_source :: "chat_state \<Rightarrow> chat_state" where
  "close_source st = st \<lparr> c_source_open := False \<rparr>"

definition handleError :: "jsval \<Rightarrow> jsval \<Rightarrow> chat_state \<Rightarrow> chat_state" where
  "handleError errorMessage errorCode st =
     (if \<not> c_complete st then close_source (handleStreamError errorMessage errorCode st) else st)"

text \<open>The body of the try block: None where parsing or reading a property of null throws.\<close>

definition chunk_updates :: "jstr \<Rightarrow> (chunk_kind \<times> jsval) list option" where
  "chunk_updates data =
     (case json_parse data of
        None \<Rightarrow> None
      | Some chunk \<Rightarrow>
          if nullish chunk then None
          else let delta = opt_prop (opt_first (js_prop chunk (js ''choices''))) (js ''delta'') in
               if truthy delta
               then Some ((if truthy (js_prop delta (js ''reasoning_content''))
                           then [(ReasoningChunk, js_prop delta (js ''reasoning_content''))] else []) @
                          (if truthy (js_prop delta (js ''content''))
                           then [(ContentChunk, js_prop delta (js ''content''))] else []))
               else Some [])"

definition on_sse_message :: "jstr \<Rightarrow> chat_state \<Rightarrow> chat_state" where
  "on_sse_message data st =
     (if data = js ''[DONE]'' then handleStreamComplete (close_source (st \<lparr> c_complete := True \<rparr>))
      else case chunk_updates data of
        Some us \<Rightarrow> foldl (\<lambda>s (kind, chunk). handleStreamUpdate kind chunk s) st us
      | None \<Rightarrow> handleError (VStr PARSE_ERROR) VUndef st)"

text \<open>The message and the code of an error event; the data is a text or missing.\<close>

definition error_details :: "jsval \<Rightarrow> jsval \<times> jsval" where
  "error_details data =
     (let errorMessage = js_or data (VStr API_REQUEST_ERROR) in
      case data of
        VStr s \<Rightarrow>
          (if s = [] then (errorMessage, VUndef)
           else case json_parse s of
             None \<Rightarrow> (errorMessage, VUndef)
           | Some parsed \<Rightarrow>
               (let err = opt_prop parsed (js ''error'') in
                if truthy err
                then (js_or (js_prop err (js ''message'')) errorMessage, js_or (js_prop err (js ''code'')) VUndef)
                else (errorMessage, VUndef)))
      | _ \<Rightarrow> (errorMessage, VUndef))"

definition on_sse_error :: "jsval \<Rightarrow> jsnum \<Rightarrow> chat_state \<Rightarrow> chat_state" where
  "on_sse_error data readyState st =
     (if \<not> num_eq readyState (Fin 2)
      then let (errorMessage, errorCode) = error_details data in handleError errorMessage errorCode st
      else st)"

definition on_sse_ready_state :: "jsnum option \<Rightarrow> jsnum option \<Rightarrow> chat_state \<Rightarrow> chat_state" where
  "on_sse_ready_state readyState status st =
     (case (readyState, status) of
        (Some r, Some s) \<Rightarrow>
          if num_le (Fin 2) r \<and> \<not> num_eq s (Fin 200)
          then handleError (VStr (js ''HTTP '' @ num_str s @ js '': '' @ CONNECTION_CLOSED)) VUndef st
          else st
      | _ \<Rightarrow> st)"

definition stream_step :: "chat_state \<Rightarrow> sse_event \<Rightarrow> chat_state" where
  "stream_step st ev =
     (case ev of
        SseMessage data \<Rightarrow> on_sse_message data st
      | SseError data readyState \<Rightarrow> on_sse_error data readyState st
      | SseReadyState readyState status \<Rightarrow> on_sse_ready_state readyState status st)"

text \<open>Opening the stream may throw.\<close>

definition sendStreamRequest :: "bool \<Rightarrow> chat_state \<Rightarrow> chat_state" where
  "sendStreamRequest start_throws st =
     (let st = st \<lparr> c_source_open := True, c_complete := False \<rparr> in
      if start_throws
      then (handleStreamError (VStr STREAM_START_ERROR) VUndef st) \<lparr> c_source_open := False \<rparr>
      else st)"

definition isStreaming :: "chat_state \<Rightarrow> bool" where
  "isStreaming st = c_source_open st"

subsection \<open>The request without streaming\<close>

text \<open>The body of the answer, or the value the request was rejected with.\<close>

datatype http_result = Response jsval | Rejected jsval

text \<open>The content is typed as a text; another value would print in the template of an error only.\<close>

definition text_of :: "jsval \<Rightarrow> jstr" where
  "text_of v = (if truthy v then to_str v else [])"

definition answer_message :: "jsval \<Rightarrow> message \<Rightarrow> message" where
  "answer_message choice m =
     (let msg = js_prop choice (js ''message'');
          v0 = (case m_versions m of v # _ \<Rightarrow> v | [] \<Rightarrow> \<lparr> v_id = [], v_content = [] \<rparr>)
      in (finalizeMessage
            (m \<lparr> m_versions := [v0 \<lparr> v_content := text_of (opt_prop msg (js ''content'')) \<rparr>] \<rparr>)
            (text_of (opt_prop msg (js ''reasoning_content''))))
         \<lparr> m_status := Some Complete \<rparr>)"

definition rejection_details :: "jsval \<Rightarrow> jsval \<times> jsval" where
  "rejection_details err =
     (let data = opt_prop (opt_prop err (js ''response'')) (js ''data'') in
      (js_or (js_or (opt_prop data (js ''message'')) (opt_prop err (js ''message''))) (VStr API_REQUEST_ERROR),
       js_or (opt_prop (opt_prop data (js ''error'')) (js ''code'')) VUndef))"

text \<open>Reading choices of a missing body throws inside the try block; \<open>engine_text\<close> is the message of
  that TypeError.\<close>

definition finishNonStreaming :: "jstr \<Rightarrow> http_result \<Rightarrow> chat_state \<Rightarrow> chat_state" where
  "finishNonStreaming engine_text result st =
     (let fail = (\<lambda>err. let (msg, code) = rejection_details err in handleStreamError msg code st) in
      case result of
        Rejected err \<Rightarrow> fail err
      | Response body \<Rightarrow>
          if nullish body then fail (VObj [(js ''message'', VStr engine_text)])
          else let choice = opt_first (js_prop body (js ''choices'')) in
               if \<not> truthy choice then st
               else on_message_update (answer_message choice) (emit [WorkshopSuccess] st))"

text \<open>The request that starts, with the body that is sent; without streaming the answer is handled by
  \<open>finishNonStreaming\<close> when it arrives.\<close>

definition sendChat :: "jsobj \<Rightarrow> jsobj \<Rightarrow> bool \<Rightarrow> message list \<Rightarrow> chat_state \<Rightarrow> chat_state \<times> jsobj" where
  "sendChat config parameterEnabled start_throws messages st =
     (let payload = buildChatCompletionPayload messages config parameterEnabled in
      if truthy (obj_get config (js ''stream'')) then (sendStreamRequest start_throws st, payload) else (st, payload))"

subsection \<open>The body carries the enabled parameters\<close>

lemma add_parameter_get:
  "obj_get (add_parameter config pe payload key) k =
     (if k = key \<and> truthy (obj_get pe key) \<and> \<not> nullish (obj_get config key) then obj_get config key else obj_get payload k)"
  by (cases "obj_get config key") (auto simp: add_parameter_def)

lemma add_parameters_get:
  "obj_get (foldl (add_parameter config pe) payload keys) k =
     (if k \<in> set keys \<and> truthy (obj_get pe k) \<and> \<not> nullish (obj_get config k) then obj_get config k else obj_get payload k)"
  by (induction keys arbitrary: payload) (auto simp: add_parameter_get)

text \<open>The request carries the messages that are not empty answers, in order, and a sampling
  parameter exactly when it is switched on and has a value.\<close>

theorem payload_exact:
  "obj_get (buildChatCompletionPayload messages config pe) (js ''messages'') =
     VArr (map api_message_val (map formatMessageForAPI
       (filter (\<lambda>m. m_versions m \<noteq> [] \<and> \<not> (m_from m = Assistant \<and> trim (v_content (hd (m_versions m))) = [])) messages))) \<and>
   map (obj_get (buildChatCompletionPayload messages config pe)) parameter_keys =
     map (\<lambda>k. if truthy (obj_get pe k) \<and> \<not> nullish (obj_get config k) then obj_get config k else VUndef) parameter_keys \<and>
   map (obj_get (buildChatCompletionPayload messages config pe)) [js ''model'', js ''group'', js ''stream''] =
     map (obj_get config) [js ''model'', js ''group'', js ''stream'']"
proof -
  have v: "isValidMessage = (\<lambda>m. m_versions m \<noteq> [] \<and> \<not> (m_from m = Assistant \<and> trim (v_content (hd (m_versions m))) = []))"
    by (auto simp: isValidMessage_def fun_eq_iff split: list.splits)
  let ?p = "[(js ''model'', obj_get config (js ''model'')), (js ''group'', obj_get config (js ''group'')),
     (js ''messages'', VArr (map api_message_val (map formatMessageForAPI (filter isValidMessage messages)))),
     (js ''stream'', obj_get config (js ''stream''))]"
  have b: "buildChatCompletionPayload messages config pe = foldl (add_parameter config pe) ?p parameter_keys"
    by (simp add: buildChatCompletionPayload_def Let_def)
  have g: "obj_get ?p k = (if k = js ''model'' \<or> k = js ''group'' \<or> k = js ''stream'' then obj_get config k
      else if k = js ''messages'' then VArr (map api_message_val (map formatMessageForAPI (filter isValidMessage messages)))
      else VUndef)" for k
    by (auto simp: obj_get_def)
  show ?thesis
    unfolding b add_parameters_get g v [symmetric] by (simp add: parameter_keys_def)
qed

subsection \<open>Errors\<close>

definition failures :: "chat_state \<Rightarrow> nat" where
  "failures st = length (filter (\<lambda>e. e = WorkshopFailure) (c_effects st))"

lemma update_state [simp]:
  "c_source_open (on_message_update f st) = c_source_open st" "c_complete (on_message_update f st) = c_complete st"
  "c_effects (on_message_update f st) = c_effects st"
  "c_messages (on_message_update f st) = updateLastAssistantMessage (c_messages st) f"
  by (simp_all add: on_message_update_def)

lemma updates_fold:
  "c_complete (foldl (\<lambda>s (kind, chunk). handleStreamUpdate kind chunk s) st us) = c_complete st"
  "c_effects (foldl (\<lambda>s (kind, chunk). handleStreamUpdate kind chunk s) st us) = c_effects st"
  by (induction us arbitrary: st) (auto simp: handleStreamUpdate_def)

lemma handleError_complete: "c_complete st \<Longrightarrow> handleError e c st = st"
  by (simp add: handleError_def)

lemma step_complete:
  assumes "c_complete st"
  shows "c_complete (stream_step st ev) \<and> failures (stream_step st ev) = failures st"
  using assms
  by (cases ev)
    (auto simp: stream_step_def on_sse_message_def on_sse_error_def on_sse_ready_state_def handleError_complete
      updates_fold failures_def handleStreamComplete_def emit_def close_source_def
      split: option.splits prod.splits)


definition idle_chat :: chat_state where
  "idle_chat = \<lparr> c_messages = [createLoadingAssistantMessage [] []], c_source_open = False, c_complete = False, c_effects = [] \<rparr>"


text \<open>An answer that failed keeps its error: later chunks, the end of the stream and stopping do
  not change any message.\<close>

theorem failed_answer_is_final:
  assumes "m_status (last (c_messages st)) = Some Failed"
  shows "c_messages (handleStreamUpdate kind chunk st) = c_messages st \<and>
    c_messages (handleStreamComplete st) = c_messages st \<and>
    c_messages (stopGeneration st) = c_messages st"
proof (cases "c_messages st" rule: rev_cases)
  case Nil
  then show ?thesis by (simp add: handleStreamUpdate_def handleStreamComplete_def stopGeneration_def stopStream_def emit_def)
next
  case (snoc ms m)
  then show ?thesis using assms
    by (simp add: handleStreamUpdate_def handleStreamComplete_def stopGeneration_def stopStream_def emit_def
        update_last_append apply_chunk_def complete_message_def stop_message_def)
qed

theorem failed_answer_is_final_witness:
  "c_messages (stopGeneration (handleStreamError (VStr (js ''x'')) VUndef idle_chat)) =
   c_messages (handleStreamError (VStr (js ''x'')) VUndef idle_chat)"
  by (rule failed_answer_is_final [THEN conjunct2, THEN conjunct2])
    (simp add: handleStreamError_def updateAssistantMessageWithError_def updateLastAssistantMessage_def
      idle_chat_def emit_def createLoadingAssistantMessage_def blank_message_def)

text \<open>A failed request whose source reports its error and then its closing with another status
  than 200 is counted as two failures, and the error code of the first report is lost.\<close>

theorem error_then_close_counts_twice:
  assumes "\<not> c_complete st" "c_messages st = ms @ [m]" "m_from m = Assistant"
    "\<not> num_eq r (Fin 2)" "\<not> num_eq s (Fin 200)"
  shows "failures (foldl stream_step st [SseError data r, SseReadyState (Some (Fin 2)) (Some s)]) = failures st + 2 \<and>
    m_errorCode (last (c_messages (foldl stream_step st [SseError data r, SseReadyState (Some (Fin 2)) (Some s)]))) = VNull"
proof -
  obtain msg code where d: "error_details data = (msg, code)" by (cases "error_details data")
  let ?s1 = "close_source (handleStreamError msg code st)"
  have step1: "stream_step st (SseError data r) = ?s1"
    using assms by (simp add: stream_step_def on_sse_error_def d handleError_def)
  have open1: "\<not> c_complete ?s1" "failures ?s1 = failures st + 1"
    using assms(1) by (simp_all add: close_source_def handleStreamError_def emit_def failures_def Let_def)
  obtain m1 where m1: "c_messages ?s1 = ms @ [m1]" "m_from m1 = Assistant"
    using assms(2,3)
    by (simp add: close_source_def handleStreamError_def emit_def Let_def updateAssistantMessageWithError_def
        update_last_append updateCurrentVersionContent_def)
  let ?msg2 = "VStr (js ''HTTP '' @ num_str s @ js '': '' @ CONNECTION_CLOSED)"
  have "stream_step ?s1 (SseReadyState (Some (Fin 2)) (Some s)) = close_source (handleStreamError ?msg2 VUndef ?s1)"
    using assms(5) open1(1) by (simp add: stream_step_def on_sse_ready_state_def handleError_def)
  moreover have "failures (close_source (handleStreamError ?msg2 VUndef ?s1)) = failures st + 2"
    using open1(2) by (simp add: close_source_def handleStreamError_def emit_def failures_def Let_def)
  moreover have "m_errorCode (last (c_messages (close_source (handleStreamError ?msg2 VUndef ?s1)))) = VNull"
    using m1
    by (simp add: close_source_def handleStreamError_def emit_def Let_def updateAssistantMessageWithError_def
        update_last_append js_or_def)
  ultimately show ?thesis by (simp add: step1)
qed

theorem error_then_close_counts_twice_witness:
  "failures (foldl stream_step idle_chat [SseError (VStr (js ''x'')) (Fin 1), SseReadyState (Some (Fin 2)) (Some (Fin 429))]) = 2"
proof -
  have "c_messages idle_chat = [] @ [createLoadingAssistantMessage [] []]" by (simp add: idle_chat_def)
  from error_then_close_counts_twice [OF _ this, of "Fin 1" "Fin 429" "VStr (js ''x'')"]
  show ?thesis by (simp add: idle_chat_def failures_def createLoadingAssistantMessage_def blank_message_def)
qed

subsection \<open>A stream from its start to its end\<close>

definition chunk_data :: "jstr \<Rightarrow> jstr" where
  "chunk_data c = stringify (VObj [(js ''choices'', VArr [VObj [(js ''delta'', VObj [(js ''content'', VStr c)])]])])"

lemma chunk_keys_plain: "plain_key (js ''choices'')" "plain_key (js ''delta'')" "plain_key (js ''content'')"
  by code_simp+

lemma chunk_updates_data: "units c \<Longrightarrow> c \<noteq> [] \<Longrightarrow> chunk_updates (chunk_data c) = Some [(ContentChunk, VStr c)]"
proof -
  assume c: "units c" "c \<noteq> []"
  have "json_ok (VObj [(js ''content'', VStr c)])" using c(1) chunk_keys_plain(3) by (intro json_ok_plain) auto
  then have "json_ok (VObj [(js ''delta'', VObj [(js ''content'', VStr c)])])"
    using chunk_keys_plain(2) by (intro json_ok_plain) (auto simp del: json_ok.simps(7))
  then have "json_ok (VArr [VObj [(js ''delta'', VObj [(js ''content'', VStr c)])]])" by (simp del: json_ok.simps(7))
  then have "json_ok (VObj [(js ''choices'', VArr [VObj [(js ''delta'', VObj [(js ''content'', VStr c)])]])])"
    using chunk_keys_plain(1) by (intro json_ok_plain) (auto simp del: json_ok.simps(6,7))
  then show ?thesis
    using c(2) by (simp add: chunk_updates_def chunk_data_def json_parse_stringify opt_prop_def opt_first_def
        first_element_def obj_get_def del: json_ok.simps stringify.simps)
qed

lemma chunk_data_not_done: "chunk_data c \<noteq> js ''[DONE]''"
  by (simp add: chunk_data_def js_def)

lemma step_chunk: "units c \<Longrightarrow> c \<noteq> [] \<Longrightarrow>
    stream_step st (SseMessage (chunk_data c)) = handleStreamUpdate ContentChunk (VStr c) st"
  by (simp add: stream_step_def on_sse_message_def chunk_updates_data chunk_data_not_done)

lemma process_status: "processStreamingContent (m \<lparr> m_status := x \<rparr>) c = (processStreamingContent m c) \<lparr> m_status := x \<rparr>"
  by (simp add: processStreamingContent_def Let_def getCurrentVersion_def updateCurrentVersionContent_def)

lemma finalize_status: "finalizeMessage (m \<lparr> m_status := x \<rparr>) a = (finalizeMessage m a) \<lparr> m_status := x \<rparr>"
  by (simp add: finalizeMessage_def Let_def getCurrentVersion_def updateCurrentVersionContent_def
      reasoning_content_def reasoning_duration_def)

lemma stream_chunks:
  assumes "list_all (\<lambda>c. c \<noteq> [] \<and> units c) cs" "c_messages st = ms @ [m]" "m_from m = Assistant"
    "m_status m \<noteq> Some Failed"
  shows "foldl stream_step st (map (SseMessage \<circ> chunk_data) cs) =
    st \<lparr> c_messages := ms @ [(foldl processStreamingContent m cs)
      \<lparr> m_status := if cs = [] then m_status m else Some Streaming \<rparr>] \<rparr>"
  using assms
proof (induction cs arbitrary: st m)
  case (Cons c cs)
  let ?m = "(processStreamingContent m c) \<lparr> m_status := Some Streaming \<rparr>"
  let ?st = "stream_step st (SseMessage (chunk_data c))"
  have st: "?st = st \<lparr> c_messages := ms @ [?m] \<rparr>"
    using Cons.prems by (simp add: step_chunk handleStreamUpdate_def on_message_update_def update_last_append apply_chunk_def)
  have fold_status: "foldl processStreamingContent (n \<lparr> m_status := x \<rparr>) ds =
      (foldl processStreamingContent n ds) \<lparr> m_status := x \<rparr>" for n x ds
    by (induction ds arbitrary: n) (simp_all add: process_status)
  have "foldl stream_step ?st (map (SseMessage \<circ> chunk_data) cs) =
      ?st \<lparr> c_messages := ms @ [(foldl processStreamingContent ?m cs)
        \<lparr> m_status := if cs = [] then m_status ?m else Some Streaming \<rparr>] \<rparr>"
    using Cons.prems st by (intro Cons.IH) simp_all
  then show ?case by (simp add: st fold_status comp_def)
qed simp

text \<open>C3. A stream that delivers its text in content chunks and then its end turns the loading answer,
  and no other message, into a complete one whose visible content is that of the whole text; one
  success is counted, no error is reported, and nothing is streaming any more.\<close>

theorem stream_delivers:
  assumes "list_all (\<lambda>c. c \<noteq> [] \<and> units c) cs" "c_messages st = ms @ [m]" "m_from m = Assistant"
    "m_status m = Some Loading"
  shows "(let st' = foldl stream_step (sendStreamRequest False st)
      (map (SseMessage \<circ> chunk_data) cs @ [SseMessage (js ''[DONE]'')]) in
     c_messages st' = ms @ [(finalizeMessage (foldl processStreamingContent m cs) []) \<lparr> m_status := Some Complete \<rparr>] \<and>
     v_content (getCurrentVersion (last (c_messages st'))) =
       visibleContent (parseThinkTags (v_content (getCurrentVersion m) @ concat cs)) \<and>
     c_effects st' = c_effects st @ [WorkshopSuccess] \<and> \<not> isStreaming st')"
proof -
  let ?s0 = "sendStreamRequest False st"
  let ?s1 = "foldl stream_step ?s0 (map (SseMessage \<circ> chunk_data) cs)"
  let ?m1 = "(foldl processStreamingContent m cs) \<lparr> m_status := if cs = [] then m_status m else Some Streaming \<rparr>"
  have s0: "c_messages ?s0 = ms @ [m]" "c_effects ?s0 = c_effects st"
    using assms(2) by (simp_all add: sendStreamRequest_def)
  have s1: "?s1 = ?s0 \<lparr> c_messages := ms @ [?m1] \<rparr>"
    using stream_chunks [OF assms(1) s0(1) assms(3)] assms(4) by simp
  have from1: "m_from (foldl processStreamingContent m cs) = Assistant"
    using assms(3) by (induction cs arbitrary: m) simp_all
  have fin: "complete_message ?m1 = (finalizeMessage (foldl processStreamingContent m cs) []) \<lparr> m_status := Some Complete \<rparr>"
    using assms(4) by (simp add: complete_message_def finalize_status)
  have finish: "stream_step ?s1 (SseMessage (js ''[DONE]'')) =
      ?s1 \<lparr> c_complete := True, c_source_open := False, c_effects := c_effects ?s1 @ [WorkshopSuccess],
        c_messages := ms @ [complete_message ?m1] \<rparr>"
    using from1 by (simp add: stream_step_def on_sse_message_def handleStreamComplete_def close_source_def emit_def
        on_message_update_def s1 update_last_append)
  have vis: "v_content (getCurrentVersion ((finalizeMessage x []) \<lparr> m_status := y \<rparr>)) =
      visibleContent (parseThinkTags (v_content (getCurrentVersion x)))" for x y
    using finalize_fields(3) [of x "[]"] by (simp add: getCurrentVersion_def)
  show ?thesis
    unfolding Let_def foldl_append foldl.simps finish
    by (simp add: fin s1 s0 isStreaming_def vis process_content)
qed

theorem stream_delivers_witness:
  "v_content (getCurrentVersion (last (c_messages (foldl stream_step (sendStreamRequest False idle_chat)
     (map (SseMessage \<circ> chunk_data) [js ''<think>x'', js ''</think> Hel'', js ''lo''] @ [SseMessage (js ''[DONE]'')]))))) = js ''Hello''"
proof -
  have p: "visibleContent (parseThinkTags (v_content (getCurrentVersion (createLoadingAssistantMessage [] [])) @
      concat [js ''<think>x'', js ''</think> Hel'', js ''lo''])) = js ''Hello''" by code_simp
  have "list_all (\<lambda>c. c \<noteq> [] \<and> units c) [js ''<think>x'', js ''</think> Hel'', js ''lo'']" by code_simp
  note r = stream_delivers [OF this, of idle_chat "[]" "createLoadingAssistantMessage [] []", unfolded Let_def p]
  show ?thesis
    by (rule r [THEN conjunct2, THEN conjunct1])
      (simp_all add: idle_chat_def createLoadingAssistantMessage_def blank_message_def)
qed

end
