(* ===== verification/ChatStorage.thy ===== *)
theory ChatStorage
  imports ChatMessage
begin

text \<open>
  What the playground keeps in the browser: lib/storage.ts of
  web/default/src/features/playground and the initial state of hooks/use-playground-state.ts.
  The local storage is a map from keys to texts; whether the browser accepts a write is a
  parameter, since a full storage makes setItem throw. Two locales state the interfaces: a
  storage of texts, and a pair of printer and parser; what was saved is read back by any client
  of the two.
\<close>

section \<open>The interfaces\<close>

locale text_store =
  fixes get :: "'s \<Rightarrow> jstr \<Rightarrow> jstr option"
    and put :: "jstr \<Rightarrow> jstr \<Rightarrow> 's \<Rightarrow> 's"
    and del :: "jstr \<Rightarrow> 's \<Rightarrow> 's"
  assumes get_put: "get (put k t s) k' = (if k' = k then Some t else get s k')"
    and get_del: "get (del k s) k' = (if k' = k then None else get s k')"
begin

lemma put_other: "k' \<noteq> k \<Longrightarrow> get (put k t s) k' = get s k'"
  by (simp add: get_put)

lemma put_twice: "get (put k t (put k u s)) = get (put k t s)"
  by (auto simp: get_put fun_eq_iff)

end

locale text_codec =
  fixes print :: "'a \<Rightarrow> jstr"
    and parse :: "jstr \<Rightarrow> 'a option"
    and printable :: "'a \<Rightarrow> bool"
  assumes parse_print: "printable a \<Longrightarrow> parse (print a) = Some a"
    and print_nonempty: "printable a \<Longrightarrow> print a \<noteq> []"

locale saved_value = text_store + text_codec
begin

lemma load_saved:
  assumes "printable a"
  shows "Option.bind (get (put k (print a) s) k) parse = Some a"
  using assms by (simp add: get_put parse_print)

lemma load_unsaved:
  assumes "k' \<noteq> k"
  shows "Option.bind (get (put k (print a) s) k') parse = Option.bind (get s k') parse"
  using assms by (simp add: get_put)

end

section \<open>The local storage\<close>

type_synonym local_storage = "jstr \<Rightarrow> jstr option"

definition getItem :: "local_storage \<Rightarrow> jstr \<Rightarrow> jstr option" where
  "getItem st k = st k"

definition putItem :: "jstr \<Rightarrow> jstr \<Rightarrow> local_storage \<Rightarrow> local_storage" where
  "putItem k t st = st(k := Some t)"

definition removeItem :: "jstr \<Rightarrow> local_storage \<Rightarrow> local_storage" where
  "removeItem k st = st(k := None)"

text \<open>None when the browser refuses the write.\<close>

definition setItem :: "(jstr \<Rightarrow> jstr \<Rightarrow> bool) \<Rightarrow> jstr \<Rightarrow> jstr \<Rightarrow> local_storage \<Rightarrow> local_storage option" where
  "setItem accepts k t st = (if accepts k t then Some (putItem k t st) else None)"

lemma stringify_nonempty: "json_ok v \<Longrightarrow> stringify v \<noteq> []"
  using stringify_hd [of v] by auto

interpretation storage: text_store getItem putItem removeItem
  by unfold_locales (simp_all add: getItem_def putItem_def removeItem_def)

interpretation json: text_codec stringify json_parse json_ok
  by unfold_locales (simp_all add: json_parse_stringify stringify_nonempty)

interpretation json_storage: saved_value getItem putItem removeItem stringify json_parse json_ok
  by unfold_locales

definition KEY_CONFIG :: jstr where "KEY_CONFIG = js ''playground_config''"
definition KEY_MESSAGES :: jstr where "KEY_MESSAGES = js ''playground_messages''"
definition KEY_PARAMETER_ENABLED :: jstr where "KEY_PARAMETER_ENABLED = js ''playground_parameter_enabled''"

lemma keys_distinct [simp]:
  "KEY_CONFIG \<noteq> KEY_MESSAGES" "KEY_CONFIG \<noteq> KEY_PARAMETER_ENABLED" "KEY_MESSAGES \<noteq> KEY_PARAMETER_ENABLED"
  "KEY_MESSAGES \<noteq> KEY_CONFIG" "KEY_PARAMETER_ENABLED \<noteq> KEY_CONFIG" "KEY_PARAMETER_ENABLED \<noteq> KEY_MESSAGES"
  by (simp_all add: KEY_CONFIG_def KEY_MESSAGES_def KEY_PARAMETER_ENABLED_def)

section \<open>Configuration\<close>

text \<open>A missing, empty or unreadable text loads as an empty object; other JSON is taken as it is.\<close>

definition load_value :: "jstr \<Rightarrow> local_storage \<Rightarrow> jsval" where
  "load_value key st =
     (case getItem st key of
        Some saved \<Rightarrow> if saved \<noteq> [] then (case json_parse saved of Some v \<Rightarrow> v | None \<Rightarrow> VObj []) else VObj []
      | None \<Rightarrow> VObj [])"

text \<open>A refused write is logged and otherwise ignored.\<close>

definition save_value :: "(jstr \<Rightarrow> jstr \<Rightarrow> bool) \<Rightarrow> jstr \<Rightarrow> jsval \<Rightarrow> local_storage \<Rightarrow> local_storage" where
  "save_value accepts key v st = (case setItem accepts key (stringify v) st of Some st' \<Rightarrow> st' | None \<Rightarrow> st)"

definition loadConfig :: "local_storage \<Rightarrow> jsval" where
  "loadConfig st = load_value KEY_CONFIG st"

definition saveConfig :: "(jstr \<Rightarrow> jstr \<Rightarrow> bool) \<Rightarrow> jsobj \<Rightarrow> local_storage \<Rightarrow> local_storage" where
  "saveConfig accepts config st = save_value accepts KEY_CONFIG (VObj config) st"

definition loadParameterEnabled :: "local_storage \<Rightarrow> jsval" where
  "loadParameterEnabled st = load_value KEY_PARAMETER_ENABLED st"

definition saveParameterEnabled :: "(jstr \<Rightarrow> jstr \<Rightarrow> bool) \<Rightarrow> jsobj \<Rightarrow> local_storage \<Rightarrow> local_storage" where
  "saveParameterEnabled accepts pe st = save_value accepts KEY_PARAMETER_ENABLED (VObj pe) st"

definition clearPlaygroundData :: "local_storage \<Rightarrow> local_storage" where
  "clearPlaygroundData st = removeItem KEY_MESSAGES (removeItem KEY_PARAMETER_ENABLED (removeItem KEY_CONFIG st))"

definition DEFAULT_CONFIG :: jsobj where
  "DEFAULT_CONFIG =
     [(js ''model'', VStr (js ''gpt-4o'')), (js ''group'', VStr (js ''auto'')),
      (js ''temperature'', VNum (rnd (7 / 10))), (js ''top_p'', VNum (Fin 1)),
      (js ''max_tokens'', VNum (Fin 4096)), (js ''frequency_penalty'', VNum (Fin 0)),
      (js ''presence_penalty'', VNum (Fin 0)), (js ''seed'', VNull), (js ''stream'', VBool True)]"

definition DEFAULT_PARAMETER_ENABLED :: jsobj where
  "DEFAULT_PARAMETER_ENABLED =
     [(js ''temperature'', VBool True), (js ''top_p'', VBool True), (js ''max_tokens'', VBool False),
      (js ''frequency_penalty'', VBool True), (js ''presence_penalty'', VBool True), (js ''seed'', VBool False)]"

text \<open>Spreading the loaded value over the defaults.\<close>

definition spread :: "jsobj \<Rightarrow> jsval \<Rightarrow> jsobj" where
  "spread base v = foldl (\<lambda>ob (k, x). obj_set k x ob) base (entries_of v)"

record playground =
  pg_config :: jsobj
  pg_parameterEnabled :: jsobj
  pg_messages :: "message list"

definition initial_config :: "local_storage \<Rightarrow> jsobj" where
  "initial_config st = spread DEFAULT_CONFIG (loadConfig st)"

definition initial_parameters :: "local_storage \<Rightarrow> jsobj" where
  "initial_parameters st = spread DEFAULT_PARAMETER_ENABLED (loadParameterEnabled st)"

text \<open>Each update changes the state and saves the new value.\<close>

definition updateConfig ::
  "(jstr \<Rightarrow> jstr \<Rightarrow> bool) \<Rightarrow> jstr \<Rightarrow> jsval \<Rightarrow> playground \<times> local_storage \<Rightarrow> playground \<times> local_storage" where
  "updateConfig accepts key v = (\<lambda>(pg, st).
     let updated = obj_set key v (pg_config pg) in
     (pg \<lparr> pg_config := updated \<rparr>, saveConfig accepts updated st))"

definition updateParameterEnabled ::
  "(jstr \<Rightarrow> jstr \<Rightarrow> bool) \<Rightarrow> jstr \<Rightarrow> bool \<Rightarrow> playground \<times> local_storage \<Rightarrow> playground \<times> local_storage" where
  "updateParameterEnabled accepts key v = (\<lambda>(pg, st).
     let updated = obj_set key (VBool v) (pg_parameterEnabled pg) in
     (pg \<lparr> pg_parameterEnabled := updated \<rparr>, saveParameterEnabled accepts updated st))"

definition resetConfig ::
  "(jstr \<Rightarrow> jstr \<Rightarrow> bool) \<Rightarrow> playground \<times> local_storage \<Rightarrow> playground \<times> local_storage" where
  "resetConfig accepts = (\<lambda>(pg, st).
     (pg \<lparr> pg_config := DEFAULT_CONFIG, pg_parameterEnabled := DEFAULT_PARAMETER_ENABLED \<rparr>,
      saveParameterEnabled accepts DEFAULT_PARAMETER_ENABLED (saveConfig accepts DEFAULT_CONFIG st)))"

section \<open>Messages\<close>

text \<open>A message as the JSON value that is stored; missing fields are left out.\<close>

definition present :: "(jstr \<times> jsval option) list \<Rightarrow> jsobj" where
  "present kvs = List.map_filter (\<lambda>(k, v). map_option (Pair k) v) kvs"

definition role_name :: "role \<Rightarrow> jstr" where
  "role_name r = (case r of User \<Rightarrow> js ''user'' | Assistant \<Rightarrow> js ''assistant'' | System \<Rightarrow> js ''system'')"

definition status_name :: "message_status \<Rightarrow> jstr" where
  "status_name s = (case s of Loading \<Rightarrow> js ''loading'' | Streaming \<Rightarrow> js ''streaming''
     | Complete \<Rightarrow> js ''complete'' | Failed \<Rightarrow> js ''error'')"

definition encode_version :: "message_version \<Rightarrow> jsval" where
  "encode_version v = VObj [(js ''id'', VStr (v_id v)), (js ''content'', VStr (v_content v))]"

definition encode_source :: "source \<Rightarrow> jsval" where
  "encode_source s = VObj [(js ''href'', VStr (s_href s)), (js ''title'', VStr (s_title s))]"

definition encode_reasoning :: "reasoning \<Rightarrow> jsval" where
  "encode_reasoning r = VObj [(js ''content'', VStr (r_content r)), (js ''duration'', VNum (r_duration r))]"

definition message_fields :: "message \<Rightarrow> (jstr \<times> jsval option) list" where
  "message_fields m =
     [(js ''key'', Some (VStr (m_key m))), (js ''from'', Some (VStr (role_name (m_from m)))),
      (js ''versions'', Some (VArr (map encode_version (m_versions m)))),
      (js ''sources'', map_option (\<lambda>ss. VArr (map encode_source ss)) (m_sources m)),
      (js ''reasoning'', map_option encode_reasoning (m_reasoning m)),
      (js ''isReasoningStreaming'', map_option VBool (m_isReasoningStreaming m)),
      (js ''isReasoningComplete'', map_option VBool (m_isReasoningComplete m)),
      (js ''isContentComplete'', map_option VBool (m_isContentComplete m)),
      (js ''status'', map_option (\<lambda>s. VStr (status_name s)) (m_status m)),
      (js ''errorCode'', if m_errorCode m = VUndef then None else Some (m_errorCode m))]"

definition encode_message :: "message \<Rightarrow> jsval" where
  "encode_message m = VObj (present (message_fields m))"

text \<open>The cast of parsed JSON to messages: None when a field has another shape than its type says.\<close>

definition dec_str :: "jsval \<Rightarrow> jstr option" where
  "dec_str v = (case v of VStr s \<Rightarrow> Some s | _ \<Rightarrow> None)"

definition dec_bool :: "jsval \<Rightarrow> bool option" where
  "dec_bool v = (case v of VBool b \<Rightarrow> Some b | _ \<Rightarrow> None)"

definition dec_num :: "jsval \<Rightarrow> jsnum option" where
  "dec_num v = (case v of VNum x \<Rightarrow> Some x | _ \<Rightarrow> None)"

definition dec_opt :: "(jsval \<Rightarrow> 'a option) \<Rightarrow> jsval \<Rightarrow> 'a option option" where
  "dec_opt f v = (if v = VUndef then Some None else map_option Some (f v))"

definition dec_list :: "(jsval \<Rightarrow> 'a option) \<Rightarrow> jsval \<Rightarrow> 'a list option" where
  "dec_list f v = (case v of VArr vs \<Rightarrow> those (map f vs) | _ \<Rightarrow> None)"

definition dec_role :: "jsval \<Rightarrow> role option" where
  "dec_role v = map_of [(VStr (js ''user''), User), (VStr (js ''assistant''), Assistant), (VStr (js ''system''), System)] v"

definition dec_status :: "jsval \<Rightarrow> message_status option" where
  "dec_status v = map_of [(VStr (js ''loading''), Loading), (VStr (js ''streaming''), Streaming),
     (VStr (js ''complete''), Complete), (VStr (js ''error''), Failed)] v"

definition dec_version :: "jsval \<Rightarrow> message_version option" where
  "dec_version v =
     Option.bind (dec_str (js_prop v (js ''id''))) (\<lambda>i.
     Option.bind (dec_str (js_prop v (js ''content''))) (\<lambda>c. Some \<lparr> v_id = i, v_content = c \<rparr>))"

definition dec_source :: "jsval \<Rightarrow> source option" where
  "dec_source v =
     Option.bind (dec_str (js_prop v (js ''href''))) (\<lambda>h.
     Option.bind (dec_str (js_prop v (js ''title''))) (\<lambda>t. Some \<lparr> s_href = h, s_title = t \<rparr>))"

definition dec_reasoning :: "jsval \<Rightarrow> reasoning option" where
  "dec_reasoning v =
     Option.bind (dec_str (js_prop v (js ''content''))) (\<lambda>c.
     Option.bind (dec_num (js_prop v (js ''duration''))) (\<lambda>d. Some \<lparr> r_content = c, r_duration = d \<rparr>))"

definition decode_message :: "jsval \<Rightarrow> message option" where
  "decode_message v =
     (let p = js_prop v in
      Option.bind (dec_str (p (js ''key''))) (\<lambda>key.
      Option.bind (dec_role (p (js ''from''))) (\<lambda>sender.
      Option.bind (dec_list dec_version (p (js ''versions''))) (\<lambda>versions.
      Option.bind (dec_opt (dec_list dec_source) (p (js ''sources''))) (\<lambda>sources.
      Option.bind (dec_opt dec_reasoning (p (js ''reasoning''))) (\<lambda>thoughts.
      Option.bind (dec_opt dec_bool (p (js ''isReasoningStreaming''))) (\<lambda>rs.
      Option.bind (dec_opt dec_bool (p (js ''isReasoningComplete''))) (\<lambda>rc.
      Option.bind (dec_opt dec_bool (p (js ''isContentComplete''))) (\<lambda>cc.
      Option.bind (dec_opt dec_status (p (js ''status''))) (\<lambda>status.
        Some \<lparr> m_key = key, m_from = sender, m_versions = versions, m_sources = sources,
          m_reasoning = thoughts, m_isReasoningStreaming = rs, m_isReasoningComplete = rc,
          m_isContentComplete = cc, m_status = status, m_errorCode = p (js ''errorCode'') \<rparr>))))))))))"

text \<open>Nothing stored (or nothing readable), messages, or an array that does not hold messages, of which
  the development says nothing.\<close>

datatype load_result = LoadNull | LoadMessages "message list" | LoadUntyped

definition saveMessages :: "(jstr \<Rightarrow> jstr \<Rightarrow> bool) \<Rightarrow> message list \<Rightarrow> local_storage \<Rightarrow> local_storage" where
  "saveMessages accepts messages st = save_value accepts KEY_MESSAGES (VArr (map encode_message messages)) st"

definition loadMessages :: "(jstr \<Rightarrow> jstr \<Rightarrow> bool) \<Rightarrow> local_storage \<Rightarrow> local_storage \<times> load_result" where
  "loadMessages accepts st =
     (case getItem st KEY_MESSAGES of
        None \<Rightarrow> (st, LoadNull)
      | Some saved \<Rightarrow>
          if saved = [] then (st, LoadNull)
          else case json_parse saved of
            None \<Rightarrow> (st, LoadNull)
          | Some parsed \<Rightarrow>
              if \<not> is_array parsed then (removeItem KEY_MESSAGES st, LoadNull)
              else case dec_list decode_message parsed of
                None \<Rightarrow> (st, LoadUntyped)
              | Some messages \<Rightarrow>
                  (let sanitized = sanitizeMessagesOnLoad messages in
                   (if find_last stuck messages \<noteq> None then saveMessages accepts sanitized st else st,
                    LoadMessages sanitized)))"

definition updateMessages ::
  "(jstr \<Rightarrow> jstr \<Rightarrow> bool) \<Rightarrow> (message list \<Rightarrow> message list) \<Rightarrow> playground \<times> local_storage \<Rightarrow> playground \<times> local_storage" where
  "updateMessages accepts updater = (\<lambda>(pg, st).
     let newMessages = updater (pg_messages pg) in
     (pg \<lparr> pg_messages := newMessages \<rparr>, saveMessages accepts newMessages st))"

definition clearMessages ::
  "(jstr \<Rightarrow> jstr \<Rightarrow> bool) \<Rightarrow> playground \<times> local_storage \<Rightarrow> playground \<times> local_storage" where
  "clearMessages accepts = updateMessages accepts (\<lambda>_. [])"

section \<open>What was saved is loaded\<close>

lemma get_present: "distinct (map fst kvs) \<Longrightarrow>
    obj_get (present kvs) k = (case map_of kvs k of Some (Some v) \<Rightarrow> v | _ \<Rightarrow> VUndef)"
proof (induction kvs)
  case (Cons kv kvs)
  obtain k' v where kv: "kv = (k', v)" by (cases kv)
  have notin: "k' \<notin> fst ` set kvs" using Cons.prems kv by simp
  have "\<not> obj_has (present kvs) k'"
    using notin by (force simp: obj_has_iff present_def map_filter_def)
  then have "obj_get (present kvs) k' = VUndef" by (simp add: obj_get_def obj_has_def)
  then show ?case using Cons notin
    by (cases v) (auto simp: kv present_def map_filter_simps obj_get_def map_of_eq_None_iff [symmetric] split: option.splits)
qed (simp add: present_def obj_get_def map_filter_simps)

lemma fields_distinct: "distinct (map fst (message_fields m))"
  by (simp add: message_fields_def)

lemma dec_version_encode: "dec_version (encode_version v) = Some v"
  by (simp add: dec_version_def encode_version_def obj_get_def dec_str_def)

lemma dec_source_encode: "dec_source (encode_source v) = Some v"
  by (simp add: dec_source_def encode_source_def obj_get_def dec_str_def)

lemma dec_reasoning_encode: "dec_reasoning (encode_reasoning v) = Some v"
  by (simp add: dec_reasoning_def encode_reasoning_def obj_get_def dec_str_def dec_num_def)

lemma dec_role_name: "dec_role (VStr (role_name r)) = Some r"
  by (cases r) (simp_all add: dec_role_def role_name_def)

lemma dec_status_name: "dec_status (VStr (status_name s)) = Some s"
  by (cases s) (simp_all add: dec_status_def status_name_def)

lemma those_map: "(\<And>x. f (g x) = Some x) \<Longrightarrow> those (map f (map g xs)) = Some xs"
  by (induction xs) auto

lemma dec_list_encode: "(\<And>x. f (g x) = Some x) \<Longrightarrow> dec_list f (VArr (map g xs)) = Some xs"
  using those_map [of f g xs] by (simp add: dec_list_def)

lemma dec_opt_encode:
  assumes "\<And>x. g x \<noteq> VUndef" "\<And>x. f (g x) = Some x"
  shows "dec_opt f (case map_option g v of Some w \<Rightarrow> w | None \<Rightarrow> VUndef) = Some v"
  using assms by (cases v) (simp_all add: dec_opt_def)

lemma decode_encode: "decode_message (encode_message m) = Some m"
proof -
  have g: "js_prop (encode_message m) k = (case map_of (message_fields m) k of Some (Some v) \<Rightarrow> v | _ \<Rightarrow> VUndef)" for k
    using get_present [OF fields_distinct, of m k] by (simp add: encode_message_def)
  have opts:
    "dec_opt (dec_list dec_source) (case m_sources m of None \<Rightarrow> VUndef | Some ss \<Rightarrow> VArr (map encode_source ss)) = Some (m_sources m)"
    "dec_opt dec_reasoning (case m_reasoning m of None \<Rightarrow> VUndef | Some r \<Rightarrow> encode_reasoning r) = Some (m_reasoning m)"
    "dec_opt dec_status (case m_status m of None \<Rightarrow> VUndef | Some s \<Rightarrow> VStr (status_name s)) = Some (m_status m)"
    by (auto simp: dec_opt_def dec_list_encode dec_source_encode dec_reasoning_encode dec_status_name
        encode_reasoning_def split: option.splits)
      (simp_all add: dec_reasoning_encode [unfolded encode_reasoning_def])
  have bools: "dec_opt dec_bool (case b of None \<Rightarrow> VUndef | Some x \<Rightarrow> VBool x) = Some b" for b
    by (cases b) (simp_all add: dec_opt_def dec_bool_def)
  have fields:
    "js_prop (encode_message m) (js ''key'') = VStr (m_key m)"
    "js_prop (encode_message m) (js ''from'') = VStr (role_name (m_from m))"
    "js_prop (encode_message m) (js ''versions'') = VArr (map encode_version (m_versions m))"
    "js_prop (encode_message m) (js ''sources'') = (case m_sources m of None \<Rightarrow> VUndef | Some ss \<Rightarrow> VArr (map encode_source ss))"
    "js_prop (encode_message m) (js ''reasoning'') = (case m_reasoning m of None \<Rightarrow> VUndef | Some r \<Rightarrow> encode_reasoning r)"
    "js_prop (encode_message m) (js ''isReasoningStreaming'') = (case m_isReasoningStreaming m of None \<Rightarrow> VUndef | Some x \<Rightarrow> VBool x)"
    "js_prop (encode_message m) (js ''isReasoningComplete'') = (case m_isReasoningComplete m of None \<Rightarrow> VUndef | Some x \<Rightarrow> VBool x)"
    "js_prop (encode_message m) (js ''isContentComplete'') = (case m_isContentComplete m of None \<Rightarrow> VUndef | Some x \<Rightarrow> VBool x)"
    "js_prop (encode_message m) (js ''status'') = (case m_status m of None \<Rightarrow> VUndef | Some s \<Rightarrow> VStr (status_name s))"
    "js_prop (encode_message m) (js ''errorCode'') = m_errorCode m"
    unfolding g by (simp_all add: message_fields_def split: option.split)
  show ?thesis
    by (simp add: decode_message_def Let_def fields opts bools dec_role_name dec_list_encode dec_version_encode)
      (simp add: dec_str_def)
qed

lemma save_accepted: "accepts k (stringify v) \<Longrightarrow> save_value accepts k v st = putItem k (stringify v) st"
  by (simp add: save_value_def setItem_def)

lemma load_value_saved: "json_ok v \<Longrightarrow> load_value k (putItem k (stringify v) st) = v"
  using json_storage.load_saved [of v k st] json.print_nonempty [of v]
  by (simp add: load_value_def storage.get_put)

lemma putItem_twice: "putItem k t (putItem k u st) = putItem k t st"
  by (simp add: putItem_def)

lemma sanitize_no_stuck: "find_last stuck ms = None \<Longrightarrow> sanitizeMessagesOnLoad ms = ms"
  by (simp add: sanitizeMessagesOnLoad_def)

text \<open>Messages that were saved come back from the storage, the last stuck answer settled, and
  what is stored afterwards is what was loaded.\<close>

theorem messages_survive_reload:
  assumes "\<And>t. accepts KEY_MESSAGES t" "json_ok (VArr (map encode_message ms))"
  shows "loadMessages accepts (saveMessages accepts ms st) =
    (saveMessages accepts (sanitizeMessagesOnLoad ms) st, LoadMessages (sanitizeMessagesOnLoad ms))"
proof -
  let ?t = "stringify (VArr (map encode_message ms))"
  have s: "saveMessages accepts ns st' = putItem KEY_MESSAGES (stringify (VArr (map encode_message ns))) st'" for ns st'
    using assms(1) by (simp add: saveMessages_def save_accepted del: stringify.simps)
  have p: "json_parse ?t = Some (VArr (map encode_message ms))" "?t \<noteq> []"
    using assms(2) json.parse_print json.print_nonempty by blast+
  have d: "dec_list decode_message (VArr (map encode_message ms)) = Some ms"
    by (rule dec_list_encode) (rule decode_encode)
  show ?thesis
    by (cases "find_last stuck ms")
      (simp_all add: loadMessages_def s storage.get_put p d sanitize_no_stuck putItem_twice Let_def del: stringify.simps)
qed

theorem messages_survive_reload_witness:
  "loadMessages (\<lambda>_ _. True) (saveMessages (\<lambda>_ _. True) [createUserMessage (js ''k'') (js ''v'') (js ''hi'')] (\<lambda>_. None)) =
   (saveMessages (\<lambda>_ _. True) (sanitizeMessagesOnLoad [createUserMessage (js ''k'') (js ''v'') (js ''hi'')]) (\<lambda>_. None),
    LoadMessages (sanitizeMessagesOnLoad [createUserMessage (js ''k'') (js ''v'') (js ''hi'')]))"
  by (rule messages_survive_reload) (simp, code_simp)

lemma get_spread:
  "obj_wf ob \<Longrightarrow> obj_get (spread base (VObj ob)) k = (if obj_has ob k then obj_get ob k else obj_get base k)"
proof -
  assume wf: "obj_wf ob"
  have "spread base (VObj ob) = obj.put_all (own_entries ob) base"
    by (simp add: spread_def obj.put_all_def)
  moreover have "map_of (rev (own_entries ob)) = map_of ob"
    using distinct_own_entries [OF wf] map_of_own_entries [OF wf]
      map_of_inject_set [of "rev (own_entries ob)" "own_entries ob"] by (simp add: rev_map [symmetric])
  moreover have "(case map_of ob k of Some v \<Rightarrow> v | None \<Rightarrow> d) = (if obj_has ob k then obj_get ob k else d)" for d
    by (simp add: obj_has_def obj_get_def split: option.split)
  ultimately show ?thesis by (simp add: obj.get_put_all)
qed

text \<open>A changed setting is there after a reload, together with every other setting of the
  session; settings the session did not have get their defaults.\<close>

theorem config_survives_reload:
  assumes "\<And>t. accepts KEY_CONFIG t" "json_ok (VObj (obj_set key v (pg_config pg)))"
  shows "obj_get (initial_config (snd (updateConfig accepts key v (pg, st)))) k =
    (if k = key then v
     else if obj_has (pg_config pg) k then obj_get (pg_config pg) k else obj_get DEFAULT_CONFIG k)"
  using assms
  by (simp add: updateConfig_def Let_def initial_config_def loadConfig_def saveConfig_def save_accepted
      load_value_saved get_spread del: stringify.simps)

theorem config_survives_reload_witness:
  "obj_get (initial_config (snd (updateConfig (\<lambda>_ _. True) (js ''model'') (VStr (js ''gpt-5''))
     (\<lparr> pg_config = [], pg_parameterEnabled = [], pg_messages = [] \<rparr>, \<lambda>_. None)))) (js ''top_p'') = VNum (Fin 1)"
  by (subst config_survives_reload) (simp, code_simp, simp add: DEFAULT_CONFIG_def obj_get_def)

end
