(* ===== verification/NavModules.thy ===== *)
theory NavModules
  imports JsCoerce
begin

text \<open>
  Which pages are shown and which need a login: web/default/src/lib/nav-modules.ts. The modules
  come from the status of the server, a JSON value of any shape, or from its copy in the local
  storage. Entries named like members of Object.prototype are outside the model.
\<close>

record module_access =
  enabled :: bool
  requireAuth :: bool

datatype nav_entry = Flag bool | Access module_access

type_synonym header_modules = "nav_entry named"

definition open_access :: module_access where
  "open_access = \<lparr> enabled = True, requireAuth = False \<rparr>"

definition DEFAULT_HEADER_NAV_MODULES :: header_modules where
  "DEFAULT_HEADER_NAV_MODULES =
     [(js ''home'', Flag True), (js ''console'', Flag True), (js ''pricing'', Access open_access),
      (js ''rankings'', Access open_access), (js ''docs'', Flag True), (js ''about'', Flag True)]"

datatype header_module = Rankings | Pricing

definition module_key :: "header_module \<Rightarrow> jstr" where
  "module_key m = (case m of Rankings \<Rightarrow> js ''rankings'' | Pricing \<Rightarrow> js ''pricing'')"

definition DEFAULTS :: "header_module \<Rightarrow> module_access" where
  "DEFAULTS m = open_access"

definition parseHeaderNavBoolean :: "jsval \<Rightarrow> bool \<Rightarrow> bool" where
  "parseHeaderNavBoolean raw fallback =
     (case raw of
        VBool b \<Rightarrow> b
      | VNum x \<Rightarrow> if num_eq x (Fin 1) then True else if num_eq x (Fin 0) then False else fallback
      | VStr s \<Rightarrow>
          (let normalized = lower (trim s) in
           if normalized = js ''true'' \<or> normalized = js ''1'' then True
           else if normalized = js ''false'' \<or> normalized = js ''0'' then False
           else fallback)
      | _ \<Rightarrow> fallback)"

definition is_scalar :: "jsval \<Rightarrow> bool" where
  "is_scalar v = (case v of VBool _ \<Rightarrow> True | VNum _ \<Rightarrow> True | VStr _ \<Rightarrow> True | _ \<Rightarrow> False)"

definition parseAccess :: "jsval \<Rightarrow> module_access \<Rightarrow> module_access" where
  "parseAccess raw fallback =
     (if is_scalar raw
      then \<lparr> enabled = parseHeaderNavBoolean raw (enabled fallback), requireAuth = requireAuth fallback \<rparr>
      else if truthy raw \<and> is_object_type raw
      then \<lparr> enabled = parseHeaderNavBoolean (js_prop raw (js ''enabled'')) (enabled fallback),
             requireAuth = parseHeaderNavBoolean (js_prop raw (js ''requireAuth'')) (requireAuth fallback) \<rparr>
      else fallback)"

text \<open>What the text or object of the setting holds; JSON that is not an object is passed on.\<close>

definition parseHeaderNavRecord :: "jsval \<Rightarrow> jsval option" where
  "parseHeaderNavRecord raw =
     (if \<not> truthy raw \<or> trim (to_str raw) = [] then None
      else if is_object_type raw then Some raw
      else json_parse (to_str raw))"

definition access_of :: "header_modules \<Rightarrow> jstr \<Rightarrow> module_access" where
  "access_of r k = (case named_get r k of Some (Access a) \<Rightarrow> a | _ \<Rightarrow> open_access)"

definition flag_fallback :: "nav_entry option \<Rightarrow> bool" where
  "flag_fallback e = (case e of Some (Flag b) \<Rightarrow> b | _ \<Rightarrow> True)"

definition is_flag :: "nav_entry option \<Rightarrow> bool" where
  "is_flag e = (case e of Some (Flag _) \<Rightarrow> True | _ \<Rightarrow> False)"

definition header_step :: "header_modules \<Rightarrow> jstr \<times> jsval \<Rightarrow> header_modules" where
  "header_step result = (\<lambda>(key, v).
     if key = js ''pricing'' then named_put key (Access (parseAccess v (access_of result key))) result
     else if key = js ''rankings'' then named_put key (Access (parseAccess v (access_of result key))) result
     else let fallback = named_get result key in
          if is_flag fallback \<or> is_scalar v
          then named_put key (Flag (parseHeaderNavBoolean v (flag_fallback fallback))) result
          else result)"

definition parseHeaderNavModules :: "jsval \<Rightarrow> header_modules" where
  "parseHeaderNavModules raw =
     (let result = DEFAULT_HEADER_NAV_MODULES in
      case parseHeaderNavRecord raw of
        None \<Rightarrow> result
      | Some parsed \<Rightarrow> if \<not> truthy parsed then result else foldl header_step result (entries_of parsed))"

definition parseHeaderNavModulesFromStatus :: "jsval \<Rightarrow> header_modules" where
  "parseHeaderNavModulesFromStatus status = parseHeaderNavModules (opt_prop status (js ''HeaderNavModules''))"

text \<open>The local storage as a map; a window that is missing has none.\<close>

type_synonym browser = "(jstr \<Rightarrow> jstr option) option"

definition getCachedStatus :: "browser \<Rightarrow> jsval" where
  "getCachedStatus b =
     (case b of
        None \<Rightarrow> VNull
      | Some store \<Rightarrow>
          (case store (js ''status'') of
             None \<Rightarrow> VNull
           | Some raw \<Rightarrow> if raw \<noteq> [] then (case json_parse raw of Some v \<Rightarrow> v | None \<Rightarrow> VNull) else VNull))"

text \<open>A write may be refused, which changes nothing.\<close>

definition cacheStatus :: "(jstr \<Rightarrow> bool) \<Rightarrow> jsval \<Rightarrow> browser \<Rightarrow> browser" where
  "cacheStatus accepts status b =
     (case b of
        None \<Rightarrow> None
      | Some store \<Rightarrow>
          if truthy status \<and> accepts (stringify status)
          then Some (store(js ''status'' := Some (stringify status))) else Some store)"

definition getModuleAccessFromStatus :: "jsval \<Rightarrow> header_module \<Rightarrow> module_access" where
  "getModuleAccessFromStatus status m =
     (case named_get (parseHeaderNavModulesFromStatus status) (module_key m) of
        Some (Access a) \<Rightarrow> a | _ \<Rightarrow> DEFAULTS m)"

definition getModuleAccess :: "browser \<Rightarrow> header_module \<Rightarrow> module_access" where
  "getModuleAccess b m = getModuleAccessFromStatus (getCachedStatus b) m"

text \<open>The status the server answers with, or None when the request fails.\<close>

definition getFreshModuleAccess ::
  "(jstr \<Rightarrow> bool) \<Rightarrow> jsval option \<Rightarrow> browser \<Rightarrow> header_module \<Rightarrow> browser \<times> module_access" where
  "getFreshModuleAccess accepts answer b m =
     (case answer of
        Some status \<Rightarrow> (cacheStatus accepts status b, getModuleAccessFromStatus status m)
      | None \<Rightarrow> (b, getModuleAccess b m))"

text \<open>Reading the sidebar setting; null inside the setting throws and counts as enabled.\<close>

definition isSidebarModuleEnabled :: "browser \<Rightarrow> jstr \<Rightarrow> jstr \<Rightarrow> bool" where
  "isSidebarModuleEnabled b section_name module_name =
     (let status = getCachedStatus b in
      if \<not> truthy status then True
      else let raw = js_prop status (js ''SidebarModulesAdmin'') in
        if \<not> truthy raw \<or> trim (to_str raw) = [] then True
        else case json_parse (to_str raw) of
          None \<Rightarrow> True
        | Some parsed \<Rightarrow>
            if nullish parsed then True
            else let sectionConfig = js_prop parsed section_name in
              if \<not> truthy sectionConfig then True
              else if strict_eq (js_prop sectionConfig (js ''enabled'')) (VBool False) then False
              else if strict_eq (js_prop sectionConfig module_name) (VBool False) then False
              else True)"

section \<open>What a setting means\<close>

lemma header_step_other: "k' \<noteq> k \<Longrightarrow> named_get (header_step r (k, v)) k' = named_get r k'"
  by (auto simp: header_step_def Let_def)

lemma header_step_own:
  "named_get r k = named_get r' k \<Longrightarrow> named_get (header_step r (k, v)) k = named_get (header_step r' (k, v)) k"
  by (auto simp: header_step_def Let_def access_of_def)

text \<open>The access of a page is decided by its own entry of the setting alone, and missing parts of
  the entry mean open access; every other module is on unless its entry turns it off.\<close>

theorem header_modules_exact:
  assumes "obj_wf ob"
  shows "getModuleAccessFromStatus (VObj [(js ''HeaderNavModules'', VObj ob)]) m =
      parseAccess (obj_get ob (module_key m)) open_access \<and>
    (k \<in> {js ''home'', js ''console'', js ''docs'', js ''about''} \<longrightarrow>
      named_get (parseHeaderNavModules (VObj ob)) k = Some (Flag (parseHeaderNavBoolean (obj_get ob k) True)))"
proof -
  have fold: "named_get (foldl header_step DEFAULT_HEADER_NAV_MODULES (own_entries ob)) k =
      (case map_of ob k of Some v \<Rightarrow> named_get (header_step DEFAULT_HEADER_NAV_MODULES (k, v)) k
       | None \<Rightarrow> named_get DEFAULT_HEADER_NAV_MODULES k)" for k
    unfolding map_of_own_entries [OF assms, symmetric]
    by (rule foldl_entries_get [OF distinct_own_entries [OF assms]])
      (rule header_step_other header_step_own, assumption)+
  have "trim (js ''[object Object]'') \<noteq> []" by code_simp
  then have nb: "trim (to_str (VObj ob)) \<noteq> []" by simp
  have parse: "parseHeaderNavModules (VObj ob) = foldl header_step DEFAULT_HEADER_NAV_MODULES (own_entries ob)"
    using nb by (simp add: parseHeaderNavModules_def parseHeaderNavRecord_def)
  have pages: "named_get (parseHeaderNavModules (VObj ob)) (module_key m) =
      Some (Access (parseAccess (obj_get ob (module_key m)) open_access))"
    unfolding parse fold
    by (cases m) (auto simp: module_key_def obj_get_def header_step_def DEFAULT_HEADER_NAV_MODULES_def named_get_def
        access_of_def parseAccess_def is_scalar_def named_put_def update_conv' split: option.split)
  have flags: "named_get (parseHeaderNavModules (VObj ob)) k = Some (Flag (parseHeaderNavBoolean (obj_get ob k) True))"
    if "k \<in> {js ''home'', js ''console'', js ''docs'', js ''about''}" for k
    unfolding parse fold using that
    by (auto simp: obj_get_def header_step_def DEFAULT_HEADER_NAV_MODULES_def named_get_def is_flag_def
        flag_fallback_def named_put_def update_conv' parseHeaderNavBoolean_def split: option.split)
  show ?thesis
    using pages flags
    by (simp add: getModuleAccessFromStatus_def parseHeaderNavModulesFromStatus_def opt_prop_def obj_get_def)
qed

theorem header_modules_exact_witness:
  "getModuleAccessFromStatus (VObj [(js ''HeaderNavModules'',
      VObj [(js ''pricing'', VObj [(js ''requireAuth'', VStr (js '' TRUE ''))])])]) Pricing =
     \<lparr> enabled = True, requireAuth = True \<rparr>"
proof -
  have "obj_wf [(js ''pricing'', VObj [(js ''requireAuth'', VStr (js '' TRUE ''))])]" by (simp add: obj_wf_def)
  note header_modules_exact [OF this, of Pricing, THEN conjunct1]
  moreover have "lower (trim (js '' TRUE '')) = js ''true''" by code_simp
  ultimately show ?thesis
    by (simp add: obj_get_def module_key_def parseAccess_def is_scalar_def parseHeaderNavBoolean_def open_access_def)
qed

text \<open>A setting given as the text of a JSON object means the same as the object itself.\<close>

theorem header_text_same_as_object:
  assumes "json_ok (VObj ob)"
  shows "parseHeaderNavModules (VStr (stringify (VObj ob))) = parseHeaderNavModules (VObj ob)"
proof -
  have "trim (js ''[object Object]'') \<noteq> []" by code_simp
  then have nb: "trim (to_str (VObj ob)) \<noteq> []" by simp
  obtain c t where s: "stringify (VObj ob) = c # t" "\<not> json_ws c" using stringify_hd [OF assms] by blast
  have "c = 123" using s(1) by simp
  then have "trim (stringify (VObj ob)) \<noteq> []" unfolding trim_eq_Nil_iff s(1) by (simp add: is_ws_def)
  then show ?thesis
    using s(1) nb json_parse_stringify [OF assms]
    by (simp add: parseHeaderNavModules_def parseHeaderNavRecord_def del: stringify.simps json_ok.simps)
qed

theorem header_text_same_as_object_witness:
  "parseHeaderNavModules (VStr (stringify (VObj [(js ''docs'', VBool False)]))) =
   parseHeaderNavModules (VObj [(js ''docs'', VBool False)])"
  by (rule header_text_same_as_object) code_simp

text \<open>A fresh status is what decides, and its copy decides the same way later; when the request
  fails the copy decides and is kept.\<close>

theorem fresh_access_cached:
  assumes "json_ok status" "truthy status" "accepts (stringify status)" "b \<noteq> None"
  shows "(let (b', a) = getFreshModuleAccess accepts (Some status) b m in
      a = getModuleAccessFromStatus status m \<and> getModuleAccess b' m = a \<and>
      getFreshModuleAccess accepts None b' m = (b', a))"
proof -
  obtain store where b: "b = Some store" using assms(4) by auto
  have "stringify status \<noteq> []" using stringify_hd [OF assms(1)] by auto
  then have "getCachedStatus (cacheStatus accepts status b) = status"
    using assms(2,3) json_parse_stringify [OF assms(1)] by (simp add: b cacheStatus_def getCachedStatus_def)
  then show ?thesis by (simp add: getFreshModuleAccess_def getModuleAccess_def)
qed

theorem fresh_access_cached_witness:
  "snd (getFreshModuleAccess (\<lambda>_. True) (Some (VObj [])) (Some (\<lambda>_. None)) Pricing) = open_access"
  using fresh_access_cached [of "VObj []" "\<lambda>_. True" "Some (\<lambda>_. None)" Pricing]
  by (simp add: own_entries_def getModuleAccessFromStatus_def parseHeaderNavModulesFromStatus_def opt_prop_def obj_get_def
      parseHeaderNavModules_def parseHeaderNavRecord_def DEFAULT_HEADER_NAV_MODULES_def named_get_def module_key_def
      getFreshModuleAccess_def)

text \<open>A module of the sidebar is hidden exactly when the stored setting says false for its section
  or for the module itself; whatever else the storage holds, the module is shown.\<close>

theorem sidebar_hidden_iff:
  "\<not> isSidebarModuleEnabled b sec module_name \<longleftrightarrow>
   (\<exists>parsed. truthy (getCachedStatus b) \<and>
      json_parse (to_str (js_prop (getCachedStatus b) (js ''SidebarModulesAdmin''))) = Some parsed \<and>
      truthy (js_prop (getCachedStatus b) (js ''SidebarModulesAdmin'')) \<and>
      (js_prop (js_prop parsed sec) (js ''enabled'') = VBool False \<or>
       js_prop (js_prop parsed sec) module_name = VBool False))"
proof -
  have f: "strict_eq v (VBool False) \<longleftrightarrow> v = VBool False" for v by (cases v) auto
  have t: "js_prop v k = VBool False \<Longrightarrow> truthy v" for v k by (cases v) (auto simp: obj_get_def)
  have n: "js_prop (js_prop p sec) k = VBool False \<Longrightarrow> \<not> nullish p" for p k by (cases p) auto
  have blank: "json_parse s = Some p \<Longrightarrow> trim s \<noteq> []" for s p using parse_blank [of s] by auto
  show ?thesis
    using t n blank by (auto simp: isSidebarModuleEnabled_def Let_def f split: option.splits if_splits)
qed

end
