(* ===== verification/MaintenanceConfig.thy ===== *)
theory MaintenanceConfig
  imports NavModules
begin

text \<open>
  The forms in which an administrator edits the modules of the header and of the sidebar:
  web/default/src/features/system-settings/maintenance/config.ts. The texts are those that
  NavModules reads. Entries named like members of Object.prototype are outside the model.
\<close>

definition HEADER_NAV_DEFAULT :: header_modules where
  "HEADER_NAV_DEFAULT =
     [(js ''home'', Flag True), (js ''console'', Flag True), (js ''pricing'', Access open_access),
      (js ''rankings'', Access open_access), (js ''docs'', Flag True), (js ''about'', Flag True)]"

type_synonym sidebar_config = "bool named named"

definition all_on :: "string list \<Rightarrow> bool named" where
  "all_on ks = map (\<lambda>k. (js k, True)) ks"

definition SIDEBAR_MODULES_DEFAULT :: sidebar_config where
  "SIDEBAR_MODULES_DEFAULT =
     [(js ''chat'', all_on [''enabled'', ''playground'', ''images'', ''chat'']),
      (js ''console'', all_on [''enabled'', ''detail'', ''token'', ''log'', ''task'']),
      (js ''personal'', all_on [''enabled'', ''topup'', ''rewards'', ''community'', ''personal'']),
      (js ''admin'', all_on [''enabled'', ''channel'', ''models'', ''redemption'', ''user'', ''setting'',
         ''subscription'', ''blind_box''])]"

definition toBoolean :: "jsval \<Rightarrow> bool \<Rightarrow> bool" where
  "toBoolean v fallback =
     (case v of
        VBool b \<Rightarrow> b
      | VNum x \<Rightarrow> num_eq x (Fin 1)
      | VStr s \<Rightarrow>
          (let normalized = lower (trim s) in
           if normalized = js ''true'' \<or> normalized = js ''1'' then True
           else if normalized = js ''false'' \<or> normalized = js ''0'' then False
           else fallback)
      | _ \<Rightarrow> fallback)"

definition parseAccessModule :: "jsval \<Rightarrow> module_access \<Rightarrow> module_access" where
  "parseAccessModule raw fallback =
     (if is_scalar raw
      then \<lparr> enabled = toBoolean raw (enabled fallback), requireAuth = requireAuth fallback \<rparr>
      else if truthy raw \<and> is_object_type raw
      then \<lparr> enabled = toBoolean (js_prop raw (js ''enabled'')) (enabled fallback),
             requireAuth = toBoolean (js_prop raw (js ''requireAuth'')) (requireAuth fallback) \<rparr>
      else fallback)"

section \<open>The header\<close>

text \<open>Boolean(base[key]).\<close>

definition base_flag :: "jstr \<Rightarrow> bool" where
  "base_flag key = (case named_get HEADER_NAV_DEFAULT key of Some (Flag b) \<Rightarrow> b | Some (Access _) \<Rightarrow> True | None \<Rightarrow> False)"

definition header_config_step :: "header_modules \<Rightarrow> jstr \<times> jsval \<Rightarrow> header_modules" where
  "header_config_step result = (\<lambda>(key, raw).
     if key = js ''pricing'' then named_put key (Access (parseAccessModule raw (access_of HEADER_NAV_DEFAULT key))) result
     else if key = js ''rankings'' then named_put key (Access (parseAccessModule raw (access_of HEADER_NAV_DEFAULT key))) result
     else case raw of
       VBool b \<Rightarrow> named_put key (Flag b) result
     | VStr _ \<Rightarrow> named_put key (Flag (toBoolean raw (base_flag key))) result
     | VNum _ \<Rightarrow> named_put key (Flag (toBoolean raw (base_flag key))) result
     | _ \<Rightarrow> result)"

text \<open>The text may be missing; null inside it throws and gives the defaults.\<close>

definition parseHeaderNavConfig :: "jstr option \<Rightarrow> header_modules" where
  "parseHeaderNavConfig v =
     (let base = HEADER_NAV_DEFAULT in
      case v of
        None \<Rightarrow> base
      | Some s \<Rightarrow>
          if s = [] then base
          else case json_parse s of
            None \<Rightarrow> base
          | Some parsed \<Rightarrow> if nullish parsed then base else foldl header_config_step base (entries_of parsed))"

definition nav_entry_val :: "nav_entry \<Rightarrow> jsval" where
  "nav_entry_val e =
     (case e of
        Flag b \<Rightarrow> VBool b
      | Access a \<Rightarrow> VObj [(js ''enabled'', VBool (enabled a)), (js ''requireAuth'', VBool (requireAuth a))])"

definition header_object :: "header_modules \<Rightarrow> jsobj" where
  "header_object config = map (\<lambda>(k, e). (k, nav_entry_val e)) config"

definition serializeHeaderNavModules :: "header_modules \<Rightarrow> jstr" where
  "serializeHeaderNavModules config = stringify (VObj (header_object config))"

section \<open>The sidebar\<close>

definition default_module :: "bool named option \<Rightarrow> jstr \<Rightarrow> bool" where
  "default_module sec key =
     (case sec of Some cfg \<Rightarrow> (case named_get cfg key of Some b \<Rightarrow> b | None \<Rightarrow> True) | None \<Rightarrow> True)"

definition module_step :: "bool named option \<Rightarrow> bool named \<Rightarrow> jstr \<times> jsval \<Rightarrow> bool named" where
  "module_step sec cfg = (\<lambda>(moduleKey, moduleValue).
     if moduleKey = js ''enabled'' then cfg
     else named_put moduleKey (toBoolean moduleValue (default_module sec moduleKey)) cfg)"

definition section_config :: "bool named option \<Rightarrow> jsval \<Rightarrow> bool named" where
  "section_config sec raw =
     foldl (module_step sec)
       [(js ''enabled'', toBoolean (js_prop raw (js ''enabled'')) (default_module sec (js ''enabled'')))]
       (entries_of raw)"

definition section_step :: "sidebar_config \<Rightarrow> jstr \<times> jsval \<Rightarrow> sidebar_config" where
  "section_step result = (\<lambda>(sectionKey, raw).
     if \<not> truthy raw \<or> \<not> is_object_type raw then result
     else named_put sectionKey (section_config (named_get SIDEBAR_MODULES_DEFAULT sectionKey) raw) result)"

definition fill_module :: "bool named \<Rightarrow> jstr \<times> bool \<Rightarrow> bool named" where
  "fill_module cfg = (\<lambda>(k, b). if named_has cfg k then cfg else named_put k b cfg)"

definition fill_section :: "sidebar_config \<Rightarrow> jstr \<times> bool named \<Rightarrow> sidebar_config" where
  "fill_section result = (\<lambda>(sectionKey, config).
     case named_get result sectionKey of
       None \<Rightarrow> named_put sectionKey config result
     | Some cfg \<Rightarrow> named_put sectionKey (foldl fill_module cfg config) result)"

definition parseSidebarModulesAdmin :: "jstr option \<Rightarrow> sidebar_config" where
  "parseSidebarModulesAdmin v =
     (let defaults = SIDEBAR_MODULES_DEFAULT in
      case v of
        None \<Rightarrow> defaults
      | Some s \<Rightarrow>
          if s = [] \<or> trim s = [] then defaults
          else case json_parse s of
            None \<Rightarrow> defaults
          | Some parsed \<Rightarrow>
              if nullish parsed then defaults
              else foldl fill_section (foldl section_step [] (entries_of parsed)) defaults)"

definition serializeSidebarModulesAdmin :: "sidebar_config \<Rightarrow> jstr" where
  "serializeSidebarModulesAdmin config =
     stringify (VObj (map (\<lambda>(k, cfg). (k, VObj (map (\<lambda>(m, b). (m, VBool b)) cfg))) config))"

section \<open>Round trip of the header\<close>

text \<open>A configuration as the form edits it: each default module is there, pricing and rankings have an
  access and the other modules are switches.\<close>

definition header_config_ok :: "header_modules \<Rightarrow> bool" where
  "header_config_ok c \<longleftrightarrow>
     json_ok (VObj (header_object c)) \<and>
     list_all (named_has c) (map fst HEADER_NAV_DEFAULT) \<and>
     list_all (\<lambda>(k, e). (k \<in> {js ''pricing'', js ''rankings''}) = (case e of Access _ \<Rightarrow> True | Flag _ \<Rightarrow> False)) c"

lemma map_of_header: "map_of (header_object c) k = map_option nav_entry_val (map_of c k)"
  by (induction c) (auto simp: header_object_def)

lemma parse_access_val: "parseAccessModule (nav_entry_val (Access a)) d = a"
  by (cases a) (simp add: parseAccessModule_def nav_entry_val_def is_scalar_def obj_get_def toBoolean_def)

lemma header_config_step_other: "k' \<noteq> k \<Longrightarrow> named_get (header_config_step r (k, v)) k' = named_get r k'"
  by (auto simp: header_config_step_def split: jsval.splits)

lemma header_config_step_own:
  "named_get r k = named_get r' k \<Longrightarrow>
   named_get (header_config_step r (k, v)) k = named_get (header_config_step r' (k, v)) k"
  by (auto simp: header_config_step_def split: jsval.splits)

text \<open>A header configuration that is saved and opened again is the same: every module has the
  entry it had, and no other module appears.\<close>

theorem header_config_roundtrip:
  assumes "header_config_ok c"
  shows "named_get (parseHeaderNavConfig (Some (serializeHeaderNavModules c))) k = named_get c k"
proof -
  let ?ob = "header_object c"
  have ok: "json_ok (VObj ?ob)" using assms by (simp add: header_config_ok_def)
  then have wf: "obj_wf ?ob" by simp
  have ne: "stringify (VObj ?ob) \<noteq> []" using stringify_hd [OF ok] by auto
  have "parseHeaderNavConfig (Some (serializeHeaderNavModules c)) =
      foldl header_config_step HEADER_NAV_DEFAULT (own_entries ?ob)"
    using ne json_parse_stringify [OF ok] by (simp add: parseHeaderNavConfig_def serializeHeaderNavModules_def del: stringify.simps)
  moreover have "named_get (foldl header_config_step HEADER_NAV_DEFAULT (own_entries ?ob)) k =
      (case map_of ?ob k of Some v \<Rightarrow> named_get (header_config_step HEADER_NAV_DEFAULT (k, v)) k
       | None \<Rightarrow> named_get HEADER_NAV_DEFAULT k)"
    unfolding map_of_own_entries [OF wf, symmetric]
    by (rule foldl_entries_get [OF distinct_own_entries [OF wf]])
      (rule header_config_step_other header_config_step_own, assumption)+
  moreover have "named_get HEADER_NAV_DEFAULT k = None" if "map_of c k = None"
    using assms that by (auto simp: header_config_ok_def HEADER_NAV_DEFAULT_def named_has_def named_get_def)
  moreover have "named_get (header_config_step HEADER_NAV_DEFAULT (k, nav_entry_val e)) k = Some e" if "map_of c k = Some e" for e
  proof -
    have "(k, e) \<in> set c" using that by (rule map_of_SomeD)
    then have "(k \<in> {js ''pricing'', js ''rankings''}) = (case e of Access _ \<Rightarrow> True | Flag _ \<Rightarrow> False)"
      using assms by (auto simp: header_config_ok_def list_all_iff)
    then show ?thesis
      by (cases e) (auto simp: header_config_step_def parse_access_val, simp add: nav_entry_val_def)
  qed
  ultimately show ?thesis by (simp add: map_of_header named_get_def split: option.split)
qed

theorem header_config_roundtrip_witness:
  "named_get (parseHeaderNavConfig (Some (serializeHeaderNavModules
     (named_put (js ''pricing'') (Access \<lparr> enabled = True, requireAuth = True \<rparr>) HEADER_NAV_DEFAULT)))) (js ''pricing'') =
   Some (Access \<lparr> enabled = True, requireAuth = True \<rparr>)"
  by (subst header_config_roundtrip) (code_simp, simp)

section \<open>The two readers of the header setting\<close>

definition home_2_text :: jstr where
  "home_2_text = js ''{'' @ quote (js ''home'') @ js '':2}''"

definition blog_on_text :: jstr where
  "blog_on_text = js ''{'' @ quote (js ''blog'') @ js '':'' @ quote (js ''on'') @ js ''}''"

text \<open>The pages and the form read the same header setting differently: a number other than 0 and 1
  leaves a module on for the pages and off in the form, and so does an unknown module with an
  unreadable text.\<close>

theorem header_readers_differ:
  "named_get (parseHeaderNavModules (VStr home_2_text)) (js ''home'') = Some (Flag True) \<and>
   named_get (parseHeaderNavConfig (Some home_2_text)) (js ''home'') = Some (Flag False) \<and>
   named_get (parseHeaderNavModules (VStr blog_on_text)) (js ''blog'') = Some (Flag True) \<and>
   named_get (parseHeaderNavConfig (Some blog_on_text)) (js ''blog'') = Some (Flag False)"
  by (intro conjI) code_simp+

section \<open>What a sidebar setting means\<close>

lemma section_config_get:
  assumes "obj_wf o1"
  shows "named_get (section_config sec (VObj o1)) m =
    (if m = js ''enabled'' then Some (toBoolean (obj_get o1 m) (default_module sec m))
     else if obj_has o1 m then Some (toBoolean (obj_get o1 m) (default_module sec m)) else None)"
proof -
  let ?c0 = "[(js ''enabled'', toBoolean (obj_get o1 (js ''enabled'')) (default_module sec (js ''enabled'')))]"
  have "named_get (foldl (module_step sec) ?c0 (own_entries o1)) m =
      (case map_of o1 m of Some v \<Rightarrow> named_get (module_step sec ?c0 (m, v)) m | None \<Rightarrow> named_get ?c0 m)"
    unfolding map_of_own_entries [OF assms, symmetric]
    by (rule foldl_entries_get [OF distinct_own_entries [OF assms]]) (auto simp: module_step_def)
  then show ?thesis
    by (auto simp: section_config_def module_step_def obj_has_def obj_get_def named_get_def [of "[_]"] split: option.splits)
qed

lemma sections_get:
  assumes "obj_wf ob"
  shows "named_get (foldl section_step [] (own_entries ob)) s =
    (if truthy (obj_get ob s) \<and> is_object_type (obj_get ob s)
     then Some (section_config (named_get SIDEBAR_MODULES_DEFAULT s) (obj_get ob s)) else None)"
proof -
  have "named_get (foldl section_step [] (own_entries ob)) s =
      (case map_of ob s of Some v \<Rightarrow> named_get (section_step [] (s, v)) s | None \<Rightarrow> named_get [] s)"
    unfolding map_of_own_entries [OF assms, symmetric]
    by (rule foldl_entries_get [OF distinct_own_entries [OF assms]]) (auto simp: section_step_def)
  then show ?thesis by (auto simp: section_step_def obj_get_def split: option.splits)
qed

lemma fill_modules_get:
  "distinct (map fst d) \<Longrightarrow> named_get (foldl fill_module cfg d) m =
     (case named_get cfg m of Some b \<Rightarrow> Some b | None \<Rightarrow> named_get d m)"
  by (subst foldl_entries_get) (auto simp: fill_module_def named_has_iff named_get_def [of d] split: option.splits)

lemma defaults_distinct:
  "distinct (map fst SIDEBAR_MODULES_DEFAULT)"
  "named_get SIDEBAR_MODULES_DEFAULT s = Some d \<Longrightarrow> distinct (map fst d)"
  by (auto simp: SIDEBAR_MODULES_DEFAULT_def named_get_def all_on_def split: if_splits)

lemma fill_sections_get:
  "named_get (foldl fill_section r SIDEBAR_MODULES_DEFAULT) s =
     (case named_get SIDEBAR_MODULES_DEFAULT s of
        None \<Rightarrow> named_get r s
      | Some d \<Rightarrow> Some (case named_get r s of None \<Rightarrow> d | Some cfg \<Rightarrow> foldl fill_module cfg d))"
proof -
  have "named_get (foldl fill_section r SIDEBAR_MODULES_DEFAULT) s =
      (case map_of SIDEBAR_MODULES_DEFAULT s of Some d \<Rightarrow> named_get (fill_section r (s, d)) s | None \<Rightarrow> named_get r s)"
    by (rule foldl_entries_get [OF defaults_distinct(1)]) (auto simp: fill_section_def split: option.splits)
  then show ?thesis by (auto simp: fill_section_def named_get_def [of SIDEBAR_MODULES_DEFAULT] split: option.splits)
qed

text \<open>A stored sidebar setting is read exactly: a module that its section names has the value given
  there (its default if unreadable), a module that is not named has its default, the section switch
  is always there, and a section that is not named is the default section.\<close>

theorem sidebar_config_exact:
  assumes "json_parse t = Some (VObj ob)" "obj_wf ob" "obj_get ob s = VObj o1" "obj_wf o1" "\<not> obj_has ob s'"
  shows "(\<exists>cfg. named_get (parseSidebarModulesAdmin (Some t)) s = Some cfg \<and>
      named_get cfg m =
        (if m = js ''enabled'' \<or> obj_has o1 m
         then Some (toBoolean (obj_get o1 m) (default_module (named_get SIDEBAR_MODULES_DEFAULT s) m))
         else Option.bind (named_get SIDEBAR_MODULES_DEFAULT s) (\<lambda>d. named_get d m))) \<and>
    named_get (parseSidebarModulesAdmin (Some t)) s' = named_get SIDEBAR_MODULES_DEFAULT s'"
proof -
  have "t \<noteq> []" "trim t \<noteq> []" using assms(1) parse_blank [of t] by auto
  then have p: "parseSidebarModulesAdmin (Some t) =
      foldl fill_section (foldl section_step [] (own_entries ob)) SIDEBAR_MODULES_DEFAULT"
    using assms(1) by (simp add: parseSidebarModulesAdmin_def)
  have s: "named_get (foldl section_step [] (own_entries ob)) s =
      Some (section_config (named_get SIDEBAR_MODULES_DEFAULT s) (VObj o1))"
    using assms(3) by (simp add: sections_get [OF assms(2)])
  have s': "named_get (foldl section_step [] (own_entries ob)) s' = None"
    using assms(5) by (simp add: sections_get [OF assms(2)] obj_get_def obj_has_def)
  show ?thesis
    unfolding p fill_sections_get s s'
    by (cases "named_get SIDEBAR_MODULES_DEFAULT s"; cases "named_get SIDEBAR_MODULES_DEFAULT s'")
      (auto simp: section_config_get [OF assms(4)] fill_modules_get defaults_distinct(2))
qed

definition sidebar_text :: jstr where
  "sidebar_text = stringify (VObj [(js ''chat'', VObj [(js ''images'', VBool False)])])"

theorem sidebar_config_exact_witness:
  "\<exists>cfg. named_get (parseSidebarModulesAdmin (Some sidebar_text)) (js ''chat'') = Some cfg \<and>
     named_get cfg (js ''images'') = Some False"
proof -
  have "json_ok (VObj [(js ''chat'', VObj [(js ''images'', VBool False)])])" by code_simp
  then have j: "json_parse sidebar_text = Some (VObj [(js ''chat'', VObj [(js ''images'', VBool False)])])"
    unfolding sidebar_text_def by (rule json_parse_stringify)
  show ?thesis
    using sidebar_config_exact [OF j, of "js ''chat''" "[(js ''images'', VBool False)]" "js ''admin''" "js ''images''"]
    by (simp add: obj_wf_def obj_get_def obj_has_def toBoolean_def)
qed

end
