(* ===== verification/BillingExpr.thy ===== *)
theory BillingExpr
  imports Regex
begin

text \<open>
  The tiers of a billing expression (features/pricing/lib/billing-expr.ts, first half): the table of
  price variables, and the reading of \<^verbatim>\<open>tier(name, body)\<close> terms with their conditions by the
  patterns of the source.
\<close>

section \<open>Price variables\<close>

record billing_var =
  v_key :: jstr
  v_field :: "jstr option"
  v_tierField :: "jstr option"
  v_label :: jstr
  v_shortLabel :: jstr
  v_side :: jstr
  v_isBase :: bool
  v_isConditionOnly :: bool
  v_group :: "jstr option"

definition base_var :: "string \<Rightarrow> string \<Rightarrow> string \<Rightarrow> string \<Rightarrow> string \<Rightarrow> string \<Rightarrow> billing_var" where
  "base_var key field tierField label shortLabel side =
     \<lparr>v_key = js key, v_field = Some (js field), v_tierField = Some (js tierField), v_label = js label,
      v_shortLabel = js shortLabel, v_side = js side, v_isBase = True, v_isConditionOnly = False,
      v_group = None\<rparr>"

definition extra_var :: "string \<Rightarrow> string \<Rightarrow> string \<Rightarrow> string \<Rightarrow> string \<Rightarrow> string \<Rightarrow> string \<Rightarrow> billing_var" where
  "extra_var key field tierField label shortLabel side grp =
     \<lparr>v_key = js key, v_field = Some (js field), v_tierField = Some (js tierField), v_label = js label,
      v_shortLabel = js shortLabel, v_side = js side, v_isBase = False, v_isConditionOnly = False,
      v_group = Some (js grp)\<rparr>"

definition len_var :: billing_var where
  "len_var =
     \<lparr>v_key = js ''len'', v_field = None, v_tierField = None, v_label = js ''Input length'',
      v_shortLabel = js ''Length'', v_side = js ''condition'', v_isBase = False, v_isConditionOnly = True,
      v_group = None\<rparr>"

definition BILLING_VARS :: "billing_var list" where
  "BILLING_VARS =
    [base_var ''p'' ''inputPrice'' ''input_unit_cost'' ''Input price'' ''Input'' ''input'',
     base_var ''c'' ''outputPrice'' ''output_unit_cost'' ''Completion price'' ''Output'' ''output'',
     len_var,
     extra_var ''cr'' ''cacheReadPrice'' ''cache_read_unit_cost'' ''Cache read price'' ''Cache Read''
       ''input'' ''cache'',
     extra_var ''cc'' ''cacheCreatePrice'' ''cache_create_unit_cost'' ''Cache create price'' ''Cache Write''
       ''input'' ''cache'',
     extra_var ''cc1h'' ''cacheCreate1hPrice'' ''cache_create_1h_unit_cost'' ''Cache create (1h) price''
       ''Cache Write (1h)'' ''input'' ''cache'',
     extra_var ''img'' ''imagePrice'' ''image_unit_cost'' ''Image input price'' ''Image In''
       ''input'' ''media'',
     extra_var ''img_o'' ''imageOutputPrice'' ''image_output_unit_cost'' ''Image output price'' ''Image Out''
       ''output'' ''media'',
     extra_var ''ai'' ''audioInputPrice'' ''audio_input_unit_cost'' ''Audio input price'' ''Audio In''
       ''input'' ''media'',
     extra_var ''ao'' ''audioOutputPrice'' ''audio_output_unit_cost'' ''Audio output price'' ''Audio Out''
       ''output'' ''media'']"

definition BILLING_PRICING_VARS :: "billing_var list" where
  "BILLING_PRICING_VARS = filter (\<lambda>v. \<not> v_isConditionOnly v) BILLING_VARS"

definition BILLING_CONDITION_VARS :: "jstr list" where
  "BILLING_CONDITION_VARS = map v_key (filter (\<lambda>v. v_isBase v \<or> v_isConditionOnly v) BILLING_VARS)"

definition BILLING_VAR_KEY_TO_FIELD :: "(jstr \<times> jstr) list" where
  "BILLING_VAR_KEY_TO_FIELD = map (\<lambda>v. (v_key v, the (v_field v))) BILLING_PRICING_VARS"

definition BILLING_EXTRA_VARS :: "billing_var list" where
  "BILLING_EXTRA_VARS = filter (\<lambda>v. \<not> v_isBase v \<and> \<not> v_isConditionOnly v) BILLING_VARS"

definition BILLING_CACHE_VAR_MAP :: "(jstr \<times> jstr) list" where
  "BILLING_CACHE_VAR_MAP = map (\<lambda>v. (the (v_tierField v), v_key v)) BILLING_EXTRA_VARS"

section \<open>Patterns\<close>

text \<open>The classes \<^verbatim>\<open>[\d.eE+-]\<close> and \<^verbatim>\<open>[\d.eE+]\<close>.\<close>

definition signed_number :: regex where
  "signed_number = Plus (Cls (\<lambda>c. is_digit c \<or> c = 46 \<or> c = 101 \<or> c = 69 \<or> c = 43 \<or> c = 45))"

definition plain_number :: regex where
  "plain_number = Plus (Cls (\<lambda>c. is_digit c \<or> c = 46 \<or> c = 101 \<or> c = 69 \<or> c = 43))"

text \<open>The pattern of a coefficient; it is tried at word boundaries.\<close>

definition BILLING_VAR_REGEX :: regex where
  "BILLING_VAR_REGEX =
     seq [Grp 1 (alts (map (\<lambda>v. Lit (v_key v)) BILLING_PRICING_VARS)), spaces, lit ''*'', spaces,
          Grp 2 signed_number]"

definition NUMERIC_LITERAL_REGEX :: regex where
  "NUMERIC_LITERAL_REGEX =
     seq [Opt (lit ''-''), Alt (seq [digits, Opt (lit ''.''), Star digit]) (seq [lit ''.'', digits]),
          Opt (seq [alts [lit ''e'', lit ''E''], Opt (alts [lit ''+'', lit ''-'']), digits])]"

definition condition_pattern :: "regex \<Rightarrow> regex \<Rightarrow> regex \<Rightarrow> regex" where
  "condition_pattern var_part op_part num_part = seq [var_part, spaces, op_part, spaces, num_part]"

definition condition_var :: regex where
  "condition_var = alts [lit ''p'', lit ''c'', lit ''len'']"

definition condition_op :: regex where
  "condition_op = alts [lit ''<'', lit ''<='', lit ''>'', lit ''>='']"

definition and_sep :: regex where
  "and_sep = seq [spaces, lit ''&&'', spaces]"

definition condGroup :: regex where
  "condGroup = Grp 1 (seq [condition_pattern condition_var condition_op plain_number,
     Star (Seq and_sep (condition_pattern condition_var condition_op plain_number))])"

definition tierRe :: regex where
  "tierRe = seq [Opt (seq [condGroup, spaces, lit ''?'', spaces]), lit ''tier('', Lit [34],
     Grp 2 (Star (not_in [34])), Lit [34], lit '','', spaces, Grp 3 (Plus (not_in [41])), lit '')'']"

section \<open>Tiers\<close>

record tierCondition =
  tc_var :: jstr
  tc_op :: jstr
  tc_value :: jsnum

record parsedTier =
  pt_label :: jstr
  pt_conditions :: "tierCondition list"
  pt_prices :: "jsnum named"

definition stripExprVersion :: "jstr \<Rightarrow> jsnum \<times> jstr" where
  "stripExprVersion exprStr =
     (if exprStr = [] then (Fin 1, [])
      else case match_all (seq [lit ''v'', Grp 1 digits, lit '':'', Grp 2 (Star (not_in []))]) exprStr of
             Some m \<Rightarrow> (str_to_num (cap m 1), cap m 2)
           | None \<Rightarrow> (Fin 1, exprStr))"

definition coeff_step :: "jsnum named \<Rightarrow> captures \<Rightarrow> jsnum named" where
  "coeff_step coeffs m =
     (if named_has coeffs (cap m 1) then coeffs
      else named_put (cap m 1) (str_to_num (cap m 2)) coeffs)"

definition coefficients :: "jstr \<Rightarrow> jsnum named" where
  "coefficients bodyStr = foldl coeff_step [] (search word_boundary BILLING_VAR_REGEX bodyStr)"

definition price_of :: "jsnum named \<Rightarrow> jstr \<Rightarrow> jsnum" where
  "price_of coeffs varName =
     (case named_get coeffs varName of
        Some x \<Rightarrow> if num_truthy x then x else Fin 0
      | None \<Rightarrow> Fin 0)"

definition parseTierBody :: "jstr \<Rightarrow> jsnum named" where
  "parseTierBody bodyStr =
     foldl (\<lambda>tier (varName, field). named_put field (price_of (coefficients bodyStr) varName) tier)
       [] BILLING_VAR_KEY_TO_FIELD"

definition parse_tier_condition :: "jstr \<Rightarrow> tierCondition option" where
  "parse_tier_condition cp =
     (case match_all (condition_pattern (Grp 1 condition_var) (Grp 2 condition_op) (Grp 3 plain_number))
             (trim cp) of
        Some cm \<Rightarrow> Some \<lparr>tc_var = cap cm 1, tc_op = cap cm 2, tc_value = str_to_num (cap cm 3)\<rparr>
      | None \<Rightarrow> None)"

definition tier_of_match :: "captures \<Rightarrow> parsedTier" where
  "tier_of_match m =
     \<lparr>pt_label = cap m 2,
      pt_conditions =
        (if cap m 1 = [] then [] else List.map_filter parse_tier_condition (re_split and_sep (cap m 1))),
      pt_prices = parseTierBody (cap m 3)\<rparr>"

definition parseTiersFromExpr :: "jstr \<Rightarrow> parsedTier list" where
  "parseTiersFromExpr exprStr =
     (if exprStr = [] then []
      else map tier_of_match (search (\<lambda>_ _. True) tierRe (snd (stripExprVersion exprStr))))"

text \<open>The full-width signs of a label: 65309, 65308 and 65310 are the equals, less and greater signs,
  8804 and 8805 the signs for at most and at least.\<close>

definition less_sign :: regex where
  "less_sign = alts [Seq (lit ''<'') (Opt (Cls (\<lambda>c. c = 61 \<or> c = 65309))), Lit [8804],
     Seq (Lit [65308]) (Opt (Cls (\<lambda>c. c = 61 \<or> c = 65309)))]"

definition greater_sign :: regex where
  "greater_sign = alts [Seq (lit ''>'') (Opt (Cls (\<lambda>c. c = 61 \<or> c = 65309))), Lit [8805],
     Seq (Lit [65310]) (Opt (Cls (\<lambda>c. c = 61 \<or> c = 65309)))]"

definition normalizeTierLabel :: "jstr \<Rightarrow> jstr" where
  "normalizeTierLabel label =
     (if label = [] then []
      else lower (replace_all (Plus (Cls is_ws)) [] (replace_all greater_sign (js ''>'')
             (replace_all less_sign (js ''<'') label))))"

definition sample_tier_expr :: jstr where
  "sample_tier_expr = js ''v1:len <= 5 ? tier('' @ quote (js ''a'') @ js '', p * 2 + cc * 3) : tier('' @
     quote (js ''b'') @ js '', p * 4)''"

lemma sample_tier: "parseTiersFromExpr sample_tier_expr \<noteq> []"
  by code_simp

lemma matches_alts: "matches (alts rs) t \<longleftrightarrow> (\<exists>r \<in> set rs. matches r t)"
  by (induction rs rule: alts.induct) (auto simp: matches_def)

lemma condition_vars: "BILLING_CONDITION_VARS = [js ''p'', js ''c'', js ''len'']"
  by code_simp

lemma condition_captures:
  assumes "match_all (condition_pattern (Grp 1 condition_var) (Grp 2 condition_op) (Grp 3 plain_number)) s = Some cm"
  shows "cap cm 1 \<in> set BILLING_CONDITION_VARS"
    and "cap cm 2 \<in> {js ''<'', js ''<='', js ''>'', js ''>=''}"
proof -
  let ?p = "condition_pattern (Grp 1 condition_var) (Grp 2 condition_op) (Grp 3 plain_number)"
  have none: "groups condition_var = []" "groups condition_op = []" "groups plain_number = []" "groups spaces = []"
    by (simp_all add: condition_var_def condition_op_def plain_number_def Plus_def spaces_def lit_def)
  have g: "groups ?p = [(1, condition_var), (2, condition_op), (3, plain_number)]"
    by (simp add: condition_pattern_def none)
  have a: "always_captures ?p 1" "always_captures ?p 2" by (simp_all add: condition_pattern_def)
  have "matches condition_var (cap cm 1)"
    by (rule capture_matches [OF assms a(1)]) (unfold g, simp)
  then show "cap cm 1 \<in> set BILLING_CONDITION_VARS"
    unfolding condition_vars condition_var_def matches_alts by (auto simp only: lit_def matches_Lit list.set)
  have "matches condition_op (cap cm 2)"
    by (rule capture_matches [OF assms a(2)]) (unfold g, simp)
  then show "cap cm 2 \<in> {js ''<'', js ''<='', js ''>'', js ''>=''}"
    unfolding condition_op_def matches_alts by (auto simp only: lit_def matches_Lit list.set)
qed


lemma price_fields_distinct: "distinct (map snd BILLING_VAR_KEY_TO_FIELD)"
  by code_simp

lemma price_not_NaN: "price_of coeffs varName \<noteq> NaN"
  by (auto simp: price_of_def split: option.splits)

lemma foldl_named_put_fresh:
  "distinct (map snd kfs) \<Longrightarrow> fst ` set tier \<inter> snd ` set kfs = {} \<Longrightarrow>
     foldl (\<lambda>tier (k, f). named_put f (g k) tier) tier kfs = tier @ map (\<lambda>(k, f). (f, g k)) kfs"
proof (induction kfs arbitrary: tier)
  case (Cons kf kfs)
  obtain k f where kf: "kf = (k, f)" by (cases kf)
  have "f \<notin> fst ` set tier" using Cons.prems(2) kf by auto
  then have "named_put f (g k) tier = tier @ [(f, g k)]"
    by (induction tier) (auto simp: named_put_def)
  moreover have "fst ` set (tier @ [(f, g k)]) \<inter> snd ` set kfs = {}"
    using Cons.prems kf by auto
  ultimately show ?case using Cons kf by simp
qed simp

lemma parseTierBody_fields:
  "parseTierBody s = map (\<lambda>(k, f). (f, price_of (coefficients s) k)) BILLING_VAR_KEY_TO_FIELD"
  unfolding parseTierBody_def by (subst foldl_named_put_fresh [OF price_fields_distinct]) auto

lemma in_map_filter: "c \<in> set (List.map_filter f xs) \<Longrightarrow> \<exists>x. f x = Some c"
  by (induction xs) (auto simp: List.map_filter_simps split: option.splits)

text \<open>Whatever the expression, every tier that is read has each price field of the table once, in
  the order of the table, with a price that is not NaN (a malformed coefficient counts as 0), and its
  conditions are comparisons of p, c or len with one of the four operators.\<close>

theorem parsed_tiers_wellformed:
  assumes "t \<in> set (parseTiersFromExpr e)"
  shows "map fst (pt_prices t) = map (\<lambda>v. the (v_field v)) BILLING_PRICING_VARS \<and>
    NaN \<notin> snd ` set (pt_prices t) \<and>
    (\<forall>c \<in> set (pt_conditions t). tc_var c \<in> set BILLING_CONDITION_VARS \<and>
       tc_op c \<in> {js ''<'', js ''<='', js ''>'', js ''>=''})"
proof -
  obtain m where t: "t = tier_of_match m"
    using assms by (auto simp: parseTiersFromExpr_def split: if_splits)
  have "map fst (pt_prices t) = map (\<lambda>v. the (v_field v)) BILLING_PRICING_VARS"
    by (simp add: t tier_of_match_def parseTierBody_fields BILLING_VAR_KEY_TO_FIELD_def)
  moreover have "NaN \<notin> snd ` set (pt_prices t)"
    using price_not_NaN [THEN not_sym] by (auto simp: t tier_of_match_def parseTierBody_fields)
  moreover have "tc_var c \<in> set BILLING_CONDITION_VARS \<and> tc_op c \<in> {js ''<'', js ''<='', js ''>'', js ''>=''}"
    if "c \<in> set (pt_conditions t)" for c
  proof -
    have "c \<in> set (List.map_filter parse_tier_condition (re_split and_sep (cap m 1)))"
      using that unfolding t tier_of_match_def by (simp split: if_splits)
    then obtain cp where "parse_tier_condition cp = Some c" using in_map_filter by metis
    then show ?thesis
      using condition_captures [of "trim cp"] by (auto simp only: parse_tier_condition_def split: option.splits) auto
  qed
  ultimately show ?thesis by blast
qed

theorem parsed_tiers_wellformed_witness:
  "(let t = hd (parseTiersFromExpr sample_tier_expr) in
     map fst (pt_prices t) = map (\<lambda>v. the (v_field v)) BILLING_PRICING_VARS \<and> NaN \<notin> snd ` set (pt_prices t))"
  using parsed_tiers_wellformed [OF hd_in_set [OF sample_tier]] by (simp add: Let_def)

end
