(* ===== verification/BillingRules.thy ===== *)
theory BillingRules
  imports BillingExpr
begin

text \<open>
  The request rules of a billing expression (features/pricing/lib/billing-expr.ts, second half): the
  reading of rule factors such as \<^verbatim>\<open>(header("x") == "a" ? 2 : 1)\<close>, the split of an expression into its
  tiers and its rules with the inverse, and the editor's way to write rules. JSON.parse throws on a
  malformed string literal, so the readers return an error or a result, and a result may be null
  (None).
\<close>

section \<open>Conditions and groups\<close>

datatype js_error = SyntaxError

definition SOURCE_PARAM :: jstr where "SOURCE_PARAM = js ''param''"
definition SOURCE_HEADER :: jstr where "SOURCE_HEADER = js ''header''"
definition SOURCE_TIME :: jstr where "SOURCE_TIME = js ''time''"

definition MATCH_EQ :: jstr where "MATCH_EQ = js ''eq''"
definition MATCH_CONTAINS :: jstr where "MATCH_CONTAINS = js ''contains''"
definition MATCH_GT :: jstr where "MATCH_GT = js ''gt''"
definition MATCH_GTE :: jstr where "MATCH_GTE = js ''gte''"
definition MATCH_LT :: jstr where "MATCH_LT = js ''lt''"
definition MATCH_LTE :: jstr where "MATCH_LTE = js ''lte''"
definition MATCH_EXISTS :: jstr where "MATCH_EXISTS = js ''exists''"
definition MATCH_RANGE :: jstr where "MATCH_RANGE = js ''range''"

lemmas match_modes = MATCH_EQ_def MATCH_CONTAINS_def MATCH_GT_def MATCH_GTE_def MATCH_LT_def
  MATCH_LTE_def MATCH_EXISTS_def MATCH_RANGE_def

definition TIME_FUNCS :: "jstr list" where
  "TIME_FUNCS = [js ''hour'', js ''minute'', js ''weekday'', js ''month'', js ''day'']"

definition COMMON_TIMEZONES :: "(jstr \<times> jstr) list" where
  "COMMON_TIMEZONES =
    [(js ''Asia/Shanghai'', js ''UTC+8 Shanghai (Asia/Shanghai)''),
     (js ''UTC'', js ''UTC''),
     (js ''America/New_York'', js ''UTC-5 New York (America/New_York)''),
     (js ''America/Los_Angeles'', js ''UTC-8 Los Angeles (America/Los_Angeles)''),
     (js ''America/Chicago'', js ''UTC-6 Chicago (America/Chicago)''),
     (js ''Europe/London'', js ''UTC+0 London (Europe/London)''),
     (js ''Europe/Berlin'', js ''UTC+1 Berlin (Europe/Berlin)''),
     (js ''Asia/Tokyo'', js ''UTC+9 Tokyo (Asia/Tokyo)''),
     (js ''Asia/Singapore'', js ''UTC+8 Singapore (Asia/Singapore)''),
     (js ''Asia/Seoul'', js ''UTC+9 Seoul (Asia/Seoul)''),
     (js ''Australia/Sydney'', js ''UTC+10 Sydney (Australia/Sydney)'')]"

record paramHeaderCondition =
  ph_source :: jstr
  ph_path :: jstr
  ph_mode :: jstr
  ph_value :: jstr

record timeCondition =
  ti_timeFunc :: jstr
  ti_timezone :: jstr
  ti_mode :: jstr
  ti_value :: jstr
  ti_rangeStart :: jstr
  ti_rangeEnd :: jstr

datatype requestCondition = Time_condition timeCondition | Request_condition paramHeaderCondition

record requestRuleGroup =
  rg_conditions :: "requestCondition list"
  rg_multiplier :: jstr

section \<open>Reading one condition\<close>

definition numeric :: "jstr \<Rightarrow> bool" where
  "numeric t \<longleftrightarrow> re_test NUMERIC_LITERAL_REGEX t"

definition parseExprLiteral :: "jstr \<Rightarrow> jsval" where
  "parseExprLiteral raw =
     (let t = trim raw in
      if t = js ''true'' \<or> t = js ''false'' then VStr t
      else if numeric t then VStr t
      else case json_parse t of Some v \<Rightarrow> v | None \<Rightarrow> VNull)"

definition time_func :: regex where
  "time_func = alts (map Lit TIME_FUNCS)"

text \<open>The text between two quotes: one or more units other than a quote.\<close>

definition quoted_name :: "nat \<Rightarrow> regex" where
  "quoted_name n = seq [lit ''('', Lit [34], Grp n (Plus (not_in [34])), Lit [34], lit '')'']"

definition range_pattern :: regex where
  "range_pattern = seq [Grp 1 time_func, quoted_name 2, lit '' >= '', Grp 3 signed_number, lit '' || '',
     Ref 1, lit ''('', Lit [34], Ref 2, Lit [34], lit '')'', lit '' < '', Grp 4 signed_number]"

definition time_pattern :: regex where
  "time_pattern = seq [Grp 1 time_func, quoted_name 2, lit '' '', Grp 3 (alts [lit ''=='', lit ''>='', lit ''<'']),
     lit '' '', Grp 4 signed_number]"

definition range_condition :: "captures \<Rightarrow> requestCondition" where
  "range_condition m = Time_condition
     \<lparr>ti_timeFunc = cap m 1, ti_timezone = cap m 2, ti_mode = MATCH_RANGE, ti_value = [],
      ti_rangeStart = cap m 3, ti_rangeEnd = cap m 4\<rparr>"

definition time_mode :: "jstr \<Rightarrow> jstr" where
  "time_mode op = (if op = js ''=='' then MATCH_EQ else if op = js ''>='' then MATCH_GTE
     else if op = js ''<'' then MATCH_LT else MATCH_EQ)"

definition tryParseTimeCondition :: "jstr \<Rightarrow> requestCondition option" where
  "tryParseTimeCondition expr =
     (case match_all range_pattern expr of
        Some m \<Rightarrow> Some (range_condition m)
      | None \<Rightarrow>
     (case match_all (seq [lit ''('', range_pattern, lit '')'']) expr of
        Some m \<Rightarrow> Some (range_condition m)
      | None \<Rightarrow>
     (case match_all time_pattern expr of
        Some m \<Rightarrow> Some (Time_condition
          \<lparr>ti_timeFunc = cap m 1, ti_timezone = cap m 2, ti_mode = time_mode (cap m 3), ti_value = cap m 4,
           ti_rangeStart = [], ti_rangeEnd = []\<rparr>)
      | None \<Rightarrow> None)))"

definition string_literal :: regex where
  "string_literal = seq [Lit [34], Star (Alt (not_in [34, 92]) (Seq (Lit [92]) dot)), Lit [34]]"

definition header_exists_pattern :: regex where
  "header_exists_pattern = seq [lit ''header'', quoted_name 1, lit '' != '', Lit [34, 34]]"

definition param_exists_pattern :: regex where
  "param_exists_pattern = seq [lit ''param'', quoted_name 1, lit '' != nil'']"

definition header_contains_pattern :: regex where
  "header_contains_pattern = seq [lit ''has(header'', quoted_name 1, lit '', '', Grp 2 string_literal, lit '')'']"

definition param_contains_pattern :: regex where
  "param_contains_pattern = seq [lit ''param'', quoted_name 1, lit '' != nil && has(param'', quoted_name 2,
     lit '', '', Grp 3 string_literal, lit '')'']"

definition param_compare_pattern :: regex where
  "param_compare_pattern = seq [lit ''param'', quoted_name 1, lit '' != nil && param'', quoted_name 2, lit '' '',
     Grp 3 (alts [lit ''>'', lit ''>='', lit ''<'', lit ''<='']), lit '' '', Grp 4 signed_number]"

definition equals_pattern :: regex where
  "equals_pattern = seq [Grp 1 (alts [lit ''param'', lit ''header'']), quoted_name 2, lit '' == '', Grp 3 (Plus dot)]"

definition request_condition :: "jstr \<Rightarrow> jstr \<Rightarrow> jstr \<Rightarrow> jstr \<Rightarrow> requestCondition" where
  "request_condition source path mode v =
     Request_condition \<lparr>ph_source = source, ph_path = path, ph_mode = mode, ph_value = v\<rparr>"

definition contains_condition :: "jstr \<Rightarrow> jstr \<Rightarrow> jstr \<Rightarrow> js_error + requestCondition option" where
  "contains_condition source path literal =
     (case json_parse literal of
        Some v \<Rightarrow> Inr (Some (request_condition source path MATCH_CONTAINS (to_str v)))
      | None \<Rightarrow> Inl SyntaxError)"

definition compare_mode :: "jstr \<Rightarrow> jstr" where
  "compare_mode op = (if op = js ''>'' then MATCH_GT else if op = js ''>='' then MATCH_GTE
     else if op = js ''<'' then MATCH_LT else MATCH_LTE)"

definition parse_equals :: "jstr \<Rightarrow> requestCondition option" where
  "parse_equals expr =
     (case match_all equals_pattern expr of
        Some m \<Rightarrow> (let v = parseExprLiteral (cap m 3) in
          if v = VNull then None else Some (request_condition (cap m 1) (cap m 2) MATCH_EQ (to_str v)))
      | None \<Rightarrow> None)"

text \<open>The two patterns for a parameter that must be there, with the repeated path; else the equality.\<close>

definition parse_param_guarded :: "jstr \<Rightarrow> js_error + requestCondition option" where
  "parse_param_guarded expr =
     (let contains = match_all param_contains_pattern expr; compare = match_all param_compare_pattern expr in
      if contains \<noteq> None \<and> cap (the contains) 1 = cap (the contains) 2 then
        contains_condition SOURCE_PARAM (cap (the contains) 1) (cap (the contains) 3)
      else if compare \<noteq> None \<and> cap (the compare) 1 = cap (the compare) 2 then
        Inr (Some (request_condition SOURCE_PARAM (cap (the compare) 1) (compare_mode (cap (the compare) 3))
          (cap (the compare) 4)))
      else Inr (parse_equals expr))"

definition tryParseRequestCondition :: "jstr \<Rightarrow> js_error + requestCondition option" where
  "tryParseRequestCondition expr =
     (case tryParseTimeCondition expr of
        Some tc \<Rightarrow> Inr (Some tc)
      | None \<Rightarrow>
     (case match_all header_exists_pattern expr of
        Some m \<Rightarrow> Inr (Some (request_condition SOURCE_HEADER (cap m 1) MATCH_EXISTS []))
      | None \<Rightarrow>
     (case match_all param_exists_pattern expr of
        Some m \<Rightarrow> Inr (Some (request_condition SOURCE_PARAM (cap m 1) MATCH_EXISTS []))
      | None \<Rightarrow>
     (case match_all header_contains_pattern expr of
        Some m \<Rightarrow> contains_condition SOURCE_HEADER (cap m 1) (cap m 2)
      | None \<Rightarrow> parse_param_guarded expr))))"

section \<open>Splitting at the top level\<close>

text \<open>The loop shared by the two splitters: a separator counts where the parentheses are balanced; after
  it the loop goes on behind the separator.\<close>

definition depth_step :: "int \<Rightarrow> int \<Rightarrow> int" where
  "depth_step d c = (if c = 40 then d + 1 else if c = 41 then d - 1 else d)"

fun split_top :: "jstr \<Rightarrow> int \<Rightarrow> jstr \<Rightarrow> jstr \<Rightarrow> jstr list" where
  "split_top sep d cur [] = [cur]"
| "split_top sep d cur (c # s) =
     (let d' = depth_step d c in
      if d' = 0 \<and> starts_with (c # s) sep then cur # split_top sep d' [] (drop (length sep - 1) s)
      else split_top sep d' (cur @ [c]) s)"

definition split_parts :: "jstr \<Rightarrow> jstr \<Rightarrow> jstr list" where
  "split_parts sep expr = filter (\<lambda>p. p \<noteq> []) (map trim (split_top sep 0 [] expr))"

definition splitTopLevelMultiply :: "jstr \<Rightarrow> jstr list" where
  "splitTopLevelMultiply expr = split_parts (js '' * '') expr"

definition splitTopLevelAnd :: "jstr \<Rightarrow> jstr list" where
  "splitTopLevelAnd expr = split_parts (js '' && '') expr"

section \<open>Reading rules\<close>

text \<open>A loop that collects results, ends with null at the first null, and may throw on the way.\<close>

fun collect :: "('a \<Rightarrow> js_error + 'b option) \<Rightarrow> 'a list \<Rightarrow> js_error + 'b list option" where
  "collect f [] = Inr (Some [])"
| "collect f (x # xs) =
     (case f x of
        Inl e \<Rightarrow> Inl e
      | Inr None \<Rightarrow> Inr None
      | Inr (Some y) \<Rightarrow>
          (case collect f xs of
             Inl e \<Rightarrow> Inl e
           | Inr None \<Rightarrow> Inr None
           | Inr (Some ys) \<Rightarrow> Inr (Some (y # ys))))"

definition factor_pattern :: regex where
  "factor_pattern = seq [lit ''('', Grp 1 (Plus (not_in [])), lit '' ? '', Grp 2 signed_number, lit '' : 1)'']"

definition tryParseRuleGroupFactor :: "jstr \<Rightarrow> js_error + requestRuleGroup option" where
  "tryParseRuleGroupFactor part =
     (case match_all factor_pattern part of
        None \<Rightarrow> Inr None
      | Some m \<Rightarrow>
          (case collect (\<lambda>ap. tryParseRequestCondition (trim ap)) (splitTopLevelAnd (cap m 1)) of
             Inl e \<Rightarrow> Inl e
           | Inr None \<Rightarrow> Inr None
           | Inr (Some conditions) \<Rightarrow>
               if conditions = [] then Inr None
               else Inr (Some \<lparr>rg_conditions = conditions, rg_multiplier = cap m 2\<rparr>)))"

definition tryParseRequestRuleExpr :: "jstr \<Rightarrow> js_error + requestRuleGroup list option" where
  "tryParseRequestRuleExpr expr =
     (let t = trim expr in
      if t = [] then Inr (Some []) else collect tryParseRuleGroupFactor (splitTopLevelMultiply t))"

section \<open>Splitting and combining an expression\<close>

fun outer_loop :: "int \<Rightarrow> jstr \<Rightarrow> bool" where
  "outer_loop d [] \<longleftrightarrow> d = 0"
| "outer_loop d (c # s) \<longleftrightarrow> \<not> (depth_step d c = 0 \<and> s \<noteq> []) \<and> outer_loop (depth_step d c) s"

definition hasFullOuterParens :: "jstr \<Rightarrow> bool" where
  "hasFullOuterParens expr \<longleftrightarrow>
     starts_with expr (js ''('') \<and> ends_with expr (js '')'') \<and> outer_loop 0 expr"

lemma length_trim: "length (trim s) \<le> length s"
  unfolding trim_def trim_right_def trim_left_def
  by (metis length_dropWhile_le length_rev order_trans)

function unwrap_loop :: "jstr \<Rightarrow> jstr" where
  "unwrap_loop current =
     (if hasFullOuterParens current then unwrap_loop (trim (butlast (tl current))) else current)"
  by pat_completeness auto

termination unwrap_loop
proof (relation "measure length")
  fix current
  assume "hasFullOuterParens current"
  then have "current \<noteq> []" by (auto simp: hasFullOuterParens_def starts_with_iff js_def)
  then have "length (butlast (tl current)) < length current" by (cases current) auto
  then show "(trim (butlast (tl current)), current) \<in> measure length"
    using length_trim [of "butlast (tl current)"] by simp
qed simp

declare unwrap_loop.simps [simp del]

definition unwrapOuterParens :: "jstr \<Rightarrow> jstr" where
  "unwrapOuterParens expr = unwrap_loop (trim expr)"

record billing_split =
  bs_billingExpr :: jstr
  bs_requestRuleExpr :: jstr

text \<open>Whether a part is a rule; the split reads every part, so one that throws ends it.\<close>

fun sort_parts :: "jstr list \<Rightarrow> js_error + jstr list \<times> jstr list" where
  "sort_parts [] = Inr ([], [])"
| "sort_parts (part # parts) =
     (case tryParseRequestRuleExpr part of
        Inl e \<Rightarrow> Inl e
      | Inr parsed \<Rightarrow>
          (case sort_parts parts of
             Inl e \<Rightarrow> Inl e
           | Inr (rules, bases) \<Rightarrow>
               if parsed \<noteq> None \<and> parsed \<noteq> Some [] then Inr (part # rules, bases)
               else Inr (rules, part # bases)))"

definition splitBillingExprAndRequestRules :: "jstr \<Rightarrow> js_error + billing_split" where
  "splitBillingExprAndRequestRules expr =
     (let t = trim expr; parts = splitTopLevelMultiply t;
          whole = \<lparr>bs_billingExpr = t, bs_requestRuleExpr = []\<rparr> in
      if t = [] then Inr \<lparr>bs_billingExpr = [], bs_requestRuleExpr = []\<rparr>
      else if length parts \<le> 1 then Inr whole
      else case sort_parts parts of
             Inl e \<Rightarrow> Inl e
           | Inr (ruleParts, baseParts) \<Rightarrow>
               if ruleParts = [] \<or> length baseParts \<noteq> 1 then Inr whole
               else Inr \<lparr>bs_billingExpr = unwrapOuterParens (hd baseParts),
                         bs_requestRuleExpr = join (js '' * '') ruleParts\<rparr>)"

definition combineBillingExpr :: "jstr \<Rightarrow> jstr \<Rightarrow> jstr" where
  "combineBillingExpr baseExpr requestRuleExpr =
     (let base = trim baseExpr; rules = trim requestRuleExpr in
      if base = [] then [] else if rules = [] then base
      else js ''('' @ base @ js '') * '' @ rules)"

section \<open>The editor: constructors and normal form\<close>

definition createEmptyCondition :: paramHeaderCondition where
  "createEmptyCondition = \<lparr>ph_source = SOURCE_PARAM, ph_path = [], ph_mode = MATCH_EQ, ph_value = []\<rparr>"

definition createEmptyTimeCondition :: timeCondition where
  "createEmptyTimeCondition =
     \<lparr>ti_timeFunc = js ''hour'', ti_timezone = js ''Asia/Shanghai'', ti_mode = MATCH_GTE, ti_value = [],
      ti_rangeStart = [], ti_rangeEnd = []\<rparr>"

definition createEmptyRuleGroup :: requestRuleGroup where
  "createEmptyRuleGroup =
     \<lparr>rg_conditions = [Request_condition createEmptyCondition], rg_multiplier = []\<rparr>"

definition createEmptyTimeRuleGroup :: requestRuleGroup where
  "createEmptyTimeRuleGroup =
     \<lparr>rg_conditions = [Time_condition createEmptyTimeCondition], rg_multiplier = []\<rparr>"

definition base_options :: "(jstr \<times> jstr) list" where
  "base_options = [(MATCH_EQ, js ''Equals''), (MATCH_CONTAINS, js ''Contains''), (MATCH_EXISTS, js ''Exists'')]"

definition getRequestRuleMatchOptions :: "jstr \<Rightarrow> (jstr \<times> jstr) list" where
  "getRequestRuleMatchOptions source =
     (if source = SOURCE_TIME then
        [(MATCH_EQ, js ''Equals''), (MATCH_GTE, js ''Greater than or equal''), (MATCH_LT, js ''Less than''),
         (MATCH_RANGE, js ''Overnight range'')]
      else if source = SOURCE_HEADER then base_options
      else base_options @
        [(MATCH_GT, js ''Greater than''), (MATCH_GTE, js ''Greater than or equal''), (MATCH_LT, js ''Less than''),
         (MATCH_LTE, js ''Less than or equal'')])"

text \<open>A condition with any part missing (undefined or null, None).\<close>

record partialCondition =
  pc_source :: "jstr option"
  pc_path :: "jstr option"
  pc_mode :: "jstr option"
  pc_value :: "jstr option"
  pc_timeFunc :: "jstr option"
  pc_timezone :: "jstr option"
  pc_rangeStart :: "jstr option"
  pc_rangeEnd :: "jstr option"

fun partial_of :: "requestCondition \<Rightarrow> partialCondition" where
  "partial_of (Time_condition t) =
     \<lparr>pc_source = Some SOURCE_TIME, pc_path = None, pc_mode = Some (ti_mode t), pc_value = Some (ti_value t),
      pc_timeFunc = Some (ti_timeFunc t), pc_timezone = Some (ti_timezone t),
      pc_rangeStart = Some (ti_rangeStart t), pc_rangeEnd = Some (ti_rangeEnd t)\<rparr>"
| "partial_of (Request_condition c) =
     \<lparr>pc_source = Some (ph_source c), pc_path = Some (ph_path c), pc_mode = Some (ph_mode c),
      pc_value = Some (ph_value c), pc_timeFunc = None, pc_timezone = None, pc_rangeStart = None,
      pc_rangeEnd = None\<rparr>"

definition filled_text :: "jstr option \<Rightarrow> jstr \<Rightarrow> jstr" where
  "filled_text v dflt = (case v of Some t \<Rightarrow> if t = [] then dflt else t | None \<Rightarrow> dflt)"

definition given_text :: "jstr option \<Rightarrow> jstr" where
  "given_text v = (case v of Some t \<Rightarrow> t | None \<Rightarrow> [])"

definition isTimeFunc :: "jstr option \<Rightarrow> bool" where
  "isTimeFunc v \<longleftrightarrow> (case v of Some t \<Rightarrow> t \<in> set TIME_FUNCS | None \<Rightarrow> False)"

text \<open>The mode when it is one of the source's options, else the default.\<close>

definition option_mode :: "jstr \<Rightarrow> jstr option \<Rightarrow> jstr \<Rightarrow> jstr" where
  "option_mode source mode dflt =
     (case mode of
        Some m \<Rightarrow> if m \<in> fst ` set (getRequestRuleMatchOptions source) then m else dflt
      | None \<Rightarrow> dflt)"

definition condition_source :: "partialCondition option \<Rightarrow> jstr" where
  "condition_source cond =
     (let src = (case cond of Some c \<Rightarrow> pc_source c | None \<Rightarrow> None) in
      if src = Some SOURCE_TIME then SOURCE_TIME
      else if src = Some SOURCE_HEADER then SOURCE_HEADER else SOURCE_PARAM)"

definition no_condition :: partialCondition where
  "no_condition = \<lparr>pc_source = None, pc_path = None, pc_mode = None, pc_value = None, pc_timeFunc = None,
     pc_timezone = None, pc_rangeStart = None, pc_rangeEnd = None\<rparr>"

definition normalizeCondition :: "partialCondition option \<Rightarrow> requestCondition" where
  "normalizeCondition cond =
     (let source = condition_source cond; c = (case cond of Some c \<Rightarrow> c | None \<Rightarrow> no_condition) in
      if source = SOURCE_TIME then
        Time_condition
          \<lparr>ti_timeFunc = (if isTimeFunc (pc_timeFunc c) then given_text (pc_timeFunc c) else js ''hour''),
           ti_timezone = filled_text (pc_timezone c) (js ''Asia/Shanghai''),
           ti_mode = option_mode SOURCE_TIME (pc_mode c) MATCH_GTE,
           ti_value = given_text (pc_value c),
           ti_rangeStart = given_text (pc_rangeStart c),
           ti_rangeEnd = given_text (pc_rangeEnd c)\<rparr>
      else
        Request_condition
          \<lparr>ph_source = source, ph_path = given_text (pc_path c),
           ph_mode = option_mode source (pc_mode c) MATCH_EQ, ph_value = given_text (pc_value c)\<rparr>)"

section \<open>The editor: writing rules\<close>

definition buildExprLiteral :: "jstr \<Rightarrow> jstr \<Rightarrow> jstr" where
  "buildExprLiteral mode v =
     (let t = trim v in
      if mode = MATCH_CONTAINS then quote t
      else if t = js ''true'' \<or> t = js ''false'' then t
      else if numeric t then t
      else quote t)"

definition time_op :: "jstr \<Rightarrow> jstr" where
  "time_op mode = (if mode = MATCH_EQ then js ''=='' else if mode = MATCH_GTE then js ''>=''
     else if mode = MATCH_LT then js ''<'' else js ''=='')"

text \<open>The text for a time condition in normal form.\<close>

definition time_expr :: "timeCondition \<Rightarrow> jstr" where
  "time_expr n =
     (let fn = ti_timeFunc n @ js ''('' @ quote (ti_timezone n) @ js '')'' in
      if ti_mode n = MATCH_RANGE then
        (let s = trim (ti_rangeStart n); e = trim (ti_rangeEnd n) in
         if \<not> numeric s \<or> \<not> numeric e then []
         else fn @ js '' >= '' @ s @ js '' || '' @ fn @ js '' < '' @ e)
      else
        (let v = trim (ti_value n) in
         if \<not> numeric v then [] else fn @ js '' '' @ time_op (ti_mode n) @ js '' '' @ v))"

definition compare_op :: "jstr \<Rightarrow> jstr" where
  "compare_op mode = (if mode = MATCH_GT then js ''>'' else if mode = MATCH_GTE then js ''>=''
     else if mode = MATCH_LT then js ''<'' else js ''<='')"

text \<open>The text for a parameter or header condition in normal form.\<close>

definition request_expr :: "paramHeaderCondition \<Rightarrow> jstr" where
  "request_expr n =
     (let path = trim (ph_path n); header = (ph_source n = SOURCE_HEADER);
          sourceExpr = js (if header then ''header('' else ''param('') @ quote path @ js '')'';
          mode = ph_mode n; literal = buildExprLiteral mode (ph_value n) in
      if path = [] then []
      else if mode = MATCH_EXISTS then
        sourceExpr @ (if header then js '' != '' @ [34, 34] else js '' != nil'')
      else if mode = MATCH_CONTAINS then
        (if header then js ''has('' @ sourceExpr @ js '', '' @ literal @ js '')''
         else sourceExpr @ js '' != nil && has('' @ sourceExpr @ js '', '' @ literal @ js '')'')
      else if mode = MATCH_GT \<or> mode = MATCH_GTE \<or> mode = MATCH_LT \<or> mode = MATCH_LTE then
        (let numText = trim (ph_value n) in
         if \<not> numeric numText then []
         else sourceExpr @ js '' != nil && '' @ sourceExpr @ js '' '' @ compare_op mode @ js '' '' @ numText)
      else sourceExpr @ js '' == '' @ literal)"

definition buildTimeConditionExpr :: "timeCondition \<Rightarrow> jstr" where
  "buildTimeConditionExpr cond =
     (case normalizeCondition (Some (partial_of (Time_condition cond))) of
        Time_condition n \<Rightarrow> time_expr n
      | Request_condition _ \<Rightarrow> [])"

fun buildRequestConditionExpr :: "requestCondition \<Rightarrow> jstr" where
  "buildRequestConditionExpr (Time_condition cond) = buildTimeConditionExpr cond"
| "buildRequestConditionExpr (Request_condition cond) =
     (case normalizeCondition (Some (partial_of (Request_condition cond))) of
        Request_condition n \<Rightarrow> request_expr n
      | Time_condition _ \<Rightarrow> [])"

definition guard_or :: "jstr \<Rightarrow> jstr" where
  "guard_or e = (if str_includes e (js '' || '') then js ''('' @ e @ js '')'' else e)"

definition buildRuleGroupFactor :: "requestRuleGroup \<Rightarrow> jstr" where
  "buildRuleGroupFactor g =
     (let multiplier = trim (rg_multiplier g);
          condExprs = filter (\<lambda>e. e \<noteq> []) (map buildRequestConditionExpr (rg_conditions g));
          combined = (if length condExprs = 1 then hd condExprs else join (js '' && '') (map guard_or condExprs))
      in if \<not> numeric multiplier then [] else if condExprs = [] then []
         else js ''('' @ combined @ js '' ? '' @ multiplier @ js '' : 1)'')"

definition buildRequestRuleExpr :: "requestRuleGroup list \<Rightarrow> jstr" where
  "buildRequestRuleExpr gs = join (js '' * '') (filter (\<lambda>e. e \<noteq> []) (map buildRuleGroupFactor gs))"

section \<open>Splitting what was joined\<close>

lemma outer_nonzero_Nil: "outer_loop d p \<Longrightarrow> d \<noteq> 0 \<Longrightarrow> p \<noteq> []"
  by (cases p) auto

lemma hasFullOuterParensE:
  assumes "hasFullOuterParens p"
  obtains m where "p = 40 # m" "outer_loop 1 m" "last p = 41"
proof -
  obtain m where m: "p = 40 # m"
    using assms by (auto simp: hasFullOuterParens_def starts_with_iff js_def)
  have "outer_loop 1 m" using assms m by (simp add: hasFullOuterParens_def depth_step_def)
  moreover obtain r where "rev p = 41 # r"
    using assms by (auto simp: hasFullOuterParens_def ends_with_def starts_with_iff js_def)
  then have "last p = 41" by (metis last_rev list.sel(1) rev_rev_ident)
  ultimately show ?thesis using m that by blast
qed

lemma wrapped_trimmed: "hasFullOuterParens p \<Longrightarrow> trimmed p \<and> p \<noteq> []"
  by (erule hasFullOuterParensE) (auto simp: trimmed_def is_ws_def)

text \<open>The laws of a separator that holds no parenthesis in front, for parts in parentheses.\<close>

locale top_separator =
  fixes sep :: jstr
  assumes sep_not_Nil: "sep \<noteq> []"
    and sep_head: "hd sep \<noteq> 40" "hd sep \<noteq> 41"
begin

lemma starts_sep: "starts_with (c # s) sep \<Longrightarrow> c = hd sep"
  using sep_not_Nil by (cases sep) (auto simp: starts_with_iff)

lemma split_top_skip:
  "outer_loop d p \<Longrightarrow> d \<noteq> 0 \<Longrightarrow> split_top sep d cur (p @ rest) = split_top sep 0 (cur @ p) rest"
proof (induction p arbitrary: d cur)
  case (Cons c p)
  let ?d = "depth_step d c"
  show ?case
  proof (cases "p = []")
    case True
    then have "?d = 0" using Cons.prems by simp
    then have "c = 40 \<or> c = 41" using Cons.prems(2) by (auto simp: depth_step_def split: if_splits)
    then have "\<not> starts_with (c # rest) sep" using starts_sep [of c rest] sep_head by metis
    then show ?thesis using True \<open>?d = 0\<close> by simp
  next
    case False
    then have "?d \<noteq> 0" "outer_loop ?d p" using Cons.prems by auto
    then show ?thesis using Cons.IH [of ?d "cur @ [c]"] by (simp add: Let_def)
  qed
qed simp

lemma split_top_wrapped:
  "hasFullOuterParens p \<Longrightarrow> split_top sep 0 cur (p @ rest) = split_top sep 0 (cur @ p) rest"
  by (erule hasFullOuterParensE) (simp add: depth_step_def split_top_skip)

lemma split_top_sep: "split_top sep 0 cur (sep @ rest) = cur # split_top sep 0 [] rest"
proof -
  obtain c s where sep: "sep = c # s" using sep_not_Nil by (cases sep) auto
  moreover have "depth_step 0 c = 0" using sep sep_head by (simp add: depth_step_def)
  moreover have "starts_with (c # s @ rest) sep" using sep starts_with_append [of sep rest] by simp
  ultimately show ?thesis by simp
qed

lemma split_top_join:
  "ps \<noteq> [] \<Longrightarrow> (\<And>p. p \<in> set ps \<Longrightarrow> hasFullOuterParens p) \<Longrightarrow> split_top sep 0 [] (join sep ps) = ps"
proof (induction ps rule: list_nonempty_induct)
  case (single x)
  then show ?case using split_top_wrapped [of x "[]" "[]"] by simp
next
  case (cons x xs)
  then show ?case by (simp add: join_Cons split_top_wrapped split_top_sep)
qed

lemma split_parts_join:
  "ps \<noteq> [] \<Longrightarrow> (\<And>p. p \<in> set ps \<Longrightarrow> hasFullOuterParens p) \<Longrightarrow> split_parts sep (join sep ps) = ps"
  using wrapped_trimmed by (simp add: split_parts_def split_top_join map_idI trim_trimmed filter_id_conv)

end

interpretation mul_sep: top_separator "js '' * ''"
  by unfold_locales (simp_all add: js_def)

interpretation and_sep: top_separator "js '' && ''"
  by unfold_locales (simp_all add: js_def)

section \<open>Splitting what was combined\<close>

text \<open>A part that the split takes for a rule, and one that it takes for the tiers.\<close>

definition rule_part :: "jstr \<Rightarrow> bool" where
  "rule_part p \<longleftrightarrow> (case tryParseRequestRuleExpr p of Inr (Some (g # gs)) \<Rightarrow> True | _ \<Rightarrow> False)"

definition base_part :: "jstr \<Rightarrow> bool" where
  "base_part p \<longleftrightarrow> (case tryParseRequestRuleExpr p of Inr None \<Rightarrow> True | Inr (Some []) \<Rightarrow> True | _ \<Rightarrow> False)"

definition in_parens :: "jstr \<Rightarrow> jstr" where
  "in_parens b = js ''('' @ b @ js '')''"

lemma sort_parts_rules:
  "(\<And>r. r \<in> set rules \<Longrightarrow> rule_part r) \<Longrightarrow> sort_parts rules = Inr (rules, [])"
proof (induction rules)
  case (Cons r rules)
  then have "rule_part r" "sort_parts rules = Inr (rules, [])" by auto
  then show ?case by (auto simp: rule_part_def split: sum.splits option.splits list.splits)
qed simp

lemma sort_parts_base:
  "base_part b \<Longrightarrow> (\<And>r. r \<in> set rules \<Longrightarrow> rule_part r) \<Longrightarrow> sort_parts (b # rules) = Inr (rules, [b])"
  by (auto simp: sort_parts_rules base_part_def split: sum.splits option.splits list.splits)

lemma unwrap_in_parens:
  "hasFullOuterParens (in_parens b) \<Longrightarrow> unwrapOuterParens (in_parens b) = unwrapOuterParens b"
  using wrapped_trimmed [of "in_parens b"]
  by (simp add: unwrapOuterParens_def trim_trimmed unwrap_loop.simps [of "in_parens b"])
    (simp add: in_parens_def js_def butlast_append)

lemma wrapped_ends: "hasFullOuterParens p \<Longrightarrow> hd p = 40 \<and> last p = 41 \<and> p \<noteq> []"
  by (erule hasFullOuterParensE) auto

lemma join_last: "ps \<noteq> [] \<Longrightarrow> (\<And>p. p \<in> set ps \<Longrightarrow> p \<noteq> []) \<Longrightarrow>
    join sep ps \<noteq> [] \<and> last (join sep ps) = last (last ps) \<and> (sep \<noteq> [] \<longrightarrow> hd (join sep ps) = hd (hd ps))"
  by (induction ps rule: list_nonempty_induct) (auto simp: join_Cons)

lemma trimmed_join_wrapped:
  assumes "ps \<noteq> []" "\<And>p. p \<in> set ps \<Longrightarrow> hasFullOuterParens p"
  shows "trimmed (join (js '' * '') ps) \<and> join (js '' * '') ps \<noteq> []"
proof -
  have "join (js '' * '') ps \<noteq> [] \<and> last (join (js '' * '') ps) = 41 \<and> hd (join (js '' * '') ps) = 40"
    using join_last [of ps "js '' * ''"] assms wrapped_ends by (metis js_eq_Nil(1) last_in_set list.set_sel(1) list.discI)
  then show ?thesis by (simp add: trimmed_def is_ws_def)
qed

lemma split_of_combined:
  assumes "trimmed b" "b \<noteq> []" "hasFullOuterParens (in_parens b)" "base_part (in_parens b)"
    and "rules \<noteq> []" "\<And>r. r \<in> set rules \<Longrightarrow> hasFullOuterParens r \<and> rule_part r"
  shows "splitBillingExprAndRequestRules (combineBillingExpr b (join (js '' * '') rules)) =
    Inr \<lparr>bs_billingExpr = unwrapOuterParens b, bs_requestRuleExpr = join (js '' * '') rules\<rparr>"
proof -
  let ?sep = "js '' * ''" and ?ps = "in_parens b # rules"
  have wrapped: "hasFullOuterParens p" if "p \<in> set ?ps" for p using assms(3,6) that by auto
  have rules: "trimmed (join ?sep rules)" "join ?sep rules \<noteq> []"
    using trimmed_join_wrapped [of rules] assms(5,6) by auto
  have "combineBillingExpr b (join ?sep rules) = join ?sep ?ps"
    using assms(1,2,5) rules
    by (simp add: combineBillingExpr_def trim_trimmed join_Cons in_parens_def js_def)
  moreover have "trim (join ?sep ?ps) = join ?sep ?ps" "join ?sep ?ps \<noteq> []"
    using trimmed_join_wrapped [of ?ps] wrapped by (simp_all add: trim_trimmed)
  moreover have "splitTopLevelMultiply (join ?sep ?ps) = ?ps"
    unfolding splitTopLevelMultiply_def by (rule mul_sep.split_parts_join) (use wrapped in auto)
  moreover have "sort_parts ?ps = Inr (rules, [in_parens b])"
    using assms(4,6) by (intro sort_parts_base) auto
  ultimately show ?thesis
    using assms(3,5) by (simp add: splitBillingExprAndRequestRules_def Let_def unwrap_in_parens)
qed

text \<open>Saving tiers and rules as one expression and opening it again: when the tiers are balanced and
  not themselves a rule, and every rule factor is wrapped and readable, the split finds the same
  tiers (without outer parentheses) and the same rules.\<close>

theorem split_combine:
  assumes "trimmed b" "b \<noteq> []" "hasFullOuterParens (in_parens b)" "base_part (in_parens b)"
    and "rules \<noteq> []" "\<And>r. r \<in> set rules \<Longrightarrow> hasFullOuterParens r \<and> rule_part r"
  shows "splitBillingExprAndRequestRules (combineBillingExpr b (join (js '' * '') rules)) =
    Inr \<lparr>bs_billingExpr = unwrapOuterParens b, bs_requestRuleExpr = join (js '' * '') rules\<rparr>"
  by (rule split_of_combined [OF assms])

lemma unwrap_loop_normal: "trimmed s \<Longrightarrow> trimmed (unwrap_loop s) \<and> \<not> hasFullOuterParens (unwrap_loop s)"
  by (induction s rule: unwrap_loop.induct) (metis trimmed_trim unwrap_loop.simps)

text \<open>C36. What unwrapping returns has no outer white space and no outer parentheses, so unwrapping it
  again changes nothing.\<close>

theorem unwrap_normal_form:
  "trimmed (unwrapOuterParens e) \<and> \<not> hasFullOuterParens (unwrapOuterParens e) \<and>
    unwrapOuterParens (unwrapOuterParens e) = unwrapOuterParens e"
  using unwrap_loop_normal [of "trim e"]
  by (simp add: unwrapOuterParens_def trim_trimmed unwrap_loop.simps [of "unwrap_loop (trim e)"])

text \<open>A readable rule, and tiers it can be combined with.\<close>

definition sample_group :: requestRuleGroup where
  "sample_group = \<lparr>rg_conditions =
     [request_condition SOURCE_HEADER (js ''x-plan'') MATCH_EQ (js ''pro''),
      request_condition SOURCE_PARAM (js ''stream'') MATCH_EXISTS []],
     rg_multiplier = js ''1.5''\<rparr>"

definition sample_base :: jstr where
  "sample_base = js ''tier('' @ quote (js ''a'') @ js '', p * 2)''"

theorem split_combine_witness:
  "splitBillingExprAndRequestRules (combineBillingExpr sample_base (join (js '' * '') [buildRuleGroupFactor sample_group])) =
    Inr \<lparr>bs_billingExpr = unwrapOuterParens sample_base,
         bs_requestRuleExpr = join (js '' * '') [buildRuleGroupFactor sample_group]\<rparr>"
proof (rule split_combine)
  show "trimmed sample_base" by code_simp
  show "sample_base \<noteq> []" by code_simp
  show "hasFullOuterParens (in_parens sample_base)" by code_simp
  show "base_part (in_parens sample_base)" by code_simp
  have "hasFullOuterParens (buildRuleGroupFactor sample_group)" "rule_part (buildRuleGroupFactor sample_group)"
    by code_simp+
  then show "hasFullOuterParens r \<and> rule_part r" if "r \<in> set [buildRuleGroupFactor sample_group]" for r
    using that by simp
qed simp

section \<open>What the editor writes and what the reader reads\<close>

definition contains_group :: "jstr \<Rightarrow> requestRuleGroup" where
  "contains_group source = \<lparr>rg_conditions = [request_condition source (js ''x'') MATCH_CONTAINS (js ''gpt'')],
     rg_multiplier = js ''2''\<rparr>"

definition greater_group :: requestRuleGroup where
  "greater_group = \<lparr>rg_conditions = [request_condition SOURCE_PARAM (js ''x'') MATCH_GT (js ''5'')],
     rg_multiplier = js ''2''\<rparr>"

text \<open>A rule on the contents of a header reads back as written. A rule on the contents of a parameter,
  or on its size, does not: the editor writes a guard and the condition joined by an and, the reader
  splits there first, and the second half is no condition on its own. Opening such an expression again
  takes all of it for tiers.\<close>

theorem parameter_rules_unreadable:
  "tryParseRequestRuleExpr (buildRequestRuleExpr [contains_group SOURCE_HEADER]) =
     Inr (Some [contains_group SOURCE_HEADER]) \<and>
   tryParseRequestRuleExpr (buildRequestRuleExpr [contains_group SOURCE_PARAM]) = Inr None \<and>
   tryParseRequestRuleExpr (buildRequestRuleExpr [greater_group]) = Inr None \<and>
   (let saved = combineBillingExpr sample_base (buildRequestRuleExpr [contains_group SOURCE_PARAM]) in
     splitBillingExprAndRequestRules saved = Inr \<lparr>bs_billingExpr = saved, bs_requestRuleExpr = []\<rparr>)"
  by (intro conjI) code_simp+

definition bad_escape_rule :: jstr where
  "bad_escape_rule = js ''(has(header('' @ quote (js ''x'') @ js ''), '' @ [34, 92, 113, 34] @ js '') ? 2 : 1)''"

text \<open>The reader returns null for a text that is no rule, but a string literal with an escape that
  JSON does not know makes it throw, and the split of an expression with such a factor throws too.\<close>

theorem unknown_escape_throws:
  "tryParseRequestRuleExpr (js ''p * 2'') = Inr None \<and>
   tryParseRequestRuleExpr bad_escape_rule = Inl SyntaxError \<and>
   splitBillingExprAndRequestRules (combineBillingExpr sample_base bad_escape_rule) = Inl SyntaxError"
  by (intro conjI) code_simp+

section \<open>Normal form and completeness of conditions\<close>

fun valid_condition :: "requestCondition \<Rightarrow> bool" where
  "valid_condition (Time_condition t) \<longleftrightarrow> ti_timeFunc t \<in> set TIME_FUNCS \<and> ti_timezone t \<noteq> [] \<and>
     ti_mode t \<in> fst ` set (getRequestRuleMatchOptions SOURCE_TIME)"
| "valid_condition (Request_condition c) \<longleftrightarrow> ph_source c \<in> {SOURCE_PARAM, SOURCE_HEADER} \<and>
     ph_mode c \<in> fst ` set (getRequestRuleMatchOptions (ph_source c))"

lemma sources_differ: "SOURCE_TIME \<noteq> SOURCE_HEADER" "SOURCE_TIME \<noteq> SOURCE_PARAM" "SOURCE_HEADER \<noteq> SOURCE_PARAM"
  by (simp_all add: SOURCE_TIME_def SOURCE_HEADER_def SOURCE_PARAM_def)

lemma option_mode_valid:
  "dflt \<in> fst ` set (getRequestRuleMatchOptions source) \<Longrightarrow>
     option_mode source m dflt \<in> fst ` set (getRequestRuleMatchOptions source)"
  by (simp add: option_mode_def split: option.split)

lemma default_modes: "MATCH_GTE \<in> fst ` set (getRequestRuleMatchOptions SOURCE_TIME)"
  "s \<noteq> SOURCE_TIME \<Longrightarrow> MATCH_EQ \<in> fst ` set (getRequestRuleMatchOptions s)"
  by (simp_all add: getRequestRuleMatchOptions_def base_options_def)

text \<open>Whatever parts a condition lacks or has wrong, its normal form has a known source, a mode that
  the source offers, and for a time condition a known function and a time zone; a condition that is in
  normal form is kept.\<close>

theorem normalize_condition_exact:
  "valid_condition (normalizeCondition c) \<and>
   normalizeCondition (Some (partial_of (normalizeCondition c))) = normalizeCondition c"
proof -
  have h: "js ''hour'' \<in> set TIME_FUNCS" by (simp add: TIME_FUNCS_def)
  have v: "valid_condition (normalizeCondition c)"
    using sources_differ h
    by (auto simp: normalizeCondition_def condition_source_def Let_def filled_text_def given_text_def isTimeFunc_def
        option_mode_valid default_modes split: option.splits)
  have kept: "normalizeCondition (Some (partial_of d)) = d" if "valid_condition d" for d
    using that sources_differ
    by (cases d) (auto simp: normalizeCondition_def condition_source_def Let_def filled_text_def given_text_def
        isTimeFunc_def option_mode_def)
  show ?thesis using v kept [OF v] by blast
qed

text \<open>A condition whose text is not empty.\<close>

fun complete_condition :: "requestCondition \<Rightarrow> bool" where
  "complete_condition (Time_condition t) \<longleftrightarrow>
     (if ti_mode t = MATCH_RANGE then numeric (trim (ti_rangeStart t)) \<and> numeric (trim (ti_rangeEnd t))
      else numeric (trim (ti_value t)))"
| "complete_condition (Request_condition c) \<longleftrightarrow> trim (ph_path c) \<noteq> [] \<and>
     (if ph_mode c \<in> {MATCH_GT, MATCH_GTE, MATCH_LT, MATCH_LTE} then numeric (trim (ph_value c)) else True)"

text \<open>The type of the source: param or header when the condition is none of time.\<close>

fun source_typed :: "requestCondition \<Rightarrow> bool" where
  "source_typed (Time_condition t) \<longleftrightarrow> True"
| "source_typed (Request_condition c) \<longleftrightarrow> ph_source c \<in> {SOURCE_PARAM, SOURCE_HEADER}"

lemma normalize_time: "\<exists>n. normalizeCondition (Some (partial_of (Time_condition t))) = Time_condition n"
  by (simp add: normalizeCondition_def condition_source_def Let_def)

lemma normalize_request: "source_typed (Request_condition c) \<Longrightarrow>
    \<exists>n. normalizeCondition (Some (partial_of (Request_condition c))) = Request_condition n"
  using sources_differ by (auto simp: normalizeCondition_def condition_source_def Let_def)

lemma time_expr_iff: "time_expr n \<noteq> [] \<longleftrightarrow> complete_condition (Time_condition n)"
  by (simp add: time_expr_def Let_def)

lemma request_expr_iff: "request_expr n \<noteq> [] \<longleftrightarrow> complete_condition (Request_condition n)"
  by (simp add: request_expr_def Let_def match_modes)

lemma build_condition_empty_iff:
  "source_typed c \<Longrightarrow>
     buildRequestConditionExpr c \<noteq> [] \<longleftrightarrow> complete_condition (normalizeCondition (Some (partial_of c)))"
proof (cases c)
  case (Time_condition t)
  then show ?thesis using normalize_time [of t]
    by (auto simp: buildTimeConditionExpr_def time_expr_iff [symmetric] simp del: complete_condition.simps partial_of.simps)
next
  case (Request_condition r)
  assume "source_typed c"
  then show ?thesis using normalize_request [of r] Request_condition
    by (auto simp: request_expr_iff [symmetric] simp del: complete_condition.simps partial_of.simps source_typed.simps)
qed

text \<open>A group is written exactly when its multiplier is a number and one of its conditions is
  complete; other groups, and incomplete conditions of a written group, are left out.\<close>

theorem rule_factor_written_iff:
  assumes "\<And>c. c \<in> set (rg_conditions g) \<Longrightarrow> source_typed c"
  shows "buildRuleGroupFactor g \<noteq> [] \<longleftrightarrow> numeric (trim (rg_multiplier g)) \<and>
     (\<exists>c \<in> set (rg_conditions g). complete_condition (normalizeCondition (Some (partial_of c))))"
proof -
  have "filter (\<lambda>e. e \<noteq> []) (map buildRequestConditionExpr (rg_conditions g)) \<noteq> [] \<longleftrightarrow>
    (\<exists>c \<in> set (rg_conditions g). complete_condition (normalizeCondition (Some (partial_of c))))"
    using assms build_condition_empty_iff by (simp add: filter_empty_conv)
  then show ?thesis by (simp add: buildRuleGroupFactor_def Let_def) blast
qed

theorem rule_factor_written_iff_witness:
  "numeric (trim (rg_multiplier sample_group)) \<and> (\<exists>c \<in> set (rg_conditions sample_group).
     complete_condition (normalizeCondition (Some (partial_of c))))"
proof -
  have typed: "source_typed c" if "c \<in> set (rg_conditions sample_group)" for c
    using that by (auto simp: sample_group_def request_condition_def)
  have "buildRuleGroupFactor sample_group \<noteq> []" by code_simp
  then show ?thesis using rule_factor_written_iff [OF typed, of sample_group] by simp
qed

section \<open>Joined rules are read one by one\<close>

lemma rule_part_factor:
  assumes "hasFullOuterParens r" "rule_part r"
  shows "\<exists>g. tryParseRuleGroupFactor r = Inr (Some g)"
proof -
  have t: "trim r = r" "r \<noteq> []" using wrapped_trimmed [OF assms(1)] by (simp_all add: trim_trimmed)
  have "splitTopLevelMultiply r = [r]"
    using mul_sep.split_parts_join [of "[r]"] assms(1) by (simp add: splitTopLevelMultiply_def)
  then have "tryParseRequestRuleExpr r = collect tryParseRuleGroupFactor [r]"
    using t by (simp add: tryParseRequestRuleExpr_def)
  then show ?thesis using assms(2) by (auto simp: rule_part_def split: sum.splits option.splits)
qed

lemma read_joined_rules:
  assumes "rules \<noteq> []" "\<And>r. r \<in> set rules \<Longrightarrow> hasFullOuterParens r \<and> rule_part r"
  shows "\<exists>gs. tryParseRequestRuleExpr (join (js '' * '') rules) = Inr (Some gs) \<and> length gs = length rules"
proof -
  have t: "trim (join (js '' * '') rules) = join (js '' * '') rules" "join (js '' * '') rules \<noteq> []"
    using trimmed_join_wrapped [of rules] assms by (auto simp: trim_trimmed)
  have sp: "splitTopLevelMultiply (join (js '' * '') rules) = rules"
    unfolding splitTopLevelMultiply_def by (rule mul_sep.split_parts_join) (use assms in auto)
  have "(\<And>r. r \<in> set rs \<Longrightarrow> \<exists>g. tryParseRuleGroupFactor r = Inr (Some g)) \<Longrightarrow>
      \<exists>gs. collect tryParseRuleGroupFactor rs = Inr (Some gs) \<and> length gs = length rs" for rs
    by (induction rs) fastforce+
  then show ?thesis using assms rule_part_factor t sp by (simp add: tryParseRequestRuleExpr_def)
qed

end
