(* ===== verification/ParamOverride.thy ===== *)
theory ParamOverride
  imports JsonPretty JsCoerce
begin

text \<open>
  The rules of a channel that override request parameters, as the dialog
  features/channels/components/dialogs/param-override-editor-dialog.tsx reads, checks and writes them:
  conditions and operations, the modes and what each needs, the templates, reading a saved text,
  validating the rules and printing them. An id is made of the clock and of a counter, which every
  function that makes one takes and returns.
\<close>

section \<open>Rules and their modes\<close>

record condition =
  oc_id :: jstr
  oc_path :: jstr
  oc_mode :: jstr
  oc_value_text :: jstr
  oc_invert :: bool
  oc_pass_missing_key :: bool

record operation =
  op_id :: jstr
  op_description :: jstr
  op_path :: jstr
  op_mode :: jstr
  op_from :: jstr
  op_to :: jstr
  op_value_text :: jstr
  op_keep_origin :: bool
  op_logic :: jstr
  op_conditions :: "condition list"

definition OPERATION_MODE_OPTIONS :: "(jstr \<times> jstr) list" where
  "OPERATION_MODE_OPTIONS =
    [(js ''set'', js ''Set Field''), (js ''delete'', js ''Delete Field''),
     (js ''append'', js ''Append to End''), (js ''prepend'', js ''Prepend to Start''),
     (js ''copy'', js ''Copy Field''), (js ''move'', js ''Move Field''),
     (js ''replace'', js ''String Replace''), (js ''regex_replace'', js ''Regex Replace''),
     (js ''trim_prefix'', js ''Trim Prefix''), (js ''trim_suffix'', js ''Trim Suffix''),
     (js ''ensure_prefix'', js ''Ensure Prefix''), (js ''ensure_suffix'', js ''Ensure Suffix''),
     (js ''trim_space'', js ''Trim Space''), (js ''to_lower'', js ''To Lowercase''),
     (js ''to_upper'', js ''To Uppercase''), (js ''return_error'', js ''Return Custom Error''),
     (js ''prune_objects'', js ''Prune Object Items''),
     (js ''pass_headers'', js ''Pass Through Headers''), (js ''sync_fields'', js ''Sync Fields''),
     (js ''set_header'', js ''Set Request Header''),
     (js ''delete_header'', js ''Delete Request Header''),
     (js ''copy_header'', js ''Copy Request Header''),
     (js ''move_header'', js ''Move Request Header'')]"

definition OPERATION_MODE_VALUES :: "jstr list" where
  "OPERATION_MODE_VALUES = map fst OPERATION_MODE_OPTIONS"

definition OPERATION_MODE_LABEL :: "jstr \<Rightarrow> jstr" where
  "OPERATION_MODE_LABEL mode =
     (case map_of OPERATION_MODE_OPTIONS mode of Some l \<Rightarrow> l | None \<Rightarrow> mode)"

definition CONDITION_MODE_VALUES :: "jstr list" where
  "CONDITION_MODE_VALUES = [js ''full'', js ''prefix'', js ''suffix'', js ''contains'', js ''gt'',
     js ''gte'', js ''lt'', js ''lte'']"

text \<open>What a mode uses. The field \<open>to\<close> has three cases: absent, false (optional) and true.\<close>

record mode_meta =
  mm_path :: bool
  mm_pathOptional :: bool
  mm_value :: bool
  mm_from :: bool
  mm_to :: "bool option"
  mm_keepOrigin :: bool
  mm_pathAlias :: bool

definition no_meta :: mode_meta where
  "no_meta = \<lparr>mm_path = False, mm_pathOptional = False, mm_value = False, mm_from = False,
     mm_to = None, mm_keepOrigin = False, mm_pathAlias = False\<rparr>"

definition path_meta :: mode_meta where
  "path_meta = no_meta\<lparr>mm_path := True\<rparr>"

definition path_value_meta :: mode_meta where
  "path_value_meta = path_meta\<lparr>mm_value := True\<rparr>"

definition set_meta :: mode_meta where
  "set_meta = path_value_meta\<lparr>mm_keepOrigin := True\<rparr>"

definition from_to_meta :: mode_meta where
  "from_to_meta = no_meta\<lparr>mm_from := True, mm_to := Some True\<rparr>"

definition replace_meta :: mode_meta where
  "replace_meta = path_meta\<lparr>mm_from := True, mm_to := Some False\<rparr>"

definition header_alias_meta :: mode_meta where
  "header_alias_meta = from_to_meta\<lparr>mm_keepOrigin := True, mm_pathAlias := True\<rparr>"

definition MODE_META :: "(jstr \<times> mode_meta) list" where
  "MODE_META =
    [(js ''delete'', path_meta), (js ''set'', set_meta), (js ''append'', set_meta),
     (js ''prepend'', set_meta), (js ''copy'', from_to_meta), (js ''move'', from_to_meta),
     (js ''replace'', replace_meta), (js ''regex_replace'', replace_meta),
     (js ''trim_prefix'', path_value_meta), (js ''trim_suffix'', path_value_meta),
     (js ''ensure_prefix'', path_value_meta), (js ''ensure_suffix'', path_value_meta),
     (js ''trim_space'', path_meta), (js ''to_lower'', path_meta), (js ''to_upper'', path_meta),
     (js ''return_error'', no_meta\<lparr>mm_value := True\<rparr>),
     (js ''prune_objects'', no_meta\<lparr>mm_pathOptional := True, mm_value := True\<rparr>),
     (js ''pass_headers'', no_meta\<lparr>mm_value := True, mm_keepOrigin := True\<rparr>),
     (js ''sync_fields'', from_to_meta), (js ''set_header'', set_meta),
     (js ''delete_header'', path_meta), (js ''copy_header'', header_alias_meta),
     (js ''move_header'', header_alias_meta)]"

definition meta_of :: "jstr \<Rightarrow> mode_meta" where
  "meta_of mode = (case map_of MODE_META mode of Some m \<Rightarrow> m | None \<Rightarrow> set_meta)"

definition VALUE_REQUIRED_MODES :: "jstr list" where
  "VALUE_REQUIRED_MODES = [js ''trim_prefix'', js ''trim_suffix'', js ''ensure_prefix'',
     js ''ensure_suffix'', js ''set_header'', js ''return_error'', js ''prune_objects'',
     js ''pass_headers'']"

definition FROM_REQUIRED_MODES :: "jstr list" where
  "FROM_REQUIRED_MODES = [js ''copy'', js ''move'', js ''replace'', js ''regex_replace'',
     js ''copy_header'', js ''move_header'', js ''sync_fields'']"

definition TO_REQUIRED_MODES :: "jstr list" where
  "TO_REQUIRED_MODES = [js ''copy'', js ''move'', js ''copy_header'', js ''move_header'',
     js ''sync_fields'']"

text \<open>\<open>operation.mode || 'set'\<close>.\<close>

definition the_mode :: "operation \<Rightarrow> jstr" where
  "the_mode op = (if op_mode op = [] then js ''set'' else op_mode op)"

section \<open>Ids, texts and values\<close>

text \<open>\<open>clk n\<close> is Date.now() when the n-th id is made.\<close>

definition nextLocalId :: "(nat \<Rightarrow> nat) \<Rightarrow> nat \<Rightarrow> jstr" where
  "nextLocalId clk n = js ''po_'' @ nat_digits (clk n) @ js ''_'' @ nat_digits n"

definition toValueText :: "jsval \<Rightarrow> jstr" where
  "toValueText v = (case v of VUndef \<Rightarrow> [] | VStr s \<Rightarrow> s | _ \<Rightarrow> stringify v)"

definition parseLooseValue :: "jstr \<Rightarrow> jsval" where
  "parseLooseValue s = (let raw = trim s in
     if raw = [] then VStr []
     else case json_parse raw of Some v \<Rightarrow> v | None \<Rightarrow> VStr raw)"

definition verifyJSON :: "jstr \<Rightarrow> bool" where
  "verifyJSON s \<longleftrightarrow> json_parse s \<noteq> None"

definition str_field :: "jsval \<Rightarrow> jstr \<Rightarrow> jstr" where
  "str_field v k = (case js_prop v k of VStr s \<Rightarrow> s | _ \<Rightarrow> [])"

definition mode_field :: "jstr list \<Rightarrow> jstr \<Rightarrow> jsval \<Rightarrow> jstr" where
  "mode_field known d v = (case js_prop v (js ''mode'') of
     VStr s \<Rightarrow> if s \<in> set known then s else d | _ \<Rightarrow> d)"

definition true_field :: "jsval \<Rightarrow> jstr \<Rightarrow> bool" where
  "true_field v k \<longleftrightarrow> js_prop v k = VBool True"

definition upper_ascii :: "jstr \<Rightarrow> jstr" where
  "upper_ascii s = map (\<lambda>c. if 97 \<le> c \<and> c \<le> 122 then c - 32 else c) s"

text \<open>Reading a property of null throws; an argument that is undefined is replaced by \<open>{}\<close>.
  The error a function throws is a value on the left.\<close>

datatype editor_error = TypeError | Error jstr

definition arg_object :: "jsval \<Rightarrow> editor_error + jsval" where
  "arg_object v = (case v of VUndef \<Rightarrow> Inr (VObj []) | VNull \<Rightarrow> Inl TypeError | _ \<Rightarrow> Inr v)"

definition condition_of :: "jstr \<Rightarrow> jsval \<Rightarrow> condition" where
  "condition_of i v =
     \<lparr>oc_id = i, oc_path = str_field v (js ''path''),
      oc_mode = mode_field CONDITION_MODE_VALUES (js ''full'') v,
      oc_value_text = toValueText (js_prop v (js ''value'')),
      oc_invert = true_field v (js ''invert''),
      oc_pass_missing_key = true_field v (js ''pass_missing_key'')\<rparr>"

definition normalizeOverrideCondition :: "(nat \<Rightarrow> nat) \<Rightarrow> jsval \<Rightarrow> nat \<Rightarrow> editor_error + condition \<times> nat" where
  "normalizeOverrideCondition clk v n = (case arg_object v of Inl e \<Rightarrow> Inl e
     | Inr ob \<Rightarrow> Inr (condition_of (nextLocalId clk n) ob, Suc n))"

definition createDefaultCondition :: "(nat \<Rightarrow> nat) \<Rightarrow> nat \<Rightarrow> condition \<times> nat" where
  "createDefaultCondition clk n = (condition_of (nextLocalId clk n) (VObj []), Suc n)"

text \<open>\<open>Array.map\<close> with a function that makes ids and may throw: elements are converted in order,
  the first error ends it.\<close>

fun map_make :: "(jsval \<Rightarrow> nat \<Rightarrow> editor_error + 'a \<times> nat) \<Rightarrow> jsval list \<Rightarrow> nat \<Rightarrow>
    editor_error + 'a list \<times> nat" where
  "map_make f [] n = Inr ([], n)"
| "map_make f (v # vs) n = (case f v n of Inl e \<Rightarrow> Inl e
     | Inr (x, n1) \<Rightarrow> (case map_make f vs n1 of Inl e \<Rightarrow> Inl e | Inr (xs, n2) \<Rightarrow> Inr (x # xs, n2)))"

definition logic_field :: "jsval \<Rightarrow> jstr" where
  "logic_field v =
     (if upper_ascii (to_str (js_or (js_prop v (js ''logic'')) (VStr (js ''OR'')))) = js ''AND''
      then js ''AND'' else js ''OR'')"

definition operation_of :: "jstr \<Rightarrow> jsval \<Rightarrow> condition list \<Rightarrow> operation" where
  "operation_of i v cs =
     \<lparr>op_id = i, op_description = str_field v (js ''description''),
      op_path = str_field v (js ''path''),
      op_mode = mode_field OPERATION_MODE_VALUES (js ''set'') v,
      op_from = str_field v (js ''from''), op_to = str_field v (js ''to''),
      op_value_text = toValueText (js_prop v (js ''value'')),
      op_keep_origin = true_field v (js ''keep_origin''),
      op_logic = logic_field v, op_conditions = cs\<rparr>"

definition normalizeOperation :: "(nat \<Rightarrow> nat) \<Rightarrow> jsval \<Rightarrow> nat \<Rightarrow> editor_error + operation \<times> nat" where
  "normalizeOperation clk v n = (case arg_object v of Inl e \<Rightarrow> Inl e
     | Inr ob \<Rightarrow>
         (case (case js_prop ob (js ''conditions'') of
                  VArr vs \<Rightarrow> map_make (normalizeOverrideCondition clk) vs (Suc n)
                | _ \<Rightarrow> Inr ([], Suc n)) of
            Inl e \<Rightarrow> Inl e
          | Inr (cs, n') \<Rightarrow> Inr (operation_of (nextLocalId clk n) ob cs, n')))"

definition createDefaultOperation :: "(nat \<Rightarrow> nat) \<Rightarrow> nat \<Rightarrow> operation \<times> nat" where
  "createDefaultOperation clk n =
     (operation_of (nextLocalId clk n) (VObj [(js ''mode'', VStr (js ''set''))]) [], Suc n)"

section \<open>Blank rules, order and labels\<close>

definition condition_filled :: "condition \<Rightarrow> bool" where
  "condition_filled c \<longleftrightarrow> trim (oc_path c) \<noteq> [] \<or> trim (oc_value_text c) \<noteq> [] \<or>
     oc_mode c \<noteq> js ''full'' \<or> oc_invert c \<or> oc_pass_missing_key c"

definition isOperationBlank :: "operation \<Rightarrow> bool" where
  "isOperationBlank op \<longleftrightarrow> op_mode op = js ''set'' \<and> trim (op_path op) = [] \<and>
     trim (op_from op) = [] \<and> trim (op_to op) = [] \<and> trim (op_value_text op) = [] \<and>
     \<not> op_keep_origin op \<and> \<not> list_ex condition_filled (op_conditions op)"

fun find_index :: "('a \<Rightarrow> bool) \<Rightarrow> 'a list \<Rightarrow> nat option" where
  "find_index P [] = None"
| "find_index P (x # xs) = (if P x then Some 0 else map_option Suc (find_index P xs))"

datatype drop_position = Before | After

text \<open>\<open>splice\<close> takes the rule out and puts it back beside the target.\<close>

definition reorderOperations :: "operation list \<Rightarrow> jstr \<Rightarrow> jstr \<Rightarrow> drop_position \<Rightarrow> operation list" where
  "reorderOperations ops sourceId targetId position =
     (if sourceId = [] \<or> targetId = [] \<or> sourceId = targetId then ops
      else case find_index (\<lambda>p. op_id p = sourceId) ops of None \<Rightarrow> ops
       | Some i \<Rightarrow>
           (let moved = ops ! i; nxt = take i ops @ drop (Suc i) ops in
            case find_index (\<lambda>p. op_id p = targetId) nxt of None \<Rightarrow> ops
             | Some j \<Rightarrow> (let k = (if position = After then j + 1 else j) in
                 take k nxt @ [moved] @ drop k nxt)))"

definition first_text :: "jstr list \<Rightarrow> jstr" where
  "first_text ts = (case filter (\<lambda>t. t \<noteq> []) ts of [] \<Rightarrow> js ''-'' | t # _ \<Rightarrow> t)"

definition getOperationSummary :: "operation \<Rightarrow> nat \<Rightarrow> jstr" where
  "getOperationSummary op index =
     (let mode = the_mode op; from = trim (op_from op); to = trim (op_to op) in
      nat_digits (index + 1) @ js ''. '' @ OPERATION_MODE_LABEL mode @ [32, 183, 32] @
      (if mode = js ''sync_fields'' then first_text [from, to]
       else first_text [trim (op_path op), from, to]))"

datatype mode_tag = Tag_header | Tag_text | Tag_transfer | Tag_control | Tag_sync | Tag_muted

definition getModeTagTailwind :: "jstr \<Rightarrow> mode_tag" where
  "getModeTagTailwind mode =
     (if str_includes mode (js ''header'') then Tag_header
      else if str_includes mode (js ''replace'') \<or> str_includes mode (js ''trim'') then Tag_text
      else if str_includes mode (js ''copy'') \<or> str_includes mode (js ''move'') then Tag_transfer
      else if str_includes mode (js ''error'') \<or> str_includes mode (js ''prune'') then Tag_control
      else if str_includes mode (js ''sync'') then Tag_sync
      else Tag_muted)"

definition getModePathLabel :: "jstr \<Rightarrow> jstr" where
  "getModePathLabel mode =
     (if mode = js ''set_header'' \<or> mode = js ''delete_header'' then js ''Header Name''
      else if mode = js ''prune_objects'' then js ''Target Path (optional)''
      else js ''Target Field Path'')"

definition getModePathPlaceholder :: "jstr \<Rightarrow> jstr" where
  "getModePathPlaceholder mode =
     (if mode = js ''set_header'' then js ''Authorization''
      else if mode = js ''delete_header'' then js ''X-Debug-Mode''
      else if mode = js ''prune_objects'' then js ''messages''
      else js ''temperature'')"

definition getModeFromLabel :: "jstr \<Rightarrow> jstr" where
  "getModeFromLabel mode =
     (if mode = js ''replace'' then js ''Match Text''
      else if mode = js ''regex_replace'' then js ''Regex Pattern''
      else if mode = js ''copy_header'' \<or> mode = js ''move_header'' then js ''Source Header''
      else js ''Source Field'')"

definition getModeFromPlaceholder :: "jstr \<Rightarrow> jstr" where
  "getModeFromPlaceholder mode =
     (if mode = js ''replace'' then js ''openai/''
      else if mode = js ''regex_replace'' then js ''^gpt-''
      else if mode = js ''copy_header'' \<or> mode = js ''move_header'' then js ''Authorization''
      else js ''model'')"

definition getModeToLabel :: "jstr \<Rightarrow> jstr" where
  "getModeToLabel mode =
     (if mode = js ''replace'' \<or> mode = js ''regex_replace'' then js ''Replace With''
      else if mode = js ''copy_header'' \<or> mode = js ''move_header'' then js ''Target Header''
      else js ''Target Field'')"

definition getModeToPlaceholder :: "jstr \<Rightarrow> jstr" where
  "getModeToPlaceholder mode =
     (if mode = js ''replace'' then js ''(leave empty to delete)''
      else if mode = js ''regex_replace'' then js ''openai/gpt-''
      else if mode = js ''copy_header'' \<or> mode = js ''move_header'' then js ''X-Upstream-Auth''
      else js ''original_model'')"

definition affix_modes :: "jstr list" where
  "affix_modes = [js ''trim_prefix'', js ''trim_suffix'', js ''ensure_prefix'', js ''ensure_suffix'']"

definition getModeValueLabel :: "jstr \<Rightarrow> jstr" where
  "getModeValueLabel mode =
     (if mode = js ''set_header'' then js ''Header Value (supports string or JSON mapping)''
      else if mode = js ''pass_headers'' then js ''Pass-through Headers (comma-separated or JSON array)''
      else if mode \<in> set affix_modes then js ''Prefix/Suffix Text''
      else if mode = js ''prune_objects'' then js ''Prune Rule (string or JSON object)''
      else js ''Value (supports JSON or plain text)'')"

definition getModeValuePlaceholder :: "jstr \<Rightarrow> jstr" where
  "getModeValuePlaceholder mode =
     (if mode = js ''set_header'' then js ''Bearer sk-xxx''
      else if mode = js ''pass_headers'' then js ''Authorization, X-Request-Id''
      else if mode \<in> set affix_modes then js ''openai/''
      else if mode = js ''prune_objects'' then js ''{'' @ [34] @ js ''type'' @ [34] @ js '':'' @ [34] @
        js ''redacted_thinking'' @ [34] @ js ''}''
      else js ''0.7'')"

section \<open>The payload of a rule\<close>

definition put_when :: "bool \<Rightarrow> jstr \<Rightarrow> jsval \<Rightarrow> jsobj \<Rightarrow> jsobj" where
  "put_when b k v ob = (if b then obj_set k v ob else ob)"

definition buildConditionPayload :: "condition \<Rightarrow> jsval option" where
  "buildConditionPayload c = (let path = trim (oc_path c) in
     if path = [] then None
     else Some (VObj (put_when (oc_pass_missing_key c) (js ''pass_missing_key'') (VBool True)
       (put_when (oc_invert c) (js ''invert'') (VBool True)
         [(js ''path'', VStr path),
          (js ''mode'', VStr (if oc_mode c = [] then js ''full'' else oc_mode c)),
          (js ''value'', parseLooseValue (oc_value_text c))]))))"

text \<open>The assignments, in the order the code makes them. With \<open>pathAlias\<close> a path stands in for an
  empty \<open>from\<close> or \<open>to\<close>.\<close>

definition operation_payload :: "operation \<Rightarrow> jsval" where
  "operation_payload op =
     (let mode = the_mode op; meta = meta_of mode;
          description = trim (op_description op); path = trim (op_path op);
          from = trim (op_from op); to = trim (op_to op);
          p1 = put_when (description \<noteq> []) (js ''description'') (VStr description) [(js ''mode'', VStr mode)];
          p2 = put_when (mm_path meta) (js ''path'') (VStr path) p1;
          p3 = put_when (mm_pathOptional meta \<and> path \<noteq> []) (js ''path'') (VStr path) p2;
          p4 = put_when (mm_value meta) (js ''value'') (parseLooseValue (op_value_text op)) p3;
          p5 = put_when (mm_keepOrigin meta \<and> op_keep_origin op) (js ''keep_origin'') (VBool True) p4;
          p6 = put_when (mm_from meta) (js ''from'') (VStr from) p5;
          p7 = put_when (mm_to meta \<noteq> Some True \<and> to \<noteq> []) (js ''to'') (VStr to) p6;
          p8 = put_when (mm_to meta = Some True) (js ''to'') (VStr to) p7;
          p9 = put_when (mm_pathAlias meta \<and> \<not> truthy (obj_get p8 (js ''from'')) \<and> path \<noteq> [])
                 (js ''from'') (VStr path) p8;
          p10 = put_when (mm_pathAlias meta \<and> \<not> truthy (obj_get p9 (js ''to'')) \<and> path \<noteq> [])
                 (js ''to'') (VStr path) p9;
          conditions = List.map_filter buildConditionPayload (op_conditions op)
      in VObj (if conditions = [] then p10
         else obj_set (js ''logic'')
                (VStr (if op_logic op = js ''AND'' then js ''AND'' else js ''OR''))
                (obj_set (js ''conditions'') (VArr conditions) p10)))"

section \<open>Validation\<close>

definition header_name :: "jsval \<Rightarrow> jstr" where
  "header_name v = trim (if nullish v then [] else to_str v)"

definition parsePassHeaderNames :: "jsval \<Rightarrow> jstr list" where
  "parsePassHeaderNames v = (case v of
     VArr vs \<Rightarrow> filter (\<lambda>t. t \<noteq> []) (map header_name vs)
   | VObj ob \<Rightarrow>
       (case obj_get ob (js ''headers'') of
          VArr vs \<Rightarrow> filter (\<lambda>t. t \<noteq> []) (map header_name vs)
        | _ \<Rightarrow>
            if obj_get ob (js ''header'') \<noteq> VUndef
            then (let single = header_name (obj_get ob (js ''header'')) in
                  if single = [] then [] else [single])
            else [])
   | VStr s \<Rightarrow> filter (\<lambda>t. t \<noteq> []) (map trim (split_on 44 s))
   | _ \<Rightarrow> [])"

text \<open>What is wrong with a rule, in the order of the checks.\<close>

datatype rule_error = Missing_path | Missing_source | Missing_target | Missing_value
  | Missing_message | Missing_conditions | Missing_headers | Bad_headers

definition return_error_lacks_message :: "jstr \<Rightarrow> bool" where
  "return_error_lacks_message raw = (case json_parse raw of
     Some (VObj ob) \<Rightarrow> trim (to_str (js_or (obj_get ob (js ''message'')) (VStr []))) = []
   | _ \<Rightarrow> False)"

definition rule_check :: "operation \<Rightarrow> rule_error option" where
  "rule_check op =
     (let mode = the_mode op; meta = meta_of mode; path = trim (op_path op);
          from = trim (op_from op); to = trim (op_to op); raw = trim (op_value_text op) in
      if mm_path meta \<and> path = [] then Some Missing_path
      else if mode \<in> set FROM_REQUIRED_MODES \<and> from = [] \<and> \<not> (mm_pathAlias meta \<and> path \<noteq> [])
        then Some Missing_source
      else if mode \<in> set TO_REQUIRED_MODES \<and> to = [] \<and> \<not> (mm_pathAlias meta \<and> path \<noteq> [])
        then Some Missing_target
      else if mode \<in> set VALUE_REQUIRED_MODES \<and> raw = [] then Some Missing_value
      else if mode = js ''return_error'' \<and> raw = [] then Some Missing_value
      else if mode = js ''return_error'' \<and> return_error_lacks_message raw then Some Missing_message
      else if mode = js ''prune_objects'' \<and> raw = [] then Some Missing_conditions
      else if mode = js ''pass_headers'' \<and> raw = [] then Some Missing_headers
      else if mode = js ''pass_headers'' \<and> parsePassHeaderNames (parseLooseValue raw) = []
        then Some Bad_headers
      else None)"

definition rule_error_key :: "rule_error \<Rightarrow> jstr" where
  "rule_error_key e = (case e of
     Missing_path \<Rightarrow> js ''Rule {{line}} is missing target path''
   | Missing_source \<Rightarrow> js ''Rule {{line}} is missing source field''
   | Missing_target \<Rightarrow> js ''Rule {{line}} is missing target field''
   | Missing_value \<Rightarrow> js ''Rule {{line}} is missing value''
   | Missing_message \<Rightarrow> js ''Rule {{line}} return_error requires a message field''
   | Missing_conditions \<Rightarrow> js ''Rule {{line}} prune_objects is missing conditions''
   | Missing_headers \<Rightarrow> js ''Rule {{line}} pass_headers is missing header names''
   | Bad_headers \<Rightarrow> js ''Rule {{line}} pass_headers format is invalid'')"

text \<open>\<open>tr key line\<close> is the translation \<open>t(key, {line})\<close>; the loop ends at the first rule with an
  error.\<close>

fun validate_from :: "(jstr \<Rightarrow> nat option \<Rightarrow> jstr) \<Rightarrow> nat \<Rightarrow> operation list \<Rightarrow> jstr" where
  "validate_from tr line [] = []"
| "validate_from tr line (op # ops) = (case rule_check op of
     Some e \<Rightarrow> tr (rule_error_key e) (Some line) | None \<Rightarrow> validate_from tr (Suc line) ops)"

definition validateOperations :: "(jstr \<Rightarrow> nat option \<Rightarrow> jstr) \<Rightarrow> operation list \<Rightarrow> jstr" where
  "validateOperations tr ops = validate_from tr 1 ops"

definition buildOperationsJson ::
  "(jstr \<Rightarrow> nat option \<Rightarrow> jstr) \<Rightarrow> operation list \<Rightarrow> bool \<Rightarrow> editor_error + jstr" where
  "buildOperationsJson tr ops validate =
     (let filtered = filter (\<lambda>p. \<not> isOperationBlank p) ops in
      if filtered = [] then Inr []
      else let message = (if validate then validateOperations tr filtered else []) in
        if message \<noteq> [] then Inl (Error message)
        else Inr (stringify2 (VObj [(js ''operations'', VArr (map operation_payload filtered))])))"

section \<open>Reading the saved text\<close>

datatype edit_mode = Visual | Json
datatype visual_mode = Operations | Legacy

record initial_state =
  in_editMode :: edit_mode
  in_visualMode :: visual_mode
  in_legacyValue :: jstr
  in_operations :: "operation list"
  in_jsonText :: jstr
  in_jsonError :: jstr

definition initial_with :: "edit_mode \<Rightarrow> visual_mode \<Rightarrow> jstr \<Rightarrow> jstr \<Rightarrow> jstr \<Rightarrow> operation list \<times> nat \<Rightarrow>
    editor_error + initial_state \<times> nat" where
  "initial_with em vm legacy text err r =
     Inr (\<lparr>in_editMode = em, in_visualMode = vm, in_legacyValue = legacy, in_operations = fst r,
       in_jsonText = text, in_jsonError = err\<rparr>, snd r)"

definition default_operations :: "(nat \<Rightarrow> nat) \<Rightarrow> nat \<Rightarrow> operation list \<times> nat" where
  "default_operations clk n = (case createDefaultOperation clk n of (d, m) \<Rightarrow> ([d], m))"

text \<open>The rules of a parsed text, or one default rule when there are none.\<close>

definition read_operations :: "(nat \<Rightarrow> nat) \<Rightarrow> jsval list \<Rightarrow> nat \<Rightarrow> editor_error + operation list \<times> nat" where
  "read_operations clk vs n =
     (if vs = [] then Inr (default_operations clk n) else map_make (normalizeOperation clk) vs n)"

definition parseInitialState :: "(nat \<Rightarrow> nat) \<Rightarrow> jstr \<Rightarrow> nat \<Rightarrow> editor_error + initial_state \<times> nat" where
  "parseInitialState clk text n =
     (let trimmed = trim text in
      if trimmed = [] then initial_with Visual Operations [] [] [] (default_operations clk n)
      else case json_parse trimmed of
        None \<Rightarrow> initial_with Json Operations [] text (js ''Invalid JSON format'') (default_operations clk n)
      | Some v \<Rightarrow>
          (let txt = stringify2 v in
           case v of
             VObj ob \<Rightarrow>
               (case obj_get ob (js ''operations'') of
                  VArr vs \<Rightarrow> (case read_operations clk vs n of Inl e \<Rightarrow> Inl e
                     | Inr r \<Rightarrow> initial_with Visual Operations [] txt [] r)
                | _ \<Rightarrow> initial_with Visual Legacy txt txt [] (default_operations clk n))
           | _ \<Rightarrow> initial_with Json Operations [] txt [] (default_operations clk n)))"

end
