(* ===== verification/ParamOverrideSave.thy ===== *)
theory ParamOverrideSave
  imports ParamOverride
begin

text \<open>
  Saving and reopening the rules of ParamOverride: what is written reads back as rules with the same payloads,
  the validation reports the first rule with an error, and moving a rule keeps the others in order.
\<close>

section \<open>Reading back one rule\<close>

lemma obj_get_put_when [simp]:
  "obj_get (put_when b k v ob) k' = (if b \<and> k' = k then v else obj_get ob k')"
  by (simp add: put_when_def)

lemma obj_get_Cons [simp]: "obj_get ((k, v) # ob) k' = (if k' = k then v else obj_get ob k')"
  by (simp add: obj_get_def)

lemma meta_of_in: "meta_of mode \<in> set (map snd MODE_META)"
proof (cases "map_of MODE_META mode")
  case None then show ?thesis by (simp add: meta_of_def MODE_META_def)
next
  case (Some m)
  then have "(mode, m) \<in> set MODE_META" by (rule map_of_SomeD)
  with Some show ?thesis by (force simp: meta_of_def)
qed

lemmas meta_defs = no_meta_def path_meta_def path_value_meta_def set_meta_def from_to_meta_def replace_meta_def
  header_alias_meta_def

lemma metas_alias: "list_all (\<lambda>m. (mm_pathAlias m \<longrightarrow> mm_from m \<and> mm_to m = Some True \<and> \<not> mm_path m \<and> \<not> mm_pathOptional m) \<and>
    \<not> (mm_path m \<and> mm_pathOptional m)) (map snd MODE_META)"
  by (simp add: MODE_META_def meta_defs)

lemma meta_alias: "mm_pathAlias (meta_of mode) \<Longrightarrow>
    mm_from (meta_of mode) \<and> mm_to (meta_of mode) = Some True \<and>
    \<not> mm_path (meta_of mode) \<and> \<not> mm_pathOptional (meta_of mode)"
  using metas_alias meta_of_in [of mode] unfolding list_all_iff by blast

lemma meta_path: "mm_path (meta_of mode) \<Longrightarrow> \<not> mm_pathOptional (meta_of mode)"
  using metas_alias meta_of_in [of mode] unfolding list_all_iff by blast

lemma obj_set_again [simp]: "obj_set k v (obj_set k u ob) = obj_set k v ob"
  by (simp add: obj_set_def)

lemma obj_set_swap: "k \<noteq> k' \<Longrightarrow> obj_set k v (obj_set k' w (obj_set k u ob)) = obj_set k' w (obj_set k v ob)"
  unfolding obj_set_def by (induction ob) auto

definition stable_text :: "jstr \<Rightarrow> bool" where
  "stable_text s \<longleftrightarrow> json_ok (parseLooseValue s) \<and>
     parseLooseValue (toValueText (parseLooseValue s)) = parseLooseValue s"

definition condition_ok :: "condition \<Rightarrow> bool" where
  "condition_ok c \<longleftrightarrow> units (oc_path c) \<and> stable_text (oc_value_text c) \<and>
     oc_mode c \<in> set CONDITION_MODE_VALUES"

definition operation_ok :: "operation \<Rightarrow> bool" where
  "operation_ok op \<longleftrightarrow> op_mode op \<in> set OPERATION_MODE_VALUES \<and> units (op_description op) \<and>
     units (op_path op) \<and> units (op_from op) \<and> units (op_to op) \<and> stable_text (op_value_text op) \<and>
     (op_mode op \<in> set VALUE_REQUIRED_MODES \<longrightarrow> trim (toValueText (parseLooseValue (op_value_text op))) \<noteq> []) \<and>
     (\<forall>c \<in> set (op_conditions op). condition_ok c)"

lemma condition_mode_not_Nil: "[] \<notin> set CONDITION_MODE_VALUES"
  by (simp add: CONDITION_MODE_VALUES_def)

lemma operation_mode_not_Nil: "[] \<notin> set OPERATION_MODE_VALUES"
  by (simp add: OPERATION_MODE_VALUES_def OPERATION_MODE_OPTIONS_def)

lemma reopen_condition:
  assumes ok: "condition_ok c" and p: "buildConditionPayload c = Some v"
  shows "\<exists>c'. normalizeOverrideCondition clk v n = Inr (c', Suc n) \<and> buildConditionPayload c' = Some v"
proof -
  let ?t = "oc_value_text c"
  let ?ob = "put_when (oc_pass_missing_key c) (js ''pass_missing_key'') (VBool True)
    (put_when (oc_invert c) (js ''invert'') (VBool True)
      [(js ''path'', VStr (trim (oc_path c))), (js ''mode'', VStr (oc_mode c)), (js ''value'', parseLooseValue ?t)])"
  have mode: "oc_mode c \<noteq> []" "oc_mode c \<in> set CONDITION_MODE_VALUES"
    using ok condition_mode_not_Nil by (auto simp: condition_ok_def)
  have path: "trim (oc_path c) \<noteq> []" and v: "v = VObj ?ob"
    using p mode by (auto simp: buildConditionPayload_def Let_def split: if_splits)
  let ?c = "\<lparr>oc_id = nextLocalId clk n, oc_path = trim (oc_path c), oc_mode = oc_mode c,
    oc_value_text = toValueText (parseLooseValue ?t), oc_invert = oc_invert c, oc_pass_missing_key = oc_pass_missing_key c\<rparr>"
  have "condition_of (nextLocalId clk n) v = ?c"
    using mode unfolding v by (simp add: condition_of_def str_field_def mode_field_def true_field_def)
  then have "normalizeOverrideCondition clk v n = Inr (?c, Suc n)"
    unfolding v by (simp add: normalizeOverrideCondition_def arg_object_def)
  moreover have "buildConditionPayload ?c = Some v"
    using ok path mode unfolding v by (simp add: buildConditionPayload_def condition_ok_def stable_text_def)
  ultimately show ?thesis by blast
qed

lemma reopen_conditions:
  assumes "\<forall>c \<in> set cs. condition_ok c"
  shows "\<exists>cs' n'. map_make (normalizeOverrideCondition clk) (List.map_filter buildConditionPayload cs) n = Inr (cs', n') \<and>
    List.map_filter buildConditionPayload cs' = List.map_filter buildConditionPayload cs"
  using assms
proof (induction cs arbitrary: n)
  case Nil then show ?case by simp
next
  case (Cons c cs)
  show ?case
  proof (cases "buildConditionPayload c")
    case None
    with Cons.IH [of n] Cons.prems show ?thesis by simp
  next
    case (Some v)
    obtain c' where c': "normalizeOverrideCondition clk v n = Inr (c', Suc n)" "buildConditionPayload c' = Some v"
      using reopen_condition [OF _ Some, of clk n] Cons.prems by auto
    obtain cs' n' where "map_make (normalizeOverrideCondition clk) (List.map_filter buildConditionPayload cs) (Suc n) = Inr (cs', n')"
      "List.map_filter buildConditionPayload cs' = List.map_filter buildConditionPayload cs"
      using Cons.IH [of "Suc n"] Cons.prems by auto
    then show ?thesis using c' Some
      by (intro exI [of _ "c' # cs'"] exI [of _ n']) simp
  qed
qed

definition payload_object :: "operation \<Rightarrow> jsobj" where
  "payload_object op = obj_of (operation_payload op)"

lemma operation_payload_object: "operation_payload op = VObj (payload_object op)"
  by (simp add: payload_object_def obj_of_def operation_payload_def Let_def)

text \<open>What the properties of a payload are.\<close>

lemma payload_get:
  "obj_get (payload_object op) (js ''mode'') = VStr (the_mode op)"
  "obj_get (payload_object op) (js ''description'') =
     (if trim (op_description op) \<noteq> [] then VStr (trim (op_description op)) else VUndef)"
  "obj_get (payload_object op) (js ''path'') =
     (if mm_path (meta_of (the_mode op)) \<or> mm_pathOptional (meta_of (the_mode op)) \<and> trim (op_path op) \<noteq> []
      then VStr (trim (op_path op)) else VUndef)"
  "obj_get (payload_object op) (js ''value'') =
     (if mm_value (meta_of (the_mode op)) then parseLooseValue (op_value_text op) else VUndef)"
  "obj_get (payload_object op) (js ''keep_origin'') =
     (if mm_keepOrigin (meta_of (the_mode op)) \<and> op_keep_origin op then VBool True else VUndef)"
  "obj_get (payload_object op) (js ''conditions'') =
     (if List.map_filter buildConditionPayload (op_conditions op) = [] then VUndef
      else VArr (List.map_filter buildConditionPayload (op_conditions op)))"
  "obj_get (payload_object op) (js ''logic'') =
     (if List.map_filter buildConditionPayload (op_conditions op) = [] then VUndef
      else VStr (if op_logic op = js ''AND'' then js ''AND'' else js ''OR''))"
  by (simp_all add: payload_object_def obj_of_def operation_payload_def Let_def)

definition sent_from :: "operation \<Rightarrow> jstr" where
  "sent_from op = (if mm_pathAlias (meta_of (the_mode op)) \<and> trim (op_from op) = []
     then trim (op_path op) else trim (op_from op))"

definition sent_to :: "operation \<Rightarrow> jstr" where
  "sent_to op = (if mm_pathAlias (meta_of (the_mode op)) \<and> trim (op_to op) = []
     then trim (op_path op) else trim (op_to op))"

lemma payload_get_from_to:
  "obj_get (payload_object op) (js ''from'') =
     (if mm_from (meta_of (the_mode op)) then VStr (sent_from op) else VUndef)"
  "obj_get (payload_object op) (js ''to'') =
     (if mm_to (meta_of (the_mode op)) = Some True \<or> trim (op_to op) \<noteq> [] then VStr (sent_to op) else VUndef)"
  using meta_alias [of "the_mode op"]
  by (auto simp add: payload_object_def obj_of_def operation_payload_def Let_def sent_from_def sent_to_def)

text \<open>The payload in one pass: \<open>from\<close> and \<open>to\<close> are written once, with the text that is sent.\<close>

definition with_conditions :: "jstr \<Rightarrow> jsval list \<Rightarrow> jsobj \<Rightarrow> jsobj" where
  "with_conditions logic cs ob = (if cs = [] then ob
     else obj_set (js ''logic'') (VStr (if logic = js ''AND'' then js ''AND'' else js ''OR''))
            (obj_set (js ''conditions'') (VArr cs) ob))"

definition payload_base :: "jstr \<Rightarrow> jstr \<Rightarrow> jstr \<Rightarrow> jsval \<Rightarrow> bool \<Rightarrow> jstr \<Rightarrow> jstr \<Rightarrow> jsobj" where
  "payload_base mode description path val keep from to =
     (let meta = meta_of mode in
      put_when (mm_to meta = Some True \<or> to \<noteq> []) (js ''to'') (VStr to)
       (put_when (mm_from meta) (js ''from'') (VStr from)
         (put_when (mm_keepOrigin meta \<and> keep) (js ''keep_origin'') (VBool True)
           (put_when (mm_value meta) (js ''value'') val
             (put_when (mm_path meta \<or> mm_pathOptional meta \<and> path \<noteq> []) (js ''path'') (VStr path)
               (put_when (description \<noteq> []) (js ''description'') (VStr description) [(js ''mode'', VStr mode)]))))))"

lemma put_when_cases: "put_when True k v ob = obj_set k v ob" "put_when False k v ob = ob"
  by (simp_all add: put_when_def)

lemma put_when_merge: "\<not> (a \<and> b) \<Longrightarrow> put_when b k v (put_when a k v ob) = put_when (a \<or> b) k v ob"
  by (auto simp: put_when_def)

lemma put_when_alias:
  assumes "al \<Longrightarrow> mf \<and> mt" and "k \<noteq> k'"
    and q_def: "q = put_when mt k' (VStr t) (put_when mf k (VStr f) ob)"
    and r_def: "r = put_when (al \<and> \<not> truthy (obj_get q k) \<and> p \<noteq> []) k (VStr p) q"
  shows "put_when (al \<and> \<not> truthy (obj_get r k') \<and> p \<noteq> []) k' (VStr p) r =
    put_when mt k' (VStr (if al \<and> t = [] then p else t)) (put_when mf k (VStr (if al \<and> f = [] then p else f)) ob)"
proof (cases "al \<and> p \<noteq> []")
  case True
  then have "mf" "mt" using assms(1) by auto
  with True assms(2) show ?thesis
    by (cases "f = []"; cases "t = []") (simp_all add: q_def r_def put_when_cases obj_set_swap)
next
  case False
  then show ?thesis by (auto simp: q_def r_def put_when_def)
qed

lemma payload_base_eq:
  "operation_payload op = VObj (with_conditions (op_logic op) (List.map_filter buildConditionPayload (op_conditions op))
     (payload_base (the_mode op) (trim (op_description op)) (trim (op_path op))
        (parseLooseValue (op_value_text op)) (op_keep_origin op) (sent_from op) (sent_to op)))"
proof -
  let ?m = "meta_of (the_mode op)"
  have to: "(mm_to ?m = Some True \<or> sent_to op \<noteq> []) = (mm_to ?m \<noteq> Some True \<and> trim (op_to op) \<noteq> [] \<or> mm_to ?m = Some True)"
    using meta_alias [of "the_mode op"] by (auto simp: sent_to_def)
  have path: "put_when (mm_pathOptional ?m \<and> trim (op_path op) \<noteq> []) (js ''path'') v
      (put_when (mm_path ?m) (js ''path'') v ob) =
    put_when (mm_path ?m \<or> mm_pathOptional ?m \<and> trim (op_path op) \<noteq> []) (js ''path'') v ob" for v ob
    by (rule put_when_merge) (use meta_path in blast)
  have merge: "put_when (mm_to ?m = Some True) k v (put_when (mm_to ?m \<noteq> Some True \<and> trim (op_to op) \<noteq> []) k v ob) =
    put_when (mm_to ?m \<noteq> Some True \<and> trim (op_to op) \<noteq> [] \<or> mm_to ?m = Some True) k v ob" for k v ob
    by (rule put_when_merge) blast
  have al: "mm_pathAlias ?m \<Longrightarrow> mm_from ?m \<and> (mm_to ?m \<noteq> Some True \<and> trim (op_to op) \<noteq> [] \<or> mm_to ?m = Some True)"
    using meta_alias [of "the_mode op"] by auto
  have differ: "js ''from'' \<noteq> js ''to''" by simp
  show ?thesis
    unfolding operation_payload_def payload_base_def with_conditions_def Let_def to path merge
    unfolding sent_from_def sent_to_def
    by (simp only: put_when_alias [OF al differ refl refl])
qed

text \<open>The rule read from a payload.\<close>

lemma reopened_fields:
  assumes "op_mode op \<in> set OPERATION_MODE_VALUES"
  shows "op_mode (operation_of i (operation_payload op) cs) = the_mode op"
    "op_description (operation_of i (operation_payload op) cs) = trim (op_description op)"
    "op_path (operation_of i (operation_payload op) cs) =
       (if mm_path (meta_of (the_mode op)) \<or> mm_pathOptional (meta_of (the_mode op)) then trim (op_path op) else [])"
    "op_value_text (operation_of i (operation_payload op) cs) =
       (if mm_value (meta_of (the_mode op)) then toValueText (parseLooseValue (op_value_text op)) else [])"
    "op_keep_origin (operation_of i (operation_payload op) cs) =
       (mm_keepOrigin (meta_of (the_mode op)) \<and> op_keep_origin op)"
    "op_from (operation_of i (operation_payload op) cs) =
       (if mm_from (meta_of (the_mode op)) then sent_from op else [])"
    "op_to (operation_of i (operation_payload op) cs) =
       (if mm_to (meta_of (the_mode op)) = Some True \<or> trim (op_to op) \<noteq> [] then sent_to op else [])"
    "op_conditions (operation_of i (operation_payload op) cs) = cs"
proof -
  have "the_mode op = op_mode op" using assms operation_mode_not_Nil by (auto simp: the_mode_def)
  with assms show "op_mode (operation_of i (operation_payload op) cs) = the_mode op"
    by (simp add: operation_of_def operation_payload_object payload_get mode_field_def)
qed (simp_all add: operation_of_def operation_payload_object payload_get payload_get_from_to str_field_def
      true_field_def toValueText_def)

lemma reopened_logic:
  "op_logic (operation_of i (operation_payload op) cs) =
     (if op_logic op = js ''AND'' \<and> List.map_filter buildConditionPayload (op_conditions op) \<noteq> [] then js ''AND'' else js ''OR'')"
  by (auto simp: operation_of_def operation_payload_object payload_get logic_field_def js_or_def)
    (simp_all add: upper_ascii_def js_def)

lemma trim_sent [simp]: "trim (sent_from op) = sent_from op" "trim (sent_to op) = sent_to op"
  by (simp_all add: sent_from_def sent_to_def)

lemma payload_base_cong:
  assumes "mm_path (meta_of mode) \<or> mm_pathOptional (meta_of mode) \<Longrightarrow> path' = path"
    and "mm_value (meta_of mode) \<Longrightarrow> v' = v"
    and "mm_keepOrigin (meta_of mode) \<Longrightarrow> keep' = keep"
    and "mm_from (meta_of mode) \<Longrightarrow> from' = from"
    and "to' = to"
  shows "payload_base mode d path' v' keep' from' to' = payload_base mode d path v keep from to"
  using assms by (auto simp: payload_base_def put_when_def Let_def)

lemma reopened_mode:
  assumes "op_mode op \<in> set OPERATION_MODE_VALUES"
  shows "the_mode op = op_mode op" "the_mode (operation_of i (operation_payload op) cs) = op_mode op"
  using assms operation_mode_not_Nil by (auto simp: the_mode_def reopened_fields)

lemma reopened_sent:
  assumes "op_mode op \<in> set OPERATION_MODE_VALUES"
  shows "mm_from (meta_of (op_mode op)) \<Longrightarrow> sent_from (operation_of i (operation_payload op) cs) = sent_from op"
    "sent_to (operation_of i (operation_payload op) cs) = sent_to op"
  using assms meta_alias [of "op_mode op"]
  by (auto simp: sent_from_def [of "operation_of i (operation_payload op) cs"]
      sent_to_def [of "operation_of i (operation_payload op) cs"] reopened_mode reopened_fields)
    (auto simp: sent_from_def sent_to_def reopened_mode split: if_splits)

lemma reopened_payload:
  assumes ok: "operation_ok op"
    and cs: "List.map_filter buildConditionPayload cs = List.map_filter buildConditionPayload (op_conditions op)"
  shows "operation_payload (operation_of i (operation_payload op) cs) = operation_payload op"
proof -
  let ?o = "operation_of i (operation_payload op) cs"
  have m: "op_mode op \<in> set OPERATION_MODE_VALUES" using ok by (simp add: operation_ok_def)
  note mode = reopened_mode [OF m]
  have "payload_base (the_mode ?o) (trim (op_description ?o)) (trim (op_path ?o)) (parseLooseValue (op_value_text ?o))
      (op_keep_origin ?o) (sent_from ?o) (sent_to ?o) =
    payload_base (the_mode op) (trim (op_description op)) (trim (op_path op)) (parseLooseValue (op_value_text op))
      (op_keep_origin op) (sent_from op) (sent_to op)"
    unfolding mode reopened_fields(2) [OF m] trim_trim
    by (rule payload_base_cong)
      (use ok in \<open>auto simp: reopened_fields [OF m] reopened_sent [OF m] mode operation_ok_def stable_text_def\<close>)
  moreover have "with_conditions (op_logic ?o) cs' ob = with_conditions (op_logic op) cs' ob"
    if "cs' = List.map_filter buildConditionPayload (op_conditions op)" for cs' ob
    using that by (simp add: with_conditions_def reopened_logic)
  ultimately show ?thesis
    by (subst (1 2) payload_base_eq) (simp add: reopened_fields [OF m] cs)
qed

text \<open>A rule that was accepted is accepted when it is read back, and is not blank.\<close>

lemma loose_reopened:
  "stable_text s \<Longrightarrow> parsePassHeaderNames (parseLooseValue (trim (toValueText (parseLooseValue s)))) =
     parsePassHeaderNames (parseLooseValue (trim s))"
  by (simp add: stable_text_def parseLooseValue_def Let_def)

lemma lacks_message_reopened:
  assumes "stable_text s" "return_error_lacks_message (trim (toValueText (parseLooseValue s)))"
  shows "return_error_lacks_message (trim s)"
proof -
  obtain ob where ob: "json_parse (trim (toValueText (parseLooseValue s))) = Some (VObj ob)"
    using assms(2) by (auto simp: return_error_lacks_message_def split: option.splits jsval.splits)
  then have "parseLooseValue (toValueText (parseLooseValue s)) = VObj ob"
    by (auto simp: parseLooseValue_def [of "toValueText _"] Let_def parse_blank)
  then have "parseLooseValue s = VObj ob" using assms(1) by (simp add: stable_text_def)
  then have "json_parse (trim s) = Some (VObj ob)"
    by (auto simp: parseLooseValue_def Let_def split: if_splits option.splits)
  then show ?thesis using assms(2) ob by (simp add: return_error_lacks_message_def)
qed

lemma required_meta:
  "mode \<in> set VALUE_REQUIRED_MODES \<Longrightarrow> mm_value (meta_of mode)"
  "mode \<in> set FROM_REQUIRED_MODES \<Longrightarrow> mm_from (meta_of mode)"
  "mode \<in> set TO_REQUIRED_MODES \<Longrightarrow> mm_to (meta_of mode) = Some True"
proof -
  have "list_all (\<lambda>m. mm_value (meta_of m)) VALUE_REQUIRED_MODES"
    "list_all (\<lambda>m. mm_from (meta_of m)) FROM_REQUIRED_MODES"
    "list_all (\<lambda>m. mm_to (meta_of m) = Some True) TO_REQUIRED_MODES"
    by (simp_all add: VALUE_REQUIRED_MODES_def FROM_REQUIRED_MODES_def TO_REQUIRED_MODES_def meta_of_def MODE_META_def meta_defs)
  then show "mode \<in> set VALUE_REQUIRED_MODES \<Longrightarrow> mm_value (meta_of mode)"
    "mode \<in> set FROM_REQUIRED_MODES \<Longrightarrow> mm_from (meta_of mode)"
    "mode \<in> set TO_REQUIRED_MODES \<Longrightarrow> mm_to (meta_of mode) = Some True"
    by (simp_all add: list_all_iff)
qed

lemma value_modes: "js ''return_error'' \<in> set VALUE_REQUIRED_MODES" "js ''prune_objects'' \<in> set VALUE_REQUIRED_MODES"
    "js ''pass_headers'' \<in> set VALUE_REQUIRED_MODES"
  by (simp_all add: VALUE_REQUIRED_MODES_def)

lemma rule_check_None_iff:
  "rule_check op = None \<longleftrightarrow>
     (mm_path (meta_of (the_mode op)) \<longrightarrow> trim (op_path op) \<noteq> []) \<and>
     (the_mode op \<in> set FROM_REQUIRED_MODES \<longrightarrow> sent_from op \<noteq> []) \<and>
     (the_mode op \<in> set TO_REQUIRED_MODES \<longrightarrow> sent_to op \<noteq> []) \<and>
     (the_mode op \<in> set VALUE_REQUIRED_MODES \<longrightarrow> trim (op_value_text op) \<noteq> []) \<and>
     (the_mode op = js ''return_error'' \<longrightarrow> \<not> return_error_lacks_message (trim (op_value_text op))) \<and>
     (the_mode op = js ''pass_headers'' \<longrightarrow> parsePassHeaderNames (parseLooseValue (trim (op_value_text op))) \<noteq> [])"
  using value_modes by (auto simp: rule_check_def Let_def sent_from_def sent_to_def split: if_splits)

lemma reopened_check:
  assumes ok: "operation_ok op" and c: "rule_check op = None"
  shows "rule_check (operation_of i (operation_payload op) cs) = None"
proof -
  let ?o = "operation_of i (operation_payload op) cs"
  have m: "op_mode op \<in> set OPERATION_MODE_VALUES" using ok by (simp add: operation_ok_def)
  have st: "stable_text (op_value_text op)" using ok by (simp add: operation_ok_def)
  note mode = reopened_mode [OF m] and f = reopened_fields [OF m]
  have val: "op_value_text ?o = toValueText (parseLooseValue (op_value_text op))" if "op_mode op \<in> set VALUE_REQUIRED_MODES"
    using required_meta(1) [OF that] by (simp add: f mode)
  show ?thesis
    unfolding rule_check_None_iff mode
  proof (intro conjI impI)
    show "trim (op_path ?o) \<noteq> []" if "mm_path (meta_of (op_mode op))"
      using c that unfolding rule_check_None_iff mode by (simp add: f mode)
    show "sent_from ?o \<noteq> []" if "op_mode op \<in> set FROM_REQUIRED_MODES"
      using c that required_meta(2) unfolding rule_check_None_iff mode by (simp add: reopened_sent [OF m])
    show "sent_to ?o \<noteq> []" if "op_mode op \<in> set TO_REQUIRED_MODES"
      using c that unfolding rule_check_None_iff mode by (simp add: reopened_sent [OF m])
    show "trim (op_value_text ?o) \<noteq> []" if "op_mode op \<in> set VALUE_REQUIRED_MODES"
      using ok that by (simp add: val operation_ok_def)
    show "\<not> return_error_lacks_message (trim (op_value_text ?o))" if "op_mode op = js ''return_error''"
      using c that value_modes lacks_message_reopened [OF st] unfolding rule_check_None_iff mode by (auto simp: val)
    show "parsePassHeaderNames (parseLooseValue (trim (op_value_text ?o))) \<noteq> []" if "op_mode op = js ''pass_headers''"
      using c that value_modes loose_reopened [OF st] unfolding rule_check_None_iff mode by (simp add: val)
  qed
qed

lemma set_needs_path: "mm_path (meta_of (js ''set''))"
  by (simp add: meta_of_def MODE_META_def meta_defs)

lemma checked_not_blank: "rule_check op = None \<Longrightarrow> \<not> isOperationBlank op"
  using set_needs_path by (auto simp: rule_check_None_iff isOperationBlank_def the_mode_def)

lemma reopen_operation:
  assumes ok: "operation_ok op" and c: "rule_check op = None"
  shows "\<exists>op' n'. normalizeOperation clk (operation_payload op) n = Inr (op', n') \<and>
    operation_payload op' = operation_payload op \<and> rule_check op' = None \<and> \<not> isOperationBlank op'"
proof -
  obtain cs' n' where cs: "map_make (normalizeOverrideCondition clk) (List.map_filter buildConditionPayload (op_conditions op)) (Suc n) = Inr (cs', n')"
    "List.map_filter buildConditionPayload cs' = List.map_filter buildConditionPayload (op_conditions op)"
    using reopen_conditions [of "op_conditions op" clk "Suc n"] ok by (auto simp: operation_ok_def)
  let ?o = "operation_of (nextLocalId clk n) (operation_payload op) cs'"
  have "\<exists>k. normalizeOperation clk (operation_payload op) n = Inr (?o, k)"
    using cs by (auto simp: normalizeOperation_def arg_object_def operation_payload_object payload_get)
  then show ?thesis
    using reopened_payload [OF ok cs(2)] reopened_check [OF ok c] checked_not_blank [OF reopened_check [OF ok c]] by blast
qed

lemma reopen_operations:
  assumes "\<forall>op \<in> set ops. operation_ok op \<and> rule_check op = None"
  shows "\<exists>ops' n'. map_make (normalizeOperation clk) (map operation_payload ops) n = Inr (ops', n') \<and>
    map operation_payload ops' = map operation_payload ops \<and>
    (\<forall>op \<in> set ops'. rule_check op = None \<and> \<not> isOperationBlank op)"
  using assms
proof (induction ops arbitrary: n)
  case (Cons op ops)
  obtain op' n1 where 1: "normalizeOperation clk (operation_payload op) n = Inr (op', n1)"
    "operation_payload op' = operation_payload op" "rule_check op' = None" "\<not> isOperationBlank op'"
    using reopen_operation [of op clk n] Cons.prems by auto
  obtain ops' n2 where 2: "map_make (normalizeOperation clk) (map operation_payload ops) n1 = Inr (ops', n2)"
    "map operation_payload ops' = map operation_payload ops" "\<forall>op \<in> set ops'. rule_check op = None \<and> \<not> isOperationBlank op"
    using Cons.IH [of n1] Cons.prems by auto
  show ?case using 1 2 by (intro exI [of _ "op' # ops'"] exI [of _ n2]) simp
qed simp

section \<open>The printed text\<close>

lemma of_char_bounds: "0 \<le> (of_char c :: int)" "(of_char c :: int) < 65536"
  by (auto simp: of_char_def)

lemma units_js [simp]: "units (js s)"
  by (auto simp: units_def js_def of_char_bounds)

lemma units_trim [simp]: "units s \<Longrightarrow> units (trim s)"
  using set_trim [of s] by (auto simp: units_def)

lemma plain_names: "plain_key (js ''path'')" "plain_key (js ''mode'')" "plain_key (js ''value'')" "plain_key (js ''invert'')"
  "plain_key (js ''pass_missing_key'')" "plain_key (js ''description'')" "plain_key (js ''keep_origin'')"
  "plain_key (js ''from'')" "plain_key (js ''to'')" "plain_key (js ''conditions'')" "plain_key (js ''logic'')"
  "plain_key (js ''operations'')"
  by (rule plain_key_letter, rule units_js; simp add: js_Cons is_digit_def)+

lemma json_ok_put_when:
  "json_ok (VObj ob) \<Longrightarrow> plain_key k \<Longrightarrow> (b \<Longrightarrow> json_ok v) \<Longrightarrow> json_ok (VObj (put_when b k v ob))"
  by (simp add: put_when_def json_ok_set del: json_ok.simps)

lemma json_ok_single: "plain_key k \<Longrightarrow> json_ok v \<Longrightarrow> json_ok (VObj [(k, v)])"
  by (rule json_ok_plain) simp_all

lemma mode_units: "mode \<in> set OPERATION_MODE_VALUES \<Longrightarrow> units mode" "mode \<in> set CONDITION_MODE_VALUES \<Longrightarrow> units mode"
  by (auto simp: OPERATION_MODE_VALUES_def OPERATION_MODE_OPTIONS_def CONDITION_MODE_VALUES_def)

lemma condition_payload_ok:
  assumes "condition_ok c" "buildConditionPayload c = Some v"
  shows "json_ok v"
proof -
  have "json_ok (VObj [(js ''path'', VStr (trim (oc_path c))),
      (js ''mode'', VStr (if oc_mode c = [] then js ''full'' else oc_mode c)),
      (js ''value'', parseLooseValue (oc_value_text c))])"
    by (rule json_ok_plain) (use assms(1) mode_units in \<open>auto simp: condition_ok_def stable_text_def plain_names\<close>)
  then show ?thesis
    using assms(2) by (auto simp: buildConditionPayload_def Let_def split: if_splits
        intro!: json_ok_put_when plain_names simp del: json_ok.simps(7))
qed

lemma operation_payload_ok:
  assumes "operation_ok op"
  shows "json_ok (operation_payload op)"
proof -
  have u: "units (sent_from op)" "units (sent_to op)" "units (the_mode op)"
    using assms mode_units by (auto simp: sent_from_def sent_to_def operation_ok_def the_mode_def)
  have base: "json_ok (VObj (payload_base (the_mode op) (trim (op_description op)) (trim (op_path op))
        (parseLooseValue (op_value_text op)) (op_keep_origin op) (sent_from op) (sent_to op)))"
    unfolding payload_base_def Let_def
    by (intro json_ok_put_when json_ok_single plain_names)
      (use u assms in \<open>simp_all add: operation_ok_def stable_text_def\<close>)
  have "json_ok (VArr (List.map_filter buildConditionPayload (op_conditions op)))"
    using assms condition_payload_ok by (auto simp: operation_ok_def map_filter_def)
  with base show ?thesis
    unfolding payload_base_eq with_conditions_def
    by (auto intro!: json_ok_set plain_names simp del: json_ok.simps(6,7))
qed

lemma stringify2_trimmed: "trim (stringify2 (VObj ob)) = stringify2 (VObj ob)"
  by (rule trim_trimmed) (simp add: trimmed_def stringify2_def Let_def is_ws_def js_Cons js_def)

lemma stringify2_object_not_Nil: "stringify2 (VObj ob) \<noteq> []"
  by (simp add: stringify2_def Let_def js_Cons)

lemma validate_from_Nil:
  "(\<And>k l. tr k l \<noteq> []) \<Longrightarrow> validate_from tr n ops = [] \<longleftrightarrow> (\<forall>op \<in> set ops. rule_check op = None)"
  by (induction ops arbitrary: n) (auto split: option.split)

lemma validateOperations_Nil:
  "(\<And>k l. tr k l \<noteq> []) \<Longrightarrow> validateOperations tr ops = [] \<longleftrightarrow> (\<forall>op \<in> set ops. rule_check op = None)"
  by (simp add: validateOperations_def validate_from_Nil)

lemma built_ops:
  assumes "buildOperationsJson tr ops True = Inr s" "s \<noteq> []" "\<And>k l. tr k l \<noteq> []"
  shows "s = stringify2 (VObj [(js ''operations'', VArr (map operation_payload (filter (\<lambda>p. \<not> isOperationBlank p) ops)))])"
    "filter (\<lambda>p. \<not> isOperationBlank p) ops \<noteq> []"
    "\<forall>op \<in> set ops. \<not> isOperationBlank op \<longrightarrow> rule_check op = None"
  using assms validateOperations_Nil [of tr "filter (\<lambda>p. \<not> isOperationBlank p) ops"]
  by (auto simp: buildOperationsJson_def Let_def split: if_splits)

text \<open>Reading a saved text again gives rules that are saved as the same text.\<close>

lemma reread_saved:
  assumes tr: "\<And>k l. tr k l \<noteq> []"
    and ok: "\<forall>op \<in> set ops. isOperationBlank op \<or> operation_ok op"
    and saved: "buildOperationsJson tr ops True = Inr s" "s \<noteq> []"
  obtains vs ops' n' where "json_parse (trim s) = Some (VObj [(js ''operations'', VArr vs)])" "trim s = s"
    "s = stringify2 (VObj [(js ''operations'', VArr vs)])" "read_operations clk vs n = Inr (ops', n')"
    "buildOperationsJson tr ops' True = Inr s"
proof -
  let ?ops = "filter (\<lambda>p. \<not> isOperationBlank p) ops"
  let ?v = "VObj [(js ''operations'', VArr (map operation_payload ?ops))]"
  note built = built_ops [OF saved tr]
  have good: "\<forall>op \<in> set ?ops. operation_ok op \<and> rule_check op = None" using ok built(3) by auto
  then obtain ops' n' where o: "map_make (normalizeOperation clk) (map operation_payload ?ops) n = Inr (ops', n')"
    "map operation_payload ops' = map operation_payload ?ops"
    "\<forall>op \<in> set ops'. rule_check op = None \<and> \<not> isOperationBlank op"
    using reopen_operations by blast
  have "json_ok ?v"
    by (rule json_ok_single) (use good operation_payload_ok in \<open>auto simp: plain_names simp del: json_ok.simps(7)\<close>)
  then have parse: "json_parse (stringify2 ?v) = Some ?v" unfolding stringify2_def by (rule json_parse_pretty)
  have t: "trim s = s" unfolding built(1) by (rule stringify2_trimmed)
  have "read_operations clk (map operation_payload ?ops) n = Inr (ops', n')"
    using o(1) built(2) by (simp add: read_operations_def)
  moreover have "buildOperationsJson tr ops' True = Inr s"
  proof -
    have "filter (\<lambda>p. \<not> isOperationBlank p) ops' = ops'" using o(3) by (simp add: filter_id_conv)
    moreover have "ops' \<noteq> []" using o(2) built(2) by auto
    moreover have "validateOperations tr ops' = []" using o(3) validateOperations_Nil [of tr, OF tr] by simp
    ultimately show ?thesis using o(2) built(1) by (simp add: buildOperationsJson_def)
  qed
  moreover have "json_parse (trim s) = Some ?v" unfolding t using parse built(1) by simp
  ultimately show ?thesis using that [OF _ t built(1)] by blast
qed

text \<open>C900. Saving is stable: a text that was saved from rules whose value texts read back (\<open>stable_text\<close>) opens
  as rules that save to the same text, and the JSON view shows that text.\<close>

theorem save_reopen:
  assumes tr: "\<And>k l. tr k l \<noteq> []"
    and ok: "\<forall>op \<in> set ops. isOperationBlank op \<or> operation_ok op"
    and saved: "buildOperationsJson tr ops True = Inr s" "s \<noteq> []"
  shows "\<exists>st n'. parseInitialState clk s n = Inr (st, n') \<and> in_editMode st = Visual \<and> in_visualMode st = Operations \<and>
    in_jsonText st = s \<and> buildOperationsJson tr (in_operations st) True = Inr s"
proof -
  obtain vs ops' n' where r: "json_parse (trim s) = Some (VObj [(js ''operations'', VArr vs)])" "trim s = s"
    "s = stringify2 (VObj [(js ''operations'', VArr vs)])" "read_operations clk vs n = Inr (ops', n')"
    "buildOperationsJson tr ops' True = Inr s"
    by (rule reread_saved [OF tr ok saved])
  let ?st = "\<lparr>in_editMode = Visual, in_visualMode = Operations, in_legacyValue = [], in_operations = ops',
    in_jsonText = s, in_jsonError = []\<rparr>"
  have "parseInitialState clk s n = Inr (?st, n')"
    using r(1,2,4) saved(2) r(3) [symmetric] by (simp add: parseInitialState_def initial_with_def)
  then show ?thesis using r(5) by (intro exI [of _ ?st] exI [of _ n']) simp
qed

definition sample_rule :: operation where
  "sample_rule = \<lparr>op_id = js ''a'', op_description = [], op_path = js ''model'', op_mode = js ''set'', op_from = [],
     op_to = [], op_value_text = js '' gpt '', op_keep_origin = True, op_logic = js ''AND'',
     op_conditions = [\<lparr>oc_id = js ''b'', oc_path = js ''user'', oc_mode = js ''prefix'', oc_value_text = js ''[true]'',
       oc_invert = False, oc_pass_missing_key = True\<rparr>]\<rparr>"

lemma sample_rule_ok: "operation_ok sample_rule" "\<not> isOperationBlank sample_rule" "rule_check sample_rule = None"
  by code_simp+

theorem save_reopen_witness:
  "\<exists>s st n'. buildOperationsJson (\<lambda>k l. js ''error'') [sample_rule] True = Inr s \<and> s \<noteq> [] \<and>
     parseInitialState (\<lambda>_. 5) s 0 = Inr (st, n') \<and>
     buildOperationsJson (\<lambda>k l. js ''error'') (in_operations st) True = Inr s"
proof -
  have b: "buildOperationsJson (\<lambda>k l. js ''error'') [sample_rule] True =
      Inr (stringify2 (VObj [(js ''operations'', VArr [operation_payload sample_rule])]))"
    by (simp add: buildOperationsJson_def sample_rule_ok validateOperations_def)
  from save_reopen [OF _ _ b stringify2_object_not_Nil, of "\<lambda>_. 5" 0] b show ?thesis
    by (auto simp: sample_rule_ok stringify2_object_not_Nil)
qed

text \<open>The validation reports nothing exactly when every rule passes its check; otherwise the message is the
  one of the first rule with an error, with its number among the rules given.\<close>

theorem validate_first_error:
  "validateOperations tr ops =
    (case find_index (\<lambda>p. rule_check p \<noteq> None) ops of None \<Rightarrow> []
     | Some i \<Rightarrow> tr (rule_error_key (the (rule_check (ops ! i)))) (Some (i + 1)))"
proof -
  have "validate_from tr n ops = (case find_index (\<lambda>p. rule_check p \<noteq> None) ops of None \<Rightarrow> []
     | Some i \<Rightarrow> tr (rule_error_key (the (rule_check (ops ! i)))) (Some (i + n)))" for n
    by (induction ops arbitrary: n) (auto split: option.splits)
  then show ?thesis unfolding validateOperations_def .
qed

section \<open>Moving a rule\<close>

lemma find_index_split: "\<forall>x \<in> set xs. \<not> P x \<Longrightarrow> P q \<Longrightarrow> find_index P (xs @ q # ys) = Some (length xs)"
  by (induction xs) auto

lemma find_index_Some_split:
  "find_index P xs = Some i \<Longrightarrow> \<exists>as q bs. xs = as @ q # bs \<and> length as = i \<and> P q \<and> (\<forall>x \<in> set as. \<not> P x)"
proof (induction xs arbitrary: i)
  case (Cons x xs)
  show ?case
  proof (cases "P x")
    case True with Cons.prems show ?thesis by (intro exI [of _ "[]"] exI [of _ x] exI [of _ xs]) auto
  next
    case False
    then obtain j where j: "find_index P xs = Some j" "i = Suc j" using Cons.prems by auto
    obtain as q bs where "xs = as @ q # bs" "length as = j" "P q" "\<forall>x \<in> set as. \<not> P x" using Cons.IH [OF j(1)] by blast
    then show ?thesis using False j by (intro exI [of _ "x # as"] exI [of _ q] exI [of _ bs]) auto
  qed
qed simp

lemma find_index_None: "find_index P xs = None \<longleftrightarrow> (\<forall>x \<in> set xs. \<not> P x)"
  by (induction xs) auto

lemma mset_insert_at: "mset (take k xs @ [x] @ drop k xs) = add_mset x (mset xs)"
  by (metis append_Cons append_Nil append_take_drop_id mset.simps(2) mset_append union_mset_add_mset_right)

lemma mset_reorder: "mset (reorderOperations ops s t pos) = mset ops"
proof (cases "find_index (\<lambda>p. op_id p = s) ops")
  case None then show ?thesis by (simp add: reorderOperations_def)
next
  case (Some i)
  then obtain as q bs where o: "ops = as @ q # bs" "length as = i" by (blast dest: find_index_Some_split)
  then have n: "take i ops @ drop (Suc i) ops = as @ bs" "ops ! i = q" by (auto simp: nth_append)
  have m: "mset ops = add_mset q (mset (as @ bs))" using o by simp
  show ?thesis
    unfolding reorderOperations_def Some option.case Let_def n
    by (cases "find_index (\<lambda>p. op_id p = t) (as @ bs)") (simp_all only: option.case if_distrib [of mset] mset_insert_at m if_cancel)
qed

lemma split_at_id:
  assumes "distinct (map op_id ops)" "p \<in> set ops"
  obtains as bs where "ops = as @ p # bs" "removeAll p ops = as @ bs"
    "find_index (\<lambda>x. op_id x = op_id p) ops = Some (length as)"
proof -
  obtain as bs where o: "ops = as @ p # bs" using split_list [OF assms(2)] by blast
  with assms(1) have f: "op_id p \<notin> op_id ` set as" "op_id p \<notin> op_id ` set bs" by auto
  then have "\<forall>x \<in> set as. op_id x \<noteq> op_id p" "p \<notin> set as" "p \<notin> set bs" by (metis imageI)+
  with o show ?thesis using that [of as bs] by (simp add: find_index_split)
qed

text \<open>C33. Dropping a rule on another one only moves it: the rules stay the same, the moved rule stands
  directly before or after the target and the others keep their order.\<close>

theorem reorder_moves:
  assumes d: "distinct (map op_id ops)" and p: "p \<in> set ops" and q: "q \<in> set ops"
    and ids: "op_id p \<noteq> op_id q" "op_id p \<noteq> []" "op_id q \<noteq> []"
  shows "mset (reorderOperations ops (op_id p) (op_id q) pos) = mset ops \<and>
    (\<exists>xs ys. removeAll p ops = xs @ q # ys \<and>
      reorderOperations ops (op_id p) (op_id q) pos = (if pos = Before then xs @ p # q # ys else xs @ q # p # ys))"
proof -
  obtain as bs where o: "ops = as @ p # bs" "removeAll p ops = as @ bs"
    "find_index (\<lambda>x. op_id x = op_id p) ops = Some (length as)"
    by (rule split_at_id [OF d p])
  have "distinct (map op_id (as @ bs))" "q \<in> set (as @ bs)" using d q ids o(1) by auto
  then obtain xs ys where x: "as @ bs = xs @ q # ys" "find_index (\<lambda>x. op_id x = op_id q) (as @ bs) = Some (length xs)"
    by (rule split_at_id)
  have "reorderOperations ops (op_id p) (op_id q) pos = (if pos = Before then xs @ p # q # ys else xs @ q # p # ys)"
    using ids o x by (cases pos) (simp_all add: reorderOperations_def)
  then show ?thesis using o(2) x(1) by (intro conjI mset_reorder exI [of _ xs] exI [of _ ys]) simp_all
qed

theorem reorder_moves_witness:
  "reorderOperations [sample_rule, sample_rule\<lparr>op_id := js ''x''\<rparr>] (js ''a'') (js ''x'') After =
     [sample_rule\<lparr>op_id := js ''x''\<rparr>, sample_rule]"
  using reorder_moves [of "[sample_rule, sample_rule\<lparr>op_id := js ''x''\<rparr>]" sample_rule "sample_rule\<lparr>op_id := js ''x''\<rparr>" After]
  by (auto simp: sample_rule_def append_eq_Cons_conv Cons_eq_append_conv split: if_splits)

text \<open>A string that is itself a JSON text does not survive the editor: the rule read from it is written back with the
  value the text denotes, so that the string 123 becomes the number 123.\<close>

theorem string_value_read_as_json:
  assumes "obj_get ob (js ''value'') = VStr s" "json_parse (trim s) = Some v"
    and "normalizeOperation clk (VObj ob) n = Inr (op, n')" "mm_value (meta_of (the_mode op))"
  shows "obj_get (payload_object op) (js ''value'') = v"
proof -
  have "op_value_text op = s"
    using assms(1,3) by (auto simp: normalizeOperation_def arg_object_def operation_of_def toValueText_def
        split: sum.splits jsval.splits)
  moreover have "trim s \<noteq> []" using assms(2) parse_blank [of "[]"] by auto
  ultimately show ?thesis using assms(2,4) by (simp add: payload_get parseLooseValue_def)
qed

theorem string_value_read_as_json_witness:
  "\<exists>op n'. normalizeOperation (\<lambda>_. 5) (VObj [(js ''mode'', VStr (js ''set'')), (js ''value'', VStr (js ''true''))]) 0 = Inr (op, n') \<and>
     obj_get (payload_object op) (js ''value'') = VBool True"
proof -
  let ?ob = "[(js ''mode'', VStr (js ''set'')), (js ''value'', VStr (js ''true''))]"
  have n: "normalizeOperation (\<lambda>_. 5) (VObj ?ob) 0 = Inr (operation_of (nextLocalId (\<lambda>_. 5) 0) (VObj ?ob) [], 1)"
    by (simp add: normalizeOperation_def arg_object_def)
  have p: "json_parse (trim (js ''true'')) = Some (VBool True)" by code_simp
  have m: "mm_value (meta_of (the_mode (operation_of (nextLocalId (\<lambda>_. 5) 0) (VObj ?ob) [])))" by code_simp
  from string_value_read_as_json [of ?ob, OF _ p n m] n show ?thesis by simp
qed

end
