(* ===== verification/ParamOverrideDrafts.thy ===== *)
theory ParamOverrideDrafts
  imports ParamOverrideSave
begin

text \<open>
  The sub-editors of the parameter override dialog keep no state of their own: each keystroke reads a draft from the text of the
  rule, changes it and writes the text again. Here are the three of them: the target of a synchronised
  field, the custom error and the pruning rules.
\<close>

section \<open>Sync targets\<close>

definition parseSyncTargetSpec :: "jstr \<Rightarrow> jstr \<times> jstr" where
  "parseSyncTargetSpec spec = (let raw = trim spec in
     if raw = [] then (js ''json'', [])
     else case index_of raw [58] 0 of
       None \<Rightarrow> (js ''json'', raw)
     | Some i \<Rightarrow> (let prefix = lower (trim (take i raw)); key = trim (drop (i + 1) raw) in
         if prefix = js ''header'' then (js ''header'', key) else (js ''json'', key)))"

definition buildSyncTargetSpec :: "jstr \<Rightarrow> jstr \<Rightarrow> jstr" where
  "buildSyncTargetSpec type key =
     (let ty = (if type = js ''header'' then js ''header'' else js ''json''); k = trim key in
      if k = [] then [] else ty @ [58] @ k)"

section \<open>The custom error\<close>

record return_error_draft =
  rd_message :: jstr
  rd_statusCode :: jsnum
  rd_code :: jstr
  rd_type :: jstr
  rd_skipRetry :: bool
  rd_simpleMode :: bool

definition plain_draft :: "jstr \<Rightarrow> return_error_draft" where
  "plain_draft message = \<lparr>rd_message = message, rd_statusCode = Fin 400, rd_code = [], rd_type = [],
     rd_skipRetry = True, rd_simpleMode = True\<rparr>"

definition status_or_400 :: "jsnum \<Rightarrow> jsnum" where
  "status_or_400 x = (if is_integer x \<and> num_le (Fin 100) x \<and> num_le x (Fin 599) then x else Fin 400)"

text \<open>\<open>String(v || '').trim()\<close>.\<close>

definition or_trimmed :: "jsval \<Rightarrow> jstr" where
  "or_trimmed v = trim (to_str (js_or v (VStr [])))"

definition parseReturnErrorDraft :: "jstr \<Rightarrow> return_error_draft" where
  "parseReturnErrorDraft text = (let raw = trim text in
     if raw = [] then plain_draft []
     else case json_parse raw of
       Some (VObj ob) \<Rightarrow>
         (let statusRaw = (if obj_get ob (js ''status_code'') \<noteq> VUndef then obj_get ob (js ''status_code'')
                           else obj_get ob (js ''status'')) in
          \<lparr>rd_message = or_trimmed (js_or (obj_get ob (js ''message'')) (obj_get ob (js ''msg''))),
           rd_statusCode = status_or_400 (to_number statusRaw),
           rd_code = or_trimmed (obj_get ob (js ''code'')), rd_type = or_trimmed (obj_get ob (js ''type'')),
           rd_skipRetry = (obj_get ob (js ''skip_retry'') \<noteq> VBool False), rd_simpleMode = False\<rparr>)
     | _ \<Rightarrow> plain_draft raw)"

definition buildReturnErrorValueText :: "return_error_draft \<Rightarrow> jstr" where
  "buildReturnErrorValueText d = (let message = trim (rd_message d) in
     if rd_simpleMode d then message
     else let code = trim (rd_code d); type = trim (rd_type d) in
       stringify (VObj (put_when (\<not> rd_skipRetry d) (js ''skip_retry'') (VBool False)
         (put_when (type \<noteq> []) (js ''type'') (VStr type)
           (put_when (code \<noteq> []) (js ''code'') (VStr code)
             [(js ''message'', VStr message), (js ''status_code'', VNum (status_or_400 (rd_statusCode d)))])))))"

section \<open>Pruning\<close>

text \<open>A pruning rule has the fields of a condition and is read in the same way.\<close>

type_synonym prune_rule = condition

definition normalizePruneRule :: "(nat \<Rightarrow> nat) \<Rightarrow> jsval \<Rightarrow> nat \<Rightarrow> prune_rule \<times> nat" where
  "normalizePruneRule clk v n = (condition_of (nextLocalId clk n) v, Suc n)"

record prune_draft =
  pd_simpleMode :: bool
  pd_typeText :: jstr
  pd_logic :: jstr
  pd_recursive :: bool
  pd_rules :: "prune_rule list"

definition simple_prune :: "jstr \<Rightarrow> prune_draft" where
  "simple_prune typeText = \<lparr>pd_simpleMode = True, pd_typeText = typeText, pd_logic = js ''AND'',
     pd_recursive = True, pd_rules = []\<rparr>"

fun make_rules :: "(nat \<Rightarrow> nat) \<Rightarrow> jsval list \<Rightarrow> nat \<Rightarrow> prune_rule list \<times> nat" where
  "make_rules clk [] n = ([], n)"
| "make_rules clk (v # vs) n = (case normalizePruneRule clk v n of (r, n1) \<Rightarrow>
     (case make_rules clk vs n1 of (rs, n2) \<Rightarrow> (r # rs, n2)))"

text \<open>The values the rules are made from: each entry of \<open>where\<close> is an exact match; conditions are a list of objects
  or an object whose entries are exact matches.\<close>

definition exact_match :: "jstr \<times> jsval \<Rightarrow> jsval" where
  "exact_match p = VObj [(js ''path'', VStr (fst p)), (js ''mode'', VStr (js ''full'')), (js ''value'', snd p)]"

definition rule_sources :: "jsobj \<Rightarrow> jsval list" where
  "rule_sources ob =
     (case obj_get ob (js ''where'') of VObj w \<Rightarrow> map exact_match (own_entries w) | _ \<Rightarrow> []) @
     (case obj_get ob (js ''conditions'') of
        VArr vs \<Rightarrow> filter (\<lambda>v. truthy v \<and> is_object_type v) vs
      | VObj c \<Rightarrow> map exact_match (own_entries c)
      | _ \<Rightarrow> [])"

definition parsePruneObjectsDraft :: "(nat \<Rightarrow> nat) \<Rightarrow> jstr \<Rightarrow> nat \<Rightarrow> prune_draft \<times> nat" where
  "parsePruneObjectsDraft clk text n = (let raw = trim text in
     if raw = [] then (simple_prune [], n)
     else case json_parse raw of
       None \<Rightarrow> (simple_prune raw, n)
     | Some v \<Rightarrow>
        (case v of
           VStr s \<Rightarrow> (simple_prune (trim s), n)
         | VObj ob \<Rightarrow>
            (case make_rules clk (rule_sources ob) n of (rules, n') \<Rightarrow>
              (\<lparr>pd_simpleMode = \<not> list_ex (\<lambda>k. obj_get ob k \<noteq> VUndef)
                  [js ''logic'', js ''recursive'', js ''where'', js ''conditions''],
                pd_typeText = (if obj_get ob (js ''type'') = VUndef then [] else trim (to_str (obj_get ob (js ''type'')))),
                pd_logic = (if upper_ascii (to_str (js_or (obj_get ob (js ''logic'')) (VStr (js ''AND'')))) = js ''OR''
                  then js ''OR'' else js ''AND''),
                pd_recursive = (obj_get ob (js ''recursive'') \<noteq> VBool False),
                pd_rules = rules\<rparr>, n'))
         | _ \<Rightarrow> (simple_prune (trim (if nullish v then [] else to_str v)), n)))"

definition prune_rule_payload :: "prune_rule \<Rightarrow> jsval" where
  "prune_rule_payload r = (let valueRaw = trim (oc_value_text r) in
     VObj (put_when (oc_pass_missing_key r) (js ''pass_missing_key'') (VBool True)
       (put_when (oc_invert r) (js ''invert'') (VBool True)
         (put_when (valueRaw \<noteq> []) (js ''value'') (parseLooseValue valueRaw)
           [(js ''path'', VStr (trim (oc_path r))),
            (js ''mode'', VStr (if oc_mode r \<in> set CONDITION_MODE_VALUES then oc_mode r else js ''full''))]))))"

definition prune_conditions :: "prune_draft \<Rightarrow> jsval list" where
  "prune_conditions d = map prune_rule_payload (filter (\<lambda>r. trim (oc_path r) \<noteq> []) (pd_rules d))"

definition prune_payload :: "prune_draft \<Rightarrow> jsobj" where
  "prune_payload d =
     (let conditions = prune_conditions d in
      put_when (conditions \<noteq> []) (js ''conditions'') (VArr conditions)
       (put_when (\<not> pd_recursive d) (js ''recursive'') (VBool False)
         (put_when (upper_ascii (if pd_logic d = [] then js ''AND'' else pd_logic d) = js ''OR'') (js ''logic'') (VStr (js ''OR''))
           (put_when (trim (pd_typeText d) \<noteq> []) (js ''type'') (VStr (trim (pd_typeText d))) []))))"

definition buildPruneObjectsValueText :: "prune_draft \<Rightarrow> jstr" where
  "buildPruneObjectsValueText d =
     (if pd_simpleMode d then trim (pd_typeText d)
      else if \<not> truthy (obj_get (prune_payload d) (js ''type'')) \<and>
        \<not> truthy (obj_get (prune_payload d) (js ''conditions''))
      then stringify (VObj [(js ''logic'', VStr (js ''AND''))])
      else stringify (VObj (prune_payload d)))"

section \<open>What a draft writes is what it reads\<close>

lemma index_of_unit: "c \<notin> set a \<Longrightarrow> index_of (a @ c # b) [c] 0 = Some (length a)"
proof -
  assume "c \<notin> set a"
  then have "find_sub [c] (a @ c # b) = Some (length a)" by (induction a) (auto simp: starts_with_def)
  then show ?thesis by (simp add: index_of_def)
qed

lemma trimmed_append: "trimmed b \<Longrightarrow> b \<noteq> [] \<Longrightarrow> a \<noteq> [] \<Longrightarrow> \<not> is_ws (hd a) \<Longrightarrow> trimmed (a @ b)"
  by (auto simp: trimmed_def)

text \<open>A sync target that was composed from a kind and a key reads back as that kind and the trimmed key;
  a header target with a blank key reads back as a body field.\<close>

theorem sync_target_roundtrip:
  "parseSyncTargetSpec (buildSyncTargetSpec type key) =
    (if type = js ''header'' \<and> trim key \<noteq> [] then js ''header'' else js ''json'', trim key)"
proof (cases "trim key = []")
  case True then show ?thesis by (simp add: buildSyncTargetSpec_def parseSyncTargetSpec_def)
next
  case False
  let ?ty = "if type = js ''header'' then js ''header'' else js ''json''"
  have ty: "58 \<notin> set ?ty" "?ty \<noteq> []" "\<not> is_ws (hd ?ty)" "trim ?ty = ?ty" "lower ?ty = ?ty"
    by (simp_all add: js_def is_ws_def lower_def lower_c_def trim_def trim_left_def trim_right_def)
  have "trimmed ((?ty @ [58]) @ trim key)"
    by (rule trimmed_append) (use False ty in auto)
  then have t: "trim (?ty @ 58 # trim key) = ?ty @ 58 # trim key" by (simp add: trim_trimmed)
  have b: "buildSyncTargetSpec type key = ?ty @ 58 # trim key"
    using False by (simp add: buildSyncTargetSpec_def Let_def)
  show ?thesis
    unfolding b parseSyncTargetSpec_def Let_def t index_of_unit [OF ty(1)]
    using False ty(4,5) by auto
qed

lemma stringify_object_trimmed: "trim (stringify (VObj ob)) = stringify (VObj ob)" "stringify (VObj ob) \<noteq> []"
  by (rule trim_trimmed) (simp_all add: trimmed_def is_ws_def)

lemma parse_printed_object:
  "json_ok (VObj ob) \<Longrightarrow> json_parse (trim (stringify (VObj ob))) = Some (VObj ob)"
  unfolding stringify_object_trimmed by (rule json_parse_stringify)

lemma plain_error_names: "plain_key (js ''message'')" "plain_key (js ''status_code'')" "plain_key (js ''code'')"
  "plain_key (js ''type'')" "plain_key (js ''skip_retry'')" "plain_key (js ''recursive'')"
  by (rule plain_key_letter, rule units_js; simp add: js_Cons is_digit_def)+

lemma or_trimmed_simps [simp]:
  "or_trimmed (VStr s) = trim s" "or_trimmed VUndef = []" "or_trimmed (js_or (VStr s) VUndef) = trim s"
  by (auto simp: or_trimmed_def js_or_def)

lemma status_or_400_again [simp]: "status_or_400 (status_or_400 x) = status_or_400 x"
  by (simp add: status_or_400_def)

text \<open>A draft of a custom error, once written, reads back with its three texts trimmed and a status that is
  not an integer from 100 to 599 replaced by 400; the simple form is the message alone.\<close>

theorem return_error_roundtrip:
  assumes "units (rd_message d)" "units (rd_code d)" "units (rd_type d)" "json_ok (VNum (status_or_400 (rd_statusCode d)))"
    and "rd_simpleMode d \<Longrightarrow> \<nexists>ob. json_parse (trim (rd_message d)) = Some (VObj ob)"
  shows "parseReturnErrorDraft (buildReturnErrorValueText d) =
    (if rd_simpleMode d then plain_draft (trim (rd_message d))
     else d\<lparr>rd_message := trim (rd_message d), rd_statusCode := status_or_400 (rd_statusCode d),
            rd_code := trim (rd_code d), rd_type := trim (rd_type d)\<rparr>)"
proof (cases "rd_simpleMode d")
  case True
  with assms(5) show ?thesis
    by (auto simp: buildReturnErrorValueText_def parseReturnErrorDraft_def Let_def split: option.split jsval.split)
next
  case False
  let ?ob = "put_when (\<not> rd_skipRetry d) (js ''skip_retry'') (VBool False)
    (put_when (trim (rd_type d) \<noteq> []) (js ''type'') (VStr (trim (rd_type d)))
      (put_when (trim (rd_code d) \<noteq> []) (js ''code'') (VStr (trim (rd_code d)))
        [(js ''message'', VStr (trim (rd_message d))), (js ''status_code'', VNum (status_or_400 (rd_statusCode d)))]))"
  have "json_ok (VObj [(js ''message'', VStr (trim (rd_message d))), (js ''status_code'', VNum (status_or_400 (rd_statusCode d)))])"
    by (rule json_ok_plain) (use assms plain_error_names in simp_all)
  then have "json_ok (VObj ?ob)"
    by (intro json_ok_put_when plain_error_names) (use assms in simp_all)
  then have p: "json_parse (trim (stringify (VObj ?ob))) = Some (VObj ?ob)" by (rule parse_printed_object)
  have b: "buildReturnErrorValueText d = stringify (VObj ?ob)"
    using False by (simp only: buildReturnErrorValueText_def Let_def if_False)
  have "trim (stringify (VObj ?ob)) \<noteq> []" using stringify_object_trimmed by metis
  then show ?thesis
    unfolding b parseReturnErrorDraft_def Let_def p using False
    by (cases d) (simp del: put_when_def)
qed

theorem return_error_roundtrip_witness:
  "parseReturnErrorDraft (buildReturnErrorValueText \<lparr>rd_message = js ''no '', rd_statusCode = Fin 404, rd_code = [],
      rd_type = js ''policy'', rd_skipRetry = False, rd_simpleMode = False\<rparr>) =
    \<lparr>rd_message = js ''no'', rd_statusCode = Fin 404, rd_code = [], rd_type = js ''policy'', rd_skipRetry = False,
      rd_simpleMode = False\<rparr>"
proof -
  let ?d = "\<lparr>rd_message = js ''no '', rd_statusCode = Fin 404, rd_code = [], rd_type = js ''policy'', rd_skipRetry = False,
    rd_simpleMode = False\<rparr>"
  have j: "json_ok (VNum (status_or_400 (rd_statusCode ?d)))" and s: "status_or_400 (Fin 404) = Fin 404"
    and t: "trim (js ''no '') = js ''no''" "trim (js ''policy'') = js ''policy''"
    by code_simp+
  have e: "units []" by (simp add: units_def)
  show ?thesis using return_error_roundtrip [OF _ _ _ j] by (simp add: s t e)
qed

section \<open>The pruning draft\<close>

definition prune_rule_ok :: "prune_rule \<Rightarrow> bool" where
  "prune_rule_ok r \<longleftrightarrow> units (oc_path r) \<and> stable_text (oc_value_text r) \<and>
     (trim (oc_value_text r) = [] \<or> trim (toValueText (parseLooseValue (oc_value_text r))) \<noteq> [])"

lemma parseLoose_trim [simp]: "parseLooseValue (trim s) = parseLooseValue s"
  by (simp add: parseLooseValue_def)

lemma prune_rule_payload_eq:
  "prune_rule_payload r = VObj (put_when (oc_pass_missing_key r) (js ''pass_missing_key'') (VBool True)
     (put_when (oc_invert r) (js ''invert'') (VBool True)
       (put_when (trim (oc_value_text r) \<noteq> []) (js ''value'') (parseLooseValue (oc_value_text r))
         [(js ''path'', VStr (trim (oc_path r))),
          (js ''mode'', VStr (if oc_mode r \<in> set CONDITION_MODE_VALUES then oc_mode r else js ''full''))])))"
  by (simp add: prune_rule_payload_def)

lemma full_mode: "js ''full'' \<in> set CONDITION_MODE_VALUES"
  by (simp add: CONDITION_MODE_VALUES_def)

lemma reread_rule:
  assumes "prune_rule_ok r" "trim (oc_path r) \<noteq> []"
  shows "prune_rule_payload (condition_of i (prune_rule_payload r)) = prune_rule_payload r"
    "trim (oc_path (condition_of i (prune_rule_payload r))) \<noteq> []"
proof -
  let ?m = "if oc_mode r \<in> set CONDITION_MODE_VALUES then oc_mode r else js ''full''"
  let ?t = "if trim (oc_value_text r) \<noteq> [] then toValueText (parseLooseValue (oc_value_text r)) else []"
  have c: "condition_of i (prune_rule_payload r) = \<lparr>oc_id = i, oc_path = trim (oc_path r), oc_mode = ?m,
      oc_value_text = ?t, oc_invert = oc_invert r, oc_pass_missing_key = oc_pass_missing_key r\<rparr>"
    unfolding prune_rule_payload_eq
    by (simp add: condition_of_def str_field_def mode_field_def true_field_def full_mode) (simp add: toValueText_def)
  show "prune_rule_payload (condition_of i (prune_rule_payload r)) = prune_rule_payload r"
    using assms unfolding c by (auto simp: prune_rule_payload_eq prune_rule_ok_def stable_text_def full_mode put_when_def)
  show "trim (oc_path (condition_of i (prune_rule_payload r))) \<noteq> []" using assms(2) by (simp add: c)
qed

lemma reread_rules:
  assumes "\<forall>r \<in> set rs. prune_rule_ok r \<and> trim (oc_path r) \<noteq> []"
  shows "\<exists>rs'. make_rules clk (map prune_rule_payload rs) n = (rs', n + length rs) \<and>
    map prune_rule_payload rs' = map prune_rule_payload rs \<and> (\<forall>r \<in> set rs'. trim (oc_path r) \<noteq> [])"
  using assms
proof (induction rs arbitrary: n)
  case (Cons r rs)
  then obtain rs' where "make_rules clk (map prune_rule_payload rs) (Suc n) = (rs', Suc n + length rs)"
    "map prune_rule_payload rs' = map prune_rule_payload rs" "\<forall>r \<in> set rs'. trim (oc_path r) \<noteq> []"
    by fastforce
  then show ?case using reread_rule [of r "nextLocalId clk n"] Cons.prems
    by (auto simp: normalizePruneRule_def)
qed simp

lemma prune_rule_payload_ok: "prune_rule_ok r \<Longrightarrow> json_ok (prune_rule_payload r)"
  unfolding prune_rule_payload_eq
  by (intro json_ok_put_when plain_names json_ok_plain)
    (auto simp: prune_rule_ok_def stable_text_def plain_names mode_units)

lemma prune_payload_get:
  "obj_get (prune_payload d) (js ''type'') = (if trim (pd_typeText d) \<noteq> [] then VStr (trim (pd_typeText d)) else VUndef)"
  "obj_get (prune_payload d) (js ''conditions'') = (if prune_conditions d \<noteq> [] then VArr (prune_conditions d) else VUndef)"
  "obj_get (prune_payload d) (js ''recursive'') = (if pd_recursive d then VUndef else VBool False)"
  "obj_get (prune_payload d) (js ''logic'') =
     (if upper_ascii (if pd_logic d = [] then js ''AND'' else pd_logic d) = js ''OR'' then VStr (js ''OR'') else VUndef)"
  "obj_get (prune_payload d) (js ''where'') = VUndef"
  by (simp_all add: prune_payload_def Let_def)

lemma prune_payload_json_ok:
  assumes "units (pd_typeText d)" "\<forall>r \<in> set (pd_rules d). prune_rule_ok r"
  shows "json_ok (VObj (prune_payload d))"
  unfolding prune_payload_def Let_def
  by (intro json_ok_put_when plain_names plain_error_names json_ok_empty)
    (use assms prune_rule_payload_ok in \<open>auto simp: prune_conditions_def\<close>)

text \<open>An advanced pruning draft with a type or a condition reads back with the same payload: the type, the
  logic, the recursion and the conditions with a path; it opens as simple when the payload has a type only. Without
  a type and without a condition, the logic and the recursion are lost.\<close>

theorem prune_roundtrip:
  assumes "\<not> pd_simpleMode d" "units (pd_typeText d)" "\<forall>r \<in> set (pd_rules d). prune_rule_ok r"
  shows "\<exists>d' n'. parsePruneObjectsDraft clk (buildPruneObjectsValueText d) n = (d', n') \<and>
    (if trim (pd_typeText d) = [] \<and> prune_conditions d = []
     then d' = (simple_prune [])\<lparr>pd_simpleMode := False\<rparr>
     else prune_payload d' = prune_payload d \<and>
       (pd_simpleMode d' \<longleftrightarrow> prune_payload d = [(js ''type'', VStr (trim (pd_typeText d)))]))"
proof (cases "trim (pd_typeText d) = [] \<and> prune_conditions d = []")
  case True
  have u: "upper_ascii (js ''AND'') \<noteq> js ''OR''" by code_simp
  have "json_ok (VObj [(js ''logic'', VStr (js ''AND''))])" by (rule json_ok_single) (simp_all add: plain_names)
  note p = parse_printed_object [OF this]
  have b: "buildPruneObjectsValueText d = stringify (VObj [(js ''logic'', VStr (js ''AND''))])"
    using True assms(1) by (simp add: buildPruneObjectsValueText_def prune_payload_get)
  have "trim (buildPruneObjectsValueText d) \<noteq> []" unfolding b by (metis stringify_object_trimmed)
  then show ?thesis
    using True p u unfolding b
    by (simp add: parsePruneObjectsDraft_def rule_sources_def simple_prune_def js_or_def)
next
  case False
  let ?rs = "filter (\<lambda>r. trim (oc_path r) \<noteq> []) (pd_rules d)"
  obtain rs' where rs: "make_rules clk (map prune_rule_payload ?rs) n = (rs', n + length ?rs)"
    "map prune_rule_payload rs' = map prune_rule_payload ?rs" "\<forall>r \<in> set rs'. trim (oc_path r) \<noteq> []"
    using reread_rules [of ?rs clk n] assms(3) by auto
  note p = parse_printed_object [OF prune_payload_json_ok [OF assms(2,3)]]
  have b: "buildPruneObjectsValueText d = stringify (VObj (prune_payload d))"
    using False assms(1) by (auto simp: buildPruneObjectsValueText_def prune_payload_get)
  have ne: "trim (stringify (VObj (prune_payload d))) \<noteq> []" by (metis stringify_object_trimmed)
  have src: "rule_sources (prune_payload d) = map prune_rule_payload ?rs"
    by (auto simp: rule_sources_def prune_payload_get prune_conditions_def prune_rule_payload_eq filter_id_conv)
  let ?or = "upper_ascii (if pd_logic d = [] then js ''AND'' else pd_logic d) = js ''OR''"
  have u: "upper_ascii (js ''AND'') \<noteq> js ''OR''" "upper_ascii (js ''OR'') = js ''OR''" by code_simp+
  let ?d = "\<lparr>pd_simpleMode = (\<not> ?or \<and> pd_recursive d \<and> prune_conditions d = []), pd_typeText = trim (pd_typeText d),
    pd_logic = (if ?or then js ''OR'' else js ''AND''), pd_recursive = pd_recursive d, pd_rules = rs'\<rparr>"
  have "parsePruneObjectsDraft clk (buildPruneObjectsValueText d) n = (?d, n + length ?rs)"
    using ne rs(1) u unfolding b parsePruneObjectsDraft_def Let_def p
    by (auto simp: src prune_payload_get js_or_def)
  moreover have "prune_conditions ?d = prune_conditions d"
    using rs(2,3) by (simp add: prune_conditions_def filter_id_conv)
  then have "prune_payload ?d = prune_payload d"
    using u by (simp add: prune_payload_def)
  moreover have "pd_simpleMode ?d \<longleftrightarrow> prune_payload d = [(js ''type'', VStr (trim (pd_typeText d)))]"
    using False by (auto simp: prune_payload_def Let_def put_when_def obj_set_def)
  ultimately show ?thesis using False by (intro exI [of _ ?d] exI [of _ "n + length ?rs"]) auto
qed

theorem prune_roundtrip_witness:
  "\<exists>d' n'. parsePruneObjectsDraft (\<lambda>_. 5) (buildPruneObjectsValueText ((simple_prune (js ''thinking''))\<lparr>pd_simpleMode := False\<rparr>)) 0 = (d', n') \<and>
     pd_simpleMode d' \<and> prune_payload d' = [(js ''type'', VStr (js ''thinking''))]"
proof -
  let ?d = "(simple_prune (js ''thinking''))\<lparr>pd_simpleMode := False\<rparr>"
  have p: "prune_payload ?d = [(js ''type'', VStr (js ''thinking''))]" "trim (js ''thinking'') = js ''thinking''" by code_simp+
  show ?thesis
    using prune_roundtrip [of ?d "\<lambda>_. 5" 0] p by (auto simp: simple_prune_def)
qed

section \<open>Rules cannot be added or changed by their id\<close>

text \<open>A rule with a blank path is not written, so that appending a default rule changes nothing.\<close>

lemma blank_rule_not_written:
  assumes "trim (oc_path r) = []"
  shows "buildPruneObjectsValueText (d\<lparr>pd_rules := pd_rules d @ [r]\<rparr>) = buildPruneObjectsValueText d"
  using assms by (simp add: buildPruneObjectsValueText_def prune_payload_def prune_conditions_def)

lemma id_split: "a @ 95 # b = a' @ 95 # b' \<Longrightarrow> 95 \<notin> set b \<Longrightarrow> 95 \<notin> set b' \<Longrightarrow> b = (b' :: int list)"
proof (induction a arbitrary: a')
  case Nil then show ?case by (cases a') auto
next
  case (Cons x a) then show ?case by (cases a') auto
qed

lemma nextLocalId_inj: "nextLocalId clk m = nextLocalId clk n \<Longrightarrow> m = n"
proof -
  assume e: "nextLocalId clk m = nextLocalId clk n"
  have f: "nextLocalId clk k = (js ''po_'' @ nat_digits (clk k)) @ 95 # nat_digits k" "95 \<notin> set (nat_digits k)" for k
    by (simp add: nextLocalId_def js_def) (use nat_digits_digits in \<open>fastforce simp: is_digit_def\<close>)
  from e have "nat_digits m = nat_digits n" unfolding f(1) by (rule id_split) (rule f(2))+
  then show ?thesis by (rule nat_digits_inj)
qed

lemma nextLocalId_eq_iff [simp]: "nextLocalId clk m = nextLocalId clk n \<longleftrightarrow> m = n"
  using nextLocalId_inj by blast

lemma nextLocalId_not_Nil [simp]: "nextLocalId clk n \<noteq> []"
  by (simp add: nextLocalId_def)

lemma make_rules_ids: "make_rules clk vs n = (rs, n') \<Longrightarrow>
    n' = n + length vs \<and> map oc_id rs = map (nextLocalId clk) [n..<n']"
proof (induction vs arbitrary: n rs)
  case (Cons v vs)
  then obtain rs1 where r: "make_rules clk vs (Suc n) = (rs1, n')"
    "rs = condition_of (nextLocalId clk n) v # rs1"
    by (auto simp: normalizePruneRule_def split: prod.splits)
  have "n < n'" using Cons.IH [OF r(1)] by simp
  then have "[n..<n'] = n # [Suc n..<n']" by (rule upt_conv_Cons)
  then show ?case using Cons.IH [OF r(1)] r(2) by (simp add: condition_of_def del: upt_Suc)
qed simp

lemma parse_rule_ids:
  assumes "parsePruneObjectsDraft clk text n = (d, n')" "r \<in> set (pd_rules d)"
  shows "\<exists>k \<ge> n. oc_id r = nextLocalId clk k"
proof -
  obtain vs where m: "make_rules clk vs n = (pd_rules d, n')"
    using assms by (auto simp: parsePruneObjectsDraft_def Let_def simple_prune_def
        split: if_splits option.splits jsval.splits prod.splits)
  have "oc_id r \<in> set (map oc_id (pd_rules d))" using assms(2) by simp
  then show ?thesis using make_rules_ids [OF m] by auto
qed

end
