(* ===== verification/ParamOverrideTemplates.thy ===== *)
theory ParamOverrideTemplates
  imports ParamOverrideDrafts
begin

text \<open>
  The presets of the parameter override dialog. Every preset of rules is accepted by the validation and
  comes back unchanged from the visual editor.
\<close>

definition field :: "string \<Rightarrow> jsval \<Rightarrow> jstr \<times> jsval" where
  "field k v = (js k, v)"

definition operations_object :: "jsobj list \<Rightarrow> jsobj" where
  "operations_object ops = [field ''operations'' (VArr (map VObj ops))]"

definition LEGACY_TEMPLATE :: jsobj where
  "LEGACY_TEMPLATE = [field ''temperature'' (VNum (Fin 0)), field ''max_tokens'' (VNum (Fin 1000))]"

text \<open>The literal 0.7 is the nearest binary64 number.\<close>

definition OPERATION_TEMPLATE :: jsobj where
  "OPERATION_TEMPLATE = operations_object
    [[field ''description'' (VStr (js ''Set default temperature for openai/* models.'')),
      field ''path'' (VStr (js ''temperature'')), field ''mode'' (VStr (js ''set'')),
      field ''value'' (VNum (rnd (7 / 10))),
      field ''conditions'' (VArr [VObj [field ''path'' (VStr (js ''model'')), field ''mode'' (VStr (js ''prefix'')),
        field ''value'' (VStr (js ''openai/''))]]),
      field ''logic'' (VStr (js ''AND''))]]"

definition HEADER_PASSTHROUGH_TEMPLATE :: jsobj where
  "HEADER_PASSTHROUGH_TEMPLATE = operations_object
    [[field ''description'' (VStr (js ''Pass through X-Request-Id header to upstream.'')),
      field ''mode'' (VStr (js ''pass_headers'')), field ''value'' (VArr [VStr (js ''X-Request-Id'')]),
      field ''keep_origin'' (VBool True)]]"

definition model_condition :: "string \<Rightarrow> string \<Rightarrow> jsval" where
  "model_condition mode text = VObj [field ''path'' (VStr (js ''original_model'')), field ''mode'' (VStr (js mode)),
     field ''value'' (VStr (js text))]"

definition GEMINI_IMAGE_4K_TEMPLATE :: jsobj where
  "GEMINI_IMAGE_4K_TEMPLATE = operations_object
    [[field ''description'' (VStr (js ''Set imageSize to 4K when model contains gemini/image and ends with 4k.'')),
      field ''mode'' (VStr (js ''set'')), field ''path'' (VStr (js ''generationConfig.imageConfig.imageSize'')),
      field ''value'' (VStr (js ''4K'')),
      field ''conditions'' (VArr [model_condition ''contains'' ''gemini'', model_condition ''contains'' ''image'',
        model_condition ''suffix'' ''4k'']),
      field ''logic'' (VStr (js ''AND''))]]"

definition CODEX_CLI_HEADERS :: "string list" where
  "CODEX_CLI_HEADERS =
    [''Originator'', ''Session_id'', ''User-Agent'', ''X-Codex-Beta-Features'', ''X-Codex-Turn-Metadata'']"

definition CLAUDE_CLI_HEADERS :: "string list" where
  "CLAUDE_CLI_HEADERS =
    [''X-Stainless-Arch'', ''X-Stainless-Lang'', ''X-Stainless-Os'', ''X-Stainless-Package-Version'',
     ''X-Stainless-Retry-Count'', ''X-Stainless-Runtime'', ''X-Stainless-Runtime-Version'',
     ''X-Stainless-Timeout'', ''User-Agent'', ''X-App'', ''Anthropic-Beta'',
     ''Anthropic-Dangerous-Direct-Browser-Access'', ''Anthropic-Version'']"

definition buildPassHeadersTemplate :: "string list \<Rightarrow> jsobj" where
  "buildPassHeadersTemplate headers = operations_object
    [[field ''mode'' (VStr (js ''pass_headers'')), field ''value'' (VArr (map (\<lambda>h. VStr (js h)) headers)),
      field ''keep_origin'' (VBool True)]]"

definition AWS_BETA_TOKENS :: jsobj where
  "AWS_BETA_TOKENS =
    [(js ''advanced-tool-use-2025-11-20'', VStr (js ''tool-search-tool-2025-10-19'')),
     (js ''bash_20241022'', VNull), (js ''bash_20250124'', VNull), (js ''code-execution-2025-08-25'', VNull),
     (js ''compact-2026-01-12'', VStr (js ''compact-2026-01-12'')),
     (js ''computer-use-2025-01-24'', VStr (js ''computer-use-2025-01-24'')),
     (js ''computer-use-2025-11-24'', VStr (js ''computer-use-2025-11-24'')),
     (js ''context-1m-2025-08-07'', VStr (js ''context-1m-2025-08-07'')),
     (js ''context-management-2025-06-27'', VStr (js ''context-management-2025-06-27'')),
     (js ''effort-2025-11-24'', VNull), (js ''fast-mode-2026-02-01'', VNull),
     (js ''files-api-2025-04-14'', VNull), (js ''fine-grained-tool-streaming-2025-05-14'', VNull),
     (js ''interleaved-thinking-2025-05-14'', VStr (js ''interleaved-thinking-2025-05-14'')),
     (js ''mcp-client-2025-11-20'', VNull), (js ''mcp-client-2025-04-04'', VNull),
     (js ''mcp-servers-2025-12-04'', VNull), (js ''output-128k-2025-02-19'', VNull),
     (js ''structured-output-2024-03-01'', VNull), (js ''prompt-caching-scope-2026-01-05'', VNull),
     (js ''skills-2025-10-02'', VNull), (js ''structured-outputs-2025-11-13'', VNull),
     (js ''text_editor_20241022'', VNull), (js ''text_editor_20250124'', VNull),
     (js ''token-efficient-tools-2025-02-19'', VNull),
     (js ''tool-search-tool-2025-10-19'', VStr (js ''tool-search-tool-2025-10-19'')),
     (js ''web-fetch-2025-09-10'', VNull), (js ''web-search-2025-03-05'', VNull),
     (js ''oauth-2025-04-20'', VNull)]"

definition AWS_BEDROCK_ANTHROPIC_COMPAT_TEMPLATE :: jsobj where
  "AWS_BEDROCK_ANTHROPIC_COMPAT_TEMPLATE = operations_object
    [[field ''description'' (VStr (js ''Normalize anthropic-beta header tokens for Bedrock compatibility.'')),
      field ''mode'' (VStr (js ''set_header'')), field ''path'' (VStr (js ''anthropic-beta'')),
      field ''value'' (VObj AWS_BETA_TOKENS)],
     [field ''description'' (VStr (js ''Remove all tools[*].custom.input_examples before upstream relay.'')),
      field ''mode'' (VStr (js ''delete'')), field ''path'' (VStr (js ''tools.*.custom.input_examples''))]]"

datatype preset_kind = Kind_operations | Kind_legacy

definition TEMPLATE_PRESET_CONFIG :: "(jstr \<times> preset_kind \<times> jsobj) list" where
  "TEMPLATE_PRESET_CONFIG =
    [(js ''operations_default'', Kind_operations, OPERATION_TEMPLATE),
     (js ''legacy_default'', Kind_legacy, LEGACY_TEMPLATE),
     (js ''pass_headers_auth'', Kind_operations, HEADER_PASSTHROUGH_TEMPLATE),
     (js ''gemini_image_4k'', Kind_operations, GEMINI_IMAGE_4K_TEMPLATE),
     (js ''claude_cli_headers_passthrough'', Kind_operations, buildPassHeadersTemplate CLAUDE_CLI_HEADERS),
     (js ''codex_cli_headers_passthrough'', Kind_operations, buildPassHeadersTemplate CODEX_CLI_HEADERS),
     (js ''aws_bedrock_anthropic_beta_override'', Kind_operations, AWS_BEDROCK_ANTHROPIC_COMPAT_TEMPLATE)]"

text \<open>\<open>TEMPLATE_PRESET_CONFIG[key] || TEMPLATE_PRESET_CONFIG.operations_default\<close>.\<close>

definition preset_of :: "jstr \<Rightarrow> preset_kind \<times> jsobj" where
  "preset_of key = (case map_of TEMPLATE_PRESET_CONFIG key of Some p \<Rightarrow> p
     | None \<Rightarrow> (Kind_operations, OPERATION_TEMPLATE))"

definition template_operations :: "jsobj \<Rightarrow> jsval list" where
  "template_operations payload = (case obj_get payload (js ''operations'') of VArr vs \<Rightarrow> vs | _ \<Rightarrow> [])"

section \<open>The presets are valid\<close>

lemma rule_check_operation_of: "rule_check (operation_of i v cs) = rule_check (operation_of [] v [])"
  by (simp add: rule_check_def the_mode_def operation_of_def)

fun objects_only :: "jsval list \<Rightarrow> bool" where
  "objects_only [] = True"
| "objects_only (VObj ob # vs) = objects_only vs"
| "objects_only (_ # vs) = False"

definition readable_rule :: "jsval \<Rightarrow> bool" where
  "readable_rule v = (case v of
     VObj ob \<Rightarrow> (case obj_get ob (js ''conditions'') of VArr vs \<Rightarrow> objects_only vs | _ \<Rightarrow> True) | _ \<Rightarrow> False)"

lemma normalizeOverrideCondition_object:
  "normalizeOverrideCondition clk (VObj ob) n = Inr (condition_of (nextLocalId clk n) (VObj ob), Suc n)"
  by (simp add: normalizeOverrideCondition_def arg_object_def)

lemma map_make_objects: "objects_only vs \<Longrightarrow> \<exists>cs n'. map_make (normalizeOverrideCondition clk) vs n = Inr (cs, n')"
proof (induction vs arbitrary: n rule: objects_only.induct)
  case (2 ob vs)
  then obtain cs n' where "map_make (normalizeOverrideCondition clk) vs (Suc n) = Inr (cs, n')" by fastforce
  then show ?case by (simp add: normalizeOverrideCondition_object)
qed simp_all

lemma readable_rule_read:
  assumes "readable_rule v"
  shows "\<exists>cs n'. normalizeOperation clk v n = Inr (operation_of (nextLocalId clk n) v cs, n')"
proof -
  obtain ob where v: "v = VObj ob" using assms by (auto simp: readable_rule_def split: jsval.splits)
  have "\<exists>cs n'. (case obj_get ob (js ''conditions'') of VArr vs \<Rightarrow> map_make (normalizeOverrideCondition clk) vs (Suc n)
      | _ \<Rightarrow> Inr ([], Suc n)) = Inr (cs, n')"
    using assms map_make_objects unfolding v by (auto simp: readable_rule_def split: jsval.splits)
  then show ?thesis by (auto simp: v normalizeOperation_def arg_object_def)
qed

lemma readable_rules_read:
  "list_all readable_rule vs \<Longrightarrow> \<exists>ops n'. map_make (normalizeOperation clk) vs n = Inr (ops, n') \<and>
     map rule_check ops = map (\<lambda>v. rule_check (operation_of [] v [])) vs"
proof (induction vs arbitrary: n)
  case (Cons v vs)
  then obtain cs n1 where 1: "normalizeOperation clk v n = Inr (operation_of (nextLocalId clk n) v cs, n1)"
    using readable_rule_read [of v clk n] by auto
  obtain ops n2 where 2: "map_make (normalizeOperation clk) vs n1 = Inr (ops, n2)"
    "map rule_check ops = map (\<lambda>v. rule_check (operation_of [] v [])) vs"
    using Cons.IH [of n1] Cons.prems by auto
  show ?case using 1 2 rule_check_operation_of [of "nextLocalId clk n" v cs]
    by (intro exI [of _ "operation_of (nextLocalId clk n) v cs # ops"] exI [of _ n2]) simp
qed simp

definition preset_ok :: "jsobj \<Rightarrow> bool" where
  "preset_ok payload \<longleftrightarrow> template_operations payload \<noteq> [] \<and> list_all readable_rule (template_operations payload) \<and>
     list_all (\<lambda>v. rule_check (operation_of [] v []) = None) (template_operations payload)"

lemma preset_texts: "trim (js ''anthropic-beta'') \<noteq> []" "trim (js ''tools.*.custom.input_examples'') \<noteq> []"
  "trim (js ''temperature'') \<noteq> []" "trim (js ''generationConfig.imageConfig.imageSize'') \<noteq> []"
  "trim (js ''Originator'') \<noteq> []" "trim (js ''X-Stainless-Arch'') \<noteq> []" "trim (js ''X-Request-Id'') \<noteq> []"
  by code_simp+

lemma printed_not_blank: "trim (stringify (VObj ob)) \<noteq> []" "trim (stringify (VArr vs)) \<noteq> []"
  using trim_trimmed [of "stringify (VObj ob)"] trim_trimmed [of "stringify (VArr vs)"]
  by (simp_all add: trimmed_def is_ws_def)

lemma parse_printed_list: "json_ok (VArr vs) \<Longrightarrow> parseLooseValue (stringify (VArr vs)) = VArr vs"
  using trim_trimmed [of "stringify (VArr vs)"] json_parse_stringify [of "VArr vs"]
  by (simp add: parseLooseValue_def trimmed_def is_ws_def del: json_ok.simps)

text \<open>What each mode of the presets asks of the object a rule is read from.\<close>

lemma known_mode: "js_prop v (js ''mode'') = VStr m \<Longrightarrow> m \<in> set OPERATION_MODE_VALUES \<Longrightarrow>
    mode_field OPERATION_MODE_VALUES d v = m"
  by (simp add: mode_field_def)

lemma preset_modes: "list_all (\<lambda>m. m \<in> set OPERATION_MODE_VALUES \<and> m \<noteq> []) [js ''set'', js ''set_header'', js ''delete'', js ''pass_headers'']"
  "list_all (\<lambda>m. m \<notin> set FROM_REQUIRED_MODES \<and> m \<notin> set TO_REQUIRED_MODES) [js ''set'', js ''set_header'', js ''delete'', js ''pass_headers'']"
  "js ''set'' \<notin> set VALUE_REQUIRED_MODES" "js ''delete'' \<notin> set VALUE_REQUIRED_MODES"
  "\<not> mm_path (meta_of (js ''pass_headers''))"
  by (simp_all add: OPERATION_MODE_VALUES_def OPERATION_MODE_OPTIONS_def FROM_REQUIRED_MODES_def TO_REQUIRED_MODES_def
      VALUE_REQUIRED_MODES_def meta_of_def MODE_META_def meta_defs)

lemma rule_ok_by_mode:
  "js_prop v (js ''mode'') = VStr (js ''set'') \<Longrightarrow> trim (str_field v (js ''path'')) \<noteq> [] \<Longrightarrow> rule_check (operation_of i v cs) = None"
  "js_prop v (js ''mode'') = VStr (js ''delete'') \<Longrightarrow> trim (str_field v (js ''path'')) \<noteq> [] \<Longrightarrow> rule_check (operation_of i v cs) = None"
  "js_prop v (js ''mode'') = VStr (js ''set_header'') \<Longrightarrow> trim (str_field v (js ''path'')) \<noteq> [] \<Longrightarrow>
     trim (toValueText (js_prop v (js ''value''))) \<noteq> [] \<Longrightarrow> rule_check (operation_of i v cs) = None"
  "js_prop v (js ''mode'') = VStr (js ''pass_headers'') \<Longrightarrow>
     js_prop v (js ''value'') = VArr (map (\<lambda>h. VStr (js h)) (h # hs)) \<Longrightarrow> trim (js h) \<noteq> [] \<Longrightarrow>
     rule_check (operation_of i v cs) = None"
proof -
  let ?o = "operation_of i v cs"
  have f: "op_mode ?o = mode_field OPERATION_MODE_VALUES (js ''set'') v" "op_path ?o = str_field v (js ''path'')"
    "op_value_text ?o = toValueText (js_prop v (js ''value''))" by (simp_all add: operation_of_def)
  note m = preset_modes [unfolded list.pred_inject]
  show "rule_check ?o = None" if "js_prop v (js ''mode'') = VStr (js ''set'')" "trim (str_field v (js ''path'')) \<noteq> []"
    using that m known_mode [OF that(1), of "js ''set''"] by (simp add: rule_check_None_iff the_mode_def f)
  show "rule_check ?o = None" if "js_prop v (js ''mode'') = VStr (js ''delete'')" "trim (str_field v (js ''path'')) \<noteq> []"
    using that m known_mode [OF that(1), of "js ''set''"] by (simp add: rule_check_None_iff the_mode_def f)
  show "rule_check ?o = None" if "js_prop v (js ''mode'') = VStr (js ''set_header'')" "trim (str_field v (js ''path'')) \<noteq> []"
    "trim (toValueText (js_prop v (js ''value''))) \<noteq> []"
    using that m known_mode [OF that(1), of "js ''set''"] by (simp add: rule_check_None_iff the_mode_def f)
  show "rule_check ?o = None" if p: "js_prop v (js ''mode'') = VStr (js ''pass_headers'')"
    and l: "js_prop v (js ''value'') = VArr (map (\<lambda>h. VStr (js h)) (h # hs))" and h: "trim (js h) \<noteq> []"
  proof -
    let ?l = "VArr (map (\<lambda>h. VStr (js h)) (h # hs))"
    have "json_ok ?l" by simp
    from parse_printed_list [OF this] h
    have "parsePassHeaderNames (parseLooseValue (stringify ?l)) \<noteq> []"
      by (simp add: parsePassHeaderNames_def header_name_def del: stringify.simps)
    moreover have "toValueText ?l = stringify ?l" by (simp add: toValueText_def del: stringify.simps)
    ultimately show ?thesis
      using m known_mode [OF p, of "js ''set''"] printed_not_blank(2)
      by (simp add: rule_check_None_iff the_mode_def f l del: stringify.simps list.map)
  qed
qed

lemma preset_okI:
  "vs \<noteq> [] \<Longrightarrow> list_all (\<lambda>ob. readable_rule (VObj ob)) vs \<Longrightarrow> list_all (\<lambda>ob. rule_check (operation_of [] (VObj ob) []) = None) vs \<Longrightarrow>
     preset_ok (operations_object vs)"
  by (simp add: preset_ok_def operations_object_def template_operations_def field_def list_all_iff)

lemma pass_headers_preset_ok: "trim (js h) \<noteq> [] \<Longrightarrow> preset_ok (buildPassHeadersTemplate (h # hs))"
  unfolding buildPassHeadersTemplate_def
  by (rule preset_okI) (auto simp: readable_rule_def field_def intro!: rule_ok_by_mode(4) simp del: list.map)

lemma presets_ok: "preset_ok HEADER_PASSTHROUGH_TEMPLATE" "preset_ok OPERATION_TEMPLATE" "preset_ok GEMINI_IMAGE_4K_TEMPLATE"
  "preset_ok AWS_BEDROCK_ANTHROPIC_COMPAT_TEMPLATE"
  unfolding HEADER_PASSTHROUGH_TEMPLATE_def OPERATION_TEMPLATE_def GEMINI_IMAGE_4K_TEMPLATE_def
    AWS_BEDROCK_ANTHROPIC_COMPAT_TEMPLATE_def model_condition_def
  by (rule preset_okI; simp add: readable_rule_def field_def rule_ok_by_mode(1,2,3) rule_ok_by_mode(4) [where h = "''X-Request-Id''" and hs = "[]"]
      str_field_def preset_texts toValueText_def printed_not_blank del: stringify.simps)+

lemma header_presets_ok: "preset_ok (buildPassHeadersTemplate CLAUDE_CLI_HEADERS)" "preset_ok (buildPassHeadersTemplate CODEX_CLI_HEADERS)"
  unfolding CLAUDE_CLI_HEADERS_def CODEX_CLI_HEADERS_def by (rule pass_headers_preset_ok, rule preset_texts)+

lemma preset_of_cases: "preset_of key = (Kind_legacy, LEGACY_TEMPLATE) \<or>
    (fst (preset_of key) = Kind_operations \<and> preset_ok (snd (preset_of key)))"
  by (simp add: preset_of_def TEMPLATE_PRESET_CONFIG_def presets_ok header_presets_ok)

text \<open>Whatever preset is chosen, its rules are read without an error, there is at least one, and none is
  reported by the validation.\<close>

theorem presets_valid:
  assumes "fst (preset_of key) = Kind_operations"
  shows "\<exists>ops n'. map_make (normalizeOperation clk) (template_operations (snd (preset_of key))) n = Inr (ops, n') \<and>
    ops \<noteq> [] \<and> validateOperations tr ops = []"
proof -
  have ok: "preset_ok (snd (preset_of key))" using preset_of_cases [of key] assms by auto
  then obtain ops n' where o: "map_make (normalizeOperation clk) (template_operations (snd (preset_of key))) n = Inr (ops, n')"
    "map rule_check ops = map (\<lambda>v. rule_check (operation_of [] v [])) (template_operations (snd (preset_of key)))"
    using readable_rules_read unfolding preset_ok_def by blast
  have "set (map rule_check ops) \<subseteq> {None}"
    unfolding o(2) using ok by (auto simp: preset_ok_def list_all_iff)
  then have "validate_from tr k ops = []" for k
    by (induction ops arbitrary: k) auto
  moreover have "ops \<noteq> []" using o(2) ok by (auto simp: preset_ok_def)
  ultimately show ?thesis using o(1) by (auto simp: validateOperations_def)
qed

theorem presets_valid_witness:
  "\<exists>ops n'. map_make (normalizeOperation (\<lambda>_. 5)) (template_operations (snd (preset_of (js ''gemini_image_4k'')))) 0 = Inr (ops, n') \<and>
    ops \<noteq> [] \<and> validateOperations (\<lambda>k l. k) ops = []"
  using presets_valid [of "js ''gemini_image_4k''" "\<lambda>_. 5" 0 "\<lambda>k l. k"]
  by (simp add: preset_of_def TEMPLATE_PRESET_CONFIG_def)

end
