(* ===== verification/ParamOverrideEditor.thy ===== *)
theory ParamOverrideEditor
  imports ParamOverrideTemplates
begin

text \<open>
  The state of the parameter override dialog and its handlers. A handler is atomic: React applies the
  state setters of one handler together. The counter of ids is part of the state; toasts, saves and closing are logged. After
  each handler the effect that keeps the selection valid runs. \<open>tr key line\<close> is the translation.
\<close>

section \<open>The state\<close>

datatype editor_effect = Toast jstr | Saved jstr | Closed | Uncaught

record editor =
  ed_editMode :: edit_mode
  ed_visualMode :: visual_mode
  ed_legacyValue :: jstr
  ed_operations :: "operation list"
  ed_jsonText :: jstr
  ed_jsonError :: jstr
  ed_search :: jstr
  ed_selected :: jstr
  ed_expanded :: "bool named"
  ed_dragged :: jstr
  ed_dragOver :: jstr
  ed_dropPosition :: drop_position
  ed_preset :: jstr
  ed_seed :: nat
  ed_log :: "editor_effect list"

type_synonym translate = "jstr \<Rightarrow> nat option \<Rightarrow> jstr"

definition log_effect :: "editor_effect \<Rightarrow> editor \<Rightarrow> editor" where
  "log_effect e st = st\<lparr>ed_log := ed_log st @ [e]\<rparr>"

definition first_id :: "operation list \<Rightarrow> jstr" where
  "first_id ops = (case ops of [] \<Rightarrow> [] | p # _ \<Rightarrow> op_id p)"

definition initial_editor :: "(nat \<Rightarrow> nat) \<Rightarrow> nat \<Rightarrow> editor" where
  "initial_editor clk n = (case default_operations clk n of (ops, m) \<Rightarrow>
     \<lparr>ed_editMode = Visual, ed_visualMode = Operations, ed_legacyValue = [], ed_operations = ops, ed_jsonText = [],
      ed_jsonError = [], ed_search = [], ed_selected = [], ed_expanded = [], ed_dragged = [], ed_dragOver = [],
      ed_dropPosition = Before, ed_preset = js ''operations_default'', ed_seed = m, ed_log = []\<rparr>)"

text \<open>The effect of opening the dialog on a value: an error thrown while reading it leaves the state.\<close>

definition open_editor :: "(nat \<Rightarrow> nat) \<Rightarrow> jstr \<Rightarrow> editor \<Rightarrow> editor" where
  "open_editor clk text st = (case parseInitialState clk text (ed_seed st) of
     Inl e \<Rightarrow> log_effect Uncaught st
   | Inr (s, n) \<Rightarrow>
      st\<lparr>ed_editMode := in_editMode s, ed_visualMode := in_visualMode s, ed_legacyValue := in_legacyValue s,
         ed_operations := in_operations s, ed_jsonText := in_jsonText s, ed_jsonError := in_jsonError s,
         ed_search := [], ed_selected := first_id (in_operations s), ed_expanded := [], ed_dragged := [],
         ed_dragOver := [], ed_dropPosition := Before,
         ed_preset := (if in_visualMode s = Legacy then js ''legacy_default'' else js ''operations_default''),
         ed_seed := n\<rparr>)"

text \<open>The effect that keeps the selected id valid.\<close>

definition keep_selected :: "editor \<Rightarrow> editor" where
  "keep_selected st =
     (if ed_operations st = [] then st\<lparr>ed_selected := []\<rparr>
      else if \<not> list_ex (\<lambda>p. op_id p = ed_selected st) (ed_operations st)
      then st\<lparr>ed_selected := op_id (hd (ed_operations st))\<rparr>
      else st)"

section \<open>Derived values\<close>

definition operationCount :: "editor \<Rightarrow> nat" where
  "operationCount st = length (filter (\<lambda>p. \<not> isOperationBlank p) (ed_operations st))"

definition searchable_text :: "operation \<Rightarrow> jstr" where
  "searchable_text p = join (js '' '') (filter (\<lambda>t. t \<noteq> [])
     [op_description p, op_mode p, op_path p, op_from p, op_to p, op_value_text p])"

text \<open>\<open>lc\<close> is toLowerCase.\<close>

definition filteredOperations :: "(jstr \<Rightarrow> jstr) \<Rightarrow> editor \<Rightarrow> operation list" where
  "filteredOperations lc st = (let keyword = lc (trim (ed_search st)) in
     if keyword = [] then ed_operations st
     else filter (\<lambda>p. str_includes (lc (searchable_text p)) keyword) (ed_operations st))"

definition selectedOperation :: "editor \<Rightarrow> operation option" where
  "selectedOperation st = find (\<lambda>p. op_id p = ed_selected st) (ed_operations st)"

definition selectedOperationIndex :: "editor \<Rightarrow> nat option" where
  "selectedOperationIndex st = find_index (\<lambda>p. op_id p = ed_selected st) (ed_operations st)"

definition returnErrorDraft :: "editor \<Rightarrow> return_error_draft option" where
  "returnErrorDraft st = (case selectedOperation st of
     Some p \<Rightarrow> if op_mode p = js ''return_error'' then Some (parseReturnErrorDraft (op_value_text p)) else None
   | None \<Rightarrow> None)"

definition pruneObjectsDraft :: "(nat \<Rightarrow> nat) \<Rightarrow> editor \<Rightarrow> prune_draft option \<times> nat" where
  "pruneObjectsDraft clk st = (case selectedOperation st of
     Some p \<Rightarrow> if op_mode p = js ''prune_objects''
       then (case parsePruneObjectsDraft clk (op_value_text p) (ed_seed st) of (d, n) \<Rightarrow> (Some d, n)) else (None, ed_seed st)
   | None \<Rightarrow> (None, ed_seed st))"

definition count_mode :: "jstr \<Rightarrow> nat named \<Rightarrow> nat named" where
  "count_mode m counts = named_put m (case named_get counts m of Some k \<Rightarrow> k + 1 | None \<Rightarrow> 1) counts"

definition topOperationModes :: "editor \<Rightarrow> (jstr \<times> nat) list" where
  "topOperationModes st = take 4 (js_sort (\<lambda>a b. snd b \<le> snd a)
     (own_entries (foldl (\<lambda>counts p. count_mode (the_mode p) counts) [] (ed_operations st))))"

section \<open>Rules\<close>

datatype op_patch = Set_description jstr | Set_path jstr | Set_mode jstr | Set_from jstr | Set_to jstr
  | Set_value_text jstr | Set_keep_origin bool | Set_logic jstr

fun apply_patch :: "op_patch \<Rightarrow> operation \<Rightarrow> operation" where
  "apply_patch (Set_description t) p = p\<lparr>op_description := t\<rparr>"
| "apply_patch (Set_path t) p = p\<lparr>op_path := t\<rparr>"
| "apply_patch (Set_mode t) p = p\<lparr>op_mode := t\<rparr>"
| "apply_patch (Set_from t) p = p\<lparr>op_from := t\<rparr>"
| "apply_patch (Set_to t) p = p\<lparr>op_to := t\<rparr>"
| "apply_patch (Set_value_text t) p = p\<lparr>op_value_text := t\<rparr>"
| "apply_patch (Set_keep_origin b) p = p\<lparr>op_keep_origin := b\<rparr>"
| "apply_patch (Set_logic t) p = p\<lparr>op_logic := t\<rparr>"

definition map_operation :: "jstr \<Rightarrow> (operation \<Rightarrow> operation) \<Rightarrow> operation list \<Rightarrow> operation list" where
  "map_operation i f ops = map (\<lambda>p. if op_id p = i then f p else p) ops"

definition updateOperation :: "jstr \<Rightarrow> op_patch \<Rightarrow> editor \<Rightarrow> editor" where
  "updateOperation i patch st = st\<lparr>ed_operations := map_operation i (apply_patch patch) (ed_operations st)\<rparr>"

definition addOperation :: "(nat \<Rightarrow> nat) \<Rightarrow> editor \<Rightarrow> editor" where
  "addOperation clk st = (case createDefaultOperation clk (ed_seed st) of (created, n) \<Rightarrow>
     st\<lparr>ed_operations := ed_operations st @ [created], ed_selected := op_id created, ed_seed := n\<rparr>)"

text \<open>The copy goes through the loose reading of its texts. The updater sets \<open>insertedId\<close>, which
  is read right after the call: React runs the updater at once only when no other update is queued (\<open>eager\<close>).\<close>

definition condition_copy :: "condition \<Rightarrow> jsval" where
  "condition_copy c = VObj [(js ''path'', VStr (oc_path c)), (js ''mode'', VStr (oc_mode c)),
     (js ''value'', parseLooseValue (oc_value_text c)), (js ''invert'', VBool (oc_invert c)),
     (js ''pass_missing_key'', VBool (oc_pass_missing_key c))]"

definition operation_copy :: "operation \<Rightarrow> jsval" where
  "operation_copy p = VObj [(js ''description'', VStr (op_description p)), (js ''path'', VStr (op_path p)),
     (js ''mode'', VStr (op_mode p)), (js ''value'', parseLooseValue (op_value_text p)),
     (js ''keep_origin'', VBool (op_keep_origin p)), (js ''from'', VStr (op_from p)), (js ''to'', VStr (op_to p)),
     (js ''logic'', VStr (op_logic p)), (js ''conditions'', VArr (map condition_copy (op_conditions p)))]"

definition duplicateOperation :: "(nat \<Rightarrow> nat) \<Rightarrow> bool \<Rightarrow> jstr \<Rightarrow> editor \<Rightarrow> editor" where
  "duplicateOperation clk eager i st = (case find_index (\<lambda>p. op_id p = i) (ed_operations st) of
     None \<Rightarrow> st
   | Some k \<Rightarrow>
      (case normalizeOperation clk (operation_copy (ed_operations st ! k)) (ed_seed st) of
         Inl e \<Rightarrow> log_effect Uncaught st
       | Inr (cloned, n) \<Rightarrow>
          st\<lparr>ed_operations := take (k + 1) (ed_operations st) @ [cloned] @ drop (k + 1) (ed_operations st),
             ed_selected := (if eager then op_id cloned else ed_selected st), ed_seed := n\<rparr>))"

definition removeOperation :: "(nat \<Rightarrow> nat) \<Rightarrow> jstr \<Rightarrow> editor \<Rightarrow> editor" where
  "removeOperation clk i st =
     (if length (ed_operations st) \<le> 1
      then (case default_operations clk (ed_seed st) of (ops, n) \<Rightarrow> st\<lparr>ed_operations := ops, ed_seed := n\<rparr>)
      else st\<lparr>ed_operations := filter (\<lambda>p. op_id p \<noteq> i) (ed_operations st)\<rparr>)"

section \<open>Conditions\<close>

datatype condition_patch = Cond_path jstr | Cond_mode jstr | Cond_value_text jstr | Cond_invert bool
  | Cond_pass_missing_key bool

fun apply_condition_patch :: "condition_patch \<Rightarrow> condition \<Rightarrow> condition" where
  "apply_condition_patch (Cond_path t) c = c\<lparr>oc_path := t\<rparr>"
| "apply_condition_patch (Cond_mode t) c = c\<lparr>oc_mode := t\<rparr>"
| "apply_condition_patch (Cond_value_text t) c = c\<lparr>oc_value_text := t\<rparr>"
| "apply_condition_patch (Cond_invert b) c = c\<lparr>oc_invert := b\<rparr>"
| "apply_condition_patch (Cond_pass_missing_key b) c = c\<lparr>oc_pass_missing_key := b\<rparr>"

definition addCondition :: "(nat \<Rightarrow> nat) \<Rightarrow> jstr \<Rightarrow> editor \<Rightarrow> editor" where
  "addCondition clk i st = (case createDefaultCondition clk (ed_seed st) of (created, n) \<Rightarrow>
     st\<lparr>ed_operations := map_operation i (\<lambda>p. p\<lparr>op_conditions := op_conditions p @ [created]\<rparr>) (ed_operations st),
        ed_expanded := named_put (oc_id created) True (ed_expanded st), ed_seed := n\<rparr>)"

definition updateCondition :: "jstr \<Rightarrow> jstr \<Rightarrow> condition_patch \<Rightarrow> editor \<Rightarrow> editor" where
  "updateCondition i ci patch st =
     st\<lparr>ed_operations := map_operation i (\<lambda>p. p\<lparr>op_conditions :=
        map (\<lambda>c. if oc_id c = ci then apply_condition_patch patch c else c) (op_conditions p)\<rparr>) (ed_operations st)\<rparr>"

definition removeCondition :: "jstr \<Rightarrow> jstr \<Rightarrow> editor \<Rightarrow> editor" where
  "removeCondition i ci st =
     st\<lparr>ed_operations := map_operation i (\<lambda>p. p\<lparr>op_conditions :=
        filter (\<lambda>c. oc_id c \<noteq> ci) (op_conditions p)\<rparr>) (ed_operations st)\<rparr>"

definition set_all_expanded :: "bool \<Rightarrow> editor \<Rightarrow> editor" where
  "set_all_expanded b st = (case selectedOperation st of None \<Rightarrow> st
   | Some p \<Rightarrow> st\<lparr>ed_expanded := foldl (\<lambda>m c. named_put (oc_id c) b m) (ed_expanded st) (op_conditions p)\<rparr>)"

definition expandAllConditions :: "editor \<Rightarrow> editor" where
  "expandAllConditions st = set_all_expanded True st"

definition collapseAllConditions :: "editor \<Rightarrow> editor" where
  "collapseAllConditions st = set_all_expanded False st"

section \<open>Drafts\<close>

datatype return_error_patch = Err_message jstr | Err_statusCode jsnum | Err_code jstr | Err_type jstr
  | Err_skipRetry bool | Err_simpleMode bool | Err_preset jsnum jstr jstr

fun apply_return_error_patch :: "return_error_patch \<Rightarrow> return_error_draft \<Rightarrow> return_error_draft" where
  "apply_return_error_patch (Err_message t) d = d\<lparr>rd_message := t\<rparr>"
| "apply_return_error_patch (Err_statusCode x) d = d\<lparr>rd_statusCode := x\<rparr>"
| "apply_return_error_patch (Err_code t) d = d\<lparr>rd_code := t\<rparr>"
| "apply_return_error_patch (Err_type t) d = d\<lparr>rd_type := t\<rparr>"
| "apply_return_error_patch (Err_skipRetry b) d = d\<lparr>rd_skipRetry := b\<rparr>"
| "apply_return_error_patch (Err_simpleMode b) d = d\<lparr>rd_simpleMode := b\<rparr>"
| "apply_return_error_patch (Err_preset x c t) d = d\<lparr>rd_statusCode := x, rd_code := c, rd_type := t\<rparr>"

definition updateReturnErrorDraft :: "jstr \<Rightarrow> return_error_patch \<Rightarrow> editor \<Rightarrow> editor" where
  "updateReturnErrorDraft i patch st =
     st\<lparr>ed_operations := map_operation i (\<lambda>p. p\<lparr>op_value_text :=
        buildReturnErrorValueText (apply_return_error_patch patch (parseReturnErrorDraft (op_value_text p)))\<rparr>)
        (ed_operations st)\<rparr>"

text \<open>An updater of the pruning draft may make ids, so that the counter goes through the list of rules.\<close>

type_synonym prune_updater = "prune_draft \<Rightarrow> nat \<Rightarrow> prune_draft \<times> nat"

definition prune_text :: "(nat \<Rightarrow> nat) \<Rightarrow> prune_updater \<Rightarrow> jstr \<Rightarrow> nat \<Rightarrow> jstr \<times> nat" where
  "prune_text clk upd text n = (case parsePruneObjectsDraft clk text n of (d, n1) \<Rightarrow>
     (case upd d n1 of (d2, n2) \<Rightarrow> (buildPruneObjectsValueText d2, n2)))"

fun update_prune :: "(nat \<Rightarrow> nat) \<Rightarrow> jstr \<Rightarrow> prune_updater \<Rightarrow> operation list \<Rightarrow> nat \<Rightarrow> operation list \<times> nat" where
  "update_prune clk i upd [] n = ([], n)"
| "update_prune clk i upd (p # ps) n =
     (case (if op_id p = i
            then (case prune_text clk upd (op_value_text p) n of (t, n1) \<Rightarrow> (p\<lparr>op_value_text := t\<rparr>, n1))
            else (p, n)) of (q, n1) \<Rightarrow>
        (case update_prune clk i upd ps n1 of (qs, n2) \<Rightarrow> (q # qs, n2)))"

definition updatePruneObjectsDraft :: "(nat \<Rightarrow> nat) \<Rightarrow> jstr \<Rightarrow> prune_updater \<Rightarrow> editor \<Rightarrow> editor" where
  "updatePruneObjectsDraft clk i upd st = (case update_prune clk i upd (ed_operations st) (ed_seed st) of (ops, n) \<Rightarrow>
     st\<lparr>ed_operations := ops, ed_seed := n\<rparr>)"

datatype prune_patch = Prune_simpleMode bool | Prune_typeText jstr | Prune_logic jstr | Prune_recursive bool

fun apply_prune_patch :: "prune_patch \<Rightarrow> prune_updater" where
  "apply_prune_patch (Prune_simpleMode b) d n = (d\<lparr>pd_simpleMode := b\<rparr>, n)"
| "apply_prune_patch (Prune_typeText t) d n = (d\<lparr>pd_typeText := t\<rparr>, n)"
| "apply_prune_patch (Prune_logic t) d n = (d\<lparr>pd_logic := (if t = [] then js ''AND'' else t)\<rparr>, n)"
| "apply_prune_patch (Prune_recursive b) d n = (d\<lparr>pd_recursive := b\<rparr>, n)"

definition add_rule :: "(nat \<Rightarrow> nat) \<Rightarrow> prune_updater" where
  "add_rule clk d n = (case normalizePruneRule clk (VObj []) n of (r, m) \<Rightarrow>
     (d\<lparr>pd_simpleMode := False, pd_rules := pd_rules d @ [r]\<rparr>, m))"

definition addPruneRule :: "(nat \<Rightarrow> nat) \<Rightarrow> jstr \<Rightarrow> editor \<Rightarrow> editor" where
  "addPruneRule clk i st = updatePruneObjectsDraft clk i (add_rule clk) st"

definition updatePruneRule :: "(nat \<Rightarrow> nat) \<Rightarrow> jstr \<Rightarrow> jstr \<Rightarrow> condition_patch \<Rightarrow> editor \<Rightarrow> editor" where
  "updatePruneRule clk i ri patch st = updatePruneObjectsDraft clk i
     (\<lambda>d n. (d\<lparr>pd_rules := map (\<lambda>r. if oc_id r = ri then apply_condition_patch patch r else r) (pd_rules d)\<rparr>, n)) st"

definition removePruneRule :: "(nat \<Rightarrow> nat) \<Rightarrow> jstr \<Rightarrow> jstr \<Rightarrow> editor \<Rightarrow> editor" where
  "removePruneRule clk i ri st = updatePruneObjectsDraft clk i
     (\<lambda>d n. (d\<lparr>pd_rules := filter (\<lambda>r. oc_id r \<noteq> ri) (pd_rules d)\<rparr>, n)) st"

section \<open>Drag and drop\<close>

definition resetDragState :: "editor \<Rightarrow> editor" where
  "resetDragState st = st\<lparr>ed_dragged := [], ed_dragOver := [], ed_dropPosition := Before\<rparr>"

definition handleDragStart :: "jstr \<Rightarrow> editor \<Rightarrow> editor" where
  "handleDragStart i st = st\<lparr>ed_dragged := i, ed_selected := i\<rparr>"

text \<open>\<open>lower_half\<close>: the pointer is below the middle of the card.\<close>

definition handleDragOver :: "jstr \<Rightarrow> bool \<Rightarrow> editor \<Rightarrow> editor" where
  "handleDragOver i lower_half st =
     (if ed_dragged st = [] \<or> ed_dragged st = i then st
      else st\<lparr>ed_dragOver := i, ed_dropPosition := (if lower_half then After else Before)\<rparr>)"

text \<open>\<open>data\<close> is the text the drag event carries.\<close>

definition handleDrop :: "jstr \<Rightarrow> jstr \<Rightarrow> editor \<Rightarrow> editor" where
  "handleDrop i data st =
     (let sourceId = (if ed_dragged st = [] then data else ed_dragged st);
          position = (if ed_dragOver st = i then ed_dropPosition st else Before) in
      resetDragState
       (if sourceId \<noteq> [] \<and> i \<noteq> [] \<and> sourceId \<noteq> i
        then st\<lparr>ed_operations := reorderOperations (ed_operations st) sourceId i position, ed_selected := sourceId\<rparr>
        else st))"

section \<open>Modes\<close>

definition buildVisualJson :: "translate \<Rightarrow> editor \<Rightarrow> editor_error + jstr" where
  "buildVisualJson tr st =
     (if ed_visualMode st = Legacy
      then (let trimmed = trim (ed_legacyValue st) in
        if trimmed = [] then Inr []
        else case json_parse trimmed of
          None \<Rightarrow> Inl (Error (tr (js ''Parameter override must be valid JSON format'') None))
        | Some v \<Rightarrow> (case v of VObj ob \<Rightarrow> Inr (stringify2 v)
            | _ \<Rightarrow> Inl (Error (tr (js ''Legacy format must be a JSON object'') None))))
      else buildOperationsJson tr (ed_operations st) True)"

definition error_message :: "editor_error \<Rightarrow> jstr" where
  "error_message e = (case e of TypeError \<Rightarrow> js ''Cannot read properties of null'' | Error m \<Rightarrow> m)"

definition switchToJsonMode :: "translate \<Rightarrow> editor \<Rightarrow> editor" where
  "switchToJsonMode tr st =
     (if ed_editMode st = Json then st
      else case buildVisualJson tr st of
        Inr text \<Rightarrow> st\<lparr>ed_jsonText := text, ed_jsonError := [], ed_editMode := Json\<rparr>
      | Inl e \<Rightarrow>
         (let message = error_message e;
              text = (if ed_visualMode st = Legacy then ed_legacyValue st
                      else (case buildOperationsJson tr (ed_operations st) False of Inr t \<Rightarrow> t | Inl _ \<Rightarrow> ed_jsonText st)) in
          (log_effect (Toast message) st)\<lparr>ed_jsonText := text,
             ed_jsonError := (if message \<noteq> [] then message else tr (js ''Parameter configuration error'') None),
             ed_editMode := Json\<rparr>))"

definition switchToVisualMode :: "(nat \<Rightarrow> nat) \<Rightarrow> translate \<Rightarrow> editor \<Rightarrow> editor" where
  "switchToVisualMode clk tr st =
     (if ed_editMode st = Visual then st
      else (let trimmed = trim (ed_jsonText st); (fallback, m) = default_operations clk (ed_seed st) in
        if trimmed = []
        then st\<lparr>ed_visualMode := Operations, ed_operations := fallback, ed_selected := first_id fallback,
               ed_legacyValue := [], ed_jsonError := [], ed_editMode := Visual, ed_seed := m\<rparr>
        else case json_parse trimmed of
          None \<Rightarrow> log_effect (Toast (tr (js ''Parameter override must be valid JSON format'') None)) st
        | Some v \<Rightarrow>
           (case v of
              VObj ob \<Rightarrow>
                (case obj_get ob (js ''operations'') of
                   VArr vs \<Rightarrow>
                     (case read_operations clk vs (ed_seed st) of
                        Inl e \<Rightarrow> log_effect Uncaught st
                      | Inr (ops, n) \<Rightarrow>
                         st\<lparr>ed_visualMode := Operations, ed_operations := ops, ed_selected := first_id ops,
                            ed_legacyValue := [], ed_jsonError := [], ed_editMode := Visual,
                            ed_preset := js ''operations_default'', ed_seed := n\<rparr>)
                 | _ \<Rightarrow>
                     st\<lparr>ed_visualMode := Legacy, ed_legacyValue := stringify2 v, ed_operations := fallback,
                        ed_selected := first_id fallback, ed_jsonError := [], ed_editMode := Visual,
                        ed_preset := js ''legacy_default'', ed_seed := m\<rparr>)
            | _ \<Rightarrow> log_effect (Toast (tr (js ''Parameter override must be a valid JSON object'') None)) st)))"

section \<open>Templates\<close>

definition fill_legacy :: "(nat \<Rightarrow> nat) \<Rightarrow> jstr \<Rightarrow> editor \<Rightarrow> editor" where
  "fill_legacy clk text st = (case default_operations clk (ed_seed st) of (ops, n) \<Rightarrow>
     st\<lparr>ed_visualMode := Legacy, ed_legacyValue := text, ed_operations := ops, ed_jsonText := text,
        ed_jsonError := [], ed_editMode := Visual, ed_seed := n\<rparr>)"

text \<open>\<open>{ ...payload, ...current }\<close>.\<close>

definition merge_objects :: "jsobj \<Rightarrow> jsval \<Rightarrow> jsobj" where
  "merge_objects payload current = foldl (\<lambda>ob p. obj_set (fst p) (snd p) ob) payload (entries_of current)"

definition append_legacy :: "(nat \<Rightarrow> nat) \<Rightarrow> translate \<Rightarrow> jsobj \<Rightarrow> editor \<Rightarrow> editor" where
  "append_legacy clk tr payload st = (let trimmed = trim (ed_legacyValue st) in
     case (if trimmed = [] then Some (VObj []) else json_parse trimmed) of
       None \<Rightarrow> log_effect (Toast (tr (js ''Current legacy JSON is invalid, cannot append'') None)) st
     | Some current \<Rightarrow> fill_legacy clk (stringify2 (VObj (merge_objects payload current))) st)"

definition append_operations :: "(nat \<Rightarrow> nat) \<Rightarrow> jsval list \<Rightarrow> editor \<Rightarrow> editor" where
  "append_operations clk vs st = (case map_make (normalizeOperation clk) vs (ed_seed st) of
     Inl e \<Rightarrow> log_effect Uncaught st
   | Inr (appended, n) \<Rightarrow>
      (let existing = (if ed_visualMode st = Operations
                       then filter (\<lambda>p. \<not> isOperationBlank p) (ed_operations st) else []);
           nextOps = existing @ appended in
       st\<lparr>ed_visualMode := Operations, ed_operations := nextOps, ed_selected := first_id nextOps,
          ed_legacyValue := [], ed_jsonError := [], ed_editMode := Visual, ed_jsonText := [], ed_seed := n\<rparr>))"

definition fill_operations :: "(nat \<Rightarrow> nat) \<Rightarrow> jsval list \<Rightarrow> editor \<Rightarrow> editor" where
  "fill_operations clk vs st = (case read_operations clk vs (ed_seed st) of
     Inl e \<Rightarrow> log_effect Uncaught st
   | Inr (ops, n) \<Rightarrow>
      st\<lparr>ed_visualMode := Operations, ed_operations := ops, ed_selected := first_id ops,
         ed_jsonText := stringify2 (VObj [(js ''operations'', VArr vs)]), ed_jsonError := [],
         ed_editMode := Visual, ed_seed := n\<rparr>)"

definition fillTemplate :: "(nat \<Rightarrow> nat) \<Rightarrow> translate \<Rightarrow> bool \<Rightarrow> editor \<Rightarrow> editor" where
  "fillTemplate clk tr appending st = (case preset_of (ed_preset st) of (kind, payload) \<Rightarrow>
     if kind = Kind_legacy
     then (if appending \<and> ed_visualMode st = Legacy then append_legacy clk tr payload st
           else fill_legacy clk (stringify2 (VObj payload)) st)
     else if appending then append_operations clk (template_operations payload) st
     else fill_operations clk (template_operations payload) st)"

definition resetEditorState :: "(nat \<Rightarrow> nat) \<Rightarrow> editor \<Rightarrow> editor" where
  "resetEditorState clk st = (case default_operations clk (ed_seed st) of (fallback, n) \<Rightarrow>
     st\<lparr>ed_visualMode := Operations, ed_legacyValue := [], ed_operations := fallback, ed_selected := first_id fallback,
        ed_jsonText := [], ed_jsonError := [], ed_preset := js ''operations_default'', ed_editMode := Visual,
        ed_seed := n\<rparr>)"

section \<open>The JSON text and saving\<close>

definition handleJsonChange :: "translate \<Rightarrow> jstr \<Rightarrow> editor \<Rightarrow> editor" where
  "handleJsonChange tr text st =
     st\<lparr>ed_jsonText := text,
        ed_jsonError := (if trim text = [] \<or> verifyJSON (trim text) then [] else tr (js ''JSON format error'') None)\<rparr>"

definition formatJson :: "translate \<Rightarrow> editor \<Rightarrow> editor" where
  "formatJson tr st = (let trimmed = trim (ed_jsonText st) in
     if trimmed = [] then st
     else case json_parse trimmed of
       None \<Rightarrow> log_effect (Toast (tr (js ''Parameter override must be valid JSON format'') None)) st
     | Some v \<Rightarrow> st\<lparr>ed_jsonText := stringify2 v, ed_jsonError := []\<rparr>)"

definition visualValidationError :: "translate \<Rightarrow> editor \<Rightarrow> jstr" where
  "visualValidationError tr st =
     (if ed_editMode st \<noteq> Visual then []
      else case buildVisualJson tr st of Inr _ \<Rightarrow> []
        | Inl e \<Rightarrow> (if error_message e \<noteq> [] then error_message e else tr (js ''Parameter configuration error'') None))"

definition save_result :: "translate \<Rightarrow> editor \<Rightarrow> editor_error + jstr" where
  "save_result tr st =
     (if ed_editMode st = Json
      then (let trimmed = trim (ed_jsonText st) in
        if trimmed = [] then Inr []
        else case json_parse trimmed of
          None \<Rightarrow> Inl (Error (tr (js ''Parameter override must be valid JSON format'') None))
        | Some v \<Rightarrow> Inr (stringify2 v))
      else buildVisualJson tr st)"

definition handleSave :: "translate \<Rightarrow> editor \<Rightarrow> editor" where
  "handleSave tr st = (case save_result tr st of
     Inr text \<Rightarrow> log_effect Closed (log_effect (Saved text) st)
   | Inl e \<Rightarrow> log_effect (Toast (error_message e)) st)"

end
