(* ===== verification/ParamOverrideRun.thy ===== *)
theory ParamOverrideRun
  imports ParamOverrideEditor
begin

text \<open>
  Runs of the parameter override dialog: the events of the interface, one step for each, and what holds in every
  state that is reached from the opened dialog.
\<close>

section \<open>Events\<close>

datatype editor_event =
    Open jstr
  | Render nat
  | Search jstr
  | Choose_preset jstr
  | Edit_legacy jstr
  | Pick jstr
  | Update jstr op_patch
  | Add
  | Duplicate bool jstr
  | Remove jstr
  | Add_condition jstr
  | Update_condition jstr jstr condition_patch
  | Remove_condition jstr jstr
  | Update_return_error jstr return_error_patch
  | Update_prune jstr prune_patch
  | Add_prune_rule jstr
  | Update_prune_rule jstr jstr condition_patch
  | Remove_prune_rule jstr jstr
  | Drag_start jstr
  | Drag_over jstr bool
  | Drop_on jstr jstr
  | Drag_end
  | To_json
  | To_visual
  | Fill_template bool
  | Reset
  | Json_change jstr
  | Format_json
  | Save
  | Expand_all
  | Collapse_all

text \<open>A render may make ids that are not kept (the initial value of a state, a draft that is parsed again).\<close>

fun handle :: "(nat \<Rightarrow> nat) \<Rightarrow> translate \<Rightarrow> editor_event \<Rightarrow> editor \<Rightarrow> editor" where
  "handle clk tr (Open text) st = open_editor clk text st"
| "handle clk tr (Render k) st = st\<lparr>ed_seed := ed_seed st + k\<rparr>"
| "handle clk tr (Search text) st = st\<lparr>ed_search := text\<rparr>"
| "handle clk tr (Choose_preset key) st = st\<lparr>ed_preset := (if key = [] then js ''operations_default'' else key)\<rparr>"
| "handle clk tr (Edit_legacy text) st = st\<lparr>ed_legacyValue := text\<rparr>"
| "handle clk tr (Pick i) st = st\<lparr>ed_selected := i\<rparr>"
| "handle clk tr (Update i patch) st = updateOperation i patch st"
| "handle clk tr Add st = addOperation clk st"
| "handle clk tr (Duplicate eager i) st = duplicateOperation clk eager i st"
| "handle clk tr (Remove i) st = removeOperation clk i st"
| "handle clk tr (Add_condition i) st = addCondition clk i st"
| "handle clk tr (Update_condition i ci patch) st = updateCondition i ci patch st"
| "handle clk tr (Remove_condition i ci) st = removeCondition i ci st"
| "handle clk tr (Update_return_error i patch) st = updateReturnErrorDraft i patch st"
| "handle clk tr (Update_prune i patch) st = updatePruneObjectsDraft clk i (apply_prune_patch patch) st"
| "handle clk tr (Add_prune_rule i) st = addPruneRule clk i st"
| "handle clk tr (Update_prune_rule i ri patch) st = updatePruneRule clk i ri patch st"
| "handle clk tr (Remove_prune_rule i ri) st = removePruneRule clk i ri st"
| "handle clk tr (Drag_start i) st = handleDragStart i st"
| "handle clk tr (Drag_over i lower_half) st = handleDragOver i lower_half st"
| "handle clk tr (Drop_on i data) st = handleDrop i data st"
| "handle clk tr Drag_end st = resetDragState st"
| "handle clk tr To_json st = switchToJsonMode tr st"
| "handle clk tr To_visual st = switchToVisualMode clk tr st"
| "handle clk tr (Fill_template appending) st = fillTemplate clk tr appending st"
| "handle clk tr Reset st = resetEditorState clk st"
| "handle clk tr (Json_change text) st = handleJsonChange tr text st"
| "handle clk tr Format_json st = formatJson tr st"
| "handle clk tr Save st = handleSave tr st"
| "handle clk tr Expand_all st = expandAllConditions st"
| "handle clk tr Collapse_all st = collapseAllConditions st"

definition editor_step :: "(nat \<Rightarrow> nat) \<Rightarrow> translate \<Rightarrow> editor_event \<Rightarrow> editor \<Rightarrow> editor" where
  "editor_step clk tr e st = keep_selected (handle clk tr e st)"

inductive reachable :: "(nat \<Rightarrow> nat) \<Rightarrow> translate \<Rightarrow> editor \<Rightarrow> bool" for clk tr where
  reach_start: "reachable clk tr (keep_selected (initial_editor clk n))"
| reach_step: "reachable clk tr st \<Longrightarrow> reachable clk tr (editor_step clk tr e st)"

section \<open>Fresh ids\<close>

text \<open>The ids of a list of rules are distinct and were made by the counter below \<open>n\<close>.\<close>

definition fresh_ids :: "(nat \<Rightarrow> nat) \<Rightarrow> nat \<Rightarrow> operation list \<Rightarrow> bool" where
  "fresh_ids clk n ops \<longleftrightarrow> distinct (map op_id ops) \<and> (\<forall>p \<in> set ops. \<exists>k < n. op_id p = nextLocalId clk k)"

lemma fresh_mono: "fresh_ids clk n ops \<Longrightarrow> n \<le> m \<Longrightarrow> fresh_ids clk m ops"
  unfolding fresh_ids_def by (meson less_le_trans)

lemma fresh_not_new: "fresh_ids clk n ops \<Longrightarrow> n \<le> k \<Longrightarrow> nextLocalId clk k \<notin> op_id ` set ops"
  by (fastforce simp: fresh_ids_def)

lemma fresh_ids_alt: "fresh_ids clk n ops \<longleftrightarrow> distinct (map op_id ops) \<and> op_id ` set ops \<subseteq> nextLocalId clk ` {..<n}"
  by (auto simp: fresh_ids_def)

lemma fresh_same_ids: "map op_id ops' = map op_id ops \<Longrightarrow> fresh_ids clk n ops' = fresh_ids clk n ops"
  unfolding fresh_ids_alt by (metis list.set_map)

lemma fresh_mset: "mset ops' = mset ops \<Longrightarrow> fresh_ids clk n ops' = fresh_ids clk n ops"
  unfolding fresh_ids_def by (metis mset_eq_setD mset_map mset_eq_imp_distinct_iff)

lemma fresh_filter: "fresh_ids clk n ops \<Longrightarrow> fresh_ids clk n (filter P ops)"
  by (auto simp: fresh_ids_def distinct_map_filter)

lemma fresh_append:
  assumes "fresh_ids clk n xs" "distinct (map op_id ys)" "\<forall>p \<in> set ys. \<exists>k. n \<le> k \<and> k < m \<and> op_id p = nextLocalId clk k" "n \<le> m"
  shows "fresh_ids clk m (xs @ ys)"
proof -
  have new: "op_id p \<notin> op_id ` set xs" if y: "p \<in> set ys" for p
  proof -
    obtain k where "n \<le> k" "op_id p = nextLocalId clk k" using bspec [OF assms(3) y] by (elim exE conjE)
    then show ?thesis using fresh_not_new [OF assms(1)] by simp
  qed
  have "op_id ` set xs \<inter> op_id ` set ys = {}"
  proof (rule Int_emptyI)
    fix i assume i: "i \<in> op_id ` set xs" "i \<in> op_id ` set ys"
    from i(2) obtain p where "i = op_id p" "p \<in> set ys" by (rule imageE)
    with new i(1) show False by simp
  qed
  moreover have "op_id ` set ys \<subseteq> nextLocalId clk ` {..<m}"
  proof
    fix i assume "i \<in> op_id ` set ys"
    then obtain p where p: "p \<in> set ys" "i = op_id p" by (elim imageE)
    obtain k where "k < m" "op_id p = nextLocalId clk k" using bspec [OF assms(3) p(1)] by (elim exE conjE)
    then show "i \<in> nextLocalId clk ` {..<m}" using p(2) by simp
  qed
  ultimately show ?thesis using assms(2) fresh_mono [OF assms(1,4)] by (simp add: fresh_ids_alt image_Un)
qed

lemma default_operations_eq:
  "default_operations clk n = ([operation_of (nextLocalId clk n) (VObj [(js ''mode'', VStr (js ''set''))]) []], Suc n)"
  by (simp add: default_operations_def createDefaultOperation_def)

lemma op_id_operation_of [simp]: "op_id (operation_of i v cs) = i"
  by (simp add: operation_of_def)

lemma fresh_default: "default_operations clk n = (ops, m) \<Longrightarrow> fresh_ids clk m ops \<and> ops \<noteq> [] \<and> m = Suc n"
  by (auto simp: default_operations_eq fresh_ids_def)

lemma normalizeOperation_id:
  assumes "normalizeOperation clk v n = Inr (p, n')"
  shows "op_id p = nextLocalId clk n \<and> n < n'"
proof -
  have m: "map_make (normalizeOverrideCondition clk) vs k = Inr (cs, k') \<Longrightarrow> k \<le> k'" for vs k cs k'
    by (induction vs arbitrary: k cs) (fastforce simp: normalizeOverrideCondition_def split: sum.splits prod.splits)+
  then show ?thesis using assms
    by (fastforce simp: normalizeOperation_def split: sum.splits jsval.splits prod.splits)
qed

lemma map_make_ids:
  "map_make (normalizeOperation clk) vs n = Inr (ops, n') \<Longrightarrow>
     distinct (map op_id ops) \<and> (\<forall>p \<in> set ops. \<exists>k. n \<le> k \<and> k < n' \<and> op_id p = nextLocalId clk k) \<and> n \<le> n' \<and>
     length ops = length vs"
proof (induction vs arbitrary: n ops)
  case (Cons v vs)
  obtain p n1 ps where o: "normalizeOperation clk v n = Inr (p, n1)" "map_make (normalizeOperation clk) vs n1 = Inr (ps, n')"
    "ops = p # ps"
    using Cons.prems by (auto split: sum.splits prod.splits)
  note p = normalizeOperation_id [OF o(1)] and ps = Cons.IH [OF o(2)]
  have "op_id q \<noteq> op_id p \<and> (\<exists>k. n \<le> k \<and> k < n' \<and> op_id q = nextLocalId clk k)" if "q \<in> set ps" for q
  proof -
    have "\<exists>k. n1 \<le> k \<and> k < n' \<and> op_id q = nextLocalId clk k" using ps that by simp
    then obtain k where "n1 \<le> k" "k < n'" "op_id q = nextLocalId clk k" by (elim exE conjE)
    with p show ?thesis by (intro conjI exI [of _ k]) auto
  qed
  then show ?case using p ps unfolding o(3) by (auto intro!: exI [of _ n])
qed simp

lemma read_operations_fresh:
  assumes "read_operations clk vs n = Inr (ops, n')"
  shows "fresh_ids clk n' ops \<and> ops \<noteq> [] \<and> n \<le> n'"
proof (cases "vs = []")
  case True
  then show ?thesis using assms by (auto simp: read_operations_def default_operations_eq fresh_ids_def)
next
  case False
  then have m: "map_make (normalizeOperation clk) vs n = Inr (ops, n')" using assms by (simp add: read_operations_def)
  have "fresh_ids clk n' ([] @ ops)"
    by (rule fresh_append [of clk n]) (use map_make_ids [OF m] in \<open>auto simp: fresh_ids_def\<close>)
  then show ?thesis using map_make_ids [OF m] False by auto
qed

lemma map_operation_ids:
  "(\<And>p. op_id (f p) = op_id p) \<Longrightarrow> map op_id (map_operation i f ops) = map op_id ops"
  by (simp add: map_operation_def)

lemma apply_patch_id [simp]: "op_id (apply_patch patch p) = op_id p"
  by (cases patch) simp_all

lemma update_prune_ids:
  "update_prune clk i upd ops n = (ops', n') \<Longrightarrow> map op_id ops' = map op_id ops"
  by (induction ops arbitrary: n ops') (auto split: prod.splits if_splits)

lemma map_operation_Nil [simp]: "map_operation i f ops = [] \<longleftrightarrow> ops = []"
  by (simp add: map_operation_def)

section \<open>Every handler keeps the rules well identified\<close>

definition editor_ok :: "(nat \<Rightarrow> nat) \<Rightarrow> editor \<Rightarrow> bool" where
  "editor_ok clk st \<longleftrightarrow> fresh_ids clk (ed_seed st) (ed_operations st) \<and> ed_operations st \<noteq> []"

lemma editor_okI: "fresh_ids clk (ed_seed st) (ed_operations st) \<Longrightarrow> ed_operations st \<noteq> [] \<Longrightarrow> editor_ok clk st"
  by (simp add: editor_ok_def)

lemma editor_okD: "editor_ok clk st \<Longrightarrow> fresh_ids clk (ed_seed st) (ed_operations st)" "editor_ok clk st \<Longrightarrow> ed_operations st \<noteq> []"
  by (simp_all add: editor_ok_def)

text \<open>A handler that keeps the ids and does not lower the counter.\<close>

lemma editor_ok_same:
  assumes "editor_ok clk st" "map op_id (ed_operations st') = map op_id (ed_operations st)" "ed_seed st \<le> ed_seed st'"
  shows "editor_ok clk st'"
  using assms fresh_same_ids [OF assms(2)] fresh_mono [of clk "ed_seed st" _ "ed_seed st'"]
  by (auto simp: editor_ok_def)

lemma editor_ok_log [simp]: "editor_ok clk (log_effect e st) = editor_ok clk st"
  by (simp add: editor_ok_def log_effect_def)

lemma editor_ok_default:
  "default_operations clk n = (ops, m) \<Longrightarrow> ed_operations st' = ops \<Longrightarrow> ed_seed st' = m \<Longrightarrow> editor_ok clk st'"
  using fresh_default by (simp add: editor_ok_def)

lemma editor_ok_read:
  "read_operations clk vs n = Inr (ops, m) \<Longrightarrow> ed_operations st' = ops \<Longrightarrow> ed_seed st' = m \<Longrightarrow> editor_ok clk st'"
  using read_operations_fresh by (simp add: editor_ok_def)

lemma parse_initial_fresh:
  "parseInitialState clk text n = Inr (s, m) \<Longrightarrow> fresh_ids clk m (in_operations s) \<and> in_operations s \<noteq> []"
  using fresh_default [of clk n, OF surjective_pairing] read_operations_fresh [of clk _ n]
  by (auto simp: parseInitialState_def initial_with_def Let_def split: sum.splits option.splits jsval.splits if_splits)

lemma ok_open: "editor_ok clk st \<Longrightarrow> editor_ok clk (open_editor clk text st)"
  using parse_initial_fresh by (auto simp: open_editor_def editor_ok_def log_effect_def split: sum.split prod.split)

lemma ok_add: "editor_ok clk st \<Longrightarrow> editor_ok clk (addOperation clk st)"
proof -
  assume ok: "editor_ok clk st"
  let ?p = "operation_of (nextLocalId clk (ed_seed st)) (VObj [(js ''mode'', VStr (js ''set''))]) []"
  have "fresh_ids clk (Suc (ed_seed st)) (ed_operations st @ [?p])"
    by (rule fresh_append [OF editor_okD(1) [OF ok]]) auto
  then show ?thesis by (simp add: addOperation_def createDefaultOperation_def editor_ok_def)
qed

lemma ok_duplicate: "editor_ok clk st \<Longrightarrow> editor_ok clk (duplicateOperation clk eager i st)"
proof (cases "find_index (\<lambda>p. op_id p = i) (ed_operations st)")
  case (Some k)
  assume ok: "editor_ok clk st"
  show ?thesis
  proof (cases "normalizeOperation clk (operation_copy (ed_operations st ! k)) (ed_seed st)")
    case (Inr r)
    then obtain p n where r: "normalizeOperation clk (operation_copy (ed_operations st ! k)) (ed_seed st) = Inr (p, n)" by (cases r) auto
    note p = normalizeOperation_id [OF r]
    have "fresh_ids clk n (ed_operations st @ [p])"
      by (rule fresh_append [OF editor_okD(1) [OF ok]]) (use p in auto)
    moreover have "mset (take (k + 1) (ed_operations st) @ [p] @ drop (k + 1) (ed_operations st)) = mset (ed_operations st @ [p])"
      unfolding mset_insert_at by simp
    ultimately have "fresh_ids clk n (take (k + 1) (ed_operations st) @ [p] @ drop (k + 1) (ed_operations st))"
      using fresh_mset by blast
    then show ?thesis by (simp add: duplicateOperation_def Some r editor_ok_def)
  qed (use ok Some in \<open>simp add: duplicateOperation_def\<close>)
qed (simp add: duplicateOperation_def)

lemma ok_remove: "editor_ok clk st \<Longrightarrow> editor_ok clk (removeOperation clk i st)"
proof (cases "length (ed_operations st) \<le> 1")
  case True then show ?thesis by (auto simp: removeOperation_def default_operations_eq editor_ok_def fresh_ids_def)
next
  case False
  assume ok: "editor_ok clk st"
  let ?f = "filter (\<lambda>p. op_id p \<noteq> i) (ed_operations st)"
  have "?f \<noteq> []"
  proof
    assume "?f = []"
    then have "\<forall>p \<in> set (ed_operations st). op_id p = i" by (simp add: filter_empty_conv)
    then have "set (map op_id (ed_operations st)) \<subseteq> {i}" by auto
    then have "card (set (map op_id (ed_operations st))) \<le> 1" using card_mono [of "{i}"] by force
    moreover have "distinct (map op_id (ed_operations st))" using ok by (simp add: editor_ok_def fresh_ids_def)
    ultimately show False using False distinct_card by (metis length_map)
  qed
  then show ?thesis using False fresh_filter [OF editor_okD(1) [OF ok]] by (simp add: removeOperation_def editor_ok_def)
qed

lemma ok_edit:
  "editor_ok clk st \<Longrightarrow> editor_ok clk (updateOperation i patch st)"
  "editor_ok clk st \<Longrightarrow> editor_ok clk (addCondition clk i st)"
  "editor_ok clk st \<Longrightarrow> editor_ok clk (updateCondition i ci cpatch st)"
  "editor_ok clk st \<Longrightarrow> editor_ok clk (removeCondition i ci st)"
  "editor_ok clk st \<Longrightarrow> editor_ok clk (updateReturnErrorDraft i rpatch st)"
  by (erule editor_ok_same; simp add: updateOperation_def addCondition_def updateCondition_def
      removeCondition_def updateReturnErrorDraft_def createDefaultCondition_def map_operation_ids)+

lemma parse_prune_seed: "parsePruneObjectsDraft clk text n = (d, n') \<Longrightarrow> n \<le> n'"
  by (auto simp: parsePruneObjectsDraft_def Let_def dest: make_rules_ids split: if_splits option.splits jsval.splits prod.splits)

text \<open>An updater that does not lower the counter.\<close>

definition counts_up :: "prune_updater \<Rightarrow> bool" where
  "counts_up upd \<longleftrightarrow> (\<forall>d n. n \<le> snd (upd d n))"

lemma update_prune_seed: "counts_up upd \<Longrightarrow> update_prune clk i upd ops n = (ops', n') \<Longrightarrow> n \<le> n'"
proof (induction ops arbitrary: n ops')
  case (Cons p ps)
  have t: "n \<le> k" if "prune_text clk upd s n = (t, k)" for s t k
    using that Cons.prems(1) parse_prune_seed unfolding prune_text_def counts_up_def
    by (auto split: prod.splits) (metis le_trans snd_conv)
  show ?case using Cons.IH [OF Cons.prems(1)] Cons.prems(2) t
    by (fastforce split: prod.splits if_splits)
qed simp

lemma ok_prune: "editor_ok clk st \<Longrightarrow> counts_up upd \<Longrightarrow> editor_ok clk (updatePruneObjectsDraft clk i upd st)"
  by (erule editor_ok_same) (auto simp: updatePruneObjectsDraft_def dest: update_prune_ids update_prune_seed split: prod.split)

lemma counts_up_updaters: "counts_up (apply_prune_patch patch)" "counts_up (add_rule clk)" "counts_up (\<lambda>d n. (f d, n))"
  by (cases patch; simp add: counts_up_def) (simp_all add: counts_up_def add_rule_def normalizePruneRule_def)

lemma ok_drop: "editor_ok clk st \<Longrightarrow> editor_ok clk (handleDrop i data st)"
  by (simp add: handleDrop_def resetDragState_def editor_ok_def Let_def fresh_mset [OF mset_reorder])
    (metis mset_reorder mset_zero_iff)

lemma ok_modes:
  "editor_ok clk st \<Longrightarrow> editor_ok clk (switchToJsonMode tr st)"
  "editor_ok clk st \<Longrightarrow> editor_ok clk (switchToVisualMode clk tr st)"
  "editor_ok clk st \<Longrightarrow> editor_ok clk (resetEditorState clk st)"
  "editor_ok clk st \<Longrightarrow> editor_ok clk (handleJsonChange tr text st)"
  "editor_ok clk st \<Longrightarrow> editor_ok clk (formatJson tr st)"
  "editor_ok clk st \<Longrightarrow> editor_ok clk (handleSave tr st)"
proof -
  assume ok: "editor_ok clk st"
  show "editor_ok clk (switchToJsonMode tr st)"
    using ok by (simp add: switchToJsonMode_def editor_ok_def log_effect_def Let_def split: sum.split)
  show "editor_ok clk (switchToVisualMode clk tr st)"
    using ok by (auto simp: switchToVisualMode_def Let_def intro: editor_ok_default editor_ok_read
        split: option.split jsval.split sum.split prod.split)
  show "editor_ok clk (resetEditorState clk st)"
    by (auto simp: resetEditorState_def intro: editor_ok_default split: prod.split)
  show "editor_ok clk (handleJsonChange tr text st)" using ok by (simp add: handleJsonChange_def editor_ok_def)
  show "editor_ok clk (formatJson tr st)"
    using ok by (simp add: formatJson_def editor_ok_def log_effect_def Let_def split: option.split)
  show "editor_ok clk (handleSave tr st)"
    using ok by (simp add: handleSave_def editor_ok_def log_effect_def split: sum.split)
qed

lemma ok_append:
  assumes ok: "editor_ok clk st" and ne: "vs \<noteq> []"
  shows "editor_ok clk (append_operations clk vs st)"
proof (cases "map_make (normalizeOperation clk) vs (ed_seed st)")
  case (Inr r)
  then obtain ops n where r: "map_make (normalizeOperation clk) vs (ed_seed st) = Inr (ops, n)" by (cases r) auto
  let ?ex = "if ed_visualMode st = Operations then filter (\<lambda>p. \<not> isOperationBlank p) (ed_operations st) else []"
  have "fresh_ids clk (ed_seed st) ?ex" using fresh_filter [OF editor_okD(1) [OF ok]] by (simp add: fresh_ids_def)
  then have "fresh_ids clk n (?ex @ ops)" using map_make_ids [OF r] by (intro fresh_append) auto
  moreover have "ops \<noteq> []" using map_make_ids [OF r] ne by auto
  ultimately show ?thesis using r by (simp add: append_operations_def editor_ok_def Let_def)
qed (use ok in \<open>simp add: append_operations_def\<close>)

lemma ok_fill: "editor_ok clk st \<Longrightarrow> editor_ok clk (fillTemplate clk tr appending st)"
proof -
  assume ok: "editor_ok clk st"
  have l: "editor_ok clk (fill_legacy clk s st)" for s
    by (auto simp: fill_legacy_def intro: editor_ok_default split: prod.split)
  have a: "editor_ok clk (append_legacy clk tr payload st)" for payload
    using ok l by (simp add: append_legacy_def Let_def split: option.split)
  have f: "editor_ok clk (fill_operations clk vs st)" for vs
    using ok by (auto simp: fill_operations_def intro: editor_ok_read split: sum.split prod.split)
  have "template_operations (snd (preset_of (ed_preset st))) \<noteq> []" if "fst (preset_of (ed_preset st)) = Kind_operations"
    using preset_of_cases [of "ed_preset st"] that by (auto simp: preset_ok_def)
  then show ?thesis using l a f ok_append [OF ok]
    by (cases "fst (preset_of (ed_preset st))") (auto simp: fillTemplate_def split: prod.split)
qed

lemma ok_neutral:
  "editor_ok clk (handleDragStart i st) = editor_ok clk st" "editor_ok clk (handleDragOver i b st) = editor_ok clk st"
  "editor_ok clk (resetDragState st) = editor_ok clk st" "editor_ok clk (expandAllConditions st) = editor_ok clk st"
  "editor_ok clk (collapseAllConditions st) = editor_ok clk st" "editor_ok clk (st\<lparr>ed_search := t\<rparr>) = editor_ok clk st"
  "editor_ok clk (st\<lparr>ed_preset := t\<rparr>) = editor_ok clk st" "editor_ok clk (st\<lparr>ed_legacyValue := t\<rparr>) = editor_ok clk st"
  "editor_ok clk (st\<lparr>ed_selected := t\<rparr>) = editor_ok clk st"
  by (simp_all add: editor_ok_def handleDragStart_def handleDragOver_def resetDragState_def expandAllConditions_def
      collapseAllConditions_def set_all_expanded_def split: option.split)

lemma handle_ok: "editor_ok clk st \<Longrightarrow> editor_ok clk (handle clk tr e st)"
proof (cases e)
  case (Render k)
  assume "editor_ok clk st"
  then show ?thesis unfolding Render handle.simps by (rule editor_ok_same) simp_all
qed (simp_all add: ok_open ok_add ok_duplicate ok_remove ok_edit ok_prune ok_drop ok_modes ok_fill counts_up_updaters
    addPruneRule_def updatePruneRule_def removePruneRule_def ok_neutral)

lemma keep_selected_ok: "editor_ok clk (keep_selected st) = editor_ok clk st"
  by (simp add: keep_selected_def editor_ok_def)

lemma keep_selected_in: "ed_operations st \<noteq> [] \<Longrightarrow> ed_selected (keep_selected st) \<in> op_id ` set (ed_operations (keep_selected st))"
  by (cases "ed_operations st") (auto simp: keep_selected_def list_ex_iff image_iff eq_commute [of "ed_selected st"])

lemma reachable_editor_ok: "reachable clk tr st \<Longrightarrow> editor_ok clk st"
proof (induction rule: reachable.induct)
  case (reach_start n)
  have "editor_ok clk (initial_editor clk n)"
    by (simp add: initial_editor_def default_operations_eq editor_ok_def fresh_ids_def)
  then show ?case by (simp add: keep_selected_ok)
next
  case (reach_step st e) then show ?case by (simp add: editor_step_def keep_selected_ok handle_ok)
qed

text \<open>C12. Whatever the user does, the rules of the dialog have distinct ids, there is at least one rule, and the
  selected id is one of them.\<close>

theorem editor_invariant:
  assumes "reachable clk tr st"
  shows "distinct (map op_id (ed_operations st)) \<and> ed_operations st \<noteq> [] \<and> ed_selected st \<in> op_id ` set (ed_operations st)"
proof -
  note ok = reachable_editor_ok [OF assms]
  from assms have "ed_selected st \<in> op_id ` set (ed_operations st)"
  proof cases
    case (reach_start n)
    then show ?thesis using ok keep_selected_in [of "initial_editor clk n"]
      by (simp add: initial_editor_def default_operations_eq)
  next
    case (reach_step st0 e)
    have "editor_ok clk (handle clk tr e st0)" using reachable_editor_ok [OF reach_step(2)] by (rule handle_ok)
    then show ?thesis using keep_selected_in reach_step(1) by (simp add: editor_step_def editor_ok_def)
  qed
  then show ?thesis using ok by (simp add: editor_ok_def fresh_ids_def)
qed

theorem editor_invariant_witness:
  "distinct (map op_id (ed_operations (editor_step (\<lambda>_. 5) (\<lambda>k l. k) Add (keep_selected (initial_editor (\<lambda>_. 5) 0)))))"
  using editor_invariant [OF reach_step [OF reach_start]] by simp

section \<open>Duplicating\<close>

lemma condition_copy_payload:
  assumes "condition_ok c"
  shows "buildConditionPayload (condition_of i (condition_copy c)) = buildConditionPayload c"
proof -
  have "condition_of i (condition_copy c) = \<lparr>oc_id = i, oc_path = oc_path c, oc_mode = oc_mode c,
      oc_value_text = toValueText (parseLooseValue (oc_value_text c)), oc_invert = oc_invert c,
      oc_pass_missing_key = oc_pass_missing_key c\<rparr>"
    using assms by (simp add: condition_of_def condition_copy_def str_field_def mode_field_def true_field_def condition_ok_def)
  then show ?thesis using assms by (simp add: buildConditionPayload_def Let_def condition_ok_def stable_text_def)
qed

lemma condition_copies:
  assumes "\<forall>c \<in> set cs. condition_ok c"
  shows "\<exists>cs' n'. map_make (normalizeOverrideCondition clk) (map condition_copy cs) n = Inr (cs', n') \<and>
    List.map_filter buildConditionPayload cs' = List.map_filter buildConditionPayload cs"
  using assms
proof (induction cs arbitrary: n)
  case (Cons c cs)
  have c: "normalizeOverrideCondition clk (condition_copy c) n = Inr (condition_of (nextLocalId clk n) (condition_copy c), Suc n)"
    by (simp add: condition_copy_def normalizeOverrideCondition_object)
  obtain cs' n' where "map_make (normalizeOverrideCondition clk) (map condition_copy cs) (Suc n) = Inr (cs', n')"
    "List.map_filter buildConditionPayload cs' = List.map_filter buildConditionPayload cs"
    using Cons.IH [of "Suc n"] Cons.prems by auto
  then show ?case using c condition_copy_payload [of c "nextLocalId clk n"] Cons.prems
    by (intro exI [of _ "condition_of (nextLocalId clk n) (condition_copy c) # cs'"] exI [of _ n']) (auto split: option.split)
qed simp

lemma operation_copy_fields:
  assumes "op_mode p \<in> set OPERATION_MODE_VALUES"
  shows "op_mode (operation_of i (operation_copy p) cs) = op_mode p"
    "op_description (operation_of i (operation_copy p) cs) = op_description p"
    "op_path (operation_of i (operation_copy p) cs) = op_path p"
    "op_from (operation_of i (operation_copy p) cs) = op_from p"
    "op_to (operation_of i (operation_copy p) cs) = op_to p"
    "op_value_text (operation_of i (operation_copy p) cs) = toValueText (parseLooseValue (op_value_text p))"
    "op_keep_origin (operation_of i (operation_copy p) cs) = op_keep_origin p"
    "op_conditions (operation_of i (operation_copy p) cs) = cs"
  using assms by (simp_all add: operation_of_def operation_copy_def str_field_def mode_field_def true_field_def)

lemma operation_copy_logic:
  assumes "op_logic p = js ''AND'' \<or> op_logic p = js ''OR''"
  shows "op_logic (operation_of i (operation_copy p) cs) = op_logic p"
proof -
  have "upper_ascii (js ''AND'') = js ''AND''" "upper_ascii (js ''OR'') \<noteq> js ''AND''" by code_simp+
  then show ?thesis using assms by (auto simp: operation_of_def operation_copy_def logic_field_def js_or_def)
qed

lemma find_index_nth_id:
  assumes "distinct (map op_id ops)" "k < length ops"
  shows "find_index (\<lambda>x. op_id x = op_id (ops ! k)) ops = Some k"
proof -
  have "\<forall>x \<in> set (take k ops). op_id x \<noteq> op_id (ops ! k)"
  proof
    fix x assume "x \<in> set (take k ops)"
    then obtain j where "j < k" "x = ops ! j" using assms(2) by (auto simp: in_set_conv_nth)
    then show "op_id x \<noteq> op_id (ops ! k)"
      using assms nth_eq_iff_index_eq [OF assms(1), of j k] by simp
  qed
  then have "find_index (\<lambda>x. op_id x = op_id (ops ! k)) (take k ops @ ops ! k # drop (Suc k) ops) = Some (length (take k ops))"
    by (rule find_index_split) simp
  then show ?thesis using assms(2) id_take_nth_drop [OF assms(2)] by simp
qed

text \<open>Duplicating a rule whose texts read back inserts, right after it, one rule with a new id that is sent with the same
  payload.\<close>

theorem duplicate_same_payload:
  assumes ok: "editor_ok clk st" and k: "k < length (ed_operations st)"
    and p: "operation_ok (ed_operations st ! k)" "op_logic (ed_operations st ! k) = js ''AND'' \<or> op_logic (ed_operations st ! k) = js ''OR''"
  shows "\<exists>q. ed_operations (duplicateOperation clk eager (op_id (ed_operations st ! k)) st) =
      take (Suc k) (ed_operations st) @ q # drop (Suc k) (ed_operations st) \<and>
    operation_payload q = operation_payload (ed_operations st ! k) \<and> op_id q \<notin> op_id ` set (ed_operations st)"
proof -
  let ?p = "ed_operations st ! k"
  have d: "distinct (map op_id (ed_operations st))" using ok by (simp add: editor_ok_def fresh_ids_def)
  have f: "find_index (\<lambda>x. op_id x = op_id ?p) (ed_operations st) = Some k"
    by (rule find_index_nth_id [OF d k])
  obtain cs' n' where cs: "map_make (normalizeOverrideCondition clk) (map condition_copy (op_conditions ?p)) (Suc (ed_seed st)) = Inr (cs', n')"
    "List.map_filter buildConditionPayload cs' = List.map_filter buildConditionPayload (op_conditions ?p)"
    using condition_copies p(1) by (metis operation_ok_def)
  let ?q = "operation_of (nextLocalId clk (ed_seed st)) (operation_copy ?p) cs'"
  have n: "normalizeOperation clk (operation_copy ?p) (ed_seed st) = Inr (?q, n')"
    using cs(1) by (simp add: normalizeOperation_def arg_object_def operation_copy_def)
  have m: "op_mode ?p \<in> set OPERATION_MODE_VALUES" "stable_text (op_value_text ?p)" using p(1) by (simp_all add: operation_ok_def)
  note c = operation_copy_fields [OF m(1), of "nextLocalId clk (ed_seed st)" cs']
  have "operation_payload ?q = operation_payload ?p"
    unfolding payload_base_eq [of ?q] payload_base_eq [of ?p]
    using m(2) cs(2) by (simp add: c operation_copy_logic [OF p(2)] the_mode_def sent_from_def sent_to_def stable_text_def)
  moreover have "op_id ?q \<notin> op_id ` set (ed_operations st)"
    using fresh_not_new [OF editor_okD(1) [OF ok] order_refl] by simp
  ultimately show ?thesis using n f by (intro exI [of _ ?q]) (simp add: duplicateOperation_def)
qed

theorem duplicate_same_payload_witness:
  "\<exists>q. operation_payload q = operation_payload sample_rule \<and>
    ed_operations (duplicateOperation (\<lambda>_. 5) True (nextLocalId (\<lambda>_. 5) 0)
      ((initial_editor (\<lambda>_. 5) 0)\<lparr>ed_operations := [sample_rule\<lparr>op_id := nextLocalId (\<lambda>_. 5) 0\<rparr>], ed_seed := 1\<rparr>)) =
    [sample_rule\<lparr>op_id := nextLocalId (\<lambda>_. 5) 0\<rparr>, q]"
proof -
  let ?p = "sample_rule\<lparr>op_id := nextLocalId (\<lambda>_. 5) 0\<rparr>"
  let ?st = "(initial_editor (\<lambda>_. 5) 0)\<lparr>ed_operations := [?p], ed_seed := 1\<rparr>"
  have "editor_ok (\<lambda>_. 5) ?st" by (simp add: editor_ok_def fresh_ids_def)
  moreover have "operation_ok ?p" using sample_rule_ok(1) by (simp add: operation_ok_def)
  moreover have "operation_payload ?p = operation_payload sample_rule"
    by (simp add: payload_base_eq the_mode_def sent_from_def sent_to_def)
  moreover have "op_logic ?p = js ''AND''" by (simp add: sample_rule_def)
  ultimately show ?thesis using duplicate_same_payload [of "\<lambda>_. 5" ?st 0 True] by auto
qed

section \<open>Pruning rules\<close>

lemma update_prune_eq:
  assumes "\<And>s m d m'. n \<le> m \<Longrightarrow> parsePruneObjectsDraft clk s m = (d, m') \<Longrightarrow> f d m' = g d m'" "counts_up g" "n \<le> m"
  shows "update_prune clk i f ops m = update_prune clk i g ops m"
  using assms(3)
proof (induction ops arbitrary: m)
  case (Cons p ps)
  obtain d m' where d: "parsePruneObjectsDraft clk (op_value_text p) m = (d, m')" by fastforce
  have e: "prune_text clk f (op_value_text p) m = prune_text clk g (op_value_text p) m"
    using assms(1) [OF Cons.prems d] by (simp add: prune_text_def d)
  have "n \<le> snd (prune_text clk g (op_value_text p) m)"
    using parse_prune_seed [OF d] assms(2) Cons.prems unfolding counts_up_def prune_text_def d
    by (auto split: prod.split) (metis le_trans snd_conv)
  then show ?case using Cons.IH [OF Cons.prems] Cons.IH e by (auto split: prod.split)
qed simp

text \<open>The rules shown for a pruning draft were read with earlier ids; when one of them is edited or deleted the draft is
  read again with new ids, so that the handler does nothing but write the draft as it was.\<close>

theorem prune_rule_edits_lost:
  assumes "k < ed_seed st"
  shows "updatePruneRule clk i (nextLocalId clk k) patch st = updatePruneObjectsDraft clk i (\<lambda>d n. (d, n)) st \<and>
    removePruneRule clk i (nextLocalId clk k) st = updatePruneObjectsDraft clk i (\<lambda>d n. (d, n)) st"
proof -
  have other: "oc_id r \<noteq> nextLocalId clk k"
    if d: "ed_seed st \<le> m" "parsePruneObjectsDraft clk s m = (d, m')" and r: "r \<in> set (pd_rules d)" for s m d m' r
  proof -
    obtain j where "m \<le> j" "oc_id r = nextLocalId clk j" using parse_rule_ids [OF d(2) r] by blast
    then show ?thesis using assms d(1) by simp
  qed
  have c: "counts_up (\<lambda>d n. (d, n))" by (simp add: counts_up_def)
  have "update_prune clk i (\<lambda>d n. (d\<lparr>pd_rules := map (\<lambda>r. if oc_id r = nextLocalId clk k then apply_condition_patch patch r else r) (pd_rules d)\<rparr>, n)) ops (ed_seed st)
      = update_prune clk i (\<lambda>d n. (d, n)) ops (ed_seed st)" for ops
    by (rule update_prune_eq [OF _ c order_refl]) (use other in \<open>auto cong: map_cong simp: map_idI\<close>)
  moreover have "update_prune clk i (\<lambda>d n. (d\<lparr>pd_rules := filter (\<lambda>r. oc_id r \<noteq> nextLocalId clk k) (pd_rules d)\<rparr>, n)) ops (ed_seed st)
      = update_prune clk i (\<lambda>d n. (d, n)) ops (ed_seed st)" for ops
    by (rule update_prune_eq [OF _ c order_refl]) (use other in \<open>auto simp: filter_id_conv\<close>)
  ultimately show ?thesis by (simp add: updatePruneRule_def removePruneRule_def updatePruneObjectsDraft_def)
qed

theorem prune_rule_edits_lost_witness:
  "removePruneRule (\<lambda>_. 5) (js ''a'') (nextLocalId (\<lambda>_. 5) 0) (initial_editor (\<lambda>_. 5) 0) =
     updatePruneObjectsDraft (\<lambda>_. 5) (js ''a'') (\<lambda>d n. (d, n)) (initial_editor (\<lambda>_. 5) 0)"
  using prune_rule_edits_lost [of 0 "initial_editor (\<lambda>_. 5) 0"] by (simp add: initial_editor_def default_operations_eq)

lemma forget_ids: "buildPruneObjectsValueText d = buildPruneObjectsValueText (d\<lparr>pd_rules := map (oc_id_update (\<lambda>_. [])) (pd_rules d)\<rparr>)"
proof -
  have "prune_rule_payload (oc_id_update (\<lambda>_. []) r) = prune_rule_payload r" for r by (simp add: prune_rule_payload_def)
  then have "prune_conditions (d\<lparr>pd_rules := map (oc_id_update (\<lambda>_. [])) (pd_rules d)\<rparr>) = prune_conditions d"
    by (simp add: prune_conditions_def filter_map o_def)
  then show ?thesis by (simp add: buildPruneObjectsValueText_def prune_payload_def)
qed

lemma make_rules_forget: "map (oc_id_update (\<lambda>_. [])) (fst (make_rules clk vs n)) = map (condition_of []) vs"
  by (induction vs arbitrary: n) (simp_all add: normalizePruneRule_def condition_of_def case_prod_beta)

lemma parse_forget:
  "(fst (parsePruneObjectsDraft clk s n))\<lparr>pd_rules := map (oc_id_update (\<lambda>_. [])) (pd_rules (fst (parsePruneObjectsDraft clk s n)))\<rparr> =
   (fst (parsePruneObjectsDraft clk s m))\<lparr>pd_rules := map (oc_id_update (\<lambda>_. [])) (pd_rules (fst (parsePruneObjectsDraft clk s m)))\<rparr>"
proof (cases "json_parse (trim s)")
  case (Some v)
  then show ?thesis using make_rules_forget [of clk _ n] make_rules_forget [of clk _ m]
    by (cases v) (simp_all add: parsePruneObjectsDraft_def Let_def case_prod_beta)
qed (simp add: parsePruneObjectsDraft_def Let_def)

lemma prune_updates_commute: "d\<lparr>pd_rules := r, pd_simpleMode := b\<rparr> = d\<lparr>pd_simpleMode := b, pd_rules := r\<rparr>"
  by simp

lemma advanced_text:
  "buildPruneObjectsValueText ((fst (parsePruneObjectsDraft clk s n))\<lparr>pd_simpleMode := False\<rparr>) =
   buildPruneObjectsValueText ((fst (parsePruneObjectsDraft clk s m))\<lparr>pd_simpleMode := False\<rparr>)"
  using arg_cong [OF parse_forget [of clk s n m], of "\<lambda>d. buildPruneObjectsValueText (d\<lparr>pd_simpleMode := False\<rparr>)"]
    forget_ids [of "(fst (parsePruneObjectsDraft clk s n))\<lparr>pd_simpleMode := False\<rparr>"]
    forget_ids [of "(fst (parsePruneObjectsDraft clk s m))\<lparr>pd_simpleMode := False\<rparr>"]
  unfolding prune_updates_commute by simp

text \<open>Adding a pruning rule writes the same texts as choosing the advanced form: the new rule has no path yet
  and is not written.\<close>

theorem add_prune_rule_lost:
  "map op_value_text (ed_operations (addPruneRule clk i st)) =
   map op_value_text (ed_operations (updatePruneObjectsDraft clk i (apply_prune_patch (Prune_simpleMode False)) st))"
proof -
  have b: "buildPruneObjectsValueText (d\<lparr>pd_simpleMode := False, pd_rules := pd_rules d @ [condition_of j (VObj [])]\<rparr>) =
      buildPruneObjectsValueText (d\<lparr>pd_simpleMode := False\<rparr>)" for d j
    using blank_rule_not_written [of "condition_of j (VObj [])" "d\<lparr>pd_simpleMode := False\<rparr>"]
    by (simp add: condition_of_def str_field_def)
  have t: "fst (prune_text clk (add_rule clk) s n) = fst (prune_text clk (apply_prune_patch (Prune_simpleMode False)) s m)" for s n m
    using advanced_text [of clk s n m] b by (simp add: prune_text_def add_rule_def normalizePruneRule_def case_prod_beta)
  have "map op_value_text (fst (update_prune clk i (add_rule clk) ops n)) =
      map op_value_text (fst (update_prune clk i (apply_prune_patch (Prune_simpleMode False)) ops m))" for ops n m
  proof (induction ops arbitrary: n m)
    case (Cons p ps) then show ?case using t [of "op_value_text p" n m] by (simp add: case_prod_beta del: apply_prune_patch.simps)
  qed simp
  then show ?thesis by (simp add: addPruneRule_def updatePruneObjectsDraft_def case_prod_beta del: apply_prune_patch.simps)
qed

section \<open>Switching modes and saving\<close>



text \<open>Saving either logs the text and closes the dialog, changing nothing else, or shows one toast and stays open; in
  the visual view of the rules it succeeds exactly when no validation error is shown.\<close>

theorem save_outcome:
  "(case save_result tr st of
      Inr s \<Rightarrow> handleSave tr st = st\<lparr>ed_log := ed_log st @ [Saved s, Closed]\<rparr>
    | Inl e \<Rightarrow> handleSave tr st = st\<lparr>ed_log := ed_log st @ [Toast (error_message e)]\<rparr>) \<and>
   (if ed_editMode st = Visual \<and> ed_visualMode st = Operations
    then (\<exists>s. save_result tr st = Inr s) = (visualValidationError tr st = []) else True)"
proof -
  have "error_message e \<noteq> []" if "buildOperationsJson tr (ed_operations st) True = Inl e" for e
    using that by (auto simp: buildOperationsJson_def Let_def error_message_def split: if_splits)
  then show ?thesis
    by (auto simp: handleSave_def log_effect_def save_result_def visualValidationError_def buildVisualJson_def split: sum.split)
qed

section \<open>A rule that is null\<close>

lemma map_make_error:
  assumes "\<And>v k e. f v k = Inl e \<Longrightarrow> e = TypeError"
  shows "map_make f vs n = Inl e \<Longrightarrow> e = TypeError"
proof (induction vs arbitrary: n)
  case (Cons v vs)
  then show ?case
  proof (cases "f v n")
    case (Inr r)
    then show ?thesis using Cons.prems Cons.IH [of "snd r"] by (auto simp: case_prod_beta split: sum.splits)
  qed (use assms in auto)
qed simp

lemma normalizeOverrideCondition_error: "normalizeOverrideCondition clk v n = Inl e \<Longrightarrow> e = TypeError"
  by (cases v) (simp_all add: normalizeOverrideCondition_def arg_object_def)

lemma normalizeOperation_error: "normalizeOperation clk v n = Inl e \<Longrightarrow> e = TypeError"
  using map_make_error [of "normalizeOverrideCondition clk", OF normalizeOverrideCondition_error]
  by (cases v) (auto simp: normalizeOperation_def arg_object_def split: sum.splits jsval.splits)

lemma map_make_null: "VNull \<in> set vs \<Longrightarrow> map_make (normalizeOperation clk) vs n = Inl TypeError"
proof (induction vs arbitrary: n)
  case (Cons v vs)
  show ?case
  proof (cases "normalizeOperation clk v n")
    case (Inl e) then show ?thesis using normalizeOperation_error by fastforce
  next
    case (Inr r)
    have "v \<noteq> VNull" using Inr by (auto simp: normalizeOperation_def arg_object_def)
    then show ?thesis using Cons Inr by (cases r) simp
  qed
qed simp



end
