(* ===== verification/FundingOrder.thy ===== *)
theory FundingOrder
  imports Prelude
begin

text \<open>
  Which source pays first (features/subscriptions/billing.ts) and in which order the subscriptions of a
  user are listed and charged (features/subscriptions/lib/self-subscription.ts). An absent argument is
  None.
\<close>

section \<open>Preference and order of the sources\<close>

definition subscription_source :: jstr where "subscription_source = js ''subscription''"
definition wallet_source :: jstr where "wallet_source = js ''wallet''"
definition subscription_first :: jstr where "subscription_first = js ''subscription_first''"
definition wallet_first :: jstr where "wallet_first = js ''wallet_first''"
definition subscription_only :: jstr where "subscription_only = js ''subscription_only''"
definition wallet_only :: jstr where "wallet_only = js ''wallet_only''"

lemmas funding_names = subscription_source_def wallet_source_def subscription_first_def wallet_first_def
  subscription_only_def wallet_only_def

definition normalizeBillingPreference :: "jstr option \<Rightarrow> jstr" where
  "normalizeBillingPreference preference =
     (case preference of
        Some p \<Rightarrow> if p \<in> {wallet_first, subscription_only, wallet_only, subscription_first} then p
                  else subscription_first
      | None \<Rightarrow> subscription_first)"

definition getDefaultFundingSourceOrder :: "jstr option \<Rightarrow> jstr list" where
  "getDefaultFundingSourceOrder preference =
     (let p = normalizeBillingPreference preference in
      if p = wallet_first then [wallet_source, subscription_source]
      else if p = subscription_only then [subscription_source]
      else if p = wallet_only then [wallet_source]
      else [subscription_source, wallet_source])"

definition validSources :: "jstr list" where
  "validSources = [subscription_source, wallet_source]"

definition add_source :: "jstr list \<Rightarrow> jstr \<Rightarrow> jstr list" where
  "add_source result item =
     (if item \<notin> set validSources then result
      else if item \<in> set result then result
      else result @ [item])"

definition normalizeFundingSourceOrder :: "jstr list option \<Rightarrow> jstr option \<Rightarrow> jstr list" where
  "normalizeFundingSourceOrder order preference =
     (let fallback = getDefaultFundingSourceOrder preference in
      case order of
        None \<Rightarrow> fallback
      | Some [] \<Rightarrow> fallback
      | Some items \<Rightarrow>
          (let result = foldl add_source [] items in
           if result = [] then fallback
           else if \<not> list_ex (\<lambda>item. item = subscription_source \<or> item = wallet_source) result then fallback
           else result))"

fun list_index :: "'a \<Rightarrow> 'a list \<Rightarrow> nat option" where
  "list_index x [] = None"
| "list_index x (y # ys) = (if x = y then Some 0 else map_option Suc (list_index x ys))"

definition getBillingPreferenceFromFundingSourceOrder :: "jstr list \<Rightarrow> jstr" where
  "getBillingPreferenceFromFundingSourceOrder order =
     (case (list_index subscription_source order, list_index wallet_source order) of
        (Some i, Some j) \<Rightarrow> if i < j then subscription_first else wallet_first
      | (Some i, None) \<Rightarrow> subscription_only
      | (None, Some j) \<Rightarrow> wallet_only
      | (None, None) \<Rightarrow> subscription_first)"

definition getFundingSourceLabel :: "jstr \<Rightarrow> (jstr \<Rightarrow> jstr) \<Rightarrow> jstr" where
  "getFundingSourceLabel source t =
     (if source = subscription_source then t (js ''Subscription quota'')
      else if source = wallet_source then t (js ''Wallet balance'') else source)"

definition getFundingSourceDescription :: "jstr \<Rightarrow> (jstr \<Rightarrow> jstr) \<Rightarrow> jstr" where
  "getFundingSourceDescription source t =
     (if source = subscription_source then t (js ''Consume plan quota in subscription order'')
      else if source = wallet_source then t (js ''Currently available wallet balance'') else [])"

section \<open>The order of the subscriptions\<close>

record subscription_record =
  sr_id :: int
  sr_title :: jstr

text \<open>A Map from identifiers to records; a later record of the same identifier replaces the earlier one.\<close>

definition records_by_id :: "subscription_record list \<Rightarrow> int \<Rightarrow> subscription_record option" where
  "records_by_id records = map_of (rev (map (\<lambda>r. (sr_id r, r)) records))"

fun take_ordered :: "(int \<Rightarrow> subscription_record option) \<Rightarrow> int list \<Rightarrow>
    subscription_record list \<times> (int \<Rightarrow> subscription_record option)" where
  "take_ordered byId [] = ([], byId)"
| "take_ordered byId (i # ids) =
     (case byId i of
        Some r \<Rightarrow> (let (rs, rest) = take_ordered (byId(i := None)) ids in (r # rs, rest))
      | None \<Rightarrow> take_ordered byId ids)"

fun take_rest :: "(int \<Rightarrow> subscription_record option) \<Rightarrow> subscription_record list \<Rightarrow> subscription_record list" where
  "take_rest byId [] = []"
| "take_rest byId (r # records) =
     (if byId (sr_id r) \<noteq> None then r # take_rest (byId(sr_id r := None)) records
      else take_rest byId records)"

definition getOrderedSubscriptions :: "subscription_record list \<Rightarrow> int list \<Rightarrow> subscription_record list" where
  "getOrderedSubscriptions records orderIds =
     (let (ordered, byId) = take_ordered (records_by_id records) orderIds in ordered @ take_rest byId records)"

section \<open>Laws\<close>

lemma foldl_add_source_canonical:
  "set acc \<subseteq> set validSources \<Longrightarrow> distinct acc \<Longrightarrow>
     set (foldl add_source acc items) \<subseteq> set validSources \<and> distinct (foldl add_source acc items)"
  by (induction items arbitrary: acc) (auto simp: add_source_def)

text \<open>The orders without repetition: none, one source, or both in either order.\<close>

lemma source_orders:
  assumes "set xs \<subseteq> set validSources" "distinct xs" "xs \<noteq> []"
  shows "xs \<in> {[subscription_source], [wallet_source], [subscription_source, wallet_source],
    [wallet_source, subscription_source]}"
proof -
  have two: "set xs \<subseteq> {subscription_source, wallet_source}" using assms(1) by (simp add: validSources_def)
  have "card (set xs) \<le> 2"
    using card_mono [OF _ two] by (simp add: card_insert_if split: if_splits)
  then have "length xs \<le> 2" using assms(2) by (simp add: distinct_card)
  then obtain a bs where xs: "xs = a # bs" "length bs \<le> 1" using assms(3) by (cases xs) auto
  then show ?thesis using two assms(2) by (cases bs) auto
qed

lemma normalized_orders:
  "normalizeFundingSourceOrder order preference \<in> {[subscription_source], [wallet_source],
     [subscription_source, wallet_source], [wallet_source, subscription_source]}"
proof -
  have fallback: "getDefaultFundingSourceOrder preference \<in> {[subscription_source], [wallet_source],
      [subscription_source, wallet_source], [wallet_source, subscription_source]}"
    by (simp add: getDefaultFundingSourceOrder_def Let_def)
  have "foldl add_source [] items \<noteq> [] \<Longrightarrow> foldl add_source [] items \<in> {[subscription_source], [wallet_source],
      [subscription_source, wallet_source], [wallet_source, subscription_source]}" for items
    using foldl_add_source_canonical [of "[]" items] by (intro source_orders) auto
  then show ?thesis
    using fallback
    by (cases order) (auto simp only: normalizeFundingSourceOrder_def Let_def split: option.split list.split if_split)
qed

text \<open>An order of sources and a preference are two forms of one choice: every order that the console
  keeps is the order of its preference, and the preference of the order of any preference is that
  preference, an unknown one counting as subscription first.\<close>

theorem funding_choice_roundtrip:
  "getDefaultFundingSourceOrder (Some (getBillingPreferenceFromFundingSourceOrder
      (normalizeFundingSourceOrder order preference))) = normalizeFundingSourceOrder order preference \<and>
   getBillingPreferenceFromFundingSourceOrder (getDefaultFundingSourceOrder preference) =
      normalizeBillingPreference preference"
proof
  show "getDefaultFundingSourceOrder (Some (getBillingPreferenceFromFundingSourceOrder
      (normalizeFundingSourceOrder order preference))) = normalizeFundingSourceOrder order preference"
    using normalized_orders [of order preference]
    by (auto simp: getBillingPreferenceFromFundingSourceOrder_def getDefaultFundingSourceOrder_def
        normalizeBillingPreference_def Let_def funding_names)
  show "getBillingPreferenceFromFundingSourceOrder (getDefaultFundingSourceOrder preference) =
      normalizeBillingPreference preference"
    by (auto simp: getBillingPreferenceFromFundingSourceOrder_def getDefaultFundingSourceOrder_def
        normalizeBillingPreference_def Let_def funding_names split: option.splits)
qed

lemma records_by_id_distinct:
  "distinct (map sr_id records) \<Longrightarrow> records_by_id records i = Some r \<longleftrightarrow> r \<in> set records \<and> sr_id r = i"
proof -
  assume d: "distinct (map sr_id records)"
  have "map fst (rev (map (\<lambda>r. (sr_id r, r)) records)) = rev (map sr_id records)"
    by (simp add: rev_map comp_def)
  then have "distinct (map fst (rev (map (\<lambda>r. (sr_id r, r)) records)))" using d by (metis distinct_rev)
  then show ?thesis unfolding records_by_id_def by (subst map_of_eq_Some_iff) auto
qed

lemma take_ordered_exact:
  "\<forall>i r. byId i = Some r \<longrightarrow> sr_id r = i \<Longrightarrow> take_ordered byId ids = (rs, rest) \<Longrightarrow>
     map sr_id rs = uniq (filter (\<lambda>i. byId i \<noteq> None) ids) \<and> (\<forall>r \<in> set rs. byId (sr_id r) = Some r) \<and>
     rest = (\<lambda>i. if i \<in> set ids then None else byId i)"
proof (induction ids arbitrary: byId rs rest)
  case (Cons i ids)
  show ?case
  proof (cases "byId i")
    case None
    then have "take_ordered byId ids = (rs, rest)" using Cons.prems(2) by simp
    from Cons.IH [OF Cons.prems(1) this] show ?thesis using None by (auto simp: fun_eq_iff)
  next
    case (Some r)
    obtain rs' where t: "take_ordered (byId(i := None)) ids = (rs', rest)" "rs = r # rs'"
      using Cons.prems(2) Some by (auto split: prod.splits)
    have k: "sr_id r = i" using Cons.prems(1) Some by blast
    have "\<forall>j r. (byId(i := None)) j = Some r \<longrightarrow> sr_id r = j" using Cons.prems(1) by auto
    note IH = Cons.IH [OF this t(1)]
    have "uniq (filter (\<lambda>j. (byId(i := None)) j \<noteq> None) ids) = filter (\<lambda>j. j \<noteq> i) (uniq (filter (\<lambda>j. byId j \<noteq> None) ids))"
      by (simp add: filter_uniq filter_filter) (rule arg_cong [where f = uniq], rule filter_cong, auto)
    moreover have "byId (sr_id q) = Some q" if "q \<in> set rs'" for q
      using IH that by (metis fun_upd_apply option.distinct(1))
    ultimately show ?thesis using IH Some k t(2) by (auto simp: fun_eq_iff)
  qed
qed auto

lemma take_rest_distinct:
  "distinct (map sr_id records) \<Longrightarrow> take_rest byId records = filter (\<lambda>r. byId (sr_id r) \<noteq> None) records"
proof (induction records arbitrary: byId)
  case (Cons r records)
  have "(byId(sr_id r := None)) (sr_id q) = byId (sr_id q)" if "q \<in> set records" for q
    using Cons.prems that by (auto simp: image_iff)
  then have "filter (\<lambda>q. (byId(sr_id r := None)) (sr_id q) \<noteq> None) records =
    filter (\<lambda>q. byId (sr_id q) \<noteq> None) records"
    by (intro filter_cong) auto
  then show ?case using Cons by simp
qed simp

text \<open>With distinct identifiers the list is the charged order first, each known identifier of the
  order once, and then the other subscriptions in the order they came in; every subscription is in the
  list exactly once.\<close>

theorem ordered_subscriptions_exact:
  assumes "distinct (map sr_id records)"
  shows "map sr_id (getOrderedSubscriptions records orderIds) =
      uniq (filter (\<lambda>i. i \<in> sr_id ` set records) orderIds) @
      filter (\<lambda>i. i \<notin> set orderIds) (map sr_id records) \<and>
    mset (getOrderedSubscriptions records orderIds) = mset records"
proof -
  obtain rs rest where t: "take_ordered (records_by_id records) orderIds = (rs, rest)" by fastforce
  note mem = records_by_id_distinct [OF assms]
  have some: "records_by_id records i \<noteq> None \<longleftrightarrow> i \<in> sr_id ` set records" for i
    using mem [of i] by (auto simp: image_iff)
  note o = take_ordered_exact [OF _ t]
  have e: "getOrderedSubscriptions records orderIds = rs @ filter (\<lambda>r. sr_id r \<notin> set orderIds) records"
    using o mem some
    by (auto simp: getOrderedSubscriptions_def t take_rest_distinct [OF assms] intro!: filter_cong)
  have ids: "map sr_id rs = uniq (filter (\<lambda>i. i \<in> sr_id ` set records) orderIds)" using o mem some by auto
  have d: "distinct rs" using ids by (metis distinct_map distinct_uniq)
  have in_rs: "set rs = {r \<in> set records. sr_id r \<in> set orderIds}"
  proof (intro equalityI subsetI)
    fix r assume r: "r \<in> set rs"
    then have "r \<in> set records" using o mem by blast
    moreover have "sr_id r \<in> set (map sr_id rs)" using r by simp
    ultimately show "r \<in> {r \<in> set records. sr_id r \<in> set orderIds}" unfolding ids by auto
  next
    fix r assume r: "r \<in> {r \<in> set records. sr_id r \<in> set orderIds}"
    then have "sr_id r \<in> set (map sr_id rs)" unfolding ids by auto
    then obtain q where "q \<in> set rs" "sr_id q = sr_id r" by auto
    moreover from this have "q \<in> set records" using o mem by blast
    ultimately show "r \<in> set rs" using r assms by (auto simp: distinct_map dest: inj_onD)
  qed
  have "distinct records" using assms by (simp add: distinct_map)
  then have "mset rs = mset (filter (\<lambda>r. sr_id r \<in> set orderIds) records)"
    using d in_rs by (subst set_eq_iff_mset_eq_distinct [symmetric]) auto
  then have "mset (getOrderedSubscriptions records orderIds) = mset records"
    unfolding e by (simp add: multiset_partition [of "mset records" "\<lambda>r. sr_id r \<in> set orderIds", symmetric])
  then show ?thesis unfolding e by (simp add: ids filter_map comp_def)
qed

definition sample_subscriptions :: "subscription_record list" where
  "sample_subscriptions = [\<lparr>sr_id = 1, sr_title = js ''a''\<rparr>, \<lparr>sr_id = 2, sr_title = js ''b''\<rparr>, \<lparr>sr_id = 3, sr_title = js ''c''\<rparr>]"

theorem ordered_subscriptions_exact_witness:
  "map sr_id (getOrderedSubscriptions sample_subscriptions [3, 9, 3]) = [3, 1, 2]"
  using ordered_subscriptions_exact [of sample_subscriptions "[3, 9, 3]"] by (simp add: sample_subscriptions_def)

end
