(* ===== verification/SecureVerification.thy ===== *)
theory SecureVerification
  imports JsCoerce
begin

text \<open>
  The second factor in front of sensitive actions (features/auth/secure-verification, lib/secure-verification.ts).
  The hook keeps a dialog and the action that waits behind it; its operations are asynchronous, so the
  model has a list of tasks that wait for an answer of the server or the browser, and a step relation
  over the clicks of the dialog and the answers. Actions are named by numbers.
\<close>

section \<open>State\<close>

datatype verification_method = TwoFA | Passkey

record verification_methods =
  has2FA :: bool
  hasPasskey :: bool
  passkeySupported :: bool

definition defaultMethods :: verification_methods where
  "defaultMethods = \<lparr>has2FA = False, hasPasskey = False, passkeySupported = False\<rparr>"

record start_options =
  so_preferred :: "verification_method option"
  so_title :: "jstr option"
  so_description :: "jstr option"

record hook_options =
  ho_successMessage :: "jstr option"
  ho_autoReset :: bool

datatype task =
    Trying nat start_options
  | Fetching nat start_options
  | Verifying nat verification_method jstr
  | Calling nat verification_method

datatype hook_effect =
    Toast jstr
  | CallMade nat
  | Succeeded nat verification_method
  | Reported jstr

record verification_state =
  vs_methods :: verification_methods
  vs_method :: "verification_method option"
  vs_loading :: bool
  vs_code :: jstr
  vs_title :: "jstr option"
  vs_description :: "jstr option"
  vs_apiCall :: "nat option"
  vs_open :: bool
  vs_tasks :: "task list"
  vs_log :: "hook_effect list"

definition initial_verification :: verification_state where
  "initial_verification =
     \<lparr>vs_methods = defaultMethods, vs_method = None, vs_loading = False, vs_code = [], vs_title = None,
      vs_description = None, vs_apiCall = None, vs_open = False, vs_tasks = [], vs_log = []\<rparr>"

definition note_effects :: "hook_effect list \<Rightarrow> verification_state \<Rightarrow> verification_state" where
  "note_effects es w = w\<lparr>vs_log := vs_log w @ es\<rparr>"

definition spawn :: "task \<Rightarrow> verification_state \<Rightarrow> verification_state" where
  "spawn t w = w\<lparr>vs_tasks := vs_tasks w @ [t]\<rparr>"

definition finish_task :: "task \<Rightarrow> verification_state \<Rightarrow> verification_state" where
  "finish_task t w = w\<lparr>vs_tasks := remove1 t (vs_tasks w)\<rparr>"

section \<open>Errors of the server\<close>

text \<open>An error is the value that was thrown; the fields are read with optional chaining.\<close>

definition isVerificationRequiredError :: "jsval \<Rightarrow> bool" where
  "isVerificationRequiredError e =
     (if \<not> truthy e \<or> \<not> is_object_type e then False
      else let response = js_prop e (js ''response''); status = opt_prop response (js ''status'') in
        if \<not> strict_eq status (VNum (Fin 403)) then False
        else let code = opt_prop (opt_prop response (js ''data'')) (js ''code'') in
          if \<not> truthy code then False
          else code \<in> {VStr (js ''VERIFICATION_REQUIRED''), VStr (js ''VERIFICATION_EXPIRED''),
            VStr (js ''VERIFICATION_INVALID'')})"

definition extractVerificationInfo :: "jsval \<Rightarrow> jsval \<times> jsval" where
  "extractVerificationInfo e =
     (let body = opt_prop (js_prop e (js ''response'')) (js ''data'') in
      (opt_prop body (js ''code''),
       js_coalesce (opt_prop body (js ''message'')) (VStr (js ''Secure verification is required''))))"

section \<open>Operations of the hook\<close>

definition reset_verification :: "verification_state \<Rightarrow> verification_state" where
  "reset_verification w = w\<lparr>vs_method := None, vs_loading := False, vs_code := [], vs_title := None,
     vs_description := None, vs_apiCall := None, vs_open := False\<rparr>"

definition startVerification :: "nat \<Rightarrow> start_options \<Rightarrow> verification_state \<Rightarrow> verification_state" where
  "startVerification call cfg w = spawn (Fetching call cfg) w"

definition default_method :: "start_options \<Rightarrow> verification_methods \<Rightarrow> verification_method option" where
  "default_method cfg m =
     (case so_preferred cfg of
        Some p \<Rightarrow> Some p
      | None \<Rightarrow> if hasPasskey m \<and> passkeySupported m then Some Passkey
                else if has2FA m then Some TwoFA else None)"

text \<open>The rest of startVerification, once the methods of the user are known.\<close>

definition methods_arrived :: "nat \<Rightarrow> start_options \<Rightarrow> verification_methods \<Rightarrow> verification_state \<Rightarrow> verification_state" where
  "methods_arrived call cfg m w =
     (let w = (finish_task (Fetching call cfg) w)\<lparr>vs_methods := m\<rparr> in
      if \<not> has2FA m \<and> \<not> hasPasskey m then
        note_effects [Toast (js ''Please enable Two-factor Authentication or Passkey before proceeding''),
          Reported (js ''No verification methods available. Enable 2FA or Passkey to continue.'')] w
      else w\<lparr>vs_apiCall := Some call, vs_method := default_method cfg m, vs_title := so_title cfg,
             vs_description := so_description cfg, vs_open := True\<rparr>)"

definition executeVerification :: "verification_method option \<Rightarrow> jstr option \<Rightarrow> verification_state \<Rightarrow> verification_state" where
  "executeVerification meth code w =
     (case vs_apiCall w of
        None \<Rightarrow> note_effects [Toast (js ''Verification is not configured properly'')] w
      | Some call \<Rightarrow>
          (case (case meth of Some m \<Rightarrow> Some m | None \<Rightarrow> vs_method w) of
             None \<Rightarrow> note_effects [Toast (js ''Select a verification method first'')] w
           | Some m \<Rightarrow> spawn (Verifying call m (case code of Some c \<Rightarrow> c | None \<Rightarrow> vs_code w)) (w\<lparr>vs_loading := True\<rparr>)))"

text \<open>A code of white space never reaches the server.\<close>

definition verify_can_pass :: "verification_method \<Rightarrow> jstr \<Rightarrow> bool" where
  "verify_can_pass m code \<longleftrightarrow> (case m of TwoFA \<Rightarrow> trim code \<noteq> [] | Passkey \<Rightarrow> True)"

definition verify_passed :: "nat \<Rightarrow> verification_method \<Rightarrow> jstr \<Rightarrow> verification_state \<Rightarrow> verification_state" where
  "verify_passed call m code w = spawn (Calling call m) (note_effects [CallMade call] (finish_task (Verifying call m code) w))"

text \<open>The handler of an error and the final block.\<close>

definition execution_failed :: "task \<Rightarrow> jstr \<Rightarrow> verification_state \<Rightarrow> verification_state" where
  "execution_failed t message w =
     (note_effects [Toast message, Reported message] (finish_task t w))\<lparr>vs_loading := False\<rparr>"

definition call_succeeded :: "hook_options \<Rightarrow> nat \<Rightarrow> verification_method \<Rightarrow> verification_state \<Rightarrow> verification_state" where
  "call_succeeded opts call m w =
     (let w = note_effects ((case ho_successMessage opts of Some s \<Rightarrow> if s = [] then [] else [Toast s] | None \<Rightarrow> []) @
                [Succeeded call m]) (finish_task (Calling call m) w);
          w = (if ho_autoReset opts then reset_verification w else w)
      in w\<lparr>vs_loading := False\<rparr>)"

definition setCode :: "jstr \<Rightarrow> verification_state \<Rightarrow> verification_state" where
  "setCode code w = w\<lparr>vs_code := code\<rparr>"

definition switchMethod :: "verification_method \<Rightarrow> verification_state \<Rightarrow> verification_state" where
  "switchMethod m w = w\<lparr>vs_method := Some m, vs_code := []\<rparr>"

definition cancelVerification :: "verification_state \<Rightarrow> verification_state" where
  "cancelVerification w = reset_verification w"

definition withVerification :: "nat \<Rightarrow> start_options \<Rightarrow> verification_state \<Rightarrow> verification_state" where
  "withVerification call cfg w = spawn (Trying call cfg) (note_effects [CallMade call] w)"

text \<open>The first try is over: a result or another error ends it, a demand for verification opens the dialog.\<close>

definition try_answered :: "nat \<Rightarrow> start_options \<Rightarrow> jsval option \<Rightarrow> verification_state \<Rightarrow> verification_state" where
  "try_answered call cfg err w =
     (let w = finish_task (Trying call cfg) w in
      case err of
        None \<Rightarrow> w
      | Some e \<Rightarrow>
          if isVerificationRequiredError e then
            startVerification call cfg (note_effects [Toast (to_str (snd (extractVerificationInfo e)))] w)
          else w)"

definition canUseMethod :: "verification_state \<Rightarrow> verification_method \<Rightarrow> bool" where
  "canUseMethod w m =
     (case m of TwoFA \<Rightarrow> has2FA (vs_methods w)
      | Passkey \<Rightarrow> hasPasskey (vs_methods w) \<and> passkeySupported (vs_methods w))"

definition recommendedMethod :: "verification_state \<Rightarrow> verification_method option" where
  "recommendedMethod w =
     (let m = vs_methods w in
      if hasPasskey m \<and> passkeySupported m then Some Passkey else if has2FA m then Some TwoFA else None)"

section \<open>The dialog\<close>

definition availableTabs :: "verification_methods \<Rightarrow> verification_method list" where
  "availableTabs m = (if has2FA m then [TwoFA] else []) @ (if hasPasskey m \<and> passkeySupported m then [Passkey] else [])"

definition activeMethod :: "verification_state \<Rightarrow> verification_method option" where
  "activeMethod w =
     (case vs_method w of
        Some m \<Rightarrow> Some m
      | None \<Rightarrow> (case availableTabs (vs_methods w) of m # _ \<Rightarrow> Some m | [] \<Rightarrow> None))"

definition verifyDisabled :: "verification_state \<Rightarrow> bool" where
  "verifyDisabled w \<longleftrightarrow>
     vs_loading w \<or> activeMethod w = Some TwoFA \<and> (trim (vs_code w) = [] \<or> length (vs_code w) < 6)"

definition handleVerify :: "verification_state \<Rightarrow> verification_state" where
  "handleVerify w =
     (case activeMethod w of
        None \<Rightarrow> w
      | Some m \<Rightarrow> executeVerification (Some m) (if m = TwoFA then Some (vs_code w) else None) w)"

section \<open>Steps and reachable states\<close>

text \<open>What the user can do: start an action, with or without a first try, and use the open dialog, whose
  button is off while a verification runs and whose escape key is not.\<close>

inductive user_step :: "verification_state \<Rightarrow> verification_state \<Rightarrow> bool" where
  user_try: "user_step w (withVerification call cfg w)"
| user_start: "user_step w (startVerification call cfg w)"
| user_verify: "vs_open w \<Longrightarrow> availableTabs (vs_methods w) \<noteq> [] \<Longrightarrow> \<not> verifyDisabled w \<Longrightarrow>
    user_step w (handleVerify w)"
| user_type: "vs_open w \<Longrightarrow> \<not> vs_loading w \<Longrightarrow> user_step w (setCode code w)"
| user_switch: "vs_open w \<Longrightarrow> m \<in> set (availableTabs (vs_methods w)) \<Longrightarrow> user_step w (switchMethod m w)"
| user_dismiss: "vs_open w \<Longrightarrow> user_step w (cancelVerification w)"

text \<open>What the server and the browser can answer.\<close>

inductive reply_step :: "hook_options \<Rightarrow> verification_state \<Rightarrow> verification_state \<Rightarrow> bool" for opts where
  reply_try: "Trying call cfg \<in> set (vs_tasks w) \<Longrightarrow> reply_step opts w (try_answered call cfg err w)"
| reply_methods: "Fetching call cfg \<in> set (vs_tasks w) \<Longrightarrow> reply_step opts w (methods_arrived call cfg m w)"
| reply_verified: "Verifying call m code \<in> set (vs_tasks w) \<Longrightarrow> verify_can_pass m code \<Longrightarrow>
    reply_step opts w (verify_passed call m code w)"
| reply_rejected: "Verifying call m code \<in> set (vs_tasks w) \<Longrightarrow>
    reply_step opts w (execution_failed (Verifying call m code) message w)"
| reply_called: "Calling call m \<in> set (vs_tasks w) \<Longrightarrow> reply_step opts w (call_succeeded opts call m w)"
| reply_call_failed: "Calling call m \<in> set (vs_tasks w) \<Longrightarrow>
    reply_step opts w (execution_failed (Calling call m) message w)"

inductive verification_reach :: "hook_options \<Rightarrow> verification_state \<Rightarrow> bool" for opts where
  reach_init: "verification_reach opts initial_verification"
| reach_user: "verification_reach opts w \<Longrightarrow> user_step w w' \<Longrightarrow> verification_reach opts w'"
| reach_reply: "verification_reach opts w \<Longrightarrow> reply_step opts w w' \<Longrightarrow> verification_reach opts w'"

lemmas verification_ops = startVerification_def methods_arrived_def executeVerification_def verify_passed_def
  execution_failed_def call_succeeded_def setCode_def switchMethod_def cancelVerification_def
  withVerification_def try_answered_def reset_verification_def note_effects_def spawn_def finish_task_def
  handleVerify_def Let_def

fun executing :: "task \<Rightarrow> bool" where
  "executing (Verifying _ _ _) = True"
| "executing (Calling _ _) = True"
| "executing _ = False"

definition dialog_sound :: "verification_state \<Rightarrow> bool" where
  "dialog_sound w \<longleftrightarrow> (vs_loading w \<longrightarrow> (\<exists>t \<in> set (vs_tasks w). executing t)) \<and>
     (vs_open w \<longrightarrow> vs_apiCall w \<noteq> None)"

lemma executing_kept: "\<exists>t \<in> set ts. executing t \<Longrightarrow> \<not> executing u \<Longrightarrow> \<exists>t \<in> set (remove1 u ts). executing t"
  by (metis in_set_remove1)

lemma user_step_sound: "user_step w w' \<Longrightarrow> dialog_sound w \<Longrightarrow> dialog_sound w'"
  by (induction rule: user_step.induct)
    (auto simp: dialog_sound_def verification_ops split: option.splits)

lemma reply_step_sound: "reply_step opts w w' \<Longrightarrow> dialog_sound w \<Longrightarrow> dialog_sound w'"
proof (induction rule: reply_step.induct)
  case (reply_try call cfg w err)
  then show ?case using executing_kept [of "vs_tasks w" "Trying call cfg"]
    by (auto simp: dialog_sound_def verification_ops split: option.splits)
next
  case (reply_methods call cfg w m)
  then show ?case using executing_kept [of "vs_tasks w" "Fetching call cfg"]
    by (auto simp: dialog_sound_def verification_ops)
qed (auto simp: dialog_sound_def verification_ops)

lemma reach_sound: "verification_reach opts w \<Longrightarrow> dialog_sound w"
  by (induction rule: verification_reach.induct)
    (auto simp: user_step_sound reply_step_sound, simp add: dialog_sound_def initial_verification_def)


section \<open>Every answer ends something\<close>

fun task_weight :: "task \<Rightarrow> nat" where
  "task_weight (Trying _ _) = 2"
| "task_weight (Fetching _ _) = 1"
| "task_weight (Verifying _ _ _) = 2"
| "task_weight (Calling _ _) = 1"

definition pending_weight :: "verification_state \<Rightarrow> nat" where
  "pending_weight w = sum_list (map task_weight (vs_tasks w))"

lemma reply_lowers_weight: "reply_step opts w w' \<Longrightarrow> pending_weight w' < pending_weight w"
  by (induction rule: reply_step.induct)
    (auto simp: pending_weight_def verification_ops sum_list_map_remove1 split: option.splits)

lemma reply_possible: "vs_tasks w \<noteq> [] \<Longrightarrow> \<exists>w'. reply_step opts w w'"
proof -
  assume "vs_tasks w \<noteq> []"
  then obtain t where t: "t \<in> set (vs_tasks w)" by (cases "vs_tasks w") auto
  show ?thesis
    by (rule task.exhaust [of t]) (use t in \<open>auto intro: reply_step.intros\<close>)
qed

lemma replies_bounded: "(reply_step opts ^^ n) w w' \<Longrightarrow> n + pending_weight w' \<le> pending_weight w"
proof (induction n arbitrary: w')
  case (Suc n)
  then obtain v where "(reply_step opts ^^ n) w v" "reply_step opts v w'" by auto
  then show ?case using Suc.IH reply_lowers_weight by fastforce
qed simp

lemma weight_bound: "sum_list (map task_weight ts) \<le> 2 * length ts"
proof (induction ts)
  case (Cons t ts)
  then show ?case by (cases t) auto
qed simp

text \<open>C28. From every reachable state the pending answers, in any order and with any outcome, are at most
  two for each task, and once no answer is outstanding the dialog is not busy: it never hangs as long as
  the server answers.\<close>

theorem verification_settles:
  assumes "verification_reach opts w"
  shows "((reply_step opts ^^ n) w w' \<longrightarrow> n \<le> 2 * length (vs_tasks w)) \<and>
    (\<exists>m v. (reply_step opts ^^ m) w v \<and> vs_tasks v = [] \<and> \<not> vs_loading v)"
proof
  have "pending_weight w \<le> 2 * length (vs_tasks w)" by (simp add: pending_weight_def weight_bound)
  then show "(reply_step opts ^^ n) w w' \<longrightarrow> n \<le> 2 * length (vs_tasks w)" using replies_bounded by fastforce
  show "\<exists>m v. (reply_step opts ^^ m) w v \<and> vs_tasks v = [] \<and> \<not> vs_loading v"
    using assms
  proof (induction "pending_weight w" arbitrary: w rule: less_induct)
    case less
    show ?case
    proof (cases "vs_tasks w = []")
      case True
      then show ?thesis using reach_sound [OF less.prems] by (intro exI [of _ 0]) (auto simp: dialog_sound_def)
    next
      case False
      then obtain v where v: "reply_step opts w v" using reply_possible by blast
      obtain m u where "(reply_step opts ^^ m) v u" "vs_tasks u = []" "\<not> vs_loading u"
        using less.hyps [OF reply_lowers_weight [OF v]] reach_reply [OF less.prems v] by blast
      then show ?thesis using v by (meson relpowp_Suc_I2)
    qed
  qed
qed

section \<open>One action at a time\<close>

text \<open>The contract of a verification: an action is asked for, checked, run, and done or asked for again;
  only a passed check runs an action.\<close>

datatype phase = Idle | Asking nat | Checking nat | Running nat

inductive phase_step :: "phase \<Rightarrow> phase \<Rightarrow> bool" where
  ph_ask: "phase_step Idle (Asking c)"
| ph_leave: "phase_step (Asking c) Idle"
| ph_check: "phase_step (Asking c) (Checking c)"
| ph_reject: "phase_step (Checking c) (Asking c)"
| ph_pass: "phase_step (Checking c) (Running c)"
| ph_again: "phase_step (Running c) (Asking c)"
| ph_finish: "phase_step (Running c) Idle"

definition phase_of :: "verification_state \<Rightarrow> phase" where
  "phase_of w =
     (case vs_tasks w of
        Verifying c _ _ # _ \<Rightarrow> Checking c
      | Calling c _ # _ \<Rightarrow> Running c
      | _ \<Rightarrow> (if vs_open w then (case vs_apiCall w of Some c \<Rightarrow> Asking c | None \<Rightarrow> Idle) else Idle))"

text \<open>Steps of a user who starts an action only when nothing is open or outstanding and does not
  dismiss the dialog while a verification runs.\<close>

inductive calm_step :: "hook_options \<Rightarrow> verification_state \<Rightarrow> verification_state \<Rightarrow> bool" for opts where
  calm_try: "vs_tasks w = [] \<Longrightarrow> \<not> vs_open w \<Longrightarrow> calm_step opts w (withVerification call cfg w)"
| calm_start: "vs_tasks w = [] \<Longrightarrow> \<not> vs_open w \<Longrightarrow> calm_step opts w (startVerification call cfg w)"
| calm_verify: "vs_open w \<Longrightarrow> availableTabs (vs_methods w) \<noteq> [] \<Longrightarrow> \<not> verifyDisabled w \<Longrightarrow>
    calm_step opts w (handleVerify w)"
| calm_type: "vs_open w \<Longrightarrow> \<not> vs_loading w \<Longrightarrow> calm_step opts w (setCode code w)"
| calm_switch: "vs_open w \<Longrightarrow> m \<in> set (availableTabs (vs_methods w)) \<Longrightarrow> calm_step opts w (switchMethod m w)"
| calm_dismiss: "vs_open w \<Longrightarrow> \<not> vs_loading w \<Longrightarrow> calm_step opts w (cancelVerification w)"
| calm_reply: "reply_step opts w w' \<Longrightarrow> calm_step opts w w'"

inductive calm_reach :: "hook_options \<Rightarrow> verification_state \<Rightarrow> bool" for opts where
  calm_init: "calm_reach opts initial_verification"
| calm_next: "calm_reach opts w \<Longrightarrow> calm_step opts w w' \<Longrightarrow> calm_reach opts w'"

definition single_flight :: "verification_state \<Rightarrow> bool" where
  "single_flight w \<longleftrightarrow>
     (case vs_tasks w of
        [] \<Rightarrow> \<not> vs_loading w \<and> (vs_open w \<longrightarrow> vs_apiCall w \<noteq> None)
      | [t] \<Rightarrow> (case t of
            Trying _ _ \<Rightarrow> \<not> vs_open w \<and> \<not> vs_loading w
          | Fetching _ _ \<Rightarrow> \<not> vs_open w \<and> \<not> vs_loading w
          | Verifying c _ _ \<Rightarrow> vs_open w \<and> vs_loading w \<and> vs_apiCall w = Some c
          | Calling c _ \<Rightarrow> vs_open w \<and> vs_loading w \<and> vs_apiCall w = Some c)
      | _ \<Rightarrow> False)"

lemma single_cases:
  assumes "single_flight w" "t \<in> set (vs_tasks w)"
  shows "vs_tasks w = [t]"
  using assms by (auto simp: single_flight_def split: list.splits)

lemma user_simulation:
  assumes "calm_step opts w w'" "single_flight w"
  shows "single_flight w' \<and> (phase_of w' = phase_of w \<or> phase_step (phase_of w) (phase_of w'))"
  using assms
proof (induction rule: calm_step.induct)
  case (calm_verify w)
  then have n: "vs_tasks w = []" "\<not> vs_loading w" "vs_apiCall w \<noteq> None"
    by (auto simp: verifyDisabled_def single_flight_def split: list.splits task.splits)
  moreover have "activeMethod w \<noteq> None"
    using calm_verify.hyps(2) by (cases "availableTabs (vs_methods w)") (auto simp: activeMethod_def split: option.split)
  then obtain m where "activeMethod w = Some m" by blast
  ultimately show ?case using calm_verify.hyps(1)
    by (auto simp: verification_ops single_flight_def phase_of_def ph_check)
next
  case (calm_reply w w')
  then show ?case
  proof (induction rule: reply_step.induct)
    case (reply_try call cfg w err)
    note t = single_cases [OF reply_try.prems reply_try.hyps]
    then show ?case using reply_try.prems
      by (auto simp: verification_ops single_flight_def phase_of_def split: option.splits)
  next
    case (reply_methods call cfg w m)
    note t = single_cases [OF reply_methods.prems reply_methods.hyps]
    then show ?case using reply_methods.prems
      by (auto simp: verification_ops single_flight_def phase_of_def ph_ask)
  next
    case (reply_verified call m code w)
    note t = single_cases [OF reply_verified.prems reply_verified.hyps(1)]
    then show ?case using reply_verified.prems
      by (auto simp: verification_ops single_flight_def phase_of_def ph_pass)
  next
    case (reply_rejected call m code w message)
    note t = single_cases [OF reply_rejected.prems reply_rejected.hyps]
    then show ?case using reply_rejected.prems
      by (auto simp: verification_ops single_flight_def phase_of_def ph_reject)
  next
    case (reply_called call m w)
    note t = single_cases [OF reply_called.prems reply_called.hyps]
    then show ?case using reply_called.prems
      by (auto simp: verification_ops single_flight_def phase_of_def ph_finish ph_again)
  next
    case (reply_call_failed call m w message)
    note t = single_cases [OF reply_call_failed.prems reply_call_failed.hyps]
    then show ?case using reply_call_failed.prems
      by (auto simp: verification_ops single_flight_def phase_of_def ph_again)
  qed
qed (auto simp: verification_ops single_flight_def phase_of_def ph_leave split: list.splits task.splits option.splits)

lemma calm_single: "calm_reach opts w \<Longrightarrow> single_flight w"
proof (induction rule: calm_reach.induct)
  case calm_init
  then show ?case by (simp add: single_flight_def initial_verification_def)
next
  case (calm_next w w')
  then show ?case using user_simulation by blast
qed

text \<open>C18. With one action at a time the hook implements its contract: every step keeps the phase or is a step
  of the contract, so an action runs behind the dialog only after its own check passed.\<close>

theorem verification_refines_phases:
  assumes "calm_reach opts w" "calm_step opts w w'"
  shows "phase_of w' = phase_of w \<or> phase_step (phase_of w) (phase_of w')"
  using user_simulation [OF assms(2) calm_single [OF assms(1)]] by blast

section \<open>An answer that comes late\<close>

definition no_start_options :: start_options where
  "no_start_options = \<lparr>so_preferred = None, so_title = None, so_description = None\<rparr>"

definition passkey_methods :: verification_methods where
  "passkey_methods = \<lparr>has2FA = False, hasPasskey = True, passkeySupported = True\<rparr>"

definition default_options :: hook_options where
  "default_options = \<lparr>ho_successMessage = None, ho_autoReset = True\<rparr>"

definition first_opened :: verification_state where
  "first_opened = methods_arrived 1 no_start_options passkey_methods (startVerification 1 no_start_options initial_verification)"

definition first_running :: verification_state where
  "first_running = handleVerify first_opened"

definition second_opened :: verification_state where
  "second_opened = methods_arrived 2 no_start_options passkey_methods
     (startVerification 2 no_start_options (cancelVerification first_running))"

definition first_passed :: verification_state where
  "first_passed = verify_passed 1 Passkey [] second_opened"

lemma first_opened_reached: "verification_reach opts first_opened"
  unfolding first_opened_def
  by (rule reach_reply [OF reach_user [OF reach_init user_start] reply_methods]) code_simp

lemma first_running_reached: "verification_reach opts first_running"
  unfolding first_running_def
  by (rule reach_user [OF first_opened_reached user_verify]) code_simp+

lemma second_opened_reached: "verification_reach opts second_opened"
proof -
  have "verification_reach opts (cancelVerification first_running)"
    by (rule reach_user [OF first_running_reached user_dismiss]) code_simp
  then have "verification_reach opts (startVerification 2 no_start_options (cancelVerification first_running))"
    by (rule reach_user [OF _ user_start])
  then show ?thesis unfolding second_opened_def by (rule reach_reply [OF _ reply_methods]) code_simp
qed

lemma first_passed_reached: "verification_reach opts first_passed"
  unfolding first_passed_def by (rule reach_reply [OF second_opened_reached reply_verified]) code_simp+

text \<open>Dismissing the dialog does not stop a running verification: its action is still run, and when it
  succeeds while the dialog of another action is open, that dialog is closed and its action dropped.\<close>

theorem late_success_closes_other:
  "\<exists>w w'. verification_reach default_options w \<and> vs_open w \<and> vs_apiCall w = Some 2 \<and> CallMade 1 \<in> set (vs_log w) \<and>
     reply_step default_options w w' \<and> Succeeded 1 Passkey \<in> set (vs_log w') \<and> \<not> vs_open w' \<and>
     vs_apiCall w' = None \<and> CallMade 2 \<notin> set (vs_log w')"
proof (intro exI conjI)
  show "verification_reach default_options first_passed" by (rule first_passed_reached)
  show "reply_step default_options first_passed (call_succeeded default_options 1 Passkey first_passed)"
    by (rule reply_called) code_simp
qed code_simp+


theorem verification_settles_witness:
  "\<exists>m v. (reply_step default_options ^^ m) first_running v \<and> vs_tasks v = [] \<and> \<not> vs_loading v"
  using verification_settles [OF first_running_reached] by blast

theorem verification_refines_phases_witness:
  "phase_of (startVerification 1 no_start_options initial_verification) = phase_of initial_verification \<or>
   phase_step (phase_of initial_verification) (phase_of (startVerification 1 no_start_options initial_verification))"
  by (rule verification_refines_phases [OF calm_init calm_start]) code_simp+

end
