(* ===== verification/UpstreamUpdates.thy ===== *)
theory UpstreamUpdates
  imports JsCoerce
begin

text \<open>
  Updates of the model list of a channel from its provider (features/channels/lib/upstream-update-utils.ts,
  hooks/use-channel-upstream-updates.ts): the reading of the stored result of a check, and the hook that
  detects and applies updates. Each of the four requests of the hook is guarded by a lock that is
  kept outside of the rendered state; a request is a task until its answer and the refresh after it
  are over.
\<close>

section \<open>Reading model lists\<close>

definition model_text :: "jsval \<Rightarrow> jstr" where
  "model_text model = trim (to_str (js_or model (VStr [])))"

definition normalizeModelList :: "jsval list \<Rightarrow> jstr list" where
  "normalizeModelList models = uniq (filter (\<lambda>m. m \<noteq> []) (map model_text models))"

text \<open>The list behind a cast to an array: a falsy value counts as empty, a value that is no array has no
  map and throws (None).\<close>

definition cast_list :: "jsval \<Rightarrow> jsval list option" where
  "cast_list v = (if \<not> truthy v then Some [] else case v of VArr vs \<Rightarrow> Some vs | _ \<Rightarrow> None)"

record update_meta =
  um_enabled :: bool
  um_pendingAdd :: "jstr list"
  um_pendingRemove :: "jstr list"

definition no_update_meta :: update_meta where
  "no_update_meta = \<lparr>um_enabled = False, um_pendingAdd = [], um_pendingRemove = []\<rparr>"

definition settings_value :: "jsval \<Rightarrow> jsval" where
  "settings_value settings =
     (if truthy settings \<and> is_object_type settings \<and> \<not> is_array settings then settings
      else case settings of
             VStr s \<Rightarrow> (case json_parse s of Some v \<Rightarrow> v | None \<Rightarrow> VNull)
           | _ \<Rightarrow> VNull)"

definition parseUpstreamUpdateMeta :: "jsval \<Rightarrow> update_meta option" where
  "parseUpstreamUpdateMeta settings =
     (let parsed = settings_value settings in
      if \<not> truthy parsed \<or> \<not> is_object_type parsed then Some no_update_meta
      else case (cast_list (js_prop parsed (js ''upstream_model_update_last_detected_models'')),
                 cast_list (js_prop parsed (js ''upstream_model_update_last_removed_models''))) of
             (Some adds, Some removes) \<Rightarrow>
               Some \<lparr>um_enabled = strict_eq (js_prop parsed (js ''upstream_model_update_check_enabled'')) (VBool True),
                     um_pendingAdd = normalizeModelList adds,
                     um_pendingRemove = normalizeModelList removes\<rparr>
           | _ \<Rightarrow> None)"

definition ignored_settings :: "jsval \<Rightarrow> jsval" where
  "ignored_settings settings =
     (if truthy settings \<and> is_object_type settings then settings
      else case settings of
             VStr s \<Rightarrow> (case json_parse s of Some v \<Rightarrow> v | None \<Rightarrow> VNull)
           | _ \<Rightarrow> VNull)"

definition getManualIgnoredModelCount :: "jsval \<Rightarrow> nat option" where
  "getManualIgnoredModelCount settings =
     (let parsed = ignored_settings settings in
      if \<not> truthy parsed then Some 0
      else case cast_list (js_prop parsed (js ''upstream_model_update_ignored_models'')) of
             Some vs \<Rightarrow> Some (length (normalizeModelList vs))
           | None \<Rightarrow> None)"

section \<open>State of the hook\<close>

datatype update_op = Apply | ApplyAll | Detect | DetectAll

datatype update_tab = Add_tab | Remove_tab

datatype request =
    Apply_request int "jstr list" "jstr list" "jstr list"
  | ApplyAll_request
  | Detect_request int
  | DetectAll_request

fun op_of :: "request \<Rightarrow> update_op" where
  "op_of (Apply_request _ _ _ _) = Apply"
| "op_of ApplyAll_request = ApplyAll"
| "op_of (Detect_request _) = Detect"
| "op_of DetectAll_request = DetectAll"

text \<open>A request without an answer, or a successful one whose refresh is not over.\<close>

datatype update_task = Requesting request | Refreshing update_op

fun task_op :: "update_task \<Rightarrow> update_op" where
  "task_op (Requesting r) = op_of r"
| "task_op (Refreshing o') = o'"

record upstream_state =
  us_showModal :: bool
  us_channel :: "int option"
  us_addModels :: "jstr list"
  us_removeModels :: "jstr list"
  us_preferredTab :: update_tab
  us_loading :: "update_op \<Rightarrow> bool"
  us_locked :: "update_op \<Rightarrow> bool"
  us_tasks :: "update_task list"
  us_sent :: "request list"

definition initial_upstream :: upstream_state where
  "initial_upstream =
     \<lparr>us_showModal = False, us_channel = None, us_addModels = [], us_removeModels = [],
      us_preferredTab = Add_tab, us_loading = (\<lambda>_. False), us_locked = (\<lambda>_. False), us_tasks = [],
      us_sent = []\<rparr>"

section \<open>Handlers\<close>

text \<open>A channel without an identifier, or with the identifier 0, is None.\<close>

definition openModal :: "int option \<Rightarrow> jsval list \<Rightarrow> jsval list \<Rightarrow> update_tab \<Rightarrow> upstream_state \<Rightarrow> upstream_state" where
  "openModal record pendingAdd pendingRemove tab st =
     (let normAdd = normalizeModelList pendingAdd; normRemove = normalizeModelList pendingRemove in
      if record = None \<or> (normAdd = [] \<and> normRemove = []) then st
      else st\<lparr>us_channel := record, us_addModels := normAdd, us_removeModels := normRemove,
              us_preferredTab := tab, us_showModal := True\<rparr>)"

definition closeModal :: "upstream_state \<Rightarrow> upstream_state" where
  "closeModal st = st\<lparr>us_showModal := False, us_channel := None, us_addModels := [], us_removeModels := [],
     us_preferredTab := Add_tab\<rparr>"

text \<open>Detecting a single channel has a lock and no mark of its own.\<close>

definition shows_loading :: "update_op \<Rightarrow> bool" where
  "shows_loading o' \<longleftrightarrow> o' \<noteq> Detect"

definition begin_request :: "request \<Rightarrow> upstream_state \<Rightarrow> upstream_state" where
  "begin_request r st =
     st\<lparr>us_locked := (us_locked st)(op_of r := True),
        us_loading := (if shows_loading (op_of r) then (us_loading st)(op_of r := True) else us_loading st),
        us_tasks := us_tasks st @ [Requesting r], us_sent := us_sent st @ [r]\<rparr>"

definition applyUpdates :: "jsval list \<Rightarrow> jsval list \<Rightarrow> upstream_state \<Rightarrow> upstream_state" where
  "applyUpdates selectedAdd selectedRemove st =
     (if us_locked st Apply then st
      else case us_channel st of
             None \<Rightarrow> closeModal st
           | Some channel \<Rightarrow>
               (let normSelectedAdd = normalizeModelList selectedAdd;
                    ignoreModels = filter (\<lambda>m. m \<notin> set normSelectedAdd) (us_addModels st) in
                begin_request (Apply_request channel normSelectedAdd ignoreModels (normalizeModelList selectedRemove)) st))"

definition applyAllUpdates :: "upstream_state \<Rightarrow> upstream_state" where
  "applyAllUpdates st = (if us_locked st ApplyAll then st else begin_request ApplyAll_request st)"

definition detectChannelUpdates :: "int option \<Rightarrow> upstream_state \<Rightarrow> upstream_state" where
  "detectChannelUpdates ch st =
     (case ch of
        Some channel \<Rightarrow> if us_locked st Detect then st else begin_request (Detect_request channel) st
      | None \<Rightarrow> st)"

definition detectAllUpdates :: "upstream_state \<Rightarrow> upstream_state" where
  "detectAllUpdates st = (if us_locked st DetectAll then st else begin_request DetectAll_request st)"

text \<open>The final block of a handler.\<close>

definition end_task :: "update_task \<Rightarrow> upstream_state \<Rightarrow> upstream_state" where
  "end_task t st =
     st\<lparr>us_locked := (us_locked st)(task_op t := False), us_loading := (us_loading st)(task_op t := False),
        us_tasks := remove1 t (us_tasks st)\<rparr>"

text \<open>A successful answer closes the dialog of an applied update and refreshes the table; a refusal or an
  exception ends the task, and so does the end of the refresh, whatever its outcome.\<close>

definition request_succeeded :: "request \<Rightarrow> upstream_state \<Rightarrow> upstream_state" where
  "request_succeeded r st =
     (let st = (if op_of r = Apply then closeModal st else st)
      in st\<lparr>us_tasks := remove1 (Requesting r) (us_tasks st) @ [Refreshing (op_of r)]\<rparr>)"

definition request_failed :: "request \<Rightarrow> upstream_state \<Rightarrow> upstream_state" where
  "request_failed r st = end_task (Requesting r) st"

definition refresh_finished :: "update_op \<Rightarrow> upstream_state \<Rightarrow> upstream_state" where
  "refresh_finished o' st = end_task (Refreshing o') st"

section \<open>Steps\<close>

inductive upstream_click :: "upstream_state \<Rightarrow> upstream_state \<Rightarrow> bool" where
  click_open: "upstream_click st (openModal record adds removes tab st)"
| click_close: "upstream_click st (closeModal st)"
| click_apply: "upstream_click st (applyUpdates adds removes st)"
| click_apply_all: "upstream_click st (applyAllUpdates st)"
| click_detect: "upstream_click st (detectChannelUpdates ch st)"
| click_detect_all: "upstream_click st (detectAllUpdates st)"

inductive upstream_answer :: "upstream_state \<Rightarrow> upstream_state \<Rightarrow> bool" where
  answer_success: "Requesting r \<in> set (us_tasks st) \<Longrightarrow> upstream_answer st (request_succeeded r st)"
| answer_failure: "Requesting r \<in> set (us_tasks st) \<Longrightarrow> upstream_answer st (request_failed r st)"
| answer_refreshed: "Refreshing o' \<in> set (us_tasks st) \<Longrightarrow> upstream_answer st (refresh_finished o' st)"

inductive upstream_reach :: "upstream_state \<Rightarrow> bool" where
  upstream_init: "upstream_reach initial_upstream"
| upstream_click: "upstream_reach st \<Longrightarrow> upstream_click st st' \<Longrightarrow> upstream_reach st'"
| upstream_answer: "upstream_reach st \<Longrightarrow> upstream_answer st st' \<Longrightarrow> upstream_reach st'"

lemmas upstream_handlers = openModal_def closeModal_def begin_request_def applyUpdates_def applyAllUpdates_def
  detectChannelUpdates_def detectAllUpdates_def end_task_def request_succeeded_def request_failed_def
  refresh_finished_def Let_def

section \<open>Laws\<close>

definition ops_running :: "upstream_state \<Rightarrow> update_op list" where
  "ops_running st = map task_op (us_tasks st)"

definition locks_sound :: "upstream_state \<Rightarrow> bool" where
  "locks_sound st \<longleftrightarrow> distinct (ops_running st) \<and> (\<forall>o'. us_locked st o' \<longleftrightarrow> o' \<in> set (ops_running st)) \<and>
     (\<forall>o'. us_loading st o' \<longleftrightarrow> us_locked st o' \<and> shows_loading o')"

lemma locks_begin: "locks_sound st \<Longrightarrow> \<not> us_locked st (op_of r) \<Longrightarrow> locks_sound (begin_request r st)"
  by (auto simp: locks_sound_def begin_request_def ops_running_def)

lemma running_remove1:
  "distinct (map task_op ts) \<Longrightarrow> t \<in> set ts \<Longrightarrow>
     distinct (map task_op (remove1 t ts)) \<and> task_op ` set (remove1 t ts) = task_op ` set ts - {task_op t}"
proof -
  assume d: "distinct (map task_op ts)" and t: "t \<in> set ts"
  then have "remove1 t ts = filter (\<lambda>u. u \<noteq> t) ts" by (auto simp: distinct_map distinct_remove1_removeAll removeAll_filter_not_eq intro: filter_cong)
  then show ?thesis using d t by (auto simp: distinct_map inj_on_def)
qed

lemma locks_end: "locks_sound st \<Longrightarrow> t \<in> set (us_tasks st) \<Longrightarrow> locks_sound (end_task t st)"
  using running_remove1 [of "us_tasks st" t]
  by (auto simp: locks_sound_def end_task_def ops_running_def)

lemma locks_modal: "locks_sound (closeModal st) \<longleftrightarrow> locks_sound st" "locks_sound (openModal record adds removes tab st) \<longleftrightarrow> locks_sound st"
  by (simp_all add: locks_sound_def closeModal_def openModal_def ops_running_def Let_def)

lemma locks_success: "locks_sound st \<Longrightarrow> Requesting r \<in> set (us_tasks st) \<Longrightarrow> locks_sound (request_succeeded r st)"
  using running_remove1 [of "us_tasks st" "Requesting r"] imageI [of "Requesting r" "set (us_tasks st)" task_op]
  by (auto simp: locks_sound_def request_succeeded_def closeModal_def ops_running_def Let_def)

lemma locks_click: "upstream_click st st' \<Longrightarrow> locks_sound st \<Longrightarrow> locks_sound st'"
  by (induction rule: upstream_click.induct)
    (auto simp: locks_modal applyUpdates_def applyAllUpdates_def detectChannelUpdates_def detectAllUpdates_def Let_def
      intro!: locks_begin split: option.split)

lemma locks_answer: "upstream_answer st st' \<Longrightarrow> locks_sound st \<Longrightarrow> locks_sound st'"
  by (induction rule: upstream_answer.induct)
    (auto simp: locks_success request_failed_def refresh_finished_def locks_end)

lemma locks_reach: "upstream_reach st \<Longrightarrow> locks_sound st"
  by (induction rule: upstream_reach.induct)
    (auto simp: locks_click locks_answer, simp add: locks_sound_def initial_upstream_def ops_running_def)

text \<open>C11. Whatever is clicked and answered in any order, each kind of request runs at most once at a time, its
  lock is held exactly while it runs, and its mark of loading is on exactly then.\<close>

theorem one_request_of_a_kind:
  assumes "upstream_reach st"
  shows "distinct (ops_running st) \<and> (\<forall>o'. us_locked st o' \<longleftrightarrow> o' \<in> set (ops_running st)) \<and>
    (\<forall>o'. us_loading st o' \<longleftrightarrow> o' \<in> set (ops_running st) \<and> shows_loading o')"
  using locks_reach [OF assms] by (auto simp: locks_sound_def)

fun update_weight :: "update_task \<Rightarrow> nat" where
  "update_weight (Requesting _) = 2"
| "update_weight (Refreshing _) = 1"

definition updates_pending :: "upstream_state \<Rightarrow> nat" where
  "updates_pending st = sum_list (map update_weight (us_tasks st))"

lemma answer_lowers: "upstream_answer st st' \<Longrightarrow> updates_pending st' < updates_pending st"
  by (induction rule: upstream_answer.induct)
    (auto simp: updates_pending_def upstream_handlers sum_list_map_remove1)

lemma answer_possible: "us_tasks st \<noteq> [] \<Longrightarrow> \<exists>st'. upstream_answer st st'"
proof -
  assume "us_tasks st \<noteq> []"
  then obtain t where t: "t \<in> set (us_tasks st)" by (cases "us_tasks st") auto
  show ?thesis
    by (rule update_task.exhaust [of t]) (use t in \<open>auto intro: upstream_answer.intros\<close>)
qed

lemma answers_release:
  "upstream_reach st \<Longrightarrow> \<exists>n st'. (upstream_answer ^^ n) st st' \<and> n \<le> updates_pending st \<and>
     (\<forall>o'. \<not> us_locked st' o' \<and> \<not> us_loading st' o')"
proof (induction "updates_pending st" arbitrary: st rule: less_induct)
  case less
  show ?case
  proof (cases "us_tasks st = []")
    case True
    then show ?thesis using locks_reach [OF less.prems]
      by (intro exI [of _ 0]) (auto simp: locks_sound_def ops_running_def)
  next
    case False
    then obtain v where v: "upstream_answer st v" using answer_possible by blast
    obtain n u where "(upstream_answer ^^ n) v u" "n \<le> updates_pending v"
        "\<forall>o'. \<not> us_locked u o' \<and> \<not> us_loading u o'"
      using less.hyps [OF answer_lowers [OF v] upstream_answer [OF less.prems v]] by blast
    then show ?thesis using relpowp_Suc_I2 [of upstream_answer st v n u] v answer_lowers [OF v] by (intro exI [of _ "Suc n"]) auto
  qed
qed

lemma pending_bound: "distinct (map task_op ts) \<Longrightarrow> sum_list (map update_weight ts) \<le> 8"
proof -
  assume d: "distinct (map task_op ts)"
  have "sum_list (map update_weight ts) \<le> 2 * length ts"
  proof (induction ts)
    case (Cons t ts)
    then show ?case by (cases t) auto
  qed simp
  moreover have "set (map task_op ts) \<subseteq> {Apply, ApplyAll, Detect, DetectAll}"
    by (rule subsetI, rule update_op.exhaust) auto
  then have "card (set (map task_op ts)) \<le> card {Apply, ApplyAll, Detect, DetectAll}" by (rule card_mono [rotated]) simp
  then have "length (map task_op ts) \<le> 4" unfolding distinct_card [OF d] by simp
  ultimately show ?thesis by simp
qed

text \<open>C30. A lock is never lost: from every reachable state at most eight answers, whatever their outcome, free
  all four locks.\<close>

theorem locks_released:
  assumes "upstream_reach st"
  shows "\<exists>n st'. n \<le> 8 \<and> (upstream_answer ^^ n) st st' \<and> (\<forall>o'. \<not> us_locked st' o' \<and> \<not> us_loading st' o')"
proof -
  have p: "updates_pending st \<le> 8"
    using locks_reach [OF assms] by (simp add: updates_pending_def locks_sound_def ops_running_def pending_bound)
  obtain n st' where "(upstream_answer ^^ n) st st'" "n \<le> updates_pending st"
      "\<forall>o'. \<not> us_locked st' o' \<and> \<not> us_loading st' o'"
    using answers_release [OF assms] by blast
  with p show ?thesis by (intro exI [of _ n] exI [of _ st']) auto
qed

text \<open>A request to apply takes the pending models apart: the models to add are the selected ones, every
  pending model is either added or ignored, and none is both.\<close>

theorem apply_request_partition:
  assumes "us_channel st = Some ch" "\<not> us_locked st Apply"
  shows "\<exists>adds ignored removes. us_sent (applyUpdates selAdd selRemove st) = us_sent st @ [Apply_request ch adds ignored removes] \<and>
    adds = normalizeModelList selAdd \<and> removes = normalizeModelList selRemove \<and>
    set adds \<inter> set ignored = {} \<and> set (us_addModels st) \<subseteq> set adds \<union> set ignored \<and>
    set ignored \<subseteq> set (us_addModels st) \<and> distinct adds \<and> [] \<notin> set adds"
  using assms by (auto simp: applyUpdates_def begin_request_def Let_def normalizeModelList_def)

definition sample_upstream :: upstream_state where
  "sample_upstream = openModal (Some 7) [VStr (js '' a ''), VStr (js ''b''), VStr (js ''a'')] [] Add_tab initial_upstream"

lemma sample_upstream_reached: "upstream_reach sample_upstream"
  unfolding sample_upstream_def by (rule upstream_click [OF upstream_init click_open])

lemma sample_upstream_fields: "us_channel sample_upstream = Some 7" "\<not> us_locked sample_upstream Apply"
  by code_simp+

theorem one_request_of_a_kind_witness: "distinct (ops_running (applyUpdates [VStr (js ''b'')] [] sample_upstream))"
  using one_request_of_a_kind [OF upstream_click [OF sample_upstream_reached click_apply]] by blast

theorem locks_released_witness: "\<exists>n st'. n \<le> 8 \<and> (upstream_answer ^^ n) (applyUpdates [] [] sample_upstream) st' \<and>
    \<not> us_locked st' Apply"
  using locks_released [OF upstream_click [OF sample_upstream_reached click_apply]] by blast

theorem apply_request_partition_witness:
  "us_sent (applyUpdates [VStr (js ''b'')] [] sample_upstream) \<noteq> us_sent sample_upstream"
  using apply_request_partition [OF sample_upstream_fields, of "[VStr (js ''b'')]" "[]"] by auto

text \<open>An answer that comes late: the dialog of a second channel, opened while the update of the first is
  applied, is closed by the answer for the first.\<close>

lemma late_apply_closes_other:
  "\<exists>st st'. upstream_reach st \<and> us_showModal st \<and> us_channel st = Some 8 \<and> upstream_answer st st' \<and>
     us_sent st = [Apply_request 7 [] [js ''a'', js ''b''] []] \<and> \<not> us_showModal st' \<and> us_channel st' = None"
proof (intro exI conjI)
  let ?st = "openModal (Some 8) [VStr (js ''c'')] [] Add_tab (closeModal (applyUpdates [] [] sample_upstream))"
  show "upstream_reach ?st"
    by (rule upstream_click [OF upstream_click [OF upstream_click [OF sample_upstream_reached click_apply] click_close] click_open])
  show "upstream_answer ?st (request_succeeded (Apply_request 7 [] [js ''a'', js ''b''] []) ?st)"
    by (rule answer_success) code_simp
qed code_simp+

end
