(* ===== verification/TableUrlState.thy ===== *)
theory TableUrlState
  imports JsCoerce
begin

text \<open>
  The state of a table that lives in the address of its page (hooks/use-table-url-state.ts): page, page
  size, a global filter and filters of columns, read from the search parameters and written to them by
  navigation. A parameter set to undefined reads as absent. The updater of a navigation is applied to
  the current parameters, and the hook is told the new ones.
\<close>

section \<open>Configuration and state\<close>

record column_cfg =
  cc_columnId :: jstr
  cc_searchKey :: jstr
  cc_is_string :: bool
  cc_serialize :: "jsval \<Rightarrow> jsval"
  cc_deserialize :: "jsval \<Rightarrow> jsval"

record table_cfg =
  tc_pageKey :: jstr
  tc_pageSizeKey :: jstr
  tc_defaultPage :: jsnum
  tc_defaultPageSize :: jsnum
  tc_globalKey :: jstr
  tc_globalEnabled :: bool
  tc_trimGlobal :: bool
  tc_columns :: "column_cfg list"

text \<open>The defaults of the parameters.\<close>

definition default_cfg :: table_cfg where
  "default_cfg = \<lparr>tc_pageKey = js ''page'', tc_pageSizeKey = js ''pageSize'', tc_defaultPage = Fin 1,
     tc_defaultPageSize = Fin 20, tc_globalKey = js ''filter'', tc_globalEnabled = True, tc_trimGlobal = True,
     tc_columns = []\<rparr>"

type_synonym column_filter = "jstr \<times> jsval"

record pagination =
  pg_index :: jsnum
  pg_size :: jsnum

record table_state =
  ts_search :: jsobj
  ts_columnFilters :: "column_filter list"
  ts_globalFilter :: "jstr option"

definition math_max :: "jsnum \<Rightarrow> jsnum \<Rightarrow> jsnum" where
  "math_max x y =
     (if x = NaN \<or> y = NaN then NaN
      else if num_lt x y then y
      else if num_lt y x then x
      else if x = NegZero then y else x)"

section \<open>Reading\<close>

definition filter_of_search :: "jsobj \<Rightarrow> column_cfg \<Rightarrow> column_filter list" where
  "filter_of_search search cfg =
     (let v = cc_deserialize cfg (obj_get search (cc_searchKey cfg)) in
      if cc_is_string cfg then
        (case js_coalesce v (VStr []) of
           VStr s \<Rightarrow> if trim s \<noteq> [] then [(cc_columnId cfg, VStr s)] else []
         | _ \<Rightarrow> [])
      else
        (case js_coalesce v (VArr []) of
           VArr vs \<Rightarrow> if length vs > 0 then [(cc_columnId cfg, VArr vs)] else []
         | _ \<Rightarrow> []))"

definition initialColumnFilters :: "table_cfg \<Rightarrow> jsobj \<Rightarrow> column_filter list" where
  "initialColumnFilters cfg search = concat (map (filter_of_search search) (tc_columns cfg))"

definition number_or :: "jsval \<Rightarrow> jsnum \<Rightarrow> jsnum" where
  "number_or v dflt = (case v of VNum x \<Rightarrow> x | _ \<Rightarrow> dflt)"

definition pagination_of :: "table_cfg \<Rightarrow> jsobj \<Rightarrow> pagination" where
  "pagination_of cfg search =
     (let pageNum = number_or (obj_get search (tc_pageKey cfg)) (tc_defaultPage cfg);
          pageSizeNum = number_or (obj_get search (tc_pageSizeKey cfg)) (tc_defaultPageSize cfg)
      in \<lparr>pg_index = math_max (Fin 0) (num_sub pageNum (Fin 1)), pg_size = pageSizeNum\<rparr>)"

definition initial_table :: "table_cfg \<Rightarrow> jsobj \<Rightarrow> table_state" where
  "initial_table cfg search =
     \<lparr>ts_search = search, ts_columnFilters = initialColumnFilters cfg search,
      ts_globalFilter = (if \<not> tc_globalEnabled cfg then None
        else case obj_get search (tc_globalKey cfg) of VStr s \<Rightarrow> Some s | _ \<Rightarrow> Some [])\<rparr>"

section \<open>Writing\<close>

text \<open>The effect on a change of the parameters copies the filters of the columns into the state.\<close>

definition search_changed :: "table_cfg \<Rightarrow> jsobj \<Rightarrow> table_state \<Rightarrow> table_state" where
  "search_changed cfg search st = st\<lparr>ts_search := search, ts_columnFilters := initialColumnFilters cfg search\<rparr>"

definition write_params :: "(jstr \<times> jsval) list \<Rightarrow> jsobj \<Rightarrow> jsobj" where
  "write_params kvs search = foldl (\<lambda>ob (k, v). obj_set k v ob) search kvs"

definition onPaginationChange :: "table_cfg \<Rightarrow> pagination \<Rightarrow> table_state \<Rightarrow> table_state" where
  "onPaginationChange cfg next_page st =
     (let nextPage = num_add (pg_index next_page) (Fin 1) in
      search_changed cfg (write_params
        [(tc_pageKey cfg, if num_le nextPage (tc_defaultPage cfg) then VUndef else VNum nextPage),
         (tc_pageSizeKey cfg, if num_eq (pg_size next_page) (tc_defaultPageSize cfg) then VUndef
            else VNum (pg_size next_page))] (ts_search st)) st)"

definition onGlobalFilterChange :: "table_cfg \<Rightarrow> jstr \<Rightarrow> table_state \<Rightarrow> table_state" where
  "onGlobalFilterChange cfg next_filter st =
     (if \<not> tc_globalEnabled cfg then st
      else let v = (if tc_trimGlobal cfg then trim next_filter else next_filter) in
        search_changed cfg (write_params
          [(tc_pageKey cfg, VUndef), (tc_globalKey cfg, if v \<noteq> [] then VStr v else VUndef)] (ts_search st))
          (st\<lparr>ts_globalFilter := Some v\<rparr>))"

definition filter_patch :: "column_filter list \<Rightarrow> column_cfg \<Rightarrow> jstr \<times> jsval" where
  "filter_patch next_filters cfg =
     (let found = map_of next_filters (cc_columnId cfg) in
      (cc_searchKey cfg,
       if cc_is_string cfg then
         (case found of
            Some (VStr s) \<Rightarrow> if trim s \<noteq> [] then cc_serialize cfg (VStr s) else VUndef
          | _ \<Rightarrow> VUndef)
       else
         (case found of
            Some (VArr vs) \<Rightarrow> if length vs > 0 then cc_serialize cfg (VArr vs) else VUndef
          | _ \<Rightarrow> VUndef)))"

definition onColumnFiltersChange :: "table_cfg \<Rightarrow> column_filter list \<Rightarrow> table_state \<Rightarrow> table_state" where
  "onColumnFiltersChange cfg next_filters st =
     search_changed cfg (write_params ((tc_pageKey cfg, VUndef) # map (filter_patch next_filters) (tc_columns cfg))
       (ts_search st)) (st\<lparr>ts_columnFilters := next_filters\<rparr>)"

datatype reset_to = First_page | Last_page

text \<open>The navigation that brings the page back into range, if one is needed.\<close>

definition out_of_range :: "table_cfg \<Rightarrow> jsobj \<Rightarrow> jsnum \<Rightarrow> bool" where
  "out_of_range cfg search pageCount \<longleftrightarrow>
     (let pageNum = number_or (obj_get search (tc_pageKey cfg)) (tc_defaultPage cfg) in
      num_lt (Fin 0) pageCount \<and> num_lt pageCount pageNum)"

definition ensurePageInRange :: "table_cfg \<Rightarrow> jsnum \<Rightarrow> reset_to \<Rightarrow> table_state \<Rightarrow> table_state" where
  "ensurePageInRange cfg pageCount resetTo st =
     (if out_of_range cfg (ts_search st) pageCount then
        search_changed cfg (write_params
          [(tc_pageKey cfg, if resetTo = Last_page then VNum pageCount else VUndef)] (ts_search st)) st
      else st)"

definition shown_pagination :: "table_cfg \<Rightarrow> table_state \<Rightarrow> pagination" where
  "shown_pagination cfg st = pagination_of cfg (ts_search st)"

definition shown_globalFilter :: "table_cfg \<Rightarrow> table_state \<Rightarrow> jstr option" where
  "shown_globalFilter cfg st =
     (if tc_globalEnabled cfg then Some (case ts_globalFilter st of Some s \<Rightarrow> s | None \<Rightarrow> []) else None)"

section \<open>Laws\<close>

lemma write_params_get:
  "obj_get (write_params kvs ob) k = (case map_of (rev kvs) k of Some v \<Rightarrow> v | None \<Rightarrow> obj_get ob k)"
  by (induction kvs arbitrary: ob) (auto simp: write_params_def map_add_def split: option.split)

text \<open>The number of a whole number.\<close>

abbreviation whole :: "int \<Rightarrow> jsnum" where
  "whole i \<equiv> Fin (of_int i)"

definition safe_int :: "int \<Rightarrow> bool" where
  "safe_int i \<longleftrightarrow> \<bar>i\<bar> < 2 ^ 52"

lemma whole_add: "safe_int i \<Longrightarrow> num_add (whole i) (Fin 1) = whole (i + 1)"
  using num_add_int [of i 1] by (simp add: safe_int_def)

lemma whole_sub: "safe_int i \<Longrightarrow> num_sub (whole i) (Fin 1) = whole (i - 1)"
  using num_add_int [of i "- 1"] by (simp add: safe_int_def num_sub_def)

lemma math_max_whole: "math_max (Fin 0) (whole i) = whole (max 0 i)"
  by (auto simp: math_max_def max_def)

text \<open>Page and page size survive the address: after a change to the page with index i, the page read
  back is i, or the default page when that one lies behind i, and the page size is the chosen one.\<close>

theorem pagination_roundtrip:
  assumes "tc_pageKey cfg \<noteq> tc_pageSizeKey cfg" "tc_defaultPage cfg = whole d" "tc_defaultPageSize cfg = whole z"
    and "safe_int d" "safe_int (i + 1)" "safe_int i" "1 \<le> d" "0 \<le> i"
  shows "shown_pagination cfg (onPaginationChange cfg \<lparr>pg_index = whole i, pg_size = whole n\<rparr> st) =
    \<lparr>pg_index = whole (max i (d - 1)), pg_size = whole n\<rparr>"
proof -
  have le: "num_le (whole (i + 1)) (whole d) \<longleftrightarrow> i + 1 \<le> d" by (metis num_le_Fin of_int_le_iff)
  have mx: "math_max (Fin 0) (whole (k - 1)) = whole (k - 1)" if "1 \<le> k" for k
    using that math_max_whole [of "k - 1"] by (simp del: of_int_diff)
  show ?thesis
    using assms le mx [of d] mx [of "i + 1"]
    by (simp add: shown_pagination_def onPaginationChange_def search_changed_def pagination_of_def Let_def
        write_params_get number_or_def whole_add whole_sub del: of_int_add of_int_diff)
qed

text \<open>A change of a filter goes back to the first page: whatever the address says, the page shown after a
  change of the global filter or of the filters of the columns is the default page.\<close>

theorem filters_reset_page:
  assumes "tc_defaultPage cfg = whole d" "safe_int d" "1 \<le> d" "tc_globalEnabled cfg"
    and "tc_pageKey cfg \<noteq> tc_globalKey cfg" "tc_pageKey cfg \<notin> cc_searchKey ` set (tc_columns cfg)"
  shows "pg_index (shown_pagination cfg (onGlobalFilterChange cfg f st)) = whole (d - 1) \<and>
    pg_index (shown_pagination cfg (onColumnFiltersChange cfg fs st)) = whole (d - 1)"
proof -
  have mx: "math_max (Fin 0) (whole (d - 1)) = whole (d - 1)"
    using assms(3) math_max_whole [of "d - 1"] by (simp del: of_int_diff)
  have "map_of (rev (map (filter_patch fs) (tc_columns cfg))) (tc_pageKey cfg) = None"
    using assms(6) by (auto simp: map_of_eq_None_iff filter_patch_def Let_def)
  then show ?thesis
    using assms mx
    by (simp add: shown_pagination_def onGlobalFilterChange_def onColumnFiltersChange_def search_changed_def
        pagination_of_def Let_def write_params_get map_add_def number_or_def whole_sub del: of_int_diff)
qed

text \<open>A filter that the address can hold: a text that is not blank, a list that is not empty.\<close>

definition kept_filter :: "column_filter list \<Rightarrow> column_cfg \<Rightarrow> column_filter list" where
  "kept_filter fs cfg =
     (case map_of fs (cc_columnId cfg) of
        Some (VStr s) \<Rightarrow> if cc_is_string cfg \<and> trim s \<noteq> [] then [(cc_columnId cfg, VStr s)] else []
      | Some (VArr vs) \<Rightarrow> if \<not> cc_is_string cfg \<and> vs \<noteq> [] then [(cc_columnId cfg, VArr vs)] else []
      | _ \<Rightarrow> [])"

lemma patch_read_back:
  assumes "\<And>v. cc_deserialize cfg (cc_serialize cfg v) = v" "cc_deserialize cfg VUndef = VUndef"
    and "obj_get search (cc_searchKey cfg) = snd (filter_patch fs cfg)"
  shows "filter_of_search search cfg = kept_filter fs cfg"
  using assms
  by (auto simp: filter_of_search_def filter_patch_def kept_filter_def Let_def js_coalesce_def
      split: option.splits jsval.splits)

text \<open>The filters of the columns survive the address: with a key for each column, none of them the page's,
  and a reader that undoes the writer, the filters shown after a change are the chosen ones that a
  column of the table can hold, in the order of the columns.\<close>

theorem column_filters_roundtrip:
  assumes "distinct (map cc_searchKey (tc_columns cfg))"
    and "\<And>c. c \<in> set (tc_columns cfg) \<Longrightarrow> cc_searchKey c \<noteq> tc_pageKey cfg \<and> cc_deserialize c VUndef = VUndef \<and>
      (\<forall>v. cc_deserialize c (cc_serialize c v) = v)"
  shows "ts_columnFilters (onColumnFiltersChange cfg fs st) = concat (map (kept_filter fs) (tc_columns cfg))"
proof -
  let ?patch = "(tc_pageKey cfg, VUndef) # map (filter_patch fs) (tc_columns cfg)"
  let ?search = "write_params ?patch (ts_search st)"
  have fst_patch: "fst (filter_patch fs c) = cc_searchKey c" for c by (simp add: filter_patch_def Let_def)
  have "distinct (map fst (map (filter_patch fs) (tc_columns cfg)))" using assms(1) by (simp add: comp_def fst_patch)
  then have d: "distinct (map fst (rev (map (filter_patch fs) (tc_columns cfg))))" by (simp add: rev_map [symmetric])
  have "obj_get ?search (cc_searchKey c) = snd (filter_patch fs c)" if c: "c \<in> set (tc_columns cfg)" for c
  proof -
    have "(cc_searchKey c, snd (filter_patch fs c)) \<in> set (rev (map (filter_patch fs) (tc_columns cfg)))"
      using c fst_patch by (metis (no_types, lifting) image_eqI prod.collapse set_map set_rev)
    then have "map_of (rev (map (filter_patch fs) (tc_columns cfg))) (cc_searchKey c) = Some (snd (filter_patch fs c))"
      using d by (simp only: map_of_eq_Some_iff)
    then show ?thesis by (simp add: write_params_get map_add_def)
  qed
  then have "filter_of_search ?search c = kept_filter fs c" if "c \<in> set (tc_columns cfg)" for c
    using that assms(2) [OF that] by (intro patch_read_back) auto
  then show ?thesis
    by (auto simp: onColumnFiltersChange_def search_changed_def initialColumnFilters_def intro!: arg_cong [where f = concat])
qed


section \<open>Instances\<close>

definition sample_table_cfg :: table_cfg where
  "sample_table_cfg = default_cfg\<lparr>tc_columns :=
     [\<lparr>cc_columnId = js ''model_name'', cc_searchKey = js ''model'', cc_is_string = True,
       cc_serialize = (\<lambda>v. v), cc_deserialize = (\<lambda>v. v)\<rparr>,
      \<lparr>cc_columnId = js ''status'', cc_searchKey = js ''status'', cc_is_string = False,
       cc_serialize = (\<lambda>v. v), cc_deserialize = (\<lambda>v. v)\<rparr>]\<rparr>"

lemmas sample_table = sample_table_cfg_def default_cfg_def

theorem pagination_roundtrip_witness:
  "shown_pagination sample_table_cfg (onPaginationChange sample_table_cfg
     \<lparr>pg_index = whole 4, pg_size = whole 50\<rparr> (initial_table sample_table_cfg [])) =
   \<lparr>pg_index = whole (max 4 (1 - 1)), pg_size = whole 50\<rparr>"
  by (rule pagination_roundtrip [where z = 20]) (simp_all add: sample_table safe_int_def)

theorem filters_reset_page_witness:
  "pg_index (shown_pagination sample_table_cfg (onGlobalFilterChange sample_table_cfg (js ''x'')
     (initial_table sample_table_cfg [(js ''page'', VNum (whole 3))]))) = whole (1 - 1)"
  by (rule filters_reset_page [THEN conjunct1]) (simp_all add: sample_table safe_int_def)

theorem column_filters_roundtrip_witness:
  "ts_columnFilters (onColumnFiltersChange sample_table_cfg
      [(js ''status'', VArr [VStr (js ''1'')]), (js ''model_name'', VStr (js ''gpt''))] (initial_table sample_table_cfg [])) =
    concat (map (kept_filter [(js ''status'', VArr [VStr (js ''1'')]), (js ''model_name'', VStr (js ''gpt''))])
      (tc_columns sample_table_cfg))"
  by (rule column_filters_roundtrip) (auto simp: sample_table)


text \<open>The address is not the only source of the global filter: when it changes, as on going back, the filters
  of the columns follow it and the global filter does not.\<close>

lemma global_filter_not_synced:
  "\<exists>st search. ts_search (search_changed sample_table_cfg search st) = search \<and>
     ts_columnFilters (search_changed sample_table_cfg search st) = initialColumnFilters sample_table_cfg search \<and>
     shown_globalFilter sample_table_cfg (search_changed sample_table_cfg search st) = Some (js ''old'') \<and>
     shown_globalFilter sample_table_cfg (initial_table sample_table_cfg search) = Some (js ''new'')"
  by (rule exI [of _ "initial_table sample_table_cfg [(js ''filter'', VStr (js ''old''))]"],
      rule exI [of _ "[(js ''filter'', VStr (js ''new''))]"])
    (simp add: search_changed_def shown_globalFilter_def initial_table_def sample_table obj_get_def)

end
