(* ===== verification/JsRounding.thy ===== *)
theory JsRounding
  imports JsNumber
begin

text \<open>
  The error of rounding: for a rational in the normal range, the binary64 number that \<open>rnd\<close> gives lies
  within a relative error of \<open>2 powi - 53\<close>. Chains of multiplications and divisions are bounded with
  \<open>near\<close>, and Math.round takes a number that is less than a half away from an integer to that integer.
\<close>

section \<open>Magnitude\<close>

lemma bitlen_bounds: "0 < n \<Longrightarrow> 2 ^ bitlen n \<le> 2 * n \<and> n < 2 ^ bitlen n"
proof (induction n rule: bitlen.induct)
  case (1 n)
  show ?case
  proof (cases "n = 1")
    case False
    with 1 have "2 ^ bitlen (n div 2) \<le> 2 * (n div 2) \<and> n div 2 < 2 ^ bitlen (n div 2)" by simp
    moreover have "bitlen n = Suc (bitlen (n div 2))" using 1 by (simp add: bitlen.simps [of n])
    ultimately show ?thesis by auto
  qed simp
qed

lemma quotient_of_pos: "0 < q \<Longrightarrow> quotient_of q = (n, d) \<Longrightarrow> 0 < n \<and> 0 < d \<and> q = of_int n / of_int d"
  using quotient_of_div [of q n d] quotient_of_denom_pos [of q n d]
  by (auto simp: zero_less_divide_iff)

lemma ilog2_bounds:
  assumes "0 < q"
  shows "2 powi ilog2 q \<le> q \<and> q < 2 powi (ilog2 q + 1)"
proof -
  obtain n d where nd: "quotient_of q = (n, d)" by fastforce
  note p = quotient_of_pos [OF assms nd]
  define k where "k = int (bitlen n) - int (bitlen d)"
  have pw: "(2::rat) powi k = 2 ^ bitlen n / 2 ^ bitlen d" by (simp add: k_def power_int_diff)
  have bn: "(2::rat) ^ bitlen n \<le> 2 * of_int n" "of_int n < (2::rat) ^ bitlen n"
    using bitlen_bounds [of n] p by (metis of_int_le_iff of_int_mult of_int_numeral of_int_power, metis of_int_less_iff of_int_numeral of_int_power)
  have bd: "(2::rat) ^ bitlen d \<le> 2 * of_int d" "of_int d < (2::rat) ^ bitlen d"
    using bitlen_bounds [of d] p by (metis of_int_le_iff of_int_mult of_int_numeral of_int_power, metis of_int_less_iff of_int_numeral of_int_power)
  have d0: "(0::rat) < of_int d" "(0::rat) < 2 ^ bitlen d" using p by simp_all
  have q: "q = of_int n / of_int d" using p by blast
  have lo: "2 powi k < 2 * q"
  proof -
    have "2 ^ bitlen n * of_int d < 2 * of_int n * (2::rat) ^ bitlen d"
      using bn(1) bd(2) d0 p by (intro mult_le_less_imp_less) auto
    then show ?thesis unfolding pw q using d0 by (simp add: field_simps)
  qed
  have hi: "q < 2 * 2 powi k"
  proof -
    have "of_int n * (2::rat) ^ bitlen d < 2 ^ bitlen n * (2 * of_int d)"
      using bn(2) bd(1) d0 p by (intro mult_less_le_imp_less) auto
    then show ?thesis unfolding pw q using d0 by (simp add: field_simps)
  qed
  have s: "(2::rat) powi (k + 1) = 2 * 2 powi k" "(2::rat) powi k = 2 * 2 powi (k - 1)"
    by (simp_all add: power_int_add power_int_diff)
  show ?thesis
    using lo hi s nd by (auto simp: ilog2_def k_def [symmetric])
qed

lemma ilog2_less: "0 < q \<Longrightarrow> q < 2 powi m \<Longrightarrow> ilog2 q < m"
proof (rule ccontr)
  assume q: "0 < q" "q < 2 powi m" "\<not> ilog2 q < m"
  then have "(2::rat) powi m \<le> 2 powi ilog2 q" by (simp add: power_int_increasing)
  then show False using ilog2_bounds [of q] q by simp
qed

lemma ilog2_ge: "0 < q \<Longrightarrow> 2 powi m \<le> q \<Longrightarrow> m \<le> ilog2 q"
proof (rule ccontr)
  assume q: "0 < q" "2 powi m \<le> q" "\<not> m \<le> ilog2 q"
  then have "(2::rat) powi (ilog2 q + 1) \<le> 2 powi m" by (intro power_int_increasing) auto
  then show False using ilog2_bounds [of q] q by simp
qed

section \<open>The error of one rounding\<close>

lemma round_half_even_error: "\<bar>of_int (round_half_even q) - q\<bar> \<le> 1 / 2"
proof -
  define f where "f = \<lfloor>q\<rfloor>"
  have "of_int f \<le> q" "q < of_int f + 1" unfolding f_def by linarith+
  then show ?thesis unfolding round_half_even_def Let_def f_def [symmetric] by (simp split: if_splits)
qed

text \<open>The normal range, away from its ends.\<close>

definition normal_range :: "rat \<Rightarrow> bool" where
  "normal_range q \<longleftrightarrow> 2 powi - 1000 \<le> \<bar>q\<bar> \<and> \<bar>q\<bar> \<le> 2 powi 1000"

definition unit_error :: rat where
  "unit_error = 2 powi - 53"

text \<open>A number within n roundings of a value.\<close>

definition near :: "nat \<Rightarrow> rat \<Rightarrow> jsnum \<Rightarrow> bool" where
  "near n q x \<longleftrightarrow> (\<exists>v. x = Fin v \<and> \<bar>v - q\<bar> \<le> ((1 + unit_error) ^ n - 1) * \<bar>q\<bar>)"

lemma rnd_near:
  assumes "normal_range q"
  shows "near 1 q (rnd q)"
proof -
  have q0: "q \<noteq> 0" using assms by (auto simp: normal_range_def power_int_def)
  define l where "l = ilog2 \<bar>q\<bar>"
  have l: "2 powi l \<le> \<bar>q\<bar>" "\<bar>q\<bar> < 2 powi (l + 1)" using ilog2_bounds [of "\<bar>q\<bar>"] q0 by (auto simp: l_def)
  have lb: "- 1000 \<le> l" "l < 1001"
    using ilog2_ge [of "\<bar>q\<bar>" "- 1000"] ilog2_less [of "\<bar>q\<bar>" 1001] assms q0 power_int_strict_increasing [of 1000 1001 "2::rat"]
    unfolding l_def normal_range_def by auto
  define e where "e = l - 52"
  have e: "max (ilog2 \<bar>q\<bar> - 52) (- 1074) = e" using lb by (simp add: e_def l_def)
  define m where "m = round_half_even (q / 2 powi e)"
  define v where "v = of_int m * (2::rat) powi e"
  have pe: "(0::rat) < 2 powi e" by simp
  have "\<bar>of_int m - q / 2 powi e\<bar> \<le> 1 / 2" unfolding m_def by (rule round_half_even_error)
  then have "\<bar>of_int m - q / 2 powi e\<bar> * 2 powi e \<le> 1 / 2 * 2 powi e" using pe by (intro mult_right_mono) auto
  moreover have "\<bar>of_int m - q / 2 powi e\<bar> * 2 powi e = \<bar>(of_int m - q / 2 powi e) * 2 powi e\<bar>"
    using pe by (simp add: abs_mult)
  moreover have "(of_int m - q / 2 powi e) * 2 powi e = v - q" using pe by (simp add: v_def left_diff_distrib)
  ultimately have err: "\<bar>v - q\<bar> \<le> 2 powi e / 2" by simp
  have half: "(2::rat) powi e / 2 = unit_error * 2 powi l"
  proof -
    have "(2::rat) powi e = 2 powi l / 2 powi 52" unfolding e_def by (rule power_int_diff) simp
    moreover have "(2::rat) powi 52 = 2 ^ 52" "unit_error = 1 / (2 * 2 ^ 52)"
      by (simp_all add: power_int_def unit_error_def power_one_over)
    ultimately show ?thesis by (simp only: divide_divide_eq_left mult.commute) simp
  qed
  have u: "0 < unit_error" "unit_error \<le> 1 / 2" by (simp_all add: unit_error_def power_int_def field_simps)
  have rel: "\<bar>v - q\<bar> \<le> unit_error * \<bar>q\<bar>"
    using err half l(1) u(1) by (metis mult_left_mono order_less_imp_le order_trans)
  have v_lo: "\<bar>q\<bar> / 2 \<le> \<bar>v\<bar>" and v_hi: "\<bar>v\<bar> \<le> 2 * \<bar>q\<bar>"
  proof -
    have "unit_error * \<bar>q\<bar> \<le> 1 / 2 * \<bar>q\<bar>" using u by (intro mult_right_mono) auto
    then show "\<bar>q\<bar> / 2 \<le> \<bar>v\<bar>" "\<bar>v\<bar> \<le> 2 * \<bar>q\<bar>" using rel by linarith+
  qed
  then have v0: "v \<noteq> 0" and m0: "m \<noteq> 0" using q0 by (auto simp: v_def)
  have "\<bar>v\<bar> < 2 powi 1024"
  proof -
    have "2 * \<bar>q\<bar> < 2 * 2 powi (l + 1)" using l by simp
    also have "\<dots> = 2 powi (l + 2)" by (simp add: power_int_add)
    also have "\<dots> \<le> 2 powi 1024" using lb by (intro power_int_increasing) auto
    finally show ?thesis using v_hi by simp
  qed
  then have "ilog2 \<bar>v\<bar> < 1024" using v0 by (intro ilog2_less) auto
  then have "rnd q = Fin v"
    using q0 m0 unfolding rnd_def Let_def e m_def [symmetric] v_def [symmetric] by simp
  then show ?thesis using rel by (simp add: near_def)
qed

section \<open>Chains of roundings\<close>

lemma unit_error_pos: "0 < unit_error"
  by (simp add: unit_error_def)

lemma near_compose:
  assumes "\<bar>v - q\<bar> \<le> ((1 + unit_error) ^ n - 1) * \<bar>q\<bar>" "near 1 (v * c) x"
  shows "near (Suc n) (q * c) x"
proof -
  obtain w where w: "x = Fin w" "\<bar>w - v * c\<bar> \<le> unit_error * \<bar>v * c\<bar>" using assms(2) by (auto simp: near_def)
  let ?p = "(1 + unit_error) ^ n"
  have p1: "1 \<le> ?p" using unit_error_pos by simp
  have vc: "\<bar>v * c - q * c\<bar> \<le> (?p - 1) * \<bar>q * c\<bar>"
  proof -
    have "\<bar>v - q\<bar> * \<bar>c\<bar> \<le> (?p - 1) * \<bar>q\<bar> * \<bar>c\<bar>" using assms(1) by (intro mult_right_mono) auto
    then show ?thesis by (simp add: abs_mult left_diff_distrib [symmetric] mult.assoc)
  qed
  have "\<bar>v * c\<bar> \<le> ?p * \<bar>q * c\<bar>"
  proof -
    have "\<bar>v * c\<bar> \<le> \<bar>v * c - q * c\<bar> + \<bar>q * c\<bar>" by linarith
    then show ?thesis using vc by (simp add: algebra_simps)
  qed
  then have "unit_error * \<bar>v * c\<bar> \<le> unit_error * (?p * \<bar>q * c\<bar>)" using unit_error_pos by (intro mult_left_mono) auto
  then have "\<bar>w - q * c\<bar> \<le> unit_error * (?p * \<bar>q * c\<bar>) + (?p - 1) * \<bar>q * c\<bar>" using w(2) vc by linarith
  then show ?thesis using w(1) by (simp add: near_def algebra_simps)
qed

lemma small_chain: "n \<le> 4 \<Longrightarrow> (1 + unit_error) ^ n - 1 \<le> 5 * unit_error"
proof -
  assume "n \<le> 4"
  then have "(1 + unit_error) ^ n \<le> (1 + unit_error) ^ 4" using unit_error_pos by (intro power_increasing) auto
  also have "\<dots> \<le> 1 + 5 * unit_error" by (simp add: unit_error_def power_int_def field_simps)
  finally show ?thesis by simp
qed

section \<open>Math.round\<close>

fun math_round :: "jsnum \<Rightarrow> jsnum" where
  "math_round (Fin q) = (let r = \<lfloor>q + 1 / 2\<rfloor> in if r = 0 \<and> q < 0 then NegZero else Fin (of_int r))"
| "math_round x = x"

lemma math_round_near:
  assumes "near n (of_int u) x" "n \<le> 4" "\<bar>u\<bar> \<le> 2 ^ 49" "u \<noteq> 0"
  shows "math_round x = Fin (of_int u)"
proof -
  obtain v where v: "x = Fin v" "\<bar>v - of_int u\<bar> \<le> ((1 + unit_error) ^ n - 1) * \<bar>of_int u\<bar>"
    using assms(1) by (auto simp: near_def)
  have "((1 + unit_error) ^ n - 1) * \<bar>of_int u\<bar> \<le> 5 * unit_error * \<bar>of_int u\<bar>"
    using small_chain [OF assms(2)] by (intro mult_right_mono) auto
  also have "\<dots> \<le> 5 * unit_error * 2 ^ 49"
  proof -
    have "(of_int \<bar>u\<bar> :: rat) \<le> of_int (2 ^ 49)" using assms(3) by (simp only: of_int_le_iff)
    then show ?thesis using unit_error_pos by (intro mult_left_mono) auto
  qed
  also have "\<dots> < 1 / 2" by (simp add: unit_error_def power_int_def field_simps)
  finally have "\<bar>v - of_int u\<bar> < 1 / 2" using v(2) by simp
  then have "\<lfloor>v + 1 / 2\<rfloor> = u" by (intro floor_unique) linarith+
  then show ?thesis using v(1) assms(4) by simp
qed

lemma math_round_whole: "math_round (Fin (of_int u)) = Fin (of_int u)"
proof -
  have "\<lfloor>(of_int u :: rat) + 1 / 2\<rfloor> = u" by (intro floor_unique) simp_all
  then show ?thesis by simp
qed

lemma floor_half [simp]: "\<lfloor>1 / 2 :: rat\<rfloor> = 0"
  by (rule floor_unique) simp_all

section \<open>The sign of a difference is exact\<close>

text \<open>A binary64 value is a value that rounding leaves alone; every one is a multiple of 2^-1074.\<close>

definition double :: "rat \<Rightarrow> bool" where
  "double q \<longleftrightarrow> rnd q = Fin q"

definition tiny :: rat where
  "tiny = 2 powi - 1074"

lemma tiny_pos: "0 < tiny"
  by (simp add: tiny_def)

lemma powi_tiny: "- 1074 \<le> e \<Longrightarrow> (2::rat) powi e = of_int (2 ^ nat (e + 1074)) * tiny"
proof -
  assume e: "- 1074 \<le> e"
  have "(2::rat) powi e = 2 powi (e + 1074 + - 1074)" by simp
  also have "\<dots> = 2 powi (e + 1074) * tiny" unfolding tiny_def by (rule power_int_add) simp
  also have "(2::rat) powi (e + 1074) = of_int (2 ^ nat (e + 1074))" using e by (simp add: power_int_def)
  finally show ?thesis .
qed

lemma double_multiple: assumes "double q" obtains k where "q = of_int k * tiny"
proof (cases "q = 0")
  case True
  then show ?thesis using that [of 0] by simp
next
  case False
  define e where "e = max (ilog2 \<bar>q\<bar> - 52) (- 1074)"
  define m where "m = round_half_even (q / 2 powi e)"
  have "rnd q = (let v = of_int m * 2 powi e
     in if m = 0 then (if q < 0 then NegZero else Fin 0)
        else if ilog2 \<bar>v\<bar> \<ge> 1024 then (if v < 0 then NegInf else PosInf) else Fin v)"
    unfolding rnd_def Let_def e_def [symmetric] m_def [symmetric] using False by simp
  then have "q = of_int m * 2 powi e" using assms False unfolding double_def by (simp add: Let_def split: if_splits)
  then have "q = of_int (m * 2 ^ nat (e + 1074)) * tiny" using powi_tiny [of e] by (simp add: e_def)
  then show ?thesis by (rule that)
qed

lemma round_half_even_ge: "of_int k \<le> q \<Longrightarrow> k \<le> round_half_even q"
proof -
  assume "of_int k \<le> q"
  then have "k \<le> \<lfloor>q\<rfloor>" by (simp add: le_floor_iff)
  then show ?thesis unfolding round_half_even_def Let_def by (simp split: if_splits)
qed

lemma round_half_even_bounds: "\<lfloor>q\<rfloor> \<le> round_half_even q \<and> round_half_even q \<le> \<lfloor>q\<rfloor> + 1"
  unfolding round_half_even_def Let_def by simp

lemma rnd_positive: assumes "0 < q" "q = of_int k * tiny" shows "num_lt (Fin 0) (rnd q)"
proof -
  define e where "e = max (ilog2 \<bar>q\<bar> - 52) (- 1074)"
  define m where "m = round_half_even (q / 2 powi e)"
  have k: "1 \<le> k" using assms tiny_pos by (simp add: zero_less_mult_iff)
  have "1 \<le> q / 2 powi e"
  proof (cases "ilog2 \<bar>q\<bar> - 52 \<le> - 1074")
    case True
    then have "2 powi e = tiny" by (simp add: e_def tiny_def)
    then have "q / 2 powi e = of_int k" using assms(2) tiny_pos by simp
    then show ?thesis using k by simp
  next
    case False
    then have e: "e = ilog2 q - 52" using assms(1) by (simp add: e_def)
    have "(2::rat) powi e \<le> 2 powi ilog2 q" unfolding e by (rule power_int_increasing) simp_all
    also have "\<dots> \<le> q" using ilog2_bounds [OF assms(1)] by simp
    finally show ?thesis by simp
  qed
  then have m: "1 \<le> m" unfolding m_def by (intro round_half_even_ge) simp
  then have "0 < of_int m * (2::rat) powi e" by simp
  moreover define w where "w = of_int m * (2::rat) powi e"
  ultimately have w: "0 < w" by simp
  have "rnd q = (let v = w
     in if m = 0 then (if q < 0 then NegZero else Fin 0)
        else if ilog2 \<bar>v\<bar> \<ge> 1024 then (if v < 0 then NegInf else PosInf) else Fin v)"
    unfolding w_def rnd_def Let_def e_def [symmetric] m_def [symmetric] using assms(1) by simp
  then show ?thesis using w m by (simp add: Let_def num_lt_def)
qed

lemma rnd_not_positive: "q \<le> 0 \<Longrightarrow> \<not> num_lt (Fin 0) (rnd q)"
proof (cases "q = 0")
  case False
  assume "q \<le> 0"
  then have q: "q < 0" using False by simp
  define e where "e = max (ilog2 \<bar>q\<bar> - 52) (- 1074)"
  define m where "m = round_half_even (q / 2 powi e)"
  have "q / 2 powi e < 0" using q by (simp add: divide_neg_pos)
  then have "m \<le> 0"
  proof -
    assume n: "q / 2 powi e < 0"
    then have "\<lfloor>q / 2 powi e\<rfloor> < 0" unfolding floor_less_zero .
    then show ?thesis unfolding m_def using round_half_even_bounds [of "q / 2 powi e"] by linarith
  qed
  then have v: "m \<noteq> 0 \<Longrightarrow> of_int m * (2::rat) powi e < 0" by (simp add: mult_neg_pos)
  have "rnd q = (let v = of_int m * 2 powi e
     in if m = 0 then (if q < 0 then NegZero else Fin 0)
        else if ilog2 \<bar>v\<bar> \<ge> 1024 then (if v < 0 then NegInf else PosInf) else Fin v)"
    unfolding rnd_def Let_def e_def [symmetric] m_def [symmetric] using q by simp
  then show ?thesis using v q by (auto simp: Let_def num_lt_def)
qed simp

lemma num_sub_positive:
  assumes "double a" "double b"
  shows "num_lt (Fin 0) (num_sub (Fin a) (Fin b)) \<longleftrightarrow> b < a"
proof -
  obtain j k where jk: "a = of_int j * tiny" "b = of_int k * tiny" using assms double_multiple by metis
  then have d: "a - b = of_int (j - k) * tiny" by (simp add: algebra_simps)
  have "num_sub (Fin a) (Fin b) = rnd (a - b)"
    by (simp add: num_sub_def num_add_def)
  then show ?thesis using rnd_positive [OF _ d] rnd_not_positive [of "a - b"] by (cases "b < a") auto
qed

lemma double_int: "\<bar>k\<bar> < 2 ^ 53 \<Longrightarrow> double (of_int k)"
  by (simp add: double_def rnd_int)

end
