(* ===== verification/SystemConfig.thy ===== *)
theory SystemConfig
  imports JsCoerce
begin

text \<open>
  The system configuration: the store (stores/system-config-store.ts), the names and logos it
  accepts (lib/branding.ts, lib/constants.ts) and the hook that fills it from the status answer and
  preloads the logo (hooks/use-system-config.ts).

  The stored currency settings are a patch: a field the persisted value does not have is None. The
  hook's effects are one function that runs after every change of the state; the images being loaded
  answer later, by \<open>logo_loaded\<close> or \<open>logo_failed\<close>, and an image whose effect was cleaned up never answers.
\<close>

section \<open>The store\<close>

record currency_config =
  displayInCurrency :: bool
  quotaDisplayType :: jstr
  quotaPerUnit :: jsnum
  usdExchangeRate :: jsnum
  customCurrencySymbol :: jstr
  customCurrencyExchangeRate :: jsnum

definition DEFAULT_CURRENCY_CONFIG :: currency_config where
  "DEFAULT_CURRENCY_CONFIG = \<lparr>displayInCurrency = True, quotaDisplayType = js ''USD'',
     quotaPerUnit = Fin 500000, usdExchangeRate = Fin 1, customCurrencySymbol = [164],
     customCurrencyExchangeRate = Fin 1\<rparr>"

text \<open>Partial settings: the fields an object literal has.\<close>

record currency_patch =
  c_inCurrency :: "bool option"
  c_displayType :: "jstr option"
  c_quotaPerUnit :: "jsnum option"
  c_usdRate :: "jsnum option"
  c_symbol :: "jstr option"
  c_customRate :: "jsnum option"

definition full_patch :: "currency_config \<Rightarrow> currency_patch" where
  "full_patch c = \<lparr>c_inCurrency = Some (displayInCurrency c), c_displayType = Some (quotaDisplayType c),
     c_quotaPerUnit = Some (quotaPerUnit c), c_usdRate = Some (usdExchangeRate c),
     c_symbol = Some (customCurrencySymbol c), c_customRate = Some (customCurrencyExchangeRate c)\<rparr>"

definition prefer_new :: "'a option \<Rightarrow> 'a option \<Rightarrow> 'a option" where
  "prefer_new new old = (case new of Some _ \<Rightarrow> new | None \<Rightarrow> old)"

text \<open>\<open>{...old, ...new}\<close>.\<close>

definition spread_currency :: "currency_patch \<Rightarrow> currency_patch \<Rightarrow> currency_patch" where
  "spread_currency old new = \<lparr>c_inCurrency = prefer_new (c_inCurrency new) (c_inCurrency old),
     c_displayType = prefer_new (c_displayType new) (c_displayType old),
     c_quotaPerUnit = prefer_new (c_quotaPerUnit new) (c_quotaPerUnit old),
     c_usdRate = prefer_new (c_usdRate new) (c_usdRate old),
     c_symbol = prefer_new (c_symbol new) (c_symbol old),
     c_customRate = prefer_new (c_customRate new) (c_customRate old)\<rparr>"

record system_config =
  systemName :: jstr
  logo :: jstr
  footerHtml :: "jstr option"
  demoSiteEnabled :: "bool option"
  displayTokenStatEnabled :: "bool option"
  currency :: "currency_patch option"

text \<open>A patch of the configuration: the outer option tells whether the object has the property; the inner one
  whether its value is undefined.\<close>

record config_patch =
  p_systemName :: "jstr option"
  p_logo :: "jstr option"
  p_footerHtml :: "jstr option option"
  p_demoSite :: "bool option option"
  p_tokenStat :: "bool option option"
  p_currency :: "currency_patch option"

definition no_patch :: config_patch where
  "no_patch = \<lparr>p_systemName = None, p_logo = None, p_footerHtml = None, p_demoSite = None, p_tokenStat = None,
     p_currency = None\<rparr>"

definition empty_currency :: currency_patch where
  "empty_currency = \<lparr>c_inCurrency = None, c_displayType = None, c_quotaPerUnit = None, c_usdRate = None,
     c_symbol = None, c_customRate = None\<rparr>"

definition the_or :: "'a \<Rightarrow> 'a option \<Rightarrow> 'a" where
  "the_or d x = (case x of Some v \<Rightarrow> v | None \<Rightarrow> d)"

definition DEFAULT_SYSTEM_NAME :: jstr where
  "DEFAULT_SYSTEM_NAME = js ''Code Go''"

definition DEFAULT_LOGO :: jstr where
  "DEFAULT_LOGO = js ''/code-go-logo.svg''"

text \<open>The store's state; \<open>preloading\<close> is the image the hook is loading and \<open>favicon\<close> the one it applied last.\<close>

record config_state =
  config :: system_config
  loading :: bool
  loadedLogoUrl :: jstr
  preloading :: "jstr option"
  favicon :: "jstr option"

definition initial_config_state :: config_state where
  "initial_config_state = \<lparr>config = \<lparr>systemName = DEFAULT_SYSTEM_NAME, logo = DEFAULT_LOGO, footerHtml = None,
     demoSiteEnabled = None, displayTokenStatEnabled = None, currency = Some (full_patch DEFAULT_CURRENCY_CONFIG)\<rparr>,
     loading = True, loadedLogoUrl = DEFAULT_LOGO, preloading = None, favicon = None\<rparr>"

definition setConfig :: "config_patch \<Rightarrow> config_state \<Rightarrow> config_state" where
  "setConfig p s = (let c = config s in s\<lparr>config :=
     \<lparr>systemName = the_or (systemName c) (p_systemName p),
      logo = the_or (logo c) (p_logo p),
      footerHtml = the_or (footerHtml c) (p_footerHtml p),
      demoSiteEnabled = the_or (demoSiteEnabled c) (p_demoSite p),
      displayTokenStatEnabled = the_or (displayTokenStatEnabled c) (p_tokenStat p),
      currency = Some (spread_currency (the_or empty_currency (currency c)) (the_or empty_currency (p_currency p)))\<rparr>\<rparr>)"

definition setLoading :: "bool \<Rightarrow> config_state \<Rightarrow> config_state" where
  "setLoading b s = s\<lparr>loading := b\<rparr>"

definition setLoadedLogoUrl :: "jstr \<Rightarrow> config_state \<Rightarrow> config_state" where
  "setLoadedLogoUrl u s = s\<lparr>loadedLogoUrl := u\<rparr>"

section \<open>Names and logos\<close>

definition INVALID_LOGO_VALUES :: "jstr list" where
  "INVALID_LOGO_VALUES = [[], js ''null'', js ''undefined'', js ''false'', js ''0'']"

definition LEGACY_LOGO_VALUES :: "jstr list" where
  "LEGACY_LOGO_VALUES = [js ''/codexforall-logo.svg'', js ''codexforall-logo.svg'', js ''/logo.png'', js ''logo.png'',
     js ''/favicon.ico'', js ''favicon.ico'']"

definition LEGACY_SYSTEM_NAMES :: "jstr list" where
  "LEGACY_SYSTEM_NAMES = [js ''codexforall'', js ''new api'', js ''newapi'']"

definition normalizeSystemName :: "jsval \<Rightarrow> jstr" where
  "normalizeSystemName v = (case v of VStr s \<Rightarrow>
       (let t = trim s in
        if t = [] then js ''Code Go''
        else if lower t \<in> set LEGACY_SYSTEM_NAMES then js ''Code Go'' else t)
     | _ \<Rightarrow> js ''Code Go'')"

definition normalizeLogoUrl :: "jsval \<Rightarrow> jstr" where
  "normalizeLogoUrl v = (case v of VStr s \<Rightarrow>
       (let t = trim s in
        if t = [] then DEFAULT_LOGO
        else if lower t \<in> set INVALID_LOGO_VALUES then DEFAULT_LOGO
        else if t \<in> set LEGACY_LOGO_VALUES then DEFAULT_LOGO else t)
     | _ \<Rightarrow> DEFAULT_LOGO)"

section \<open>The status answer\<close>

record status_data =
  system_name :: "jstr option"
  status_logo :: "jstr option"
  footer_html :: "jstr option"
  demo_site_enabled :: "bool option"
  display_token_stat_enabled :: "bool option"
  display_in_currency :: "bool option"
  quota_display_type :: "jstr option"
  quota_per_unit :: jsval
  usd_exchange_rate :: jsval
  custom_currency_symbol :: "jstr option"
  custom_currency_exchange_rate :: jsval

definition toNumber :: "jsval \<Rightarrow> jsnum \<Rightarrow> jsnum" where
  "toNumber v fallback = (case v of
       VNum x \<Rightarrow> if x \<noteq> NaN then x else fallback
     | VStr s \<Rightarrow> (let parsed = str_to_num s in if parsed \<noteq> NaN then parsed else fallback)
     | _ \<Rightarrow> fallback)"

text \<open>\<open>s || d\<close> for an optional string.\<close>

definition str_or :: "jstr option \<Rightarrow> jstr \<Rightarrow> jstr" where
  "str_or s d = (case s of None \<Rightarrow> d | Some t \<Rightarrow> if t = [] then d else t)"

definition mapStatusDataToConfig :: "status_data option \<Rightarrow> config_patch" where
  "mapStatusDataToConfig data = (case data of None \<Rightarrow> no_patch | Some d \<Rightarrow>
     \<lparr>p_systemName = Some (normalizeSystemName (VStr (str_or (system_name d) DEFAULT_SYSTEM_NAME))),
      p_logo = Some (normalizeLogoUrl (VStr (str_or (status_logo d) DEFAULT_LOGO))),
      p_footerHtml = Some (footer_html d),
      p_demoSite = Some (demo_site_enabled d),
      p_tokenStat = Some (display_token_stat_enabled d),
      p_currency = Some (full_patch
        \<lparr>displayInCurrency = the_or (displayInCurrency DEFAULT_CURRENCY_CONFIG) (display_in_currency d),
         quotaDisplayType = the_or (quotaDisplayType DEFAULT_CURRENCY_CONFIG) (quota_display_type d),
         quotaPerUnit = toNumber (quota_per_unit d) (quotaPerUnit DEFAULT_CURRENCY_CONFIG),
         usdExchangeRate = toNumber (usd_exchange_rate d) (usdExchangeRate DEFAULT_CURRENCY_CONFIG),
         customCurrencySymbol = str_or (map_option trim (custom_currency_symbol d))
           (customCurrencySymbol DEFAULT_CURRENCY_CONFIG),
         customCurrencyExchangeRate = toNumber (custom_currency_exchange_rate d)
           (customCurrencyExchangeRate DEFAULT_CURRENCY_CONFIG)\<rparr>)\<rparr>)"

section \<open>The hook\<close>

text \<open>\<open>loadConfig\<close>: the status request settles with its data (Some) or fails (None).\<close>

definition loadConfig_start :: "config_state \<Rightarrow> config_state" where
  "loadConfig_start s = setLoading True s"

definition loadConfig_settled :: "status_data option option \<Rightarrow> config_state \<Rightarrow> config_state" where
  "loadConfig_settled answer s = setLoading False
     (case answer of Some data \<Rightarrow> setConfig (mapStatusDataToConfig data) s | None \<Rightarrow> s)"

definition normalizedLogo :: "config_state \<Rightarrow> jstr" where
  "normalizedLogo s = normalizeLogoUrl (VStr (logo (config s)))"

definition normalizedSystemName :: "config_state \<Rightarrow> jstr" where
  "normalizedSystemName s = normalizeSystemName (VStr (systemName (config s)))"

definition logo_effect :: "config_state \<Rightarrow> config_state" where
  "logo_effect s = (if logo (config s) \<noteq> normalizedLogo s
     then setConfig (no_patch\<lparr>p_logo := Some (normalizedLogo s)\<rparr>) s else s)"

definition name_effect :: "config_state \<Rightarrow> config_state" where
  "name_effect s = (if systemName (config s) \<noteq> normalizedSystemName s
     then setConfig (no_patch\<lparr>p_systemName := Some (normalizedSystemName s)\<rparr>) s else s)"

text \<open>The preload effect: its cleanup detaches the handlers of the image loaded before.\<close>

definition preload_effect :: "config_state \<Rightarrow> config_state" where
  "preload_effect s = (let u = normalizedLogo s in
     s\<lparr>preloading := (if u = [] \<or> u = loadedLogoUrl s then None else Some u)\<rparr>)"

definition run_effects :: "config_state \<Rightarrow> config_state" where
  "run_effects s = preload_effect (name_effect (logo_effect s))"

definition applyFavicon :: "jstr \<Rightarrow> config_state \<Rightarrow> config_state" where
  "applyFavicon u s = s\<lparr>favicon := Some u\<rparr>"

definition logo_loaded :: "config_state \<Rightarrow> config_state" where
  "logo_loaded s = (case preloading s of None \<Rightarrow> s
     | Some u \<Rightarrow> applyFavicon u (setLoadedLogoUrl u s))"

definition logo_failed :: "config_state \<Rightarrow> config_state" where
  "logo_failed s = (case preloading s of None \<Rightarrow> s
     | Some u \<Rightarrow> applyFavicon DEFAULT_LOGO (setLoadedLogoUrl DEFAULT_LOGO
         (if u \<noteq> DEFAULT_LOGO then setConfig (no_patch\<lparr>p_logo := Some DEFAULT_LOGO\<rparr>) s else s)))"

definition logoLoaded :: "config_state \<Rightarrow> bool" where
  "logoLoaded s \<longleftrightarrow> normalizedLogo s = loadedLogoUrl s \<and> loadedLogoUrl s \<noteq> []"

text \<open>The runs of the hook: an answer of the status request or of the image, then the effects.\<close>

inductive config_step :: "config_state \<Rightarrow> config_state \<Rightarrow> bool" where
  status: "config_step s (run_effects (loadConfig_settled answer s))"
| start: "config_step s (run_effects (loadConfig_start s))"
| loaded: "preloading s = Some u \<Longrightarrow> config_step s (run_effects (logo_loaded s))"
| failed: "preloading s = Some u \<Longrightarrow> config_step s (run_effects (logo_failed s))"

inductive config_reach :: "config_state \<Rightarrow> bool" where
  mounted: "config_reach (run_effects s)"
| step: "config_reach s \<Longrightarrow> config_step s s' \<Longrightarrow> config_reach s'"

section \<open>Names and logos are settled by one pass\<close>

lemma normalizeLogoUrl_idem [simp]: "normalizeLogoUrl (VStr (normalizeLogoUrl v)) = normalizeLogoUrl v"
proof -
  have "normalizeLogoUrl (VStr DEFAULT_LOGO) = DEFAULT_LOGO" by code_simp
  then show ?thesis by (auto simp: normalizeLogoUrl_def Let_def split: jsval.splits)
qed

lemma normalizeSystemName_idem [simp]: "normalizeSystemName (VStr (normalizeSystemName v)) = normalizeSystemName v"
proof -
  have "normalizeSystemName (VStr (js ''Code Go'')) = js ''Code Go''" by code_simp
  then show ?thesis by (auto simp: normalizeSystemName_def Let_def split: jsval.splits)
qed

lemma normalizeLogoUrl_not_Nil [simp]: "normalizeLogoUrl v \<noteq> []"
  by (auto simp: normalizeLogoUrl_def Let_def DEFAULT_LOGO_def split: jsval.splits)

lemma normalizeLogoUrl_default [simp]: "normalizeLogoUrl (VStr DEFAULT_LOGO) = DEFAULT_LOGO"
  by code_simp

lemma setConfig_frame [simp]: "loadedLogoUrl (setConfig p s) = loadedLogoUrl s"
  "preloading (setConfig p s) = preloading s" "loading (setConfig p s) = loading s" "favicon (setConfig p s) = favicon s"
  by (simp_all add: setConfig_def Let_def)

lemma setConfig_fields [simp]:
  "logo (config (setConfig p s)) = the_or (logo (config s)) (p_logo p)"
  "systemName (config (setConfig p s)) = the_or (systemName (config s)) (p_systemName p)"
  by (simp_all add: setConfig_def Let_def)

lemma the_or_simps [simp]: "the_or d None = d" "the_or d (Some v) = v"
  by (simp_all add: the_or_def)

lemma no_patch_simps [simp]: "p_logo no_patch = None" "p_systemName no_patch = None"
  by (simp_all add: no_patch_def)

text \<open>What the effects leave: normalised names, and an image under way exactly for a logo not loaded.\<close>

definition settled_config :: "config_state \<Rightarrow> bool" where
  "settled_config s \<longleftrightarrow> logo (config s) = normalizedLogo s \<and> systemName (config s) = normalizedSystemName s \<and>
     preloading s = (if logo (config s) = loadedLogoUrl s then None else Some (logo (config s)))"

lemma logo_effect_logo [simp]: "logo (config (logo_effect s)) = normalizedLogo s"
  "loadedLogoUrl (logo_effect s) = loadedLogoUrl s" "systemName (config (logo_effect s)) = systemName (config s)"
  by (simp_all add: logo_effect_def)

lemma name_effect_name [simp]: "systemName (config (name_effect s)) = normalizedSystemName s"
  "loadedLogoUrl (name_effect s) = loadedLogoUrl s" "logo (config (name_effect s)) = logo (config s)"
  by (simp_all add: name_effect_def)

lemma preload_effect_simps [simp]: "config (preload_effect s) = config s"
  "loadedLogoUrl (preload_effect s) = loadedLogoUrl s"
  by (simp_all add: preload_effect_def Let_def)

lemma run_effects_simps [simp]: "logo (config (run_effects s)) = normalizedLogo s"
  "systemName (config (run_effects s)) = normalizedSystemName s"
  "loadedLogoUrl (run_effects s) = loadedLogoUrl s"
  by (simp_all add: run_effects_def normalizedSystemName_def)

lemma run_effects_settled: "settled_config (run_effects s)"
proof -
  have n: "normalizedLogo (run_effects s) = normalizedLogo s" unfolding normalizedLogo_def [of "run_effects s"]
    by (simp add: normalizedLogo_def)
  have m: "normalizedSystemName (run_effects s) = normalizedSystemName s"
    unfolding normalizedSystemName_def [of "run_effects s"] by (simp add: normalizedSystemName_def)
  have "preloading (run_effects s) = (if normalizedLogo s = loadedLogoUrl s then None else Some (normalizedLogo s))"
    by (simp add: run_effects_def preload_effect_def Let_def normalizedLogo_def)
  then show ?thesis using n m by (simp add: settled_config_def)
qed

lemma effects_stop: "settled_config s \<Longrightarrow> run_effects s = s"
proof -
  assume st: "settled_config s"
  have "logo_effect s = s" "name_effect s = s"
    using st by (auto simp: settled_config_def logo_effect_def name_effect_def)
  moreover have "normalizedLogo s \<noteq> []" by (simp add: normalizedLogo_def)
  moreover have "preload_effect s = s\<lparr>preloading := preloading s\<rparr>"
    using st \<open>normalizedLogo s \<noteq> []\<close> unfolding settled_config_def preload_effect_def Let_def by metis
  ultimately show ?thesis by (simp add: run_effects_def)
qed

lemma config_reach_settled: "config_reach s \<Longrightarrow> settled_config s"
  by (induction rule: config_reach.induct) (auto simp: run_effects_settled elim: config_step.cases)

text \<open>C31. The effects of the hook do not loop, and one answer settles the logo. In every state the hook reaches
  the effects change nothing (their results are normalised already), the logo shown is loaded unless its
  image is under way, and whichever way that image answers, the logo shown afterwards is loaded, no image is under way, and it
  is the image that loaded, or the default logo when it failed.\<close>

theorem logo_settles:
  assumes "config_reach s"
  shows "run_effects s = s \<and> (preloading s = None \<longleftrightarrow> logoLoaded s) \<and>
    (\<forall>u. preloading s = Some u \<longrightarrow>
       (let s1 = run_effects (logo_loaded s); s2 = run_effects (logo_failed s)
        in logoLoaded s1 \<and> preloading s1 = None \<and> logo (config s1) = u \<and> favicon s1 = Some u \<and>
           logoLoaded s2 \<and> preloading s2 = None \<and> logo (config s2) = DEFAULT_LOGO))"
proof (intro conjI allI impI)
  have st: "settled_config s" by (rule config_reach_settled [OF assms])
  show "run_effects s = s" by (rule effects_stop [OF st])
  have nn: "normalizedLogo s \<noteq> []" by (simp add: normalizedLogo_def)
  show "preloading s = None \<longleftrightarrow> logoLoaded s"
    using st nn by (auto simp: settled_config_def logoLoaded_def)
  fix u assume u: "preloading s = Some u"
  then have lu: "logo (config s) = u" "normalizedLogo s = u"
    using st by (auto simp: settled_config_def split: if_splits)
  have nu: "normalizeLogoUrl (VStr u) = u" using lu by (simp add: normalizedLogo_def)
  have u0: "u \<noteq> []" using nn lu by simp
  have d0: "DEFAULT_LOGO \<noteq> []" by (simp add: DEFAULT_LOGO_def)
  let ?s1 = "run_effects (logo_loaded s)" and ?s2 = "run_effects (logo_failed s)"
  have a1: "logo (config (logo_loaded s)) = u" "loadedLogoUrl (logo_loaded s) = u" "favicon (logo_loaded s) = Some u"
    using u lu by (simp_all add: logo_loaded_def applyFavicon_def setLoadedLogoUrl_def)
  have a2: "logo (config (logo_failed s)) = DEFAULT_LOGO" "loadedLogoUrl (logo_failed s) = DEFAULT_LOGO"
    using u lu by (auto simp: logo_failed_def applyFavicon_def setLoadedLogoUrl_def)
  have f1: "favicon ?s1 = favicon (logo_loaded s)"
    by (simp add: run_effects_def preload_effect_def name_effect_def logo_effect_def Let_def)
  have n1: "normalizedLogo (logo_loaded s) = u" and n2: "normalizedLogo (logo_failed s) = DEFAULT_LOGO"
    using a1 a2 nu by (simp_all add: normalizedLogo_def)
  have m1: "normalizedLogo ?s1 = u" and m2: "normalizedLogo ?s2 = DEFAULT_LOGO"
    using n1 n2 nu by (simp_all add: normalizedLogo_def [of "run_effects _"])
  have p1: "preloading ?s1 = None" using run_effects_settled [of "logo_loaded s"] a1 n1 by (simp add: settled_config_def)
  have p2: "preloading ?s2 = None" using run_effects_settled [of "logo_failed s"] a2 n2 by (simp add: settled_config_def)
  show "let s1 = ?s1; s2 = ?s2
        in logoLoaded s1 \<and> preloading s1 = None \<and> logo (config s1) = u \<and> favicon s1 = Some u \<and>
           logoLoaded s2 \<and> preloading s2 = None \<and> logo (config s2) = DEFAULT_LOGO"
    unfolding Let_def logoLoaded_def using a1 a2 n1 n2 m1 m2 p1 p2 f1 u0 d0 by simp
qed

definition own_logo :: config_state where
  "own_logo = run_effects (setConfig (no_patch\<lparr>p_logo := Some (js '' /a.svg'')\<rparr>) initial_config_state)"

theorem logo_settles_witness:
  "config_reach own_logo \<and> preloading own_logo = Some (js ''/a.svg'') \<and>
   logo (config (run_effects (logo_loaded own_logo))) = js ''/a.svg'' \<and>
   logo (config (run_effects (logo_failed own_logo))) = DEFAULT_LOGO"
proof -
  have r: "config_reach own_logo" unfolding own_logo_def by (rule config_reach.mounted)
  have p: "preloading own_logo = Some (js ''/a.svg'')" by code_simp
  from logo_settles [OF r] p show ?thesis using r by (simp add: Let_def)
qed

end
