(* ===== verification/Currency.thy ===== *)
theory Currency
  imports SystemConfig JsRounding
begin

text \<open>
  Amounts of money and quota: the display settings read from the store and the formatting functions
  of lib/currency.ts, and the conversions and short formats of lib/format.ts.

  What the browser does is a parameter \<open>intl\<close>: the number formats of Intl.NumberFormat and Math.pow(10, -d), which
  ECMAScript leaves to the implementation. The numbers of fraction digits are naturals: every call of the
  repository passes literals below 100, so toFixed never throws.
\<close>

section \<open>Display settings\<close>

definition DISPLAY_TYPE_VALUES :: "jstr list" where
  "DISPLAY_TYPE_VALUES = [js ''USD'', js ''CNY'', js ''TOKENS'', js ''CUSTOM'']"

definition isCurrencyDisplayType :: "jsval \<Rightarrow> bool" where
  "isCurrencyDisplayType v = (case v of VStr s \<Rightarrow> s \<in> set DISPLAY_TYPE_VALUES | _ \<Rightarrow> False)"

definition parseCurrencyDisplayType :: "jsval \<Rightarrow> jstr \<Rightarrow> jstr" where
  "parseCurrencyDisplayType v fallback = (if isCurrencyDisplayType v then to_str v else fallback)"

text \<open>A stored rate that is truthy and positive, or the default.\<close>

definition positive_or :: "jsnum \<Rightarrow> jsnum option \<Rightarrow> jsnum" where
  "positive_or d x = (case x of Some v \<Rightarrow> if num_truthy v \<and> num_lt (Fin 0) v then v else d | None \<Rightarrow> d)"

definition getConfig :: "config_state \<Rightarrow> currency_config" where
  "getConfig st = (let c = the_or (full_patch DEFAULT_CURRENCY_CONFIG) (currency (config st)) in
     \<lparr>displayInCurrency = the_or (displayInCurrency DEFAULT_CURRENCY_CONFIG) (c_inCurrency c),
      quotaDisplayType = the_or (quotaDisplayType DEFAULT_CURRENCY_CONFIG) (c_displayType c),
      quotaPerUnit = positive_or (quotaPerUnit DEFAULT_CURRENCY_CONFIG) (c_quotaPerUnit c),
      usdExchangeRate = positive_or (usdExchangeRate DEFAULT_CURRENCY_CONFIG) (c_usdRate c),
      customCurrencySymbol = str_or (map_option trim (c_symbol c)) (customCurrencySymbol DEFAULT_CURRENCY_CONFIG),
      customCurrencyExchangeRate = positive_or (customCurrencyExchangeRate DEFAULT_CURRENCY_CONFIG) (c_customRate c)\<rparr>)"

datatype display_meta =
  MCurrency (symbol: jstr) (currencyCode: jstr) (rate: jsnum)
  | MCustom (symbol: jstr) (rate: jsnum)
  | MTokens (perUnit: jsnum)

definition dollars :: display_meta where
  "dollars = MCurrency (js ''$'') (js ''USD'') (Fin 1)"

definition getDisplayMeta :: "currency_config \<Rightarrow> display_meta" where
  "getDisplayMeta c =
     (if quotaDisplayType c = js ''CNY'' then MCurrency [165] (js ''CNY'') (usdExchangeRate c)
      else if quotaDisplayType c = js ''CUSTOM'' then MCustom (customCurrencySymbol c) (customCurrencyExchangeRate c)
      else if quotaDisplayType c = js ''TOKENS'' then MTokens (quotaPerUnit c)
      else dollars)"

fun is_tokens :: "display_meta \<Rightarrow> bool" where
  "is_tokens (MTokens _) = True"
| "is_tokens _ = False"

definition getBillingDisplayMeta :: "currency_config \<Rightarrow> display_meta" where
  "getBillingDisplayMeta c = (let meta = getDisplayMeta c in if is_tokens meta then dollars else meta)"

definition getCurrencyDisplay :: "config_state \<Rightarrow> currency_config \<times> display_meta" where
  "getCurrencyDisplay st = (let c = getConfig st in (c, getDisplayMeta c))"

definition getCurrencyLabel :: "config_state \<Rightarrow> jstr" where
  "getCurrencyLabel st = (let (c, meta) = getCurrencyDisplay st in
     if is_tokens meta then js ''Tokens''
     else if quotaDisplayType c = js ''CNY'' then js ''CNY''
     else if quotaDisplayType c = js ''CUSTOM'' then (case meta of MCustom s _ \<Rightarrow> s | _ \<Rightarrow> js ''Custom'')
     else js ''USD'')"

definition isCurrencyDisplayEnabled :: "config_state \<Rightarrow> bool" where
  "isCurrencyDisplayEnabled st = (\<not> is_tokens (snd (getCurrencyDisplay st)))"

section \<open>Formatting options\<close>

record format_options =
  digitsLarge :: nat
  digitsSmall :: nat
  abbreviate :: bool
  minimumNonZero :: jsnum

record format_patch =
  o_digitsLarge :: "nat option"
  o_digitsSmall :: "nat option"
  o_abbreviate :: "bool option"
  o_minimumNonZero :: "jsnum option"

definition DEFAULT_FORMAT_OPTIONS :: format_options where
  "DEFAULT_FORMAT_OPTIONS = \<lparr>digitsLarge = 2, digitsSmall = 4, abbreviate = True, minimumNonZero = Fin 0\<rparr>"

definition mergeOptions :: "format_patch option \<Rightarrow> format_options" where
  "mergeOptions p = (case p of None \<Rightarrow> DEFAULT_FORMAT_OPTIONS | Some o' \<Rightarrow>
     \<lparr>digitsLarge = the_or (digitsLarge DEFAULT_FORMAT_OPTIONS) (o_digitsLarge o'),
      digitsSmall = the_or (digitsSmall DEFAULT_FORMAT_OPTIONS) (o_digitsSmall o'),
      abbreviate = the_or (abbreviate DEFAULT_FORMAT_OPTIONS) (o_abbreviate o'),
      minimumNonZero = the_or (minimumNonZero DEFAULT_FORMAT_OPTIONS) (o_minimumNonZero o')\<rparr>)"

section \<open>Number texts\<close>

fun num_abs :: "jsnum \<Rightarrow> jsnum" where
  "num_abs (Fin q) = Fin \<bar>q\<bar>"
| "num_abs NegZero = Fin 0"
| "num_abs NegInf = PosInf"
| "num_abs x = x"

text \<open>The text after the last point, with the text before it.\<close>

definition last_point :: "jstr \<Rightarrow> (jstr \<times> jstr) option" where
  "last_point s = (if 46 \<in> set s
     then Some (rev (tl (dropWhile (\<lambda>c. c \<noteq> 46) (rev s))), rev (takeWhile (\<lambda>c. c \<noteq> 46) (rev s))) else None)"

text \<open>The replacement of \<open>/(\.[0-9]*?)0+$/\<close> by its group, then of a point at the end by nothing. A match of the first starts at the last point,
  all that follows it are digits, and the lazy group leaves every final zero to \<open>0+\<close>.\<close>

definition strip_zeros :: "jstr \<Rightarrow> jstr" where
  "strip_zeros s = (case last_point s of
       Some (pre, fp) \<Rightarrow> if list_all is_digit fp then pre @ [46] @ rev (dropWhile (\<lambda>c. c = 48) (rev fp)) else s
     | None \<Rightarrow> s)"

definition strip_point :: "jstr \<Rightarrow> jstr" where
  "strip_point s = (if s \<noteq> [] \<and> last s = 46 then butlast s else s)"

definition removeTrailingZeros :: "jstr \<Rightarrow> jstr" where
  "removeTrailingZeros s = (if 46 \<notin> set s then s else strip_point (strip_zeros s))"

definition formatNumberWithSuffix :: "jsnum \<Rightarrow> nat \<Rightarrow> nat \<Rightarrow> bool \<Rightarrow> jstr" where
  "formatNumberWithSuffix v large small abbr = (let a = num_abs v in
     if abbr \<and> num_le (Fin 1000) a then removeTrailingZeros (to_fixed (num_div v (Fin 1000)) 1) @ js ''k''
     else removeTrailingZeros (to_fixed v (if num_le (Fin 1) a then large else small)))"

text \<open>The browser: the currency format (code and maximum of fraction digits), the decimal format, and Math.pow(10, -d).\<close>

record intl =
  currency_format :: "jstr \<Rightarrow> nat \<Rightarrow> jsnum \<Rightarrow> jstr"
  decimal_format :: "nat \<Rightarrow> jsnum \<Rightarrow> jstr"
  pow10neg :: "nat \<Rightarrow> jsnum"

definition adjustForMinimum :: "intl \<Rightarrow> jsnum \<Rightarrow> nat \<Rightarrow> jsnum \<Rightarrow> jsnum" where
  "adjustForMinimum br v digits minimum = (if is_zero v then v else
     let threshold = (if num_lt (Fin 0) minimum then minimum else pow10neg br digits); a = num_abs v in
     if num_lt (Fin 0) a \<and> num_lt a threshold then (if num_lt (Fin 0) v then threshold else num_neg threshold) else v)"

definition formatCurrencyValue :: "intl \<Rightarrow> jsnum \<Rightarrow> format_options \<Rightarrow> display_meta \<Rightarrow> jstr" where
  "formatCurrencyValue br v o' meta = (case meta of
       MTokens _ \<Rightarrow> formatNumberWithSuffix v (digitsLarge o') (digitsSmall o') (abbreviate o')
     | _ \<Rightarrow> let digits = (if num_le (Fin 1) (num_abs v) then digitsLarge o' else digitsSmall o');
               adjusted = adjustForMinimum br v digits (minimumNonZero o')
           in (case meta of MCurrency _ code _ \<Rightarrow> currency_format br code digits adjusted
               | _ \<Rightarrow> symbol meta @ decimal_format br digits adjusted))"

definition missing :: "jsnum option \<Rightarrow> bool" where
  "missing x \<longleftrightarrow> x = None \<or> x = Some NaN"

definition formatCurrencyFromUSD :: "intl \<Rightarrow> config_state \<Rightarrow> jsnum option \<Rightarrow> format_patch option \<Rightarrow> jstr" where
  "formatCurrencyFromUSD br st amount p = (if missing amount then js ''-'' else
     let (c, meta) = getCurrencyDisplay st; merged = mergeOptions p in
     case meta of
       MTokens _ \<Rightarrow> formatNumberWithSuffix (num_mul (the amount) (quotaPerUnit c)) 0 (digitsSmall merged) (abbreviate merged)
     | _ \<Rightarrow> formatCurrencyValue br (num_mul (the amount) (rate meta)) merged meta)"

definition formatBillingCurrencyFromUSD :: "intl \<Rightarrow> config_state \<Rightarrow> jsnum option \<Rightarrow> format_patch option \<Rightarrow> jstr" where
  "formatBillingCurrencyFromUSD br st amount p = (if missing amount then js ''-'' else
     let (c, _) = getCurrencyDisplay st; meta = getBillingDisplayMeta c; merged = mergeOptions p;
         v = (if is_tokens meta then the amount else num_mul (the amount) (rate meta))
     in formatCurrencyValue br v merged meta)"

definition formatQuotaWithCurrency :: "intl \<Rightarrow> config_state \<Rightarrow> jsnum option \<Rightarrow> format_patch option \<Rightarrow> jstr" where
  "formatQuotaWithCurrency br st quota p = (if missing quota then js ''-'' else
     let (c, _) = getCurrencyDisplay st in formatCurrencyFromUSD br st (Some (num_div (the quota) (quotaPerUnit c))) p)"

definition formatLocalCurrencyAmount :: "intl \<Rightarrow> config_state \<Rightarrow> jsnum option \<Rightarrow> format_patch option \<Rightarrow> jstr" where
  "formatLocalCurrencyAmount br st amount p = (if missing amount then js ''-'' else
     let (c, _) = getCurrencyDisplay st in formatCurrencyValue br (the amount) (mergeOptions p) (getBillingDisplayMeta c))"

text \<open>\<open>x || 0\<close>.\<close>

definition or_zero :: "jsnum option \<Rightarrow> jsnum" where
  "or_zero x = (case x of Some v \<Rightarrow> if num_truthy v then v else Fin 0 | None \<Rightarrow> Fin 0)"

section \<open>Quota units\<close>

definition parseQuotaFromDollars :: "config_state \<Rightarrow> jsnum \<Rightarrow> jsnum" where
  "parseQuotaFromDollars st amount = (if \<not> is_finite amount then Fin 0 else
     let (c, meta) = getCurrencyDisplay st in
     if is_tokens meta then math_round amount
     else let r = rate meta; usd = (if num_lt (Fin 0) r then num_div amount r else amount)
          in math_round (num_mul usd (quotaPerUnit c)))"

definition quotaUnitsToDollars :: "config_state \<Rightarrow> jsnum \<Rightarrow> jsnum" where
  "quotaUnitsToDollars st n = (let (c, meta) = getCurrencyDisplay st in
     if is_tokens meta then n else num_mul (num_div n (quotaPerUnit c)) (rate meta))"

definition quotaUnitsToUsd :: "config_state \<Rightarrow> jsnum \<Rightarrow> jsnum" where
  "quotaUnitsToUsd st n = num_div n (quotaPerUnit (fst (getCurrencyDisplay st)))"

definition formatQuota :: "intl \<Rightarrow> config_state \<Rightarrow> jsnum \<Rightarrow> jstr" where
  "formatQuota br st q = formatQuotaWithCurrency br st (Some q)
     (Some \<lparr>o_digitsLarge = Some 2, o_digitsSmall = Some 4, o_abbreviate = Some True, o_minimumNonZero = None\<rparr>)"

definition formatLogQuota :: "intl \<Rightarrow> config_state \<Rightarrow> jsnum \<Rightarrow> jstr" where
  "formatLogQuota br st q = formatQuotaWithCurrency br st (Some q)
     (Some \<lparr>o_digitsLarge = Some 4, o_digitsSmall = Some 6, o_abbreviate = Some False, o_minimumNonZero = None\<rparr>)"

definition formatCurrencyUSD :: "intl \<Rightarrow> config_state \<Rightarrow> jsnum option \<Rightarrow> jstr" where
  "formatCurrencyUSD br st v = formatCurrencyFromUSD br st v None"

section \<open>Token counts and durations\<close>

definition formatTokens :: "jsnum \<Rightarrow> jstr" where
  "formatTokens n =
     (if is_zero n then js ''-''
      else if num_lt n (Fin 1000) then num_str n
      else if num_lt n (Fin 1000000) then to_fixed (num_div n (Fin 1000)) 1 @ js ''K''
      else to_fixed (num_div n (Fin 1000000)) 2 @ js ''M'')"

text \<open>Math.floor, and the remainder of a division by a positive number: exact, with the sign of the dividend.\<close>

fun math_floor :: "jsnum \<Rightarrow> jsnum" where
  "math_floor (Fin q) = Fin (of_int \<lfloor>q\<rfloor>)"
| "math_floor x = x"

fun num_rem :: "jsnum \<Rightarrow> rat \<Rightarrow> jsnum" where
  "num_rem (Fin q) d = (let r = \<bar>q\<bar> - of_int \<lfloor>\<bar>q\<bar> / d\<rfloor> * d in if q < 0 then num_neg (Fin r) else Fin r)"
| "num_rem NegZero d = NegZero"
| "num_rem x d = NaN"

definition formatUseTime :: "jsnum \<Rightarrow> jstr" where
  "formatUseTime s = (if num_lt s (Fin 60) then to_fixed s 1 @ js ''s'' else
     num_str (math_floor (num_div s (Fin 60))) @ js ''m '' @ to_fixed (num_rem s 60) 0 @ js ''s'')"

section \<open>Settings are usable\<close>

definition positive_num :: "jsnum \<Rightarrow> bool" where
  "positive_num x \<longleftrightarrow> num_lt (Fin 0) x"

lemma positive_or [simp]: "positive_num d \<Longrightarrow> positive_num (positive_or d x)"
  by (simp add: positive_or_def positive_num_def split: option.splits)

lemma default_rates [simp]: "positive_num (quotaPerUnit DEFAULT_CURRENCY_CONFIG)"
  "positive_num (usdExchangeRate DEFAULT_CURRENCY_CONFIG)"
  "positive_num (customCurrencyExchangeRate DEFAULT_CURRENCY_CONFIG)"
  by (simp_all add: positive_num_def DEFAULT_CURRENCY_CONFIG_def)

lemma str_or_not_Nil: "d \<noteq> [] \<Longrightarrow> str_or s d \<noteq> []"
  by (simp add: str_or_def split: option.splits)

lemma getConfig_positive: "positive_num (quotaPerUnit (getConfig st))" "positive_num (usdExchangeRate (getConfig st))"
  "positive_num (customCurrencyExchangeRate (getConfig st))"
  by (simp_all add: getConfig_def Let_def)

lemma rate_positive: "\<not> is_tokens (getDisplayMeta (getConfig st)) \<Longrightarrow> positive_num (rate (getDisplayMeta (getConfig st)))"
  using getConfig_positive [of st] by (auto simp: getDisplayMeta_def dollars_def positive_num_def)

lemma billing_meta: "\<not> is_tokens (getBillingDisplayMeta c)"
  by (simp add: getBillingDisplayMeta_def Let_def dollars_def)

lemma billing_rate_positive: "positive_num (rate (getBillingDisplayMeta (getConfig st)))"
  using rate_positive [of st] by (auto simp: getBillingDisplayMeta_def Let_def dollars_def positive_num_def)

text \<open>Whatever the store holds, the settings read from it are usable: each of the three rates is above zero (so no
  division by zero and no sign change follows), the custom symbol is not blank, the billing display is
  never a token count, and its rate is positive.\<close>

theorem settings_usable:
  "positive_num (quotaPerUnit (getConfig st)) \<and> positive_num (usdExchangeRate (getConfig st)) \<and>
   positive_num (customCurrencyExchangeRate (getConfig st)) \<and> customCurrencySymbol (getConfig st) \<noteq> [] \<and>
   trimmed (customCurrencySymbol (getConfig st)) \<and>
   \<not> is_tokens (getBillingDisplayMeta (getConfig st)) \<and> positive_num (rate (getBillingDisplayMeta (getConfig st)))"
proof -
  have d: "customCurrencySymbol DEFAULT_CURRENCY_CONFIG = [164]" by (simp add: DEFAULT_CURRENCY_CONFIG_def)
  then have "customCurrencySymbol (getConfig st) \<noteq> []" "trimmed (customCurrencySymbol (getConfig st))"
    by (auto simp: getConfig_def Let_def str_or_def trimmed_def [of "[164]"] is_ws_def split: option.splits)
  then show ?thesis using getConfig_positive [of st] billing_meta billing_rate_positive by blast
qed

section \<open>The quota round trip\<close>

text \<open>Magnitudes between 2^-k and 2^k.\<close>

definition within_bits :: "nat \<Rightarrow> rat \<Rightarrow> bool" where
  "within_bits k q \<longleftrightarrow> 1 / 2 ^ k \<le> \<bar>q\<bar> \<and> \<bar>q\<bar> \<le> 2 ^ k"

lemma within_mult: "within_bits a x \<Longrightarrow> within_bits b y \<Longrightarrow> within_bits (a + b) (x * y)"
proof -
  assume h: "within_bits a x" "within_bits b y"
  have "1 / 2 ^ a * (1 / 2 ^ b) \<le> \<bar>x\<bar> * \<bar>y\<bar>" using h unfolding within_bits_def by (intro mult_mono) auto
  moreover have "\<bar>x\<bar> * \<bar>y\<bar> \<le> 2 ^ a * 2 ^ b" using h unfolding within_bits_def by (intro mult_mono) auto
  ultimately show ?thesis by (simp add: within_bits_def abs_mult power_add)
qed

lemma within_inverse: "within_bits a x \<Longrightarrow> within_bits a (1 / x)"
proof -
  assume h: "within_bits a x"
  have "(0::rat) < 1 / 2 ^ a" by simp
  then have x: "0 < \<bar>x\<bar>" using h unfolding within_bits_def by linarith
  then show ?thesis using h by (simp add: within_bits_def field_simps)
qed

lemma within_mono: "within_bits a x \<Longrightarrow> a \<le> b \<Longrightarrow> within_bits b x"
proof -
  assume h: "within_bits a x" "a \<le> b"
  have p: "(2::rat) ^ a \<le> 2 ^ b" using h(2) by (rule power_increasing) simp
  then have "(1::rat) / 2 ^ b \<le> 1 / 2 ^ a" by (intro divide_left_mono) auto
  then show ?thesis using h(1) p unfolding within_bits_def by linarith
qed

lemma within_int: "u \<noteq> 0 \<Longrightarrow> \<bar>u\<bar> \<le> 2 ^ k \<Longrightarrow> within_bits k (of_int u)"
proof -
  assume u: "u \<noteq> 0" "\<bar>u\<bar> \<le> 2 ^ k"
  then have "(1::rat) \<le> of_int \<bar>u\<bar>" by (simp only: of_int_1_le_iff)
  moreover have "(of_int \<bar>u\<bar> :: rat) \<le> of_int (2 ^ k)" using u(2) by (simp only: of_int_le_iff)
  moreover have "(1::rat) / 2 ^ k \<le> 1" by simp
  ultimately show ?thesis unfolding within_bits_def by (auto intro: order_trans [of _ 1])
qed

text \<open>A rate in a range where no intermediate result leaves the normal numbers.\<close>

definition rate_ok :: "jsnum \<Rightarrow> bool" where
  "rate_ok x = (case x of Fin q \<Rightarrow> 0 < q \<and> within_bits 100 q | _ \<Rightarrow> False)"

lemma rate_okE: assumes "rate_ok x" obtains q where "x = Fin q" "0 < q" "within_bits 100 q"
  using assms by (auto simp: rate_ok_def split: jsnum.splits)

text \<open>One more rounding of a value that is near, by a product or a quotient.\<close>

lemma near_factor_2:
  assumes "\<bar>v - q\<bar> \<le> ((1 + unit_error) ^ n - 1) * \<bar>q\<bar>" "n \<le> 4"
  shows "\<bar>q\<bar> / 2 \<le> \<bar>v\<bar> \<and> \<bar>v\<bar> \<le> 2 * \<bar>q\<bar>"
proof -
  have "(1 + unit_error) ^ n - 1 \<le> 1 / 2"
  proof -
    have "5 * unit_error \<le> 1 / 2" by (simp add: unit_error_def power_int_def field_simps)
    then show ?thesis using small_chain [OF assms(2)] by linarith
  qed
  then have "((1 + unit_error) ^ n - 1) * \<bar>q\<bar> \<le> 1 / 2 * \<bar>q\<bar>" by (intro mult_right_mono) auto
  then show ?thesis using assms(1) by linarith
qed

lemma near_step:
  assumes "\<bar>v - q\<bar> \<le> ((1 + unit_error) ^ n - 1) * \<bar>q\<bar>" "n \<le> 3" "within_bits 400 (q * c)"
  shows "near (Suc n) (q * c) (rnd (v * c))" and "v * c \<noteq> 0"
proof -
  have f: "\<bar>q\<bar> / 2 \<le> \<bar>v\<bar>" "\<bar>v\<bar> \<le> 2 * \<bar>q\<bar>" using near_factor_2 [OF assms(1)] assms(2) by simp_all
  have "\<bar>q\<bar> / 2 * \<bar>c\<bar> \<le> \<bar>v\<bar> * \<bar>c\<bar>" "\<bar>v\<bar> * \<bar>c\<bar> \<le> 2 * \<bar>q\<bar> * \<bar>c\<bar>" using f by (intro mult_right_mono; simp)+
  then have g: "\<bar>q * c\<bar> / 2 \<le> \<bar>v * c\<bar>" "\<bar>v * c\<bar> \<le> 2 * \<bar>q * c\<bar>" by (simp_all add: abs_mult)
  have "normal_range (v * c)" unfolding normal_range_def
  proof
    have "(2::rat) powi - 1000 \<le> 1 / 2 ^ 400 / 2" by (simp add: power_int_def field_simps)
    also have "\<dots> \<le> \<bar>q * c\<bar> / 2" using assms(3) unfolding within_bits_def by (intro divide_right_mono) auto
    finally show "2 powi - 1000 \<le> \<bar>v * c\<bar>" using g(1) by linarith
    have "2 * \<bar>q * c\<bar> \<le> 2 * 2 ^ 400" using assms(3) unfolding within_bits_def by (intro mult_left_mono) auto
    also have "\<dots> \<le> (2::rat) powi 1000" by (simp add: power_int_def)
    finally show "\<bar>v * c\<bar> \<le> 2 powi 1000" using g(2) by linarith
  qed
  then show "near (Suc n) (q * c) (rnd (v * c))" by (rule near_compose [OF assms(1) rnd_near])
  show "v * c \<noteq> 0"
  proof
    assume z: "v * c = 0"
    have "(0::rat) < 1 / 2 ^ 400" by simp
    then show False using g(1) z assms(3) unfolding within_bits_def by linarith
  qed
qed

lemma num_mul_Fin: "a \<noteq> 0 \<Longrightarrow> b \<noteq> 0 \<Longrightarrow> num_mul (Fin a) (Fin b) = rnd (a * b)"
  by (simp add: num_mul_def Let_def is_zero_def)

lemma num_div_Fin: "a \<noteq> 0 \<Longrightarrow> b \<noteq> 0 \<Longrightarrow> num_div (Fin a) (Fin b) = rnd (a / b)"
  by (simp add: num_div_def Let_def is_zero_def)

lemma near_mul:
  assumes "near n q x" "n \<le> 3" "c \<noteq> 0" "within_bits 400 (q * c)"
  shows "near (Suc n) (q * c) (num_mul x (Fin c))"
proof -
  obtain v where v: "x = Fin v" "\<bar>v - q\<bar> \<le> ((1 + unit_error) ^ n - 1) * \<bar>q\<bar>" using assms(1) by (auto simp: near_def)
  show ?thesis using near_step [OF v(2) assms(2,4)] v(1) assms(3) by (auto simp: num_mul_Fin)
qed

lemma near_div:
  assumes "near n q x" "n \<le> 3" "c \<noteq> 0" "within_bits 400 (q / c)"
  shows "near (Suc n) (q / c) (num_div x (Fin c))"
proof -
  obtain v where v: "x = Fin v" "\<bar>v - q\<bar> \<le> ((1 + unit_error) ^ n - 1) * \<bar>q\<bar>" using assms(1) by (auto simp: near_def)
  show ?thesis using near_step [OF v(2) assms(2), of "1 / c"] v(1) assms(3,4) by (auto simp: num_div_Fin)
qed

lemma near_finite: "near n q x \<Longrightarrow> is_finite x"
  by (auto simp: near_def)

lemma near_exact: "near 0 q (Fin q)"
  by (simp add: near_def)

text \<open>The four roundings of a conversion to the display currency and back.\<close>

lemma money_out:
  assumes p: "rate_ok p" and r: "rate_ok r" and u: "u \<noteq> 0" "\<bar>u\<bar> \<le> 2 ^ 49"
  obtains a b where "p = Fin a" "a \<noteq> 0" "r = Fin b" "b \<noteq> 0" "within_bits 49 (of_int u)" "within_bits 149 (of_int u / a)"
    "near 2 (of_int u / a * b) (num_mul (num_div (Fin (of_int u)) p) r)"
proof -
  obtain a where a: "p = Fin a" "0 < a" "within_bits 100 a" by (rule rate_okE [OF p])
  obtain b where b: "r = Fin b" "0 < b" "within_bits 100 b" by (rule rate_okE [OF r])
  let ?q = "of_int u :: rat"
  have w0: "within_bits 49 ?q" by (rule within_int [OF u])
  have w1: "within_bits 149 (?q / a)" using within_mult [OF w0 within_inverse [OF a(3)]] by simp
  have w2: "within_bits 249 (?q / a * b)" using within_mult [OF w1 b(3)] by simp
  have n1: "near 1 (?q / a) (num_div (Fin ?q) p)"
    using near_div [OF near_exact _ _ within_mono [OF w1]] a by simp
  have "near 2 (?q / a * b) (num_mul (num_div (Fin ?q) p) r)"
    using near_mul [OF n1 _ _ within_mono [OF w2]] b by (simp add: numeral_2_eq_2)
  then show ?thesis using that [of a b] a b w0 w1 by simp
qed

lemma money_round_trip:
  assumes p: "rate_ok p" and r: "rate_ok r" and u: "u \<noteq> 0" "\<bar>u\<bar> \<le> 2 ^ 49"
  shows "is_finite (num_mul (num_div (Fin (of_int u)) p) r) \<and>
    math_round (num_mul (num_div (num_mul (num_div (Fin (of_int u)) p) r) r) p) = Fin (of_int u)"
proof -
  obtain a b where ab: "p = Fin a" "a \<noteq> 0" "r = Fin b" "b \<noteq> 0" and w: "within_bits 49 (of_int u)" "within_bits 149 (of_int u / a)"
    and n2: "near 2 (of_int u / a * b) (num_mul (num_div (Fin (of_int u)) p) r)"
    by (rule money_out [OF assms])
  let ?q = "of_int u :: rat"
  have e3: "?q / a * b / b = ?q / a" and e4: "?q / a * a = ?q" using ab by simp_all
  have n3: "near 3 (?q / a) (num_div (num_mul (num_div (Fin ?q) p) r) r)"
    using near_div [OF n2 _ ab(4), unfolded e3, OF _ within_mono [OF w(2)]] ab(3) by (simp add: eval_nat_numeral)
  have n4: "near 4 ?q (num_mul (num_div (num_mul (num_div (Fin ?q) p) r) r) p)"
    using near_mul [OF n3 _ ab(2), unfolded e4, OF _ within_mono [OF w(1)]] ab(1) by (simp add: eval_nat_numeral)
  show ?thesis using near_finite [OF n2] math_round_near [OF n4 _ u(2,1)] by simp
qed

lemma money_zero: "rate_ok p \<Longrightarrow> rate_ok r \<Longrightarrow> num_mul (num_div (Fin 0) p) r = Fin 0"
  "rate_ok p \<Longrightarrow> rate_ok r \<Longrightarrow> num_mul (num_div (Fin 0) r) p = Fin 0"
  by (auto elim!: rate_okE simp: num_mul_def num_div_def is_zero_def signed_zero_def Let_def)

definition meta_ok :: "display_meta \<Rightarrow> bool" where
  "meta_ok meta \<longleftrightarrow> is_tokens meta \<or> rate_ok (rate meta)"

lemma quota_units_return:
  assumes "rate_ok (quotaPerUnit (getConfig st))" "meta_ok (getDisplayMeta (getConfig st))" "\<bar>u\<bar> \<le> 2 ^ 49"
  shows "parseQuotaFromDollars st (quotaUnitsToDollars st (Fin (of_int u))) = Fin (of_int u)"
proof (cases "is_tokens (getDisplayMeta (getConfig st))")
  case True
  then show ?thesis
    using math_round_whole by (simp add: parseQuotaFromDollars_def quotaUnitsToDollars_def getCurrencyDisplay_def Let_def)
next
  case False
  let ?p = "quotaPerUnit (getConfig st)" and ?r = "rate (getDisplayMeta (getConfig st))"
  have r: "rate_ok ?r" using assms(2) False by (simp add: meta_ok_def)
  then have pos: "num_lt (Fin 0) ?r" by (auto elim!: rate_okE)
  have eq: "parseQuotaFromDollars st (quotaUnitsToDollars st (Fin (of_int u))) =
      (let x = num_mul (num_div (Fin (of_int u)) ?p) ?r in
       if \<not> is_finite x then Fin 0 else math_round (num_mul (num_div x ?r) ?p))"
    using False pos by (simp add: parseQuotaFromDollars_def quotaUnitsToDollars_def getCurrencyDisplay_def Let_def)
  show ?thesis
  proof (cases "u = 0")
    case True
    then show ?thesis unfolding eq Let_def using money_zero [OF assms(1) r] math_round_whole [of 0] by simp
  next
    case False
    show ?thesis unfolding eq Let_def using money_round_trip [OF assms(1) r False assms(3)] by simp
  qed
qed

lemma or_zero_roundtrip:
  assumes "rate_ok (quotaPerUnit (getConfig st))" "meta_ok (getDisplayMeta (getConfig st))" "\<bar>u\<bar> \<le> 2 ^ 49"
    and rt: "parseQuotaFromDollars st (quotaUnitsToDollars st (Fin (of_int u))) = Fin (of_int u)"
  shows "parseQuotaFromDollars st (or_zero (Some (quotaUnitsToDollars st (Fin (of_int u))))) = Fin (of_int u)"
proof (cases "num_truthy (quotaUnitsToDollars st (Fin (of_int u)))")
  case True
  then show ?thesis using rt by (simp add: or_zero_def)
next
  case False
  let ?x = "quotaUnitsToDollars st (Fin (of_int u))"
  have "?x = NaN \<or> ?x = NegZero \<or> ?x = Fin 0" using False by (auto simp: num_truthy_def is_zero_def)
  moreover have "parseQuotaFromDollars st NaN = Fin 0" by (simp add: parseQuotaFromDollars_def)
  moreover have "parseQuotaFromDollars st (Fin 0) = Fin 0"
  proof -
    have z: "\<And>r q. rate_ok r \<Longrightarrow> rate_ok q \<Longrightarrow> num_mul (num_div (Fin 0) r) q = Fin 0" by (rule money_zero(2))
    have "math_round (Fin 0) = Fin 0" using math_round_whole [of 0] by simp
    moreover have "\<not> is_tokens (getDisplayMeta (getConfig st)) \<Longrightarrow>
        num_lt (Fin 0) (rate (getDisplayMeta (getConfig st)))"
      using assms(2) by (auto simp: meta_ok_def elim: rate_okE)
    ultimately show ?thesis using assms(1,2) z
      by (auto simp: parseQuotaFromDollars_def getCurrencyDisplay_def Let_def meta_ok_def)
  qed
  moreover have "?x \<noteq> NegZero"
  proof
    assume n: "?x = NegZero"
    show False
    proof (cases "is_tokens (getDisplayMeta (getConfig st))")
      case True
      then show False using n by (simp add: quotaUnitsToDollars_def getCurrencyDisplay_def Let_def)
    next
      case f: False
      then have r: "rate_ok (rate (getDisplayMeta (getConfig st)))" using assms(2) by (simp add: meta_ok_def)
      have x: "?x = num_mul (num_div (Fin (of_int u)) (quotaPerUnit (getConfig st))) (rate (getDisplayMeta (getConfig st)))"
        using f by (simp add: quotaUnitsToDollars_def getCurrencyDisplay_def Let_def)
      show False
      proof (cases "u = 0")
        case True
        then show False using x n money_zero(1) [OF assms(1) r] by simp
      next
        case False
        show False by (rule money_out [OF assms(1) r False assms(3)]) (use x n in \<open>auto simp: near_def\<close>)
      qed
    qed
  qed
  ultimately show ?thesis using rt by (auto simp: or_zero_def)
qed

text \<open>C4. What the quota fields of the forms show converts back to the stored quota exactly: in every display mode, for a
  whole number of quota units up to 2^49 in magnitude and rates between 2^-100 and 2^100, parsing
  the displayed amount gives the units it was computed from. The amount in between is rounded
  twice and the way back rounds twice more; Math.round removes the error.\<close>

theorem quota_roundtrip:
  assumes "rate_ok (quotaPerUnit (getConfig st))" "meta_ok (getDisplayMeta (getConfig st))" "\<bar>u\<bar> \<le> 2 ^ 49"
  shows "parseQuotaFromDollars st (quotaUnitsToDollars st (Fin (of_int u))) = Fin (of_int u)"
  by (rule quota_units_return [OF assms])

definition cny_store :: config_state where
  "cny_store = setConfig (no_patch\<lparr>p_currency := Some (empty_currency\<lparr>c_displayType := Some (js ''CNY''),
     c_usdRate := Some (Fin (29 / 4))\<rparr>)\<rparr>) initial_config_state"

lemma cny_meta: "getDisplayMeta (getConfig cny_store) = MCurrency [165] (js ''CNY'') (Fin (29 / 4))"
  by code_simp

lemma cny_rates: "rate_ok (quotaPerUnit (getConfig cny_store))" "meta_ok (getDisplayMeta (getConfig cny_store))"
proof -
  have "quotaPerUnit (getConfig cny_store) = Fin 500000" by code_simp
  then show "rate_ok (quotaPerUnit (getConfig cny_store))" "meta_ok (getDisplayMeta (getConfig cny_store))"
    unfolding cny_meta by (simp_all add: rate_ok_def meta_ok_def within_bits_def)
qed

theorem quota_roundtrip_witness:
  "rate_ok (quotaPerUnit (getConfig cny_store)) \<and> meta_ok (getDisplayMeta (getConfig cny_store)) \<and>
   parseQuotaFromDollars cny_store (quotaUnitsToDollars cny_store (Fin (of_int 1234567))) = Fin (of_int 1234567)"
  using quota_roundtrip [OF cny_rates, of 1234567] cny_rates by simp

section \<open>One conversion, no tokens in bills\<close>

text \<open>The amounts are converted once. Outside the token display, formatting a USD amount is formatting the product with the
  display rate as an amount of local currency already; a bill of the token display is one of the dollar display at rate
  1; and an amount of local currency does not depend on any rate of the store: two stores with the same
  display type and symbol show it alike.\<close>

theorem converted_once:
  "(\<not> is_tokens (getDisplayMeta (getConfig st)) \<and> x \<noteq> NaN \<and> num_mul x (rate (getDisplayMeta (getConfig st))) \<noteq> NaN \<longrightarrow>
      formatCurrencyFromUSD br st (Some x) p =
        formatLocalCurrencyAmount br st (Some (num_mul x (rate (getDisplayMeta (getConfig st))))) p \<and>
      formatBillingCurrencyFromUSD br st (Some x) p = formatCurrencyFromUSD br st (Some x) p) \<and>
   (is_tokens (getDisplayMeta (getConfig st)) \<and> x \<noteq> NaN \<longrightarrow>
      formatBillingCurrencyFromUSD br st (Some x) p = formatCurrencyValue br (num_mul x (Fin 1)) (mergeOptions p) dollars) \<and>
   (quotaDisplayType (getConfig st) = quotaDisplayType (getConfig st') \<and>
    customCurrencySymbol (getConfig st) = customCurrencySymbol (getConfig st') \<longrightarrow>
      formatLocalCurrencyAmount br st a p = formatLocalCurrencyAmount br st' a p)"
proof (intro conjI impI)
  assume h: "\<not> is_tokens (getDisplayMeta (getConfig st)) \<and> x \<noteq> NaN \<and> num_mul x (rate (getDisplayMeta (getConfig st))) \<noteq> NaN"
  then show "formatCurrencyFromUSD br st (Some x) p =
        formatLocalCurrencyAmount br st (Some (num_mul x (rate (getDisplayMeta (getConfig st))))) p"
    by (cases "getDisplayMeta (getConfig st)")
      (simp_all add: formatCurrencyFromUSD_def formatLocalCurrencyAmount_def missing_def getCurrencyDisplay_def
        getBillingDisplayMeta_def Let_def)
  show "formatBillingCurrencyFromUSD br st (Some x) p = formatCurrencyFromUSD br st (Some x) p"
    using h by (cases "getDisplayMeta (getConfig st)")
      (simp_all add: formatCurrencyFromUSD_def formatBillingCurrencyFromUSD_def missing_def getCurrencyDisplay_def
        getBillingDisplayMeta_def Let_def)
next
  assume "is_tokens (getDisplayMeta (getConfig st)) \<and> x \<noteq> NaN"
  then show "formatBillingCurrencyFromUSD br st (Some x) p = formatCurrencyValue br (num_mul x (Fin 1)) (mergeOptions p) dollars"
    by (simp add: formatBillingCurrencyFromUSD_def missing_def getCurrencyDisplay_def getBillingDisplayMeta_def Let_def dollars_def)
next
  assume "quotaDisplayType (getConfig st) = quotaDisplayType (getConfig st') \<and>
    customCurrencySymbol (getConfig st) = customCurrencySymbol (getConfig st')"
  then show "formatLocalCurrencyAmount br st a p = formatLocalCurrencyAmount br st' a p"
    by (auto simp: formatLocalCurrencyAmount_def getCurrencyDisplay_def Let_def formatCurrencyValue_def
        getBillingDisplayMeta_def getDisplayMeta_def dollars_def)
qed

definition plain_intl :: intl where
  "plain_intl = \<lparr>currency_format = (\<lambda>code d x. code @ [32] @ to_fixed x d), decimal_format = (\<lambda>d x. to_fixed x d),
     pow10neg = (\<lambda>d. rnd (10 powi - int d))\<rparr>"

theorem converted_once_witness:
  "formatCurrencyFromUSD plain_intl cny_store (Some (Fin 10)) None =
     formatLocalCurrencyAmount plain_intl cny_store (Some (Fin (145 / 2))) None \<and>
   formatLocalCurrencyAmount plain_intl cny_store (Some (Fin (145 / 2))) None =
     currency_format plain_intl (js ''CNY'') 2 (Fin (145 / 2))"
proof -
  note m = cny_meta
  have v: "num_mul (Fin 10) (Fin (29 / 4)) = Fin (145 / 2)" by code_simp
  have n: "\<not> num_lt (Fin (145 / 2)) (pow10neg plain_intl 2)" by code_simp
  have l: "formatLocalCurrencyAmount plain_intl cny_store (Some (Fin (145 / 2))) None =
      currency_format plain_intl (js ''CNY'') 2 (Fin (145 / 2))"
    using n by (simp add: formatLocalCurrencyAmount_def missing_def getCurrencyDisplay_def Let_def getBillingDisplayMeta_def m
        formatCurrencyValue_def mergeOptions_def DEFAULT_FORMAT_OPTIONS_def adjustForMinimum_def)
  have "formatCurrencyFromUSD plain_intl cny_store (Some (Fin 10)) None =
      formatLocalCurrencyAmount plain_intl cny_store (Some (Fin (145 / 2))) None"
    using converted_once [of cny_store "Fin 10" plain_intl None cny_store] unfolding m by (simp add: v)
  then show ?thesis using l by simp
qed

section \<open>The least amount shown\<close>

definition least_shown :: "intl \<Rightarrow> nat \<Rightarrow> jsnum \<Rightarrow> jsnum" where
  "least_shown br digits minimum = (if num_lt (Fin 0) minimum then minimum else pow10neg br digits)"

text \<open>Small amounts are not rounded away: a finite amount other than zero is shown as a value of the same sign whose magnitude is at
  least the threshold; zero stays zero, and an amount at or above the threshold is not
  changed.\<close>

theorem minimum_applied:
  assumes "0 < t" "least_shown br digits minimum = Fin t"
  shows "(\<bar>q\<bar> \<ge> t \<or> q = 0 \<longrightarrow> adjustForMinimum br (Fin q) digits minimum = Fin q) \<and>
    (q \<noteq> 0 \<longrightarrow> (\<exists>v. adjustForMinimum br (Fin q) digits minimum = Fin v \<and> t \<le> \<bar>v\<bar> \<and> (0 < v \<longleftrightarrow> 0 < q)))"
  using assms by (auto simp: adjustForMinimum_def least_shown_def Let_def is_zero_def not_less)

theorem minimum_applied_witness:
  "adjustForMinimum plain_intl (Fin (- 1 / 1000000)) 4 (Fin (1 / 8)) = Fin (- 1 / 8) \<and>
   (\<exists>v. adjustForMinimum plain_intl (Fin (- 1 / 1000000)) 4 (Fin (1 / 8)) = Fin v \<and> 1 / 8 \<le> \<bar>v\<bar> \<and> (0 < v \<longleftrightarrow> 0 < (- 1 / 1000000 :: rat)))"
proof -
  have l: "least_shown plain_intl 4 (Fin (1 / 8)) = Fin (1 / 8)" by (simp add: least_shown_def)
  have "adjustForMinimum plain_intl (Fin (- 1 / 1000000)) 4 (Fin (1 / 8)) = Fin (- 1 / 8)" by code_simp
  moreover have "(- 1 / 1000000 :: rat) \<noteq> 0" by simp
  ultimately show ?thesis using minimum_applied [OF _ l, of "- 1 / 1000000"] by simp
qed

section \<open>Zeros at the end of a fraction\<close>

text \<open>The value of a numeral of digits with at most one point.\<close>

definition numeral_value :: "jstr \<Rightarrow> rat" where
  "numeral_value s = (let ip = takeWhile (\<lambda>c. c \<noteq> 46) s; fp = drop (Suc (length ip)) s
     in of_int (digits_val ip) + of_int (digits_val fp) / 10 ^ length fp)"

lemma numeral_value_point: "46 \<notin> set ip \<Longrightarrow> numeral_value (ip @ 46 # fp) = of_int (digits_val ip) + of_int (digits_val fp) / 10 ^ length fp"
  by (simp add: numeral_value_def takeWhile_append Let_def)

lemma numeral_value_whole: "46 \<notin> set ip \<Longrightarrow> numeral_value ip = of_int (digits_val ip)"
proof -
  assume "46 \<notin> set ip"
  then have "takeWhile (\<lambda>c. c \<noteq> 46) ip = ip" by (auto simp: takeWhile_eq_all_conv)
  then show ?thesis unfolding numeral_value_def Let_def by (simp only:) (simp add: digits_val_def)
qed

lemma last_point_at: "46 \<notin> set fp \<Longrightarrow> last_point (ip @ 46 # fp) = Some (ip, fp)"
proof -
  assume "46 \<notin> set fp"
  then have n: "\<forall>c \<in> set (rev fp). c \<noteq> 46" by auto
  have "rev (ip @ 46 # fp) = rev fp @ 46 # rev ip" by simp
  then show ?thesis using n by (simp add: last_point_def takeWhile_append dropWhile_append)
qed

lemma digits_val_zeros: "digits_val (s @ replicate k 48) = digits_val s * 10 ^ k"
proof (induction k)
  case (Suc k)
  have "s @ replicate (Suc k) 48 = (s @ replicate k 48) @ [48]" by (simp add: replicate_append_same)
  then show ?case using Suc digits_val_snoc [of "s @ replicate k 48" 48] by simp
qed simp

lemma zeros_split: "s = rev (dropWhile (\<lambda>c. c = 48) (rev s)) @ replicate (length s - length (dropWhile (\<lambda>c. c = 48) (rev s))) 48"
proof -
  let ?t = "takeWhile (\<lambda>c. c = 48) (rev s)" and ?d = "dropWhile (\<lambda>c. c = 48) (rev s)"
  have "\<forall>c \<in> set ?t. c = 48" by (auto dest: set_takeWhileD)
  then have t: "?t = replicate (length ?t) 48" by (metis replicate_length_same)
  have "rev s = ?t @ ?d" by simp
  then have "s = rev ?d @ rev ?t" by (metis rev_append rev_rev_ident)
  moreover have "length ?t = length s - length ?d"
    by (metis \<open>rev s = ?t @ ?d\<close> add_diff_cancel_right' length_append length_rev)
  ultimately show ?thesis using t by (metis rev_replicate)
qed

lemma strip_zeros_value:
  assumes "46 \<notin> set ip" "list_all is_digit fp"
  defines "z \<equiv> rev (dropWhile (\<lambda>c. c = 48) (rev fp))"
  shows "removeTrailingZeros (ip @ 46 # fp) = (if z = [] then ip else ip @ 46 # z)"
    and "of_int (digits_val fp) / (10::rat) ^ length fp = of_int (digits_val z) / 10 ^ length z"
    and "z \<noteq> [] \<Longrightarrow> last z \<noteq> 48" and "list_all is_digit z"
proof -
  have nf: "46 \<notin> set fp" using assms(2) by (auto simp: list_all_iff is_digit_def)
  have z: "list_all is_digit z" using assms(2) unfolding z_def list_all_iff by (auto dest: set_dropWhileD)
  then show "list_all is_digit z" .
  have lz: "z \<noteq> [] \<Longrightarrow> last z \<noteq> 46"
  proof -
    assume "z \<noteq> []"
    then have "is_digit (last z)" using z by (simp add: list_all_iff)
    then show "last z \<noteq> 46" by (simp add: is_digit_def)
  qed
  show "removeTrailingZeros (ip @ 46 # fp) = (if z = [] then ip else ip @ 46 # z)"
    using lz assms(2) by (simp add: removeTrailingZeros_def strip_zeros_def strip_point_def last_point_at [OF nf] z_def [symmetric])
  define k where "k = length fp - length z"
  have f: "fp = z @ replicate k 48" using zeros_split [of fp] by (simp add: z_def k_def)
  have "digits_val fp = digits_val z * 10 ^ k" unfolding f by (rule digits_val_zeros)
  moreover have "length fp = length z + k" unfolding f by simp
  ultimately show "of_int (digits_val fp) / (10::rat) ^ length fp = of_int (digits_val z) / 10 ^ length z"
    by (simp add: power_add)
  show "z \<noteq> [] \<Longrightarrow> last z \<noteq> 48"
    unfolding z_def by (metis (mono_tags, lifting) hd_dropWhile last_rev rev_is_Nil_conv)
qed

lemma digit_not_point: "list_all is_digit s \<Longrightarrow> 46 \<notin> set s"
  by (auto simp: list_all_iff is_digit_def)

lemma nat_digits_all: "list_all is_digit (nat_digits n)"
  by (simp add: list_all_iff nat_digits_digits)

lemma digits_val_lead: "digits_val (replicate k 48 @ s) = digits_val s"
  by (induction k) (simp_all add: digits_val_def)

lemma digits_val_append: "digits_val (a @ b) = digits_val a * 10 ^ length b + digits_val b"
proof (induction b rule: rev_induct)
  case (snoc c b)
  then show ?case using digits_val_snoc [of "a @ b" c] digits_val_snoc [of b c] by (simp add: algebra_simps)
qed (simp add: digits_val_def)

lemma fixed_digits_parts:
  assumes "0 < d"
  obtains ip fp where "fixed_digits d n = ip @ 46 # fp" "list_all is_digit ip" "list_all is_digit fp" "length fp = d"
    "of_int (digits_val ip) + of_int (digits_val fp) / (10::rat) ^ d = of_nat n / 10 ^ d"
proof
  let ?z = "nat_digits n"
  define p where "p = replicate (d + 1 - length ?z) 48 @ ?z"
  let ?ip = "take (length p - d) p" and ?fp = "drop (length p - d) p"
  have dg: "list_all is_digit p" using nat_digits_all [of n] by (auto simp: p_def list_all_iff is_digit_def)
  have l: "d \<le> length p" by (simp add: p_def)
  show "fixed_digits d n = ?ip @ 46 # ?fp" using assms unfolding fixed_digits_def Let_def p_def [symmetric] by simp
  show "list_all is_digit ?ip" "list_all is_digit ?fp" using dg unfolding list_all_iff by (blast dest: in_set_takeD in_set_dropD)+
  show lf: "length ?fp = d" using l by simp
  have "digits_val p = int n" by (simp add: p_def digits_val_lead)
  then have "digits_val ?ip * 10 ^ d + digits_val ?fp = int n"
    using digits_val_append [of ?ip ?fp] lf by simp
  then have "of_int (digits_val ?ip * 10 ^ d + digits_val ?fp) = (of_int (int n) :: rat)" by simp
  then show "of_int (digits_val ?ip) + of_int (digits_val ?fp) / (10::rat) ^ d = of_nat n / 10 ^ d"
    by (simp add: field_simps)
qed

lemma short_fixed:
  "numeral_value (removeTrailingZeros (fixed_digits d n)) = of_nat n / 10 ^ d \<and>
   (46 \<in> set (removeTrailingZeros (fixed_digits d n)) \<longrightarrow> last (removeTrailingZeros (fixed_digits d n)) \<notin> {46, 48})"
proof (cases "d = 0")
  case True
  have "46 \<notin> set (nat_digits n)" using nat_digits_all digit_not_point by blast
  then show ?thesis using True by (simp add: fixed_digits_def removeTrailingZeros_def numeral_value_whole)
next
  case False
  then obtain ip fp where f: "fixed_digits d n = ip @ 46 # fp" "list_all is_digit ip" "list_all is_digit fp"
    "length fp = d" "of_int (digits_val ip) + of_int (digits_val fp) / (10::rat) ^ d = of_nat n / 10 ^ d"
    using fixed_digits_parts [of d n] by blast
  have ip: "46 \<notin> set ip" using f(2) by (rule digit_not_point)
  define z where "z = rev (dropWhile (\<lambda>c. c = 48) (rev fp))"
  note z = strip_zeros_value [OF ip f(3), folded z_def]
  show ?thesis
  proof (cases "z = []")
    case True
    have "digits_val [] = 0" by (simp add: digits_val_def)
    then have "of_int (digits_val fp) / (10::rat) ^ length fp = 0" using z(2) True by simp
    then show ?thesis using True z(1) f ip by (simp add: numeral_value_whole)
  next
    case False
    have "is_digit (last z)" using z(4) False unfolding list_all_iff by (blast intro: last_in_set)
    then have "last z \<noteq> 46" by (auto simp: is_digit_def)
    then show ?thesis using False z(1-3) f ip by (simp add: numeral_value_point)
  qed
qed

text \<open>The short text of an amount is the amount to its last digit shown: for a nonnegative amount below 10^21, dropping the zeros at the
  end of toFixed(d) changes no digit that counts, the text differs from the amount by at most half a
  unit of digit d, and a fraction, when one is shown, does not end in a zero or a point.\<close>

theorem short_text_close:
  assumes "0 \<le> q" "q < 10 ^ 21"
  shows "\<bar>numeral_value (removeTrailingZeros (to_fixed (Fin q) d)) - q\<bar> \<le> 1 / (2 * 10 ^ d) \<and>
    (46 \<in> set (removeTrailingZeros (to_fixed (Fin q) d)) \<longrightarrow> last (removeTrailingZeros (to_fixed (Fin q) d)) \<notin> {46, 48})"
proof -
  let ?f = "\<lfloor>q * 10 ^ d + 1 / 2\<rfloor>"
  have t: "to_fixed (Fin q) d = fixed_digits d (nat ?f)"
    using assms by (simp add: to_fixed_def Let_def)
  have "0 \<le> ?f" using assms(1) by simp
  then have v: "numeral_value (removeTrailingZeros (to_fixed (Fin q) d)) = of_int ?f / 10 ^ d"
    unfolding t using short_fixed [of d "nat ?f"] by simp
  have "of_int ?f \<le> q * 10 ^ d + 1 / 2" "q * 10 ^ d + 1 / 2 < of_int ?f + 1" by linarith+
  then have "\<bar>of_int ?f - q * 10 ^ d\<bar> \<le> 1 / 2" by linarith
  moreover have "\<bar>of_int ?f / 10 ^ d - q\<bar> = \<bar>of_int ?f - q * 10 ^ d\<bar> / 10 ^ d"
  proof -
    have "of_int ?f / 10 ^ d - q = (of_int ?f - q * 10 ^ d) / 10 ^ d" by (simp add: diff_divide_distrib)
    then show ?thesis by (simp only: abs_divide) simp
  qed
  moreover have "\<bar>of_int ?f - q * 10 ^ d\<bar> / 10 ^ d \<le> 1 / 2 / 10 ^ d"
    using \<open>\<bar>of_int ?f - q * 10 ^ d\<bar> \<le> 1 / 2\<close> by (rule divide_right_mono) simp
  ultimately have "\<bar>of_int ?f / 10 ^ d - q\<bar> \<le> 1 / (2 * 10 ^ d)" by simp
  then show ?thesis using v short_fixed [of d "nat ?f"] by (simp add: t)
qed

theorem short_text_close_witness:
  "removeTrailingZeros (to_fixed (Fin (5 / 2)) 2) = js ''2.5'' \<and> \<bar>numeral_value (js ''2.5'') - 5 / 2\<bar> \<le> 1 / (2 * 10 ^ 2)"
proof -
  have "removeTrailingZeros (to_fixed (Fin (5 / 2)) 2) = js ''2.5''" by code_simp
  then show ?thesis using short_text_close [of "5 / 2" 2] by simp
qed

section \<open>Texts the rounding spoils\<close>

text \<open>A duration just below a minute or a whole number of minutes shows sixty seconds: 59.97 s is "60.0s" and
  119.75 s is "1m 60s".\<close>

lemma use_time_sixty: "formatUseTime (Fin (239 / 4)) = js ''59.8s'' \<and> formatUseTime (Fin (479 / 8)) = js ''59.9s'' \<and>
    formatUseTime (Fin (1919 / 32)) = js ''60.0s'' \<and> formatUseTime (Fin (479 / 4)) = js ''1m 60s''"
  by code_simp

end
