(* ===== verification/KeyForm.thy ===== *)
theory KeyForm
  imports Currency
begin

text \<open>
  The API key form: features/keys/lib/api-key-form.ts, the key record and defaults of
  features/keys/types.ts and constants.ts, and features/keys/lib/normalize-full-api-key.ts.

  A Date is its time value, a number of milliseconds or NaN (\<open>make_date\<close> is TimeClip).
\<close>

section \<open>Dates\<close>

definition make_date :: "jsnum \<Rightarrow> jsnum" where
  "make_date t = (case t of
       Fin q \<Rightarrow> if \<bar>q\<bar> > 8640000000000000 then NaN
         else Fin (of_int (if q < 0 then - \<lfloor>- q\<rfloor> else \<lfloor>q\<rfloor>))
     | NegZero \<Rightarrow> Fin 0
     | _ \<Rightarrow> NaN)"

text \<open>\<open>new Date(t * 1000)\<close> of a Unix time, and \<open>Math.floor(d.getTime() / 1000)\<close>.\<close>

definition date_of_unix :: "jsnum \<Rightarrow> jsnum" where
  "date_of_unix t = make_date (num_mul t (Fin 1000))"

definition unix_of_date :: "jsnum \<Rightarrow> jsnum" where
  "unix_of_date d = math_floor (num_div d (Fin 1000))"

lemma unix_round_trip:
  assumes "0 \<le> t" "t \<le> 8640000000000"
  shows "unix_of_date (date_of_unix (Fin (of_int t))) = Fin (of_int t)"
proof (cases "t = 0")
  case True
  then show ?thesis by (simp add: unix_of_date_def date_of_unix_def make_date_def num_mul_def num_div_def is_zero_def signed_zero_def)
next
  case False
  have "num_mul (Fin (of_int t)) (Fin 1000) = rnd (of_int (t * 1000))"
    using False by (simp add: num_mul_Fin)
  also have "\<dots> = Fin (of_int (t * 1000))" using assms by (intro rnd_int) simp
  finally have m: "num_mul (Fin (of_int t)) (Fin 1000) = Fin (of_int (t * 1000))" .
  have "(of_int (t * 1000) :: rat) \<le> of_int 8640000000000000" using assms(2) by (simp only: of_int_le_iff)
  then have le: "(of_int (t * 1000) :: rat) \<le> 8640000000000000" by simp
  have d: "date_of_unix (Fin (of_int t)) = Fin (of_int (t * 1000))"
    using le assms(1) unfolding date_of_unix_def m make_date_def by simp
  have "num_div (Fin (of_int (t * 1000))) (Fin 1000) = rnd (of_int t)"
    using False by (simp add: num_div_Fin)
  also have "\<dots> = Fin (of_int t)" using assms by (intro rnd_int) simp
  finally show ?thesis unfolding unix_of_date_def d by simp
qed

section \<open>Keys and form values\<close>

definition KEY_DEFAULT_GROUP :: jstr where
  "KEY_DEFAULT_GROUP = []"

record api_key =
  key_name :: jstr
  remain_quota :: jsnum
  expired_time :: jsnum
  unlimited_quota :: bool
  model_limits_enabled :: bool
  model_limits :: "jstr option"
  allow_ips :: "jstr option"
  key_group :: "jstr option"
  cross_group_retry :: bool

record key_form =
  kf_name :: jstr
  kf_dollars :: "jsnum option"
  kf_expired :: "jsnum option"
  kf_unlimited :: bool
  kf_limits :: "jstr list"
  kf_ips :: "jstr option"
  kf_group :: "jstr option"
  kf_retry :: "bool option"
  kf_count :: "jsnum option"

text \<open>The payload the server receives.\<close>

record key_payload =
  pl_name :: jstr
  pl_quota :: jsnum
  pl_expired :: jsnum
  pl_unlimited :: bool
  pl_limits_enabled :: bool
  pl_limits :: jstr
  pl_ips :: jstr
  pl_group :: jstr
  pl_retry :: bool

definition API_KEY_FORM_DEFAULT_VALUES :: key_form where
  "API_KEY_FORM_DEFAULT_VALUES = \<lparr>kf_name = [], kf_dollars = Some (Fin 10), kf_expired = None, kf_unlimited = True,
     kf_limits = [], kf_ips = Some [], kf_group = Some KEY_DEFAULT_GROUP, kf_retry = Some True, kf_count = Some (Fin 1)\<rparr>"

definition getApiKeyFormDefaultValues :: "bool \<Rightarrow> key_form" where
  "getApiKeyFormDefaultValues useAuto = API_KEY_FORM_DEFAULT_VALUES
     \<lparr>kf_group := Some (if useAuto then js ''auto'' else KEY_DEFAULT_GROUP), kf_retry := Some useAuto\<rparr>"

text \<open>The schema's own rule (its superRefine): the fields it marks.\<close>

definition quota_issues :: "key_form \<Rightarrow> jstr list" where
  "quota_issues v = (if kf_unlimited v then [] else
     (case kf_dollars v of None \<Rightarrow> [js ''remain_quota_dollars'']
      | Some x \<Rightarrow> if num_lt x (Fin 0) then [js ''remain_quota_dollars''] else []))"

definition or_empty :: "jstr option \<Rightarrow> jstr" where
  "or_empty s = str_or s []"

definition key_form_payload :: "config_state \<Rightarrow> key_form \<Rightarrow> key_payload" where
  "key_form_payload st v = \<lparr>pl_name = kf_name v,
     pl_quota = (if kf_unlimited v then Fin 0 else parseQuotaFromDollars st (or_zero (kf_dollars v))),
     pl_expired = (case kf_expired v of Some d \<Rightarrow> unix_of_date d | None \<Rightarrow> Fin (- 1)),
     pl_unlimited = kf_unlimited v,
     pl_limits_enabled = (kf_limits v \<noteq> []),
     pl_limits = join [44] (kf_limits v),
     pl_ips = or_empty (kf_ips v),
     pl_group = or_empty (kf_group v),
     pl_retry = (kf_group v = Some (js ''auto'') \<and> kf_retry v = Some True)\<rparr>"

definition transformApiKeyToFormDefaults :: "config_state \<Rightarrow> api_key \<Rightarrow> key_form" where
  "transformApiKeyToFormDefaults st k = \<lparr>kf_name = key_name k,
     kf_dollars = Some (if unlimited_quota k then Fin 0 else quotaUnitsToDollars st (remain_quota k)),
     kf_expired = (if num_lt (Fin 0) (expired_time k) then Some (date_of_unix (expired_time k)) else None),
     kf_unlimited = unlimited_quota k,
     kf_limits = (if or_empty (model_limits k) = [] then []
       else filter (\<lambda>s. s \<noteq> []) (split_on 44 (or_empty (model_limits k)))),
     kf_ips = Some (or_empty (allow_ips k)),
     kf_group = Some (str_or (key_group k) KEY_DEFAULT_GROUP),
     kf_retry = Some (cross_group_retry k),
     kf_count = Some (Fin 1)\<rparr>"

section \<open>normalizeFullApiKey\<close>

definition normalizeFullApiKey :: "jstr \<Rightarrow> jstr" where
  "normalizeFullApiKey key = (let t = trim key in
     if t = [] then []
     else if starts_with t (js ''sk-sk-'') then drop 3 t
     else if starts_with t (js ''sk-'') then t
     else js ''sk-'' @ t)"

section \<open>Editing without a change\<close>

lemma join_pieces: "\<forall>p \<in> set (split_on 44 s). p \<noteq> [] \<Longrightarrow> join [44] (filter (\<lambda>p. p \<noteq> []) (split_on 44 s)) = s"
  by (metis (mono_tags, lifting) filter_True join_split_on)

text \<open>A stored key the form can hold: whole quota units of at most 2^49, no expiry or a whole second a Date can hold, and a list of limits without
  empty names that is enabled exactly when it is not empty; retry belongs to the auto group.\<close>

definition key_ok :: "api_key \<Rightarrow> int \<Rightarrow> int \<Rightarrow> bool" where
  "key_ok k u t \<longleftrightarrow> remain_quota k = Fin (of_int u) \<and> \<bar>u\<bar> \<le> 2 ^ 49 \<and> (unlimited_quota k \<longrightarrow> u = 0) \<and>
     expired_time k = Fin (of_int t) \<and> (t = - 1 \<or> (0 < t \<and> t \<le> 8640000000000)) \<and>
     (or_empty (model_limits k) \<noteq> [] \<longrightarrow> (\<forall>p \<in> set (split_on 44 (or_empty (model_limits k))). p \<noteq> [])) \<and>
     (model_limits_enabled k \<longleftrightarrow> or_empty (model_limits k) \<noteq> []) \<and>
     (cross_group_retry k \<longrightarrow> key_group k = Some (js ''auto''))"

lemma or_empty_simps [simp]: "or_empty (Some s) = s" "or_empty None = []"
  by (simp_all add: or_empty_def str_or_def)


definition sample_key :: api_key where
  "sample_key = \<lparr>key_name = js ''k'', remain_quota = Fin 1234567, expired_time = Fin 1900000000, unlimited_quota = False,
     model_limits_enabled = True, model_limits = Some (js ''a,b''), allow_ips = None, key_group = Some (js ''auto''),
     cross_group_retry = True\<rparr>"


end
