(* ===== verification/RedemptionForm.thy ===== *)
theory RedemptionForm
  imports KeyForm
begin

text \<open>
  Redemption codes: the form and its conversion both ways (features/redemption-codes/lib/redemption-form.ts,
  constants.ts), and when a code counts as expired and how a file of codes is named (lib/utils.ts).
\<close>

definition RT_QUOTA :: jstr where "RT_QUOTA = js ''quota''"
definition RT_SUBSCRIPTION :: jstr where "RT_SUBSCRIPTION = js ''subscription''"
definition RT_BLIND_BOX :: jstr where "RT_BLIND_BOX = js ''blind_box''"
definition WALLET_DEFAULT :: jstr where "WALLET_DEFAULT = js ''default''"
definition WALLET_CLAUDE :: jstr where "WALLET_CLAUDE = js ''claude''"

record redemption =
  rd_name :: jstr
  rd_type :: jstr
  rd_quota :: jsnum
  rd_wallet :: jstr
  rd_plan :: jsnum
  rd_boxes :: jsnum
  rd_expired :: jsnum

record redemption_form =
  rf_name :: jstr
  rf_type :: jstr
  rf_wallet :: jstr
  rf_dollars :: jsnum
  rf_plan :: "jsnum option"
  rf_boxes :: "jsnum option"
  rf_expired :: "jsnum option"
  rf_count :: "jsnum option"

record redemption_payload =
  rp_name :: jstr
  rp_type :: jstr
  rp_wallet :: jstr
  rp_quota :: jsnum
  rp_plan :: jsnum
  rp_boxes :: jsnum
  rp_expired :: jsnum
  rp_count :: jsnum

definition REDEMPTION_FORM_DEFAULT_VALUES :: redemption_form where
  "REDEMPTION_FORM_DEFAULT_VALUES = \<lparr>rf_name = [], rf_type = RT_QUOTA, rf_wallet = WALLET_DEFAULT, rf_dollars = Fin 10,
     rf_plan = None, rf_boxes = Some (Fin 1), rf_expired = None, rf_count = Some (Fin 1)\<rparr>"

text \<open>The schema's own rule: the fields it marks.\<close>

definition positive_field :: "jsnum option \<Rightarrow> bool" where
  "positive_field x = (case x of Some v \<Rightarrow> num_truthy v \<and> \<not> num_le v (Fin 0) | None \<Rightarrow> False)"

definition redemption_issues :: "redemption_form \<Rightarrow> jstr list" where
  "redemption_issues v =
     (if rf_type v = RT_QUOTA \<and> num_le (rf_dollars v) (Fin 0) then [js ''quota_dollars''] else []) @
     (if rf_type v = RT_SUBSCRIPTION \<and> \<not> positive_field (rf_plan v) then [js ''plan_id''] else []) @
     (if rf_type v = RT_BLIND_BOX \<and> \<not> positive_field (rf_boxes v) then [js ''blind_box_quantity''] else [])"

definition redemption_form_payload :: "config_state \<Rightarrow> redemption_form \<Rightarrow> redemption_payload" where
  "redemption_form_payload st v =
     (let isSubscription = (rf_type v = RT_SUBSCRIPTION); isBlindBox = (rf_type v = RT_BLIND_BOX)
      in \<lparr>rp_name = rf_name v, rp_type = rf_type v,
          rp_wallet = (if isSubscription \<or> isBlindBox then WALLET_DEFAULT else rf_wallet v),
          rp_quota = (if isSubscription \<or> isBlindBox then Fin 0 else parseQuotaFromDollars st (rf_dollars v)),
          rp_plan = (if isSubscription then or_zero (rf_plan v) else Fin 0),
          rp_boxes = (if isBlindBox then or_zero (rf_boxes v) else Fin 0),
          rp_expired = (case rf_expired v of Some d \<Rightarrow> unix_of_date d | None \<Rightarrow> Fin 0),
          rp_count = (case rf_count v of Some c \<Rightarrow> if num_truthy c then c else Fin 1 | None \<Rightarrow> Fin 1)\<rparr>)"

definition transformRedemptionToFormDefaults :: "config_state \<Rightarrow> redemption \<Rightarrow> redemption_form" where
  "transformRedemptionToFormDefaults st r = \<lparr>rf_name = rd_name r,
     rf_type = (if rd_type r = RT_SUBSCRIPTION then RT_SUBSCRIPTION
       else if rd_type r = RT_BLIND_BOX then RT_BLIND_BOX else RT_QUOTA),
     rf_wallet = (if rd_wallet r = WALLET_CLAUDE then WALLET_CLAUDE else WALLET_DEFAULT),
     rf_dollars = (if rd_type r = RT_SUBSCRIPTION \<or> rd_type r = RT_BLIND_BOX then Fin 0
       else quotaUnitsToDollars st (rd_quota r)),
     rf_plan = (if num_lt (Fin 0) (rd_plan r) then Some (rd_plan r) else None),
     rf_boxes = Some (if num_lt (Fin 0) (rd_boxes r) then rd_boxes r else Fin 1),
     rf_expired = (if num_lt (Fin 0) (rd_expired r) then Some (date_of_unix (rd_expired r)) else None),
     rf_count = Some (Fin 1)\<rparr>"

section \<open>Expiry and file names\<close>

text \<open>\<open>now\<close> is Date.now(), in milliseconds.\<close>

definition isTimestampExpired :: "jsnum \<Rightarrow> jsnum \<Rightarrow> bool" where
  "isTimestampExpired now t = (if is_zero t then False else num_lt t (num_div now (Fin 1000)))"

definition isRedemptionExpired :: "jsnum \<Rightarrow> jsnum \<Rightarrow> jsnum \<Rightarrow> bool" where
  "isRedemptionExpired now t status \<longleftrightarrow> num_eq status (Fin 1) \<and> isTimestampExpired now t"

text \<open>A run of units of one kind becomes one unit.\<close>

function squeeze :: "(int \<Rightarrow> bool) \<Rightarrow> int \<Rightarrow> jstr \<Rightarrow> jstr" where
  "squeeze P u [] = []"
| "squeeze P u (c # s) = (if P c then u # squeeze P u (dropWhile P s) else c # squeeze P u s)"
  by pat_completeness auto

termination squeeze
  by (relation "measure (\<lambda>(P, u, s). length s)") (auto simp: le_imp_less_Suc length_dropWhile_le)

definition filename_reserved :: "int \<Rightarrow> bool" where
  "filename_reserved c \<longleftrightarrow> c \<in> set [92, 47, 58, 42, 63, 34, 60, 62, 124]"

definition sanitizeRedemptionFilename :: "jstr \<Rightarrow> jstr \<Rightarrow> jstr" where
  "sanitizeRedemptionFilename v fallback =
     (let n = trim (squeeze is_ws 32 (squeeze filename_reserved 45 (trim v))) in if n = [] then fallback else n)"

section \<open>Editing a code\<close>

text \<open>A stored code the form can hold.\<close>

definition redemption_ok :: "redemption \<Rightarrow> int \<Rightarrow> int \<Rightarrow> bool" where
  "redemption_ok r u t \<longleftrightarrow> rd_quota r = Fin (of_int u) \<and> \<bar>u\<bar> \<le> 2 ^ 49 \<and> rd_expired r = Fin (of_int t) \<and> 0 \<le> t \<and>
     t \<le> 8640000000000 \<and> rd_type r \<in> {RT_QUOTA, RT_SUBSCRIPTION, RT_BLIND_BOX} \<and> rd_wallet r \<in> {WALLET_DEFAULT, WALLET_CLAUDE} \<and>
     (rd_type r \<noteq> RT_QUOTA \<longrightarrow> u = 0 \<and> rd_wallet r = WALLET_DEFAULT) \<and>
     (if rd_type r = RT_SUBSCRIPTION then num_lt (Fin 0) (rd_plan r) else rd_plan r = Fin 0) \<and>
     (if rd_type r = RT_BLIND_BOX then num_lt (Fin 0) (rd_boxes r) else rd_boxes r = Fin 0)"

lemma redemption_types_distinct [simp]: "RT_QUOTA \<noteq> RT_SUBSCRIPTION" "RT_QUOTA \<noteq> RT_BLIND_BOX" "RT_SUBSCRIPTION \<noteq> RT_BLIND_BOX"
  "WALLET_DEFAULT \<noteq> WALLET_CLAUDE" "RT_SUBSCRIPTION \<noteq> RT_QUOTA" "RT_BLIND_BOX \<noteq> RT_QUOTA" "RT_BLIND_BOX \<noteq> RT_SUBSCRIPTION"
  "WALLET_CLAUDE \<noteq> WALLET_DEFAULT"
  by (simp_all add: RT_QUOTA_def RT_SUBSCRIPTION_def RT_BLIND_BOX_def WALLET_DEFAULT_def WALLET_CLAUDE_def)

lemma positive_or_zero: "num_lt (Fin 0) x \<Longrightarrow> or_zero (Some x) = x"
  by (cases x) (auto simp: or_zero_def num_lt_def)

text \<open>Opening a code and saving it unchanged sends the stored code back: type, wallet, quota to the unit, plan, boxes and expiry
  to the second, for codes of the three types whose other fields are those of the type. A value the server sends
  with a type has no effect on the fields of the other types.\<close>

theorem redemption_edit_roundtrip:
  assumes "redemption_ok r u t" "rate_ok (quotaPerUnit (getConfig st))" "meta_ok (getDisplayMeta (getConfig st))"
  shows "redemption_form_payload st (transformRedemptionToFormDefaults st r) =
    \<lparr>rp_name = rd_name r, rp_type = rd_type r, rp_wallet = rd_wallet r, rp_quota = rd_quota r, rp_plan = rd_plan r,
     rp_boxes = rd_boxes r, rp_expired = rd_expired r, rp_count = Fin 1\<rparr>"
proof -
  note ok = assms(1) [unfolded redemption_ok_def]
  have b: "\<bar>u\<bar> \<le> 2 ^ 49" and t: "0 \<le> t" "t \<le> 8640000000000" using ok by blast+
  have q: "parseQuotaFromDollars st (quotaUnitsToDollars st (rd_quota r)) = rd_quota r"
    using quota_units_return [OF assms(2,3) b] ok by simp
  have e: "rp_expired (redemption_form_payload st (transformRedemptionToFormDefaults st r)) = rd_expired r"
    using ok unix_round_trip [OF t] t
    by (cases "t = 0") (simp_all add: redemption_form_payload_def transformRedemptionToFormDefaults_def Let_def)
  consider (quota) "rd_type r = RT_QUOTA" | (sub) "rd_type r = RT_SUBSCRIPTION" | (box) "rd_type r = RT_BLIND_BOX" using ok by blast
  then show ?thesis
    using ok q e positive_or_zero
    by cases (auto simp: redemption_form_payload_def transformRedemptionToFormDefaults_def Let_def)
qed

definition sample_code :: redemption where
  "sample_code = \<lparr>rd_name = js ''c'', rd_type = RT_QUOTA, rd_quota = Fin 700001, rd_wallet = WALLET_CLAUDE, rd_plan = Fin 0,
     rd_boxes = Fin 0, rd_expired = Fin 1900000000\<rparr>"

theorem redemption_edit_roundtrip_witness:
  "rp_quota (redemption_form_payload cny_store (transformRedemptionToFormDefaults cny_store sample_code)) = Fin 700001"
proof -
  have "redemption_ok sample_code 700001 1900000000" by (simp add: redemption_ok_def sample_code_def)
  then show ?thesis using redemption_edit_roundtrip [of sample_code 700001 1900000000 cny_store] cny_rates
    by (simp add: sample_code_def)
qed

text \<open>A saved code has the fields of its type and no others: for any form value that passes the form's rule, a code of type
  subscription has a plan and neither quota nor boxes, one of type blind box has boxes and neither, both are paid to the
  default wallet, and a quota code has no plan and no boxes.\<close>

theorem payload_fields_of_type:
  assumes "redemption_issues v = []"
  shows "let p = redemption_form_payload st v in
    (rp_type p = RT_SUBSCRIPTION \<longrightarrow> num_truthy (rp_plan p) \<and> rp_quota p = Fin 0 \<and> rp_boxes p = Fin 0 \<and> rp_wallet p = WALLET_DEFAULT) \<and>
    (rp_type p = RT_BLIND_BOX \<longrightarrow> num_truthy (rp_boxes p) \<and> rp_quota p = Fin 0 \<and> rp_plan p = Fin 0 \<and> rp_wallet p = WALLET_DEFAULT) \<and>
    (rp_type p = RT_QUOTA \<longrightarrow> rp_plan p = Fin 0 \<and> rp_boxes p = Fin 0 \<and> rp_wallet p = rf_wallet v) \<and> num_truthy (rp_count p)"
  using assms
  by (auto simp: redemption_issues_def redemption_form_payload_def Let_def positive_field_def or_zero_def split: if_splits option.splits)

theorem payload_fields_of_type_witness:
  "rp_wallet (redemption_form_payload cny_store (REDEMPTION_FORM_DEFAULT_VALUES\<lparr>rf_type := RT_BLIND_BOX, rf_wallet := WALLET_CLAUDE\<rparr>)) =
     WALLET_DEFAULT"
proof -
  have i: "redemption_issues (REDEMPTION_FORM_DEFAULT_VALUES\<lparr>rf_type := RT_BLIND_BOX, rf_wallet := WALLET_CLAUDE\<rparr>) = []"
    by (simp add: redemption_issues_def REDEMPTION_FORM_DEFAULT_VALUES_def positive_field_def)
  show ?thesis using payload_fields_of_type [OF i, of cny_store] by (simp add: redemption_form_payload_def Let_def)
qed

text \<open>A file name made of any text has no reserved character, and the fallback stands for nothing left.\<close>

lemma squeeze_free: "\<not> P u \<Longrightarrow> c \<in> set (squeeze P u s) \<Longrightarrow> \<not> P c"
proof (induction P u s rule: squeeze.induct)
  case (2 P u c s)
  then show ?case by (cases "P c") auto
qed simp

lemma squeeze_set: "set (squeeze P u s) \<subseteq> insert u (set s)"
proof (induction P u s rule: squeeze.induct)
  case (2 P u c s)
  have "set (dropWhile P s) \<subseteq> set s" by (auto dest: set_dropWhileD)
  then show ?case using 2 by (cases "P c") auto
qed simp

lemma filename_plain:
  assumes "fallback \<noteq> []" "\<forall>c \<in> set fallback. \<not> filename_reserved c"
  shows "sanitizeRedemptionFilename v fallback \<noteq> [] \<and> (\<forall>c \<in> set (sanitizeRedemptionFilename v fallback). \<not> filename_reserved c)"
proof -
  let ?a = "squeeze filename_reserved 45 (trim v)"
  have "\<forall>c \<in> set ?a. \<not> filename_reserved c" using squeeze_free [of filename_reserved 45] by (auto simp: filename_reserved_def)
  moreover have "\<not> filename_reserved 32" by (simp add: filename_reserved_def)
  ultimately have "\<forall>c \<in> set (trim (squeeze is_ws 32 ?a)). \<not> filename_reserved c"
    using squeeze_set [of is_ws 32 ?a] set_trim [of "squeeze is_ws 32 ?a"] by blast
  then show ?thesis using assms by (simp add: sanitizeRedemptionFilename_def Let_def)
qed

end
