(* ===== verification/SubscriptionPlan.thy ===== *)
theory SubscriptionPlan
  imports Currency
begin

text \<open>
  Subscription plans: the quota amounts, texts and kinds of plan of features/subscriptions/lib/display.ts, the durations of
  lib/format.ts, and the plan form of lib/plan-form.ts with its conversion both ways. The translations \<open>t\<close> of the
  durations are a parameter.
\<close>

section \<open>Quota amounts\<close>

definition getSubscriptionQuotaPerUnit :: "config_state \<Rightarrow> jsnum" where
  "getSubscriptionQuotaPerUnit st = (let q = quotaPerUnit (fst (getCurrencyDisplay st));
       n = (if num_truthy q then q else Fin 0) in if num_lt (Fin 0) n then n else Fin 500000)"

text \<open>\<open>Number(x || 0)\<close> of an optional number.\<close>

definition number_or_0 :: "jsnum option \<Rightarrow> jsnum" where
  "number_or_0 x = (case x of Some v \<Rightarrow> if num_truthy v then v else Fin 0 | None \<Rightarrow> Fin 0)"

definition subscriptionQuotaUnitsToUSD :: "config_state \<Rightarrow> jsnum option \<Rightarrow> jsnum" where
  "subscriptionQuotaUnitsToUSD st amount = num_div (number_or_0 amount) (getSubscriptionQuotaPerUnit st)"

definition parseSubscriptionQuotaUSDToUnits :: "config_state \<Rightarrow> jsval \<Rightarrow> jsnum" where
  "parseSubscriptionQuotaUSDToUnits st amount = (let n = to_number (js_or amount (VNum (Fin 0))) in
     if \<not> is_finite n then Fin 0 else math_round (num_mul n (getSubscriptionQuotaPerUnit st)))"

section \<open>Number texts\<close>

text \<open>The replacements of formatNumber: a final .00, a final zero after one decimal, all final zeros, a final point.\<close>

definition drop_00 :: "jstr \<Rightarrow> jstr" where
  "drop_00 s = (if ends_with s (js ''.00'') then take (length s - 3) s else s)"

definition drop_one_zero :: "jstr \<Rightarrow> jstr" where
  "drop_one_zero s = (let n = length s in
     if 3 \<le> n \<and> s ! (n - 3) = 46 \<and> is_digit (s ! (n - 2)) \<and> s ! (n - 1) = 48 then butlast s else s)"

definition drop_zeros :: "jstr \<Rightarrow> jstr" where
  "drop_zeros s = rev (dropWhile (\<lambda>c. c = 48) (rev s))"

definition sub_formatNumber :: "jsnum \<Rightarrow> jstr" where
  "sub_formatNumber v = (let a = num_abs v in
     if is_zero a then js ''0''
     else if num_le (Fin 100) a then drop_00 (to_fixed v (if is_integer v then 0 else 2))
     else if num_le (Fin 1) a then drop_one_zero (drop_00 (to_fixed v 2))
     else if num_le (rnd (1 / 100)) a then strip_point (drop_zeros (to_fixed v 4))
     else strip_point (drop_zeros (to_fixed v 6)))"

text \<open>\<open>trimText\<close>: NUL characters go, then white space at the ends.\<close>

definition trimText :: "jstr option \<Rightarrow> jstr" where
  "trimText v = trim (filter (\<lambda>c. c \<noteq> 0) (str_or v []))"

definition normalizeSubscriptionText :: "jstr option \<Rightarrow> jstr" where
  "normalizeSubscriptionText v = trimText v"

definition is_letter :: "int \<Rightarrow> bool" where
  "is_letter c \<longleftrightarrow> (65 \<le> c \<and> c \<le> 90) \<or> (97 \<le> c \<and> c \<le> 122)"

definition is_han :: "int \<Rightarrow> bool" where
  "is_han c \<longleftrightarrow> 19968 \<le> c \<and> c \<le> 40959"

text \<open>A space between a letter and a Chinese character after it.\<close>

fun space_before_han :: "jstr \<Rightarrow> jstr" where
  "space_before_han (a # b # s) = (if is_letter a \<and> is_han b then a # 32 # space_before_han (b # s) else a # space_before_han (b # s))"
| "space_before_han s = s"

definition formatSubscriptionPlanTitle :: "jstr option \<Rightarrow> jstr" where
  "formatSubscriptionPlanTitle v = space_before_han (normalizeSubscriptionText v)"

text \<open>toUpperCase on ASCII letters, which the labels compared are made of.\<close>

definition upper :: "jstr \<Rightarrow> jstr" where
  "upper s = map (\<lambda>c. if 97 \<le> c \<and> c \<le> 122 then c - 32 else c) s"

definition getSubscriptionCurrencyLabel :: "jstr option \<Rightarrow> jstr" where
  "getSubscriptionCurrencyLabel c = (let n = upper (trimText c) in
     if n \<in> {js ''CNY'', js ''RMB''} then [165] else if n = js ''EUR'' then js ''EUR '' else js ''$'')"

definition formatSubscriptionPlanPrice :: "jsnum option \<Rightarrow> jstr option \<Rightarrow> jstr" where
  "formatSubscriptionPlanPrice amount c = getSubscriptionCurrencyLabel c @ sub_formatNumber (number_or_0 amount)"

definition formatSubscriptionQuotaAmount :: "config_state \<Rightarrow> jsnum option \<Rightarrow> jstr" where
  "formatSubscriptionQuotaAmount st amount = 36 # sub_formatNumber (subscriptionQuotaUnitsToUSD st amount)"

section \<open>Plans\<close>

record plan =
  pn_title :: "jstr option"
  pn_subtitle :: "jstr option"
  pn_price :: "jsnum option"
  pn_currency :: "jstr option"
  pn_unit :: "jstr option"
  pn_value :: "jsnum option"
  pn_custom_seconds :: "jsnum option"
  pn_reset :: "jstr option"
  pn_reset_seconds :: "jsnum option"
  pn_enabled :: "bool option"
  pn_internal :: "bool option"
  pn_sort :: "jsnum option"
  pn_max :: "jsnum option"
  pn_type :: "jstr option"
  pn_total :: "jsnum option"
  pn_period :: "jsnum option"
  pn_limits :: "jstr option"
  pn_upgrade :: "jstr option"
  pn_stripe :: "jstr option"
  pn_creem :: "jstr option"
  pn_fuel :: "bool option"
  pn_fuel_price :: "jsnum option"
  pn_fuel_min :: "jsnum option"
  pn_fuel_step :: "jsnum option"

text \<open>The words that mark a day pass: "day pass" and its Chinese name.\<close>

definition DAY_PASS_KEYWORDS :: "jstr list" where
  "DAY_PASS_KEYWORDS = [js ''day pass'', [26085, 21345]]"

definition isDayPassPlan :: "plan option \<Rightarrow> bool" where
  "isDayPassPlan p = (case p of None \<Rightarrow> False | Some q \<Rightarrow>
     if pn_type q = Some (js ''daily'') then True
     else if pn_unit q = Some (js ''day'') \<and> num_le (number_or_0 (pn_value q)) (Fin 2) then True
     else (let title = lower (normalizeSubscriptionText (pn_title q))
           in list_ex (\<lambda>k. str_includes title k) DAY_PASS_KEYWORDS))"

definition isMonthlyCardPlan :: "plan option \<Rightarrow> bool" where
  "isMonthlyCardPlan p = (case p of None \<Rightarrow> False | Some q \<Rightarrow>
     if isDayPassPlan p then False
     else if pn_type q = Some (js ''monthly'') then True
     else pn_unit q = Some (js ''month''))"

section \<open>Durations\<close>

text \<open>\<open>`${n} ${n === 1 ? t(one) : t(many)}`\<close> and the units of a custom time, largest first.\<close>

definition counted :: "(jstr \<Rightarrow> jstr) \<Rightarrow> jsnum \<Rightarrow> string \<Rightarrow> string \<Rightarrow> jstr" where
  "counted t n one many = num_str n @ [32] @ (if num_eq n (Fin 1) then t (js one) else t (js many))"

definition whole_units :: "jsnum \<Rightarrow> rat \<Rightarrow> jsnum" where
  "whole_units s k = math_floor (num_div s (Fin k))"

definition formatDuration :: "(jstr \<Rightarrow> jstr) \<Rightarrow> plan \<Rightarrow> jstr" where
  "formatDuration t p =
     (let unit = str_or (pn_unit p) (js ''month'');
          v = (case pn_value p of Some x \<Rightarrow> if num_truthy x then x else Fin 1 | None \<Rightarrow> Fin 1);
          one = num_eq v (Fin 1)
      in if unit = js ''custom'' then
           (let s = number_or_0 (pn_custom_seconds p) in
            if num_le (Fin 86400) s then counted t (whole_units s 86400) ''day'' ''days''
            else if num_le (Fin 3600) s then counted t (whole_units s 3600) ''hour'' ''hours''
            else counted t s ''second'' ''seconds'')
         else num_str v @ [32] @
           (if unit = js ''year'' then t (js (if one then ''year'' else ''years''))
            else if unit = js ''month'' then t (js (if one then ''month'' else ''months''))
            else if unit = js ''day'' then t (js (if one then ''day'' else ''days''))
            else if unit = js ''hour'' then t (js (if one then ''hour'' else ''hours''))
            else unit))"

definition formatResetPeriod :: "(jstr \<Rightarrow> jstr) \<Rightarrow> plan \<Rightarrow> jstr" where
  "formatResetPeriod t p =
     (let period = str_or (pn_reset p) (js ''never'') in
      if period = js ''daily'' then t (js ''Daily'')
      else if period = js ''weekly'' then t (js ''Weekly'')
      else if period = js ''monthly'' then t (js ''Monthly'')
      else if period = js ''custom'' then
        (let s = number_or_0 (pn_reset_seconds p) in
         if num_le (Fin 86400) s then counted t (whole_units s 86400) ''day'' ''days''
         else if num_le (Fin 3600) s then counted t (whole_units s 3600) ''hour'' ''hours''
         else if num_le (Fin 60) s then counted t (whole_units s 60) ''minute'' ''minutes''
         else counted t s ''second'' ''seconds'')
      else t (js ''No Reset''))"

section \<open>The plan form\<close>

record plan_form =
  f_title :: jstr
  f_subtitle :: jstr
  f_price :: jsnum
  f_currency :: jstr
  f_unit :: jstr
  f_value :: jsnum
  f_custom_seconds :: jsnum
  f_reset :: jstr
  f_reset_seconds :: jsnum
  f_enabled :: bool
  f_internal :: bool
  f_sort :: jsnum
  f_max :: jsnum
  f_total :: jsnum
  f_period :: jsnum
  f_limits :: jstr
  f_upgrade :: jstr
  f_stripe :: jstr
  f_creem :: jstr
  f_fuel :: bool
  f_fuel_price :: jsnum
  f_fuel_min :: jsnum
  f_fuel_step :: jsnum

definition isMonthlyCardPlanInput :: "jstr \<Rightarrow> jsnum \<Rightarrow> bool" where
  "isMonthlyCardPlanInput unit v \<longleftrightarrow> unit = js ''month'' \<and> num_eq (number_or_0 (Some v)) (Fin 1)"

definition PLAN_FORM_DEFAULTS :: plan_form where
  "PLAN_FORM_DEFAULTS = \<lparr>f_title = [], f_subtitle = [], f_price = Fin 0, f_currency = js ''CNY'', f_unit = js ''month'',
     f_value = Fin 1, f_custom_seconds = Fin 0, f_reset = js ''never'', f_reset_seconds = Fin 0, f_enabled = True,
     f_internal = False, f_sort = Fin 0, f_max = Fin 0, f_total = Fin 0, f_period = Fin 0, f_limits = [], f_upgrade = [],
     f_stripe = [], f_creem = [], f_fuel = False, f_fuel_price = Fin 0, f_fuel_min = Fin 0, f_fuel_step = Fin 0\<rparr>"

definition planToFormValues :: "config_state \<Rightarrow> plan \<Rightarrow> plan_form" where
  "planToFormValues st p = \<lparr>f_title = str_or (pn_title p) [], f_subtitle = str_or (pn_subtitle p) [],
     f_price = number_or_0 (pn_price p), f_currency = str_or (pn_currency p) (js ''USD''),
     f_unit = str_or (pn_unit p) (js ''month''),
     f_value = (case pn_value p of Some x \<Rightarrow> if num_truthy x then x else Fin 1 | None \<Rightarrow> Fin 1),
     f_custom_seconds = number_or_0 (pn_custom_seconds p), f_reset = str_or (pn_reset p) (js ''never''),
     f_reset_seconds = number_or_0 (pn_reset_seconds p), f_enabled = (pn_enabled p \<noteq> Some False),
     f_internal = (pn_internal p = Some True), f_sort = number_or_0 (pn_sort p), f_max = number_or_0 (pn_max p),
     f_total = subscriptionQuotaUnitsToUSD st (pn_total p), f_period = subscriptionQuotaUnitsToUSD st (pn_period p),
     f_limits = str_or (pn_limits p) [], f_upgrade = str_or (pn_upgrade p) [], f_stripe = str_or (pn_stripe p) [],
     f_creem = str_or (pn_creem p) [], f_fuel = (pn_fuel p = Some True), f_fuel_price = number_or_0 (pn_fuel_price p),
     f_fuel_min = subscriptionQuotaUnitsToUSD st (pn_fuel_min p),
     f_fuel_step = subscriptionQuotaUnitsToUSD st (pn_fuel_step p)\<rparr>"

text \<open>The payload has the fields of a plan but its type.\<close>

definition formValuesToPlanPayload :: "config_state \<Rightarrow> plan_form \<Rightarrow> plan" where
  "formValuesToPlanPayload st v =
     (let card = isMonthlyCardPlanInput (f_unit v) (number_or_0 (Some (f_value v)));
          periodUSD = (if card then Fin 0 else number_or_0 (Some (f_period v)));
          reset = (if card then js ''never'' else if f_reset v = [] then js ''never'' else f_reset v)
      in \<lparr>pn_title = Some (f_title v), pn_subtitle = Some (f_subtitle v), pn_price = Some (number_or_0 (Some (f_price v))),
          pn_currency = Some (str_or (Some (f_currency v)) (js ''USD'')), pn_unit = Some (f_unit v),
          pn_value = Some (number_or_0 (Some (f_value v))),
          pn_custom_seconds = Some (number_or_0 (Some (f_custom_seconds v))), pn_reset = Some reset,
          pn_reset_seconds = Some (if reset = js ''custom'' then number_or_0 (Some (f_reset_seconds v)) else Fin 0),
          pn_enabled = Some (f_enabled v), pn_internal = Some (f_internal v),
          pn_sort = Some (number_or_0 (Some (f_sort v))), pn_max = Some (number_or_0 (Some (f_max v))), pn_type = None,
          pn_total = Some (parseSubscriptionQuotaUSDToUnits st (VNum (number_or_0 (Some (f_total v))))),
          pn_period = Some (parseSubscriptionQuotaUSDToUnits st (VNum periodUSD)),
          pn_limits = Some (f_limits v), pn_upgrade = Some (f_upgrade v), pn_stripe = Some (f_stripe v),
          pn_creem = Some (f_creem v), pn_fuel = Some (card \<and> f_fuel v),
          pn_fuel_price = Some (number_or_0 (Some (f_fuel_price v))),
          pn_fuel_min = Some (parseSubscriptionQuotaUSDToUnits st (VNum (f_fuel_min v))),
          pn_fuel_step = Some (parseSubscriptionQuotaUSDToUnits st (VNum (f_fuel_step v)))\<rparr>)"

section \<open>Quota units survive the form\<close>

lemma quota_per_unit_usable: "getSubscriptionQuotaPerUnit st = quotaPerUnit (getConfig st)"
proof -
  have "num_lt (Fin 0) (quotaPerUnit (getConfig st))" using getConfig_positive(1) by (simp add: positive_num_def)
  moreover have "num_lt (Fin 0) x \<Longrightarrow> num_truthy x" for x by (cases x) (auto simp: num_lt_def)
  ultimately show ?thesis by (simp add: getSubscriptionQuotaPerUnit_def getCurrencyDisplay_def Let_def)
qed

lemma number_or_0_Fin [simp]: "number_or_0 (Some (Fin q)) = Fin q"
  by (simp add: number_or_0_def)

lemma parse_number [simp]: "parseSubscriptionQuotaUSDToUnits st (VNum (number_or_0 (Some x))) = parseSubscriptionQuotaUSDToUnits st (VNum x)"
  by (simp add: parseSubscriptionQuotaUSDToUnits_def js_or_def number_or_0_def)

lemma rate_ok_one: "rate_ok (Fin 1)"
  by (simp add: rate_ok_def within_bits_def)

lemma subscription_units_return:
  assumes "rate_ok (quotaPerUnit (getConfig st))" "\<bar>u\<bar> \<le> 2 ^ 49"
  shows "parseSubscriptionQuotaUSDToUnits st (VNum (subscriptionQuotaUnitsToUSD st (Some (Fin (of_int u))))) = Fin (of_int u)"
proof -
  let ?q = "quotaPerUnit (getConfig st)"
  obtain a where a: "?q = Fin a" "0 < a" "within_bits 100 a" by (rule rate_okE [OF assms(1)])
  have usd: "subscriptionQuotaUnitsToUSD st (Some (Fin (of_int u))) = num_div (Fin (of_int u)) ?q"
    by (simp add: subscriptionQuotaUnitsToUSD_def quota_per_unit_usable)
  show ?thesis
  proof (cases "u = 0")
    case True
    have "num_div (Fin 0) ?q = Fin 0" "num_mul (Fin 0) ?q = Fin 0"
      using a by (simp_all add: num_div_def num_mul_def is_zero_def signed_zero_def)
    then show ?thesis using True usd math_round_whole [of 0]
      by (simp add: parseSubscriptionQuotaUSDToUnits_def js_or_def quota_per_unit_usable)
  next
    case False
    have w0: "within_bits 49 (of_int u)" by (rule within_int [OF False assms(2)])
    have w1: "within_bits 149 (of_int u / a)" using within_mult [OF w0 within_inverse [OF a(3)]] by simp
    have a0: "a \<noteq> 0" using a(2) by simp
    have n1: "near 1 (of_int u / a) (num_div (Fin (of_int u)) ?q)"
      using near_div [OF near_exact _ a0 within_mono [OF w1]] a(1) by simp
    have e: "of_int u / a * a = of_int u" using a0 by simp
    have n2: "near 2 (of_int u) (num_mul (num_div (Fin (of_int u)) ?q) ?q)"
      using near_mul [OF n1 _ a0, unfolded e, OF _ within_mono [OF w0]] a(1) by (simp add: numeral_2_eq_2)
    obtain v where v: "num_div (Fin (of_int u)) ?q = Fin v" using n1 by (auto simp: near_def)
    have "v \<noteq> 0"
    proof
      assume "v = 0"
      then have "num_mul (num_div (Fin (of_int u)) ?q) ?q = Fin 0"
        using v a by (simp add: num_mul_def is_zero_def signed_zero_def)
      then have "math_round (Fin 0) = Fin (of_int u)" using math_round_near [OF n2 _ assms(2) False] by simp
      then show False using False math_round_whole [of 0] by simp
    qed
    then show ?thesis using math_round_near [OF n2 _ assms(2) False] v usd
      by (simp add: parseSubscriptionQuotaUSDToUnits_def js_or_def quota_per_unit_usable)
  qed
qed

text \<open>A plan as the form saves it: its amounts are whole units of at most 2^49, its numbers are numbers, a monthly card has no reset and no period
  amount, only a monthly card sells fuel, and the seconds of a reset belong to the custom period.\<close>

definition whole_quota :: "jsnum option \<Rightarrow> bool" where
  "whole_quota x = (case x of Some (Fin q) \<Rightarrow> q = of_int \<lfloor>q\<rfloor> \<and> \<bar>\<lfloor>q\<rfloor>\<bar> \<le> 2 ^ 49 | _ \<Rightarrow> False)"

definition plain_amount :: "jsnum option \<Rightarrow> bool" where
  "plain_amount x = (case x of Some (Fin q) \<Rightarrow> True | _ \<Rightarrow> False)"

definition monthly_card :: "plan \<Rightarrow> bool" where
  "monthly_card p \<longleftrightarrow> pn_unit p = Some (js ''month'') \<and> pn_value p = Some (Fin 1)"

definition plan_ok :: "plan \<Rightarrow> bool" where
  "plan_ok p \<longleftrightarrow>
     list_all whole_quota [pn_total p, pn_period p, pn_fuel_min p, pn_fuel_step p] \<and>
     list_all plain_amount [pn_price p, pn_value p, pn_custom_seconds p, pn_reset_seconds p, pn_sort p, pn_max p, pn_fuel_price p] \<and>
     list_all (\<lambda>x. x \<noteq> None) [pn_title p, pn_subtitle p, pn_limits p, pn_upgrade p, pn_stripe p, pn_creem p] \<and>
     list_all (\<lambda>x. x \<noteq> None \<and> x \<noteq> Some []) [pn_currency p, pn_unit p, pn_reset p] \<and>
     pn_value p \<noteq> Some (Fin 0) \<and> pn_enabled p \<noteq> None \<and> pn_internal p \<noteq> None \<and> pn_fuel p \<noteq> None \<and> pn_type p = None \<and>
     (monthly_card p \<longrightarrow> pn_reset p = Some (js ''never'') \<and> pn_period p = Some (Fin 0)) \<and>
     (\<not> monthly_card p \<longrightarrow> pn_fuel p = Some False) \<and>
     (pn_reset p \<noteq> Some (js ''custom'') \<longrightarrow> pn_reset_seconds p = Some (Fin 0))"

lemma whole_quotaE: assumes "whole_quota x" obtains u where "x = Some (Fin (of_int u))" "\<bar>u\<bar> \<le> 2 ^ 49"
proof -
  obtain q where q: "x = Some (Fin q)" "q = of_int \<lfloor>q\<rfloor>" "\<bar>\<lfloor>q\<rfloor>\<bar> \<le> 2 ^ 49"
    using assms by (auto simp: whole_quota_def split: option.splits jsnum.splits)
  have "x = Some (Fin (of_int \<lfloor>q\<rfloor>))" using q(1) q(2) by simp
  then show ?thesis using that q(3) by blast
qed

lemma whole_quota_returns: "whole_quota x \<Longrightarrow> rate_ok (quotaPerUnit (getConfig st)) \<Longrightarrow>
    Some (parseSubscriptionQuotaUSDToUnits st (VNum (subscriptionQuotaUnitsToUSD st x))) = x"
  using subscription_units_return by (auto elim!: whole_quotaE)

lemma plain_amountE: assumes "plain_amount x" obtains q where "x = Some (Fin q)"
  using assms by (auto simp: plain_amount_def split: option.splits jsnum.splits)

lemma plain_amount_keeps: "plain_amount x \<Longrightarrow> Some (number_or_0 x) = x"
  by (auto elim: plain_amountE)

lemma text_keeps: "x \<noteq> None \<Longrightarrow> Some (str_or x []) = x" "x \<noteq> None \<and> x \<noteq> Some [] \<Longrightarrow> Some (str_or x d) = x"
  by (auto simp: str_or_def)

lemma parse_zero: "rate_ok (quotaPerUnit (getConfig st)) \<Longrightarrow> parseSubscriptionQuotaUSDToUnits st (VNum (Fin 0)) = Fin 0"
  by (auto elim!: rate_okE simp: parseSubscriptionQuotaUSDToUnits_def js_or_def quota_per_unit_usable num_mul_def is_zero_def
      signed_zero_def Let_def)


definition sample_plan :: plan where
  "sample_plan = \<lparr>pn_title = Some (js ''Pro''), pn_subtitle = Some [], pn_price = Some (Fin 99), pn_currency = Some (js ''CNY''),
     pn_unit = Some (js ''month''), pn_value = Some (Fin 1), pn_custom_seconds = Some (Fin 0), pn_reset = Some (js ''never''),
     pn_reset_seconds = Some (Fin 0), pn_enabled = Some True, pn_internal = Some False, pn_sort = Some (Fin 3),
     pn_max = Some (Fin 0), pn_type = None, pn_total = Some (Fin 7654321), pn_period = Some (Fin 0), pn_limits = Some [],
     pn_upgrade = Some (js ''vip''), pn_stripe = Some [], pn_creem = Some [], pn_fuel = Some True, pn_fuel_price = Some (Fin 2),
     pn_fuel_min = Some (Fin 333333), pn_fuel_step = Some (Fin 1)\<rparr>"


text \<open>What a monthly card is, is decided by the form: for any form values, a plan of one month is saved without a
  reset and without a period amount, seconds of a reset are saved only for the custom period, and fuel is enabled only
  on a monthly card.\<close>

theorem monthly_card_rules:
  assumes "rate_ok (quotaPerUnit (getConfig st))"
  shows "let p = formValuesToPlanPayload st v; card = isMonthlyCardPlanInput (f_unit v) (f_value v) in
    (card \<longrightarrow> pn_reset p = Some (js ''never'') \<and> pn_period p = Some (Fin 0) \<and> pn_reset_seconds p = Some (Fin 0)) \<and>
    (\<not> card \<longrightarrow> pn_fuel p = Some False) \<and>
    (pn_reset p \<noteq> Some (js ''custom'') \<longrightarrow> pn_reset_seconds p = Some (Fin 0)) \<and>
    pn_reset p \<noteq> Some []"
proof -
  have "number_or_0 (Some (number_or_0 (Some x))) = number_or_0 (Some x)" for x by (simp add: number_or_0_def)
  then show ?thesis using parse_zero [OF assms]
    by (auto simp: formValuesToPlanPayload_def Let_def isMonthlyCardPlanInput_def)
qed

theorem monthly_card_rules_witness:
  "pn_reset (formValuesToPlanPayload cny_store (PLAN_FORM_DEFAULTS\<lparr>f_reset := js ''daily''\<rparr>)) = Some (js ''never'')"
proof -
  have "isMonthlyCardPlanInput (js ''month'') (Fin 1)" by (simp add: isMonthlyCardPlanInput_def)
  then show ?thesis
    using monthly_card_rules [of cny_store "PLAN_FORM_DEFAULTS\<lparr>f_reset := js ''daily''\<rparr>"] cny_rates(1)
    by (simp add: PLAN_FORM_DEFAULTS_def Let_def)
qed

end
