(* ===== verification/UserQuota.thy ===== *)
theory UserQuota
  imports Currency
begin

text \<open>
  Users: the user form (features/users/lib/user-form.ts), the loading of a user into the drawer
  (features/users/components/users-mutate-drawer.tsx) and the dialogs that adjust a quota
  (user-quota-dialogs.tsx, user-quota-dialog.tsx).

  The requests are effects of the handlers: a handler returns the payloads it sends, and the answers
  are handled when they arrive.
\<close>

section \<open>The user form\<close>

definition USER_DEFAULT_GROUP :: jstr where
  "USER_DEFAULT_GROUP = js ''default''"

record user =
  user_id :: int
  username :: jstr
  display_name :: jstr
  role :: jsnum
  quota :: jsnum
  claude_quota :: "jsnum option"
  user_group :: jstr
  remark :: "jstr option"

record user_form =
  uf_username :: jstr
  uf_display :: "jstr option"
  uf_password :: "jstr option"
  uf_role :: "jsnum option"
  uf_dollars :: "jsnum option"
  uf_claude :: "jsnum option"
  uf_group :: "jstr option"
  uf_remark :: "jstr option"

text \<open>The payload: a field that is undefined or was never set is not sent.\<close>

record user_payload =
  up_username :: jstr
  up_display :: jstr
  up_password :: "jstr option"
  up_role :: "jsnum option"
  up_group :: "jstr option"
  up_remark :: "jstr option"
  up_id :: "int option"

definition USER_FORM_DEFAULT_VALUES :: user_form where
  "USER_FORM_DEFAULT_VALUES = \<lparr>uf_username = [], uf_display = Some [], uf_password = Some [], uf_role = Some (Fin 1),
     uf_dollars = Some (Fin 0), uf_claude = Some (Fin 0), uf_group = Some USER_DEFAULT_GROUP, uf_remark = Some []\<rparr>"

text \<open>\<open>s || undefined\<close>.\<close>

definition or_undefined :: "jstr option \<Rightarrow> jstr option" where
  "or_undefined s = (if s = Some [] then None else s)"

definition user_form_payload :: "user_form \<Rightarrow> int option \<Rightarrow> user_payload" where
  "user_form_payload v uid = \<lparr>up_username = uf_username v, up_display = str_or (uf_display v) (uf_username v),
     up_password = or_undefined (uf_password v),
     up_role = (case uid of Some _ \<Rightarrow> None
       | None \<Rightarrow> Some (case uf_role v of Some r \<Rightarrow> if num_truthy r then r else Fin 1 | None \<Rightarrow> Fin 1)),
     up_group = (case uid of Some _ \<Rightarrow> uf_group v | None \<Rightarrow> None),
     up_remark = (case uid of Some _ \<Rightarrow> or_undefined (uf_remark v) | None \<Rightarrow> None),
     up_id = uid\<rparr>"

definition transformUserToFormDefaults :: "config_state \<Rightarrow> user \<Rightarrow> user_form" where
  "transformUserToFormDefaults st u = \<lparr>uf_username = username u, uf_display = Some (display_name u), uf_password = Some [],
     uf_role = Some (role u), uf_dollars = Some (quotaUnitsToDollars st (quota u)),
     uf_claude = Some (quotaUnitsToDollars st
       (case claude_quota u of Some q \<Rightarrow> if num_truthy q then q else Fin 0 | None \<Rightarrow> Fin 0)),
     uf_group = Some (if user_group u = [] then USER_DEFAULT_GROUP else user_group u),
     uf_remark = Some (str_or (remark u) [])\<rparr>"

section \<open>The drawer\<close>

text \<open>The drawer shows one row; every opening asks for the user of the row, and each answer resets the form.\<close>

record drawer =
  d_open :: bool
  d_row :: "int option"
  d_form :: user_form
  d_asked :: "int list"

definition open_drawer :: "int option \<Rightarrow> drawer \<Rightarrow> drawer" where
  "open_drawer row d = (case row of
       Some i \<Rightarrow> d\<lparr>d_open := True, d_row := row, d_asked := d_asked d @ [i]\<rparr>
     | None \<Rightarrow> d\<lparr>d_open := True, d_row := None, d_form := USER_FORM_DEFAULT_VALUES\<rparr>)"

definition close_drawer :: "drawer \<Rightarrow> drawer" where
  "close_drawer d = d\<lparr>d_open := False\<rparr>"

text \<open>The answer to the k-th request under way: the user, or a failure.\<close>

definition user_arrived :: "config_state \<Rightarrow> nat \<Rightarrow> user option \<Rightarrow> drawer \<Rightarrow> drawer" where
  "user_arrived st k answer d = (case answer of
       Some u \<Rightarrow> d\<lparr>d_form := transformUserToFormDefaults st u, d_asked := take k (d_asked d) @ drop (Suc k) (d_asked d)\<rparr>
     | None \<Rightarrow> d\<lparr>d_asked := take k (d_asked d) @ drop (Suc k) (d_asked d)\<rparr>)"

definition drawer_submit :: "drawer \<Rightarrow> user_payload" where
  "drawer_submit d = user_form_payload (d_form d) (d_row d)"

section \<open>The quota dialog\<close>

datatype adjust_mode = Add | Subtract | Override

record quota_payload =
  qp_user :: int
  qp_action :: jstr
  qp_mode :: adjust_mode
  qp_value :: jsnum

record quota_dialog =
  qd_open :: bool
  qd_mode :: adjust_mode
  qd_amount :: jstr
  qd_loading :: bool
  qd_pending :: "quota_payload list"

definition amountValue :: "quota_dialog \<Rightarrow> jsnum" where
  "amountValue d = (let x = parse_float (qd_amount d) in if num_truthy x then x else Fin 0)"

definition quotaValue :: "config_state \<Rightarrow> quota_dialog \<Rightarrow> jsnum" where
  "quotaValue st d = parseQuotaFromDollars st (num_abs (amountValue d))"

text \<open>The current quota the dialogs pass: parsed back from the amount the form shows.\<close>

definition currentQuota :: "config_state \<Rightarrow> jsnum option \<Rightarrow> jsnum" where
  "currentQuota st shown = parseQuotaFromDollars st (or_zero shown)"

text \<open>What the preview shows: the current quota, the value and the result.\<close>

definition preview :: "config_state \<Rightarrow> jsnum \<Rightarrow> quota_dialog \<Rightarrow> jsnum" where
  "preview st current d = (case qd_mode d of
       Add \<Rightarrow> num_add current (quotaValue st d)
     | Subtract \<Rightarrow> num_sub current (quotaValue st d)
     | Override \<Rightarrow> parseQuotaFromDollars st (amountValue d))"

definition getPreviewText :: "intl \<Rightarrow> config_state \<Rightarrow> jstr \<Rightarrow> jsnum \<Rightarrow> quota_dialog \<Rightarrow> jstr" where
  "getPreviewText br st label current d =
     (let f = formatQuota br st; v = quotaValue st d in case qd_mode d of
       Add \<Rightarrow> label @ js '': '' @ f current @ js ''  +'' @ f v @ js '' = '' @ f (preview st current d)
     | Subtract \<Rightarrow> label @ js '': '' @ f current @ js ''  -'' @ f v @ js '' = '' @ f (preview st current d)
     | Override \<Rightarrow> label @ js '': '' @ f current @ js '' -> '' @ f (preview st current d))"

definition handleConfirm :: "config_state \<Rightarrow> int \<Rightarrow> jstr \<Rightarrow> quota_dialog \<Rightarrow> quota_dialog" where
  "handleConfirm st uid act d =
     (if qd_amount d = [] \<and> qd_mode d \<noteq> Override then d
      else if num_le (quotaValue st d) (Fin 0) \<and> qd_mode d \<noteq> Override then d
      else (let v = (if qd_mode d = Override then parseQuotaFromDollars st (amountValue d) else quotaValue st d)
            in d\<lparr>qd_loading := True, qd_pending := qd_pending d @ [\<lparr>qp_user = uid, qp_action = act, qp_mode = qd_mode d,
                 qp_value = (if qd_mode d = Override then v else num_abs v)\<rparr>]\<rparr>))"

text \<open>The confirm button is disabled while loading; the Enter key in the amount field is not.\<close>

definition press_button :: "config_state \<Rightarrow> int \<Rightarrow> jstr \<Rightarrow> quota_dialog \<Rightarrow> quota_dialog" where
  "press_button st uid act d = (if qd_loading d then d else handleConfirm st uid act d)"

definition press_enter :: "config_state \<Rightarrow> int \<Rightarrow> jstr \<Rightarrow> quota_dialog \<Rightarrow> quota_dialog" where
  "press_enter st uid act d = handleConfirm st uid act d"

text \<open>An answer of the server to the k-th request: success or not (a failure keeps the dialog as it is).\<close>

definition adjust_answered :: "nat \<Rightarrow> bool \<Rightarrow> quota_dialog \<Rightarrow> quota_dialog" where
  "adjust_answered k ok d = (let rest = take k (qd_pending d) @ drop (Suc k) (qd_pending d) in
     if ok then d\<lparr>qd_amount := [], qd_mode := Add, qd_open := False, qd_loading := False, qd_pending := rest\<rparr>
     else d\<lparr>qd_loading := False, qd_pending := rest\<rparr>)"

definition handleCancel :: "quota_dialog \<Rightarrow> quota_dialog" where
  "handleCancel d = d\<lparr>qd_amount := [], qd_mode := Add, qd_open := False\<rparr>"

definition select_mode :: "adjust_mode \<Rightarrow> quota_dialog \<Rightarrow> quota_dialog" where
  "select_mode m d = d\<lparr>qd_mode := m, qd_amount := []\<rparr>"

definition type_amount :: "jstr \<Rightarrow> quota_dialog \<Rightarrow> quota_dialog" where
  "type_amount s d = d\<lparr>qd_amount := s\<rparr>"

section \<open>What is sent\<close>

lemma math_round_nonneg: "num_lt (Fin 0) (math_round x) \<Longrightarrow> num_abs (math_round x) = math_round x"
  by (cases x) (auto simp: num_lt_def Let_def split: if_splits)

lemma parse_positive_abs: "num_lt (Fin 0) (parseQuotaFromDollars st x) \<Longrightarrow>
    num_abs (parseQuotaFromDollars st x) = parseQuotaFromDollars st x"
  unfolding parseQuotaFromDollars_def Let_def
  by (auto simp: math_round_nonneg simp del: math_round.simps split: if_splits prod.splits)

lemma math_round_not_nan: "x \<noteq> NaN \<Longrightarrow> math_round x \<noteq> NaN"
  by (cases x) (auto simp: Let_def)

text \<open>What the dialog shows is what it sends. When a confirmation sends a request, its user, action and mode are the dialog's, its value is
  what the preview computed with (the parsed amount, or the override), and the value of an addition or
  subtraction is positive unless it is not a number; otherwise the dialog does not change.\<close>

theorem adjust_sends_preview:
  "handleConfirm st uid act d = d \<and> qd_mode d \<noteq> Override \<and> (qd_amount d = [] \<or> num_le (quotaValue st d) (Fin 0)) \<or>
   (\<exists>p. qd_pending (handleConfirm st uid act d) = qd_pending d @ [p] \<and> qd_loading (handleConfirm st uid act d) \<and>
      qp_user p = uid \<and> qp_action p = act \<and> qp_mode p = qd_mode d \<and>
      (qd_mode d = Override \<longrightarrow> qp_value p = preview st current d) \<and>
      (qd_mode d \<noteq> Override \<longrightarrow> qp_value p = NaN \<or> num_lt (Fin 0) (qp_value p) \<and> qp_value p = quotaValue st d) \<and>
      (qd_mode d = Add \<and> quotaValue st d \<noteq> NaN \<longrightarrow> preview st current d = num_add current (qp_value p)) \<and>
      (qd_mode d = Subtract \<and> quotaValue st d \<noteq> NaN \<longrightarrow> preview st current d = num_sub current (qp_value p)))"
proof (cases "qd_mode d \<noteq> Override \<and> (qd_amount d = [] \<or> num_le (quotaValue st d) (Fin 0))")
  case True
  then show ?thesis by (auto simp: handleConfirm_def)
next
  case False
  let ?v = "if qd_mode d = Override then parseQuotaFromDollars st (amountValue d) else quotaValue st d"
  let ?p = "\<lparr>qp_user = uid, qp_action = act, qp_mode = qd_mode d, qp_value = (if qd_mode d = Override then ?v else num_abs ?v)\<rparr>"
  have h: "handleConfirm st uid act d = d\<lparr>qd_loading := True, qd_pending := qd_pending d @ [?p]\<rparr>"
    using False by (auto simp: handleConfirm_def Let_def)
  have pos: "qd_mode d \<noteq> Override \<Longrightarrow> quotaValue st d \<noteq> NaN \<Longrightarrow> num_lt (Fin 0) (quotaValue st d)"
    using False by (cases "quotaValue st d") (auto simp: num_le_def num_lt_def num_eq_def is_zero_def)
  have abs: "num_lt (Fin 0) (quotaValue st d) \<Longrightarrow> num_abs (quotaValue st d) = quotaValue st d"
    unfolding quotaValue_def by (rule parse_positive_abs)
  have val: "qd_mode d \<noteq> Override \<Longrightarrow> quotaValue st d = NaN \<or> (num_lt (Fin 0) (quotaValue st d) \<and> num_abs (quotaValue st d) = quotaValue st d)"
    using pos abs by blast
  show ?thesis
    by (rule disjI2, rule exI [of _ ?p], unfold h, cases "qd_mode d")
      (use val in \<open>auto simp: preview_def\<close>)
qed

text \<open>The quota the dialog starts from is the stored one: the drawer's form holds a displayed amount, and parsing it back
  gives the user's quota units (whole units up to 2^49, rates between 2^-100 and 2^100), so the result previewed for an addition is
  the stored quota plus the value sent, exactly while it stays below 2^53.\<close>

theorem dialog_starts_from_stored:
  assumes "rate_ok (quotaPerUnit (getConfig st))" "meta_ok (getDisplayMeta (getConfig st))"
    and "quota u = Fin (of_int q)" "\<bar>q\<bar> \<le> 2 ^ 49"
    and "qd_mode d = Add" "quotaValue st d = Fin (of_int v)" "\<bar>q + v\<bar> < 2 ^ 53"
  shows "currentQuota st (uf_dollars (transformUserToFormDefaults st u)) = quota u \<and>
    preview st (currentQuota st (uf_dollars (transformUserToFormDefaults st u))) d = Fin (of_int (q + v))"
proof -
  have "currentQuota st (uf_dollars (transformUserToFormDefaults st u)) = Fin (of_int q)"
    using or_zero_roundtrip [OF assms(1,2,4) quota_units_return [OF assms(1,2,4)]] assms(3)
    by (simp add: currentQuota_def transformUserToFormDefaults_def)
  then show ?thesis using assms(3,5,6) num_add_int [OF assms(7)] by (simp add: preview_def)
qed

definition sample_user :: user where
  "sample_user = \<lparr>user_id = 7, username = js ''ann'', display_name = js ''Ann'', role = Fin 1, quota = Fin 1000000,
     claude_quota = None, user_group = [], remark = None\<rparr>"

definition tokens_store :: config_state where
  "tokens_store = setConfig (no_patch\<lparr>p_currency := Some (empty_currency\<lparr>c_displayType := Some (js ''TOKENS'')\<rparr>)\<rparr>) initial_config_state"

definition sample_dialog :: quota_dialog where
  "sample_dialog = \<lparr>qd_open = True, qd_mode = Add, qd_amount = js ''25'', qd_loading = False, qd_pending = []\<rparr>"

theorem dialog_starts_from_stored_witness:
  "preview tokens_store (currentQuota tokens_store (uf_dollars (transformUserToFormDefaults tokens_store sample_user))) sample_dialog =
     Fin 1000025"
proof -
  have m: "getDisplayMeta (getConfig tokens_store) = MTokens (Fin 500000)" "quotaPerUnit (getConfig tokens_store) = Fin 500000"
    by code_simp+
  have r: "rate_ok (quotaPerUnit (getConfig tokens_store))" "meta_ok (getDisplayMeta (getConfig tokens_store))"
    unfolding m by (simp_all add: rate_ok_def within_bits_def meta_ok_def)
  have q: "quota sample_user = Fin (of_int 1000000)" by (simp add: sample_user_def)
  have v: "quotaValue tokens_store sample_dialog = Fin (of_int 25)" by code_simp
  have d: "qd_mode sample_dialog = Add" by (simp add: sample_dialog_def)
  have b: "\<bar>1000000 :: int\<bar> \<le> 2 ^ 49" "\<bar>1000000 + 25 :: int\<bar> < 2 ^ 53" by simp_all
  have "Fin (rat_of_int (1000000 + 25)) = Fin 1000025" by simp
  then show ?thesis using dialog_starts_from_stored [OF r q b(1) d v b(2)] by argo
qed

text \<open>Enter is not guarded by the loading state: pressed twice, the adjustment is sent twice. The button is.\<close>

lemma enter_sends_twice:
  "length (qd_pending (press_enter tokens_store 7 (js ''add_quota'') (press_enter tokens_store 7 (js ''add_quota'') sample_dialog))) = 2 \<and>
   length (qd_pending (press_button tokens_store 7 (js ''add_quota'') (press_button tokens_store 7 (js ''add_quota'') sample_dialog))) = 1"
proof -
  have v: "quotaValue tokens_store sample_dialog = Fin 25" by code_simp
  have v': "quotaValue tokens_store (sample_dialog\<lparr>qd_loading := b, qd_pending := ps\<rparr>) = Fin 25" for b ps
    using v by (simp add: quotaValue_def amountValue_def)
  show ?thesis using v v' by (simp add: press_enter_def press_button_def handleConfirm_def Let_def sample_dialog_def)
qed

text \<open>The drawer takes any answer: the one of the row opened before, when it comes last, fills the form of the row shown.\<close>

lemma late_user_fills_form:
  assumes "drawer_row = open_drawer (Some j) (close_drawer (open_drawer (Some i) d))" "d_asked d = []"
    and "user_id u = i" "user_id w = j"
  shows "let d2 = user_arrived st 0 (Some u) (user_arrived st 1 (Some w) drawer_row)
    in up_id (drawer_submit d2) = Some j \<and> up_username (drawer_submit d2) = username u"
  using assms by (simp add: open_drawer_def close_drawer_def user_arrived_def drawer_submit_def user_form_payload_def
      transformUserToFormDefaults_def Let_def)

end
