(* ===== verification/Pricing.thy ===== *)
theory Pricing
  imports Currency Regex
begin

text \<open>
  The model pricing page: the constants and model record (features/pricing/constants.ts, types.ts), the prices
  (lib/price.ts), the free models (lib/free-models.ts), the helpers (lib/model-helpers.ts) and
  the filters and orders of the list (lib/filters.ts). localeCompare is a parameter.
\<close>

section \<open>Constants and models\<close>

definition SORT_NAME :: jstr where "SORT_NAME = js ''name''"
definition SORT_PRICE_LOW :: jstr where "SORT_PRICE_LOW = js ''price-low''"
definition SORT_PRICE_HIGH :: jstr where "SORT_PRICE_HIGH = js ''price-high''"
definition FILTER_ALL :: jstr where "FILTER_ALL = js ''all''"
definition QUOTA_ALL :: jstr where "QUOTA_ALL = js ''all''"
definition QUOTA_TOKEN :: jstr where "QUOTA_TOKEN = js ''token''"
definition ENDPOINT_ALL :: jstr where "ENDPOINT_ALL = js ''all''"

definition EXCLUDED_GROUPS :: "jstr list" where
  "EXCLUDED_GROUPS = [[], js ''auto'']"

definition TYPE_TOKEN :: jsnum where "TYPE_TOKEN = Fin 0"
definition TYPE_REQUEST :: jsnum where "TYPE_REQUEST = Fin 1"

datatype token_unit = Unit_M | Unit_K

fun TOKEN_UNIT_DIVISORS :: "token_unit \<Rightarrow> jsnum" where
  "TOKEN_UNIT_DIVISORS Unit_M = Fin 1"
| "TOKEN_UNIT_DIVISORS Unit_K = Fin 1000"

text \<open>An optional number is None when it is undefined or null; the groups are None when they are no array.\<close>

record pricing_model =
  pm_name :: jstr
  pm_description :: "jstr option"
  pm_vendor :: "jstr option"
  pm_quota_type :: jsnum
  pm_ratio :: jsnum
  pm_completion_ratio :: jsnum
  pm_price :: "jsnum option"
  pm_cache_ratio :: "jsnum option"
  pm_create_cache_ratio :: "jsnum option"
  pm_image_ratio :: "jsnum option"
  pm_audio_ratio :: "jsnum option"
  pm_audio_completion_ratio :: "jsnum option"
  pm_groups :: "jstr list option"
  pm_tags :: "jstr option"
  pm_endpoints :: "jstr list option"
  pm_group_ratio :: "jsnum named option"
  pm_billing_mode :: "jstr option"
  pm_billing_expr :: "jstr option"

section \<open>Prices\<close>

definition enabled_groups :: "pricing_model \<Rightarrow> jstr list" where
  "enabled_groups m = the_or [] (pm_groups m)"

definition ratios_of :: "pricing_model \<Rightarrow> jsnum named" where
  "ratios_of m = the_or [] (pm_group_ratio m)"

definition min_step :: "jsnum named \<Rightarrow> jsnum \<Rightarrow> jstr \<Rightarrow> jsnum" where
  "min_step ratios acc g = (case named_get ratios g of Some r \<Rightarrow> if num_lt r acc then r else acc | None \<Rightarrow> acc)"

definition getMinGroupRatio :: "jstr list \<Rightarrow> jsnum named \<Rightarrow> jsnum" where
  "getMinGroupRatio gs ratios = (if gs = [] then Fin 1 else
     let r = foldl (min_step ratios) PosInf gs in if r = PosInf then Fin 1 else r)"

datatype price_type = Input | Output | Cache | Create_cache | Image | Audio_input | Audio_output

definition hasRatio :: "jsnum option \<Rightarrow> bool" where
  "hasRatio x = (case x of Some v \<Rightarrow> is_finite v | None \<Rightarrow> False)"

definition optional_price :: "jsnum \<Rightarrow> jsnum option \<Rightarrow> jsnum" where
  "optional_price base x = (if hasRatio x then num_mul base (the x) else NaN)"

definition calculateTokenPrice :: "pricing_model \<Rightarrow> price_type \<Rightarrow> jsnum \<Rightarrow> jsnum" where
  "calculateTokenPrice m t ratio = (let base = num_mul (num_mul (pm_ratio m) (Fin 2)) ratio in case t of
       Input \<Rightarrow> base
     | Output \<Rightarrow> num_mul base (pm_completion_ratio m)
     | Cache \<Rightarrow> optional_price base (pm_cache_ratio m)
     | Create_cache \<Rightarrow> optional_price base (pm_create_cache_ratio m)
     | Image \<Rightarrow> optional_price base (pm_image_ratio m)
     | Audio_input \<Rightarrow> optional_price base (pm_audio_ratio m)
     | Audio_output \<Rightarrow> (if hasRatio (pm_audio_ratio m) \<and> hasRatio (pm_audio_completion_ratio m)
         then num_mul (num_mul base (the (pm_audio_ratio m))) (the (pm_audio_completion_ratio m)) else NaN))"

definition applyRechargeRate :: "jsnum \<Rightarrow> bool \<Rightarrow> jsnum \<Rightarrow> jsnum \<Rightarrow> jsnum" where
  "applyRechargeRate price recharge priceRate usdRate =
     (if \<not> recharge then price else num_div (num_mul price priceRate) usdRate)"

text \<open>Whether recharge prices are shown, the price rate and the exchange rate.\<close>

type_synonym recharge = "bool \<times> jsnum \<times> jsnum"

definition recharged :: "recharge \<Rightarrow> jsnum \<Rightarrow> jsnum" where
  "recharged rc price = (case rc of (show_it, priceRate, usdRate) \<Rightarrow> applyRechargeRate price show_it priceRate usdRate)"

definition price_options :: "nat \<Rightarrow> format_patch option" where
  "price_options small = Some \<lparr>o_digitsLarge = Some 4, o_digitsSmall = Some small, o_abbreviate = Some False, o_minimumNonZero = None\<rparr>"

definition formatPrice :: "intl \<Rightarrow> config_state \<Rightarrow> pricing_model \<Rightarrow> price_type \<Rightarrow> token_unit \<Rightarrow> recharge \<Rightarrow> jstr" where
  "formatPrice br st m t unit rc = (if num_eq (pm_quota_type m) TYPE_REQUEST then js ''-'' else
     formatCurrencyFromUSD br st (Some (num_div
       (recharged rc (calculateTokenPrice m t (getMinGroupRatio (enabled_groups m) (ratios_of m)))) (TOKEN_UNIT_DIVISORS unit)))
       (price_options 6))"

text \<open>\<open>groupRatio[group] || 1\<close>.\<close>

definition group_ratio_or_1 :: "jsnum named \<Rightarrow> jstr \<Rightarrow> jsnum" where
  "group_ratio_or_1 ratios g = (case named_get ratios g of Some r \<Rightarrow> if num_truthy r then r else Fin 1 | None \<Rightarrow> Fin 1)"

definition formatGroupPrice :: "intl \<Rightarrow> config_state \<Rightarrow> pricing_model \<Rightarrow> jstr \<Rightarrow> price_type \<Rightarrow> token_unit \<Rightarrow> recharge \<Rightarrow> jsnum named \<Rightarrow> jstr" where
  "formatGroupPrice br st m g t unit rc ratios = (if num_eq (pm_quota_type m) TYPE_REQUEST then js ''-'' else
     formatCurrencyFromUSD br st (Some (num_div
       (recharged rc (calculateTokenPrice m t (group_ratio_or_1 ratios g))) (TOKEN_UNIT_DIVISORS unit))) (price_options 6))"

definition formatFixedPrice :: "intl \<Rightarrow> config_state \<Rightarrow> pricing_model \<Rightarrow> jstr \<Rightarrow> recharge \<Rightarrow> jsnum named \<Rightarrow> jstr" where
  "formatFixedPrice br st m g rc ratios = (if \<not> num_eq (pm_quota_type m) TYPE_REQUEST then js ''-'' else
     formatCurrencyFromUSD br st (Some (recharged rc (num_mul (or_zero (pm_price m)) (group_ratio_or_1 ratios g)))) (price_options 4))"

definition formatRequestPrice :: "intl \<Rightarrow> config_state \<Rightarrow> pricing_model \<Rightarrow> recharge \<Rightarrow> jstr" where
  "formatRequestPrice br st m rc = (if \<not> num_eq (pm_quota_type m) TYPE_REQUEST then js ''-'' else
     formatCurrencyFromUSD br st (Some (recharged rc
       (num_mul (or_zero (pm_price m)) (getMinGroupRatio (enabled_groups m) (ratios_of m))))) (price_options 4))"

text \<open>\<open>stripTrailingZeros\<close>: symbol, number and suffix of the formatted price.\<close>

definition price_pattern :: regex where
  "price_pattern = seq [Grp 1 (Star (Cls (\<lambda>c. \<not> is_digit c \<and> c \<noteq> 45))),
     Grp 2 (seq [Plus (Cls (\<lambda>c. c = 45 \<or> is_digit c \<or> c = 44)), Opt (lit ''.''), Star digit]), Grp 3 (Opt (lit ''k''))]"

text \<open>The replacement of \<open>/\.?0+$/\<close> by nothing.\<close>

definition drop_final_zeros :: "jstr \<Rightarrow> jstr" where
  "drop_final_zeros s = (let r = dropWhile (\<lambda>c. c = 48) (rev s) in
     if length r = length s then s else rev (if r \<noteq> [] \<and> hd r = 46 then tl r else r))"

definition stripTrailingZeros :: "jstr \<Rightarrow> jstr" where
  "stripTrailingZeros formatted = (case match_all price_pattern formatted of
       None \<Rightarrow> formatted
     | Some m \<Rightarrow> (let parsed = parse_float (filter (\<lambda>c. c \<noteq> 44) (cap m 2)) in
         if parsed = NaN then formatted
         else (let r = num_str parsed; r' = (if 101 \<in> set r then drop_final_zeros (to_fixed parsed 20) else r)
               in cap m 1 @ r' @ cap m 3)))"

section \<open>Free models and helpers\<close>

definition source_ratios :: "pricing_model \<Rightarrow> jsnum named option \<Rightarrow> jsnum named" where
  "source_ratios m ratios = (case ratios of Some r \<Rightarrow> r | None \<Rightarrow> ratios_of m)"

definition getEnabledGroupRatios :: "pricing_model \<Rightarrow> jsnum named option \<Rightarrow> jsnum list" where
  "getEnabledGroupRatios m ratios =
     filter is_finite (List.map_filter (named_get (source_ratios m ratios)) (enabled_groups m))"

definition isFreeModel :: "pricing_model \<Rightarrow> jsnum named option \<Rightarrow> bool" where
  "isFreeModel m ratios = list_ex (\<lambda>r. num_eq r (Fin 0)) (getEnabledGroupRatios m ratios)"

definition getFreeEligibleGroups :: "pricing_model \<Rightarrow> jsnum named option \<Rightarrow> jstr list" where
  "getFreeEligibleGroups m ratios =
     filter (\<lambda>g. case named_get (source_ratios m ratios) g of Some r \<Rightarrow> num_eq r (Fin 0) | None \<Rightarrow> False) (enabled_groups m)"

definition countFreeModels :: "pricing_model list \<Rightarrow> jsnum named option \<Rightarrow> nat" where
  "countFreeModels ms ratios = foldl (\<lambda>n m. n + (if isFreeModel m ratios then 1 else 0)) 0 ms"

definition getAvailableGroups :: "pricing_model \<Rightarrow> (jstr \<times> 'u) list \<Rightarrow> jstr list" where
  "getAvailableGroups m usable = filter (\<lambda>g. g \<in> set (enabled_groups m))
     (filter (\<lambda>g. g \<notin> set EXCLUDED_GROUPS) (map fst (own_entries usable)))"

definition replaceModelInPath :: "jstr \<Rightarrow> jstr \<Rightarrow> jstr" where
  "replaceModelInPath path name = replace_all (lit ''{model}'') name path"

definition isTokenBasedModel :: "pricing_model \<Rightarrow> bool" where
  "isTokenBasedModel m \<longleftrightarrow> num_eq (pm_quota_type m) TYPE_TOKEN"

section \<open>Filters\<close>

definition mentions :: "jstr \<Rightarrow> jstr option \<Rightarrow> bool" where
  "mentions q s = (case s of Some t \<Rightarrow> str_includes (lower t) q | None \<Rightarrow> False)"

definition filterBySearch :: "pricing_model list \<Rightarrow> jstr \<Rightarrow> pricing_model list" where
  "filterBySearch ms query = (if query = [] then ms else (let q = lower query in
     filter (\<lambda>m. mentions q (Some (pm_name m)) \<or> mentions q (pm_description m) \<or> mentions q (pm_tags m) \<or> mentions q (pm_vendor m)) ms))"

definition filterByVendor :: "pricing_model list \<Rightarrow> jstr \<Rightarrow> pricing_model list" where
  "filterByVendor ms v = (if v = FILTER_ALL then ms else filter (\<lambda>m. pm_vendor m = Some v) ms)"

definition filterByGroup :: "pricing_model list \<Rightarrow> jstr \<Rightarrow> pricing_model list" where
  "filterByGroup ms g = (if g = FILTER_ALL then ms else filter (\<lambda>m. g \<in> set (enabled_groups m)) ms)"

definition filterByQuotaType :: "pricing_model list \<Rightarrow> jstr \<Rightarrow> pricing_model list" where
  "filterByQuotaType ms t = (if t = QUOTA_ALL then ms else
     (let target = (if t = QUOTA_TOKEN then TYPE_TOKEN else TYPE_REQUEST) in filter (\<lambda>m. num_eq (pm_quota_type m) target) ms))"

definition filterByEndpointType :: "pricing_model list \<Rightarrow> jstr \<Rightarrow> pricing_model list" where
  "filterByEndpointType ms e = (if e = ENDPOINT_ALL then ms else filter (\<lambda>m. e \<in> set (the_or [] (pm_endpoints m))) ms)"

definition tag_separator :: regex where
  "tag_separator = Plus (Cls (\<lambda>c. c = 44 \<or> c = 59 \<or> c = 124 \<or> is_ws c))"

definition parseTags :: "jstr option \<Rightarrow> jstr list" where
  "parseTags s = (if str_or s [] = [] then [] else
     filter (\<lambda>t. t \<noteq> []) (map trim (re_split tag_separator (str_or s []))))"

definition extractAllTags :: "(jstr \<Rightarrow> jstr \<Rightarrow> bool) \<Rightarrow> pricing_model list \<Rightarrow> jstr list" where
  "extractAllTags locale_le ms = js_sort locale_le (uniq (concat (map (\<lambda>m. map lower (parseTags (pm_tags m))) ms)))"

definition filterByTag :: "pricing_model list \<Rightarrow> jstr \<Rightarrow> pricing_model list" where
  "filterByTag ms tag = (if tag = FILTER_ALL then ms else
     filter (\<lambda>m. lower tag \<in> set (map lower (parseTags (pm_tags m)))) ms)"

definition getModelPrice :: "pricing_model \<Rightarrow> jsnum" where
  "getModelPrice m = (if num_eq (pm_quota_type m) (Fin 0) then pm_ratio m else or_zero (pm_price m))"

text \<open>The comparator \<open>a - b\<close>: a stays before b unless the difference is positive.\<close>

definition diff_le :: "jsnum \<Rightarrow> jsnum \<Rightarrow> bool" where
  "diff_le a b \<longleftrightarrow> \<not> num_lt (Fin 0) (num_sub a b)"

definition sortModels :: "(jstr \<Rightarrow> jstr \<Rightarrow> bool) \<Rightarrow> pricing_model list \<Rightarrow> jstr \<Rightarrow> pricing_model list" where
  "sortModels locale_le ms sortBy =
     (if sortBy = SORT_NAME then js_sort (\<lambda>a b. locale_le (pm_name a) (pm_name b)) ms
      else if sortBy = SORT_PRICE_LOW then js_sort (\<lambda>a b. diff_le (getModelPrice a) (getModelPrice b)) ms
      else if sortBy = SORT_PRICE_HIGH then js_sort (\<lambda>a b. diff_le (getModelPrice b) (getModelPrice a)) ms
      else ms)"

record model_filters =
  fl_search :: jstr
  fl_vendor :: jstr
  fl_group :: jstr
  fl_quotaType :: jstr
  fl_endpointType :: jstr
  fl_tag :: jstr
  fl_sortBy :: jstr

definition filterAndSortModels :: "(jstr \<Rightarrow> jstr \<Rightarrow> bool) \<Rightarrow> pricing_model list \<Rightarrow> model_filters \<Rightarrow> pricing_model list" where
  "filterAndSortModels locale_le ms f =
     (let r1 = filterBySearch ms (fl_search f); r2 = filterByVendor r1 (fl_vendor f); r3 = filterByGroup r2 (fl_group f);
          r4 = filterByQuotaType r3 (fl_quotaType f); r5 = filterByEndpointType r4 (fl_endpointType f);
          r6 = filterByTag r5 (fl_tag f)
      in sortModels locale_le r6 (fl_sortBy f))"

section \<open>The least group ratio\<close>

lemma num_lt_trans: "num_lt a b \<Longrightarrow> num_lt b c \<Longrightarrow> num_lt a c"
  by (cases a; cases b; cases c) (auto simp: num_lt_def)

lemma min_fold:
  defines "f ratios \<equiv> foldl (min_step ratios)"
  shows "acc \<noteq> NaN \<Longrightarrow>
    (f ratios acc gs = acc \<or> (\<exists>g \<in> set gs. named_get ratios g = Some (f ratios acc gs))) \<and>
    (num_lt (f ratios acc gs) acc \<or> f ratios acc gs = acc) \<and>
    (\<forall>g \<in> set gs. \<forall>x. named_get ratios g = Some x \<longrightarrow> \<not> num_lt x (f ratios acc gs))"
proof (induction gs arbitrary: acc)
  case (Cons g gs)
  let ?a = "min_step ratios acc g"
  have a: "?a \<noteq> NaN" "num_lt ?a acc \<or> ?a = acc" "?a = acc \<or> named_get ratios g = Some ?a"
    using Cons.prems by (auto simp: min_step_def split: option.splits)
  have x: "named_get ratios g = Some x \<Longrightarrow> \<not> num_lt x ?a" for x
    by (auto simp: min_step_def) (auto simp: num_lt_def)
  note IH = Cons.IH [OF a(1)]
  let ?r = "f ratios ?a gs"
  have e: "f ratios acc (g # gs) = ?r" by (simp add: f_def)
  have first: "\<not> num_lt y ?r" if "named_get ratios g = Some y" for y
    using IH x [OF that] num_lt_trans [of y ?r ?a] by auto
  have all: "\<forall>h \<in> set (g # gs). \<forall>y. named_get ratios h = Some y \<longrightarrow> \<not> num_lt y ?r"
    using IH first by simp
  have less: "num_lt ?r acc \<or> ?r = acc"
    using IH a(2) num_lt_trans [of ?r ?a acc] by auto
  have "?r = acc \<or> (\<exists>h \<in> set (g # gs). named_get ratios h = Some ?r)"
    using IH a(3) by auto
  then show ?case unfolding e using all less by blast
qed (simp add: f_def)

lemma least_ratio:
  "let r = getMinGroupRatio gs ratios; usable = (\<exists>g \<in> set gs. \<exists>x. named_get ratios g = Some x \<and> num_lt x PosInf) in
   (usable \<longrightarrow> (\<exists>g \<in> set gs. named_get ratios g = Some r) \<and>
      (\<forall>g \<in> set gs. \<forall>x. named_get ratios g = Some x \<longrightarrow> \<not> num_lt x r)) \<and>
   (\<not> usable \<longrightarrow> r = Fin 1)"
proof -
  let ?f = "foldl (min_step ratios) PosInf gs"
  note m = min_fold [of PosInf ratios gs, simplified]
  show ?thesis
  proof (cases "\<exists>g \<in> set gs. \<exists>x. named_get ratios g = Some x \<and> num_lt x PosInf")
    case True
    then have "?f \<noteq> PosInf" using m by metis
    moreover have "gs \<noteq> []" using True by auto
    ultimately show ?thesis using m True by (auto simp: getMinGroupRatio_def Let_def)
  next
    case False
    have "?f = PosInf"
    proof (rule ccontr)
      assume n: "?f \<noteq> PosInf"
      then have "num_lt ?f PosInf" "\<exists>g \<in> set gs. named_get ratios g = Some ?f" using m by blast+
      then show False using False by blast
    qed
    then show ?thesis using False by (auto simp: getMinGroupRatio_def Let_def)
  qed
qed

lemma least_group_ratio_raw:
  "\<exists>g \<in> set gs. \<exists>x. named_get ratios g = Some x \<and> num_lt x PosInf \<Longrightarrow>
    (\<exists>g \<in> set gs. named_get ratios g = Some (getMinGroupRatio gs ratios)) \<and>
    (\<forall>g \<in> set gs. \<forall>x. named_get ratios g = Some x \<longrightarrow> \<not> num_lt x (getMinGroupRatio gs ratios))"
  using least_ratio [of gs ratios, unfolded Let_def] by blast

lemma min_ratio_not_nan: "getMinGroupRatio gs ratios \<noteq> NaN"
  using min_fold [of PosInf ratios gs] by (auto simp: getMinGroupRatio_def Let_def)

text \<open>The ratio a price is shown with is the best of the model's groups: when one of them has a ratio that is a number below infinity, it is the
  ratio of one of the groups and none of them has a lower one; a model without such a group has ratio 1.\<close>

theorem least_group_ratio:
  "let r = getMinGroupRatio gs ratios; usable = (\<exists>g \<in> set gs. \<exists>x. named_get ratios g = Some x \<and> num_lt x PosInf) in
   (usable \<longrightarrow> (\<exists>g \<in> set gs. named_get ratios g = Some r) \<and>
      (\<forall>g \<in> set gs. \<forall>x. named_get ratios g = Some x \<longrightarrow> \<not> num_lt x r)) \<and>
   (\<not> usable \<longrightarrow> r = Fin 1)"
  by (rule least_ratio)

theorem least_group_ratio_witness:
  "getMinGroupRatio [js ''a'', js ''b''] [(js ''a'', Fin 2), (js ''b'', Fin (1 / 2))] = Fin (1 / 2) \<and>
   (\<exists>g \<in> set [js ''a'', js ''b'']. named_get [(js ''a'', Fin 2), (js ''b'', Fin (1 / 2))] g =
      Some (getMinGroupRatio [js ''a'', js ''b''] [(js ''a'', Fin 2), (js ''b'', Fin (1 / 2))]))"
proof -
  have u: "\<exists>g \<in> set [js ''a'', js ''b'']. \<exists>x. named_get [(js ''a'', Fin 2), (js ''b'', Fin (1 / 2))] g = Some x \<and> num_lt x PosInf"
    by (simp add: named_get_def num_lt_def)
  have "getMinGroupRatio [js ''a'', js ''b''] [(js ''a'', Fin 2), (js ''b'', Fin (1 / 2))] = Fin (1 / 2)" by code_simp
  then show ?thesis
    using least_group_ratio [of "[js ''a'', js ''b'']" "[(js ''a'', Fin 2), (js ''b'', Fin (1 / 2))]", unfolded Let_def] u
    by blast
qed

section \<open>Free models\<close>

lemma in_map_filter_iff: "y \<in> set (List.map_filter f xs) \<longleftrightarrow> (\<exists>x \<in> set xs. f x = Some y)"
  by (induction xs) (auto simp: List.map_filter_simps split: option.splits)

lemma free_iff_groups: "isFreeModel m ratios \<longleftrightarrow> getFreeEligibleGroups m ratios \<noteq> []"
proof -
  have z: "num_eq x (Fin 0) \<Longrightarrow> is_finite x" for x by (cases x) (auto simp: num_eq_def is_zero_def)
  show ?thesis unfolding isFreeModel_def getFreeEligibleGroups_def getEnabledGroupRatios_def list_ex_iff filter_empty_conv set_filter
    using z by (auto simp: in_map_filter_iff split: option.splits)
qed

text \<open>The badge, the list of groups and the counter of free models agree with each other and with the price: a model is free exactly when it has a free group, the
  counter counts those models, and the least ratio of a free model none of whose ratios is negative is zero, so its token
  prices are computed from a factor of zero.\<close>

theorem free_models_agree:
  "(isFreeModel m ratios \<longleftrightarrow> getFreeEligibleGroups m ratios \<noteq> []) \<and>
   countFreeModels ms ratios = length (filter (\<lambda>m. getFreeEligibleGroups m ratios \<noteq> []) ms) \<and>
   (isFreeModel m None \<and> (\<forall>g \<in> set (enabled_groups m). \<forall>x. named_get (ratios_of m) g = Some x \<longrightarrow> \<not> num_lt x (Fin 0)) \<longrightarrow>
      is_zero (getMinGroupRatio (enabled_groups m) (ratios_of m)))"
proof (intro conjI impI)
  show "isFreeModel m ratios \<longleftrightarrow> getFreeEligibleGroups m ratios \<noteq> []" by (rule free_iff_groups)
  have "foldl (\<lambda>n m. n + (if isFreeModel m ratios then 1 else 0)) k ms = k + length (filter (\<lambda>m. isFreeModel m ratios) ms)" for k
    by (induction ms arbitrary: k) auto
  then show "countFreeModels ms ratios = length (filter (\<lambda>m. getFreeEligibleGroups m ratios \<noteq> []) ms)"
    by (simp add: countFreeModels_def free_iff_groups)
  let ?r = "getMinGroupRatio (enabled_groups m) (ratios_of m)"
  assume h: "isFreeModel m None \<and> (\<forall>g \<in> set (enabled_groups m). \<forall>x. named_get (ratios_of m) g = Some x \<longrightarrow> \<not> num_lt x (Fin 0))"
  then obtain g x where g: "g \<in> set (enabled_groups m)" "named_get (ratios_of m) g = Some x" "num_eq x (Fin 0)"
    by (auto simp: isFreeModel_def getEnabledGroupRatios_def source_ratios_def list_ex_iff in_map_filter_iff)
  then have "num_lt x PosInf" by (cases x) (auto simp: num_lt_def num_eq_def is_zero_def)
  then have r: "\<exists>g \<in> set (enabled_groups m). named_get (ratios_of m) g = Some ?r" "\<not> num_lt x ?r"
    using least_group_ratio_raw g by blast+
  then have "\<not> num_lt ?r (Fin 0)" using h by blast
  moreover have "\<not> num_lt (Fin 0) ?r" using r(2) g(3) by (cases x; cases ?r) (auto simp: num_lt_def num_eq_def is_zero_def)
  moreover have "?r \<noteq> NaN" using min_ratio_not_nan .
  ultimately show "is_zero ?r" by (cases ?r) (auto simp: num_lt_def is_zero_def)
qed

definition sample_model :: pricing_model where
  "sample_model = \<lparr>pm_name = js ''m'', pm_description = None, pm_vendor = Some (js ''v''), pm_quota_type = Fin 0, pm_ratio = Fin 3,
     pm_completion_ratio = Fin 2, pm_price = None, pm_cache_ratio = None, pm_create_cache_ratio = None, pm_image_ratio = None,
     pm_audio_ratio = None, pm_audio_completion_ratio = None, pm_groups = Some [js ''vip'', js ''free''],
     pm_tags = Some (js ''Chat, code''), pm_endpoints = None,
     pm_group_ratio = Some [(js ''vip'', Fin 2), (js ''free'', Fin 0)], pm_billing_mode = None, pm_billing_expr = None\<rparr>"

theorem free_models_agree_witness:
  "getFreeEligibleGroups sample_model None = [js ''free''] \<and> is_zero (getMinGroupRatio (enabled_groups sample_model) (ratios_of sample_model))"
proof -
  have f: "isFreeModel sample_model None" "getFreeEligibleGroups sample_model None = [js ''free'']" by code_simp+
  have r: "enabled_groups sample_model = [js ''vip'', js ''free'']" "ratios_of sample_model = [(js ''vip'', Fin 2), (js ''free'', Fin 0)]"
    by (simp_all add: enabled_groups_def ratios_of_def sample_model_def)
  have "\<forall>g \<in> set (enabled_groups sample_model). \<forall>x. named_get (ratios_of sample_model) g = Some x \<longrightarrow> \<not> num_lt x (Fin 0)"
    unfolding r by (auto simp: named_get_def)
  then show ?thesis using free_models_agree [of sample_model None "[]"] f by blast
qed

text \<open>The price of one group treats the ratio 0 as no ratio: the free group is shown the full price.\<close>

lemma free_group_shows_full_price:
  "group_ratio_or_1 (ratios_of sample_model) (js ''free'') = Fin 1 \<and>
   formatGroupPrice br st sample_model (js ''free'') Input Unit_M (False, Fin 1, Fin 1) (ratios_of sample_model) =
     formatCurrencyFromUSD br st (Some (Fin 6)) (price_options 6) \<and>
   formatPrice br st sample_model Input Unit_M (False, Fin 1, Fin 1) =
     formatCurrencyFromUSD br st (Some (Fin 0)) (price_options 6)"
proof -
  have g: "group_ratio_or_1 (ratios_of sample_model) (js ''free'') = Fin 1" by code_simp
  have t: "\<not> num_eq (pm_quota_type sample_model) TYPE_REQUEST" by (simp add: sample_model_def TYPE_REQUEST_def)
  have c: "num_div (recharged (False, Fin 1, Fin 1) (calculateTokenPrice sample_model Input (Fin 1))) (TOKEN_UNIT_DIVISORS Unit_M) = Fin 6"
    by code_simp
  have d: "num_div (recharged (False, Fin 1, Fin 1) (calculateTokenPrice sample_model Input
      (getMinGroupRatio (enabled_groups sample_model) (ratios_of sample_model)))) (TOKEN_UNIT_DIVISORS Unit_M) = Fin 0"
    by code_simp
  show ?thesis using g t c d by (simp add: formatGroupPrice_def formatPrice_def)
qed

section \<open>The list shown\<close>

text \<open>What a model must satisfy to be in the list.\<close>

definition selected :: "model_filters \<Rightarrow> pricing_model \<Rightarrow> bool" where
  "selected f m \<longleftrightarrow>
     (fl_search f \<noteq> [] \<longrightarrow> list_ex (mentions (lower (fl_search f))) [Some (pm_name m), pm_description m, pm_tags m, pm_vendor m]) \<and>
     (fl_vendor f \<noteq> FILTER_ALL \<longrightarrow> pm_vendor m = Some (fl_vendor f)) \<and>
     (fl_group f \<noteq> FILTER_ALL \<longrightarrow> fl_group f \<in> set (enabled_groups m)) \<and>
     (fl_quotaType f \<noteq> QUOTA_ALL \<longrightarrow> num_eq (pm_quota_type m) (if fl_quotaType f = QUOTA_TOKEN then TYPE_TOKEN else TYPE_REQUEST)) \<and>
     (fl_endpointType f \<noteq> ENDPOINT_ALL \<longrightarrow> fl_endpointType f \<in> set (the_or [] (pm_endpoints m))) \<and>
     (fl_tag f \<noteq> FILTER_ALL \<longrightarrow> lower (fl_tag f) \<in> lower ` set (parseTags (pm_tags m)))"

lemma filters_select:
  "filterByTag (filterByEndpointType (filterByQuotaType (filterByGroup (filterByVendor (filterBySearch ms (fl_search f)) (fl_vendor f))
     (fl_group f)) (fl_quotaType f)) (fl_endpointType f)) (fl_tag f) = filter (selected f) ms"
proof -
  have all: "filter (\<lambda>_. True) xs = xs" for xs :: "pricing_model list" by simp
  have s: "filterBySearch xs q = filter (\<lambda>m. q \<noteq> [] \<longrightarrow> list_ex (mentions (lower q)) [Some (pm_name m), pm_description m, pm_tags m, pm_vendor m]) xs"
    for xs q by (simp add: filterBySearch_def Let_def)
  have v: "filterByVendor xs q = filter (\<lambda>m. q \<noteq> FILTER_ALL \<longrightarrow> pm_vendor m = Some q) xs" for xs q
    by (simp add: filterByVendor_def)
  have g: "filterByGroup xs q = filter (\<lambda>m. q \<noteq> FILTER_ALL \<longrightarrow> q \<in> set (enabled_groups m)) xs" for xs q
    by (simp add: filterByGroup_def)
  have t: "filterByQuotaType xs q = filter (\<lambda>m. q \<noteq> QUOTA_ALL \<longrightarrow> num_eq (pm_quota_type m) (if q = QUOTA_TOKEN then TYPE_TOKEN else TYPE_REQUEST)) xs"
    for xs q by (simp add: filterByQuotaType_def Let_def)
  have e: "filterByEndpointType xs q = filter (\<lambda>m. q \<noteq> ENDPOINT_ALL \<longrightarrow> q \<in> set (the_or [] (pm_endpoints m))) xs" for xs q
    by (simp add: filterByEndpointType_def)
  have a: "filterByTag xs q = filter (\<lambda>m. q \<noteq> FILTER_ALL \<longrightarrow> lower q \<in> lower ` set (parseTags (pm_tags m))) xs" for xs q
    by (simp add: filterByTag_def)
  show ?thesis unfolding s v g t e a filter_filter by (rule filter_cong) (auto simp: selected_def)
qed

lemma sortModels_perm: "mset (sortModels le ms k) = mset ms"
  by (simp add: sortModels_def)

definition finite_price :: "pricing_model \<Rightarrow> bool" where
  "finite_price m \<longleftrightarrow> (\<exists>q. getModelPrice m = Fin q \<and> double q)"

lemma diff_le_finite: "double a \<Longrightarrow> double b \<Longrightarrow> diff_le (Fin a) (Fin b) \<longleftrightarrow> a \<le> b"
  by (simp add: diff_le_def num_sub_positive not_less)

lemma sort_ins_on:
  assumes "\<And>a b. a \<in> A \<Longrightarrow> b \<in> A \<Longrightarrow> le a b \<longleftrightarrow> key a \<le> (key b :: rat)"
  shows "set xs \<subseteq> A \<Longrightarrow> x \<in> A \<Longrightarrow> sorted_wrt (\<lambda>a b. key a \<le> key b) xs \<Longrightarrow> sorted_wrt (\<lambda>a b. key a \<le> key b) (sort_ins le x xs)"
proof (induction xs)
  case (Cons y ys)
  have le: "le x y \<longleftrightarrow> key x \<le> key y" using assms Cons.prems by auto
  show ?case
  proof (cases "key x \<le> key y")
    case True
    then show ?thesis using le Cons.prems by auto
  next
    case False
    then show ?thesis using le Cons by (auto simp: set_sort_ins)
  qed
qed simp

lemma js_sort_on:
  assumes "\<And>a b. a \<in> A \<Longrightarrow> b \<in> A \<Longrightarrow> le a b \<longleftrightarrow> key a \<le> (key b :: rat)" "set xs \<subseteq> A"
  shows "sorted_wrt (\<lambda>a b. key a \<le> key b) (js_sort le xs)"
  using assms(2)
proof (induction xs)
  case (Cons x xs)
  then show ?case using sort_ins_on [of A le key "js_sort le xs" x, OF assms(1)] by simp
qed simp


definition no_filters :: model_filters where
  "no_filters = \<lparr>fl_search = [], fl_vendor = FILTER_ALL, fl_group = FILTER_ALL, fl_quotaType = QUOTA_ALL,
     fl_endpointType = ENDPOINT_ALL, fl_tag = FILTER_ALL, fl_sortBy = SORT_PRICE_LOW\<rparr>"


lemma lower_lower [simp]: "lower (lower s) = lower s"
  by (simp add: lower_def lower_c_def)

text \<open>Every tag offered finds something: a tag of the list of all tags selects at least one model, and the list has no
  tag twice.\<close>

theorem offered_tags_select:
  assumes "tag \<in> set (extractAllTags le ms)"
  shows "filterByTag ms tag \<noteq> [] \<and> distinct (extractAllTags le ms) \<and> lower tag = tag"
proof -
  obtain m t where m: "m \<in> set ms" "t \<in> set (parseTags (pm_tags m))" "tag = lower t"
    using assms by (auto simp: extractAllTags_def)
  then have "m \<in> set (filterByTag ms tag)" by (auto simp: filterByTag_def)
  then have "filterByTag ms tag \<noteq> []" by auto
  then show ?thesis using m(3) by (simp add: extractAllTags_def)
qed

theorem offered_tags_select_witness:
  "js ''chat'' \<in> set (extractAllTags str_le [sample_model]) \<and> filterByTag [sample_model] (js ''chat'') \<noteq> []"
proof -
  have "js ''chat'' \<in> set (extractAllTags str_le [sample_model])" by code_simp
  then show ?thesis using offered_tags_select [of "js ''chat''" str_le "[sample_model]"] by blast
qed

end
