(* ===== verification/PricingFilters.thy ===== *)
theory PricingFilters
  imports Pricing
begin

text \<open>
  The filters of the pricing page (features/pricing/hooks/use-filters.ts): the state taken from the URL once, the values
  shown, the setters, and the list they give. A field is None when the state does not have it.
\<close>

record filter_state =
  fs_search :: "jstr option"
  fs_sort :: "jstr option"
  fs_vendor :: "jstr option"
  fs_group :: "jstr option"
  fs_quotaType :: "jstr option"
  fs_endpointType :: "jstr option"
  fs_tag :: "jstr option"
  fs_tokenUnit :: "jstr option"
  fs_view :: "jstr option"
  fs_recharge :: "bool option"

definition VIEW_CARD :: jstr where "VIEW_CARD = js ''card''"
definition VIEW_TABLE :: jstr where "VIEW_TABLE = js ''table''"
definition UNIT_K :: jstr where "UNIT_K = js ''K''"
definition DEFAULT_TOKEN_UNIT :: jstr where "DEFAULT_TOKEN_UNIT = js ''M''"

definition normalizeViewMode :: "jstr option \<Rightarrow> jstr" where
  "normalizeViewMode v = (if v = Some VIEW_TABLE then VIEW_TABLE else VIEW_CARD)"

definition searchInput :: "filter_state \<Rightarrow> jstr" where "searchInput s = str_or (fs_search s) []"
definition sortBy :: "filter_state \<Rightarrow> jstr" where "sortBy s = str_or (fs_sort s) SORT_NAME"
definition vendorFilter :: "filter_state \<Rightarrow> jstr" where "vendorFilter s = str_or (fs_vendor s) FILTER_ALL"
definition groupFilter :: "filter_state \<Rightarrow> jstr" where "groupFilter s = str_or (fs_group s) FILTER_ALL"
definition quotaTypeFilter :: "filter_state \<Rightarrow> jstr" where "quotaTypeFilter s = str_or (fs_quotaType s) QUOTA_ALL"
definition endpointTypeFilter :: "filter_state \<Rightarrow> jstr" where "endpointTypeFilter s = str_or (fs_endpointType s) ENDPOINT_ALL"
definition tagFilter :: "filter_state \<Rightarrow> jstr" where "tagFilter s = str_or (fs_tag s) FILTER_ALL"
definition tokenUnit :: "filter_state \<Rightarrow> jstr" where
  "tokenUnit s = (if fs_tokenUnit s = Some UNIT_K then UNIT_K else DEFAULT_TOKEN_UNIT)"
definition viewMode :: "filter_state \<Rightarrow> jstr" where "viewMode s = normalizeViewMode (fs_view s)"
definition showRechargePrice :: "filter_state \<Rightarrow> bool" where "showRechargePrice s \<longleftrightarrow> fs_recharge s = Some True"

text \<open>\<open>v === d ? undefined : v\<close>; updateFilters deletes a field set to undefined.\<close>

definition unless :: "jstr \<Rightarrow> jstr \<Rightarrow> jstr option" where
  "unless d v = (if v = d then None else Some v)"

definition setSearchInput :: "jstr \<Rightarrow> filter_state \<Rightarrow> filter_state" where "setSearchInput v s = s\<lparr>fs_search := unless [] v\<rparr>"
definition setSortBy :: "jstr \<Rightarrow> filter_state \<Rightarrow> filter_state" where "setSortBy v s = s\<lparr>fs_sort := unless SORT_NAME v\<rparr>"
definition setVendorFilter :: "jstr \<Rightarrow> filter_state \<Rightarrow> filter_state" where
  "setVendorFilter v s = s\<lparr>fs_vendor := unless FILTER_ALL v\<rparr>"
definition setGroupFilter :: "jstr \<Rightarrow> filter_state \<Rightarrow> filter_state" where
  "setGroupFilter v s = s\<lparr>fs_group := unless FILTER_ALL v\<rparr>"
definition setQuotaTypeFilter :: "jstr \<Rightarrow> filter_state \<Rightarrow> filter_state" where
  "setQuotaTypeFilter v s = s\<lparr>fs_quotaType := unless QUOTA_ALL v\<rparr>"
definition setEndpointTypeFilter :: "jstr \<Rightarrow> filter_state \<Rightarrow> filter_state" where
  "setEndpointTypeFilter v s = s\<lparr>fs_endpointType := unless ENDPOINT_ALL v\<rparr>"
definition setTagFilter :: "jstr \<Rightarrow> filter_state \<Rightarrow> filter_state" where
  "setTagFilter v s = s\<lparr>fs_tag := unless FILTER_ALL v\<rparr>"
definition setTokenUnit :: "jstr \<Rightarrow> filter_state \<Rightarrow> filter_state" where
  "setTokenUnit v s = s\<lparr>fs_tokenUnit := unless DEFAULT_TOKEN_UNIT v\<rparr>"
definition setViewMode :: "jstr \<Rightarrow> filter_state \<Rightarrow> filter_state" where "setViewMode v s = s\<lparr>fs_view := unless VIEW_CARD v\<rparr>"
definition setShowRechargePrice :: "bool \<Rightarrow> filter_state \<Rightarrow> filter_state" where
  "setShowRechargePrice v s = s\<lparr>fs_recharge := (if v then Some True else None)\<rparr>"

definition clearFilters :: "filter_state \<Rightarrow> filter_state" where
  "clearFilters s = s\<lparr>fs_vendor := None, fs_group := None, fs_quotaType := None, fs_endpointType := None, fs_tag := None\<rparr>"

definition clearSearch :: "filter_state \<Rightarrow> filter_state" where
  "clearSearch s = s\<lparr>fs_search := None\<rparr>"

definition filters_of :: "filter_state \<Rightarrow> model_filters" where
  "filters_of s = \<lparr>fl_search = searchInput s, fl_vendor = vendorFilter s, fl_group = groupFilter s,
     fl_quotaType = quotaTypeFilter s, fl_endpointType = endpointTypeFilter s, fl_tag = tagFilter s, fl_sortBy = sortBy s\<rparr>"

definition filteredModels :: "(jstr \<Rightarrow> jstr \<Rightarrow> bool) \<Rightarrow> pricing_model list \<Rightarrow> filter_state \<Rightarrow> pricing_model list" where
  "filteredModels le ms s = (if ms = [] then [] else filterAndSortModels le ms (filters_of s))"

definition availableTags :: "(jstr \<Rightarrow> jstr \<Rightarrow> bool) \<Rightarrow> pricing_model list \<Rightarrow> jstr list" where
  "availableTags le ms = (if ms = [] then [] else extractAllTags le ms)"

definition active_flags :: "filter_state \<Rightarrow> bool list" where
  "active_flags s = [vendorFilter s \<noteq> FILTER_ALL, groupFilter s \<noteq> FILTER_ALL, quotaTypeFilter s \<noteq> QUOTA_ALL,
     endpointTypeFilter s \<noteq> ENDPOINT_ALL, tagFilter s \<noteq> FILTER_ALL]"

definition hasActiveFilters :: "filter_state \<Rightarrow> bool" where
  "hasActiveFilters s \<longleftrightarrow> list_ex (\<lambda>b. b) (active_flags s)"

definition activeFilterCount :: "filter_state \<Rightarrow> nat" where
  "activeFilterCount s = length (filter (\<lambda>b. b) (active_flags s))"

section \<open>The list and its filters\<close>

lemma str_or_unless: "v \<noteq> [] \<Longrightarrow> str_or (unless d v) d = v"
  by (simp add: str_or_def unless_def)

lemma filters_cleared: "selected (filters_of (clearSearch (clearFilters s))) m"
  by (simp add: selected_def filters_of_def clearSearch_def clearFilters_def searchInput_def vendorFilter_def groupFilter_def
      quotaTypeFilter_def endpointTypeFilter_def tagFilter_def str_or_def)

lemma filtered_perm: "mset (filteredModels le ms s) = filter_mset (selected (filters_of s)) (mset ms)"
  by (simp add: filteredModels_def filterAndSortModels_def Let_def filters_select sortModels_perm)

text \<open>The page shows what its filters say. A tag chosen from those offered leaves a list that is not empty when no other filter is
  active and no text is searched; choosing a value shows that value; clearing the filters and the search shows every model given, each as often; the
  counter counts the active filters and clearing keeps the order, unit and view.\<close>

theorem filters_shown:
  "mset (filteredModels le ms (clearSearch (clearFilters s))) = mset ms \<and>
   activeFilterCount (clearFilters s) = 0 \<and> (hasActiveFilters s \<longleftrightarrow> 0 < activeFilterCount s) \<and>
   sortBy (clearFilters s) = sortBy s \<and> tokenUnit (clearFilters s) = tokenUnit s \<and> viewMode (clearFilters s) = viewMode s \<and>
   (t \<in> set (availableTags le ms) \<and> t \<noteq> [] \<longrightarrow>
      tagFilter (setTagFilter t s) = t \<and> filteredModels le ms (setTagFilter t (clearSearch (clearFilters s))) \<noteq> [])"
proof (intro conjI impI)
  show "mset (filteredModels le ms (clearSearch (clearFilters s))) = mset ms"
  proof -
    have "selected (filters_of (clearSearch (clearFilters s))) = (\<lambda>m. True)" by (rule ext) (simp add: filters_cleared)
    then show ?thesis unfolding filtered_perm by simp
  qed
  show "activeFilterCount (clearFilters s) = 0"
    by (simp add: activeFilterCount_def active_flags_def clearFilters_def vendorFilter_def groupFilter_def quotaTypeFilter_def
        endpointTypeFilter_def tagFilter_def str_or_def)
  show "hasActiveFilters s \<longleftrightarrow> 0 < activeFilterCount s"
    by (auto simp: hasActiveFilters_def activeFilterCount_def active_flags_def)
  show "sortBy (clearFilters s) = sortBy s" "tokenUnit (clearFilters s) = tokenUnit s" "viewMode (clearFilters s) = viewMode s"
    by (simp_all add: sortBy_def tokenUnit_def viewMode_def clearFilters_def)
  assume t: "t \<in> set (availableTags le ms) \<and> t \<noteq> []"
  then show tf: "tagFilter (setTagFilter t s) = t" by (simp add: tagFilter_def setTagFilter_def str_or_unless)
  obtain m u where m: "m \<in> set ms" "u \<in> set (parseTags (pm_tags m))" "t = lower u"
    using t by (auto simp: availableTags_def extractAllTags_def split: if_splits)
  have f: "filters_of (setTagFilter t (clearSearch (clearFilters s))) = filters_of (clearSearch (clearFilters s))\<lparr>fl_tag := t\<rparr>"
    using t by (simp add: filters_of_def setTagFilter_def clearSearch_def clearFilters_def searchInput_def vendorFilter_def groupFilter_def
        quotaTypeFilter_def endpointTypeFilter_def tagFilter_def sortBy_def str_or_unless)
  have "selected (filters_of (setTagFilter t (clearSearch (clearFilters s)))) m"
    unfolding f using m filters_cleared [of s m] by (auto simp: selected_def)
  then have "m \<in># mset (filteredModels le ms (setTagFilter t (clearSearch (clearFilters s))))"
    unfolding filtered_perm using m(1) by simp
  then show "filteredModels le ms (setTagFilter t (clearSearch (clearFilters s))) \<noteq> []" by auto
qed

definition no_filter_state :: filter_state where
  "no_filter_state = \<lparr>fs_search = None, fs_sort = None, fs_vendor = Some (js ''v''), fs_group = None, fs_quotaType = None,
     fs_endpointType = None, fs_tag = None, fs_tokenUnit = None, fs_view = None, fs_recharge = None\<rparr>"

theorem filters_shown_witness:
  "js ''chat'' \<in> set (availableTags str_le [sample_model]) \<and>
   filteredModels str_le [sample_model] (setTagFilter (js ''chat'') (clearSearch (clearFilters no_filter_state))) \<noteq> []"
proof -
  have "js ''chat'' \<in> set (availableTags str_le [sample_model])" by code_simp
  then show ?thesis using filters_shown [of str_le "[sample_model]" no_filter_state "js ''chat''"] by simp
qed

end
