(* ===== verification/DynamicPrice.thy ===== *)
theory DynamicPrice
  imports Pricing BillingRules
begin

text \<open>
  The summary of a model with tiered billing (features/pricing/lib/dynamic-price.ts): the tiers of its
  expression, the request rules, the price entries of the first tier and their formats. It composes the pricing page with
  the billing expressions: a rule the parser throws on makes the summary throw.
\<close>

record dynamic_options =
  do_unit :: token_unit
  do_showRecharge :: "bool option"
  do_priceRate :: "jsnum option"
  do_usdRate :: "jsnum option"
  do_multiplier :: "jsnum option"

record price_entry =
  pe_key :: jstr
  pe_field :: jstr
  pe_label :: jstr
  pe_shortLabel :: jstr
  pe_value :: jsnum
  pe_formatted :: jstr
  pe_variable :: billing_var

record pricing_summary =
  ps_tiers :: "parsedTier list"
  ps_tier :: "parsedTier option"
  ps_tierCount :: nat
  ps_hasRequestRules :: bool
  ps_isSpecial :: bool
  ps_raw :: jstr
  ps_entries :: "price_entry list"
  ps_primary :: "price_entry list"
  ps_secondary :: "price_entry list"

definition PRIMARY_DYNAMIC_FIELDS :: "jstr list" where
  "PRIMARY_DYNAMIC_FIELDS = [js ''inputPrice'', js ''outputPrice'']"

definition isDynamicPricingModel :: "pricing_model \<Rightarrow> bool" where
  "isDynamicPricingModel m \<longleftrightarrow> pm_billing_mode m = Some (js ''tiered_expr'') \<and> str_or (pm_billing_expr m) [] \<noteq> []"

definition getDynamicDisplayGroupRatio :: "pricing_model \<Rightarrow> jsnum" where
  "getDynamicDisplayGroupRatio m = (if enabled_groups m = [] then Fin 1 else
     let r = foldl (min_step (ratios_of m)) PosInf (enabled_groups m) in if r = PosInf then Fin 1 else r)"

definition formatDynamicUnitPrice :: "intl \<Rightarrow> config_state \<Rightarrow> jsnum \<Rightarrow> dynamic_options \<Rightarrow> jstr" where
  "formatDynamicUnitPrice br st v p =
     (let ratio = the_or (Fin 1) (do_multiplier p);
          priceUSD = num_div (num_mul v ratio) (TOKEN_UNIT_DIVISORS (do_unit p));
          shown = applyRechargeRate priceUSD (the_or False (do_showRecharge p)) (the_or (Fin 1) (do_priceRate p))
            (the_or (Fin 1) (do_usdRate p))
      in formatBillingCurrencyFromUSD br st (Some shown) (price_options 6))"

definition getDynamicPricingTiers :: "pricing_model \<Rightarrow> js_error + parsedTier list" where
  "getDynamicPricingTiers m = (if \<not> isDynamicPricingModel m then Inr [] else
     case splitBillingExprAndRequestRules (str_or (pm_billing_expr m) []) of
       Inl e \<Rightarrow> Inl e
     | Inr sp \<Rightarrow> Inr (parseTiersFromExpr (bs_billingExpr sp)))"

definition hasDynamicRequestRules :: "pricing_model \<Rightarrow> js_error + bool" where
  "hasDynamicRequestRules m = (if \<not> isDynamicPricingModel m then Inr False else
     case splitBillingExprAndRequestRules (str_or (pm_billing_expr m) []) of
       Inl e \<Rightarrow> Inl e
     | Inr sp \<Rightarrow> (case tryParseRequestRuleExpr (bs_requestRuleExpr sp) of
         Inl e \<Rightarrow> Inl e
       | Inr None \<Rightarrow> Inr False
       | Inr (Some gs) \<Rightarrow> Inr (gs \<noteq> [])))"

text \<open>The entry of one variable: none unless the tier's price is a finite number above zero.\<close>

definition price_entry_of :: "intl \<Rightarrow> config_state \<Rightarrow> dynamic_options \<Rightarrow> parsedTier \<Rightarrow> billing_var \<Rightarrow> price_entry option" where
  "price_entry_of br st p tier v = (case v_field v of None \<Rightarrow> None | Some f \<Rightarrow>
     (case named_get (pt_prices tier) f of None \<Rightarrow> None | Some x \<Rightarrow>
        if \<not> is_finite x \<or> num_le x (Fin 0) then None
        else Some \<lparr>pe_key = v_key v, pe_field = f, pe_label = v_label v, pe_shortLabel = v_shortLabel v, pe_value = x,
          pe_formatted = formatDynamicUnitPrice br st x p, pe_variable = v\<rparr>))"

definition is_primary :: "price_entry \<Rightarrow> bool" where
  "is_primary e \<longleftrightarrow> pe_field e \<in> set PRIMARY_DYNAMIC_FIELDS"

definition primary_first :: "price_entry \<Rightarrow> price_entry \<Rightarrow> bool" where
  "primary_first a b \<longleftrightarrow> is_primary a \<or> \<not> is_primary b"

definition getDynamicPriceEntries :: "intl \<Rightarrow> config_state \<Rightarrow> parsedTier option \<Rightarrow> dynamic_options \<Rightarrow> price_entry list" where
  "getDynamicPriceEntries br st tier p = (case tier of None \<Rightarrow> []
     | Some t \<Rightarrow> js_sort primary_first (List.map_filter (price_entry_of br st p t) BILLING_PRICING_VARS))"

definition getDynamicPricingSummary :: "intl \<Rightarrow> config_state \<Rightarrow> pricing_model \<Rightarrow> dynamic_options \<Rightarrow> js_error + pricing_summary option" where
  "getDynamicPricingSummary br st m p = (if \<not> isDynamicPricingModel m then Inr None else
     case getDynamicPricingTiers m of Inl e \<Rightarrow> Inl e
     | Inr tiers \<Rightarrow>
         (let tier = (case tiers of [] \<Rightarrow> None | t # _ \<Rightarrow> Some t);
              entries = getDynamicPriceEntries br st tier p;
              raw = str_or (pm_billing_expr m) []
          in case hasDynamicRequestRules m of Inl e \<Rightarrow> Inl e
             | Inr rules \<Rightarrow> Inr (Some
                 \<lparr>ps_tiers = tiers, ps_tier = tier, ps_tierCount = length tiers, ps_hasRequestRules = rules,
                  ps_isSpecial = (trim raw \<noteq> [] \<and> tiers = []), ps_raw = raw, ps_entries = entries,
                  ps_primary = filter is_primary entries, ps_secondary = filter (\<lambda>e. \<not> is_primary e) entries\<rparr>)))"

section \<open>The price entries\<close>

text \<open>The table lists the primary variables first, so the sort keeps the order of the table.\<close>

lemma table_primary_first:
  "sorted_wrt (\<lambda>a b. the (v_field a) \<in> set PRIMARY_DYNAMIC_FIELDS \<or> the (v_field b) \<notin> set PRIMARY_DYNAMIC_FIELDS) BILLING_PRICING_VARS"
  by code_simp

lemma entry_field: "price_entry_of br st p t v = Some e \<Longrightarrow> v_field v = Some (pe_field e) \<and> pe_variable e = v \<and>
    named_get (pt_prices t) (pe_field e) = Some (pe_value e) \<and> is_finite (pe_value e) \<and> num_lt (Fin 0) (pe_value e) \<and>
    pe_formatted e = formatDynamicUnitPrice br st (pe_value e) p"
proof -
  assume h: "price_entry_of br st p t v = Some e"
  have pos: "is_finite x \<Longrightarrow> \<not> num_le x (Fin 0) \<Longrightarrow> num_lt (Fin 0) x" for x
    by (cases x) (auto simp: num_le_def num_lt_def num_eq_def is_zero_def)
  show ?thesis using h pos by (auto simp: price_entry_of_def split: option.splits if_splits)
qed

lemma map_filter_sorted:
  assumes "sorted_wrt P xs" "\<And>x y a b. P x y \<Longrightarrow> f x = Some a \<Longrightarrow> f y = Some b \<Longrightarrow> Q a b"
  shows "sorted_wrt Q (List.map_filter f xs)"
  using assms(1)
proof (induction xs)
  case (Cons x xs)
  then have IH: "sorted_wrt Q (List.map_filter f xs)" and h: "\<forall>y \<in> set xs. P x y" by simp_all
  show ?case
  proof (cases "f x")
    case None
    then show ?thesis using IH by (simp add: List.map_filter_simps)
  next
    case (Some a)
    have "Q a b" if b: "b \<in> set (List.map_filter f xs)" for b
    proof -
      obtain y where "y \<in> set xs" "f y = Some b" using b unfolding in_map_filter_iff by blast
      then show ?thesis using h Some assms(2) [of x y a b] by blast
    qed
    then show ?thesis using IH Some by (simp add: List.map_filter_simps)
  qed
qed (simp add: List.map_filter_simps)

lemma entries_in_table_order:
  "getDynamicPriceEntries br st (Some t) p = List.map_filter (price_entry_of br st p t) BILLING_PRICING_VARS"
proof -
  have "sorted_wrt primary_first (List.map_filter (price_entry_of br st p t) BILLING_PRICING_VARS)"
    by (rule map_filter_sorted [OF table_primary_first]) (auto dest!: entry_field simp: primary_first_def is_primary_def)
  then show ?thesis by (simp add: getDynamicPriceEntries_def js_sort_sorted)
qed

lemma primary_split: "sorted_wrt primary_first es \<Longrightarrow> filter is_primary es @ filter (\<lambda>e. \<not> is_primary e) es = es"
proof (induction es)
  case (Cons e es)
  show ?case
  proof (cases "is_primary e")
    case False
    then have "\<forall>x \<in> set es. \<not> is_primary x" using Cons.prems by (auto simp: primary_first_def)
    then have "filter is_primary es = []" "filter (\<lambda>e. \<not> is_primary e) es = es" by simp_all
    then show ?thesis using False by simp
  qed (use Cons in simp)
qed simp

lemma table_fields_distinct: "distinct (map (\<lambda>v. the (v_field v)) BILLING_PRICING_VARS)"
  by code_simp

lemma entries_distinct: "distinct (map pe_field (List.map_filter (price_entry_of br st p t) vs))"
  if "distinct (map (\<lambda>v. the (v_field v)) vs)" for vs
  using that
proof (induction vs)
  case (Cons v vs)
  have "pe_field e \<in> (\<lambda>v. the (v_field v)) ` set vs" if "e \<in> set (List.map_filter (price_entry_of br st p t) vs)" for e
    using that by (force simp: in_map_filter_iff dest!: entry_field)
  then show ?case using Cons by (auto simp: List.map_filter_simps dest!: entry_field split: option.split)
qed (simp add: List.map_filter_simps)

text \<open>The summary's prices are those of the first tier, each once and in the order of the table of variables, with the primary
  ones in front: every entry carries its tier's own price, which is finite and above zero, no field comes twice, and the
  primary entries followed by the secondary ones are all entries.\<close>

theorem summary_entries_exact:
  assumes "getDynamicPricingSummary br st m p = Inr (Some s)"
  shows "ps_primary s @ ps_secondary s = ps_entries s \<and> distinct (map pe_field (ps_entries s)) \<and>
    (\<forall>e \<in> set (ps_entries s). \<exists>t. ps_tier s = Some t \<and> t = hd (ps_tiers s) \<and>
       named_get (pt_prices t) (pe_field e) = Some (pe_value e) \<and> is_finite (pe_value e) \<and> num_lt (Fin 0) (pe_value e) \<and>
       pe_formatted e = formatDynamicUnitPrice br st (pe_value e) p) \<and>
    ps_tierCount s = length (ps_tiers s)"
proof -
  obtain tiers where t: "getDynamicPricingTiers m = Inr tiers" "ps_tiers s = tiers"
    and tier: "ps_tier s = (case tiers of [] \<Rightarrow> None | t # _ \<Rightarrow> Some t)"
    and e: "ps_entries s = getDynamicPriceEntries br st (ps_tier s) p"
    and pr: "ps_primary s = filter is_primary (ps_entries s)" "ps_secondary s = filter (\<lambda>e. \<not> is_primary e) (ps_entries s)"
    and n: "ps_tierCount s = length tiers"
    using assms by (auto simp: getDynamicPricingSummary_def Let_def split: if_splits sum.splits)
  show ?thesis
  proof (cases "ps_tier s")
    case None
    then show ?thesis using e pr n t by (simp add: getDynamicPriceEntries_def)
  next
    case (Some t0)
    have es: "ps_entries s = List.map_filter (price_entry_of br st p t0) BILLING_PRICING_VARS"
      using e Some entries_in_table_order by simp
    have sorted: "sorted_wrt primary_first (ps_entries s)"
      unfolding es by (rule map_filter_sorted [OF table_primary_first]) (auto dest!: entry_field simp: primary_first_def is_primary_def)
    have "t0 = hd (ps_tiers s)" using Some tier t by (simp split: list.splits)
    moreover have "pe_formatted x = formatDynamicUnitPrice br st (pe_value x) p" if "x \<in> set (ps_entries s)" for x
      using that unfolding es by (auto simp: in_map_filter_iff dest!: entry_field)
    ultimately show ?thesis
      using Some pr n t primary_split [OF sorted] entries_distinct [OF table_fields_distinct] es
      by (auto simp: in_map_filter_iff dest!: entry_field)
  qed
qed

section \<open>A saved expression\<close>

definition tiered :: "pricing_model \<Rightarrow> jstr \<Rightarrow> pricing_model" where
  "tiered m expr = m\<lparr>pm_billing_mode := Some (js ''tiered_expr''), pm_billing_expr := Some expr\<rparr>"

lemma combined_not_Nil: "trim b \<noteq> [] \<Longrightarrow> combineBillingExpr b r \<noteq> []"
  by (simp add: combineBillingExpr_def Let_def)

text \<open>C7. A model saved by the billing editor is summarised as it was written: when its expression combines tiers with readable
  rule factors, the summary exists, shows the tiers of the tiers' text and says that there are request
  rules. An expression whose rules the reader throws on has no summary: the error reaches the page.\<close>

theorem summary_of_saved_expression:
  assumes "trimmed b" "b \<noteq> []" "hasFullOuterParens (in_parens b)" "base_part (in_parens b)"
    and "rules \<noteq> []" "\<And>r. r \<in> set rules \<Longrightarrow> hasFullOuterParens r \<and> rule_part r"
  shows "\<exists>s. getDynamicPricingSummary br st (tiered m (combineBillingExpr b (join (js '' * '') rules))) p = Inr (Some s) \<and>
    ps_tiers s = parseTiersFromExpr (unwrapOuterParens b) \<and> ps_hasRequestRules s \<and>
    ps_raw s = combineBillingExpr b (join (js '' * '') rules)"
proof -
  let ?x = "combineBillingExpr b (join (js '' * '') rules)" and ?m = "tiered m (combineBillingExpr b (join (js '' * '') rules))"
  have x: "?x \<noteq> []" using assms(1,2) by (intro combined_not_Nil) (simp add: trim_trimmed)
  have dyn: "isDynamicPricingModel ?m" "str_or (pm_billing_expr ?m) [] = ?x"
    using x by (simp_all add: isDynamicPricingModel_def tiered_def str_or_def)
  note sp = split_of_combined [OF assms]
  obtain gs where gs: "tryParseRequestRuleExpr (join (js '' * '') rules) = Inr (Some gs)" "length gs = length rules"
    using read_joined_rules [OF assms(5,6)] by blast
  then have "gs \<noteq> []" using assms(5) by auto
  then have r: "hasDynamicRequestRules ?m = Inr True" and t: "getDynamicPricingTiers ?m = Inr (parseTiersFromExpr (unwrapOuterParens b))"
    using dyn sp gs by (simp_all add: hasDynamicRequestRules_def getDynamicPricingTiers_def)
  show ?thesis using dyn r t by (simp add: getDynamicPricingSummary_def Let_def)
qed

theorem summary_of_saved_expression_witness:
  "\<exists>s. getDynamicPricingSummary plain_intl cny_store
      (tiered sample_model (combineBillingExpr sample_base (join (js '' * '') [buildRuleGroupFactor sample_group])))
      \<lparr>do_unit = Unit_M, do_showRecharge = None, do_priceRate = None, do_usdRate = None, do_multiplier = None\<rparr> = Inr (Some s) \<and>
    ps_tiers s = parseTiersFromExpr (unwrapOuterParens sample_base) \<and> ps_hasRequestRules s \<and>
    ps_raw s = combineBillingExpr sample_base (join (js '' * '') [buildRuleGroupFactor sample_group])"
proof (rule summary_of_saved_expression)
  show "trimmed sample_base" by code_simp
  show "sample_base \<noteq> []" by code_simp
  show "hasFullOuterParens (in_parens sample_base)" by code_simp
  show "base_part (in_parens sample_base)" by code_simp
  have "hasFullOuterParens (buildRuleGroupFactor sample_group)" "rule_part (buildRuleGroupFactor sample_group)"
    by code_simp+
  then show "hasFullOuterParens r \<and> rule_part r" if "r \<in> set [buildRuleGroupFactor sample_group]" for r
    using that by simp
qed simp

definition saved_model :: pricing_model where
  "saved_model = tiered sample_model sample_base"

theorem summary_entries_exact_witness:
  "\<exists>s. getDynamicPricingSummary plain_intl cny_store saved_model
      \<lparr>do_unit = Unit_M, do_showRecharge = None, do_priceRate = None, do_usdRate = None, do_multiplier = None\<rparr> = Inr (Some s) \<and>
    ps_primary s @ ps_secondary s = ps_entries s"
proof -
  let ?o = "\<lparr>do_unit = Unit_M, do_showRecharge = None, do_priceRate = None, do_usdRate = None, do_multiplier = None\<rparr>"
  have dyn: "isDynamicPricingModel saved_model" "str_or (pm_billing_expr saved_model) [] = sample_base" by code_simp+
  have sp: "splitBillingExprAndRequestRules sample_base = Inr \<lparr>bs_billingExpr = sample_base, bs_requestRuleExpr = []\<rparr>" by code_simp
  have ru: "tryParseRequestRuleExpr [] = Inr (Some [])" by (simp add: tryParseRequestRuleExpr_def)
  have "\<exists>s. getDynamicPricingSummary plain_intl cny_store saved_model ?o = Inr (Some s)"
    using dyn sp ru by (simp add: getDynamicPricingSummary_def getDynamicPricingTiers_def hasDynamicRequestRules_def Let_def)
  then show ?thesis using summary_entries_exact [of plain_intl cny_store saved_model ?o] by blast
qed

text \<open>A rule with an escape that JSON does not know makes the summary throw.\<close>

lemma summary_throws:
  "getDynamicPricingSummary br st (tiered m (combineBillingExpr sample_base bad_escape_rule)) p = Inl SyntaxError"
proof -
  have x: "combineBillingExpr sample_base bad_escape_rule \<noteq> []"
    "splitBillingExprAndRequestRules (combineBillingExpr sample_base bad_escape_rule) = Inl SyntaxError" by code_simp+
  then have "isDynamicPricingModel (tiered m (combineBillingExpr sample_base bad_escape_rule))"
    "str_or (pm_billing_expr (tiered m (combineBillingExpr sample_base bad_escape_rule))) [] = combineBillingExpr sample_base bad_escape_rule"
    by (simp_all add: isDynamicPricingModel_def tiered_def str_or_def)
  then show ?thesis using x by (simp add: getDynamicPricingSummary_def getDynamicPricingTiers_def)
qed

end
