(* ===== verification/TierExpr.thy ===== *)
theory TierExpr
  imports BillingExpr
begin

text \<open>
  The visual editor of tiered prices (features/pricing/lib/tier-expr.ts): the tiers of its form, the expression they are written as, and the
  expression read back. A tier is an object of any values, as the code has it. The evaluation of an
  expression by the JavaScript engine (\<open>new Function\<close>) is a parameter.
\<close>

section \<open>Tiers\<close>

definition CACHE_MODE_TIMED :: jstr where "CACHE_MODE_TIMED = js ''timed''"
definition CACHE_MODE_GENERIC :: jstr where "CACHE_MODE_GENERIC = js ''generic''"

definition num_or_0 :: "jsval \<Rightarrow> jsval" where
  "num_or_0 v = (let x = to_number v in VNum (if num_truthy x then x else Fin 0))"

definition getTierCacheMode :: "jsobj \<Rightarrow> jstr" where
  "getTierCacheMode tier =
     (if obj_get tier (js ''cache_mode'') = VStr CACHE_MODE_TIMED then CACHE_MODE_TIMED
      else if obj_get tier (js ''cache_mode'') = VStr CACHE_MODE_GENERIC then CACHE_MODE_GENERIC
      else if num_lt (Fin 0) (to_number (obj_get tier (js ''cache_create_1h_unit_cost''))) then CACHE_MODE_TIMED
      else CACHE_MODE_GENERIC)"

definition cache_fields :: "jstr list" where
  "cache_fields = [js ''cache_read_unit_cost'', js ''cache_create_unit_cost'', js ''cache_create_1h_unit_cost'',
     js ''image_unit_cost'', js ''image_output_unit_cost'', js ''audio_input_unit_cost'', js ''audio_output_unit_cost'']"

text \<open>The spread of the tier overwrites the five fields before it; the seven after it are always numbers.\<close>

definition normalizeVisualTier :: "jsobj \<Rightarrow> jsobj" where
  "normalizeVisualTier tier =
     (let base = [(js ''label'', js_coalesce (obj_get tier (js ''label'')) (VStr [])),
            (js ''input_unit_cost'', num_or_0 (obj_get tier (js ''input_unit_cost''))),
            (js ''output_unit_cost'', num_or_0 (obj_get tier (js ''output_unit_cost''))),
            (js ''cache_mode'', VStr (getTierCacheMode tier)),
            (js ''conditions'', if is_array (obj_get tier (js ''conditions'')) then obj_get tier (js ''conditions'') else VArr [])];
          spread = foldl (\<lambda>ob (k, v). obj_set k v ob) base (own_entries tier)
      in foldl (\<lambda>ob k. obj_set k (num_or_0 (obj_get tier k)) ob) spread cache_fields)"

definition createDefaultVisualConfig :: "jsobj list" where
  "createDefaultVisualConfig = [normalizeVisualTier [(js ''conditions'', VArr []), (js ''input_unit_cost'', VNum (Fin 0)),
     (js ''output_unit_cost'', VNum (Fin 0)), (js ''label'', VStr (js ''base'')), (js ''cache_mode'', VStr CACHE_MODE_GENERIC)]]"

text \<open>A configuration is its list of tiers; None stands for null and undefined.\<close>

definition normalizeVisualConfig :: "jsobj list option \<Rightarrow> jsobj list" where
  "normalizeVisualConfig config = (case config of
       None \<Rightarrow> createDefaultVisualConfig
     | Some tiers \<Rightarrow> if tiers = [] then createDefaultVisualConfig else map normalizeVisualTier tiers)"

section \<open>Writing\<close>

definition condition_complete :: "jsval \<Rightarrow> bool" where
  "condition_complete c \<longleftrightarrow> truthy (js_prop c (js ''var'')) \<and> truthy (js_prop c (js ''op'')) \<and>
     \<not> nullish (js_prop c (js ''value'')) \<and> js_prop c (js ''value'') \<noteq> VStr []"

definition condition_text :: "jsval \<Rightarrow> jstr" where
  "condition_text c = to_str (js_prop c (js ''var'')) @ [32] @ to_str (js_prop c (js ''op'')) @ [32] @ to_str (js_prop c (js ''value''))"

definition buildConditionStr :: "jsval \<Rightarrow> jstr" where
  "buildConditionStr conditions = (case conditions of
       VArr cs \<Rightarrow> join (js '' && '') (map condition_text (filter condition_complete cs))
     | _ \<Rightarrow> [])"

definition cost_part :: "jstr \<Rightarrow> jsval \<Rightarrow> jstr" where
  "cost_part var v = var @ js '' * '' @ to_str v"

definition buildTierBodyExpr :: "jsobj \<Rightarrow> jstr" where
  "buildTierBodyExpr tier = join (js '' + '')
     ([cost_part (js ''p'') (num_or_0 (obj_get tier (js ''input_unit_cost''))),
       cost_part (js ''c'') (num_or_0 (obj_get tier (js ''output_unit_cost'')))] @
      List.map_filter (\<lambda>(field, var). let v = num_or_0 (obj_get tier field) in
        if v = VNum (Fin 0) then None else Some (cost_part var v)) BILLING_CACHE_VAR_MAP)"

definition tier_text :: "jstr \<Rightarrow> jsobj \<Rightarrow> jstr" where
  "tier_text fallback tier =
     (let l = obj_get tier (js ''label''); label = (if truthy l then to_str l else fallback)
      in js ''tier('' @ [34] @ label @ [34] @ js '', '' @ buildTierBodyExpr tier @ js '')'')"

definition free_cost :: jstr where
  "free_cost = js ''p * 0 + c * 0''"

fun tier_parts :: "nat \<Rightarrow> jsobj list \<Rightarrow> jstr list" where
  "tier_parts i [] = []"
| "tier_parts i (tier # rest) =
     (let body = tier_text (js ''tier_'' @ nat_digits (i + 1)) tier; cond = buildConditionStr (obj_get tier (js ''conditions''))
      in (if rest \<noteq> [] \<and> cond \<noteq> [] then cond @ js '' ? '' @ body else body) # tier_parts (i + 1) rest)"

definition generateExprFromVisualConfig :: "jsobj list option \<Rightarrow> jstr" where
  "generateExprFromVisualConfig config = (case config of
       None \<Rightarrow> free_cost
     | Some [] \<Rightarrow> free_cost
     | Some [tier] \<Rightarrow>
         (let body = tier_text (js ''default'') tier; cond = buildConditionStr (obj_get tier (js ''conditions''))
          in if cond \<noteq> [] then cond @ js '' ? '' @ body @ js '' : '' @ free_cost else body)
     | Some tiers \<Rightarrow> join (js '' : '') (tier_parts 0 tiers))"

section \<open>Reading\<close>

definition any_unit :: regex where
  "any_unit = not_in []"

definition optional_cost :: "nat \<Rightarrow> jstr \<Rightarrow> regex" where
  "optional_cost k var = Opt (seq [spaces, lit ''+'', spaces, Lit var, spaces, lit ''*'', spaces, Grp k signed_number])"

text \<open>The costs of p and c in the groups k and k + 1, and the seven optional costs after them.\<close>

definition body_pattern :: "nat \<Rightarrow> regex" where
  "body_pattern k = seq ([lit ''p'', spaces, lit ''*'', spaces, Grp k signed_number, spaces, lit ''+'', spaces, lit ''c'', spaces,
       lit ''*'', spaces, Grp (k + 1) signed_number] @
     map (\<lambda>(i, fv). optional_cost (k + 2 + i) (snd fv)) (List.enumerate 0 BILLING_CACHE_VAR_MAP))"

definition tier_pattern :: "nat \<Rightarrow> regex" where
  "tier_pattern k = seq [lit ''tier('', Lit [34], Grp k (Star (not_in [34])), Lit [34], lit '','', spaces, body_pattern (k + 1), lit '')'']"

definition visual_tier_pattern :: regex where
  "visual_tier_pattern = Seq (Opt (seq [condGroup, spaces, lit ''?'', spaces])) (tier_pattern 2)"

text \<open>The costs that took part in a match.\<close>

definition captured_costs :: "nat \<Rightarrow> captures \<Rightarrow> jsobj" where
  "captured_costs k m = List.map_filter (\<lambda>(i, fv). case map_of m (k + i) of
       Some t \<Rightarrow> Some (fst fv, VNum (str_to_num t)) | None \<Rightarrow> None) (List.enumerate 0 BILLING_CACHE_VAR_MAP)"

definition matched_tier :: "jsval list \<Rightarrow> nat \<Rightarrow> captures \<Rightarrow> jsobj" where
  "matched_tier conditions k m =
     [(js ''conditions'', VArr conditions), (js ''input_unit_cost'', VNum (str_to_num (cap m (k + 1)))),
      (js ''output_unit_cost'', VNum (str_to_num (cap m (k + 2)))), (js ''label'', VStr (cap m k))] @ captured_costs (k + 3) m"

definition condition_obj :: "tierCondition \<Rightarrow> jsval" where
  "condition_obj c = VObj [(js ''var'', VStr (tc_var c)), (js ''op'', VStr (tc_op c)), (js ''value'', VNum (tc_value c))]"

definition matched_conditions :: "captures \<Rightarrow> jsval list" where
  "matched_conditions m = (if cap m 1 = [] then []
     else map condition_obj (List.map_filter parse_tier_condition (re_split and_sep (cap m 1))))"

definition visual_body :: "jstr \<Rightarrow> jstr" where
  "visual_body exprStr = (case match_all (seq [lit ''v'', digits, lit '':'', Grp 1 (Star any_unit)]) exprStr of
       Some m \<Rightarrow> cap m 1 | None \<Rightarrow> exprStr)"

definition without_spaces :: "jstr \<Rightarrow> jstr" where
  "without_spaces s = filter (\<lambda>c. \<not> is_ws c) s"

definition tryParseVisualConfig :: "jstr option \<Rightarrow> jsobj list option" where
  "tryParseVisualConfig exprStr = (if exprStr = None \<or> exprStr = Some [] then None else
     (let body = visual_body (the exprStr) in case match_all (tier_pattern 1) body of
        Some m \<Rightarrow> Some (normalizeVisualConfig (Some [normalizeVisualTier (matched_tier [] 1 m)]))
      | None \<Rightarrow>
          (let tiers = map (\<lambda>m. normalizeVisualTier (matched_tier (matched_conditions m) 2 m))
                 (search (\<lambda>_ _. True) visual_tier_pattern body)
           in if tiers = [] then None
              else (let cfg = normalizeVisualConfig (Some tiers) in
                if without_spaces (generateExprFromVisualConfig (Some cfg)) \<noteq> without_spaces body then None else Some cfg))))"

section \<open>The estimator\<close>

definition ESTIMATOR_VARS :: "jstr list" where
  "ESTIMATOR_VARS = [js ''cr'', js ''cc'', js ''cc1h'', js ''img'', js ''img_o'', js ''ai'', js ''ao'']"

record eval_result =
  ev_cost :: jsnum
  ev_matchedTier :: jstr
  ev_error :: "jstr option"

text \<open>\<open>extra\<close> gives the token count of each estimator variable (undefined as NaN); \<open>engine\<close> evaluates the
  expression in the environment: an error message, or the value and the names that were passed to \<^verbatim>\<open>tier\<close>, in order.\<close>

definition extra_tokens :: "(jstr \<Rightarrow> jsnum) \<Rightarrow> jstr \<Rightarrow> jsnum" where
  "extra_tokens extra v = (if num_truthy (extra v) then extra v else Fin 0)"

definition estimator_env :: "jsnum \<Rightarrow> jsnum \<Rightarrow> (jstr \<Rightarrow> jsnum) \<Rightarrow> (jstr \<times> jsnum) list" where
  "estimator_env p c extra =
     [(js ''p'', p), (js ''c'', c),
      (js ''len'', num_add (num_add (num_add p (extra_tokens extra (js ''cr''))) (extra_tokens extra (js ''cc'')))
        (extra_tokens extra (js ''cc1h'')))] @ map (\<lambda>v. (v, extra_tokens extra v)) ESTIMATOR_VARS"

definition evalExprLocally ::
  "(jstr \<Rightarrow> (jstr \<times> jsnum) list \<Rightarrow> jstr + jsval \<times> jstr list) \<Rightarrow> jstr \<Rightarrow> jsnum \<Rightarrow> jsnum \<Rightarrow> (jstr \<Rightarrow> jsnum) \<Rightarrow> eval_result" where
  "evalExprLocally engine e p c extra =
     (if trim e = [] then \<lparr>ev_cost = Fin 0, ev_matchedTier = [], ev_error = None\<rparr>
      else case engine e (estimator_env p c extra) of
        Inl message \<Rightarrow> \<lparr>ev_cost = Fin 0, ev_matchedTier = [], ev_error = Some message\<rparr>
      | Inr (v, names) \<Rightarrow> \<lparr>ev_cost = (let x = to_number v in if num_truthy x then x else Fin 0),
          ev_matchedTier = (if names = [] then [] else last names), ev_error = None\<rparr>)"

text \<open>A variable between word boundaries somewhere in the text.\<close>

fun uses_word :: "jstr list \<Rightarrow> int option \<Rightarrow> jstr \<Rightarrow> bool" where
  "uses_word ws before [] = False"
| "uses_word ws before (c # s) =
     (word_boundary before (c # s) \<and>
        list_ex (\<lambda>w. starts_with (c # s) w \<and> word_boundary (Some (last w)) (drop (length w) (c # s))) ws \<or>
      uses_word ws (Some c) s)"

definition exprUsesExtraVars :: "jstr \<Rightarrow> bool" where
  "exprUsesExtraVars e \<longleftrightarrow> e \<noteq> [] \<and> uses_word ESTIMATOR_VARS None e"

section \<open>What is read back\<close>

lemma obj_get_fold: "obj_get (foldl (\<lambda>ob k. obj_set k (g k) ob) ob ks) k = (if k \<in> set ks then g k else obj_get ob k)"
  by (induction ks arbitrary: ob) auto

lemma normal_tier_costs:
  assumes "k \<in> set cache_fields"
  shows "\<exists>x. obj_get (normalizeVisualTier tier) k = VNum x \<and> x \<noteq> NaN"
proof -
  have "obj_get (normalizeVisualTier tier) k = num_or_0 (obj_get tier k)"
    unfolding normalizeVisualTier_def Let_def obj_get_fold using assms by simp
  then show ?thesis by (auto simp: num_or_0_def Let_def)
qed

lemma normalizeVisualConfig_normal:
  "tier \<in> set (normalizeVisualConfig c) \<Longrightarrow> \<exists>t. tier = normalizeVisualTier t" "normalizeVisualConfig c \<noteq> []"
  by (auto simp: normalizeVisualConfig_def createDefaultVisualConfig_def split: option.splits if_splits)

text \<open>What the visual editor opens is the expression: when it reads an expression as several tiers, writing them gives the expression again,
  white space aside, so saving without a change loses nothing; there is always a tier, and every optional cost
  is a number. (The expression of one tier is not checked this way.)\<close>

theorem visual_parse_sound:
  assumes "tryParseVisualConfig (Some s) = Some cfg"
  shows "cfg \<noteq> [] \<and> (2 \<le> length cfg \<longrightarrow> without_spaces (generateExprFromVisualConfig (Some cfg)) = without_spaces (visual_body s)) \<and>
    (\<forall>tier \<in> set cfg. \<forall>k \<in> set cache_fields. \<exists>x. obj_get tier k = VNum x \<and> x \<noteq> NaN)"
proof (cases "match_all (tier_pattern 1) (visual_body s)")
  case None
  let ?ts = "map (\<lambda>m. normalizeVisualTier (matched_tier (matched_conditions m) 2 m)) (search (\<lambda>_ _. True) visual_tier_pattern (visual_body s))"
  have c: "cfg = normalizeVisualConfig (Some ?ts)"
    "without_spaces (generateExprFromVisualConfig (Some cfg)) = without_spaces (visual_body s)"
    using assms None unfolding tryParseVisualConfig_def Let_def by (auto split: if_splits simp del: map_is_Nil_conv)
  have "\<exists>x. obj_get tier k = VNum x \<and> x \<noteq> NaN" if t: "tier \<in> set cfg" and k: "k \<in> set cache_fields" for tier k
  proof -
    obtain t' where "tier = normalizeVisualTier t'" using t unfolding c(1) by (blast dest: normalizeVisualConfig_normal(1))
    then show ?thesis using normal_tier_costs [OF k] by simp
  qed
  moreover have "cfg \<noteq> []" unfolding c(1) by (rule normalizeVisualConfig_normal(2))
  ultimately show ?thesis using c(2) by blast
next
  case (Some m)
  then have c: "cfg = normalizeVisualConfig (Some [normalizeVisualTier (matched_tier [] 1 m)])"
    using assms unfolding tryParseVisualConfig_def Let_def by (auto split: if_splits)
  then have one: "cfg = [normalizeVisualTier (normalizeVisualTier (matched_tier [] 1 m))]" by (simp add: normalizeVisualConfig_def)
  then show ?thesis using normal_tier_costs by simp
qed

definition two_tiers :: jstr where
  "two_tiers = js ''len < 5 ? tier('' @ [34] @ js ''a'' @ [34] @ js '', p * 2 + c * 3) : tier('' @ [34] @ js ''b'' @ [34] @
     js '', p * 4 + c * 5 + cr * 1)''"

theorem visual_parse_sound_witness:
  "\<exists>cfg. tryParseVisualConfig (Some two_tiers) = Some cfg \<and> length cfg = 2 \<and>
     without_spaces (generateExprFromVisualConfig (Some cfg)) = without_spaces two_tiers"
proof -
  have n: "map_option length (tryParseVisualConfig (Some two_tiers)) = Some 2" by code_simp
  then obtain cfg where c: "tryParseVisualConfig (Some two_tiers) = Some cfg" "length cfg = 2" by auto
  have "visual_body two_tiers = two_tiers" by code_simp
  then show ?thesis using visual_parse_sound [OF c(1)] c by auto
qed

text \<open>A coefficient that is no number, in an expression of one tier, is written back as 0.\<close>

definition odd_tier :: jstr where
  "odd_tier = js ''tier('' @ [34] @ js ''a'' @ [34] @ js '', p * 2-1 + c * 3)''"

lemma odd_tier_loses_price:
  "map_option (\<lambda>c. generateExprFromVisualConfig (Some c)) (tryParseVisualConfig (Some odd_tier)) =
     Some (js ''tier('' @ [34] @ js ''a'' @ [34] @ js '', p * 0 + c * 3)'')"
  by code_simp

end
