(* ===== verification/Notifications.thy ===== *)
theory Notifications
  imports JsCoerce "HOL-Library.Word"
begin

text \<open>
  Notifications: the 32-bit hashes of the front end (hashString of hooks/use-notifications.ts, stringToColor of
  lib/format.ts), the keys of announcements, the store of what was read (stores/notification-store.ts) and
  the hook over them (hooks/use-notifications.ts). The notice, the announcements and the date of today
  come from outside and are arguments.
\<close>

unbundle bit_operations_syntax

section \<open>Hashes\<close>

text \<open>\<open>(hash << 5) - hash + chr\<close>, cut to 32 bits: the shift is on 32 bits, the sum is a number and exact, the cut takes it
  modulo 2^32.\<close>

definition hash_step :: "32 word \<Rightarrow> int \<Rightarrow> 32 word" where
  "hash_step h c = word_of_int (sint (push_bit 5 h) - sint h + c)"

definition string_hash :: "jstr \<Rightarrow> 32 word" where
  "string_hash s = foldl hash_step 0 s"

text \<open>\<open>n.toString(36)\<close>.\<close>

definition digit36 :: "nat \<Rightarrow> int" where
  "digit36 d = (if d < 10 then 48 + int d else 87 + int d)"

fun nat_digits36 :: "nat \<Rightarrow> jstr" where
  "nat_digits36 n = (if n < 36 then [digit36 n] else nat_digits36 (n div 36) @ [digit36 (n mod 36)])"

declare nat_digits36.simps [simp del]

definition int_str36 :: "int \<Rightarrow> jstr" where
  "int_str36 i = (if i < 0 then 45 # nat_digits36 (nat (- i)) else nat_digits36 (nat i))"

definition hashString :: "jstr \<Rightarrow> jstr" where
  "hashString s = (if s = [] then js ''0'' else int_str36 (sint (string_hash s)))"

text \<open>The remainder with the sign of the dividend.\<close>

definition trunc_rem :: "int \<Rightarrow> int \<Rightarrow> int" where
  "trunc_rem a b = (if a < 0 then - ((- a) mod b) else a mod b)"

definition stringToColor :: "jstr \<Rightarrow> jstr" where
  "stringToColor s = (if s = [] then js ''gray'' else
     (let h = sint (string_hash s); hue = \<bar>trunc_rem h 360\<bar>; sat = 65 + \<bar>h\<bar> mod 10; light = 55 + \<bar>h div 256\<bar> mod 10
      in js ''hsl('' @ int_str hue @ js '', '' @ int_str sat @ js ''%, '' @ int_str light @ js ''%)''))"

section \<open>Keys of announcements\<close>

definition field_or_empty :: "jsobj \<Rightarrow> string \<Rightarrow> jsval" where
  "field_or_empty item f = js_or (obj_get item (js f)) (VStr [])"

text \<open>A field read as a string and trimmed.\<close>

definition trimmed_field :: "jsobj \<Rightarrow> string \<Rightarrow> jsval" where
  "trimmed_field item f = VStr (trim (to_str (field_or_empty item f)))"

definition announcement_fingerprint :: "jsobj \<Rightarrow> jstr" where
  "announcement_fingerprint item = stringify (VObj
     [(js ''publishDate'', field_or_empty item ''publishDate''), (js ''content'', trimmed_field item ''content''),
      (js ''extra'', trimmed_field item ''extra''), (js ''type'', field_or_empty item ''type''),
      (js ''title'', trimmed_field item ''title''), (js ''link'', trimmed_field item ''link'')])"

definition getAnnouncementKey :: "jsobj \<Rightarrow> jstr" where
  "getAnnouncementKey item =
     (if \<not> nullish (obj_get item (js ''id'')) then js ''id:'' @ to_str (obj_get item (js ''id''))
      else js ''hash:'' @ hashString (announcement_fingerprint item))"

section \<open>The store\<close>

record read_store =
  lastReadNotice :: jstr
  readAnnouncementKeys :: "jstr list"
  closedUntilDate :: "jstr option"

definition markNoticeRead :: "jstr \<Rightarrow> read_store \<Rightarrow> read_store" where
  "markNoticeRead content s = s\<lparr>lastReadNotice := trim content\<rparr>"

text \<open>A Set keeps the first of equal values, in the order of insertion.\<close>

definition set_list :: "'a list \<Rightarrow> 'a list" where
  "set_list xs = foldl (\<lambda>acc x. if x \<in> set acc then acc else acc @ [x]) [] xs"

definition markAnnouncementsRead :: "jstr list \<Rightarrow> read_store \<Rightarrow> read_store" where
  "markAnnouncementsRead keys s = s\<lparr>readAnnouncementKeys := set_list (readAnnouncementKeys s @ keys)\<rparr>"

definition setClosedUntilDate :: "jstr option \<Rightarrow> read_store \<Rightarrow> read_store" where
  "setClosedUntilDate d s = s\<lparr>closedUntilDate := d\<rparr>"

definition isAnnouncementRead :: "jstr \<Rightarrow> read_store \<Rightarrow> bool" where
  "isAnnouncementRead key s \<longleftrightarrow> key \<in> set (readAnnouncementKeys s)"

definition isNoticeClosed :: "jstr \<Rightarrow> read_store \<Rightarrow> bool" where
  "isNoticeClosed today s = (case closedUntilDate s of None \<Rightarrow> False | Some d \<Rightarrow> if d = [] then False else d = today)"

section \<open>The hook\<close>

datatype notice_tab = Notice_tab | Announcements_tab

record notifications =
  store :: read_store
  dialogOpen :: bool
  activeTab :: notice_tab

text \<open>The announcements of the status: at most twenty, none when they are disabled. The notice: trimmed, empty when its
  request did not succeed.\<close>

definition shown_announcements :: "bool \<Rightarrow> jsobj list \<Rightarrow> jsobj list" where
  "shown_announcements enabled items = (if enabled then take 20 items else [])"

definition notice_content :: "jstr option \<Rightarrow> jstr" where
  "notice_content answer = (case answer of Some t \<Rightarrow> trim t | None \<Rightarrow> [])"

definition noticeUnread :: "jstr \<Rightarrow> read_store \<Rightarrow> nat" where
  "noticeUnread notice s = (if notice \<noteq> [] \<and> notice \<noteq> lastReadNotice s then 1 else 0)"

definition announcementsUnread :: "jsobj list \<Rightarrow> read_store \<Rightarrow> nat" where
  "announcementsUnread items s = length (filter (\<lambda>item. \<not> isAnnouncementRead (getAnnouncementKey item) s) items)"

definition unreadCount :: "jstr \<Rightarrow> jsobj list \<Rightarrow> read_store \<Rightarrow> nat" where
  "unreadCount notice items s = noticeUnread notice s + announcementsUnread items s"

definition handleOpenDialog :: "jstr \<Rightarrow> notice_tab option \<Rightarrow> notifications \<Rightarrow> notifications" where
  "handleOpenDialog notice tab n = n\<lparr>store := (if notice \<noteq> [] then markNoticeRead notice (store n) else store n),
     activeTab := (case tab of Some t \<Rightarrow> t | None \<Rightarrow> Notice_tab), dialogOpen := True\<rparr>"

definition handleTabChange :: "jsobj list \<Rightarrow> notice_tab \<Rightarrow> notifications \<Rightarrow> notifications" where
  "handleTabChange items tab n = n\<lparr>activeTab := tab,
     store := (if tab = Announcements_tab \<and> items \<noteq> [] then markAnnouncementsRead (map getAnnouncementKey items) (store n) else store n)\<rparr>"

definition handleCloseToday :: "jstr \<Rightarrow> notifications \<Rightarrow> notifications" where
  "handleCloseToday today n = n\<lparr>store := setClosedUntilDate (Some today) (store n), dialogOpen := False\<rparr>"

definition closeDialog :: "notifications \<Rightarrow> notifications" where
  "closeDialog n = n\<lparr>dialogOpen := False\<rparr>"

text \<open>What the user does, with the data of the moment.\<close>

inductive notify_step :: "notifications \<Rightarrow> notifications \<Rightarrow> bool" where
  open_dialog: "notify_step n (handleOpenDialog (notice_content answer) tab n)"
| change_tab: "notify_step n (handleTabChange (shown_announcements enabled items) tab n)"
| close_today: "notify_step n (handleCloseToday today n)"
| close_dialog: "notify_step n (closeDialog n)"

inductive notify_run :: "notifications \<Rightarrow> notifications \<Rightarrow> bool" where
  start: "notify_run n n"
| step: "notify_run n m \<Longrightarrow> notify_step m m' \<Longrightarrow> notify_run n m'"

section \<open>The hash is a polynomial modulo 2^32\<close>

lemma hash_step_word: "hash_step h c = 31 * h + word_of_int c"
proof -
  have "push_bit 5 h = 32 * h" by (simp add: push_bit_eq_mult)
  then have "word_of_int (sint (push_bit 5 h)) = 32 * h" by simp
  then have "hash_step h c = 32 * h - h + word_of_int c" by (simp add: hash_step_def)
  then show ?thesis by (simp add: algebra_simps)
qed

fun poly31 :: "int \<Rightarrow> jstr \<Rightarrow> int" where
  "poly31 a [] = a"
| "poly31 a (c # s) = poly31 (31 * a + c) s"

lemma hash_poly: "foldl hash_step (word_of_int a) s = word_of_int (poly31 a s)"
proof (induction s arbitrary: a)
  case (Cons c s)
  have "hash_step (word_of_int a) c = word_of_int (31 * a + c)" by (simp add: hash_step_word)
  then show ?case using Cons [of "31 * a + c"] by (simp only: foldl.simps poly31.simps)
qed simp

lemma hash_value: "sint (string_hash s) = (poly31 0 s + 2 ^ 31) mod 2 ^ 32 - 2 ^ 31"
proof -
  have "string_hash s = word_of_int (poly31 0 s)" using hash_poly [of 0 s] by (simp add: string_hash_def)
  moreover have "LENGTH(32) = 32" "LENGTH(32) - 1 = 31" by simp_all
  ultimately show ?thesis by (metis int_word_sint)
qed

text \<open>The hash of a text is the value of the polynomial of its code units at 31, taken into the range of 32-bit numbers: the shifts and cuts of the
  loop never lose anything else. So it lies between -2^31 and 2^31 - 1, and the colour made of it always has a
  hue below 360, a saturation of 65 to 74 and a lightness of 55 to 64 percent.\<close>

theorem hash_and_colour:
  "let h = sint (string_hash s) in h = (poly31 0 s + 2 ^ 31) mod 2 ^ 32 - 2 ^ 31 \<and> - (2 ^ 31) \<le> h \<and> h < 2 ^ 31 \<and>
   (s = [] \<or> (\<exists>hue sat light. stringToColor s = js ''hsl('' @ int_str hue @ js '', '' @ int_str sat @ js ''%, '' @ int_str light @ js ''%)'' \<and>
      0 \<le> hue \<and> hue < 360 \<and> 65 \<le> sat \<and> sat \<le> 74 \<and> 55 \<le> light \<and> light \<le> 64))"
proof -
  let ?h = "sint (string_hash s)"
  have v: "?h = (poly31 0 s + 2 ^ 31) mod 2 ^ 32 - 2 ^ 31" by (rule hash_value)
  have b: "0 \<le> (poly31 0 s + 2 ^ 31) mod 2 ^ 32" "(poly31 0 s + 2 ^ 31) mod 2 ^ 32 < 2 ^ 32" by simp_all
  have r: "- (2 ^ 31) \<le> ?h" "?h < 2 ^ 31" unfolding v using b by simp_all
  have hue: "0 \<le> \<bar>trunc_rem ?h 360\<bar>" "\<bar>trunc_rem ?h 360\<bar> < 360"
    unfolding trunc_rem_def by (auto simp: abs_if)
  have m: "0 \<le> x mod 10 \<and> x mod 10 \<le> 9" for x :: int
    using pos_mod_bound [of 10 x] by simp
  show ?thesis unfolding Let_def
  proof (intro conjI)
    show "?h = (poly31 0 s + 2 ^ 31) mod 2 ^ 32 - 2 ^ 31" by (rule v)
    show "- (2 ^ 31) \<le> ?h" "?h < 2 ^ 31" by (rule r)+
    show "s = [] \<or> (\<exists>hue sat light. stringToColor s = js ''hsl('' @ int_str hue @ js '', '' @ int_str sat @ js ''%, '' @ int_str light @ js ''%)'' \<and>
      0 \<le> hue \<and> hue < 360 \<and> 65 \<le> sat \<and> sat \<le> 74 \<and> 55 \<le> light \<and> light \<le> 64)"
    proof (cases "s = []")
      case False
      then have c: "stringToColor s = js ''hsl('' @ int_str \<bar>trunc_rem ?h 360\<bar> @ js '', '' @ int_str (65 + \<bar>?h\<bar> mod 10) @ js ''%, '' @
          int_str (55 + \<bar>?h div 256\<bar> mod 10) @ js ''%)''" by (simp add: stringToColor_def Let_def)
      show ?thesis
        by (rule disjI2, rule exI [of _ "\<bar>trunc_rem ?h 360\<bar>"], rule exI [of _ "65 + \<bar>?h\<bar> mod 10"],
            rule exI [of _ "55 + \<bar>?h div 256\<bar> mod 10"]) (use c hue m [of "\<bar>?h\<bar>"] m [of "\<bar>?h div 256\<bar>"] in auto)
    qed simp
  qed
qed

section \<open>What is read stays read\<close>

lemma set_set_list [simp]: "set (set_list xs) = set xs"
proof -
  have "set (foldl (\<lambda>acc x. if x \<in> set acc then acc else acc @ [x]) acc xs) = set acc \<union> set xs" for acc
    by (induction xs arbitrary: acc) auto
  then show ?thesis by (simp add: set_list_def)
qed

lemma distinct_set_list [simp]: "distinct (set_list xs)"
proof -
  have "distinct acc \<Longrightarrow> distinct (foldl (\<lambda>acc x. if x \<in> set acc then acc else acc @ [x]) acc xs)" for acc
    by (induction xs arbitrary: acc) auto
  then show ?thesis by (simp add: set_list_def)
qed

lemma step_keeps_read:
  "notify_step n m \<Longrightarrow> set (readAnnouncementKeys (store n)) \<subseteq> set (readAnnouncementKeys (store m))"
  by (erule notify_step.cases) (auto simp: handleOpenDialog_def handleTabChange_def handleCloseToday_def closeDialog_def
      markNoticeRead_def markAnnouncementsRead_def setClosedUntilDate_def)

lemma run_keeps_read:
  "notify_run n m \<Longrightarrow> set (readAnnouncementKeys (store n)) \<subseteq> set (readAnnouncementKeys (store m))"
  by (induction rule: notify_run.induct) (auto dest: step_keeps_read)


definition fresh_notifications :: notifications where
  "fresh_notifications = \<lparr>store = \<lparr>lastReadNotice = [], readAnnouncementKeys = [], closedUntilDate = None\<rparr>,
     dialogOpen = False, activeTab = Notice_tab\<rparr>"

definition two_announcements :: "jsobj list" where
  "two_announcements = [[(js ''id'', VNum (Fin 1))], [(js ''title'', VStr (js ''t''))]]"


text \<open>Opening the dialog on the announcements shows them without marking them read.\<close>

lemma opened_announcements_unread:
  "activeTab (handleOpenDialog notice (Some Announcements_tab) n) = Announcements_tab \<and>
   announcementsUnread items (store (handleOpenDialog notice (Some Announcements_tab) n)) = announcementsUnread items (store n)"
  by (simp add: handleOpenDialog_def announcementsUnread_def isAnnouncementRead_def markNoticeRead_def)

end
