(* ===== verification/Passkey.thy ===== *)
theory Passkey
  imports JsCoerce
begin

text \<open>
  The conversions between the server's JSON and the browser's credential objects (lib/passkey.ts): bytes and base64url
  texts, the options for creating and for requesting a credential, the answers and the check for support.
  btoa and atob are modelled after the standard (forgiving base64 decoding).
\<close>

section \<open>Base64\<close>

type_synonym bytes = "int list"

definition b64_char :: "int \<Rightarrow> int" where
  "b64_char i = (if i < 26 then 65 + i else if i < 52 then 71 + i else if i < 62 then i - 4
     else if i = 62 then 43 else 47)"

definition b64_val :: "int \<Rightarrow> int option" where
  "b64_val c = (if 65 \<le> c \<and> c \<le> 90 then Some (c - 65) else if 97 \<le> c \<and> c \<le> 122 then Some (c - 71)
     else if 48 \<le> c \<and> c \<le> 57 then Some (c + 4) else if c = 43 then Some 62 else if c = 47 then Some 63 else None)"

fun btoa :: "bytes \<Rightarrow> jstr" where
  "btoa [] = []"
| "btoa [a] = [b64_char (a div 4), b64_char (a mod 4 * 16), 61, 61]"
| "btoa [a, b] = [b64_char (a div 4), b64_char (a mod 4 * 16 + b div 16), b64_char (b mod 16 * 4), 61]"
| "btoa (a # b # c # bs) = [b64_char (a div 4), b64_char (a mod 4 * 16 + b div 16),
     b64_char (b mod 16 * 4 + c div 64), b64_char (c mod 64)] @ btoa bs"

fun from_sextets :: "int list \<Rightarrow> bytes" where
  "from_sextets (a # b # c # d # vs) =
     [a * 4 + b div 16, b mod 16 * 16 + c div 4, c mod 4 * 64 + d] @ from_sextets vs"
| "from_sextets [a, b, c] = [a * 4 + b div 16, b mod 16 * 16 + c div 4]"
| "from_sextets [a, b] = [a * 4 + b div 16]"
| "from_sextets _ = []"

definition ascii_ws :: "int \<Rightarrow> bool" where
  "ascii_ws c \<longleftrightarrow> c = 9 \<or> c = 10 \<or> c = 12 \<or> c = 13 \<or> c = 32"

definition strip_equals :: "jstr \<Rightarrow> jstr" where
  "strip_equals s = (if s \<noteq> [] \<and> last s = 61 then butlast s else s)"

text \<open>None: an InvalidCharacterError.\<close>

definition atob :: "jstr \<Rightarrow> bytes option" where
  "atob text =
     (let s = filter (\<lambda>c. \<not> ascii_ws c) text;
          s' = (if length s mod 4 = 0 then strip_equals (strip_equals s) else s) in
      if length s' mod 4 = 1 \<or> \<not> list_all (\<lambda>c. b64_val c \<noteq> None) s' then None
      else Some (from_sextets (map (\<lambda>c. the (b64_val c)) s')))"

section \<open>Bytes and base64url\<close>

datatype passkey_error = Invalid_character | Missing_options | Not_an_object

definition replace_unit :: "int \<Rightarrow> int \<Rightarrow> jstr \<Rightarrow> jstr" where
  "replace_unit a b s = map (\<lambda>c. if c = a then b else c) s"

text \<open>The argument is a text, or undefined or null.\<close>

definition base64UrlToArrayBuffer :: "jstr option \<Rightarrow> passkey_error + bytes" where
  "base64UrlToArrayBuffer v = (case v of None \<Rightarrow> Inr [] | Some s \<Rightarrow>
     if s = [] then Inr []
     else let padding = replicate ((4 - length s mod 4) mod 4) 61;
              base64 = replace_unit 95 47 (replace_unit 45 43 (s @ padding)) in
       (case atob base64 of None \<Rightarrow> Inl Invalid_character | Some bs \<Rightarrow> Inr bs))"

definition drop_equals :: "jstr \<Rightarrow> jstr" where
  "drop_equals s = rev (dropWhile (\<lambda>c. c = 61) (rev s))"

definition arrayBufferToBase64Url :: "bytes \<Rightarrow> jstr" where
  "arrayBufferToBase64Url bs = drop_equals (replace_unit 47 95 (replace_unit 43 45 (btoa bs)))"

section \<open>Options and answers\<close>

text \<open>Objects that hold bytes beside JSON values.\<close>

datatype cred = Json jsval | Buffer bytes | Fields "(jstr \<times> cred) list" | Elements "cred list"

definition spread_creds :: "jsval \<Rightarrow> cred named" where
  "spread_creds v = map (\<lambda>p. (fst p, Json (snd p))) (entries_of v)"

text \<open>The texts the server sends; a value of another type counts as missing.\<close>

definition credential_text :: "jsval \<Rightarrow> jstr option" where
  "credential_text v = (case v of VStr s \<Rightarrow> Some s | _ \<Rightarrow> None)"

definition options_of :: "jsval \<Rightarrow> jsval" where
  "options_of payload =
     js_coalesce (js_coalesce (js_coalesce (opt_prop payload (js ''publicKey'')) (opt_prop payload (js ''PublicKey'')))
       (opt_prop payload (js ''response''))) (opt_prop payload (js ''Response''))"

text \<open>\<open>{ ...item, id: bytes }\<close>; reading a property of null or undefined throws.\<close>

definition with_id :: "jsval \<Rightarrow> passkey_error + cred" where
  "with_id item = (if nullish item then Inl Not_an_object
     else case base64UrlToArrayBuffer (credential_text (js_prop item (js ''id''))) of Inl e \<Rightarrow> Inl e
       | Inr bs \<Rightarrow> Inr (Fields (named_put (js ''id'') (Buffer bs) (spread_creds item))))"

fun with_ids :: "jsval list \<Rightarrow> passkey_error + cred list" where
  "with_ids [] = Inr []"
| "with_ids (v # vs) = (case with_id v of Inl e \<Rightarrow> Inl e
     | Inr c \<Rightarrow> (case with_ids vs of Inl e \<Rightarrow> Inl e | Inr cs \<Rightarrow> Inr (c # cs)))"

definition put_credentials :: "jstr \<Rightarrow> jsval \<Rightarrow> cred named \<Rightarrow> passkey_error + cred named" where
  "put_credentials k options r = (case js_prop options k of
     VArr vs \<Rightarrow> (case with_ids vs of Inl e \<Rightarrow> Inl e | Inr cs \<Rightarrow> Inr (named_put k (Elements cs) r))
   | _ \<Rightarrow> Inr r)"

definition prepareCredentialCreationOptions :: "jsval \<Rightarrow> passkey_error + cred named" where
  "prepareCredentialCreationOptions payload =
     (let options = options_of payload; user = js_prop options (js ''user'') in
      if \<not> truthy options then Inl Missing_options
      else case base64UrlToArrayBuffer (credential_text (js_prop options (js ''challenge''))) of Inl e \<Rightarrow> Inl e
      | Inr challenge \<Rightarrow>
         (case base64UrlToArrayBuffer (credential_text (opt_prop user (js ''id''))) of Inl e \<Rightarrow> Inl e
          | Inr i \<Rightarrow>
             (case put_credentials (js ''excludeCredentials'') options
                (named_put (js ''user'') (Fields (named_put (js ''id'') (Buffer i) (spread_creds user)))
                  (named_put (js ''challenge'') (Buffer challenge) (spread_creds options))) of Inl e \<Rightarrow> Inl e
              | Inr r \<Rightarrow> Inr (if js_prop options (js ''attestationFormats'') = VArr []
                  then AList.delete (js ''attestationFormats'') r else r))))"

definition prepareCredentialRequestOptions :: "jsval \<Rightarrow> passkey_error + cred named" where
  "prepareCredentialRequestOptions payload =
     (let options = options_of payload in
      if \<not> truthy options then Inl Missing_options
      else case base64UrlToArrayBuffer (credential_text (js_prop options (js ''challenge''))) of Inl e \<Rightarrow> Inl e
      | Inr challenge \<Rightarrow> put_credentials (js ''allowCredentials'') options
          (named_put (js ''challenge'') (Buffer challenge) (spread_creds options)))"

text \<open>The browser's credential objects.\<close>

record registration =
  rg_id :: jstr
  rg_rawId :: bytes
  rg_type :: jstr
  rg_attachment :: jsval
  rg_attestationObject :: bytes
  rg_clientDataJSON :: bytes
  rg_transports :: jsval
  rg_extensions :: "jsval option"

record assertion =
  as_id :: jstr
  as_rawId :: bytes
  as_type :: jstr
  as_attachment :: jsval
  as_authenticatorData :: bytes
  as_clientDataJSON :: bytes
  as_signature :: bytes
  as_userHandle :: "bytes option"
  as_extensions :: "jsval option"

definition b64_field :: "bytes \<Rightarrow> jsval" where
  "b64_field bs = VStr (arrayBufferToBase64Url bs)"

definition extension_results :: "jsval option \<Rightarrow> jsval" where
  "extension_results r = (case r of None \<Rightarrow> VObj [] | Some v \<Rightarrow> js_coalesce v (VObj []))"

definition buildRegistrationResult :: "registration option \<Rightarrow> jsval" where
  "buildRegistrationResult cr = (case cr of None \<Rightarrow> VNull | Some c \<Rightarrow>
     VObj [(js ''id'', VStr (rg_id c)), (js ''rawId'', b64_field (rg_rawId c)), (js ''type'', VStr (rg_type c)),
       (js ''authenticatorAttachment'', rg_attachment c),
       (js ''response'', VObj [(js ''attestationObject'', b64_field (rg_attestationObject c)),
         (js ''clientDataJSON'', b64_field (rg_clientDataJSON c)), (js ''transports'', rg_transports c)]),
       (js ''clientExtensionResults'', extension_results (rg_extensions c))])"

definition buildAssertionResult :: "assertion option \<Rightarrow> jsval" where
  "buildAssertionResult cr = (case cr of None \<Rightarrow> VNull | Some c \<Rightarrow>
     VObj [(js ''id'', VStr (as_id c)), (js ''rawId'', b64_field (as_rawId c)), (js ''type'', VStr (as_type c)),
       (js ''authenticatorAttachment'', as_attachment c),
       (js ''response'', VObj [(js ''authenticatorData'', b64_field (as_authenticatorData c)),
         (js ''clientDataJSON'', b64_field (as_clientDataJSON c)), (js ''signature'', b64_field (as_signature c)),
         (js ''userHandle'', (case as_userHandle c of None \<Rightarrow> VNull | Some bs \<Rightarrow> b64_field bs))]),
       (js ''clientExtensionResults'', extension_results (as_extensions c))])"

text \<open>A check of the browser: not there, an answer, or a rejected promise.\<close>

datatype probe = Absent | Answers bool | Rejects

definition isPasskeySupported :: "bool \<Rightarrow> bool \<Rightarrow> probe \<Rightarrow> probe \<Rightarrow> bool" where
  "isPasskeySupported has_window has_credential conditional platform =
     (if \<not> has_window then False
      else if \<not> has_credential then False
      else if conditional = Answers True then True
      else case platform of Absent \<Rightarrow> True | Answers b \<Rightarrow> b | Rejects \<Rightarrow> False)"

section \<open>Bytes survive the conversion\<close>

definition is_bytes :: "bytes \<Rightarrow> bool" where
  "is_bytes bs \<longleftrightarrow> (\<forall>b \<in> set bs. 0 \<le> b \<and> b < 256)"

lemma is_bytes_Cons [simp]: "is_bytes (b # bs) \<longleftrightarrow> 0 \<le> b \<and> b < 256 \<and> is_bytes bs"
  by (auto simp: is_bytes_def)

definition sextet :: "int \<Rightarrow> bool" where
  "sextet i \<longleftrightarrow> 0 \<le> i \<and> i < 64"

lemma b64_val_char: "sextet i \<Longrightarrow> b64_val (b64_char i) = Some i"
  by (auto simp: sextet_def b64_val_def b64_char_def)

definition url_char :: "int \<Rightarrow> bool" where
  "url_char c \<longleftrightarrow> is_digit c \<or> (65 \<le> c \<and> c \<le> 90) \<or> (97 \<le> c \<and> c \<le> 122) \<or> c = 45 \<or> c = 95"

lemma b64_char_range: "sextet i \<Longrightarrow> url_char (b64_char i) \<or> b64_char i = 43 \<or> b64_char i = 47"
  by (auto simp: sextet_def url_char_def b64_char_def is_digit_def)

text \<open>The sextets of a byte list; btoa prints them and pads.\<close>

fun sextets :: "bytes \<Rightarrow> int list" where
  "sextets [] = []"
| "sextets [a] = [a div 4, a mod 4 * 16]"
| "sextets [a, b] = [a div 4, a mod 4 * 16 + b div 16, b mod 16 * 4]"
| "sextets (a # b # c # bs) = [a div 4, a mod 4 * 16 + b div 16, b mod 16 * 4 + c div 64, c mod 64] @ sextets bs"

definition pad_length :: "nat \<Rightarrow> nat" where
  "pad_length n = (4 - n mod 4) mod 4"

lemma btoa_sextets: "btoa bs = map b64_char (sextets bs) @ replicate (pad_length (length (sextets bs))) 61"
  by (induction bs rule: btoa.induct) (simp_all add: pad_length_def numeral_2_eq_2)

lemma length_sextets: "length (sextets bs) = (4 * length bs + 2) div 3"
  by (induction bs rule: sextets.induct) simp_all

lemma length_sextets_mod: "length (sextets bs) mod 4 \<noteq> 1"
  by (induction bs rule: sextets.induct) simp_all

lemma sextets_range: "is_bytes bs \<Longrightarrow> \<forall>i \<in> set (sextets bs). sextet i"
  by (induction bs rule: sextets.induct) (auto simp: sextet_def)

lemma byte_parts:
  fixes b :: int
  assumes "0 \<le> b" "b < 256"
  shows "b div 16 div 16 = 0" "b div 16 mod 16 = b div 16" "b div 64 div 4 = 0" "b div 64 mod 4 = b div 64"
proof -
  have "0 \<le> b div 16" "b div 16 < 16" "0 \<le> b div 64" "b div 64 < 4" using assms by linarith+
  then show "b div 16 div 16 = 0" "b div 16 mod 16 = b div 16" "b div 64 div 4 = 0" "b div 64 mod 4 = b div 64"
    by simp_all
qed

lemma from_sextets_sextets: "is_bytes bs \<Longrightarrow> from_sextets (sextets bs) = bs"
  by (induction bs rule: sextets.induct) (simp_all add: mult.commute byte_parts)

lemma pad_length_le: "n mod 4 \<noteq> 1 \<Longrightarrow> pad_length n \<le> 2"
proof -
  assume "n mod 4 \<noteq> 1"
  then have "n mod 4 = 0 \<or> n mod 4 = 2 \<or> n mod 4 = 3" by presburger
  then show ?thesis by (auto simp: pad_length_def)
qed

lemma pad_length_fills: "(n + pad_length n) mod 4 = 0"
proof -
  have "(n + pad_length n) mod 4 = (n mod 4 + pad_length n) mod 4" by (simp add: mod_add_left_eq)
  moreover have "n mod 4 = 0 \<or> n mod 4 = 1 \<or> n mod 4 = 2 \<or> n mod 4 = 3" by presburger
  ultimately show ?thesis by (auto simp: pad_length_def)
qed

lemma b64_char_not: "sextet i \<Longrightarrow> b64_char i \<noteq> 61 \<and> b64_char i \<noteq> 45 \<and> b64_char i \<noteq> 95 \<and> \<not> ascii_ws (b64_char i)"
  by (auto simp: sextet_def b64_char_def ascii_ws_def)

lemma strip_equals_pad:
  assumes "\<forall>c \<in> set s. c \<noteq> 61" "n \<le> 2"
  shows "strip_equals (strip_equals (s @ replicate n 61)) = s"
proof -
  have free: "strip_equals s = s" using assms(1) last_in_set by (fastforce simp: strip_equals_def)
  have one: "strip_equals (s @ [61]) = s" by (simp add: strip_equals_def)
  have "n = 0 \<or> n = 1 \<or> n = 2" using assms(2) by auto
  then show ?thesis
  proof (elim disjE)
    assume "n = 2"
    moreover have "strip_equals (s @ [61, 61]) = s @ [61]" by (simp add: strip_equals_def butlast_append)
    ultimately show ?thesis using one by (simp add: numeral_2_eq_2)
  qed (simp_all add: free one)
qed

lemma atob_padded:
  assumes "\<forall>i \<in> set vs. sextet i" "length vs mod 4 \<noteq> 1"
  shows "atob (map b64_char vs @ replicate (pad_length (length vs)) 61) = Some (from_sextets vs)"
proof -
  let ?s = "map b64_char vs" and ?n = "pad_length (length vs)"
  have n: "?n \<le> 2" "(length vs + ?n) mod 4 = 0" using assms(2) by (simp_all add: pad_length_le pad_length_fills)
  have f: "filter (\<lambda>c. \<not> ascii_ws c) (?s @ replicate ?n 61) = ?s @ replicate ?n 61"
    using b64_char_not assms(1) by (auto simp: filter_id_conv ascii_ws_def)
  have st: "strip_equals (strip_equals (?s @ replicate ?n 61)) = ?s"
    by (rule strip_equals_pad) (use n(1) b64_char_not assms(1) in auto)
  have v: "map (\<lambda>c. the (b64_val c)) ?s = vs" using assms(1) by (induction vs) (simp_all add: b64_val_char)
  have "list_all (\<lambda>c. b64_val c \<noteq> None) ?s" using assms(1) by (auto simp: list_all_iff b64_val_char)
  then show ?thesis using n(2) assms(2) unfolding atob_def f Let_def by (simp add: st v del: map_map)
qed

lemma url_and_back:
  assumes "\<forall>i \<in> set vs. sextet i"
  shows "replace_unit 95 47 (replace_unit 45 43 (replace_unit 47 95 (replace_unit 43 45 (map b64_char vs)) @ replicate n 61)) =
    map b64_char vs @ replicate n 61"
  using assms b64_char_not by (induction vs) (auto simp: replace_unit_def)

lemma drop_equals_append: "\<forall>c \<in> set s. c \<noteq> 61 \<Longrightarrow> drop_equals (s @ replicate n 61) = s"
proof -
  assume a: "\<forall>c \<in> set s. c \<noteq> 61"
  have "dropWhile (\<lambda>c. c = 61) (replicate n 61 @ rev s) = rev s"
    using a hd_in_set [of "rev s"] by (induction n) (auto simp: dropWhile_eq_self_iff)
  then show ?thesis by (simp add: drop_equals_def)
qed

lemma base64Url_sextets:
  assumes "is_bytes bs"
  shows "arrayBufferToBase64Url bs = replace_unit 47 95 (replace_unit 43 45 (map b64_char (sextets bs)))"
proof -
  let ?s = "replace_unit 47 95 (replace_unit 43 45 (map b64_char (sextets bs)))"
  have "replace_unit 47 95 (replace_unit 43 45 (btoa bs)) = ?s @ replicate (pad_length (length (sextets bs))) 61"
    by (simp add: btoa_sextets replace_unit_def)
  moreover have "\<forall>c \<in> set ?s. c \<noteq> 61"
    using sextets_range [OF assms] b64_char_not by (auto simp: replace_unit_def)
  ultimately show ?thesis by (simp add: arrayBufferToBase64Url_def drop_equals_append)
qed

lemma passkey_bytes_roundtrip_aux:
  assumes "is_bytes bs"
  shows "base64UrlToArrayBuffer (Some (arrayBufferToBase64Url bs)) = Inr bs"
proof (cases "bs = []")
  case True then show ?thesis by (simp add: base64Url_sextets is_bytes_def replace_unit_def base64UrlToArrayBuffer_def)
next
  case False
  note r = sextets_range [OF assms]
  let ?s = "replace_unit 47 95 (replace_unit 43 45 (map b64_char (sextets bs)))"
  have "length ?s = length (sextets bs)" by (simp add: replace_unit_def)
  moreover have "?s \<noteq> []" using False by (cases bs rule: sextets.cases) (auto simp: replace_unit_def)
  ultimately show ?thesis
    using atob_padded [OF r length_sextets_mod] from_sextets_sextets [OF assms]
    by (simp add: base64Url_sextets [OF assms] base64UrlToArrayBuffer_def Let_def url_and_back [OF r] flip: pad_length_def)
qed

text \<open>C21. Bytes written as base64url are read back as the same bytes, so that two byte lists are never written as the same
  text.\<close>

theorem passkey_bytes_roundtrip:
  assumes "is_bytes bs" "is_bytes cs"
  shows "base64UrlToArrayBuffer (Some (arrayBufferToBase64Url bs)) = Inr bs \<and>
    (arrayBufferToBase64Url bs = arrayBufferToBase64Url cs) = (bs = cs)"
  using passkey_bytes_roundtrip_aux [OF assms(1)] passkey_bytes_roundtrip_aux [OF assms(2)] by (metis Inr_inject)

theorem passkey_bytes_roundtrip_witness:
  "base64UrlToArrayBuffer (Some (arrayBufferToBase64Url [251, 255, 0, 7])) = Inr [251, 255, 0, 7]"
  using passkey_bytes_roundtrip [of "[251, 255, 0, 7]" "[]"] by (simp add: is_bytes_def)

text \<open>The text has four units for three bytes, all of them safe in a URL.\<close>

theorem base64url_shape:
  assumes "is_bytes bs"
  shows "length (arrayBufferToBase64Url bs) = (4 * length bs + 2) div 3 \<and>
    list_all url_char (arrayBufferToBase64Url bs)"
proof -
  have "\<forall>i \<in> set (sextets bs). url_char (b64_char i) \<or> b64_char i = 43 \<or> b64_char i = 47"
    using sextets_range [OF assms] b64_char_range by blast
  then have "list_all url_char (replace_unit 47 95 (replace_unit 43 45 (map b64_char (sextets bs))))"
    by (auto simp: list_all_iff replace_unit_def) (auto simp: url_char_def)
  then show ?thesis by (simp add: base64Url_sextets [OF assms] replace_unit_def length_sextets)
qed

theorem base64url_shape_witness:
  "length (arrayBufferToBase64Url [1, 2, 3, 4]) = 6 \<and> list_all url_char (arrayBufferToBase64Url [1, 2, 3, 4])"
  using base64url_shape [of "[1, 2, 3, 4]"] by (simp add: is_bytes_def)

section \<open>Prepared options\<close>

lemma put_credentials_get:
  "put_credentials k options r = Inr r' \<Longrightarrow> k' \<noteq> k \<Longrightarrow> named_get r' k' = named_get r k'"
  by (auto simp: put_credentials_def split: jsval.splits sum.splits)

lemma spread_creds_get: "named_get (spread_creds v) k = map_option Json (map_of (entries_of v) k)"
proof -
  have "map_of (map (\<lambda>p. (fst p, Json (snd p))) xs) k = map_option Json (map_of xs k)" for xs :: jsobj
    by (induction xs) auto
  then show ?thesis by (simp add: named_get_def spread_creds_def)
qed

text \<open>Options that are prepared carry the decoded challenge and every other field as the server sent it, for creating
  a credential (apart from the user and the excluded credentials, whose ids are decoded, and an empty list of
  attestation formats, which is dropped) and for requesting one.\<close>

theorem prepared_options:
  assumes "prepareCredentialCreationOptions payload = Inr r" "prepareCredentialRequestOptions payload = Inr q"
    and "js_prop (options_of payload) (js ''challenge'') = VStr (arrayBufferToBase64Url bs)" "is_bytes bs"
    and "k \<noteq> js ''challenge''" "k \<noteq> js ''user''" "k \<noteq> js ''excludeCredentials''" "k \<noteq> js ''allowCredentials''"
      "k \<noteq> js ''attestationFormats''"
  shows "named_get r (js ''challenge'') = Some (Buffer bs) \<and> named_get q (js ''challenge'') = Some (Buffer bs) \<and>
    named_get r k = map_option Json (map_of (entries_of (options_of payload)) k) \<and>
    named_get q k = map_option Json (map_of (entries_of (options_of payload)) k)"
proof -
  let ?o = "options_of payload"
  have d: "base64UrlToArrayBuffer (credential_text (js_prop ?o (js ''challenge''))) = Inr bs"
    using passkey_bytes_roundtrip_aux assms(3,4) by (simp add: credential_text_def)
  obtain i r1 where r1: "put_credentials (js ''excludeCredentials'') ?o
      (named_put (js ''user'') (Fields (named_put (js ''id'') (Buffer i) (spread_creds (js_prop ?o (js ''user'')))))
        (named_put (js ''challenge'') (Buffer bs) (spread_creds ?o))) = Inr r1"
    "r = (if js_prop ?o (js ''attestationFormats'') = VArr [] then AList.delete (js ''attestationFormats'') r1 else r1)"
    using assms(1) d by (auto simp: prepareCredentialCreationOptions_def Let_def split: if_splits sum.splits)
  have del: "named_get r k' = named_get r1 k'" if "k' \<noteq> js ''attestationFormats''" for k'
    using that unfolding r1(2) by (simp add: named_get_def delete_conv')
  have q: "put_credentials (js ''allowCredentials'') ?o (named_put (js ''challenge'') (Buffer bs) (spread_creds ?o)) = Inr q"
    using assms(2) d by (auto simp: prepareCredentialRequestOptions_def Let_def split: if_splits)
  show ?thesis
    using del [of "js ''challenge''"] del [of k] put_credentials_get [OF r1(1), of "js ''challenge''"] put_credentials_get [OF r1(1), of k]
      put_credentials_get [OF q, of "js ''challenge''"] put_credentials_get [OF q, of k] assms(5-9)
    by (simp add: spread_creds_get)
qed

theorem prepared_options_witness:
  "\<exists>r. prepareCredentialRequestOptions (VObj [(js ''publicKey'', VObj [(js ''challenge'', VStr (js ''_-8'')), (js ''timeout'', VNum (Fin 60))])]) = Inr r \<and>
     named_get r (js ''challenge'') = Some (Buffer [255, 239]) \<and> named_get r (js ''timeout'') = Some (Json (VNum (Fin 60)))"
proof -
  let ?p = "VObj [(js ''publicKey'', VObj [(js ''challenge'', VStr (js ''_-8'')), (js ''timeout'', VNum (Fin 60))])]"
  have b: "base64UrlToArrayBuffer (Some (js ''_-8'')) = Inr [255, 239]" by code_simp
  have n: "base64UrlToArrayBuffer None = Inr []" by (simp add: base64UrlToArrayBuffer_def)
  have e: "\<exists>r. prepareCredentialCreationOptions ?p = Inr r" "\<exists>q. prepareCredentialRequestOptions ?p = Inr q"
    by (simp_all add: prepareCredentialCreationOptions_def prepareCredentialRequestOptions_def options_of_def opt_prop_def
        js_coalesce_def obj_get_def credential_text_def put_credentials_def b n)
  have c: "js_prop (options_of ?p) (js ''challenge'') = VStr (arrayBufferToBase64Url [255, 239])" by code_simp
  have t: "map_of (entries_of (options_of ?p)) (js ''timeout'') = Some (VNum (Fin 60))" by code_simp
  from e obtain r q where rq: "prepareCredentialCreationOptions ?p = Inr r" "prepareCredentialRequestOptions ?p = Inr q" by blast
  from prepared_options [OF rq c, of "js ''timeout''"] rq(2) t show ?thesis by (auto simp: is_bytes_def)
qed

end
