(* ===== verification/SidebarNav.thy ===== *)
theory SidebarNav
  imports MaintenanceConfig
begin

text \<open>
  The sidebar: web/default/src/hooks/use-sidebar-config.ts (the modules an administrator and a user
  left on), hooks/use-sidebar-data.ts (the entries), components/layout/components/app-sidebar.tsx (what
  is shown), components/layout/lib/url-utils.ts (which entry is active) and
  components/layout/lib/workspace-registry.ts (which groups belong to a path). Addresses are values: the
  router accepts texts and objects. Modules named like members of Object.prototype are outside the model.
\<close>

section \<open>The settings\<close>

definition on_flags :: "string list \<Rightarrow> jsval" where
  "on_flags ks = VObj (map (\<lambda>k. (js k, VBool True)) ks)"

definition DEFAULT_SIDEBAR_MODULES :: jsobj where
  "DEFAULT_SIDEBAR_MODULES =
     [(js ''chat'', on_flags [''enabled'', ''playground'', ''images'', ''chat'']),
      (js ''console'', on_flags [''enabled'', ''detail'', ''token'', ''log'', ''task'']),
      (js ''personal'', on_flags [''enabled'', ''topup'', ''rewards'', ''community'', ''personal'']),
      (js ''admin'', on_flags [''enabled'', ''channel'', ''models'', ''redemption'', ''user'', ''setting'',
         ''subscription'', ''blind_box''])]"

text \<open>\<open>{ ...a, ...b }\<close>\<close>

definition put_entries :: "jsobj \<Rightarrow> jsobj \<Rightarrow> jsobj" where
  "put_entries kvs r = foldl (\<lambda>r (k, v). obj_set k v r) r kvs"

definition spread_two :: "jsval \<Rightarrow> jsval \<Rightarrow> jsobj" where
  "spread_two a b = put_entries (entries_of b) (put_entries (entries_of a) [])"

definition default_flag :: "jsobj \<Rightarrow> jstr \<times> jsval \<Rightarrow> jsobj" where
  "default_flag sec = (\<lambda>(moduleKey, v). if obj_get sec moduleKey = VUndef then obj_set moduleKey v sec else sec)"

definition merge_section :: "jsobj \<Rightarrow> jstr \<times> jsval \<Rightarrow> jsobj" where
  "merge_section merged = (\<lambda>(sectionKey, defaultSection).
     let existingSection = obj_get merged sectionKey in
     if \<not> truthy existingSection then obj_set sectionKey (VObj (spread_two defaultSection VUndef)) merged
     else obj_set sectionKey
       (VObj (foldl default_flag (spread_two defaultSection existingSection) (entries_of defaultSection))) merged)"

definition mergeWithDefaultSidebarModules :: "jsval \<Rightarrow> jsobj" where
  "mergeWithDefaultSidebarModules config = foldl merge_section (put_entries (entries_of config) []) DEFAULT_SIDEBAR_MODULES"

definition URL_TO_CONFIG_MAP :: "(jstr \<times> jstr \<times> jstr) list" where
  "URL_TO_CONFIG_MAP = map (\<lambda>(u, s, m). (js u, js s, js m))
    [(''/playground'', ''chat'', ''playground''), (''/images'', ''chat'', ''images''),
     (''/dashboard'', ''console'', ''detail''), (''/dashboard/overview'', ''console'', ''detail''),
     (''/dashboard/models'', ''console'', ''detail''), (''/dashboard/users'', ''console'', ''detail''),
     (''/group-status'', ''console'', ''detail''), (''/keys'', ''console'', ''token''),
     (''/usage-logs'', ''console'', ''log''), (''/usage-logs/common'', ''console'', ''log''),
     (''/usage-logs/task'', ''console'', ''task''), (''/wallet'', ''personal'', ''topup''),
     (''/packages'', ''personal'', ''topup''), (''/bounties'', ''personal'', ''topup''),
     (''/bounties/admin'', ''admin'', ''subscription''), (''/community-resources'', ''personal'', ''community''),
     (''/group-buy'', ''personal'', ''topup''), (''/blind-box'', ''personal'', ''topup''),
     (''/invite-rewards'', ''personal'', ''rewards''), (''/profile'', ''personal'', ''personal''),
     (''/channels'', ''admin'', ''channel''), (''/models'', ''admin'', ''models''),
     (''/models/metadata'', ''admin'', ''models''), (''/models/deployments'', ''admin'', ''models''),
     (''/users'', ''admin'', ''user''), (''/redemption-codes'', ''admin'', ''redemption''),
     (''/subscriptions'', ''admin'', ''subscription''), (''/blind-box-admin'', ''admin'', ''blind_box''),
     (''/system-settings'', ''admin'', ''setting''), (''/system-settings/site'', ''admin'', ''setting'')]"

definition parseSidebarConfig :: "jstr option \<Rightarrow> jsobj" where
  "parseSidebarConfig v = (case v of
     None \<Rightarrow> DEFAULT_SIDEBAR_MODULES
   | Some s \<Rightarrow> if s = [] \<or> trim s = [] then DEFAULT_SIDEBAR_MODULES
       else case json_parse s of
         None \<Rightarrow> DEFAULT_SIDEBAR_MODULES
       | Some parsed \<Rightarrow> mergeWithDefaultSidebarModules parsed)"

definition parseUserSidebarConfig :: "jstr option \<Rightarrow> jsval option" where
  "parseUserSidebarConfig v = (case v of
     None \<Rightarrow> None
   | Some s \<Rightarrow> if s = [] \<or> trim s = [] then None
       else case json_parse s of
         None \<Rightarrow> None
       | Some parsed \<Rightarrow> if \<not> truthy parsed \<or> \<not> is_object_type parsed then None else Some parsed)"

section \<open>Modules and entries\<close>

definition admin_allows :: "jsobj \<Rightarrow> jstr \<Rightarrow> jstr \<Rightarrow> bool" where
  "admin_allows adminConfig sec m =
     (let adminSection = obj_get adminConfig sec in
      truthy adminSection \<and> truthy (js_prop adminSection (js ''enabled'')) \<and>
      strict_eq (js_prop adminSection m) (VBool True))"

definition user_allows :: "jsval option \<Rightarrow> jstr \<Rightarrow> jstr \<Rightarrow> bool" where
  "user_allows userConfig sec m = (case userConfig of None \<Rightarrow> True | Some u \<Rightarrow>
     let userSection = js_prop u sec in
     if \<not> truthy userSection then True
     else if strict_eq (js_prop userSection (js ''enabled'')) (VBool False) then False
     else \<not> strict_eq (js_prop userSection m) (VBool False))"

definition isModuleEnabled :: "jsval \<Rightarrow> jsobj \<Rightarrow> jsval option \<Rightarrow> bool" where
  "isModuleEnabled url adminConfig userConfig = (case map_of URL_TO_CONFIG_MAP (to_str url) of
     None \<Rightarrow> True
   | Some (sec, m) \<Rightarrow> if \<not> admin_allows adminConfig sec m then False else user_allows userConfig sec m)"

record nav_base =
  nb_title :: jstr
  nb_activeUrls :: "jsval list option"
  nb_configUrls :: "jsval list option"

datatype nav_item = NavLink nav_base jsval | NavCollapsible nav_base "(nav_base \<times> jsval) list" | NavChatPresets nav_base

record nav_group =
  ng_id :: "jstr option"
  ng_title :: jstr
  ng_items :: "nav_item list"

definition isNavItemVisible :: "nav_item \<Rightarrow> jsobj \<Rightarrow> jsval option \<Rightarrow> bool" where
  "isNavItemVisible item a u = (case item of
     NavChatPresets _ \<Rightarrow> if \<not> admin_allows a (js ''chat'') (js ''chat'') then False
       else user_allows u (js ''chat'') (js ''chat'')
   | NavLink b url \<Rightarrow> if truthy url
       then list_ex (\<lambda>url. isModuleEnabled url a u) (case nb_configUrls b of Some urls \<Rightarrow> urls | None \<Rightarrow> [url])
       else True
   | NavCollapsible _ subs \<Rightarrow> list_ex (\<lambda>(_, url). isModuleEnabled url a u) subs)"

definition filter_subs :: "jsobj \<Rightarrow> jsval option \<Rightarrow> nav_item \<Rightarrow> nav_item" where
  "filter_subs a u item = (case item of
     NavCollapsible b subs \<Rightarrow> NavCollapsible b (filter (\<lambda>(_, url). isModuleEnabled url a u) subs)
   | _ \<Rightarrow> item)"

definition filterNavItems :: "nav_item list \<Rightarrow> jsobj \<Rightarrow> jsval option \<Rightarrow> nav_item list" where
  "filterNavItems items a u = filter (\<lambda>item. isNavItemVisible item a u) (map (filter_subs a u) items)"

definition filter_groups :: "jsobj \<Rightarrow> jsval option \<Rightarrow> nav_group list \<Rightarrow> nav_group list" where
  "filter_groups a u groups =
     filter (\<lambda>g. ng_items g \<noteq> []) (map (\<lambda>g. g\<lparr>ng_items := filterNavItems (ng_items g) a u\<rparr>) groups)"

text \<open>The status setting, the permission \<open>sidebar_settings\<close> of the user and the user's setting.\<close>

definition useSidebarConfig :: "jstr option \<Rightarrow> bool option \<Rightarrow> jstr option \<Rightarrow> nav_group list \<Rightarrow> nav_group list" where
  "useSidebarConfig admin_text permission user_text groups =
     filter_groups (parseSidebarConfig admin_text)
       (if permission = Some False then None else parseUserSidebarConfig user_text) groups"

definition ROLE_ADMIN :: int where "ROLE_ADMIN = 10"

text \<open>The groups the sidebar shows to a user of a role; a visitor has none.\<close>

definition currentNavGroups :: "int option \<Rightarrow> nav_group list \<Rightarrow> nav_group list" where
  "currentNavGroups userRole groups =
     (let isAdmin = (case userRole of Some r \<Rightarrow> r \<noteq> 0 \<and> ROLE_ADMIN \<le> r | None \<Rightarrow> False) in
      filter (\<lambda>g. if ng_id g = Some (js ''admin'') then isAdmin else True) groups)"

section \<open>The entries\<close>

definition base_of :: "jstr \<Rightarrow> nav_base" where
  "base_of title = \<lparr> nb_title = title, nb_activeUrls = None, nb_configUrls = None \<rparr>"

definition link_to :: "(jstr \<Rightarrow> jstr) \<Rightarrow> string \<Rightarrow> string \<Rightarrow> nav_item" where
  "link_to t title url = NavLink (base_of (t (js title))) (VStr (js url))"

text \<open>\<open>t\<close> translates titles.\<close>

definition useSidebarData :: "(jstr \<Rightarrow> jstr) \<Rightarrow> nav_group list" where
  "useSidebarData t =
    [\<lparr> ng_id = Some (js ''chat''), ng_title = t (js ''Chat''), ng_items =
       [link_to t ''AI chat'' ''/playground'', link_to t ''Image workspace'' ''/images'',
        NavChatPresets (base_of (t (js ''Presets'')))] \<rparr>,
     \<lparr> ng_id = Some (js ''general''), ng_title = t (js ''General''), ng_items =
       [link_to t ''Overview'' ''/dashboard/overview'', link_to t ''Group status'' ''/group-status'',
        link_to t ''Model analytics'' ''/dashboard/models'', link_to t ''API keys'' ''/keys'',
        link_to t ''Usage logs'' ''/usage-logs/common''] \<rparr>,
     \<lparr> ng_id = Some (js ''personal''), ng_title = t (js ''Personal''), ng_items =
       [link_to t ''Wallet'' ''/wallet'', link_to t ''Plans'' ''/packages'', link_to t ''Bounties'' ''/bounties'',
        link_to t ''Community resources'' ''/community-resources'', link_to t ''Collective benefit plan'' ''/group-buy'',
        link_to t ''Blind box'' ''/blind-box'', link_to t ''Invites'' ''/invite-rewards'', link_to t ''Profile'' ''/profile''] \<rparr>,
     \<lparr> ng_id = Some (js ''admin''), ng_title = t (js ''Admin''), ng_items =
       [link_to t ''Channels'' ''/channels'', link_to t ''Models'' ''/models/metadata'', link_to t ''Users'' ''/users'',
        link_to t ''Redemption codes'' ''/redemption-codes'', link_to t ''Subscriptions'' ''/subscriptions'',
        NavLink \<lparr> nb_title = t (js ''Blind box admin''), nb_activeUrls = Some [VStr (js ''/subscriptions'')],
            nb_configUrls = Some [VStr (js ''/blind-box-admin'')] \<rparr> (VStr (js ''/subscriptions#blind-box-admin'')),
        NavLink \<lparr> nb_title = t (js ''System settings''), nb_activeUrls = Some [VStr (js ''/system-settings'')],
            nb_configUrls = None \<rparr> (VStr (js ''/system-settings/site'')),
        link_to t ''Operations'' ''/operations'', link_to t ''Bounty management'' ''/bounties/admin''] \<rparr>]"

section \<open>The active entry\<close>

definition str_prop :: "jsobj \<Rightarrow> string \<Rightarrow> jstr" where
  "str_prop ob k = (case obj_get ob (js k) of VStr s \<Rightarrow> s | _ \<Rightarrow> [])"

definition urlToString :: "jsval \<Rightarrow> jstr option" where
  "urlToString url = (case url of
     VStr s \<Rightarrow> Some s
   | VObj ob \<Rightarrow> Some (str_prop ob ''pathname'' @ str_prop ob ''search'')
   | _ \<Rightarrow> None)"

definition without_query :: "jstr \<Rightarrow> jstr" where
  "without_query href = hd (split_on 63 href)"

definition normalizeHref :: "jstr \<Rightarrow> jstr" where
  "normalizeHref href = (let withoutQuery = without_query href in
     if 1 < length withoutQuery then rev (dropWhile (\<lambda>c. c = 47) (rev withoutQuery)) else withoutQuery)"

text \<open>The second part between slashes, undefined when there is none.\<close>

definition first_path :: "jstr \<Rightarrow> jstr option" where
  "first_path href = (let ps = split_on 47 href in if 1 < length ps then Some (ps ! 1) else None)"

definition sub_matches :: "jstr \<Rightarrow> jsval \<Rightarrow> bool" where
  "sub_matches href url =
     (if \<not> truthy url then False
      else case urlToString url of
        None \<Rightarrow> False
      | Some subItemUrl \<Rightarrow>
          if subItemUrl = [] then False
          else if href = subItemUrl then True
          else if without_query subItemUrl = without_query href
          then (if 63 \<notin> set subItemUrl then True else href = subItemUrl)
          else False)"

definition item_base :: "nav_item \<Rightarrow> nav_base" where
  "item_base item = (case item of NavLink b _ \<Rightarrow> b | NavCollapsible b _ \<Rightarrow> b | NavChatPresets b \<Rightarrow> b)"

definition item_url :: "nav_item \<Rightarrow> jsval" where
  "item_url item = (case item of NavLink _ url \<Rightarrow> url | _ \<Rightarrow> VUndef)"

definition item_subs :: "nav_item \<Rightarrow> (nav_base \<times> jsval) list" where
  "item_subs item = (case item of NavCollapsible _ subs \<Rightarrow> subs | _ \<Rightarrow> [])"

definition checkIsActive :: "jstr \<Rightarrow> nav_item \<Rightarrow> bool \<Rightarrow> bool" where
  "checkIsActive href item mainNav =
     (let hrefWithoutQuery = without_query href in
      if (case nb_activeUrls (item_base item) of None \<Rightarrow> False
          | Some urls \<Rightarrow> list_ex (\<lambda>url. urlToString url = Some hrefWithoutQuery) urls) then True
      else if list_ex (\<lambda>(_, url). sub_matches href url) (item_subs item) then True
      else if \<not> truthy (item_url item) then False
      else case urlToString (item_url item) of
        None \<Rightarrow> False
      | Some itemUrl \<Rightarrow>
          if itemUrl = [] then False
          else if href = itemUrl then True
          else if hrefWithoutQuery = without_query itemUrl \<and> 63 \<notin> set itemUrl then True
          else if mainNav \<and> first_path href \<noteq> None \<and> first_path href \<noteq> Some []
          then first_path href = first_path itemUrl
          else False)"

section \<open>The groups of a path\<close>

datatype workspace = System_settings_workspace | Default_workspace

text \<open>The registry: a path that begins with /system-settings, then any path.\<close>

definition getWorkspaceByPath :: "jstr \<Rightarrow> workspace" where
  "getWorkspaceByPath pathname =
     (if starts_with pathname (js ''/system-settings'') then System_settings_workspace else Default_workspace)"

definition isInWorkspace :: "jstr \<Rightarrow> workspace \<Rightarrow> bool" where
  "isInWorkspace pathname w \<longleftrightarrow> getWorkspaceByPath pathname = w"

text \<open>The groups of the settings come from their own registry, a parameter.\<close>

definition getNavGroupsForPath :: "nav_group list \<Rightarrow> jstr \<Rightarrow> nav_group list option" where
  "getNavGroupsForPath settings_groups pathname =
     (case getWorkspaceByPath pathname of System_settings_workspace \<Rightarrow> Some settings_groups | Default_workspace \<Rightarrow> None)"

definition appSidebar ::
  "(jstr \<Rightarrow> jstr) \<Rightarrow> nav_group list \<Rightarrow> jstr option \<Rightarrow> bool option \<Rightarrow> jstr option \<Rightarrow> int option \<Rightarrow> jstr \<Rightarrow> nav_group list" where
  "appSidebar t settings_groups admin_text permission user_text role pathname =
     (let allNavGroups = (case getNavGroupsForPath settings_groups pathname of Some gs \<Rightarrow> gs | None \<Rightarrow> useSidebarData t) in
      currentNavGroups role (useSidebarConfig admin_text permission user_text allNavGroups))"

section \<open>What a stored setting means\<close>

lemma obj_Cons: "obj_get ((k', v) # ob) k = (if k = k' then v else obj_get ob k)" "obj_has ((k', v) # ob) k \<longleftrightarrow> k = k' \<or> obj_has ob k"
  by (auto simp: obj_get_def obj_has_def)

lemma absent_undef: "\<not> obj_has ob k \<Longrightarrow> obj_get ob k = VUndef"
  by (simp add: obj_get_def obj_has_def)

lemma obj_wf_Cons: "obj_wf ((k, v) # ob) \<longleftrightarrow> \<not> obj_has ob k \<and> obj_wf ob"
  by (simp add: obj_wf_def obj_has_iff)

lemma put_entries_get:
  "obj_wf kvs \<Longrightarrow> obj_get (put_entries kvs r) k = (if obj_has kvs k then obj_get kvs k else obj_get r k)"
  by (induction kvs arbitrary: r) (auto simp: put_entries_def obj_wf_Cons obj_Cons)

lemma own_entries_get: "obj_wf ob \<Longrightarrow> obj_get (own_entries ob) k = obj_get ob k \<and> obj_has (own_entries ob) k = obj_has ob k \<and> obj_wf (own_entries ob)"
  by (simp add: obj_get_def obj_has_def map_of_own_entries) (simp add: obj_wf_def distinct_own_entries)

lemma spread_two_get:
  assumes "obj_wf d" "obj_wf ob"
  shows "obj_get (spread_two (VObj d) (VObj ob)) k = (if obj_has ob k then obj_get ob k else obj_get d k)"
    and "obj_get (spread_two (VObj d) VUndef) k = obj_get d k"
  using own_entries_get [OF assms(1)] own_entries_get [OF assms(2)]
  by (auto simp: spread_two_def put_entries_get absent_undef put_entries_get [of "[]"])

lemma default_flags_get:
  "obj_wf d \<Longrightarrow> obj_get (foldl default_flag sec d) k = (if obj_get sec k = VUndef then obj_get d k else obj_get sec k)"
  by (induction d arbitrary: sec) (auto simp: default_flag_def obj_wf_Cons obj_Cons absent_undef)

text \<open>The sections that belong to some address, and their modules.\<close>

definition sidebar_modules :: "jstr \<Rightarrow> string list" where
  "sidebar_modules s =
     (if s = js ''chat'' then [''enabled'', ''playground'', ''images'', ''chat'']
      else if s = js ''console'' then [''enabled'', ''detail'', ''token'', ''log'', ''task'']
      else if s = js ''personal'' then [''enabled'', ''topup'', ''rewards'', ''community'', ''personal'']
      else if s = js ''admin'' then [''enabled'', ''channel'', ''models'', ''redemption'', ''user'', ''setting'',
         ''subscription'', ''blind_box''] else [])"

text \<open>The value of a switch, on unless it is there.\<close>

definition flag_of :: "jsobj \<Rightarrow> jstr \<Rightarrow> jsval" where
  "flag_of o1 m = (if obj_get o1 m = VUndef then VBool True else obj_get o1 m)"

lemma on_flags_wf: "obj_wf (obj_of (on_flags (sidebar_modules s)))"
  by (simp add: sidebar_modules_def) (intro conjI impI; code_simp)

lemma obj_get_on_flags: "m \<in> js ` set ks \<Longrightarrow> obj_get (obj_of (on_flags ks)) m = VBool True"
  by (induction ks) (auto simp: on_flags_def obj_of_def obj_Cons)

lemma enabled_listed: "sidebar_modules s \<noteq> [] \<Longrightarrow> ''enabled'' \<in> set (sidebar_modules s)"
  by (cases "s = js ''chat''"; cases "s = js ''console''"; cases "s = js ''personal''"; cases "s = js ''admin''")
    (simp_all only: sidebar_modules_def if_True if_False list.set_intros simp_thms)

lemma merged_section:
  assumes "obj_wf ob" "sidebar_modules s \<noteq> []"
  shows "obj_get (mergeWithDefaultSidebarModules (VObj ob)) s =
    (let d = on_flags (sidebar_modules s); e = obj_get ob s in
     if \<not> truthy e then VObj (spread_two d VUndef) else VObj (foldl default_flag (spread_two d e) (entries_of d)))"
proof -
  have g: "obj_get (put_entries (own_entries ob) []) k = obj_get ob k" for k
    using own_entries_get [OF assms(1)] by (simp add: put_entries_get absent_undef)
  have "s \<in> {js ''chat'', js ''console'', js ''personal'', js ''admin''}"
    using assms(2) by (auto simp: sidebar_modules_def split: if_splits)
  then show ?thesis
    by (elim insertE emptyE)
      (simp_all add: mergeWithDefaultSidebarModules_def DEFAULT_SIDEBAR_MODULES_def merge_section_def Let_def g sidebar_modules_def)
qed

lemma merged_allows:
  assumes "obj_wf ob" "m \<in> js ` set (sidebar_modules s)"
  shows "\<not> truthy (obj_get ob s) \<Longrightarrow> admin_allows (mergeWithDefaultSidebarModules (VObj ob)) s m"
    and "obj_get ob s = VObj o1 \<Longrightarrow> obj_wf o1 \<Longrightarrow>
      admin_allows (mergeWithDefaultSidebarModules (VObj ob)) s m \<longleftrightarrow>
      truthy (flag_of o1 (js ''enabled'')) \<and> strict_eq (flag_of o1 m) (VBool True)"
proof -
  obtain d where d: "on_flags (sidebar_modules s) = VObj d" "obj_wf d"
    using on_flags_wf [of s] by (simp add: on_flags_def obj_of_def)
  have ne: "sidebar_modules s \<noteq> []" using assms(2) by auto
  have on: "obj_get d k = VBool True" if "k \<in> js ` set (sidebar_modules s)" for k
    using obj_get_on_flags [OF that] d(1) by (simp add: obj_of_def)
  note m = merged_section [OF assms(1) ne, unfolded d(1)] spread_two_get(1) [OF d(2)] spread_two_get(2) [OF d(2) obj_wf_Nil] own_entries_get [OF d(2)]
    default_flags_get [of "own_entries d"] on [OF assms(2)] on [OF imageI [OF enabled_listed [OF ne]]]
  show "\<not> truthy (obj_get ob s) \<Longrightarrow> admin_allows (mergeWithDefaultSidebarModules (VObj ob)) s m"
    by (simp add: admin_allows_def Let_def m)
  show "admin_allows (mergeWithDefaultSidebarModules (VObj ob)) s m \<longleftrightarrow>
      truthy (flag_of o1 (js ''enabled'')) \<and> strict_eq (flag_of o1 m) (VBool True)"
    if "obj_get ob s = VObj o1" "obj_wf o1"
    using that by (simp add: admin_allows_def Let_def m flag_of_def absent_undef)
qed

lemma route_module: "map_of URL_TO_CONFIG_MAP url = Some (s, m) \<Longrightarrow> m \<in> js ` set (sidebar_modules s)"
proof -
  have "list_all (\<lambda>(u, s, m). m \<in> js ` set (sidebar_modules s)) URL_TO_CONFIG_MAP" by code_simp
  then show "map_of URL_TO_CONFIG_MAP url = Some (s, m) \<Longrightarrow> ?thesis" by (auto simp: list_all_iff dest: map_of_SomeD)
qed

lemma all_on_get: "m \<in> js ` set ks \<Longrightarrow> named_get (all_on ks) m = Some True"
  by (induction ks) (auto simp: all_on_def named_get_def)

lemma form_default: "sidebar_modules s \<noteq> [] \<Longrightarrow> named_get SIDEBAR_MODULES_DEFAULT s = Some (all_on (sidebar_modules s))"
proof -
  assume "sidebar_modules s \<noteq> []"
  then have "s \<in> {js ''chat'', js ''console'', js ''personal'', js ''admin''}"
    by (auto simp: sidebar_modules_def split: if_splits)
  then show ?thesis by (elim insertE emptyE) (simp_all add: SIDEBAR_MODULES_DEFAULT_def named_get_def sidebar_modules_def)
qed

text \<open>What the form of the administrator shows: the switch of the section and of the module.\<close>

definition form_shows :: "sidebar_config \<Rightarrow> jstr \<Rightarrow> jstr \<Rightarrow> bool" where
  "form_shows c s m = (case named_get c s of None \<Rightarrow> False
     | Some cfg \<Rightarrow> named_get cfg (js ''enabled'') = Some True \<and> named_get cfg m = Some True)"

text \<open>A section as the form writes it: an object of switches; or none.\<close>

definition section_ok :: "jsval \<Rightarrow> bool" where
  "section_ok v = (case v of VUndef \<Rightarrow> True | VObj o1 \<Rightarrow> obj_wf o1 \<and> list_all (\<lambda>(_, x). case x of VBool _ \<Rightarrow> True | _ \<Rightarrow> False) o1
     | _ \<Rightarrow> False)"

lemma section_flag:
  assumes "section_ok (VObj o1)"
  obtains "\<not> obj_has o1 m" "obj_get o1 m = VUndef" "flag_of o1 m = VBool True"
  | b where "obj_has o1 m" "obj_get o1 m = VBool b" "flag_of o1 m = VBool b"
proof (cases "map_of o1 m")
  case None
  then show ?thesis by (intro that(1)) (simp_all add: obj_has_def obj_get_def flag_of_def)
next
  case (Some v)
  then have "(m, v) \<in> set o1" by (rule map_of_SomeD)
  then obtain b where "v = VBool b" using assms by (auto simp: section_ok_def list_all_iff split: jsval.splits)
  then show ?thesis using Some by (intro that(2) [of b]) (simp_all add: obj_has_def obj_get_def flag_of_def)
qed

lemma form_shows_iff:
  assumes "json_parse t = Some (VObj ob)" "obj_wf ob" "m \<in> js ` set (sidebar_modules s)" "section_ok (obj_get ob s)"
  shows "form_shows (parseSidebarModulesAdmin (Some t)) s m \<longleftrightarrow>
    (case obj_get ob s of VObj o1 \<Rightarrow> flag_of o1 (js ''enabled'') = VBool True \<and> flag_of o1 m = VBool True | _ \<Rightarrow> True)"
proof -
  let ?d = "all_on (sidebar_modules s)"
  have ne: "sidebar_modules s \<noteq> []" using assms(3) by auto
  note d = form_default [OF ne]
  note on = all_on_get [OF assms(3)] all_on_get [OF imageI [OF enabled_listed [OF ne]]]
  have p: "parseSidebarModulesAdmin (Some t) =
      foldl fill_section (foldl section_step [] (own_entries ob)) SIDEBAR_MODULES_DEFAULT"
    using assms(1) parse_blank [of t] by (auto simp: parseSidebarModulesAdmin_def)
  show ?thesis
  proof (cases "obj_get ob s")
    case (VObj o1)
    have wf: "obj_wf o1" using assms(4) VObj by (simp add: section_ok_def)
    have f: "named_get (foldl fill_module (section_config (Some ?d) (VObj o1)) ?d) k = Some True \<longleftrightarrow> flag_of o1 k = VBool True"
      if "named_get ?d k = Some True" for k
      using that assms(4) unfolding VObj
      by (rule_tac m = k in section_flag)
        (auto simp: fill_modules_get defaults_distinct(2) [OF d] section_config_get [OF wf] toBoolean_def default_module_def split: option.splits)
    show ?thesis by (simp add: form_shows_def p fill_sections_get sections_get [OF assms(2)] d VObj f on)
  qed (use assms(4) in \<open>simp_all add: section_ok_def form_shows_def p fill_sections_get sections_get [OF assms(2)] d on\<close>)
qed

text \<open>C25. A setting made of objects of switches is read alike by the sidebar, by the guards of the pages and by the form of
  the administrator, for every address the sidebar knows.\<close>

theorem sidebar_readers_agree:
  assumes "json_parse t = Some (VObj ob)" "obj_wf ob" "section_ok (obj_get ob s)"
    and "map_of URL_TO_CONFIG_MAP url = Some (s, m)"
    and "getCachedStatus b = VObj st" "obj_get st (js ''SidebarModulesAdmin'') = VStr t"
  shows "isModuleEnabled (VStr url) (parseSidebarConfig (Some t)) None = form_shows (parseSidebarModulesAdmin (Some t)) s m \<and>
    isSidebarModuleEnabled b s m = form_shows (parseSidebarModulesAdmin (Some t)) s m"
proof -
  note rm = route_module [OF assms(4)]
  have t: "t \<noteq> []" "trim t \<noteq> []" using assms(1) parse_blank [of t] by auto
  have cfg: "parseSidebarConfig (Some t) = mergeWithDefaultSidebarModules (VObj ob)"
    using assms(1) t by (simp add: parseSidebarConfig_def)
  have me: "isModuleEnabled (VStr url) (parseSidebarConfig (Some t)) None =
      admin_allows (mergeWithDefaultSidebarModules (VObj ob)) s m"
    using assms(4) by (simp add: isModuleEnabled_def cfg user_allows_def)
  note f = form_shows_iff [OF assms(1,2) rm assms(3)]
  show ?thesis
  proof (cases "obj_get ob s")
    case VUndef
    then show ?thesis using merged_allows(1) [OF assms(2) rm] t assms(1,5,6)
      by (simp add: me f isSidebarModuleEnabled_def Let_def)
  next
    case (VObj o1)
    have wf: "obj_wf o1" and ok: "section_ok (VObj o1)" using assms(3) VObj by (simp_all add: section_ok_def)
    have a: "admin_allows (mergeWithDefaultSidebarModules (VObj ob)) s m =
        (flag_of o1 (js ''enabled'') = VBool True \<and> flag_of o1 m = VBool True)"
      using merged_allows(2) [OF assms(2) rm VObj wf]
      by (rule_tac section_flag [OF ok, of m]; rule_tac section_flag [OF ok, of "js ''enabled''"]) simp_all
    have g: "isSidebarModuleEnabled b s m = (flag_of o1 (js ''enabled'') = VBool True \<and> flag_of o1 m = VBool True)"
      using t assms(1,5,6) VObj
      by (rule_tac section_flag [OF ok, of m]; rule_tac section_flag [OF ok, of "js ''enabled''"])
        (simp_all add: isSidebarModuleEnabled_def Let_def)
    show ?thesis using me f a g VObj by simp
  qed (use assms(3) in \<open>simp_all add: section_ok_def\<close>)
qed

definition images_off :: jsval where
  "images_off = VObj [(js ''chat'', VObj [(js ''enabled'', VBool True), (js ''images'', VBool False)])]"

definition images_off_browser :: browser where
  "images_off_browser = Some (\<lambda>k. if k = js ''status''
     then Some (stringify (VObj [(js ''SidebarModulesAdmin'', VStr (stringify images_off))])) else None)"

theorem sidebar_readers_agree_witness:
  "isModuleEnabled (VStr (js ''/images'')) (parseSidebarConfig (Some (stringify images_off))) None =
     isSidebarModuleEnabled images_off_browser (js ''chat'') (js ''images'')"
proof -
  have ok: "json_ok images_off" "json_ok (VObj [(js ''SidebarModulesAdmin'', VStr (stringify images_off))])" by code_simp+
  have j: "json_parse (stringify images_off) = Some (VObj [(js ''chat'', VObj [(js ''enabled'', VBool True), (js ''images'', VBool False)])])"
    using json_parse_stringify [OF ok(1)] by (simp only: images_off_def)
  have c: "getCachedStatus images_off_browser = VObj [(js ''SidebarModulesAdmin'', VStr (stringify images_off))]"
    using json_parse_stringify [OF ok(2)] stringify_hd [OF ok(2)]
    by (auto simp: getCachedStatus_def images_off_browser_def simp del: stringify.simps split: option.splits)
  have m: "map_of URL_TO_CONFIG_MAP (js ''/images'') = Some (js ''chat'', js ''images'')" by code_simp
  show ?thesis using sidebar_readers_agree [OF j _ _ m c]
    by (simp add: obj_wf_def section_ok_def obj_get_def)
qed

section \<open>The layers\<close>

lemma layers: "isModuleEnabled url a u \<longleftrightarrow> isModuleEnabled url a None \<and> isModuleEnabled url a u"
  by (auto simp: isModuleEnabled_def user_allows_def split: option.splits if_splits)

lemma layers_imp: "isModuleEnabled url a u \<Longrightarrow> isModuleEnabled url a None"
  using layers by blast

lemma filter_subs_twice: "filter_subs a u (filter_subs a None item) = filter_subs a u item"
  by (cases item) (auto simp: filter_subs_def layers_imp intro!: filter_cong)

lemma visible_subs: "isNavItemVisible (filter_subs a u item) a u \<Longrightarrow> isNavItemVisible (filter_subs a None item) a None"
  by (cases item) (auto simp: filter_subs_def isNavItemVisible_def list_ex_iff layers_imp user_allows_def split: if_splits dest: layers_imp)

lemma filterNavItems_twice: "filterNavItems (filterNavItems items a None) a u = filterNavItems items a u"
  unfolding filterNavItems_def
  by (induction items) (auto simp: filter_subs_twice dest: visible_subs)

text \<open>C26. The setting of a user only hides more: the sidebar of a user is the sidebar of everyone, filtered once more;
  and a user who may not configure the sidebar sees the sidebar of everyone.\<close>

theorem user_layer_hides:
  "useSidebarConfig a p u (useSidebarConfig a p' None groups) = useSidebarConfig a p u groups \<and>
   useSidebarConfig a (Some False) u groups = useSidebarConfig a p None groups"
proof -
  have e: "filterNavItems items c None = [] \<Longrightarrow> filterNavItems items c v = []" for items c v
    using filterNavItems_twice [of items c v] by (simp add: filterNavItems_def [of "[]"])
  have "filter_groups c v (filter_groups c None groups) = filter_groups c v groups" for c v
  proof (induction groups)
    case (Cons g groups)
    then show ?case using e [of "ng_items g" c v]
      by (cases "filterNavItems (ng_items g) c None = []") (simp_all add: filter_groups_def filterNavItems_twice)
  qed (simp add: filter_groups_def)
  then show ?thesis by (simp add: useSidebarConfig_def parseUserSidebarConfig_def)
qed

section \<open>The active entry\<close>

lemma split_on_hd: "hd (split_on c s) = takeWhile (\<lambda>x. x \<noteq> c) s"
  by (induction s) (auto split: list.splits)

lemma takeWhile_no: "c \<notin> set s \<Longrightarrow> takeWhile (\<lambda>x. x \<noteq> c) s = s"
  by (induction s) auto

definition also_active :: "nav_base \<Rightarrow> jstr \<Rightarrow> bool" where
  "also_active b h = (case nb_activeUrls b of None \<Rightarrow> False | Some urls \<Rightarrow> list_ex (\<lambda>u. urlToString u = Some h) urls)"

lemma link_active:
  assumes "63 \<notin> set url" "url \<noteq> []"
  shows "checkIsActive href (NavLink b (VStr url)) False \<longleftrightarrow> without_query href = url \<or> also_active b (without_query href)"
proof -
  have "href = url \<Longrightarrow> without_query href = url" using assms(1) by (simp add: without_query_def split_on_hd takeWhile_no)
  then show ?thesis using assms
    by (auto simp: checkIsActive_def item_base_def item_subs_def item_url_def urlToString_def also_active_def
        without_query_def split_on_hd takeWhile_no)
qed

lemma presets_active: "checkIsActive href (NavChatPresets b) False \<longleftrightarrow> also_active b (without_query href)"
  by (simp add: checkIsActive_def item_base_def item_subs_def item_url_def also_active_def)

text \<open>The paths at which a plain entry is active.\<close>

definition active_paths :: "nav_item \<Rightarrow> jstr list" where
  "active_paths item = (case item_url item of VStr u \<Rightarrow> [u] | _ \<Rightarrow> []) @
     (case nb_activeUrls (item_base item) of None \<Rightarrow> [] | Some urls \<Rightarrow> map to_str urls)"

definition plain_item :: "nav_item \<Rightarrow> bool" where
  "plain_item item \<longleftrightarrow> item_subs item = [] \<and>
     (case item_url item of VUndef \<Rightarrow> True | VStr u \<Rightarrow> u \<noteq> [] \<and> 63 \<notin> set u | _ \<Rightarrow> False) \<and>
     (case nb_activeUrls (item_base item) of None \<Rightarrow> True | Some urls \<Rightarrow> list_all (\<lambda>v. case v of VStr _ \<Rightarrow> True | _ \<Rightarrow> False) urls)"

lemma plain_active: "plain_item item \<Longrightarrow> checkIsActive href item False \<longleftrightarrow> without_query href \<in> set (active_paths item)"
proof -
  assume p: "plain_item item"
  have l: "list_all (\<lambda>v. case v of VStr _ \<Rightarrow> True | _ \<Rightarrow> False) urls \<Longrightarrow>
      list_ex (\<lambda>u. urlToString u = Some h) urls \<longleftrightarrow> h \<in> to_str ` set urls" for urls h
    by (induction urls) (auto simp: urlToString_def split: jsval.splits)
  show ?thesis
  proof (cases item)
    case (NavLink b url)
    note defs = plain_item_def also_active_def active_paths_def item_url_def item_base_def l
    show ?thesis
    proof (cases url)
      case (VStr u)
      then show ?thesis using p NavLink link_active [of u href b] by (auto simp: defs split: option.splits)
    next
      case VUndef
      then show ?thesis using p NavLink by (auto simp: defs checkIsActive_def item_subs_def split: option.splits)
    qed (use p NavLink in \<open>simp_all add: plain_item_def item_url_def\<close>)
  next
    case (NavChatPresets b)
    then show ?thesis using p
      by (auto simp: plain_item_def presets_active also_active_def active_paths_def item_url_def item_base_def l split: option.splits)
  next
    case (NavCollapsible b subs)
    then show ?thesis using p
      by (auto simp: plain_item_def checkIsActive_def also_active_def active_paths_def item_url_def item_base_def item_subs_def l
          split: option.splits)
  qed
qed

definition all_entries :: "(jstr \<Rightarrow> jstr) \<Rightarrow> nav_item list" where
  "all_entries t = concat (map ng_items (useSidebarData t))"

definition sidebar_paths :: "jstr list" where
  "sidebar_paths = map js [''/playground'', ''/images'', ''/dashboard/overview'', ''/group-status'', ''/dashboard/models'', ''/keys'',
     ''/usage-logs/common'', ''/wallet'', ''/packages'', ''/bounties'', ''/community-resources'', ''/group-buy'', ''/blind-box'',
     ''/invite-rewards'', ''/profile'', ''/channels'', ''/models/metadata'', ''/users'', ''/redemption-codes'', ''/subscriptions'',
     ''/subscriptions#blind-box-admin'', ''/subscriptions'', ''/system-settings/site'', ''/system-settings'', ''/operations'',
     ''/bounties/admin'']"

lemma entries_paths: "concat (map active_paths (all_entries t)) = sidebar_paths"
  by (simp add: all_entries_def useSidebarData_def link_to_def base_of_def active_paths_def item_url_def item_base_def sidebar_paths_def)

lemma entries_plain: "list_all plain_item (all_entries t)"
  by (simp add: all_entries_def useSidebarData_def link_to_def base_of_def plain_item_def item_url_def item_base_def item_subs_def)
    (simp add: js_def)

lemma paths_once: "distinct (remove1 (js ''/subscriptions'') sidebar_paths)"
  by code_simp

lemma one_more: "n \<le> c \<Longrightarrow> c \<le> r + (if x = h then 1 else 0) \<Longrightarrow> r \<le> 1 \<Longrightarrow> n \<le> (if h = x then 2 else (1::nat))"
  by (auto split: if_splits)

lemma distinct_count_le: "distinct xs \<Longrightarrow> count_list xs x \<le> 1"
  by (induction xs) auto

lemma paths_count: "length (filter (\<lambda>i. h \<in> set (f i)) is) \<le> count_list (concat (map f is)) h"
proof (induction "is")
  case (Cons i "is")
  have "h \<in> set (f i) \<Longrightarrow> 1 \<le> count_list (f i) h" by (metis One_nat_def Suc_leI count_list_0_iff not_gr0)
  then show ?case using Cons by auto
qed simp

text \<open>At most one entry of the sidebar is active, except at /subscriptions, where the subscriptions and the blind boxes
  both are.\<close>

theorem one_active_entry:
  "length (filter (\<lambda>item. checkIsActive href item False) (all_entries t)) \<le>
     (if without_query href = js ''/subscriptions'' then 2 else 1)"
proof -
  let ?h = "without_query href"
  have "filter (\<lambda>item. checkIsActive href item False) (all_entries t) = filter (\<lambda>i. ?h \<in> set (active_paths i)) (all_entries t)"
    using entries_plain by (auto simp: plain_active list_all_iff intro!: filter_cong)
  then have "length (filter (\<lambda>item. checkIsActive href item False) (all_entries t)) \<le> count_list sidebar_paths ?h"
    using paths_count [of ?h active_paths "all_entries t"] by (simp add: entries_paths)
  moreover have "count_list xs h \<le> count_list (remove1 x xs) h + (if x = h then 1 else 0)" for x xs and h :: jstr
    by (induction xs) auto
  from this [of sidebar_paths ?h "js ''/subscriptions''"]
  have "count_list sidebar_paths ?h \<le> count_list (remove1 (js ''/subscriptions'') sidebar_paths) ?h +
      (if js ''/subscriptions'' = ?h then 1 else 0)" .
  moreover have "count_list (remove1 (js ''/subscriptions'') sidebar_paths) ?h \<le> 1"
    by (rule distinct_count_le [OF paths_once])
  ultimately show ?thesis by (rule one_more)
qed

text \<open>The path without its query and its slashes at the end is in normal form.\<close>

lemma normalizeHref_idempotent: "normalizeHref (normalizeHref href) = normalizeHref href"
proof -
  have "63 \<notin> set (without_query href)" by (auto simp: without_query_def split_on_hd dest: set_takeWhileD)
  then have q: "63 \<notin> set (normalizeHref href)"
    by (auto simp: normalizeHref_def Let_def dest: set_dropWhileD)
  then have "without_query (normalizeHref href) = normalizeHref href"
    by (simp add: without_query_def split_on_hd takeWhile_no)
  then show ?thesis by (simp add: normalizeHref_def Let_def)
qed

end
