(* ===== verification/TopupInfo.thy ===== *)
theory TopupInfo
  imports JsJson Currency
begin

text \<open>
  What the wallet reads of the server and offers: web/default/src/features/wallet/hooks/use-topup-info.ts (lists
  that arrive as arrays or as JSON texts), lib/payment.ts (methods, minimum amounts, presets), lib/format.ts
  and constants.ts. Texts of Intl.NumberFormat are a parameter.
\<close>

section \<open>Methods and products\<close>

definition parseJsonArray :: "jsval \<Rightarrow> jsval list" where
  "parseJsonArray d = (case d of
     VArr vs \<Rightarrow> vs
   | VStr s \<Rightarrow> (case json_parse s of Some (VArr vs) \<Rightarrow> vs | _ \<Rightarrow> [])
   | _ \<Rightarrow> [])"

definition object_items :: "jsval list \<Rightarrow> jsval list" where
  "object_items vs = filter (\<lambda>v. truthy v \<and> is_object_type v) vs"

definition string_or_empty :: "jsval \<Rightarrow> jstr" where
  "string_or_empty v = (case v of VStr s \<Rightarrow> s | _ \<Rightarrow> [])"

definition string_or_none :: "jsval \<Rightarrow> jstr option" where
  "string_or_none v = (case v of VStr s \<Rightarrow> Some s | _ \<Rightarrow> None)"

record payment_method =
  pm_name :: jstr
  pm_type :: jstr
  pm_color :: "jstr option"
  pm_min_topup :: jsnum

definition payment_method_of :: "jsnum \<Rightarrow> jsval \<Rightarrow> payment_method" where
  "payment_method_of stripeMinTopup item =
     (let rawMinTopup = to_number (js_prop item (js ''min_topup''));
          normalizedMinTopup = (if is_finite rawMinTopup then rawMinTopup else Fin 0);
          type = string_or_empty (js_prop item (js ''type'')) in
      \<lparr> pm_name = string_or_empty (js_prop item (js ''name'')), pm_type = type,
        pm_color = string_or_none (js_prop item (js ''color'')),
        pm_min_topup = (if type = js ''stripe'' \<and> num_le normalizedMinTopup (Fin 0) then stripeMinTopup
                        else normalizedMinTopup) \<rparr>)"

definition parsePaymentMethods :: "jsval \<Rightarrow> jsnum \<Rightarrow> payment_method list" where
  "parsePaymentMethods d stripeMinTopup =
     filter (\<lambda>m. pm_name m \<noteq> [] \<and> pm_type m \<noteq> [] \<and> pm_type m \<noteq> js ''waffo'')
       (map (payment_method_of stripeMinTopup) (object_items (parseJsonArray d)))"

record waffo_method =
  wm_name :: jstr
  wm_icon :: "jstr option"
  wm_payMethodType :: "jstr option"
  wm_payMethodName :: "jstr option"

definition waffo_method_of :: "jsval \<Rightarrow> waffo_method" where
  "waffo_method_of item = \<lparr> wm_name = string_or_empty (js_prop item (js ''name'')),
     wm_icon = string_or_none (js_prop item (js ''icon'')),
     wm_payMethodType = string_or_none (js_prop item (js ''payMethodType'')),
     wm_payMethodName = string_or_none (js_prop item (js ''payMethodName'')) \<rparr>"

definition parseWaffoPayMethods :: "jsval \<Rightarrow> waffo_method list" where
  "parseWaffoPayMethods d = filter (\<lambda>m. wm_name m \<noteq> []) (map waffo_method_of (object_items (parseJsonArray d)))"

datatype creem_currency = USD | EUR

record creem_product =
  cp_name :: jstr
  cp_productId :: jstr
  cp_price :: jsnum
  cp_quota :: jsnum
  cp_currency :: creem_currency

text \<open>\<open>Number(v) || 0\<close>\<close>

definition number_or_zero :: "jsval \<Rightarrow> jsnum" where
  "number_or_zero v = (let x = to_number v in if num_truthy x then x else Fin 0)"

definition creem_product_of :: "jsval \<Rightarrow> creem_product" where
  "creem_product_of item = \<lparr> cp_name = string_or_empty (js_prop item (js ''name'')),
     cp_productId = string_or_empty (js_prop item (js ''productId'')),
     cp_price = number_or_zero (js_prop item (js ''price'')), cp_quota = number_or_zero (js_prop item (js ''quota'')),
     cp_currency = (if js_prop item (js ''currency'') = VStr (js ''EUR'') then EUR else USD) \<rparr>"

definition parseCreemProducts :: "jsval \<Rightarrow> creem_product list" where
  "parseCreemProducts d = filter (\<lambda>p. cp_name p \<noteq> [] \<and> cp_productId p \<noteq> [])
     (map creem_product_of (object_items (parseJsonArray d)))"

definition parseAmountOptions :: "jsval \<Rightarrow> jsnum list" where
  "parseAmountOptions d = filter (\<lambda>x. is_finite x \<and> num_lt (Fin 0) x) (map to_number (parseJsonArray d))"

text \<open>The discounts, an object whose keys are numbers printed.\<close>

definition discount_entry :: "jsnum named \<Rightarrow> jstr \<times> jsval \<Rightarrow> jsnum named" where
  "discount_entry result = (\<lambda>(key, v).
     let numericKey = str_to_num key; numericValue = to_number v in
     if is_finite numericKey \<and> is_finite numericValue then named_put (num_str numericKey) numericValue result else result)"

definition parseDiscountMap :: "jsval \<Rightarrow> jsnum named" where
  "parseDiscountMap d =
     (if \<not> truthy d then []
      else case (case d of VStr s \<Rightarrow> json_parse s | _ \<Rightarrow> Some d) of
        None \<Rightarrow> []
      | Some parsedData \<Rightarrow>
          if \<not> truthy parsedData \<or> \<not> is_object_type parsedData \<or> is_array parsedData then []
          else foldl discount_entry [] (entries_of parsedData))"

section \<open>The information of the wallet\<close>

record topup_flags =
  enable_online_topup :: bool
  enable_stripe_topup :: bool
  enable_waffo_topup :: bool
  enable_waffo_pancake_topup :: bool
  min_topup :: jsnum
  stripe_min_topup :: jsnum
  waffo_min_topup :: "jsnum option"
  waffo_pancake_min_topup :: "jsnum option"

record topup_data = topup_flags +
  td_pay_methods :: jsval
  td_amount_options :: jsval
  td_discount :: jsval
  td_creem_products :: jsval
  td_waffo_pay_methods :: jsval

record topup_info = topup_flags +
  pay_methods :: "payment_method list"
  amount_options :: "jsnum list"
  discounts :: "jsnum named"
  creem_products :: "creem_product list"
  waffo_pay_methods :: "waffo_method list"

definition process_topup :: "topup_data \<Rightarrow> topup_info" where
  "process_topup d = topup_flags.extend (topup_flags.truncate d)
     (topup_info.fields (parsePaymentMethods (td_pay_methods d) (stripe_min_topup d))
       (parseAmountOptions (td_amount_options d)) (parseDiscountMap (td_discount d))
       (parseCreemProducts (td_creem_products d)) (parseWaffoPayMethods (td_waffo_pay_methods d)))"

definition DEFAULT_PRESET_MULTIPLIERS :: "rat list" where
  "DEFAULT_PRESET_MULTIPLIERS = [1, 5, 10, 30, 50, 100, 300, 500]"

definition STRIPE :: jstr where "STRIPE = js ''stripe''"
definition WAFFO :: jstr where "WAFFO = js ''waffo''"
definition WAFFO_PANCAKE :: jstr where "WAFFO_PANCAKE = js ''waffo_pancake''"
definition DEFAULT_PAYMENT_TYPE :: jstr where "DEFAULT_PAYMENT_TYPE = js ''alipay''"
definition DEFAULT_DISCOUNT_RATE :: jsnum where "DEFAULT_DISCOUNT_RATE = Fin 1"
definition DEFAULT_MIN_TOPUP :: jsnum where "DEFAULT_MIN_TOPUP = Fin 1"

definition isStripePayment :: "jstr \<Rightarrow> bool" where
  "isStripePayment paymentType \<longleftrightarrow> paymentType = STRIPE"

definition isWaffoPancakePayment :: "jstr \<Rightarrow> bool" where
  "isWaffoPancakePayment paymentType \<longleftrightarrow> paymentType = WAFFO_PANCAKE"

definition getDefaultPaymentType :: "topup_info option \<Rightarrow> jstr" where
  "getDefaultPaymentType info = (case info of
     None \<Rightarrow> DEFAULT_PAYMENT_TYPE
   | Some i \<Rightarrow>
       (case pay_methods i of m # _ \<Rightarrow> pm_type m
        | [] \<Rightarrow> if enable_stripe_topup i then STRIPE
            else if enable_waffo_topup i then WAFFO
            else if enable_waffo_pancake_topup i then WAFFO_PANCAKE
            else DEFAULT_PAYMENT_TYPE))"

definition or_default_min :: "jsnum option \<Rightarrow> jsnum" where
  "or_default_min x = (case x of Some v \<Rightarrow> (if num_truthy v then v else DEFAULT_MIN_TOPUP) | None \<Rightarrow> DEFAULT_MIN_TOPUP)"

definition getMinTopupAmount :: "topup_info option \<Rightarrow> jsnum" where
  "getMinTopupAmount info = (case info of
     None \<Rightarrow> DEFAULT_MIN_TOPUP
   | Some i \<Rightarrow>
       if enable_online_topup i then min_topup i
       else if enable_stripe_topup i then stripe_min_topup i
       else if enable_waffo_topup i then or_default_min (waffo_min_topup i)
       else if enable_waffo_pancake_topup i then or_default_min (waffo_pancake_min_topup i)
       else DEFAULT_MIN_TOPUP)"

record preset_amount =
  pa_value :: jsnum
  pa_discount :: "jsnum option"

definition generatePresetAmounts :: "jsnum \<Rightarrow> preset_amount list" where
  "generatePresetAmounts minAmount =
     map (\<lambda>q. \<lparr> pa_value = num_mul minAmount (Fin q), pa_discount = None \<rparr>) DEFAULT_PRESET_MULTIPLIERS"

text \<open>\<open>discounts[amount] || 1.0\<close>\<close>

definition discount_of :: "jsnum named \<Rightarrow> jsnum \<Rightarrow> jsnum" where
  "discount_of ds amount = (case named_get ds (num_str amount) of
     Some x \<Rightarrow> (if num_truthy x then x else DEFAULT_DISCOUNT_RATE) | None \<Rightarrow> DEFAULT_DISCOUNT_RATE)"

definition mergePresetAmounts :: "jsnum list \<Rightarrow> jsnum named \<Rightarrow> preset_amount list" where
  "mergePresetAmounts options ds =
     (if options = [] then [] else map (\<lambda>a. \<lparr> pa_value = a, pa_discount = Some (discount_of ds a) \<rparr>) options)"

text \<open>The presets the hook stores with the information.\<close>

definition presets_of :: "topup_info \<Rightarrow> preset_amount list" where
  "presets_of i = (if amount_options i \<noteq> [] then mergePresetAmounts (amount_options i) (discounts i)
     else generatePresetAmounts (getMinTopupAmount (Some i)))"

section \<open>The hook\<close>

record topup_hook =
  th_info :: "topup_info option"
  th_presets :: "preset_amount list"
  th_loading :: bool

definition topup_initial :: topup_hook where
  "topup_initial = \<lparr> th_info = None, th_presets = [], th_loading = True \<rparr>"

text \<open>An answer: a failed request, or the flag success with data that may be missing.\<close>

datatype topup_answer = Request_failed | Answered bool "topup_data option"

definition topup_start :: "topup_hook \<Rightarrow> topup_hook" where
  "topup_start s = s\<lparr> th_loading := True \<rparr>"

definition topup_arrived :: "topup_answer \<Rightarrow> topup_hook \<Rightarrow> topup_hook" where
  "topup_arrived a s = (case a of
     Answered True (Some d) \<Rightarrow> s\<lparr> th_info := Some (process_topup d), th_presets := presets_of (process_topup d), th_loading := False \<rparr>
   | _ \<Rightarrow> s\<lparr> th_loading := False \<rparr>)"

section \<open>Texts and the payment form\<close>

definition isSafariBrowser :: "jstr \<Rightarrow> bool" where
  "isSafariBrowser userAgent \<longleftrightarrow> find_sub (js ''Safari'') userAgent \<noteq> None \<and>
     (case find_sub (js ''Chrome'') userAgent of None \<Rightarrow> True | Some i \<Rightarrow> i < 1)"

record payment_form =
  form_action :: jstr
  form_new_tab :: bool
  form_inputs :: "(jstr \<times> jstr) list"

definition submitPaymentForm :: "jstr \<Rightarrow> jstr \<Rightarrow> jsval \<Rightarrow> payment_form" where
  "submitPaymentForm userAgent url params = \<lparr> form_action = url, form_new_tab = (\<not> isSafariBrowser userAgent),
     form_inputs = map (\<lambda>(key, v). (key, to_str v)) (entries_of params) \<rparr>"

definition formatCreemPrice :: "jsnum \<Rightarrow> creem_currency \<Rightarrow> jstr" where
  "formatCreemPrice price c = (if c = EUR then 8364 else 36) # to_fixed price 2"

definition formatQuotaShort :: "jsnum \<Rightarrow> jstr" where
  "formatQuotaShort quota =
     (if num_le (Fin 1000000) quota then to_fixed (num_div quota (Fin 1000000)) 1 @ js ''M''
      else if num_le (Fin 1000) quota then to_fixed (num_div quota (Fin 1000)) 1 @ js ''K''
      else num_str quota)"

text \<open>\<open>currency_intl\<close> writes a number with a currency code, if any, and at most so many fraction digits.\<close>

definition amount_number :: "jsval \<Rightarrow> jsnum" where
  "amount_number amount = (case amount of VNum x \<Rightarrow> x | v \<Rightarrow> parse_float (to_str v))"

definition fraction_digits :: "jsnum \<Rightarrow> nat" where
  "fraction_digits x = (if num_le (Fin 1) (num_abs x) then 2 else 4)"

definition wallet_currency :: "(jstr option \<Rightarrow> nat \<Rightarrow> jsnum \<Rightarrow> jstr) \<Rightarrow> jsval \<Rightarrow> jstr" where
  "wallet_currency currency_intl amount = (let numeric = amount_number amount in
     if \<not> is_finite numeric then js ''-'' else currency_intl None (fraction_digits numeric) numeric)"

definition formatPaymentAmount :: "(jstr option \<Rightarrow> nat \<Rightarrow> jsnum \<Rightarrow> jstr) \<Rightarrow> jsval \<Rightarrow> jstr \<Rightarrow> jstr" where
  "formatPaymentAmount currency_intl amount code = (let numeric = amount_number amount in
     if \<not> is_finite numeric then js ''-'' else currency_intl (Some code) (fraction_digits numeric) numeric)"

definition getDiscountLabel :: "jsnum \<Rightarrow> jstr" where
  "getDiscountLabel discount =
     (if num_le DEFAULT_DISCOUNT_RATE discount then []
      else num_str (math_round (num_mul (num_sub (Fin 1) discount) (Fin 100))) @ js ''% OFF'')"

record preset_pricing =
  displayValue :: jsnum
  originalPrice :: jsnum
  actualPrice :: jsnum
  savedAmount :: jsnum
  hasDiscount :: bool

definition calculatePresetPricing :: "jsnum \<Rightarrow> jsnum \<Rightarrow> jsnum \<Rightarrow> jsnum \<Rightarrow> preset_pricing" where
  "calculatePresetPricing presetValue priceRatio discount usd_rate =
     (let originalPrice = num_mul presetValue priceRatio; actualPrice = num_mul originalPrice discount in
      \<lparr> displayValue = num_mul presetValue usd_rate, originalPrice = originalPrice, actualPrice = actualPrice,
        savedAmount = num_sub originalPrice actualPrice, hasDiscount = num_lt discount (Fin 1) \<rparr>)"

section \<open>Lists as texts\<close>

text \<open>Lists and discounts that arrive as JSON texts are read like the lists and the object themselves.\<close>

theorem topup_text_same:
  assumes "json_ok (VArr vs)" "json_ok (VObj ob)"
  shows "parsePaymentMethods (VStr (stringify (VArr vs))) m = parsePaymentMethods (VArr vs) m \<and>
    parseWaffoPayMethods (VStr (stringify (VArr vs))) = parseWaffoPayMethods (VArr vs) \<and>
    parseCreemProducts (VStr (stringify (VArr vs))) = parseCreemProducts (VArr vs) \<and>
    parseAmountOptions (VStr (stringify (VArr vs))) = parseAmountOptions (VArr vs) \<and>
    parseDiscountMap (VStr (stringify (VObj ob))) = parseDiscountMap (VObj ob)"
proof -
  have a: "parseJsonArray (VStr (stringify (VArr vs))) = parseJsonArray (VArr vs)"
    using json_parse_stringify [OF assms(1)] by (simp add: parseJsonArray_def del: stringify.simps)
  have "stringify (VObj ob) \<noteq> []" using stringify_hd [OF assms(2)] by auto
  then have "parseDiscountMap (VStr (stringify (VObj ob))) = parseDiscountMap (VObj ob)"
    using json_parse_stringify [OF assms(2)] by (simp add: parseDiscountMap_def del: stringify.simps)
  with a show ?thesis
    by (simp add: parsePaymentMethods_def parseWaffoPayMethods_def parseCreemProducts_def parseAmountOptions_def del: stringify.simps)
qed

theorem topup_text_same_witness:
  "parseAmountOptions (VStr (stringify (VArr [VNum (Fin 10), VStr (js ''20''), VNum (Fin (- 1))]))) = [Fin 10, Fin 20] \<and>
   discount_of (parseDiscountMap (VStr (stringify (VObj [(js ''10'', VNum (Fin (1 / 2)))])))) (Fin 10) = Fin (1 / 2)"
proof -
  have ok: "json_ok (VArr [VNum (Fin 10), VStr (js ''20''), VNum (Fin (- 1))])" "json_ok (VObj [(js ''10'', VNum (Fin (1 / 2)))])"
    by code_simp+
  have v: "parseAmountOptions (VArr [VNum (Fin 10), VStr (js ''20''), VNum (Fin (- 1))]) = [Fin 10, Fin 20]"
    "discount_of (parseDiscountMap (VObj [(js ''10'', VNum (Fin (1 / 2)))])) (Fin 10) = Fin (1 / 2)"
    by code_simp+
  show ?thesis using topup_text_same [OF ok] v by (simp only:)
qed

section \<open>What is offered\<close>

lemma offered_method: "m \<in> set (parsePaymentMethods d x) \<Longrightarrow> pm_name m \<noteq> [] \<and> pm_type m \<noteq> [] \<and> pm_type m \<noteq> WAFFO"
  by (auto simp: parsePaymentMethods_def WAFFO_def)

lemma offered_amount: "x \<in> set (parseAmountOptions d) \<Longrightarrow> is_finite x \<and> num_lt (Fin 0) x"
  by (simp add: parseAmountOptions_def)

text \<open>A price has a label exactly when it is a discount.\<close>

lemma label_iff_discount: "(getDiscountLabel (Fin q) \<noteq> []) = hasDiscount (calculatePresetPricing v r (Fin q) e)"
  by (auto simp: getDiscountLabel_def calculatePresetPricing_def Let_def DEFAULT_DISCOUNT_RATE_def num_le_def num_lt_def)

end
