(* ===== verification/WalletPayment.thy ===== *)
theory WalletPayment
  imports TopupInfo
begin

text \<open>
  How the wallet reads the answers of its requests: web/default/src/features/wallet/hooks/use-payment.ts,
  use-waffo-payment.ts, use-waffo-pancake-payment.ts, use-creem-payment.ts and use-redemption.ts, with
  isApiSuccess of api.ts. An answer is None when the request throws; otherwise the value of its body. A function
  gives whether the payment went on and what the user sees. The parser of addresses is a parameter: it gives the
  protocol of an address, or None when the address cannot be parsed.
\<close>

datatype plan_label = Plan_title jsval | Plan_number jsval | Some_subscription

datatype notice =
    Payment_failed
  | Redemption_failed
  | Enter_code
  | Invalid_redirect
  | Server_message jsval
  | Redirecting
  | Redirecting_creem
  | Plan_activated plan_label
  | Boxes_opened jsval
  | Quota_added jstr
  | Claude_quota_added jstr
  | Open_page jsval
  | Open_page_isolated jstr
  | Submit_form payment_form
  | Subscription_changed_event
  | Blind_box_changed_event jsval jsval

definition isApiSuccess :: "jsval \<Rightarrow> bool" where
  "isApiSuccess response \<longleftrightarrow> js_prop response (js ''success'') = VBool True \<or>
     js_prop response (js ''message'') = VStr (js ''success'')"

text \<open>Reading a property of null or undefined throws, which the handlers catch like a failed request.\<close>

definition body_of :: "jsval option \<Rightarrow> jsval option" where
  "body_of answer = (case answer of None \<Rightarrow> None | Some r \<Rightarrow> if nullish r then None else Some r)"

definition message_or :: "notice \<Rightarrow> jsval \<Rightarrow> notice" where
  "message_or n response = (let m = js_prop response (js ''message'') in if truthy m then Server_message m else n)"

section \<open>Amounts and payments\<close>

text \<open>The amount shown after a calculation; parseFloat of the text in the answer.\<close>

definition calculated_amount :: "jsval option \<Rightarrow> jsnum" where
  "calculated_amount answer = (case body_of answer of
     None \<Rightarrow> Fin 0
   | Some r \<Rightarrow> let d = js_prop r (js ''data'') in
       if isApiSuccess r \<and> truthy d then parse_float (to_str d) else Fin 0)"

definition payment_outcome :: "jstr \<Rightarrow> jstr \<Rightarrow> jsval option \<Rightarrow> bool \<times> notice list" where
  "payment_outcome userAgent paymentType answer = (case body_of answer of
     None \<Rightarrow> (False, [Payment_failed])
   | Some r \<Rightarrow>
       let isStripe = isStripePayment paymentType; d = js_prop r (js ''data''); link = opt_prop d (js ''pay_link'');
           directUrl = js_or (opt_prop d (js ''pay_url'')) (opt_prop d (js ''qrcode_url''));
           url = js_prop r (js ''url'') in
       if \<not> isApiSuccess r then (False, [message_or Payment_failed r])
       else if isStripe \<and> truthy link then (True, [Open_page link, Redirecting])
       else if \<not> isStripe \<and> truthy d then
         (if truthy directUrl then (True, [Open_page directUrl, Redirecting])
          else if truthy url then (True, [Submit_form (submitPaymentForm userAgent (to_str url) d), Redirecting])
          else (False, []))
       else (False, []))"

definition getPaymentUrl :: "jsval \<Rightarrow> jstr \<Rightarrow> jstr option" where
  "getPaymentUrl d key = (if \<not> truthy d \<or> \<not> is_object_type d then None
     else case js_prop d key of VStr s \<Rightarrow> Some s | _ \<Rightarrow> None)"

definition getErrorMessage :: "jsval \<Rightarrow> jsval \<Rightarrow> notice" where
  "getErrorMessage message d = (case d of
     VStr s \<Rightarrow> if trim s \<noteq> [] then Server_message d else if truthy message then Server_message message else Payment_failed
   | _ \<Rightarrow> if truthy message then Server_message message else Payment_failed)"

definition waffo_outcome :: "jsval option \<Rightarrow> bool \<times> notice list" where
  "waffo_outcome answer = (case body_of answer of
     None \<Rightarrow> (False, [Payment_failed])
   | Some r \<Rightarrow> let d = js_prop r (js ''data''); failed = (False, [getErrorMessage (js_prop r (js ''message'')) d]) in
       if isApiSuccess r then (case getPaymentUrl d (js ''payment_url'') of
           Some paymentUrl \<Rightarrow> if paymentUrl \<noteq> [] then (True, [Open_page (VStr paymentUrl), Redirecting]) else failed
         | None \<Rightarrow> failed)
       else failed)"

definition isSafeHttpCheckoutUrl :: "(jstr \<Rightarrow> jstr option) \<Rightarrow> jstr \<Rightarrow> bool" where
  "isSafeHttpCheckoutUrl url_protocol v = (let trimmed = trim v in
     if trimmed = [] then False
     else case url_protocol trimmed of Some p \<Rightarrow> p = js ''http:'' \<or> p = js ''https:'' | None \<Rightarrow> False)"

definition pancake_outcome :: "(jstr \<Rightarrow> jstr option) \<Rightarrow> jsval option \<Rightarrow> bool \<times> notice list" where
  "pancake_outcome url_protocol answer = (case body_of answer of
     None \<Rightarrow> (False, [Payment_failed])
   | Some r \<Rightarrow> let d = js_prop r (js ''data''); failed = (False, [getErrorMessage (js_prop r (js ''message'')) d]) in
       if isApiSuccess r then (case getPaymentUrl d (js ''checkout_url'') of
           Some checkoutUrl \<Rightarrow>
             if checkoutUrl = [] then failed
             else if \<not> isSafeHttpCheckoutUrl url_protocol checkoutUrl then (False, [Invalid_redirect])
             else (True, [Open_page_isolated checkoutUrl, Redirecting])
         | None \<Rightarrow> failed)
       else failed)"

definition creem_outcome :: "jsval option \<Rightarrow> bool \<times> notice list" where
  "creem_outcome answer = (case body_of answer of
     None \<Rightarrow> (False, [Payment_failed])
   | Some r \<Rightarrow> let link = opt_prop (js_prop r (js ''data'')) (js ''checkout_url'') in
       if isApiSuccess r \<and> truthy link then (True, [Open_page link, Redirecting_creem])
       else (False, [message_or Payment_failed r]))"

section \<open>Redemption\<close>

definition plan_label_of :: "jsval \<Rightarrow> plan_label" where
  "plan_label_of result = (let title = js_prop result (js ''plan_title''); i = js_prop result (js ''plan_id'') in
     if truthy title then Plan_title title else if truthy i then Plan_number i else Some_subscription)"

definition redeemed_notices :: "intl \<Rightarrow> config_state \<Rightarrow> jsval \<Rightarrow> notice list" where
  "redeemed_notices I c result =
     (let type = js_prop result (js ''redeem_type'');
          count = js_or (js_or (js_prop result (js ''blind_box_open_count'')) (js_prop result (js ''blind_box_quantity''))) (VNum (Fin 0)) in
      if type = VStr (js ''subscription'') then [Plan_activated (plan_label_of result), Subscription_changed_event]
      else if type = VStr (js ''blind_box'')
      then [Boxes_opened count, Blind_box_changed_event (js_or (js_prop result (js ''blind_box_records'')) (VArr [])) count]
      else let quotaText = formatQuota I c (number_or_zero (js_prop result (js ''quota''))) in
        [if js_prop result (js ''wallet_type'') = VStr (js ''claude'') then Claude_quota_added quotaText else Quota_added quotaText])"

text \<open>The answer to the code: refused with notices, or accepted with notices; the profile is requested next and decides
  whether the call reports success.\<close>

definition redeem_outcome :: "intl \<Rightarrow> config_state \<Rightarrow> jsval option \<Rightarrow> bool \<times> notice list" where
  "redeem_outcome I c answer = (case body_of answer of
     None \<Rightarrow> (False, [Redemption_failed])
   | Some r \<Rightarrow> let d = js_prop r (js ''data'') in
       if truthy (js_prop r (js ''success'')) \<and> truthy d then (True, redeemed_notices I c d)
       else (False, [message_or Redemption_failed r]))"

definition redeem_refreshed :: "jsval option \<Rightarrow> bool \<times> notice list" where
  "redeem_refreshed answer = (case answer of None \<Rightarrow> (False, [Redemption_failed]) | Some _ \<Rightarrow> (True, []))"

section \<open>What the outcomes promise\<close>

text \<open>The pages a notice opens.\<close>

definition opened_page :: "notice \<Rightarrow> jsval option" where
  "opened_page n = (case n of Open_page u \<Rightarrow> Some u | Open_page_isolated u \<Rightarrow> Some (VStr u) | Submit_form f \<Rightarrow> Some (VStr (form_action f))
     | _ \<Rightarrow> None)"

definition leaves :: "bool \<times> notice list \<Rightarrow> bool" where
  "leaves r = list_ex (\<lambda>n. opened_page n \<noteq> None) (snd r)"

text \<open>A payment counts as started exactly when a page was opened for it, whichever provider answers; and the
  page of a Pancake payment has the protocol http or https.\<close>

theorem payment_started_iff_page:
  "(fst (payment_outcome ua ty a) = leaves (payment_outcome ua ty a)) \<and> (fst (waffo_outcome a) = leaves (waffo_outcome a)) \<and>
   (fst (pancake_outcome p a) = leaves (pancake_outcome p a)) \<and> (fst (creem_outcome a) = leaves (creem_outcome a)) \<and>
   list_all (\<lambda>n. case n of Open_page_isolated u \<Rightarrow> p (trim u) \<in> {Some (js ''http:''), Some (js ''https:'')} | _ \<Rightarrow> True)
     (snd (pancake_outcome p a))"
proof (intro conjI)
  note s = leaves_def opened_page_def message_or_def Let_def getErrorMessage_def
  show "fst (payment_outcome ua ty a) = leaves (payment_outcome ua ty a)"
    by (simp add: payment_outcome_def s split: option.split)
  show "fst (waffo_outcome a) = leaves (waffo_outcome a)"
    by (simp add: waffo_outcome_def s split: option.split jsval.split)
  show "fst (pancake_outcome p a) = leaves (pancake_outcome p a)"
    by (simp add: pancake_outcome_def s split: option.split jsval.split)
  show "fst (creem_outcome a) = leaves (creem_outcome a)"
    by (simp add: creem_outcome_def s split: option.split)
  show "list_all (\<lambda>n. case n of Open_page_isolated u \<Rightarrow> p (trim u) \<in> {Some (js ''http:''), Some (js ''https:'')} | _ \<Rightarrow> True)
     (snd (pancake_outcome p a))"
    by (simp add: pancake_outcome_def isSafeHttpCheckoutUrl_def s split: option.split jsval.split)
qed

text \<open>A payment of the other providers that is accepted without a page reports nothing at all.\<close>

lemma accepted_without_page_is_silent:
  "payment_outcome ua (js ''alipay'') (Some (VObj [(js ''success'', VBool True)])) = (False, [])"
  by (simp add: payment_outcome_def body_of_def isApiSuccess_def isStripePayment_def STRIPE_def obj_get_def opt_prop_def Let_def js_or_def)

end
