(* ===== verification/WalletWorkspace.thy ===== *)
theory WalletWorkspace
  imports WalletPayment
begin

text \<open>
  The state of the wallet page: web/default/src/features/wallet/hooks/use-wallet-workspace.ts over the payment hooks.
  A request is a task until its answer arrives; answers arrive in any order. \<open>settle\<close> is the effect that fills in
  the least amount after a rendering. The guards of the steps are those of the buttons in
  components/recharge-form-card.tsx and components/dialogs; the two dialogs are modal. The profile, the
  subscription and the plans of the user are fetched beside the payment and are kept as values.
\<close>

datatype wallet_type = Default_wallet | Claude_wallet

datatype wtask =
    Calculating jsnum jstr wallet_type bool
  | Paying jsnum jstr wallet_type
  | Paying_pancake jsnum wallet_type
  | Paying_waffo jsnum nat wallet_type
  | Paying_creem jstr
  | Redeeming jstr
  | Redeem_refresh
  | Fetching_user
  | Fetching_subscription
  | Fetching_plans

record wallet_state =
  w_info :: "topup_info option"
  w_presets :: "preset_amount list"
  w_topupAmount :: jsnum
  w_walletType :: wallet_type
  w_selectedPreset :: "jsnum option"
  w_method :: "payment_method option"
  w_paymentLoading :: "jstr option"
  w_confirmOpen :: bool
  w_billingOpen :: bool
  w_code :: jstr
  w_creemOpen :: bool
  w_creemProduct :: "creem_product option"
  w_paymentAmount :: jsnum
  w_calculating :: bool
  w_processing :: bool
  w_pancakeBusy :: bool
  w_creemBusy :: bool
  w_redeeming :: bool
  w_user :: jsval
  w_userLoading :: bool
  w_subscription :: jsval
  w_subscriptionLoading :: bool
  w_plans :: jsval
  w_plansLoading :: bool
  w_deps :: "(topup_info option \<times> jsnum \<times> wallet_type) option"
  w_tasks :: "wtask list"
  w_notices :: "notice list"

definition start :: "wtask \<Rightarrow> wallet_state \<Rightarrow> wallet_state" where
  "start t s = s\<lparr> w_tasks := w_tasks s @ [t] \<rparr>"

definition notify :: "notice list \<Rightarrow> wallet_state \<Rightarrow> wallet_state" where
  "notify ns s = s\<lparr> w_notices := w_notices s @ ns \<rparr>"

definition fetchUser :: "wallet_state \<Rightarrow> wallet_state" where
  "fetchUser s = start Fetching_user (s\<lparr> w_userLoading := True \<rparr>)"

definition fetchSubscriptionData :: "wallet_state \<Rightarrow> wallet_state" where
  "fetchSubscriptionData s = start Fetching_subscription (s\<lparr> w_subscriptionLoading := True \<rparr>)"

definition fetchPublicPlans :: "wallet_state \<Rightarrow> wallet_state" where
  "fetchPublicPlans s = start Fetching_plans (s\<lparr> w_plansLoading := True \<rparr>)"

definition handleSubscriptionChanged :: "wallet_state \<Rightarrow> wallet_state" where
  "handleSubscriptionChanged s = fetchPublicPlans (fetchUser (fetchSubscriptionData s))"

definition calculatePaymentAmount :: "jsnum \<Rightarrow> jstr \<Rightarrow> wallet_type \<Rightarrow> bool \<Rightarrow> wallet_state \<Rightarrow> wallet_state" where
  "calculatePaymentAmount amount type wallet opens s = start (Calculating amount type wallet opens) (s\<lparr> w_calculating := True \<rparr>)"

section \<open>Effects and handlers\<close>

definition least_amount :: "wallet_type \<Rightarrow> topup_info option \<Rightarrow> jsnum" where
  "least_amount w info = (if w = Claude_wallet then Fin 1 else getMinTopupAmount info)"

text \<open>The effect runs when one of its dependencies changed; it may change the amount and so run once more.\<close>

definition fill_amount :: "wallet_state \<Rightarrow> wallet_state" where
  "fill_amount s =
     (let deps = Some (w_info s, w_topupAmount s, w_walletType s) in
      if w_deps s = deps then s
      else let s1 = s\<lparr> w_deps := deps \<rparr> in
        if w_info s \<noteq> None \<and> num_eq (w_topupAmount s) (Fin 0)
        then let minTopup = least_amount (w_walletType s) (w_info s) in
          calculatePaymentAmount minTopup (getDefaultPaymentType (w_info s)) (w_walletType s) False
            (s1\<lparr> w_topupAmount := minTopup \<rparr>)
        else s1)"

definition settle :: "wallet_state \<Rightarrow> wallet_state" where
  "settle s = fill_amount (fill_amount s)"

definition workspace_initial :: "wallet_type \<Rightarrow> wallet_state" where
  "workspace_initial w = fetchPublicPlans (fetchSubscriptionData (fetchUser
     \<lparr> w_info = None, w_presets = [], w_topupAmount = Fin 0, w_walletType = w, w_selectedPreset = None, w_method = None,
       w_paymentLoading = None, w_confirmOpen = False, w_billingOpen = False, w_code = [], w_creemOpen = False,
       w_creemProduct = None, w_paymentAmount = Fin 0, w_calculating = False, w_processing = False,
       w_pancakeBusy = False, w_creemBusy = False, w_redeeming = False, w_user = VNull, w_userLoading = True,
       w_subscription = VNull, w_subscriptionLoading = True, w_plans = VArr [], w_plansLoading = True,
       w_deps = Some (None, Fin 0, w), w_tasks = [], w_notices = [] \<rparr>))"

definition info_arrived :: "topup_info \<Rightarrow> wallet_state \<Rightarrow> wallet_state" where
  "info_arrived i s = s\<lparr> w_info := Some i, w_presets := presets_of i \<rparr>"

definition getCurrentPaymentType :: "wallet_state \<Rightarrow> jstr" where
  "getCurrentPaymentType s = (case w_method s of
     Some m \<Rightarrow> (if pm_type m \<noteq> [] then pm_type m else getDefaultPaymentType (w_info s))
   | None \<Rightarrow> getDefaultPaymentType (w_info s))"

definition handleSelectPreset :: "preset_amount \<Rightarrow> wallet_state \<Rightarrow> wallet_state" where
  "handleSelectPreset preset s = calculatePaymentAmount (pa_value preset) (getCurrentPaymentType s) (w_walletType s) False
     (s\<lparr> w_topupAmount := pa_value preset, w_selectedPreset := Some (pa_value preset) \<rparr>)"

definition handleTopupAmountChange :: "jsnum \<Rightarrow> wallet_state \<Rightarrow> wallet_state" where
  "handleTopupAmountChange amount s = calculatePaymentAmount amount (getCurrentPaymentType s) (w_walletType s) False
     (s\<lparr> w_topupAmount := amount, w_selectedPreset := None \<rparr>)"

text \<open>Math.max of two numbers.\<close>

definition num_max :: "jsnum \<Rightarrow> jsnum \<Rightarrow> jsnum" where
  "num_max x y = (if x = NaN \<or> y = NaN then NaN else if num_lt x y then y else if num_lt y x then x
     else if x = NegZero then y else x)"

definition handleWalletTypeChange :: "wallet_type \<Rightarrow> wallet_state \<Rightarrow> wallet_state" where
  "handleWalletTypeChange wallet s =
     (let nextAmount = num_max (least_amount wallet (w_info s)) (w_topupAmount s) in
      calculatePaymentAmount nextAmount (getCurrentPaymentType s) wallet False
        (s\<lparr> w_walletType := wallet, w_topupAmount := nextAmount, w_selectedPreset := None \<rparr>))"

definition handlePaymentMethodSelect :: "payment_method \<Rightarrow> wallet_state \<Rightarrow> wallet_state" where
  "handlePaymentMethodSelect m s =
     (let s1 = s\<lparr> w_method := Some m, w_paymentLoading := Some (pm_type m) \<rparr> in
      if num_lt (w_topupAmount s) (least_amount (w_walletType s) (w_info s)) then s1\<lparr> w_paymentLoading := None \<rparr>
      else calculatePaymentAmount (w_topupAmount s) (pm_type m) (w_walletType s) True s1)"

definition handlePaymentConfirm :: "wallet_state \<Rightarrow> wallet_state" where
  "handlePaymentConfirm s = (case w_method s of
     None \<Rightarrow> s
   | Some m \<Rightarrow>
       if isWaffoPancakePayment (pm_type m)
       then start (Paying_pancake (math_floor (w_topupAmount s)) (w_walletType s)) (s\<lparr> w_pancakeBusy := True \<rparr>)
       else start (Paying (math_floor (w_topupAmount s)) (pm_type m) (w_walletType s)) (s\<lparr> w_processing := True \<rparr>))"

definition handleRedeem :: "wallet_state \<Rightarrow> wallet_state" where
  "handleRedeem s =
     (if w_code s = [] then s
      else if trim (w_code s) = [] then notify [Enter_code] s
      else start (Redeeming (w_code s)) (s\<lparr> w_redeeming := True \<rparr>))"

definition handleCreemProductSelect :: "creem_product \<Rightarrow> wallet_state \<Rightarrow> wallet_state" where
  "handleCreemProductSelect p s = s\<lparr> w_creemProduct := Some p, w_creemOpen := True \<rparr>"

definition handleCreemConfirm :: "wallet_state \<Rightarrow> wallet_state" where
  "handleCreemConfirm s = (case w_creemProduct s of
     None \<Rightarrow> s | Some p \<Rightarrow> start (Paying_creem (cp_productId p)) (s\<lparr> w_creemBusy := True \<rparr>))"

definition waffo_key :: "nat \<Rightarrow> jstr" where
  "waffo_key i = js ''waffo-'' @ nat_digits i"

definition handleWaffoMethodSelect :: "nat \<Rightarrow> wallet_state \<Rightarrow> wallet_state" where
  "handleWaffoMethodSelect i s = start (Paying_waffo (math_floor (w_topupAmount s)) i (w_walletType s))
     (s\<lparr> w_paymentLoading := Some (waffo_key i) \<rparr>)"

definition getDiscountRate :: "wallet_state \<Rightarrow> jsnum" where
  "getDiscountRate s = (if w_walletType s = Claude_wallet then DEFAULT_DISCOUNT_RATE
     else case w_info s of None \<Rightarrow> DEFAULT_DISCOUNT_RATE | Some i \<Rightarrow> discount_of (discounts i) (w_topupAmount s))"

section \<open>Answers\<close>

text \<open>What the answers need of their surroundings: the browser, the number formats, the settings and the parser of
  addresses.\<close>

record surroundings =
  sr_userAgent :: jstr
  sr_intl :: intl
  sr_config :: config_state
  sr_protocol :: "jstr \<Rightarrow> jstr option"

definition successful_data :: "jsval option \<Rightarrow> jsval option" where
  "successful_data answer = (case body_of answer of None \<Rightarrow> None
     | Some r \<Rightarrow> if truthy (js_prop r (js ''success'')) \<and> truthy (js_prop r (js ''data'')) then Some (js_prop r (js ''data'')) else None)"

definition wallet_user_arrived :: "jsval option \<Rightarrow> wallet_state \<Rightarrow> wallet_state" where
  "wallet_user_arrived a s = (case successful_data a of Some d \<Rightarrow> s\<lparr> w_user := d, w_userLoading := False \<rparr>
     | None \<Rightarrow> s\<lparr> w_userLoading := False \<rparr>)"

definition subscription_arrived :: "jsval option \<Rightarrow> wallet_state \<Rightarrow> wallet_state" where
  "subscription_arrived a s = s\<lparr> w_subscription := (case successful_data a of Some d \<Rightarrow> d | None \<Rightarrow> VNull),
     w_subscriptionLoading := False \<rparr>"

definition plans_arrived :: "jsval option \<Rightarrow> wallet_state \<Rightarrow> wallet_state" where
  "plans_arrived a s = s\<lparr> w_plans := (case successful_data a of Some d \<Rightarrow> d | None \<Rightarrow> VArr []), w_plansLoading := False \<rparr>"

definition calculation_arrived :: "bool \<Rightarrow> jsval option \<Rightarrow> wallet_state \<Rightarrow> wallet_state" where
  "calculation_arrived opens a s =
     (let s1 = s\<lparr> w_paymentAmount := calculated_amount a, w_calculating := False \<rparr> in
      if opens then s1\<lparr> w_confirmOpen := True, w_paymentLoading := None \<rparr> else s1)"

definition payment_arrived :: "bool \<times> notice list \<Rightarrow> wallet_state \<Rightarrow> wallet_state" where
  "payment_arrived r s = (let s1 = notify (snd r) s in
     if fst r then fetchUser (s1\<lparr> w_confirmOpen := False \<rparr>) else s1)"

definition creem_arrived :: "bool \<times> notice list \<Rightarrow> wallet_state \<Rightarrow> wallet_state" where
  "creem_arrived r s = (let s1 = notify (snd r) (s\<lparr> w_creemBusy := False \<rparr>) in
     if fst r then fetchUser (s1\<lparr> w_creemOpen := False, w_creemProduct := None \<rparr>) else s1)"

definition redeem_arrived :: "bool \<times> notice list \<Rightarrow> wallet_state \<Rightarrow> wallet_state" where
  "redeem_arrived r s =
     (let s1 = notify (snd r) s;
          s2 = (if Subscription_changed_event \<in> set (snd r) then handleSubscriptionChanged s1 else s1) in
      if fst r then start Redeem_refresh s2 else s2\<lparr> w_redeeming := False \<rparr>)"

definition redeem_done :: "bool \<times> notice list \<Rightarrow> wallet_state \<Rightarrow> wallet_state" where
  "redeem_done r s = (let s1 = notify (snd r) (s\<lparr> w_redeeming := False \<rparr>) in
     if fst r then fetchUser (s1\<lparr> w_code := [] \<rparr>) else s1)"

definition answer :: "surroundings \<Rightarrow> wtask \<Rightarrow> jsval option \<Rightarrow> wallet_state \<Rightarrow> wallet_state" where
  "answer e t a s = (case t of
     Calculating _ _ _ opens \<Rightarrow> calculation_arrived opens a s
   | Paying _ type _ \<Rightarrow> payment_arrived (payment_outcome (sr_userAgent e) type a) (s\<lparr> w_processing := False \<rparr>)
   | Paying_pancake _ _ \<Rightarrow> payment_arrived (pancake_outcome (sr_protocol e) a) (s\<lparr> w_pancakeBusy := False \<rparr>)
   | Paying_waffo _ _ _ \<Rightarrow> notify (snd (waffo_outcome a)) (s\<lparr> w_paymentLoading := None \<rparr>)
   | Paying_creem _ \<Rightarrow> creem_arrived (creem_outcome a) s
   | Redeeming _ \<Rightarrow> redeem_arrived (redeem_outcome (sr_intl e) (sr_config e) a) s
   | Redeem_refresh \<Rightarrow> redeem_done (redeem_refreshed a) s
   | Fetching_user \<Rightarrow> wallet_user_arrived a s
   | Fetching_subscription \<Rightarrow> subscription_arrived a s
   | Fetching_plans \<Rightarrow> plans_arrived a s)"

definition drop_task :: "nat \<Rightarrow> wallet_state \<Rightarrow> wallet_state" where
  "drop_task i s = s\<lparr> w_tasks := take i (w_tasks s) @ drop (Suc i) (w_tasks s) \<rparr>"

section \<open>Steps\<close>

definition no_dialog :: "wallet_state \<Rightarrow> bool" where
  "no_dialog s \<longleftrightarrow> \<not> w_confirmOpen s \<and> \<not> w_creemOpen s"

definition method_enabled :: "wallet_state \<Rightarrow> payment_method \<Rightarrow> bool" where
  "method_enabled s m \<longleftrightarrow> (case w_info s of None \<Rightarrow> False | Some i \<Rightarrow> m \<in> set (pay_methods i)) \<and> w_paymentLoading s = None \<and>
     \<not> num_lt (w_topupAmount s) (if w_walletType s = Claude_wallet then Fin 1
       else if num_truthy (pm_min_topup m) then pm_min_topup m else Fin 0)"

definition waffo_enabled :: "wallet_state \<Rightarrow> nat \<Rightarrow> bool" where
  "waffo_enabled s i \<longleftrightarrow> w_paymentLoading s = None \<and> (case w_info s of None \<Rightarrow> False
     | Some info \<Rightarrow> i < length (waffo_pay_methods info) \<and>
        \<not> num_lt (w_topupAmount s) (if w_walletType s = Claude_wallet then Fin 1
          else case waffo_min_topup info of Some x \<Rightarrow> (if num_truthy x then x else Fin 0) | None \<Rightarrow> Fin 0))"

datatype wevent =
    Info_arrived topup_info
  | Select_preset preset_amount
  | Change_amount nat
  | Change_wallet wallet_type
  | Select_method payment_method
  | Confirm_payment
  | Type_code jstr
  | Redeem
  | Select_creem creem_product
  | Confirm_creem
  | Select_waffo nat
  | Close_confirm
  | Close_creem
  | Set_billing bool
  | Subscription_changed
  | Answer nat "jsval option"

text \<open>The handler of an event, before the effect; None when the interface does not offer it.\<close>

definition wallet_handler :: "surroundings \<Rightarrow> wevent \<Rightarrow> wallet_state \<Rightarrow> wallet_state option" where
  "wallet_handler e ev s = (case ev of
     Info_arrived i \<Rightarrow> (if w_info s = None then Some (info_arrived i s) else None)
   | Select_preset p \<Rightarrow> (if no_dialog s \<and> p \<in> set (w_presets s) then Some (handleSelectPreset p s) else None)
   | Change_amount n \<Rightarrow> (if no_dialog s then Some (handleTopupAmountChange (num_of_int (int n)) s) else None)
   | Change_wallet w \<Rightarrow> (if no_dialog s then Some (handleWalletTypeChange w s) else None)
   | Select_method m \<Rightarrow> (if no_dialog s \<and> method_enabled s m then Some (handlePaymentMethodSelect m s) else None)
   | Confirm_payment \<Rightarrow> (if w_confirmOpen s \<and> \<not> w_processing s \<and> \<not> w_pancakeBusy s then Some (handlePaymentConfirm s) else None)
   | Type_code c \<Rightarrow> (if no_dialog s then Some (s\<lparr> w_code := c \<rparr>) else None)
   | Redeem \<Rightarrow> (if no_dialog s \<and> \<not> w_redeeming s then Some (handleRedeem s) else None)
   | Select_creem p \<Rightarrow> (if no_dialog s then Some (handleCreemProductSelect p s) else None)
   | Confirm_creem \<Rightarrow> (if w_creemOpen s \<and> \<not> w_creemBusy s then Some (handleCreemConfirm s) else None)
   | Select_waffo i \<Rightarrow> (if no_dialog s \<and> waffo_enabled s i then Some (handleWaffoMethodSelect i s) else None)
   | Close_confirm \<Rightarrow> Some (s\<lparr> w_confirmOpen := False \<rparr>)
   | Close_creem \<Rightarrow> Some (s\<lparr> w_creemOpen := False \<rparr>)
   | Set_billing b \<Rightarrow> Some (s\<lparr> w_billingOpen := b \<rparr>)
   | Subscription_changed \<Rightarrow> Some (handleSubscriptionChanged s)
   | Answer i a \<Rightarrow> (if i < length (w_tasks s) then Some (answer e (w_tasks s ! i) a (drop_task i s)) else None))"

inductive wallet_step :: "surroundings \<Rightarrow> wallet_state \<Rightarrow> wevent \<Rightarrow> wallet_state \<Rightarrow> bool" for e where
  step: "wallet_handler e ev s = Some s' \<Longrightarrow> wallet_step e s ev (settle s')"

inductive wallet_run :: "surroundings \<Rightarrow> wallet_type \<Rightarrow> wevent list \<Rightarrow> wallet_state \<Rightarrow> bool" for e w where
  begin_run: "wallet_run e w [] (workspace_initial w)"
| step_run: "wallet_run e w evs s \<Longrightarrow> wallet_step e s ev s' \<Longrightarrow> wallet_run e w (evs @ [ev]) s'"

inductive_cases wallet_stepE: "wallet_step e s ev s'"

section \<open>One payment at a time\<close>

definition calculates :: "wtask \<Rightarrow> bool" where
  "calculates t = (case t of Calculating _ _ _ _ \<Rightarrow> True | _ \<Rightarrow> False)"

definition opens_dialog :: "wtask \<Rightarrow> bool" where
  "opens_dialog t = (case t of Calculating _ _ _ b \<Rightarrow> b | _ \<Rightarrow> False)"

definition holds_loading :: "wtask \<Rightarrow> bool" where
  "holds_loading t = (case t of Calculating _ _ _ b \<Rightarrow> b | Paying_waffo _ _ _ \<Rightarrow> True | _ \<Rightarrow> False)"

definition pays :: "wtask \<Rightarrow> bool" where
  "pays t = (case t of Paying _ _ _ \<Rightarrow> True | _ \<Rightarrow> False)"

definition pays_pancake :: "wtask \<Rightarrow> bool" where
  "pays_pancake t = (case t of Paying_pancake _ _ \<Rightarrow> True | _ \<Rightarrow> False)"

definition pays_creem :: "wtask \<Rightarrow> bool" where
  "pays_creem t = (case t of Paying_creem _ \<Rightarrow> True | _ \<Rightarrow> False)"

definition redeems :: "wtask \<Rightarrow> bool" where
  "redeems t = (case t of Redeeming _ \<Rightarrow> True | Redeem_refresh \<Rightarrow> True | _ \<Rightarrow> False)"

lemmas task_tests = calculates_def opens_dialog_def holds_loading_def pays_def pays_pancake_def pays_creem_def redeems_def

lemma start_fields [simp]:
  "w_info (start t s) = w_info s"
  "w_topupAmount (start t s) = w_topupAmount s"
  "w_walletType (start t s) = w_walletType s"
  "w_method (start t s) = w_method s"
  "w_paymentLoading (start t s) = w_paymentLoading s"
  "w_confirmOpen (start t s) = w_confirmOpen s"
  "w_creemOpen (start t s) = w_creemOpen s"
  "w_creemProduct (start t s) = w_creemProduct s"
  "w_calculating (start t s) = w_calculating s"
  "w_processing (start t s) = w_processing s"
  "w_pancakeBusy (start t s) = w_pancakeBusy s"
  "w_creemBusy (start t s) = w_creemBusy s"
  "w_redeeming (start t s) = w_redeeming s"
  "w_paymentAmount (start t s) = w_paymentAmount s"
  "w_tasks (start t s) = w_tasks s @ [t]"
  by (simp_all add: start_def)

lemma notify_fields [simp]:
  "w_info (notify ns s) = w_info s"
  "w_topupAmount (notify ns s) = w_topupAmount s"
  "w_walletType (notify ns s) = w_walletType s"
  "w_method (notify ns s) = w_method s"
  "w_paymentLoading (notify ns s) = w_paymentLoading s"
  "w_confirmOpen (notify ns s) = w_confirmOpen s"
  "w_creemOpen (notify ns s) = w_creemOpen s"
  "w_creemProduct (notify ns s) = w_creemProduct s"
  "w_calculating (notify ns s) = w_calculating s"
  "w_processing (notify ns s) = w_processing s"
  "w_pancakeBusy (notify ns s) = w_pancakeBusy s"
  "w_creemBusy (notify ns s) = w_creemBusy s"
  "w_redeeming (notify ns s) = w_redeeming s"
  "w_paymentAmount (notify ns s) = w_paymentAmount s"
  "w_tasks (notify ns s) = w_tasks s"
  by (simp_all add: notify_def)

lemma drop_fields [simp]:
  "w_info (drop_task i s) = w_info s"
  "w_topupAmount (drop_task i s) = w_topupAmount s"
  "w_walletType (drop_task i s) = w_walletType s"
  "w_method (drop_task i s) = w_method s"
  "w_paymentLoading (drop_task i s) = w_paymentLoading s"
  "w_confirmOpen (drop_task i s) = w_confirmOpen s"
  "w_creemOpen (drop_task i s) = w_creemOpen s"
  "w_creemProduct (drop_task i s) = w_creemProduct s"
  "w_calculating (drop_task i s) = w_calculating s"
  "w_processing (drop_task i s) = w_processing s"
  "w_pancakeBusy (drop_task i s) = w_pancakeBusy s"
  "w_creemBusy (drop_task i s) = w_creemBusy s"
  "w_redeeming (drop_task i s) = w_redeeming s"
  "w_paymentAmount (drop_task i s) = w_paymentAmount s"
  "w_tasks (drop_task i s) = take i (w_tasks s) @ drop (Suc i) (w_tasks s)"
  by (simp_all add: drop_task_def)

text \<open>The number of tasks of a kind, read of the list of tasks.\<close>

definition number_of_tasks :: "(wtask \<Rightarrow> bool) \<Rightarrow> wtask list \<Rightarrow> nat" where
  "number_of_tasks P ts = length (filter P ts)"

lemma number_append [simp]: "number_of_tasks P (ts @ us) = number_of_tasks P ts + number_of_tasks P us"
  and number_Cons [simp]: "number_of_tasks P (t # ts) = of_bool (P t) + number_of_tasks P ts"
  and number_Nil [simp]: "number_of_tasks P [] = 0"
  by (simp_all add: number_of_tasks_def)

lemma number_drop:
  assumes "i < length ts"
  shows "number_of_tasks P (take i ts) + number_of_tasks P (drop (Suc i) ts) = number_of_tasks P ts - of_bool (P (ts ! i))"
    and "P (ts ! i) \<Longrightarrow> 0 < number_of_tasks P ts"
proof -
  have "number_of_tasks P ts = number_of_tasks P (take i ts) + (of_bool (P (ts ! i)) + number_of_tasks P (drop (Suc i) ts))"
    by (subst (1) id_take_nth_drop [OF assms]) (simp add: number_of_tasks_def)
  then show "number_of_tasks P (take i ts) + number_of_tasks P (drop (Suc i) ts) = number_of_tasks P ts - of_bool (P (ts ! i))"
    "P (ts ! i) \<Longrightarrow> 0 < number_of_tasks P ts" by auto
qed

definition wallet_inv :: "wallet_state \<Rightarrow> bool" where
  "wallet_inv s \<longleftrightarrow>
     number_of_tasks holds_loading (w_tasks s) = (if w_paymentLoading s = None then 0 else 1) \<and>
     number_of_tasks pays (w_tasks s) = of_bool (w_processing s) \<and> number_of_tasks pays_pancake (w_tasks s) = of_bool (w_pancakeBusy s) \<and>
     \<not> (w_processing s \<and> w_pancakeBusy s) \<and>
     number_of_tasks pays_creem (w_tasks s) = of_bool (w_creemBusy s) \<and> number_of_tasks redeems (w_tasks s) = of_bool (w_redeeming s) \<and>
     (w_calculating s \<longrightarrow> 0 < number_of_tasks calculates (w_tasks s)) \<and>
     (w_confirmOpen s \<or> 0 < number_of_tasks opens_dialog (w_tasks s) \<longrightarrow> w_method s \<noteq> None) \<and>
     (w_creemOpen s \<longrightarrow> w_creemProduct s \<noteq> None)"

lemma fill_amount_inv: "wallet_inv s \<Longrightarrow> wallet_inv (fill_amount s)"
  by (simp add: wallet_inv_def fill_amount_def calculatePaymentAmount_def Let_def task_tests)

lemma settle_inv: "wallet_inv s \<Longrightarrow> wallet_inv (settle s)"
  by (simp add: settle_def fill_amount_inv)

lemmas fetches = fetchUser_def fetchSubscriptionData_def fetchPublicPlans_def handleSubscriptionChanged_def

lemmas wallet_handlers = info_arrived_def handleSelectPreset_def handleTopupAmountChange_def handleWalletTypeChange_def
  handlePaymentMethodSelect_def handlePaymentConfirm_def handleRedeem_def handleCreemProductSelect_def handleCreemConfirm_def
  handleWaffoMethodSelect_def calculatePaymentAmount_def fetches

lemmas wallet_answers = calculation_arrived_def payment_arrived_def creem_arrived_def redeem_arrived_def redeem_done_def
  wallet_user_arrived_def subscription_arrived_def plans_arrived_def fetches

lemma initial_inv: "wallet_inv (workspace_initial w)"
  by (simp add: wallet_inv_def workspace_initial_def fetches task_tests number_of_tasks_def)

lemma of_bool_minus: "of_bool b - 1 = (0 :: nat)"
  by (cases b) auto

lemma answer_inv:
  assumes "wallet_inv s" "i < length (w_tasks s)"
  shows "wallet_inv (answer e (w_tasks s ! i) a (drop_task i s))"
proof -
  note d = number_drop(1) [OF assms(2)]
  note p = number_drop(2) [OF assms(2)]
  note ps = p [of holds_loading] p [of pays] p [of pays_pancake] p [of pays_creem] p [of redeems] p [of opens_dialog]
  note simps = wallet_inv_def answer_def wallet_answers Let_def d task_tests of_bool_minus
  show ?thesis
  proof (cases "w_tasks s ! i")
    case (Calculating am ty wt b)
    then show ?thesis using assms(1) ps by (cases b) (auto simp: simps)
  next
    case (Paying am ty wt)
    then show ?thesis using assms(1) ps by (auto simp: simps)
  next
    case (Paying_pancake am wt)
    then show ?thesis using assms(1) ps by (auto simp: simps)
  next
    case (Paying_waffo am j wt)
    then show ?thesis using assms(1) ps by (auto simp: simps)
  next
    case (Paying_creem p)
    then show ?thesis using assms(1) ps by (auto simp: simps)
  next
    case (Redeeming c)
    define r where "r = redeem_outcome (sr_intl e) (sr_config e) a"
    show ?thesis using Redeeming assms(1) ps
      by (cases "fst r"; cases "Subscription_changed_event \<in> set (snd r)") (simp_all add: simps r_def [symmetric] split: if_splits)
  next
    case Redeem_refresh
    define r where "r = redeem_refreshed a"
    show ?thesis using Redeem_refresh assms(1) ps by (cases "fst r") (simp_all add: simps r_def [symmetric] split: if_splits)
  next
    case Fetching_user
    then show ?thesis using assms(1) by (cases "successful_data a") (auto simp: simps)
  next
    case Fetching_subscription
    then show ?thesis using assms(1) by (simp add: simps)
  next
    case Fetching_plans
    then show ?thesis using assms(1) by (simp add: simps)
  qed
qed

lemma handler_inv:
  assumes "wallet_inv s" "wallet_handler e ev s = Some s'"
  shows "wallet_inv s'"
proof (cases ev)
  case (Answer i a)
  then show ?thesis using assms answer_inv by (auto simp: wallet_handler_def split: if_splits)
next
  case (Info_arrived j)
  then have s': "s' = info_arrived j s" 
    using assms(2) by (auto simp: wallet_handler_def no_dialog_def waffo_enabled_def method_enabled_def split: if_splits)
  show ?thesis using assms(1)  unfolding s'
    by (simp_all add: wallet_inv_def wallet_handlers Let_def task_tests)
next
  case (Select_preset p)
  then have s': "s' = handleSelectPreset p s" 
    using assms(2) by (auto simp: wallet_handler_def no_dialog_def waffo_enabled_def method_enabled_def split: if_splits)
  show ?thesis using assms(1)  unfolding s'
    by (simp_all add: wallet_inv_def wallet_handlers Let_def task_tests)
next
  case (Change_amount n)
  then have s': "s' = handleTopupAmountChange (num_of_int (int n)) s" 
    using assms(2) by (auto simp: wallet_handler_def no_dialog_def waffo_enabled_def method_enabled_def split: if_splits)
  show ?thesis using assms(1)  unfolding s'
    by (simp_all add: wallet_inv_def wallet_handlers Let_def task_tests)
next
  case (Change_wallet wt)
  then have s': "s' = handleWalletTypeChange wt s" 
    using assms(2) by (auto simp: wallet_handler_def no_dialog_def waffo_enabled_def method_enabled_def split: if_splits)
  show ?thesis using assms(1)  unfolding s'
    by (simp_all add: wallet_inv_def wallet_handlers Let_def task_tests)
next
  case (Select_method m)
  then have s': "s' = handlePaymentMethodSelect m s" and g: "w_paymentLoading s = None"
    using assms(2) by (auto simp: wallet_handler_def no_dialog_def waffo_enabled_def method_enabled_def split: if_splits)
  show ?thesis using assms(1) g unfolding s'
    by (cases "num_lt (w_topupAmount s) (least_amount (w_walletType s) (w_info s))") (simp_all add: wallet_inv_def wallet_handlers Let_def task_tests)
next
  case Confirm_payment
  then have s': "s' = handlePaymentConfirm s" and g: "\<not> w_processing s" "\<not> w_pancakeBusy s"
    using assms(2) by (auto simp: wallet_handler_def no_dialog_def waffo_enabled_def method_enabled_def split: if_splits)
  show ?thesis using assms(1) g unfolding s'
    by (cases "w_method s") (simp_all add: wallet_inv_def wallet_handlers Let_def task_tests)
next
  case (Type_code c)
  then have s': "s' = s\<lparr> w_code := c \<rparr>" 
    using assms(2) by (auto simp: wallet_handler_def no_dialog_def waffo_enabled_def method_enabled_def split: if_splits)
  show ?thesis using assms(1)  unfolding s'
    by (simp_all add: wallet_inv_def wallet_handlers Let_def task_tests)
next
  case Redeem
  then have s': "s' = handleRedeem s" and g: "\<not> w_redeeming s"
    using assms(2) by (auto simp: wallet_handler_def no_dialog_def waffo_enabled_def method_enabled_def split: if_splits)
  show ?thesis using assms(1) g unfolding s'
    by (cases "trim (w_code s) = []") (simp_all add: wallet_inv_def wallet_handlers Let_def task_tests)
next
  case (Select_creem p)
  then have s': "s' = handleCreemProductSelect p s" 
    using assms(2) by (auto simp: wallet_handler_def no_dialog_def waffo_enabled_def method_enabled_def split: if_splits)
  show ?thesis using assms(1)  unfolding s'
    by (simp_all add: wallet_inv_def wallet_handlers Let_def task_tests)
next
  case Confirm_creem
  then have s': "s' = handleCreemConfirm s" and g: "\<not> w_creemBusy s"
    using assms(2) by (auto simp: wallet_handler_def no_dialog_def waffo_enabled_def method_enabled_def split: if_splits)
  show ?thesis using assms(1) g unfolding s'
    by (cases "w_creemProduct s") (simp_all add: wallet_inv_def wallet_handlers Let_def task_tests)
next
  case (Select_waffo j)
  then have s': "s' = handleWaffoMethodSelect j s" and g: "w_paymentLoading s = None"
    using assms(2) by (auto simp: wallet_handler_def no_dialog_def waffo_enabled_def method_enabled_def split: if_splits)
  show ?thesis using assms(1) g unfolding s'
    by (simp_all add: wallet_inv_def wallet_handlers Let_def task_tests)
next
  case Close_confirm
  then have s': "s' = s\<lparr> w_confirmOpen := False \<rparr>" 
    using assms(2) by (auto simp: wallet_handler_def no_dialog_def waffo_enabled_def method_enabled_def split: if_splits)
  show ?thesis using assms(1)  unfolding s'
    by (simp_all add: wallet_inv_def wallet_handlers Let_def task_tests)
next
  case Close_creem
  then have s': "s' = s\<lparr> w_creemOpen := False \<rparr>" 
    using assms(2) by (auto simp: wallet_handler_def no_dialog_def waffo_enabled_def method_enabled_def split: if_splits)
  show ?thesis using assms(1)  unfolding s'
    by (simp_all add: wallet_inv_def wallet_handlers Let_def task_tests)
next
  case (Set_billing b)
  then have s': "s' = s\<lparr> w_billingOpen := b \<rparr>" 
    using assms(2) by (auto simp: wallet_handler_def no_dialog_def waffo_enabled_def method_enabled_def split: if_splits)
  show ?thesis using assms(1)  unfolding s'
    by (simp_all add: wallet_inv_def wallet_handlers Let_def task_tests)
next
  case Subscription_changed
  then have s': "s' = handleSubscriptionChanged s" 
    using assms(2) by (auto simp: wallet_handler_def no_dialog_def waffo_enabled_def method_enabled_def split: if_splits)
  show ?thesis using assms(1)  unfolding s'
    by (simp_all add: wallet_inv_def wallet_handlers Let_def task_tests)
qed

lemma run_inv: "wallet_run e w evs s \<Longrightarrow> wallet_inv s"
proof (induction rule: wallet_run.induct)
  case (step_run evs s ev s')
  then show ?case by (auto elim!: wallet_stepE intro: settle_inv handler_inv)
qed (rule initial_inv)

definition payment_requests :: "wallet_state \<Rightarrow> wtask list" where
  "payment_requests s = filter (\<lambda>t. pays t \<or> pays_pancake t) (w_tasks s)"

lemma number_disjoint:
  "number_of_tasks (\<lambda>t. pays t \<or> pays_pancake t) ts = number_of_tasks pays ts + number_of_tasks pays_pancake ts"
  by (induction ts) (auto simp: task_tests split: wtask.splits)


section \<open>The wallet comes to rest\<close>

definition deps_current :: "wallet_state \<Rightarrow> bool" where
  "deps_current s \<longleftrightarrow> w_deps s = Some (w_info s, w_topupAmount s, w_walletType s)"

lemma deps_start [simp]: "w_deps (start t s) = w_deps s"
  by (simp add: start_def)

lemma settle_deps: "deps_current (settle s)"
  by (simp add: deps_current_def settle_def fill_amount_def calculatePaymentAmount_def Let_def)

lemma settle_current: "deps_current s \<Longrightarrow> settle s = s"
  by (simp add: deps_current_def settle_def fill_amount_def)

lemma run_deps: "wallet_run e w evs s \<Longrightarrow> deps_current s"
proof (induction rule: wallet_run.induct)
  case begin_run
  show ?case by (simp add: deps_current_def workspace_initial_def fetches)
next
  case (step_run evs s ev s')
  then show ?case by (auto elim!: wallet_stepE intro: settle_deps)
qed

text \<open>An answer starts less than it ends.\<close>

fun weight :: "wtask \<Rightarrow> nat" where
  "weight (Redeeming _) = 6"
| "weight Redeem_refresh = 2"
| "weight (Paying _ _ _) = 2"
| "weight (Paying_pancake _ _) = 2"
| "weight (Paying_creem _) = 2"
| "weight _ = 1"

lemma weight_pos [simp]: "weight t \<noteq> 0"
  by (cases t) auto

definition total_weight :: "wtask list \<Rightarrow> nat" where
  "total_weight ts = sum_list (map weight ts)"

lemma total_weight_simps [simp]:
  "total_weight [] = 0" "total_weight (t # ts) = weight t + total_weight ts" "total_weight (ts @ us) = total_weight ts + total_weight us"
  by (simp_all add: total_weight_def)

lemma notify_deps [simp]: "w_deps (notify ns s) = w_deps s"
  by (simp add: notify_def)

lemma answer_first:
  assumes "w_tasks s = t # ts"
  shows "total_weight (w_tasks (answer e t a (drop_task 0 s))) < total_weight (w_tasks s) \<and>
    (deps_current s \<longrightarrow> deps_current (answer e t a (drop_task 0 s)))"
proof -
  have d: "w_deps (drop_task 0 s) = w_deps s" by (simp add: drop_task_def)
  note simps = answer_def wallet_answers Let_def assms deps_current_def d
  show ?thesis
  proof (cases t)
    case (Redeeming c)
    then show ?thesis
      by (cases "fst (redeem_outcome (sr_intl e) (sr_config e) a)";
          cases "Subscription_changed_event \<in> set (snd (redeem_outcome (sr_intl e) (sr_config e) a))") (simp_all add: simps)
  next
    case Fetching_user
    then show ?thesis by (cases "successful_data a") (simp_all add: simps)
  qed (simp_all add: simps)
qed

lemma run_to_rest: "wallet_run e w evs s \<Longrightarrow> total_weight (w_tasks s) \<le> n \<Longrightarrow>
   \<exists>answers s'. length answers \<le> n \<and> list_all (\<lambda>ev. ev = Answer 0 a) answers \<and> wallet_run e w (evs @ answers) s' \<and> w_tasks s' = []"
proof (induction n arbitrary: evs s)
  case 0
  have "w_tasks s = []" using 0 by (cases "w_tasks s") auto
  then show ?case using 0 by (intro exI [of _ "[]"]) auto
next
  case (Suc n)
  show ?case
  proof (cases "w_tasks s")
    case Nil
    then show ?thesis using Suc.prems by (intro exI [of _ "[]"]) auto
  next
    case (Cons t ts)
    let ?s = "answer e t a (drop_task 0 s)"
    have "deps_current ?s" and less: "total_weight (w_tasks ?s) < total_weight (w_tasks s)"
      using answer_first [OF Cons] run_deps [OF Suc.prems(1)] by auto
    then have "wallet_step e s (Answer 0 a) ?s"
      using wallet_step.step [of e "Answer 0 a" s ?s] settle_current [of ?s] Cons by (simp add: wallet_handler_def)
    with Suc.prems(1) have "wallet_run e w (evs @ [Answer 0 a]) ?s" by (rule wallet_run.step_run)
    from Suc.IH [OF this] less Suc.prems(2) obtain answers s' where
      "length answers \<le> n" "list_all (\<lambda>ev. ev = Answer 0 a) answers" "wallet_run e w ((evs @ [Answer 0 a]) @ answers) s'" "w_tasks s' = []"
      by auto
    then show ?thesis by (intro exI [of _ "Answer 0 a # answers"] exI [of _ s']) auto
  qed
qed

text \<open>C29. From every reachable state the answers, whatever they say, lead to a state without requests in which
  no button is blocked, no spinner shows and nothing is being calculated.\<close>

theorem wallet_comes_to_rest:
  assumes "wallet_run e w evs s"
  shows "\<exists>answers s'. length answers \<le> total_weight (w_tasks s) \<and> list_all (\<lambda>ev. ev = Answer 0 a) answers \<and>
    wallet_run e w (evs @ answers) s' \<and> w_tasks s' = [] \<and> w_paymentLoading s' = None \<and> \<not> w_processing s' \<and>
    \<not> w_pancakeBusy s' \<and> \<not> w_creemBusy s' \<and> \<not> w_redeeming s' \<and> \<not> w_calculating s'"
proof -
  obtain answers s' where r: "length answers \<le> total_weight (w_tasks s)" "list_all (\<lambda>ev. ev = Answer 0 a) answers"
    "wallet_run e w (evs @ answers) s'" "w_tasks s' = []"
    using run_to_rest [OF assms order_refl] by blast
  from run_inv [OF r(3)] r(4) have "w_paymentLoading s' = None" "\<not> w_processing s'" "\<not> w_pancakeBusy s'" "\<not> w_creemBusy s'"
    "\<not> w_redeeming s'" "\<not> w_calculating s'"
    by (auto simp: wallet_inv_def split: if_splits)
  with r show ?thesis by blast
qed

section \<open>The price shown\<close>

text \<open>Calculations are answered in the order in which they were asked, by a server whose answer depends on the amount, the
  method and the wallet.\<close>

definition answered_in_order :: "(jsnum \<Rightarrow> jstr \<Rightarrow> wallet_type \<Rightarrow> jsval option) \<Rightarrow> wallet_state \<Rightarrow> wevent \<Rightarrow> bool" where
  "answered_in_order srv s ev = (case ev of
     Answer i a \<Rightarrow> (if i < length (w_tasks s) then
         (case w_tasks s ! i of Calculating am ty wt _ \<Rightarrow> a = srv am ty wt \<and> \<not> list_ex calculates (take i (w_tasks s)) | _ \<Rightarrow> True)
       else True)
   | _ \<Rightarrow> True)"

inductive ordered_run :: "(jsnum \<Rightarrow> jstr \<Rightarrow> wallet_type \<Rightarrow> jsval option) \<Rightarrow> surroundings \<Rightarrow> wallet_type \<Rightarrow> wallet_state \<Rightarrow> bool"
  for srv e w where
  ordered_begin: "ordered_run srv e w (workspace_initial w)"
| ordered_step: "ordered_run srv e w s \<Longrightarrow> wallet_step e s ev s' \<Longrightarrow> answered_in_order srv s ev \<Longrightarrow> ordered_run srv e w s'"

definition calculations :: "wallet_state \<Rightarrow> wtask list" where
  "calculations s = filter calculates (w_tasks s)"

definition asks_current :: "wallet_state \<Rightarrow> wtask \<Rightarrow> bool" where
  "asks_current s t = (case t of Calculating am ty wt _ \<Rightarrow> am = w_topupAmount s \<and> wt = w_walletType s | _ \<Rightarrow> False)"

definition price_shown :: "(jsnum \<Rightarrow> jstr \<Rightarrow> wallet_type \<Rightarrow> jsval option) \<Rightarrow> wallet_state \<Rightarrow> bool" where
  "price_shown srv s \<longleftrightarrow> (\<exists>ty. w_paymentAmount s = calculated_amount (srv (w_topupAmount s) ty (w_walletType s)))"

text \<open>Nothing asked yet, the price shown, or the last question is the current one.\<close>

definition price_inv :: "(jsnum \<Rightarrow> jstr \<Rightarrow> wallet_type \<Rightarrow> jsval option) \<Rightarrow> wallet_state \<Rightarrow> bool" where
  "price_inv srv s \<longleftrightarrow>
     (if calculations s = [] then (w_topupAmount s = Fin 0 \<and> (w_info s = None \<or> \<not> deps_current s)) \<or> price_shown srv s
      else asks_current s (last (calculations s)))"

lemma filter_at:
  "i < length xs \<Longrightarrow> filter P xs = filter P (take i xs) @ (if P (xs ! i) then [xs ! i] else []) @ filter P (drop (Suc i) xs)"
  using arg_cong [OF id_take_nth_drop, of i xs "filter P"] by auto

lemma calculations_drop:
  "i < length (w_tasks s) \<Longrightarrow> \<not> calculates (w_tasks s ! i) \<Longrightarrow> calculations (drop_task i s) = calculations s"
  using filter_at [of i "w_tasks s" calculates] by (simp add: calculations_def)

lemma calculations_first:
  assumes "i < length (w_tasks s)" "calculates (w_tasks s ! i)" "\<not> list_ex calculates (take i (w_tasks s))"
  shows "calculations s = w_tasks s ! i # calculations (drop_task i s)"
proof -
  have "filter calculates (take i (w_tasks s)) = []" using assms(3) by (simp add: filter_empty_conv list_ex_iff)
  then show ?thesis using filter_at [OF assms(1), of calculates] assms(2) by (simp add: calculations_def)
qed

lemma asks_current_cong:
  "w_topupAmount s' = w_topupAmount s \<Longrightarrow> w_walletType s' = w_walletType s \<Longrightarrow> asks_current s' t = asks_current s t"
  by (simp add: asks_current_def split: wtask.split)

lemma price_shown_cong:
  "w_topupAmount s' = w_topupAmount s \<Longrightarrow> w_walletType s' = w_walletType s \<Longrightarrow> w_paymentAmount s' = w_paymentAmount s \<Longrightarrow>
   price_shown srv s' = price_shown srv s"
  by (simp add: price_shown_def)

lemma price_asked:
  "price_inv srv (calculatePaymentAmount am ty wt b s)" if "w_topupAmount s = am" "w_walletType s = wt"
  using that by (simp add: price_inv_def calculatePaymentAmount_def calculations_def asks_current_def calculates_def)

lemma fill_amount_price:
  assumes "price_inv srv s"
  shows "price_inv srv (fill_amount s)"
proof -
  let ?d = "s\<lparr> w_deps := Some (w_info s, w_topupAmount s, w_walletType s) \<rparr>"
  consider "deps_current s" | "\<not> deps_current s" "w_info s \<noteq> None" "num_eq (w_topupAmount s) (Fin 0)"
    | "\<not> deps_current s" "w_info s = None \<or> \<not> num_eq (w_topupAmount s) (Fin 0)"
    by (cases "deps_current s"; cases "w_info s = None"; cases "num_eq (w_topupAmount s) (Fin 0)") simp_all
  then show ?thesis
  proof cases
    case 1
    then show ?thesis using assms by (simp add: fill_amount_def deps_current_def)
  next
    case 2
    then show ?thesis by (simp add: fill_amount_def deps_current_def Let_def price_asked)
  next
    case 3
    then have "fill_amount s = ?d" by (auto simp: fill_amount_def deps_current_def Let_def)
    moreover have "calculations ?d = calculations s" by (simp add: calculations_def)
    moreover have "asks_current ?d t = asks_current s t" for t by (rule asks_current_cong) simp_all
    moreover have "price_shown srv ?d = price_shown srv s" by (rule price_shown_cong) simp_all
    ultimately show ?thesis using assms 3(2) by (auto simp: price_inv_def num_eq_def)
  qed
qed

lemma settle_price: "price_inv srv s \<Longrightarrow> price_inv srv (settle s)"
  by (simp add: settle_def fill_amount_price)

text \<open>What the invariant reads of a state; most steps leave it alone.\<close>

definition price_view :: "wallet_state \<Rightarrow> jsnum \<times> wallet_type \<times> jsnum \<times> topup_info option \<times>
    (topup_info option \<times> jsnum \<times> wallet_type) option \<times> wtask list" where
  "price_view s = (w_topupAmount s, w_walletType s, w_paymentAmount s, w_info s, w_deps s, calculations s)"

lemma price_view_cong:
  assumes "price_view s' = price_view s"
  shows "price_inv srv s' = price_inv srv s"
proof -
  have f: "w_topupAmount s' = w_topupAmount s" "w_walletType s' = w_walletType s" "w_paymentAmount s' = w_paymentAmount s"
    "w_info s' = w_info s" "w_deps s' = w_deps s" "calculations s' = calculations s"
    using assms by (simp_all add: price_view_def)
  then have "deps_current s' = deps_current s" by (simp add: deps_current_def)
  then show ?thesis using asks_current_cong [OF f(1,2)] price_shown_cong [OF f(1-3)] by (simp add: price_inv_def f(1,4,6))
qed

lemma price_view_update [simp]:
  "price_view (s\<lparr> w_presets := x0 \<rparr>) = price_view s"
  "price_view (s\<lparr> w_selectedPreset := x1 \<rparr>) = price_view s"
  "price_view (s\<lparr> w_method := x2 \<rparr>) = price_view s"
  "price_view (s\<lparr> w_paymentLoading := x3 \<rparr>) = price_view s"
  "price_view (s\<lparr> w_confirmOpen := x4 \<rparr>) = price_view s"
  "price_view (s\<lparr> w_billingOpen := x5 \<rparr>) = price_view s"
  "price_view (s\<lparr> w_code := x6 \<rparr>) = price_view s"
  "price_view (s\<lparr> w_creemOpen := x7 \<rparr>) = price_view s"
  "price_view (s\<lparr> w_creemProduct := x8 \<rparr>) = price_view s"
  "price_view (s\<lparr> w_calculating := x9 \<rparr>) = price_view s"
  "price_view (s\<lparr> w_processing := x10 \<rparr>) = price_view s"
  "price_view (s\<lparr> w_pancakeBusy := x11 \<rparr>) = price_view s"
  "price_view (s\<lparr> w_creemBusy := x12 \<rparr>) = price_view s"
  "price_view (s\<lparr> w_redeeming := x13 \<rparr>) = price_view s"
  "price_view (s\<lparr> w_user := x14 \<rparr>) = price_view s"
  "price_view (s\<lparr> w_userLoading := x15 \<rparr>) = price_view s"
  "price_view (s\<lparr> w_subscription := x16 \<rparr>) = price_view s"
  "price_view (s\<lparr> w_subscriptionLoading := x17 \<rparr>) = price_view s"
  "price_view (s\<lparr> w_plans := x18 \<rparr>) = price_view s"
  "price_view (s\<lparr> w_plansLoading := x19 \<rparr>) = price_view s"
  "price_view (s\<lparr> w_notices := x20 \<rparr>) = price_view s"
  by (simp_all add: price_view_def calculations_def)

lemma price_view_start [simp]:
  "\<not> calculates t \<Longrightarrow> price_view (start t s) = price_view s"
  "price_view (notify ns s) = price_view s"
  by (simp_all add: price_view_def calculations_def)

lemma price_view_drop:
  "i < length (w_tasks s) \<Longrightarrow> \<not> calculates (w_tasks s ! i) \<Longrightarrow> price_view (drop_task i s) = price_view s"
  by (simp add: price_view_def calculations_drop) (simp add: drop_task_def)

lemma calculates_simps [simp]:
  "\<not> calculates (Paying am ty wt)" "\<not> calculates (Paying_pancake am wt)" "\<not> calculates (Paying_waffo am i wt)"
  "\<not> calculates (Paying_creem p)" "\<not> calculates (Redeeming c)" "\<not> calculates Redeem_refresh" "\<not> calculates Fetching_user"
  "\<not> calculates Fetching_subscription" "\<not> calculates Fetching_plans"
  by (simp_all add: calculates_def)

lemma calculation_price:
  assumes "price_inv srv s" "i < length (w_tasks s)" "w_tasks s ! i = Calculating am ty wt b"
    "\<not> list_ex calculates (take i (w_tasks s))"
  shows "price_inv srv (calculation_arrived b (srv am ty wt) (drop_task i s))"
proof -
  let ?s = "calculation_arrived b (srv am ty wt) (drop_task i s)"
  have f: "w_topupAmount ?s = w_topupAmount s" "w_walletType ?s = w_walletType s" by (simp_all add: calculation_arrived_def Let_def)
  have c: "calculations ?s = calculations (drop_task i s)" by (simp add: calculations_def calculation_arrived_def Let_def)
  have first: "calculations s = Calculating am ty wt b # calculations (drop_task i s)"
    using calculations_first [of i s] assms(2-4) by (simp add: calculates_def)
  have "asks_current s (last (calculations s))" using assms(1) first by (simp add: price_inv_def)
  moreover have "w_paymentAmount ?s = calculated_amount (srv am ty wt)" by (simp add: calculation_arrived_def Let_def)
  ultimately show ?thesis
  proof (cases "calculations (drop_task i s) = []")
    case True
    then have "am = w_topupAmount s" "wt = w_walletType s"
      using \<open>asks_current s _\<close> first by (simp_all add: asks_current_def)
    then have "price_shown srv ?s" using \<open>w_paymentAmount ?s = _\<close> unfolding price_shown_def f by blast
    then show ?thesis using True by (simp add: price_inv_def c)
  next
    case False
    then show ?thesis using \<open>asks_current s _\<close> first asks_current_cong [OF f] by (simp add: price_inv_def c)
  qed
qed

lemma answer_view:
  "\<not> calculates t \<Longrightarrow> price_view (answer e t a s) = price_view s"
proof (cases t)
  case Fetching_user
  then show ?thesis by (cases "successful_data a") (simp_all add: answer_def wallet_answers)
qed (simp_all add: answer_def wallet_answers Let_def calculates_def)

lemma answer_price:
  assumes "price_inv srv s" "i < length (w_tasks s)" "answered_in_order srv s (Answer i a)"
  shows "price_inv srv (answer e (w_tasks s ! i) a (drop_task i s))"
proof (cases "calculates (w_tasks s ! i)")
  case True
  then obtain am ty wt b where t: "w_tasks s ! i = Calculating am ty wt b" by (auto simp: calculates_def split: wtask.splits)
  then show ?thesis using calculation_price [OF assms(1,2) t] assms(2,3) by (simp add: answered_in_order_def answer_def)
next
  case False
  then show ?thesis using assms(1,2) by (simp add: price_view_cong [OF trans [OF answer_view price_view_drop]])
qed

lemma price_inv_info:
  assumes "price_inv srv s" "w_info s = None" "deps_current s"
  shows "price_inv srv (info_arrived j s)"
proof -
  let ?s = "info_arrived j s"
  have f: "w_topupAmount ?s = w_topupAmount s" "w_walletType ?s = w_walletType s" "w_paymentAmount ?s = w_paymentAmount s"
    "calculations ?s = calculations s" "\<not> deps_current ?s"
    using assms(2,3) by (simp_all add: info_arrived_def calculations_def deps_current_def)
  show ?thesis using assms(1) f asks_current_cong [OF f(1,2)] price_shown_cong [OF f(1-3)] by (auto simp: price_inv_def)
qed

lemma handler_price:
  assumes "price_inv srv s" "deps_current s" "wallet_handler e ev s = Some s'" "answered_in_order srv s ev"
  shows "price_inv srv s'"
proof -
  have keep: "price_view s' = price_view s \<Longrightarrow> price_inv srv s'" using price_view_cong assms(1) by blast
  show ?thesis
  proof (cases ev)
    case (Answer i a)
    then show ?thesis using assms answer_price by (auto simp: wallet_handler_def split: if_splits)
  next
    case (Info_arrived j)
    then show ?thesis using assms price_inv_info by (auto simp: wallet_handler_def split: if_splits)
  next
    case (Select_preset p)
    then show ?thesis using assms(3) by (auto simp: wallet_handler_def handleSelectPreset_def price_asked split: if_splits)
  next
    case (Change_amount n)
    then show ?thesis using assms(3) by (auto simp: wallet_handler_def handleTopupAmountChange_def price_asked split: if_splits)
  next
    case (Change_wallet wt)
    then show ?thesis using assms(3) by (auto simp: wallet_handler_def handleWalletTypeChange_def Let_def price_asked split: if_splits)
  next
    case (Select_method m)
    then have s': "s' = handlePaymentMethodSelect m s" using assms(3) by (simp add: wallet_handler_def split: if_splits)
    show ?thesis
    proof (cases "num_lt (w_topupAmount s) (least_amount (w_walletType s) (w_info s))")
      case True
      then show ?thesis by (intro keep) (simp add: s' handlePaymentMethodSelect_def Let_def)
    qed (simp add: s' handlePaymentMethodSelect_def Let_def price_asked)
  next
    case Confirm_payment
    then have "s' = handlePaymentConfirm s" using assms(3) by (simp add: wallet_handler_def split: if_splits)
    then show ?thesis by (intro keep) (simp add: handlePaymentConfirm_def split: option.split)
  next
    case Confirm_creem
    then have "s' = handleCreemConfirm s" using assms(3) by (simp add: wallet_handler_def split: if_splits)
    then show ?thesis by (intro keep) (simp add: handleCreemConfirm_def split: option.split)
  next
    case (Type_code x)
    then have "s' = s\<lparr> w_code := x \<rparr>" using assms(3) by (simp add: wallet_handler_def split: if_splits)
    then show ?thesis by (intro keep) simp
  next
    case Redeem
    then have "s' = handleRedeem s" using assms(3) by (simp add: wallet_handler_def split: if_splits)
    then show ?thesis by (intro keep) (simp add: handleRedeem_def)
  next
    case (Select_creem p)
    then have "s' = handleCreemProductSelect p s" using assms(3) by (simp add: wallet_handler_def split: if_splits)
    then show ?thesis by (intro keep) (simp add: handleCreemProductSelect_def)
  next
    case (Select_waffo j)
    then have "s' = handleWaffoMethodSelect j s" using assms(3) by (simp add: wallet_handler_def split: if_splits)
    then show ?thesis by (intro keep) (simp add: handleWaffoMethodSelect_def)
  next
    case Close_confirm
    then have "s' = s\<lparr> w_confirmOpen := False \<rparr>" using assms(3) by (simp add: wallet_handler_def split: if_splits)
    then show ?thesis by (intro keep) simp
  next
    case Close_creem
    then have "s' = s\<lparr> w_creemOpen := False \<rparr>" using assms(3) by (simp add: wallet_handler_def split: if_splits)
    then show ?thesis by (intro keep) simp
  next
    case (Set_billing x)
    then have "s' = s\<lparr> w_billingOpen := x \<rparr>" using assms(3) by (simp add: wallet_handler_def split: if_splits)
    then show ?thesis by (intro keep) simp
  next
    case Subscription_changed
    then have "s' = handleSubscriptionChanged s" using assms(3) by (simp add: wallet_handler_def split: if_splits)
    then show ?thesis by (intro keep) (simp add: fetches)
  qed
qed

lemma ordered_inv: "ordered_run srv e w s \<Longrightarrow> price_inv srv s \<and> deps_current s"
proof (induction rule: ordered_run.induct)
  case ordered_begin
  have "calculations (workspace_initial w) = []" by (simp add: calculations_def workspace_initial_def fetches)
  then show ?case using run_deps [OF wallet_run.begin_run]
    by (simp add: price_inv_def) (simp add: workspace_initial_def fetches)
next
  case (ordered_step s ev s')
  then show ?case by (auto elim!: wallet_stepE intro: settle_price settle_deps handler_price)
qed

text \<open>C14. When calculations are answered in the order they were asked, then as soon as none is outstanding and the
  information of the wallet is there, the price shown is the server's answer for the amount and the wallet on the page.\<close>

theorem price_belongs_to_amount:
  assumes "ordered_run srv e w s" "w_info s \<noteq> None" "number_of_tasks calculates (w_tasks s) = 0"
  shows "\<exists>ty. w_paymentAmount s = calculated_amount (srv (w_topupAmount s) ty (w_walletType s))"
proof -
  have "calculations s = []" using assms(3) by (simp add: calculations_def number_of_tasks_def)
  then show ?thesis using ordered_inv [OF assms(1)] assms(2) by (auto simp: price_inv_def price_shown_def)
qed

section \<open>Runs on concrete answers\<close>

fun wallet_exec :: "surroundings \<Rightarrow> wevent list \<Rightarrow> wallet_state \<Rightarrow> wallet_state option" where
  "wallet_exec e [] s = Some s"
| "wallet_exec e (ev # evs) s = (case wallet_handler e ev s of None \<Rightarrow> None | Some s' \<Rightarrow> wallet_exec e evs (settle s'))"

lemma wallet_exec_run: "wallet_run e w evs s \<Longrightarrow> wallet_exec e evs' s = Some s' \<Longrightarrow> wallet_run e w (evs @ evs') s'"
proof (induction evs' arbitrary: evs s)
  case (Cons ev evs')
  then obtain s1 where s1: "wallet_handler e ev s = Some s1" "wallet_exec e evs' (settle s1) = Some s'"
    by (auto split: option.splits)
  with Cons.prems(1) have "wallet_run e w (evs @ [ev]) (settle s1)" by (blast intro: wallet_run.step_run wallet_step.step)
  from Cons.IH [OF this s1(2)] show ?case by simp
qed simp

lemma wallet_exec_initial: "wallet_exec e evs (workspace_initial w) = Some s \<Longrightarrow> wallet_run e w evs s"
  using wallet_exec_run [OF wallet_run.begin_run] by fastforce

definition alipay :: payment_method where
  "alipay = \<lparr> pm_name = js ''Alipay'', pm_type = js ''alipay'', pm_color = None, pm_min_topup = Fin 1 \<rparr>"

definition sample_topup :: topup_info where
  "sample_topup = \<lparr> enable_online_topup = True, enable_stripe_topup = False, enable_waffo_topup = False,
     enable_waffo_pancake_topup = False, min_topup = Fin 1, stripe_min_topup = Fin 0, waffo_min_topup = None,
     waffo_pancake_min_topup = None, pay_methods = [alipay], amount_options = [], discounts = [], creem_products = [],
     waffo_pay_methods = [] \<rparr>"

definition sample_env :: surroundings where
  "sample_env = \<lparr> sr_userAgent = [], sr_intl = plain_intl, sr_config = cny_store, sr_protocol = (\<lambda>_. None) \<rparr>"

text \<open>The method is chosen for 10, the amount becomes 20 before the price arrives, and the second price arrives first.\<close>

definition price_answer :: "string \<Rightarrow> jsval option" where
  "price_answer x = Some (VObj [(js ''message'', VStr (js ''success'')), (js ''data'', VStr (js x))])"

definition overtaking :: "wevent list" where
  "overtaking = [Info_arrived sample_topup, Answer 3 None, Change_amount 10, Answer 3 (price_answer ''70''), Select_method alipay,
     Change_amount 20, Answer 4 (price_answer ''140''), Answer 3 (price_answer ''70'')]"

definition overtaken :: "wallet_state option" where
  "overtaken = wallet_exec sample_env overtaking (workspace_initial Default_wallet)"

lemma overtaken_shows:
  "map_option (\<lambda>s. (w_confirmOpen s, number_of_tasks calculates (w_tasks s), w_topupAmount s, w_paymentAmount s,
     w_tasks (handlePaymentConfirm s), w_processing (settle (handlePaymentConfirm s)), wallet_handler sample_env Confirm_payment s = None))
     overtaken =
   Some (True, 0, Fin 20, Fin 70, [Fetching_user, Fetching_subscription, Fetching_plans, Paying (Fin 20) (js ''alipay'') Default_wallet],
     True, False)"
  by code_simp

lemma overtaken_run:
  obtains s where "wallet_run sample_env Default_wallet overtaking s" "w_confirmOpen s" "number_of_tasks calculates (w_tasks s) = 0"
    "w_topupAmount s = Fin 20" "w_paymentAmount s = Fin 70" "Paying (Fin 20) (js ''alipay'') Default_wallet \<in> set (w_tasks (handlePaymentConfirm s))"
    "w_processing (settle (handlePaymentConfirm s))" "wallet_handler sample_env Confirm_payment s \<noteq> None"
proof -
  obtain s where s: "overtaken = Some s" using overtaken_shows by (cases overtaken) auto
  then have "wallet_run sample_env Default_wallet overtaking s" using wallet_exec_initial by (simp add: overtaken_def)
  then show ?thesis using overtaken_shows unfolding s by (intro that) auto
qed


text \<open>A redemption that succeeded is reported as failed when the request for the profile after it fails.\<close>

lemma redeemed_but_reported_failed:
  "redeem_done (redeem_refreshed None) s = notify [Redemption_failed] (s\<lparr> w_redeeming := False \<rparr>)"
  by (simp add: redeem_done_def redeem_refreshed_def)


theorem wallet_comes_to_rest_witness:
  "\<exists>answers s'. list_all (\<lambda>ev. ev = Answer 0 None) answers \<and> wallet_run sample_env Default_wallet (overtaking @ answers) s' \<and>
     w_tasks s' = []"
proof -
  obtain s where "wallet_run sample_env Default_wallet overtaking s" by (rule overtaken_run)
  from wallet_comes_to_rest [OF this, of None] show ?thesis by blast
qed

fun ordered_exec :: "(jsnum \<Rightarrow> jstr \<Rightarrow> wallet_type \<Rightarrow> jsval option) \<Rightarrow> surroundings \<Rightarrow> wevent list \<Rightarrow> wallet_state \<Rightarrow> wallet_state option" where
  "ordered_exec srv e [] s = Some s"
| "ordered_exec srv e (ev # evs) s = (if \<not> answered_in_order srv s ev then None
     else case wallet_handler e ev s of None \<Rightarrow> None | Some s' \<Rightarrow> ordered_exec srv e evs (settle s'))"

lemma ordered_exec_run: "ordered_run srv e w s \<Longrightarrow> ordered_exec srv e evs s = Some s' \<Longrightarrow> ordered_run srv e w s'"
proof (induction evs arbitrary: s)
  case (Cons ev evs)
  then obtain s1 where s1: "wallet_handler e ev s = Some s1" "ordered_exec srv e evs (settle s1) = Some s'" "answered_in_order srv s ev"
    by (auto split: option.splits if_splits)
  with Cons.prems(1) have "ordered_run srv e w (settle s1)" by (blast intro: ordered_run.ordered_step wallet_step.step)
  from Cons.IH [OF this s1(2)] show ?case .
qed simp

theorem price_belongs_to_amount_witness:
  "\<exists>s. ordered_run (\<lambda>am ty wt. price_answer ''7'') sample_env Default_wallet s \<and> w_info s \<noteq> None \<and> w_paymentAmount s = Fin 7"
proof -
  let ?srv = "\<lambda>am ty wt. price_answer ''7''"
  let ?x = "ordered_exec ?srv sample_env [Info_arrived sample_topup, Answer 3 (price_answer ''7'')] (workspace_initial Default_wallet)"
  have x: "map_option (\<lambda>s. (w_info s = None, number_of_tasks calculates (w_tasks s))) ?x = Some (False, 0)" by code_simp
  then obtain s where s: "?x = Some s" "w_info s \<noteq> None" "number_of_tasks calculates (w_tasks s) = 0"
    by (cases ?x) auto
  have r: "ordered_run ?srv sample_env Default_wallet s" using ordered_exec_run [OF ordered_run.ordered_begin s(1)] .
  have p: "calculated_amount (price_answer ''7'') = Fin 7" by code_simp
  from price_belongs_to_amount [OF r s(2,3)] p r s(2) show ?thesis by auto
qed

end
