(* ===== verification/ChartTime.thy ===== *)
theory ChartTime
  imports JsCoerce
begin

text \<open>
  Dates and web/default/src/lib/time.ts. A date is its milliseconds since 1970. The calendar is that of ECMAScript
  (days, years and months counted from the day number); the zone is a parameter: local time of an instant and instant of a
  local time. dayjs is a parameter too: the text of an instant in a format and the instant some days later. Timestamps
  are whole seconds.
\<close>

section \<open>The calendar\<close>

definition leap_year :: "int \<Rightarrow> bool" where
  "leap_year y \<longleftrightarrow> y mod 4 = 0 \<and> (y mod 100 \<noteq> 0 \<or> y mod 400 = 0)"

definition day_from_year :: "int \<Rightarrow> int" where
  "day_from_year y = 365 * (y - 1970) + (y - 1969) div 4 - (y - 1901) div 100 + (y - 1601) div 400"

text \<open>The last year that does not begin after the day; the estimate is off by at most one.\<close>

definition year_of_day :: "int \<Rightarrow> int" where
  "year_of_day n = (let y = 1970 + n * 400 div 146097 in
     if n < day_from_year y then y - 1 else if day_from_year (y + 1) \<le> n then y + 1 else y)"

definition month_starts :: "bool \<Rightarrow> int list" where
  "month_starts leap = (if leap then [0, 31, 60, 91, 121, 152, 182, 213, 244, 274, 305, 335]
     else [0, 31, 59, 90, 120, 151, 181, 212, 243, 273, 304, 334])"

definition month_index :: "bool \<Rightarrow> int \<Rightarrow> nat" where
  "month_index leap k = length (takeWhile (\<lambda>s. s \<le> k) (month_starts leap)) - 1"

text \<open>Year, month from 0 and day of the month from 1 of a day number.\<close>

definition civil :: "int \<Rightarrow> int \<times> int \<times> int" where
  "civil n = (let y = year_of_day n; k = n - day_from_year y; m = month_index (leap_year y) k in
     (y, int m, k - month_starts (leap_year y) ! m + 1))"

text \<open>The day number; a month or a day out of range carries over.\<close>

definition make_day :: "int \<Rightarrow> int \<Rightarrow> int \<Rightarrow> int" where
  "make_day y m d = (let y' = y + m div 12 in
     day_from_year y' + month_starts (leap_year y') ! nat (m mod 12) + d - 1)"

definition ms_day :: int where "ms_day = 86400000"

record zone =
  to_local :: "int \<Rightarrow> int"
  to_utc :: "int \<Rightarrow> int"

definition local_day :: "zone \<Rightarrow> int \<Rightarrow> int" where
  "local_day z t = to_local z t div ms_day"

text \<open>setHours with all four parts, setDate, setMonth and setHours with the hour alone.\<close>

definition set_time :: "zone \<Rightarrow> int \<Rightarrow> int \<Rightarrow> int" where
  "set_time z ms t = to_utc z (local_day z t * ms_day + ms)"

definition set_date :: "zone \<Rightarrow> int \<Rightarrow> int \<Rightarrow> int" where
  "set_date z d t = (let (y, m, _) = civil (local_day z t) in to_utc z (make_day y m d * ms_day + to_local z t mod ms_day))"

definition set_month :: "zone \<Rightarrow> int \<Rightarrow> int \<Rightarrow> int" where
  "set_month z m t = (let (y, _, d) = civil (local_day z t) in to_utc z (make_day y m d * ms_day + to_local z t mod ms_day))"

definition set_hours :: "zone \<Rightarrow> int \<Rightarrow> int \<Rightarrow> int" where
  "set_hours z h t = to_utc z (local_day z t * ms_day + h * 3600000 + to_local z t mod 3600000)"

definition get_date :: "zone \<Rightarrow> int \<Rightarrow> int" where
  "get_date z t = (case civil (local_day z t) of (_, _, d) \<Rightarrow> d)"

definition get_month :: "zone \<Rightarrow> int \<Rightarrow> int" where
  "get_month z t = (case civil (local_day z t) of (_, m, _) \<Rightarrow> m)"

definition get_hours :: "zone \<Rightarrow> int \<Rightarrow> int" where
  "get_hours z t = to_local z t mod ms_day div 3600000"

section \<open>lib/time.ts\<close>

datatype granularity = Hour | Day | Week

definition dateToUnixTimestamp :: "int \<Rightarrow> int" where
  "dateToUnixTimestamp date = date div 1000"

definition toStartOfDay :: "zone \<Rightarrow> int \<Rightarrow> int" where
  "toStartOfDay z tsSec = set_time z 0 (tsSec * 1000) div 1000"

definition getStartOfDay :: "zone \<Rightarrow> int \<Rightarrow> int" where
  "getStartOfDay z date = set_time z 0 date"

definition getEndOfDay :: "zone \<Rightarrow> int \<Rightarrow> int" where
  "getEndOfDay z date = set_time z (ms_day - 1) date"

definition getNormalizedDateRange :: "zone \<Rightarrow> int \<Rightarrow> int \<Rightarrow> int \<times> int" where
  "getNormalizedDateRange z days fromDate =
     (getStartOfDay z (set_date z (get_date z fromDate - days) fromDate), getEndOfDay z fromDate)"

definition getRollingDateRange :: "int \<Rightarrow> int \<Rightarrow> int \<times> int" where
  "getRollingDateRange days fromDate = (fromDate - days * 24 * 60 * 60 * 1000, fromDate)"

text \<open>\<open>clock\<close> is Date.now().\<close>

definition computeTimeRange :: "zone \<Rightarrow> int \<Rightarrow> int \<Rightarrow> int option \<Rightarrow> int option \<Rightarrow> bool \<Rightarrow> int \<times> int" where
  "computeTimeRange z clock days startDate endDate useStartOfDay =
     (let now = clock div 1000 in
      if useStartOfDay
      then let last = (case endDate of Some d \<Rightarrow> toStartOfDay z (dateToUnixTimestamp d) | None \<Rightarrow> toStartOfDay z now);
               first = (case startDate of Some d \<Rightarrow> toStartOfDay z (dateToUnixTimestamp d) | None \<Rightarrow> last - days * 24 * 3600)
           in (first, last + 24 * 3600 - 1)
      else let last = (case endDate of Some d \<Rightarrow> dateToUnixTimestamp d | None \<Rightarrow> now + 3600);
               first = (case startDate of Some d \<Rightarrow> dateToUnixTimestamp d | None \<Rightarrow> last - days * 24 * 3600)
           in (first, last))"

record dayjs =
  dj_format :: "jstr \<Rightarrow> int \<Rightarrow> jstr"
  dj_add_days :: "int \<Rightarrow> int \<Rightarrow> int"

definition formatDate :: "dayjs \<Rightarrow> int \<Rightarrow> jstr" where
  "formatDate D tsSec = dj_format D (js ''YYYY-MM-DD'') (tsSec * 1000)"

definition formatDateTimeObject :: "dayjs \<Rightarrow> int \<Rightarrow> jstr" where
  "formatDateTimeObject D date = dj_format D (js ''YYYY-MM-DD HH:mm:ss'') date"

definition formatChartTime :: "dayjs \<Rightarrow> int \<Rightarrow> granularity \<Rightarrow> jstr" where
  "formatChartTime D timestamp g =
     (let d = timestamp * 1000; result = dj_format D (js ''MM-DD'') d in
      case g of
        Hour \<Rightarrow> result @ js '' '' @ dj_format D (js ''HH'') d @ js '':00''
      | Week \<Rightarrow> result @ js '' - '' @ dj_format D (js ''MM-DD'') (dj_add_days D 6 d)
      | Day \<Rightarrow> result)"

definition addTimeToDate :: "zone \<Rightarrow> int \<Rightarrow> int \<Rightarrow> int \<Rightarrow> int \<Rightarrow> int option" where
  "addTimeToDate z months days hours baseDate =
     (if months = 0 \<and> days = 0 \<and> hours = 0 then None
      else let r1 = set_month z (get_month z baseDate + months) baseDate;
               r2 = set_date z (get_date z r1 + days) r1
           in Some (set_hours z (get_hours z r2 + hours) r2))"

section \<open>The calendar is consistent\<close>

lemma div_bounds: "0 < (k :: int) \<Longrightarrow> k * (x div k) \<le> x \<and> x < k * (x div k) + k"
  using mult_div_mod_eq [of k x] pos_mod_bound [of k x] pos_mod_sign [of k x] by linarith

lemma year_of_day_bounds: "day_from_year (year_of_day n) \<le> n \<and> n < day_from_year (year_of_day n + 1)"
proof -
  define e where "e = n * 400 div 146097"
  have e: "146097 * e \<le> n * 400" "n * 400 < 146097 * e + 146097" using div_bounds [of 146097 "n * 400"] by (simp_all add: e_def)
  have bounds: "146097 * (y - 1970) - 800 \<le> 400 * day_from_year y \<and> 400 * day_from_year y \<le> 146097 * (y - 1970) + 800" for y
  proof -
    define a b c where "a = (y - 1969) div 4" and "b = (y - 1901) div 100" and "c = (y - 1601) div 400"
    have "4 * a \<le> y - 1969" "y - 1969 < 4 * a + 4" "100 * b \<le> y - 1901" "y - 1901 < 100 * b + 100"
      "400 * c \<le> y - 1601" "y - 1601 < 400 * c + 400"
      using div_bounds [of 4 "y - 1969"] div_bounds [of 100 "y - 1901"] div_bounds [of 400 "y - 1601"]
      by (simp_all add: a_def b_def c_def)
    then show ?thesis unfolding day_from_year_def a_def [symmetric] b_def [symmetric] c_def [symmetric] by auto
  qed
  have lo: "day_from_year (1970 + e - 1) \<le> n" using bounds [of "1970 + e - 1", THEN conjunct2] e by simp
  have hi: "n < day_from_year (1970 + e + 2)" using bounds [of "1970 + e + 2", THEN conjunct1] e by simp
  show ?thesis using lo hi by (auto simp: year_of_day_def Let_def e_def [symmetric] algebra_simps)
qed

lemma month_index_ok:
  assumes "0 \<le> k"
  shows "month_index l k < 12 \<and> month_starts l ! month_index l k \<le> k"
proof -
  let ?w = "takeWhile (\<lambda>s. s \<le> k) (month_starts l)"
  have ne: "?w \<noteq> []" using assms by (simp add: month_starts_def)
  have len: "length ?w \<le> 12" using length_takeWhile_le [of "\<lambda>s. s \<le> k" "month_starts l"] by (simp add: month_starts_def split: if_splits)
  have i: "month_index l k < length ?w" using ne by (simp add: month_index_def)
  then have "?w ! month_index l k \<le> k" using nth_mem set_takeWhileD by fastforce
  moreover have "?w ! month_index l k = month_starts l ! month_index l k" using i by (rule takeWhile_nth)
  ultimately show ?thesis using i len by auto
qed

text \<open>A day number that is taken apart into year, month and day is put together to the same number; the month is from 0
  to 11 and the day at least 1.\<close>

theorem calendar_roundtrip:
  "(case civil n of (y, m, d) \<Rightarrow> make_day y m d = n \<and> 0 \<le> m \<and> m < 12 \<and> 1 \<le> d)"
proof -
  let ?y = "year_of_day n"
  have k: "0 \<le> n - day_from_year ?y" using year_of_day_bounds [of n] by simp
  note i = month_index_ok [OF k, of "leap_year ?y"]
  show ?thesis using i by (simp add: civil_def make_day_def Let_def)
qed

text \<open>A day of the month that is moved by some days: the calendar day is moved by as many.\<close>

lemma make_day_moves: "make_day y m (d + k) = make_day y m d + k"
  by (simp add: make_day_def Let_def)

end
