(* ===== verification/Charts.thy ===== *)
theory Charts
  imports ChartTime Currency
begin

text \<open>
  The data of the dashboard charts: web/default/src/features/dashboard/lib/charts.ts. Usage records are added up by time label
  and model; the values of each chart are lists of points. The constant parts of the chart specifications are left out.
  Parameters: dayjs, the order of localeCompare, the theme (computed styles and the default colour scheme of the chart library)
  and the number formats.
\<close>

record quota_item =
  qi_username :: "jstr option"
  qi_model :: "jstr option"
  qi_created :: int
  qi_tokens :: "jsnum option"
  qi_count :: "jsnum option"
  qi_quota :: "jsnum option"

section \<open>Colours and texts\<close>

definition THEME_CHART_COLOR_VARIABLES :: "jstr list" where
  "THEME_CHART_COLOR_VARIABLES = map js [''--chart-1'', ''--chart-2'', ''--chart-3'', ''--chart-4'', ''--chart-5'']"

text \<open>The computed styles of body and root; None without a document.\<close>

definition getThemeChartColors :: "((jstr \<Rightarrow> jstr) \<times> (jstr \<Rightarrow> jstr)) option \<Rightarrow> jstr list" where
  "getThemeChartColors styles = (case styles of None \<Rightarrow> []
     | Some (bodyStyle, rootStyle) \<Rightarrow>
         filter (\<lambda>c. c \<noteq> []) (map (\<lambda>n. trim (if bodyStyle n \<noteq> [] then bodyStyle n else rootStyle n)) THEME_CHART_COLOR_VARIABLES))"

definition cycle_colors :: "jstr list \<Rightarrow> nat \<Rightarrow> jstr list" where
  "cycle_colors cs n = map (\<lambda>i. cs ! (i mod length cs)) [0..<max n (length cs)]"

type_synonym color_scheme = "(nat option \<times> jstr list) list"

definition getVChartDefaultColors :: "color_scheme \<Rightarrow> jstr list \<Rightarrow> nat \<Rightarrow> jstr list" where
  "getVChartDefaultColors schemes themeColors domainLength =
     (if themeColors \<noteq> [] then cycle_colors themeColors domainLength
      else case filter (\<lambda>(m, _). case m of None \<Rightarrow> True | Some k \<Rightarrow> k = 0 \<or> domainLength \<le> k) schemes of
        (_, cs) # _ \<Rightarrow> cs | [] \<Rightarrow> snd (last schemes))"

text \<open>\<open>plain\<close> is toLocaleString, \<open>I\<close> the browser's number functions.\<close>

definition renderQuotaCompat :: "intl \<Rightarrow> (jsnum \<Rightarrow> jstr) \<Rightarrow> config_state \<Rightarrow> jsnum \<Rightarrow> nat \<Rightarrow> jstr" where
  "renderQuotaCompat I plain st rawQuota digits =
     (let (config, meta) = getCurrencyDisplay st in
      case meta of MTokens _ \<Rightarrow> plain rawQuota
      | _ \<Rightarrow>
        let usd = num_div rawQuota (quotaPerUnit config); v = num_mul usd (rate meta); fixed = to_fixed v digits in
        if num_eq (parse_float fixed) (Fin 0) \<and> num_lt (Fin 0) rawQuota \<and> num_lt (Fin 0) v
        then symbol meta @ to_fixed (pow10neg I digits) digits
        else symbol meta @ fixed)"

section \<open>Adding up\<close>

record model_stats =
  st_quota :: jsnum
  st_count :: jsnum
  st_tokens :: jsnum

definition no_stats :: model_stats where
  "no_stats = \<lparr> st_quota = Fin 0, st_count = Fin 0, st_tokens = Fin 0 \<rparr>"

definition item_model :: "quota_item \<Rightarrow> jstr" where
  "item_model item = (case qi_model item of Some m \<Rightarrow> (if m \<noteq> [] then m else js ''Unknown'') | None \<Rightarrow> js ''Unknown'')"

definition add_item :: "quota_item \<Rightarrow> model_stats named \<Rightarrow> model_stats named" where
  "add_item item m =
     (let existing = (case named_get m (item_model item) of Some s \<Rightarrow> s | None \<Rightarrow> no_stats) in
      named_put (item_model item) \<lparr> st_quota = num_add (st_quota existing) (or_zero (qi_quota item)),
        st_count = num_add (st_count existing) (or_zero (qi_count item)),
        st_tokens = num_add (st_tokens existing) (or_zero (qi_tokens item)) \<rparr> m)"

definition time_key :: "dayjs \<Rightarrow> granularity \<Rightarrow> quota_item \<Rightarrow> jstr" where
  "time_key D g item = formatChartTime D (qi_created item) g"

definition add_timed :: "dayjs \<Rightarrow> granularity \<Rightarrow> quota_item \<Rightarrow> model_stats named named \<Rightarrow> model_stats named named" where
  "add_timed D g item tm =
     (let k = time_key D g item; modelMap = (case named_get tm k of Some m \<Rightarrow> m | None \<Rightarrow> []) in
      named_put k (add_item item modelMap) tm)"

definition modelTotalsMap :: "quota_item list \<Rightarrow> model_stats named" where
  "modelTotalsMap items = fold add_item items []"

definition timeModelMap :: "dayjs \<Rightarrow> granularity \<Rightarrow> quota_item list \<Rightarrow> model_stats named named" where
  "timeModelMap D g items = fold (add_timed D g) items []"

definition sortedTimes :: "dayjs \<Rightarrow> granularity \<Rightarrow> quota_item list \<Rightarrow> jstr list" where
  "sortedTimes D g items = js_sort str_le (map fst (timeModelMap D g items))"

definition sortedModels :: "quota_item list \<Rightarrow> jstr list" where
  "sortedModels items = js_sort str_le (map fst (modelTotalsMap items))"

definition modelColorDomain :: "jstr \<Rightarrow> quota_item list \<Rightarrow> jstr list" where
  "modelColorDomain otherLabel items = uniq (sortedModels items @ [otherLabel])"

definition MAX_CHART_TREND_POINTS :: nat where "MAX_CHART_TREND_POINTS = 7"

definition interval_sec :: "granularity \<Rightarrow> int" where
  "interval_sec g = (case g of Week \<Rightarrow> 604800 | Day \<Rightarrow> 86400 | Hour \<Rightarrow> 3600)"

definition fillTimePoints :: "dayjs \<Rightarrow> granularity \<Rightarrow> quota_item list \<Rightarrow> jstr list \<Rightarrow> jstr list" where
  "fillTimePoints D g items labels =
     (if MAX_CHART_TREND_POINTS \<le> length labels then labels
      else let lastTime = Max (set (map qi_created items)) in
        map (\<lambda>i. formatChartTime D (lastTime - int (MAX_CHART_TREND_POINTS - 1 - i) * interval_sec g) g) [0..<MAX_CHART_TREND_POINTS])"

definition chartTimes :: "dayjs \<Rightarrow> granularity \<Rightarrow> quota_item list \<Rightarrow> jstr list" where
  "chartTimes D g items = fillTimePoints D g items (sortedTimes D g items)"

text \<open>\<open>Number(stats?.quota) || 0\<close> of a time and a model.\<close>

definition stat_at :: "(model_stats \<Rightarrow> jsnum) \<Rightarrow> model_stats named named \<Rightarrow> jstr \<Rightarrow> jstr \<Rightarrow> jsnum" where
  "stat_at f tm time model = or_zero (map_option f (Option.bind (named_get tm time) (\<lambda>m. named_get m model)))"

definition sum_nums :: "jsnum list \<Rightarrow> jsnum" where
  "sum_nums xs = foldl num_add (Fin 0) xs"

definition or_zero_num :: "jsnum \<Rightarrow> jsnum" where
  "or_zero_num x = or_zero (Some x)"

definition descending :: "('a \<Rightarrow> jsnum) \<Rightarrow> 'a list \<Rightarrow> 'a list" where
  "descending f = js_sort (\<lambda>a b. \<not> num_lt (f a) (f b))"

definition usage_of :: "jsnum \<Rightarrow> jsnum \<Rightarrow> jsnum" where
  "usage_of unit_quota rawQuota =
     (let usd = (if num_truthy rawQuota then num_div rawQuota unit_quota else Fin 0) in
      if num_truthy usd then str_to_num (to_fixed usd 4) else Fin 0)"

section \<open>The points of the charts\<close>

record usage_point =
  up_time :: jstr
  up_model :: jstr
  up_rawQuota :: jsnum
  up_usage :: jsnum
  up_timeSum :: jsnum

definition pieValues :: "quota_item list \<Rightarrow> (jstr \<times> jsnum) list" where
  "pieValues items = descending snd (map (\<lambda>(model, s). (model, or_zero_num (st_count s))) (modelTotalsMap items))"

definition line_points :: "dayjs \<Rightarrow> granularity \<Rightarrow> jsnum \<Rightarrow> quota_item list \<Rightarrow> jstr \<Rightarrow> usage_point list" where
  "line_points D g unit_quota items time =
     (let tm = timeModelMap D g items;
          timeData = map (\<lambda>model. let rawQuota = stat_at st_quota tm time model in
            \<lparr> up_time = time, up_model = model, up_rawQuota = rawQuota, up_usage = usage_of unit_quota rawQuota, up_timeSum = Fin 0 \<rparr>)
            (sortedModels items);
          timeSum = sum_nums (map up_rawQuota timeData)
      in map (\<lambda>p. p\<lparr> up_timeSum := timeSum \<rparr>) (descending up_rawQuota timeData))"

definition by_time :: "(jstr \<Rightarrow> jstr \<Rightarrow> bool) \<Rightarrow> ('a \<Rightarrow> jstr) \<Rightarrow> 'a list \<Rightarrow> 'a list" where
  "by_time locale_le f = js_sort (\<lambda>a b. locale_le (f a) (f b))"

definition lineValues :: "dayjs \<Rightarrow> (jstr \<Rightarrow> jstr \<Rightarrow> bool) \<Rightarrow> granularity \<Rightarrow> jsnum \<Rightarrow> quota_item list \<Rightarrow> usage_point list" where
  "lineValues D locale_le g unit_quota items = by_time locale_le up_time (concat (map (line_points D g unit_quota items) (chartTimes D g items)))"

definition MAX_AREA_MODELS :: nat where "MAX_AREA_MODELS = 15"

definition ranked :: "(model_stats \<Rightarrow> jsnum) \<Rightarrow> quota_item list \<Rightarrow> (jstr \<times> jsnum) list" where
  "ranked f items = descending snd (map (\<lambda>(model, s). (model, or_zero_num (f s))) (modelTotalsMap items))"

definition topAreaModels :: "quota_item list \<Rightarrow> jstr list" where
  "topAreaModels items = map fst (take MAX_AREA_MODELS (ranked st_quota items))"

definition area_key :: "jstr \<Rightarrow> quota_item list \<Rightarrow> jstr \<Rightarrow> jstr" where
  "area_key otherLabel items model = (if model \<in> set (topAreaModels items) then model else otherLabel)"

text \<open>A bucket: the raw quota and the usage, rounded at each addition.\<close>

definition add_bucket :: "(jstr \<Rightarrow> jstr) \<Rightarrow> (jstr \<Rightarrow> jsnum) \<Rightarrow> jsnum \<Rightarrow> jstr \<Rightarrow> (jsnum \<times> jsnum) named \<Rightarrow> (jsnum \<times> jsnum) named" where
  "add_bucket key raw unit_quota model buckets =
     (let (q, u) = (case named_get buckets (key model) of Some b \<Rightarrow> b | None \<Rightarrow> (Fin 0, Fin 0)) in
      named_put (key model) (num_add q (raw model), str_to_num (to_fixed (num_add u (usage_of unit_quota (raw model))) 4)) buckets)"

definition area_points :: "dayjs \<Rightarrow> granularity \<Rightarrow> jsnum \<Rightarrow> jstr \<Rightarrow> quota_item list \<Rightarrow> jstr \<Rightarrow> usage_point list" where
  "area_points D g unit_quota otherLabel items time =
     (let raw = stat_at st_quota (timeModelMap D g items) time;
          buckets = fold (add_bucket (area_key otherLabel items) raw unit_quota) (sortedModels items) [];
          timeSum = sum_nums (map raw (sortedModels items))
      in map (\<lambda>(model, q, u). \<lparr> up_time = time, up_model = model, up_rawQuota = q, up_usage = u, up_timeSum = timeSum \<rparr>) buckets)"

definition areaValues :: "dayjs \<Rightarrow> (jstr \<Rightarrow> jstr \<Rightarrow> bool) \<Rightarrow> granularity \<Rightarrow> jsnum \<Rightarrow> jstr \<Rightarrow> quota_item list \<Rightarrow> usage_point list" where
  "areaValues D locale_le g unit_quota otherLabel items =
     by_time locale_le up_time (concat (map (area_points D g unit_quota otherLabel items) (chartTimes D g items)))"

record count_point =
  cp_time :: jstr
  cp_model :: jstr
  cp_count :: jsnum

definition MAX_TREND_MODELS :: nat where "MAX_TREND_MODELS = 20"

definition trend_points :: "dayjs \<Rightarrow> granularity \<Rightarrow> jstr \<Rightarrow> quota_item list \<Rightarrow> jstr \<Rightarrow> count_point list" where
  "trend_points D g otherLabel items time =
     (let models = map fst (ranked st_count items); top = take MAX_TREND_MODELS models; others = drop MAX_TREND_MODELS models;
          count = stat_at st_count (timeModelMap D g items) time in
      map (\<lambda>m. \<lparr> cp_time = time, cp_model = m, cp_count = count m \<rparr>) top @
      (if others \<noteq> [] then [\<lparr> cp_time = time, cp_model = otherLabel, cp_count = sum_nums (map count others) \<rparr>] else []))"

definition modelLineValues :: "dayjs \<Rightarrow> (jstr \<Rightarrow> jstr \<Rightarrow> bool) \<Rightarrow> granularity \<Rightarrow> jstr \<Rightarrow> quota_item list \<Rightarrow> count_point list" where
  "modelLineValues D locale_le g otherLabel items =
     by_time locale_le cp_time (concat (map (trend_points D g otherLabel items) (chartTimes D g items)))"

definition MAX_RANK_MODELS :: nat where "MAX_RANK_MODELS = 20"

definition rankValues :: "jstr \<Rightarrow> quota_item list \<Rightarrow> (jstr \<times> jsnum) list" where
  "rankValues otherLabel items =
     (let all_values = ranked st_count items in
      if MAX_RANK_MODELS < length all_values
      then take MAX_RANK_MODELS all_values @ [(otherLabel, sum_nums (map snd (drop MAX_RANK_MODELS all_values)))]
      else all_values)"

definition totalTimes :: "quota_item list \<Rightarrow> jsnum" where
  "totalTimes items = sum_nums (map (or_zero_num \<circ> st_count \<circ> snd) (modelTotalsMap items))"

definition totalQuotaRaw :: "quota_item list \<Rightarrow> jsnum" where
  "totalQuotaRaw items = sum_nums (map (or_zero_num \<circ> st_quota \<circ> snd) (modelTotalsMap items))"

record chart_data =
  spec_pie :: "(jstr \<times> jsnum) list"
  spec_line :: "usage_point list"
  spec_area :: "usage_point list"
  spec_model_line :: "count_point list"
  spec_rank_bar :: "(jstr \<times> jsnum) list"
  totalQuota :: jsnum
  totalCount :: jsnum

definition processChartData :: "dayjs \<Rightarrow> (jstr \<Rightarrow> jstr \<Rightarrow> bool) \<Rightarrow> config_state \<Rightarrow> jstr \<Rightarrow> granularity \<Rightarrow> quota_item list \<Rightarrow> chart_data" where
  "processChartData D locale_le st otherLabel g items =
     (let unit_quota = quotaPerUnit (fst (getCurrencyDisplay st)) in
      if items = [] then \<lparr> spec_pie = [], spec_line = [], spec_area = [], spec_model_line = [], spec_rank_bar = [],
        totalQuota = Fin 0, totalCount = Fin 0 \<rparr>
      else \<lparr> spec_pie = pieValues items, spec_line = lineValues D locale_le g unit_quota items,
        spec_area = areaValues D locale_le g unit_quota otherLabel items,
        spec_model_line = modelLineValues D locale_le g otherLabel items, spec_rank_bar = rankValues otherLabel items,
        totalQuota = totalQuotaRaw items, totalCount = totalTimes items \<rparr>)"

section \<open>Tooltips\<close>

datatype tip_value = TNum jsnum | TText jstr

fun tip_number :: "tip_value \<Rightarrow> jsnum" where
  "tip_number (TNum x) = or_zero (Some x)"
| "tip_number (TText s) = or_zero (Some (str_to_num s))"

record tip_line =
  tip_key :: jstr
  tip_value :: tip_value
  tip_datum :: "usage_point option"
  tip_color :: "jstr option"

definition MAX_TOOLTIP_MODELS :: nat where "MAX_TOOLTIP_MODELS = 15"

definition isOtherTooltipKey :: "jstr \<Rightarrow> jstr \<Rightarrow> bool" where
  "isOtherTooltipKey otherLabel k \<longleftrightarrow> k = js ''Other'' \<or> k = otherLabel"

text \<open>The lines of the models in descending order, before those of the Other bucket.\<close>

definition tip_models :: "jstr \<Rightarrow> tip_line list \<Rightarrow> tip_line list" where
  "tip_models otherLabel xs = descending (tip_number \<circ> tip_value) (filter (\<lambda>i. \<not> isOtherTooltipKey otherLabel (tip_key i)) xs)"

definition tip_others :: "jstr \<Rightarrow> tip_line list \<Rightarrow> tip_line list" where
  "tip_others otherLabel xs = filter (\<lambda>i. isOtherTooltipKey otherLabel (tip_key i)) xs"

definition with_value :: "(jsnum \<Rightarrow> jstr) \<Rightarrow> tip_line \<Rightarrow> tip_line" where
  "with_value fmt i = i\<lparr> tip_value := TText (fmt (tip_number (tip_value i))) \<rparr>"

definition tip_total :: "(jstr \<Rightarrow> jstr) \<Rightarrow> jstr \<Rightarrow> tip_line" where
  "tip_total tt txt = \<lparr> tip_key = tt (js ''Total:''), tip_value = TText txt, tip_datum = None, tip_color = None \<rparr>"

definition time_sum_step :: "tip_line \<Rightarrow> jsnum \<Rightarrow> jsnum" where
  "time_sum_step i s = (case tip_datum i of
     Some d \<Rightarrow> (if num_truthy (up_timeSum d) then up_timeSum d else s) | None \<Rightarrow> s)"

definition makeTooltipDimensionUpdateContent ::
  "(jstr \<Rightarrow> jstr) \<Rightarrow> (jsnum \<Rightarrow> jstr) \<Rightarrow> jstr \<Rightarrow> jstr \<Rightarrow> bool \<Rightarrow> tip_line list \<Rightarrow> tip_line list" where
  "makeTooltipDimensionUpdateContent tt formatQuotaValue otherLabel otherTooltipColor collapseOverflow xs =
     (let modelItems = tip_models otherLabel xs; otherItems = tip_others otherLabel xs;
          time_total = fold time_sum_step (modelItems @ otherItems) (Fin 0);
          shown = (if collapseOverflow \<and> MAX_TOOLTIP_MODELS < length (modelItems @ otherItems)
            then let otherSum = sum_nums (map (\<lambda>i. case tip_datum i of Some d \<Rightarrow> or_zero_num (up_rawQuota d) | None \<Rightarrow> Fin 0)
                       (drop MAX_TOOLTIP_MODELS modelItems @ otherItems))
              in map (with_value formatQuotaValue) (take MAX_TOOLTIP_MODELS modelItems) @
                 [\<lparr> tip_key = otherLabel, tip_value = TText (formatQuotaValue otherSum), tip_datum = None, tip_color = Some otherTooltipColor \<rparr>]
            else map (with_value formatQuotaValue) (modelItems @ otherItems))
      in tip_total tt (formatQuotaValue time_total) # shown)"

definition modelLineUpdateContent :: "(jstr \<Rightarrow> jstr) \<Rightarrow> (jsnum \<Rightarrow> jstr) \<Rightarrow> jstr \<Rightarrow> tip_line list \<Rightarrow> tip_line list" where
  "modelLineUpdateContent tt formatInt otherLabel xs =
     (let lines = tip_models otherLabel xs @ tip_others otherLabel xs in
      tip_total tt (formatInt (sum_nums (map (tip_number \<circ> tip_value) lines))) # map (with_value formatInt) lines)"

definition otherTooltipColor :: "jstr list \<Rightarrow> jstr list \<Rightarrow> jstr \<Rightarrow> jstr" where
  "otherTooltipColor modelColorRange domain otherLabel =
     (let i = length (takeWhile (\<lambda>m. m \<noteq> otherLabel) domain) in
      if i < length modelColorRange then modelColorRange ! i else js ''#FF8A00'')"

section \<open>Users\<close>

definition USER_COLOR_FALLBACKS :: "jstr list" where
  "USER_COLOR_FALLBACKS = map js [''#5B8FF9'', ''#5AD8A6'', ''#F6BD16'', ''#E8684A'', ''#6DC8EC'', ''#9270CA'', ''#FF9D4D'', ''#269A99'',
     ''#FF99C3'', ''#5D7092'']"

definition userColorRange :: "jstr list \<Rightarrow> nat \<Rightarrow> jstr list" where
  "userColorRange themeUserColors limit = (if themeUserColors \<noteq> [] then cycle_colors themeUserColors limit else USER_COLOR_FALLBACKS)"

definition item_user :: "quota_item \<Rightarrow> jstr" where
  "item_user item = (case qi_username item of Some u \<Rightarrow> (if u \<noteq> [] then u else js ''unknown'') | None \<Rightarrow> js ''unknown'')"

definition add_user :: "quota_item \<Rightarrow> jsnum named \<Rightarrow> jsnum named" where
  "add_user item m = named_put (item_user item) (num_add (or_zero (named_get m (item_user item))) (or_zero (qi_quota item))) m"

definition userQuotaTotal :: "quota_item list \<Rightarrow> jsnum named" where
  "userQuotaTotal items = fold add_user items []"

definition user_ranking :: "nat \<Rightarrow> quota_item list \<Rightarrow> (jstr \<times> jsnum) list" where
  "user_ranking limit items = take limit (descending snd (userQuotaTotal items))"

definition topUsers :: "nat \<Rightarrow> quota_item list \<Rightarrow> jstr list" where
  "topUsers limit items = map fst (user_ranking limit items)"

definition userTotalQuota :: "nat \<Rightarrow> quota_item list \<Rightarrow> jsnum" where
  "userTotalQuota limit items = sum_nums (map snd (user_ranking limit items))"

definition usage_exact :: "jsnum \<Rightarrow> jsnum \<Rightarrow> jsnum" where
  "usage_exact unit_quota q = str_to_num (to_fixed (num_div q unit_quota) 4)"

definition userRankValues :: "jsnum \<Rightarrow> nat \<Rightarrow> quota_item list \<Rightarrow> (jstr \<times> jsnum \<times> jsnum) list" where
  "userRankValues unit_quota limit items = map (\<lambda>(u, q). (u, q, usage_exact unit_quota q)) (user_ranking limit items)"

definition userColorMap :: "jstr list \<Rightarrow> jstr list \<Rightarrow> jstr named" where
  "userColorMap color_range users = fold (\<lambda>(i, u). named_put u (color_range ! (i mod length color_range))) (enumerate 0 users) []"

definition add_user_timed :: "dayjs \<Rightarrow> granularity \<Rightarrow> jstr list \<Rightarrow> quota_item \<Rightarrow> jsnum named named \<Rightarrow> jsnum named named" where
  "add_user_timed D g users item tm =
     (if item_user item \<notin> set users then tm
      else let k = time_key D g item; m = (case named_get tm k of Some m \<Rightarrow> m | None \<Rightarrow> []) in named_put k (add_user item m) tm)"

definition timeUserMap :: "dayjs \<Rightarrow> granularity \<Rightarrow> jstr list \<Rightarrow> quota_item list \<Rightarrow> jsnum named named" where
  "timeUserMap D g users items = fold (add_user_timed D g users) items []"

definition sortedTimePoints :: "dayjs \<Rightarrow> granularity \<Rightarrow> quota_item list \<Rightarrow> jstr list" where
  "sortedTimePoints D g items = js_sort str_le (uniq (map (time_key D g) items))"

record user_point =
  us_time :: jstr
  us_user :: jstr
  us_rawQuota :: jsnum
  us_usage :: jsnum

definition userTrendValues :: "dayjs \<Rightarrow> granularity \<Rightarrow> jsnum \<Rightarrow> nat \<Rightarrow> quota_item list \<Rightarrow> user_point list" where
  "userTrendValues D g unit_quota limit items =
     (let users = topUsers limit items; tm = timeUserMap D g users items in
      concat (map (\<lambda>time. map (\<lambda>user. let q = or_zero (Option.bind (named_get tm time) (\<lambda>m. named_get m user)) in
        \<lparr> us_time = time, us_user = user, us_rawQuota = q, us_usage = usage_exact unit_quota q \<rparr>) users)
        (sortedTimePoints D g items)))"

definition userTrendUpdateContent :: "(jstr \<Rightarrow> jstr) \<Rightarrow> (jsnum \<Rightarrow> jstr) \<Rightarrow> tip_line list \<Rightarrow> tip_line list" where
  "userTrendUpdateContent tt formatVal xs =
     (let lines = descending (tip_number \<circ> tip_value) xs in
      tip_total tt (formatVal (sum_nums (map (tip_number \<circ> tip_value) lines))) # map (with_value formatVal) lines)"

definition userMarkUpdateContent :: "(jsnum \<Rightarrow> jstr) \<Rightarrow> tip_line list \<Rightarrow> tip_line list" where
  "userMarkUpdateContent formatVal xs = map (\<lambda>i. i\<lparr> tip_value := TText (formatVal
     (case tip_datum i of Some d \<Rightarrow> or_zero_num (up_rawQuota d) | None \<Rightarrow> tip_number (tip_value i))) \<rparr>) xs"

record user_chart_data =
  spec_user_rank :: "(jstr \<times> jsnum \<times> jsnum) list"
  spec_user_trend :: "user_point list"
  user_colors :: "jstr named"
  user_subtext :: jstr

text \<open>The points, the colours of the users and the subtitle.\<close>

definition processUserChartData :: "intl \<Rightarrow> (jsnum \<Rightarrow> jstr) \<Rightarrow> config_state \<Rightarrow> dayjs \<Rightarrow> (jstr \<Rightarrow> jstr) \<Rightarrow> jstr list \<Rightarrow> granularity \<Rightarrow> nat \<Rightarrow>
    quota_item list \<Rightarrow> user_chart_data" where
  "processUserChartData I plain st D tt themeUserColors g limit items =
     (if items = [] then \<lparr> spec_user_rank = [], spec_user_trend = [], user_colors = [], user_subtext = tt (js ''No data available'') \<rparr>
      else let unit_quota = quotaPerUnit (fst (getCurrencyDisplay st)) in
        \<lparr> spec_user_rank = userRankValues unit_quota limit items, spec_user_trend = userTrendValues D g unit_quota limit items,
          user_colors = userColorMap (userColorRange themeUserColors limit) (topUsers limit items),
          user_subtext = tt (js ''Total:'') @ js '' '' @ renderQuotaCompat I plain st (userTotalQuota limit items) 2 \<rparr>)"

end
