(* ===== verification/ChartTotals.thy ===== *)
theory ChartTotals
  imports Charts
begin

text \<open>
  What the dashboard charts show, against the records they come from (Charts). Amounts are whole and their sum is below 2^53,
  so that additions are exact. A tally adds the amounts of the records under a key; the maps of charts.ts are tallies, and
  the points of a chart are a tally laid out by time and model.
\<close>

section \<open>Whole amounts\<close>

definition amount_of :: "jsnum option \<Rightarrow> nat" where
  "amount_of x = nat \<lfloor>nval (or_zero x)\<rfloor>"

definition whole_num :: "jsnum option \<Rightarrow> bool" where
  "whole_num x \<longleftrightarrow> or_zero x = Fin (of_nat (amount_of x))"

definition whole_amounts :: "(quota_item \<Rightarrow> jsnum option) \<Rightarrow> quota_item list \<Rightarrow> bool" where
  "whole_amounts f items \<longleftrightarrow> list_all (\<lambda>i. whole_num (f i)) items \<and> sum_list (map (amount_of \<circ> f) items) < 2 ^ 53"

lemma or_zero_nat [simp]: "or_zero (Some (Fin (of_nat n))) = Fin (of_nat n)" "or_zero None = Fin 0"
  by (simp_all add: or_zero_def)

lemma add_nats: "a + b < 2 ^ 53 \<Longrightarrow> num_add (Fin (of_nat a)) (Fin (of_nat b)) = Fin (of_nat (a + b))"
  using num_add_int [of "int a" "int b"] by simp

lemma sum_nums_nat:
  assumes "\<And>x. x \<in> set xs \<Longrightarrow> f x = Fin (of_nat (g x))" "k + sum_list (map g xs) < 2 ^ 53"
  shows "foldl num_add (Fin (of_nat k)) (map f xs) = Fin (of_nat (k + sum_list (map g xs)))"
  using assms
proof (induction xs arbitrary: k)
  case (Cons x xs)
  have "num_add (Fin (of_nat k)) (f x) = Fin (of_nat (k + g x))" using Cons.prems add_nats [of k "g x"] by simp
  then show ?case using Cons.IH [of "k + g x"] Cons.prems by (simp add: add.assoc)
qed simp

lemma sum_nums_exact:
  "(\<And>x. x \<in> set xs \<Longrightarrow> f x = Fin (of_nat (g x))) \<Longrightarrow> sum_list (map g xs) < 2 ^ 53 \<Longrightarrow>
     sum_nums (map f xs) = Fin (of_nat (sum_list (map g xs)))"
  using sum_nums_nat [of xs f g 0] by (simp add: sum_nums_def)

section \<open>Tallies\<close>

definition tally :: "(jsnum option \<Rightarrow> jsnum) \<Rightarrow> ('a \<Rightarrow> jstr) \<Rightarrow> ('a \<Rightarrow> jsnum) \<Rightarrow> 'a list \<Rightarrow> jsnum named" where
  "tally prev key f xs = fold (\<lambda>x m. named_put (key x) (num_add (prev (named_get m (key x))) (f x)) m) xs []"

text \<open>The sum of the records under a key.\<close>

definition keyed_sum :: "('a \<Rightarrow> 'k) \<Rightarrow> ('a \<Rightarrow> nat) \<Rightarrow> 'a list \<Rightarrow> 'k \<Rightarrow> nat" where
  "keyed_sum key g xs k = sum_list (map g (filter (\<lambda>x. key x = k) xs))"

lemma sum_filter_le: "sum_list (map g (filter P xs)) \<le> (sum_list (map g xs) :: nat)"
  by (induction xs) auto

lemma keyed_sum_le: "keyed_sum key g xs k \<le> sum_list (map g xs)"
  by (simp add: keyed_sum_def sum_filter_le)

lemma filter_keyless: "k \<notin> key ` set xs \<Longrightarrow> filter (\<lambda>x. key x = k) xs = []"
  by (induction xs) auto

lemma keyed_sum_snoc: "keyed_sum key g (xs @ [x]) k = keyed_sum key g xs k + (if key x = k then g x else 0)"
  by (simp add: keyed_sum_def)

lemma keyed_sum_notin: "k \<notin> key ` set xs \<Longrightarrow> keyed_sum key g xs k = 0"
  by (simp add: keyed_sum_def filter_keyless)

text \<open>The sums under distinct keys are the sum of the records that have one of the keys.\<close>

lemma sum_keyed_sums:
  "distinct ks \<Longrightarrow> sum_list (map (keyed_sum key g xs) ks) = sum_list (map g (filter (\<lambda>x. key x \<in> set ks) xs))"
proof (induction xs)
  case Nil
  then show ?case by (simp add: keyed_sum_def)
next
  case (Cons x xs)
  have "keyed_sum key g (x # xs) = (\<lambda>k. (if k = key x then g x else 0) + keyed_sum key g xs k)"
    by (rule ext) (simp add: keyed_sum_def)
  then have "sum_list (map (keyed_sum key g (x # xs)) ks) =
      sum_list (map (\<lambda>k. if k = key x then g x else 0) ks) + sum_list (map (keyed_sum key g xs) ks)"
    by (simp add: sum_list_addf)
  moreover have "sum_list (map (\<lambda>k. if k = key x then g x else 0) ks) = (if key x \<in> set ks then g x else 0)"
    using Cons.prems by (induction ks) auto
  ultimately show ?case using Cons by simp
qed

lemma sum_all_keys:
  "distinct ks \<Longrightarrow> key ` set xs \<subseteq> set ks \<Longrightarrow> sum_list (map (keyed_sum key g xs) ks) = sum_list (map g xs)"
  by (subst sum_keyed_sums) (auto simp: filter_id_conv image_subset_iff intro!: arg_cong [where f = "\<lambda>l. sum_list (map g l)"])

lemma keys_put: "fst ` set (named_put k v m) = insert k (fst ` set m)"
  by (simp add: named_put_def dom_update)

lemma distinct_put: "distinct (map fst m) \<Longrightarrow> distinct (map fst (named_put k v m))"
  by (simp add: named_put_def distinct_update)

lemma tally_snoc: "tally prev key f (xs @ [x]) =
    named_put (key x) (num_add (prev (named_get (tally prev key f xs) (key x))) (f x)) (tally prev key f xs)"
  by (simp add: tally_def)

lemma tally_keys: "fst ` set (tally prev key f xs) = key ` set xs \<and> distinct (map fst (tally prev key f xs))"
  by (induction xs rule: rev_induct) (simp_all add: tally_snoc keys_put distinct_put, simp add: tally_def)

lemma tally_get:
  assumes prev: "prev None = Fin 0" "\<And>n. prev (Some (Fin (of_nat n))) = Fin (of_nat n)"
  shows "\<forall>x\<in>set xs. f x = Fin (of_nat (g x)) \<Longrightarrow> sum_list (map g xs) < 2 ^ 53 \<Longrightarrow>
    named_get (tally prev key f xs) k = (if k \<in> key ` set xs then Some (Fin (of_nat (keyed_sum key g xs k))) else None)"
proof (induction xs arbitrary: k rule: rev_induct)
  case Nil
  then show ?case by (simp add: tally_def)
next
  case (snoc x xs)
  have IH: "named_get (tally prev key f xs) j = (if j \<in> key ` set xs then Some (Fin (of_nat (keyed_sum key g xs j))) else None)" for j
    using snoc by simp
  have "prev (named_get (tally prev key f xs) (key x)) = Fin (of_nat (keyed_sum key g xs (key x)))"
    by (simp add: IH prev keyed_sum_notin)
  moreover have "keyed_sum key g xs (key x) + g x < 2 ^ 53" using keyed_sum_le [of key g xs "key x"] snoc.prems by simp
  ultimately have "num_add (prev (named_get (tally prev key f xs) (key x))) (f x) = Fin (of_nat (keyed_sum key g xs (key x) + g x))"
    using snoc.prems add_nats by simp
  then show ?case by (auto simp: tally_snoc IH keyed_sum_snoc)
qed

lemma named_get_mem: "distinct (map fst m) \<Longrightarrow> (k, v) \<in> set m \<longleftrightarrow> named_get m k = Some v"
  by (simp add: named_get_def)

section \<open>The maps of the charts are tallies\<close>

definition known :: "jsnum option \<Rightarrow> jsnum" where
  "known x = (case x of Some v \<Rightarrow> v | None \<Rightarrow> Fin 0)"

definition project :: "('b \<Rightarrow> 'c) \<Rightarrow> 'b named \<Rightarrow> 'c named" where
  "project f m = map (\<lambda>(k, v). (k, f v)) m"

lemma project_put: "project f (named_put k v m) = named_put k (f v) (project f m)"
  unfolding project_def named_put_def by (induction m) auto

lemma project_get: "named_get (project f m) k = map_option f (named_get m k)"
  unfolding project_def named_get_def by (induction m) auto

lemma project_keys: "map fst (project f m) = map fst m"
  by (induction m) (auto simp: project_def)

text \<open>A map of maps: under each key the fold over the records that have it.\<close>

lemma grouped_get:
  assumes tm: "tm = fold (\<lambda>x tm. named_put (key x) (step x (case named_get tm (key x) of Some m \<Rightarrow> m | None \<Rightarrow> [])) tm) xs []"
  shows "named_get tm t = (if t \<in> key ` set xs then Some (fold step (filter (\<lambda>x. key x = t) xs) []) else None)"
  unfolding tm
proof (induction xs arbitrary: t rule: rev_induct)
  case (snoc x xs)
  have "(case if key x \<in> key ` set xs then Some (fold step (filter (\<lambda>y. key y = key x) xs) []) else None of
      Some m \<Rightarrow> m | None \<Rightarrow> []) = fold step (filter (\<lambda>y. key y = key x) xs) []"
  proof (cases "key x \<in> key ` set xs")
    case False
    then show ?thesis by (simp add: filter_keyless)
  qed simp
  then show ?case by (auto simp: snoc image_iff)
qed simp

lemma timed_get: "named_get (timeModelMap D g items) t =
    (if t \<in> time_key D g ` set items then Some (modelTotalsMap (filter (\<lambda>i. time_key D g i = t) items)) else None)"
  unfolding modelTotalsMap_def
  by (rule grouped_get) (simp add: timeModelMap_def add_timed_def [abs_def] Let_def)

lemma timed_keys: "fst ` set (timeModelMap D g items) = time_key D g ` set items \<and> distinct (map fst (timeModelMap D g items))"
  unfolding timeModelMap_def by (induction items rule: rev_induct) (simp_all add: add_timed_def Let_def keys_put distinct_put)

lemma whole_amounts_filter: "whole_amounts f items \<Longrightarrow> whole_amounts f (filter P items)"
  using sum_filter_le [of "amount_of \<circ> f" P items] by (auto simp: whole_amounts_def list_all_iff)

lemma whole_amounts_exact: "whole_amounts f items \<Longrightarrow> \<forall>i\<in>set items. or_zero (f i) = Fin (of_nat (amount_of (f i)))"
  by (auto simp: whole_amounts_def whole_num_def list_all_iff)

text \<open>A number of the statistics and the property of the record that it adds up.\<close>

locale stat_field =
  fixes sel :: "model_stats \<Rightarrow> jsnum" and fld :: "quota_item \<Rightarrow> jsnum option"
  assumes none: "sel no_stats = Fin 0"
    and add: "project sel (add_item i m) =
      named_put (item_model i) (num_add (known (named_get (project sel m) (item_model i))) (or_zero (fld i))) (project sel m)"
begin

lemma totals_tally: "project sel (modelTotalsMap items) = tally known item_model (or_zero \<circ> fld) items"
  unfolding modelTotalsMap_def
  by (induction items rule: rev_induct) (simp_all add: tally_snoc add, simp add: tally_def project_def)

lemma totals_get:
  assumes "whole_amounts fld items"
  shows "map_option sel (named_get (modelTotalsMap items) k) =
    (if k \<in> item_model ` set items then Some (Fin (of_nat (keyed_sum item_model (amount_of \<circ> fld) items k))) else None)"
proof -
  have "\<forall>i\<in>set items. (or_zero \<circ> fld) i = Fin (of_nat ((amount_of \<circ> fld) i))" "sum_list (map (amount_of \<circ> fld) items) < 2 ^ 53"
    using assms whole_amounts_exact [OF assms] by (simp_all add: whole_amounts_def)
  then have "named_get (tally known item_model (or_zero \<circ> fld) items) k =
      (if k \<in> item_model ` set items then Some (Fin (of_nat (keyed_sum item_model (amount_of \<circ> fld) items k))) else None)"
    by (intro tally_get) (simp_all add: known_def)
  then show ?thesis by (simp only: project_get [symmetric] totals_tally)
qed

lemma totals_keys: "fst ` set (modelTotalsMap items) = item_model ` set items \<and> distinct (map fst (modelTotalsMap items))"
  using tally_keys [of known item_model "or_zero \<circ> fld" items] project_keys [of sel "modelTotalsMap items"]
  by (metis totals_tally list.set_map)

lemma stat_at_sum:
  assumes "whole_amounts fld items"
  shows "stat_at sel (timeModelMap D g items) t m =
    Fin (of_nat (keyed_sum item_model (amount_of \<circ> fld) (filter (\<lambda>i. time_key D g i = t) items) m))"
proof (cases "t \<in> time_key D g ` set items")
  case True
  show ?thesis
    using totals_get [OF whole_amounts_filter [OF assms], of "\<lambda>i. time_key D g i = t" m]
      keyed_sum_notin [of m item_model "filter (\<lambda>i. time_key D g i = t) items" "amount_of \<circ> fld"]
    by (simp add: stat_at_def timed_get True split: if_splits)
next
  case False
  then show ?thesis by (simp add: stat_at_def timed_get filter_keyless keyed_sum_def)
qed

lemma totals_entry:
  assumes "whole_amounts fld items" "(k, s) \<in> set (modelTotalsMap items)"
  shows "sel s = Fin (of_nat (keyed_sum item_model (amount_of \<circ> fld) items k))"
  using assms totals_get [OF assms(1), of k] totals_keys [of items] named_get_mem [of "modelTotalsMap items" k s] by (auto split: if_splits)

lemma total_sum:
  assumes "whole_amounts fld items"
  shows "sum_nums (map (or_zero_num \<circ> sel \<circ> snd) (modelTotalsMap items)) = Fin (of_nat (sum_list (map (amount_of \<circ> fld) items)))"
proof -
  let ?ks = "map fst (modelTotalsMap items)" and ?s = "keyed_sum item_model (amount_of \<circ> fld) items"
  have sum: "sum_list (map (?s \<circ> fst) (modelTotalsMap items)) = sum_list (map (amount_of \<circ> fld) items)"
    using sum_all_keys [of ?ks item_model items "amount_of \<circ> fld"] totals_keys [of items] by (simp add: image_image)
  have "sum_nums (map (or_zero_num \<circ> sel \<circ> snd) (modelTotalsMap items)) = Fin (of_nat (sum_list (map (?s \<circ> fst) (modelTotalsMap items))))"
    by (rule sum_nums_exact) (use assms in \<open>auto simp: totals_entry [OF assms] or_zero_num_def sum whole_amounts_def\<close>)
  then show ?thesis by (simp add: sum)
qed

end

interpretation quota: stat_field st_quota qi_quota
  by unfold_locales (simp_all add: no_stats_def add_item_def Let_def project_put project_get known_def split: option.splits)

interpretation count: stat_field st_count qi_count
  by unfold_locales (simp_all add: no_stats_def add_item_def Let_def project_put project_get known_def split: option.splits)

section \<open>What a chart shows\<close>

abbreviation drawn :: "('a \<Rightarrow> jsnum) \<Rightarrow> 'a list \<Rightarrow> rat" where
  "drawn f xs \<equiv> sum_list (map (\<lambda>x. nval (f x)) xs)"

text \<open>The amount of the records whose time label is on the axis.\<close>

definition amount_at :: "dayjs \<Rightarrow> granularity \<Rightarrow> (quota_item \<Rightarrow> jsnum option) \<Rightarrow> jstr list \<Rightarrow> quota_item list \<Rightarrow> nat" where
  "amount_at D g f labels items = sum_list (map (amount_of \<circ> f) (filter (\<lambda>i. time_key D g i \<in> set labels) items))"

lemma sum_nats: "(\<And>x. x \<in> set xs \<Longrightarrow> f x = Fin (of_nat (h x))) \<Longrightarrow> drawn f xs = of_nat (sum_list (map h xs))"
  by (induction xs) auto

lemma sum_list_sort [simp]: "sum_list (map f (js_sort le xs)) = (sum_list (map f xs) :: 'b :: comm_monoid_add)"
  by (simp flip: sum_mset_sum_list)

lemma sum_list_of_nat: "(\<Sum>x\<leftarrow>xs. of_nat (h x)) = (of_nat (sum_list (map h xs)) :: rat)"
  by (induction xs) auto

lemma sum_take_drop: "sum_list (map h (take k xs)) + sum_list (map h (drop k xs)) = (sum_list (map h xs) :: nat)"
  using sum_list_append [of "map h (take k xs)" "map h (drop k xs)"] by (simp flip: map_append)

lemma sum_list_concat: "sum_list (map f (concat (map h xs))) = (\<Sum>x\<leftarrow>xs. sum_list (map f (h x)))"
  by (induction xs) auto

text \<open>If the points of each label add up to the records with that label, the chart adds up to the records on its axis.\<close>

lemma drawn_by_label:
  assumes "\<And>t. drawn p (pts t) = of_nat (keyed_sum (time_key D g) (amount_of \<circ> fld) items t)" "distinct labels"
  shows "drawn p (by_time le f (concat (map pts labels))) = of_nat (amount_at D g fld labels items)"
proof -
  have "drawn p (by_time le f (concat (map pts labels))) = (\<Sum>t\<leftarrow>labels. of_nat (keyed_sum (time_key D g) (amount_of \<circ> fld) items t))"
    unfolding by_time_def sum_list_sort sum_list_concat using assms(1) by simp
  also have "\<dots> = of_nat (sum_list (map (keyed_sum (time_key D g) (amount_of \<circ> fld) items) labels))"
    by (rule sum_list_of_nat)
  finally show ?thesis by (simp add: sum_keyed_sums assms(2) amount_at_def)
qed

context stat_field begin

text \<open>The amounts of the models at one label add up to the records with that label.\<close>

lemma models_at_label:
  assumes "whole_amounts fld items" "distinct ms" "set ms = item_model ` set items"
  shows "sum_list (map (keyed_sum item_model (amount_of \<circ> fld) (filter (\<lambda>i. time_key D g i = t) items)) ms) =
      keyed_sum (time_key D g) (amount_of \<circ> fld) items t"
  using assms sum_all_keys [of ms item_model "filter (\<lambda>i. time_key D g i = t) items" "amount_of \<circ> fld"]
  by (auto simp: keyed_sum_def)

lemma label_fits:
  assumes "whole_amounts fld items" "distinct ms" "set ms = item_model ` set items"
  shows "sum_list (map (keyed_sum item_model (amount_of \<circ> fld) (filter (\<lambda>i. time_key D g i = t) items)) ms) < 2 ^ 53"
  unfolding models_at_label [OF assms] using assms(1) keyed_sum_le [of "time_key D g" "amount_of \<circ> fld" items t]
  by (simp add: whole_amounts_def)

lemma ranked_models: "distinct (map fst (ranked sel items)) \<and> set (map fst (ranked sel items)) = item_model ` set items"
proof -
  let ?f = "\<lambda>(model, s). (model, or_zero_num (sel s))"
  have "mset (map fst (ranked sel items)) = mset (map fst (modelTotalsMap items))"
    by (simp add: ranked_def descending_def image_mset.compositionality comp_def case_prod_unfold)
  then show ?thesis using totals_keys [of items] by (metis mset_eq_setD mset_eq_imp_distinct_iff list.set_map)
qed

lemma ranked_sum:
  assumes "whole_amounts fld items"
  shows "drawn snd (ranked sel items) = of_nat (sum_list (map (amount_of \<circ> fld) items))"
proof -
  let ?s = "keyed_sum item_model (amount_of \<circ> fld) items"
  have "snd p = Fin (of_nat (?s (fst p)))" if "p \<in> set (ranked sel items)" for p
    using that by (auto simp: ranked_def descending_def or_zero_num_def totals_entry [OF assms])
  from sum_nats [of "ranked sel items" snd, OF this]
  have "drawn snd (ranked sel items) = of_nat (sum_list (map ?s (map fst (ranked sel items))))" by (simp add: comp_def)
  then show ?thesis using ranked_models [of items] by (simp add: sum_all_keys del: map_map)
qed

end

lemma sorted_models: "distinct (sortedModels items) \<and> set (sortedModels items) = item_model ` set items"
  using quota.totals_keys [of items] by (simp add: sortedModels_def)

lemma sorted_times: "distinct (sortedTimes D g items) \<and> set (sortedTimes D g items) = time_key D g ` set items"
  using timed_keys [of D g items] by (simp add: sortedTimes_def)

lemma line_points_sum:
  assumes "whole_amounts qi_quota items"
  shows "drawn up_rawQuota (line_points D g unit_quota items t) = of_nat (keyed_sum (time_key D g) (amount_of \<circ> qi_quota) items t)"
proof -
  let ?raw = "stat_at st_quota (timeModelMap D g items) t"
  have "drawn up_rawQuota (line_points D g unit_quota items t) = drawn ?raw (sortedModels items)"
    by (simp add: line_points_def Let_def comp_def descending_def)
  also have "\<dots> = of_nat (sum_list (map (keyed_sum item_model (amount_of \<circ> qi_quota) (filter (\<lambda>i. time_key D g i = t) items)) (sortedModels items)))"
    by (rule sum_nats) (rule quota.stat_at_sum [OF assms])
  finally show ?thesis using quota.models_at_label [OF assms] sorted_models by simp
qed

lemma project_bucket: "project fst (add_bucket key raw unit_quota m b) =
    named_put (key m) (num_add (known (named_get (project fst b) (key m))) (raw m)) (project fst b)"
  by (cases "named_get b (key m)") (auto simp: add_bucket_def project_put project_get known_def split: prod.splits)

lemma bucket_tally: "project fst (fold (add_bucket key raw unit_quota) ms []) = tally known key raw ms"
  by (induction ms rule: rev_induct) (simp_all add: project_bucket tally_snoc, simp add: tally_def project_def)

lemma tally_sum:
  assumes "\<And>x. x \<in> set xs \<Longrightarrow> f x = Fin (of_nat (h x))" "sum_list (map h xs) < 2 ^ 53"
  shows "drawn snd (tally known key f xs) = of_nat (sum_list (map h xs))"
proof -
  let ?m = "tally known key f xs"
  have get: "named_get ?m k = (if k \<in> key ` set xs then Some (Fin (of_nat (keyed_sum key h xs k))) else None)" for k
    by (rule tally_get) (use assms in \<open>simp_all add: known_def\<close>)
  note k = tally_keys [of known key f xs]
  have "drawn snd ?m = of_nat (sum_list (map (\<lambda>p. keyed_sum key h xs (fst p)) ?m))"
    by (rule sum_nats) (use get k in \<open>auto simp: named_get_mem split: if_splits\<close>)
  also have "map (\<lambda>p. keyed_sum key h xs (fst p)) ?m = map (keyed_sum key h xs) (map fst ?m)" by simp
  also have "sum_list \<dots> = sum_list (map h xs)" by (rule sum_all_keys) (use k in auto)
  finally show ?thesis .
qed

lemma area_points_sum:
  assumes "whole_amounts qi_quota items"
  shows "drawn up_rawQuota (area_points D g unit_quota otherLabel items t) =
    of_nat (keyed_sum (time_key D g) (amount_of \<circ> qi_quota) items t)"
proof -
  let ?raw = "stat_at st_quota (timeModelMap D g items) t" and ?key = "area_key otherLabel items"
  let ?at = "keyed_sum item_model (amount_of \<circ> qi_quota) (filter (\<lambda>i. time_key D g i = t) items)"
  note m = assms sorted_models [of items, THEN conjunct1] sorted_models [of items, THEN conjunct2]
  have "drawn up_rawQuota (area_points D g unit_quota otherLabel items t) =
      drawn snd (project fst (fold (add_bucket ?key ?raw unit_quota) (sortedModels items) []))"
    by (simp add: area_points_def Let_def comp_def project_def case_prod_unfold)
  also have "\<dots> = of_nat (sum_list (map ?at (sortedModels items)))"
    unfolding bucket_tally by (rule tally_sum) (rule quota.stat_at_sum [OF assms], rule quota.label_fits [OF m])
  finally show ?thesis using quota.models_at_label [OF m] by simp
qed

lemma trend_points_sum:
  assumes "whole_amounts qi_count items"
  shows "drawn cp_count (trend_points D g otherLabel items t) = of_nat (keyed_sum (time_key D g) (amount_of \<circ> qi_count) items t)"
proof -
  let ?ms = "map fst (ranked st_count items)" and ?count = "stat_at st_count (timeModelMap D g items) t"
  let ?at = "keyed_sum item_model (amount_of \<circ> qi_count) (filter (\<lambda>i. time_key D g i = t) items)"
  let ?top = "take MAX_TREND_MODELS ?ms" and ?others = "drop MAX_TREND_MODELS ?ms"
  note m = assms count.ranked_models [of items, THEN conjunct1] count.ranked_models [of items, THEN conjunct2]
  have split: "sum_list (map ?at ?top) + sum_list (map ?at ?others) = sum_list (map ?at ?ms)"
    by (rule sum_take_drop)
  have others: "sum_nums (map ?count ?others) = Fin (of_nat (sum_list (map ?at ?others)))"
    by (rule sum_nums_exact) (rule count.stat_at_sum [OF assms], use split count.label_fits [OF m, of D g t] in simp)
  have "drawn cp_count (trend_points D g otherLabel items t) =
      drawn ?count ?top + (if ?others \<noteq> [] then nval (sum_nums (map ?count ?others)) else 0)"
    by (simp add: trend_points_def Let_def comp_def)
  also have "drawn ?count ?top = of_nat (sum_list (map ?at ?top))" by (rule sum_nats) (rule count.stat_at_sum [OF assms])
  finally have "drawn cp_count (trend_points D g otherLabel items t) = of_nat (sum_list (map ?at ?top) + sum_list (map ?at ?others))"
    by (auto simp: others)
  then show ?thesis unfolding split count.models_at_label [OF m] .
qed

lemma rank_sum:
  assumes "whole_amounts qi_count items"
  shows "drawn snd (rankValues otherLabel items) = of_nat (sum_list (map (amount_of \<circ> qi_count) items))"
proof -
  let ?r = "ranked st_count items" and ?h = "\<lambda>p. keyed_sum item_model (amount_of \<circ> qi_count) items (fst p)"
  have entry: "snd p = Fin (of_nat (?h p))" if "p \<in> set ?r" for p
    using that by (auto simp: ranked_def descending_def or_zero_num_def count.totals_entry [OF assms])
  have all: "sum_list (map ?h ?r) = sum_list (map (amount_of \<circ> qi_count) items)"
    using count.ranked_sum [OF assms] sum_nats [of ?r snd ?h, OF entry] by simp
  have split: "sum_list (map ?h (take k ?r)) + sum_list (map ?h (drop k ?r)) = sum_list (map ?h ?r)" for k
    by (rule sum_take_drop)
  have others: "sum_nums (map snd (drop k ?r)) = Fin (of_nat (sum_list (map ?h (drop k ?r))))" for k
  proof (rule sum_nums_exact)
    show "sum_list (map ?h (drop k ?r)) < 2 ^ 53" using split [of k] all assms unfolding whole_amounts_def by linarith
  qed (use entry in_set_dropD in fast)
  have top: "drawn snd (take k ?r) = of_nat (sum_list (map ?h (take k ?r)))" for k
    by (rule sum_nats) (use entry in_set_takeD in fast)
  show ?thesis
    using count.ranked_sum [OF assms] split [of MAX_RANK_MODELS, unfolded all, symmetric]
    by (auto simp: rankValues_def Let_def others top)
qed

text \<open>C24. For whole amounts, and labels that are apart, the stacked bars and the areas add up to exactly the quota of the records
  whose label is on the axis, and the call trend to their calls: merging into the Other bucket loses nothing. The totals and
  the ranking count every record. The witness has two records a month apart: with fewer than seven labels the axis is
  replaced by the last seven days, and 900 of 1000 units are in the total but on no bar.\<close>

theorem charts_show_their_axis:
  assumes quota: "whole_amounts qi_quota items" and count: "whole_amounts qi_count items"
    and labels: "distinct (chartTimes D g items)" and "items \<noteq> []"
  shows "let c = processChartData D locale_le st otherLabel g items; axis = chartTimes D g items in
    drawn up_rawQuota (spec_line c) = of_nat (amount_at D g qi_quota axis items) \<and>
    drawn up_rawQuota (spec_area c) = of_nat (amount_at D g qi_quota axis items) \<and>
    drawn cp_count (spec_model_line c) = of_nat (amount_at D g qi_count axis items) \<and>
    totalQuota c = Fin (of_nat (sum_list (map (amount_of \<circ> qi_quota) items))) \<and>
    totalCount c = Fin (of_nat (sum_list (map (amount_of \<circ> qi_count) items))) \<and>
    drawn snd (spec_rank_bar c) = nval (totalCount c)"
  using drawn_by_label [OF line_points_sum [OF quota] labels] drawn_by_label [OF area_points_sum [OF quota] labels]
    drawn_by_label [OF trend_points_sum [OF count] labels] quota.total_sum [OF quota] count.total_sum [OF count]
    rank_sum [OF count] assms(4)
  by (simp add: processChartData_def Let_def lineValues_def areaValues_def modelLineValues_def totalQuotaRaw_def totalTimes_def
      split: prod.splits)

text \<open>dayjs in UTC, for the formats of the charts.\<close>

definition two_digits :: "int \<Rightarrow> jstr" where
  "two_digits n = [48 + n div 10, 48 + n mod 10]"

definition utc_dayjs :: dayjs where
  "utc_dayjs = \<lparr> dj_format = (\<lambda>f t. case civil (t div ms_day) of (_, m, d) \<Rightarrow>
       if f = js ''MM-DD'' then two_digits (m + 1) @ js ''-'' @ two_digits d else two_digits (t mod ms_day div 3600000)),
     dj_add_days = (\<lambda>n t. t + n * ms_day) \<rparr>"

definition quota_at :: "int \<Rightarrow> nat \<Rightarrow> quota_item" where
  "quota_at t q = \<lparr> qi_username = None, qi_model = Some (js ''m''), qi_created = t, qi_tokens = None, qi_count = Some (Fin 1),
     qi_quota = Some (Fin (of_nat q)) \<rparr>"

lemma few_labels:
  assumes "length items < MAX_CHART_TREND_POINTS"
  shows "chartTimes D g items = map (\<lambda>i. formatChartTime D (Max (set (map qi_created items)) -
    int (MAX_CHART_TREND_POINTS - 1 - i) * interval_sec g) g) [0..<MAX_CHART_TREND_POINTS]"
proof -
  have "length (sortedTimes D g items) = card (time_key D g ` set items)" using sorted_times by (metis distinct_card)
  also have "\<dots> \<le> length items" using card_image_le card_length le_trans by blast
  finally show ?thesis using assms by (simp add: chartTimes_def fillTimePoints_def Let_def)
qed

text \<open>1 March and 1 April 2024: 900 units and 100 units.\<close>

definition two_months :: "quota_item list" where
  "two_months = [quota_at 1709251200 900, quota_at 1711929600 100]"

lemma day_text: "formatChartTime utc_dayjs t Day =
    (case civil (t div 86400) of (_, m, d) \<Rightarrow> two_digits (m + 1) @ js ''-'' @ two_digits d)"
  using div_mult_mult1 [of 1000 t 86400] by (simp add: formatChartTime_def utc_dayjs_def ms_day_def mult.commute)

lemma day_label: "time_key utc_dayjs Day (quota_at t q) =
    (case civil (t div 86400) of (_, m, d) \<Rightarrow> two_digits (m + 1) @ js ''-'' @ two_digits d)"
  by (simp add: time_key_def day_text quota_at_def)

lemma spring_days:
  "civil 19783 = (2024, 2, 1)" "civil 19808 = (2024, 2, 26)" "civil 19809 = (2024, 2, 27)" "civil 19810 = (2024, 2, 28)"
  "civil 19811 = (2024, 2, 29)" "civil 19812 = (2024, 2, 30)" "civil 19813 = (2024, 2, 31)" "civil 19814 = (2024, 3, 1)"
  by code_simp+

lemma two_months_axis:
  "chartTimes utc_dayjs Day two_months = map js [''03-26'', ''03-27'', ''03-28'', ''03-29'', ''03-30'', ''03-31'', ''04-01'']"
proof -
  have "length two_months < MAX_CHART_TREND_POINTS" by (simp add: two_months_def MAX_CHART_TREND_POINTS_def)
  moreover have "Max (set (map qi_created two_months)) = 1711929600" by (simp add: two_months_def quota_at_def)
  moreover have "map (\<lambda>i. formatChartTime utc_dayjs (1711929600 - int (MAX_CHART_TREND_POINTS - 1 - i) * interval_sec Day) Day)
      [0..<MAX_CHART_TREND_POINTS] = map js [''03-26'', ''03-27'', ''03-28'', ''03-29'', ''03-30'', ''03-31'', ''04-01'']"
    unfolding day_text by (simp add: MAX_CHART_TREND_POINTS_def interval_sec_def upt_rec spring_days two_digits_def, code_simp)
  ultimately show ?thesis by (simp only: few_labels)
qed

lemma two_months_keys: "map (time_key utc_dayjs Day) two_months = map js [''03-01'', ''04-01'']"
  by (simp add: two_months_def day_label spring_days two_digits_def, code_simp)

lemma whole_quota_at: "whole_num (qi_quota (quota_at t q))" "amount_of (qi_quota (quota_at t q)) = q"
  "whole_num (qi_count (quota_at t q))" "amount_of (qi_count (quota_at t q)) = 1"
  using or_zero_nat(1) [of 1] by (simp_all add: quota_at_def whole_num_def amount_of_def del: or_zero_nat(2))

theorem charts_show_their_axis_witness:
  "let c = processChartData utc_dayjs str_le initial_config_state (js ''Other'') Day two_months in
    drawn up_rawQuota (spec_line c) = 100 \<and> totalQuota c = Fin 1000"
proof -
  have "whole_amounts qi_quota two_months" "whole_amounts qi_count two_months"
    by (simp_all add: two_months_def whole_amounts_def whole_quota_at)
  moreover have "distinct (chartTimes utc_dayjs Day two_months)" unfolding two_months_axis by code_simp
  moreover have "amount_at utc_dayjs Day qi_quota (chartTimes utc_dayjs Day two_months) two_months = 100"
    using two_months_keys unfolding two_months_axis amount_at_def
    by (simp add: two_months_def whole_quota_at)
  ultimately show ?thesis
    using charts_show_their_axis [of two_months utc_dayjs Day str_le initial_config_state "js ''Other''"]
    by (simp add: Let_def two_months_def whole_quota_at)
qed

text \<open>The label of a day has no year: 31 December sorts behind the 1 January that follows it, and equal days of two years are one label.\<close>

lemma new_year_days: "civil 19722 = (2023, 11, 31)" "civil 19723 = (2024, 0, 1)" "civil 19358 = (2023, 0, 1)"
  by code_simp+

lemma new_year_order:
  "time_key utc_dayjs Day (quota_at 1703980800 1) = js ''12-31''"
  "time_key utc_dayjs Day (quota_at 1704067200 1) = js ''01-01''"
  "time_key utc_dayjs Day (quota_at 1672531200 1) = js ''01-01''"
  "str_le (js ''01-01'') (js ''12-31'')" "\<not> str_le (js ''12-31'') (js ''01-01'')"
  unfolding day_label by (simp_all add: new_year_days two_digits_def, code_simp+)

section \<open>Users\<close>

lemma js_sort_cong: "(\<And>a b. a \<in> set xs \<Longrightarrow> b \<in> set xs \<Longrightarrow> le a b = le' a b) \<Longrightarrow> js_sort le xs = js_sort le' xs"
proof (induction xs)
  case (Cons x xs)
  have "sort_ins le x ys = sort_ins le' x ys" if "set ys \<subseteq> set xs" for ys
    using that by (induction ys) (use Cons.prems in auto)
  then show ?case using Cons by simp
qed simp

lemma descending_sorted:
  assumes "\<And>x. x \<in> set xs \<Longrightarrow> f x = Fin (h x)"
  shows "sorted_wrt (\<lambda>a b. h b \<le> h a) (descending f xs)"
proof -
  have "descending f xs = js_sort (\<lambda>a b. h b \<le> h a) xs"
    unfolding descending_def by (rule js_sort_cong) (simp add: assms not_less)
  then show ?thesis using sorted_js_sort [of "\<lambda>a b. h b \<le> h a" xs] by auto
qed

lemma users_tally: "userQuotaTotal items = tally or_zero item_user (or_zero \<circ> qi_quota) items"
  by (simp add: userQuotaTotal_def tally_def add_user_def [abs_def])

lemma users_get:
  assumes "whole_amounts qi_quota items"
  shows "named_get (userQuotaTotal items) u =
    (if u \<in> item_user ` set items then Some (Fin (of_nat (keyed_sum item_user (amount_of \<circ> qi_quota) items u))) else None)"
  unfolding users_tally
  by (rule tally_get) (use assms whole_amounts_exact [OF assms] in \<open>simp_all add: whole_amounts_def\<close>)

lemma users_keys: "fst ` set (userQuotaTotal items) = item_user ` set items \<and> distinct (map fst (userQuotaTotal items))"
  unfolding users_tally by (rule tally_keys)

lemma users_entry:
  assumes "whole_amounts qi_quota items" "(u, q) \<in> set (userQuotaTotal items)"
  shows "q = Fin (of_nat (keyed_sum item_user (amount_of \<circ> qi_quota) items u))"
  using assms users_get [OF assms(1), of u] users_keys [of items] named_get_mem [of "userQuotaTotal items" u q] by (auto split: if_splits)

lemma timed_users_filter:
  "timeUserMap D g users items = timeUserMap D g users (filter (\<lambda>i. item_user i \<in> set users) items)"
  unfolding timeUserMap_def
proof (rule fun_cong [where x = "[]"], induction items)
  case (Cons i items)
  then show ?case by (auto simp: add_user_timed_def [of D g users i] comp_def)
qed simp

lemma add_user_timed_in:
  "\<forall>i\<in>set items. item_user i \<in> set users \<Longrightarrow> timeUserMap D g users items =
    fold (\<lambda>i tm. named_put (time_key D g i) (add_user i (case named_get tm (time_key D g i) of Some m \<Rightarrow> m | None \<Rightarrow> [])) tm) items []"
  unfolding timeUserMap_def by (rule fold_cong) (auto simp: fun_eq_iff add_user_timed_def Let_def)

lemma timed_users_get:
  assumes "u \<in> set users" "whole_amounts qi_quota items"
  shows "or_zero (Option.bind (named_get (timeUserMap D g users items) t) (\<lambda>m. named_get m u)) =
    Fin (of_nat (keyed_sum item_user (amount_of \<circ> qi_quota) (filter (\<lambda>i. time_key D g i = t) items) u))"
proof -
  let ?in = "filter (\<lambda>i. item_user i \<in> set users) items"
  let ?at = "filter (\<lambda>i. time_key D g i = t) ?in"
  have "named_get (timeUserMap D g users items) t = (if t \<in> time_key D g ` set ?in then Some (userQuotaTotal ?at) else None)"
    unfolding timed_users_filter [of D g users items] userQuotaTotal_def by (rule grouped_get) (simp add: add_user_timed_in)
  moreover have "named_get (userQuotaTotal ?at) u =
      (if u \<in> item_user ` set ?at then Some (Fin (of_nat (keyed_sum item_user (amount_of \<circ> qi_quota) ?at u))) else None)"
    by (rule users_get) (intro whole_amounts_filter assms(2))
  moreover have "keyed_sum item_user f ?at u = keyed_sum item_user f (filter (\<lambda>i. time_key D g i = t) items) u" for f
    unfolding keyed_sum_def filter_filter by (rule arg_cong [where f = "\<lambda>l. sum_list (map f l)"], rule filter_cong) (use assms(1) in auto)
  moreover have "t \<notin> time_key D g ` set ?in \<Longrightarrow> ?at = []" by (rule filter_keyless)
  ultimately show ?thesis
    using keyed_sum_notin [of u item_user ?at "amount_of \<circ> qi_quota"] by (auto simp: keyed_sum_def)
qed

lemma ranking_keys: "distinct (map fst (user_ranking limit items))"
  "set (map fst (user_ranking limit items)) \<subseteq> item_user ` set items"
proof -
  have "mset (map fst (descending snd (userQuotaTotal items))) = mset (map fst (userQuotaTotal items))" by (simp add: descending_def)
  then have "distinct (map fst (descending snd (userQuotaTotal items)))"
    using users_keys [of items] mset_eq_imp_distinct_iff by blast
  then show "distinct (map fst (user_ranking limit items))" unfolding user_ranking_def take_map [symmetric] by (rule distinct_take)
  show "set (map fst (user_ranking limit items)) \<subseteq> item_user ` set items"
    using users_keys [of items] set_take_subset [of limit "descending snd (userQuotaTotal items)"]
    by (simp add: user_ranking_def descending_def) blast
qed

lemma ranking_entry:
  assumes "whole_amounts qi_quota items" "p \<in> set (user_ranking limit items)"
  shows "snd p = Fin (of_nat (keyed_sum item_user (amount_of \<circ> qi_quota) items (fst p)))"
  using users_entry [OF assms(1), of "fst p" "snd p"] in_set_takeD [OF assms(2) [unfolded user_ranking_def]] by (simp add: descending_def)

lemma sorted_time_points: "distinct (sortedTimePoints D g items) \<and> set (sortedTimePoints D g items) = time_key D g ` set items"
  by (simp add: sortedTimePoints_def)

lemma trend_sum:
  assumes "whole_amounts qi_quota items"
  shows "drawn us_rawQuota (userTrendValues D g unit_quota limit items) =
    of_nat (sum_list (map (amount_of \<circ> qi_quota) (filter (\<lambda>i. item_user i \<in> set (topUsers limit items)) items)))"
proof -
  let ?u = "topUsers limit items" and ?a = "amount_of \<circ> qi_quota" and ?ts = "sortedTimePoints D g items"
  let ?in = "filter (\<lambda>i. item_user i \<in> set ?u) items"
  have d: "distinct ?u" using ranking_keys by (simp add: topUsers_def)
  have at: "sum_list (map (keyed_sum item_user ?a (filter (\<lambda>i. time_key D g i = t) items)) ?u) = keyed_sum (time_key D g) ?a ?in t" for t
    by (simp add: sum_keyed_sums [OF d] keyed_sum_def conj_commute)
  have "drawn us_rawQuota (userTrendValues D g unit_quota limit items) =
      (\<Sum>t\<leftarrow>?ts. drawn (\<lambda>u. or_zero (Option.bind (named_get (timeUserMap D g ?u items) t) (\<lambda>m. named_get m u))) ?u)"
    by (simp add: userTrendValues_def Let_def sum_list_concat comp_def)
  also have "\<dots> = (\<Sum>t\<leftarrow>?ts. of_nat (keyed_sum (time_key D g) ?a ?in t))"
    unfolding at [symmetric] by (rule arg_cong [where f = sum_list], rule map_cong [OF refl], rule sum_nats) (rule timed_users_get [OF _ assms])
  also have "\<dots> = of_nat (sum_list (map (keyed_sum (time_key D g) ?a ?in) ?ts))"
    by (rule sum_list_of_nat)
  also have "sum_list (map (keyed_sum (time_key D g) ?a ?in) ?ts) = sum_list (map ?a ?in)"
    by (rule sum_all_keys) (use sorted_time_points [of D g items] in auto)
  finally show ?thesis .
qed

lemma ranking_sum:
  assumes "whole_amounts qi_quota items"
  shows "userTotalQuota limit items =
    Fin (of_nat (sum_list (map (amount_of \<circ> qi_quota) (filter (\<lambda>i. item_user i \<in> set (topUsers limit items)) items))))"
proof -
  let ?h = "\<lambda>p. keyed_sum item_user (amount_of \<circ> qi_quota) items (fst p)"
  have sum: "sum_list (map ?h (user_ranking limit items)) =
      sum_list (map (amount_of \<circ> qi_quota) (filter (\<lambda>i. item_user i \<in> set (topUsers limit items)) items))"
    using sum_keyed_sums [OF ranking_keys(1) [of limit items], of item_user "amount_of \<circ> qi_quota" items] by (simp add: topUsers_def comp_def)
  have "userTotalQuota limit items = Fin (of_nat (sum_list (map ?h (user_ranking limit items))))"
    unfolding userTotalQuota_def
  proof (rule sum_nums_exact)
    show "sum_list (map ?h (user_ranking limit items)) < 2 ^ 53"
      unfolding sum using assms by (auto simp: whole_amounts_def intro: le_less_trans [OF sum_filter_le])
  qed (rule ranking_entry [OF assms])
  then show ?thesis unfolding sum .
qed

lemma left_out_below:
  assumes "whole_amounts qi_quota items" "u \<in> item_user ` set items" "u \<notin> set (topUsers limit items)" "v \<in> set (topUsers limit items)"
  shows "keyed_sum item_user (amount_of \<circ> qi_quota) items u \<le> keyed_sum item_user (amount_of \<circ> qi_quota) items v"
proof -
  let ?h = "\<lambda>p. keyed_sum item_user (amount_of \<circ> qi_quota) items (fst p)" and ?all = "descending snd (userQuotaTotal items)"
  have "sorted_wrt (\<lambda>a b. (of_nat (?h b) :: rat) \<le> of_nat (?h a)) ?all"
    by (rule descending_sorted) (metis users_entry [OF assms(1)] prod.collapse)
  then have sorted: "sorted_wrt (\<lambda>a b. ?h b \<le> ?h a) (take limit ?all @ drop limit ?all)" by simp
  have "u \<in> fst ` set ?all" using assms(2) users_keys [of items] by (simp add: descending_def)
  then have "u \<in> fst ` set (take limit ?all) \<or> u \<in> fst ` set (drop limit ?all)"
    by (metis append_take_drop_id image_Un set_append Un_iff)
  then obtain a where "a \<in> set (drop limit ?all)" "fst a = u" using assms(3) by (auto simp: topUsers_def user_ranking_def)
  moreover obtain b where "b \<in> set (take limit ?all)" "fst b = v" using assms(4) by (auto simp: topUsers_def user_ranking_def)
  ultimately show ?thesis using sorted unfolding sorted_wrt_append by auto
qed

text \<open>For whole amounts the trend of the users adds up to the total in its subtitle: every unit of a ranked user is drawn at one
  label, none twice. A user that is left out of the ranking has not used more than any of the ranked.\<close>

theorem user_trend_adds_up:
  assumes "whole_amounts qi_quota items"
  shows "drawn us_rawQuota (userTrendValues D g unit_quota limit items) = nval (userTotalQuota limit items) \<and>
    (\<forall>u\<in>item_user ` set items - set (topUsers limit items). \<forall>v\<in>set (topUsers limit items).
      keyed_sum item_user (amount_of \<circ> qi_quota) items u \<le> keyed_sum item_user (amount_of \<circ> qi_quota) items v)"
proof (intro conjI ballI)
  show "keyed_sum item_user (amount_of \<circ> qi_quota) items u \<le> keyed_sum item_user (amount_of \<circ> qi_quota) items v"
    if "u \<in> item_user ` set items - set (topUsers limit items)" "v \<in> set (topUsers limit items)" for u v
    using left_out_below [OF assms, of u limit v] that by simp
qed (simp add: trend_sum [OF assms] ranking_sum [OF assms])

theorem user_trend_adds_up_witness:
  "drawn us_rawQuota (userTrendValues utc_dayjs Day (Fin 500000) 10 two_months) = nval (userTotalQuota 10 two_months)"
  by (rule user_trend_adds_up [THEN conjunct1]) (simp add: two_months_def whole_amounts_def whole_quota_at)

section \<open>Tooltips\<close>

text \<open>A tooltip of the bars that folds more than fifteen lines into Other shows the total, fifteen models and one Other line; without
  folding it shows every line once. The lines are those of the chart: only the texts of the values change.\<close>

lemma tooltip_lines:
  "length (makeTooltipDimensionUpdateContent tt fmt otherLabel color collapse xs) =
    (if collapse \<and> 15 < length xs then 2 + min 15 (length (tip_models otherLabel xs)) else 1 + length xs) \<and>
   map tip_key (take (1 + min 15 (length (tip_models otherLabel xs))) (makeTooltipDimensionUpdateContent tt fmt otherLabel color collapse xs)) =
     tt (js ''Total:'') # map tip_key (take 15 (tip_models otherLabel xs))"
proof -
  have "length (tip_models otherLabel xs) + length (tip_others otherLabel xs) = length xs"
    unfolding tip_models_def tip_others_def descending_def using sum_length_filter_compl [of "\<lambda>i. isOtherTooltipKey otherLabel (tip_key i)" xs]
    by simp
  moreover have "take (min 15 (length ms)) ms = take 15 ms" for ms :: "tip_line list" by (simp add: min_def)
  ultimately show ?thesis
    by (auto simp: makeTooltipDimensionUpdateContent_def Let_def MAX_TOOLTIP_MODELS_def tip_total_def with_value_def take_map comp_def)
qed

end
