(* ===== verification/SettingsForm.thy ===== *)
theory SettingsForm
  imports JsCoerce
begin

text \<open>
  The form of the system settings: web/default/src/features/system-settings/hooks/use-settings-form.ts. Default values
  with dotted keys are expanded into a tree for react-hook-form; a submit sends the fields that were edited and differ from the baseline,
  the flattened values of the last load or save. The tree of edited fields is what react-hook-form reports, a parameter. A value is
  plain when it is an object that is not an array.
\<close>

fun isPlainObject :: "jsval \<Rightarrow> bool" where
  "isPlainObject (VObj _) = True"
| "isPlainObject _ = False"

section \<open>Flat and nested values\<close>

definition dot_key :: "jstr option \<Rightarrow> jstr \<Rightarrow> jstr" where
  "dot_key parent k = (case parent of Some p \<Rightarrow> (if p \<noteq> [] then p @ js ''.'' @ k else k) | None \<Rightarrow> k)"

lemma entry_smaller: "(k, v) \<in> set ob \<Longrightarrow> size v < size (VObj ob)"
  by (induction ob) auto

function (sequential) flattenValues :: "jsval \<Rightarrow> jstr option \<Rightarrow> jsobj \<Rightarrow> jsobj" where
  "flattenValues (VObj ob) parent result =
     fold (\<lambda>(k, v) r. if isPlainObject v then flattenValues v (Some (dot_key parent k)) r else obj_set (dot_key parent k) v r)
       (own_entries ob) result"
| "flattenValues v parent result = (case parent of Some p \<Rightarrow> obj_set p v result | None \<Rightarrow> result)"
  by pat_completeness auto
termination by (relation "measure (\<lambda>(v, _, _). size v)") (auto dest: entry_smaller)

text \<open>A property of a plain object or an element of an array.\<close>

definition source_of :: "jsval \<Rightarrow> jstr \<Rightarrow> jsval" where
  "source_of values k = (if isPlainObject values \<or> is_array values then obj_get (entries_of values) k else VUndef)"

lemma element_smaller: "(k, v) \<in> set (entries_of d) \<Longrightarrow> is_object_type d \<Longrightarrow> size v < size d"
proof (cases d)
  case (VArr vs)
  assume "(k, v) \<in> set (entries_of d)"
  then have "v \<in> set vs" by (auto simp: VArr index_entries_def dest: set_zip_rightD)
  then show ?thesis unfolding VArr by (induction vs) auto
qed (auto dest: entry_smaller)

function collectDirtyValues :: "jsval \<Rightarrow> jsval \<Rightarrow> jstr option \<Rightarrow> jsobj \<Rightarrow> jsobj" where
  "collectDirtyValues dirtyFields values parent result =
     (if dirtyFields = VBool True then (case parent of Some p \<Rightarrow> obj_set p values result | None \<Rightarrow> result)
      else if \<not> truthy dirtyFields \<or> \<not> is_object_type dirtyFields then result
      else fold (\<lambda>(k, v) r.
        if v = VBool True then obj_set (dot_key parent k) (source_of values k) r
        else if truthy v \<and> is_object_type v then collectDirtyValues v (source_of values k) (Some (dot_key parent k)) r
        else r) (entries_of dirtyFields) result)"
  by pat_completeness auto
termination by (relation "measure (\<lambda>(d, _, _, _). size d)") (auto dest: element_smaller)

declare collectDirtyValues.simps [simp del]

fun set_segments :: "jstr list \<Rightarrow> jsval \<Rightarrow> jsobj \<Rightarrow> jsobj" where
  "set_segments [] v ob = ob"
| "set_segments [s] v ob = obj_set s v ob"
| "set_segments (s # ss) v ob = obj_set s (VObj (set_segments ss v (obj_of (obj_get ob s)))) ob"

definition setDeepValue :: "jsobj \<Rightarrow> jstr \<Rightarrow> jsval \<Rightarrow> jsobj" where
  "setDeepValue target path v = set_segments (split_on 46 path) v target"

fun expandDotPaths :: "jsval \<Rightarrow> jsval" where
  "expandDotPaths (VObj ob) = VObj (fold (\<lambda>(k, v) r. if 46 \<in> set k then setDeepValue r k (fst v) else obj_set k (snd v) r)
     (own_entries (map (\<lambda>(k, v). (k, v, expandDotPaths v)) ob)) [])"
| "expandDotPaths v = v"

section \<open>The hook\<close>

definition same_type :: "jsval \<Rightarrow> jsval \<Rightarrow> bool" where
  "same_type a b = (case (a, b) of (VUndef, VUndef) \<Rightarrow> True | (VBool _, VBool _) \<Rightarrow> True | (VNum _, VNum _) \<Rightarrow> True | (VStr _, VStr _) \<Rightarrow> True
     | _ \<Rightarrow> is_object_type a \<and> is_object_type b)"

definition defaultCompare :: "jsval \<Rightarrow> jsval \<Rightarrow> bool" where
  "defaultCompare a b =
     (if strict_eq a b then True
      else if is_array a \<and> is_array b then stringify a = stringify b
      else if \<not> same_type a b then False
      else if truthy a \<and> truthy b \<and> is_object_type a \<and> is_object_type b then stringify a = stringify b
      else False)"

record settings_state =
  sf_values :: jsval
  sf_dirty :: jsval
  sf_defaults :: jsval
  sf_baseline :: jsobj
  sf_serialized :: jstr
  sf_toasts :: "jstr list"

text \<open>Mounting with default values, and the effect when the caller passes others.\<close>

definition settings_mount :: "jsval \<Rightarrow> settings_state" where
  "settings_mount defaultValues = (let e = expandDotPaths defaultValues; flat = flattenValues e None [] in
     \<lparr> sf_values = e, sf_dirty = VObj [], sf_defaults = e, sf_baseline = flat, sf_serialized = stringify (VObj flat), sf_toasts = [] \<rparr>)"

definition form_reset :: "jsval \<Rightarrow> settings_state \<Rightarrow> settings_state" where
  "form_reset v s = s\<lparr> sf_values := v, sf_dirty := VObj [] \<rparr>"

definition defaults_effect :: "jsval \<Rightarrow> settings_state \<Rightarrow> settings_state" where
  "defaults_effect defaultValues s =
     (let e = expandDotPaths defaultValues; flat = flattenValues e None []; serialized = stringify (VObj flat) in
      if serialized = sf_serialized s then s
      else form_reset e (s\<lparr> sf_baseline := flat, sf_defaults := e, sf_serialized := serialized \<rparr>))"

text \<open>An edit: the new values, and the tree of edited fields that react-hook-form makes of them and the defaults.\<close>

definition form_edit :: "(jsval \<Rightarrow> jsval \<Rightarrow> jsval) \<Rightarrow> jsval \<Rightarrow> settings_state \<Rightarrow> settings_state" where
  "form_edit dirty_tree v s = s\<lparr> sf_values := v, sf_dirty := dirty_tree (sf_defaults s) v \<rparr>"

definition changedEntries :: "settings_state \<Rightarrow> jsval \<Rightarrow> jsobj" where
  "changedEntries s data = filter (\<lambda>(k, v). \<not> defaultCompare v (obj_get (sf_baseline s) k))
     (own_entries (collectDirtyValues (sf_dirty s) data None []))"

text \<open>handleSubmit up to onSubmit: the fields that are sent, or None with a message when there are none.\<close>

definition submit_start :: "settings_state \<Rightarrow> jsobj option \<times> settings_state" where
  "submit_start s = (let changed = changedEntries s (sf_values s) in
     if changed = [] then (None, s\<lparr> sf_toasts := sf_toasts s @ [js ''No changes to save''] \<rparr>)
     else (Some (fold (\<lambda>(k, v). obj_set k v) changed []), s))"

text \<open>After onSubmit; when it throws nothing of this runs.\<close>

definition submit_done :: "jsval \<Rightarrow> settings_state \<Rightarrow> settings_state" where
  "submit_done data s = (let flat = flattenValues data None [] in
     form_reset data (s\<lparr> sf_baseline := flat, sf_defaults := data, sf_serialized := stringify (VObj flat) \<rparr>))"

definition handleReset :: "settings_state \<Rightarrow> settings_state" where
  "handleReset s = form_reset (sf_defaults s) (s\<lparr> sf_toasts := sf_toasts s @ [js ''Form reset to saved values''] \<rparr>)"

section \<open>Values by path\<close>

fun value_at :: "jsval \<Rightarrow> jstr list \<Rightarrow> jsval option" where
  "value_at v [] = Some v"
| "value_at (VObj ob) (k # p) = (case map_of ob k of Some v \<Rightarrow> value_at v p | None \<Rightarrow> None)"
| "value_at _ (k # p) = None"

definition leaf_at :: "jsval \<Rightarrow> jstr list \<Rightarrow> jsval \<Rightarrow> bool" where
  "leaf_at v p x \<longleftrightarrow> value_at v p = Some x \<and> \<not> isPlainObject x"

definition segment :: "jstr \<Rightarrow> bool" where
  "segment k \<longleftrightarrow> k \<noteq> [] \<and> 46 \<notin> set k"

fun wf_tree :: "jsval \<Rightarrow> bool" where
  "wf_tree (VObj ob) \<longleftrightarrow> obj_wf ob \<and> list_all (\<lambda>p. segment (fst p) \<and> wf_tree (snd p)) ob"
| "wf_tree _ \<longleftrightarrow> True"

fun value_leaves :: "jsval \<Rightarrow> (jstr list \<times> jsval) list" where
  "value_leaves (VObj ob) = concat (map (\<lambda>p. map (\<lambda>q. (fst p # fst q, snd q)) (snd p)) (own_entries (map (\<lambda>p. (fst p, value_leaves (snd p))) ob)))"
| "value_leaves v = [([], v)]"

lemma leaves_obj: "value_leaves (VObj ob) = concat (map (\<lambda>(k, v). map (\<lambda>(p, x). (k # p, x)) (value_leaves v)) (own_entries ob))"
  unfolding value_leaves.simps(1) own_entries_map by (simp add: case_prod_unfold comp_def)

declare value_leaves.simps(1) [simp del]

lemma leaves_plain: "\<not> isPlainObject v \<Longrightarrow> value_leaves v = [([], v)]"
  by (cases v) auto

lemma leaves_iff: "wf_tree v \<Longrightarrow> (p, x) \<in> set (value_leaves v) \<longleftrightarrow> leaf_at v p x"
proof (induction v p arbitrary: x rule: value_at.induct)
  case (1 v)
  show ?case by (cases v) (auto simp: leaf_at_def leaves_obj)
next
  case (2 ob k p)
  have ob: "obj_wf ob" "\<And>k v. (k, v) \<in> set ob \<Longrightarrow> wf_tree v" using 2 by (auto simp: list_all_iff)
  have "(k # p, x) \<in> set (value_leaves (VObj ob)) \<longleftrightarrow> (\<exists>v. (k, v) \<in> set ob \<and> (p, x) \<in> set (value_leaves v))"
    by (force simp: leaves_obj)
  also have "\<dots> \<longleftrightarrow> (\<exists>v. map_of ob k = Some v \<and> (p, x) \<in> set (value_leaves v))"
    using ob(1) by (simp add: obj_wf_def)
  also have "\<dots> \<longleftrightarrow> leaf_at (VObj ob) (k # p) x"
  proof (cases "map_of ob k")
    case (Some v)
    then have "(p, x) \<in> set (value_leaves v) \<longleftrightarrow> leaf_at v p x" using "2.IH" ob(2) map_of_SomeD by metis
    then show ?thesis by (simp add: Some leaf_at_def)
  qed (simp add: leaf_at_def)
  finally show ?case .
qed (auto simp: leaf_at_def)

text \<open>The key of a path below a parent.\<close>

definition path_key :: "jstr option \<Rightarrow> jstr list \<Rightarrow> jstr option" where
  "path_key parent p = foldl (\<lambda>q k. Some (dot_key q k)) parent p"

lemma path_key_simps [simp]: "path_key parent [] = parent" "path_key parent (k # p) = path_key (Some (dot_key parent k)) p"
  by (simp_all add: path_key_def)

lemma join_append_hd: "join s ((a @ b) # p) = a @ join s (b # p)"
  by (cases p) auto

lemma path_key_below: "q \<noteq> [] \<Longrightarrow> list_all segment p \<Longrightarrow> path_key (Some q) p = Some (join [46] (q # p))"
proof (induction p arbitrary: q)
  case (Cons k p)
  then show ?case
    using Cons.IH [of "q @ [46] @ k"] join_append_hd [of "[46]" "q @ [46]" k p] by (simp add: dot_key_def js_def)
qed simp

lemma path_key_join: "list_all segment p \<Longrightarrow> p \<noteq> [] \<Longrightarrow> path_key None p = Some (join [46] p)"
  by (cases p) (simp_all add: dot_key_def path_key_below segment_def)

lemma flatten_leaves: "isPlainObject v \<or> parent \<noteq> None \<Longrightarrow>
    flattenValues v parent r = fold (\<lambda>(p, x). obj_set (the (path_key parent p)) x) (value_leaves v) r"
proof (induction v parent r rule: flattenValues.induct)
  case (1 ob parent r)
  have step: "(if isPlainObject v then flattenValues v (Some (dot_key parent k)) r' else obj_set (dot_key parent k) v r') =
      fold (\<lambda>(p, x). obj_set (the (path_key parent p)) x) (map (\<lambda>(p, x). (k # p, x)) (value_leaves v)) r'"
    if "(k, v) \<in> set ob" for k v r'
    using 1 that by (auto simp: fold_map leaves_plain comp_def case_prod_unfold)
  have "fold (\<lambda>(k, v) r. if isPlainObject v then flattenValues v (Some (dot_key parent k)) r else obj_set (dot_key parent k) v r) es r =
      fold (\<lambda>(p, x). obj_set (the (path_key parent p)) x) (concat (map (\<lambda>(k, v). map (\<lambda>(p, x). (k # p, x)) (value_leaves v)) es)) r"
    if "set es \<subseteq> set ob" for es
    using that by (induction es arbitrary: r) (auto simp: step)
  then show ?case by (simp add: leaves_obj)
qed auto

lemma map_of_writes: "map_of (fold (\<lambda>(k, v). obj_set k v) l r) k = (case map_of (rev l) k of Some x \<Rightarrow> Some x | None \<Rightarrow> map_of r k)"
  by (induction l arbitrary: r) (auto simp: obj_set_def update_conv' map_add_def split: option.splits)

lemma map_of_functional:
  assumes "\<And>k x y. (k, x) \<in> set l \<Longrightarrow> (k, y) \<in> set l \<Longrightarrow> x = y"
  shows "map_of (rev l) k = Some x \<longleftrightarrow> (k, x) \<in> set l"
proof
  show "(k, x) \<in> set l" if "map_of (rev l) k = Some x" using map_of_SomeD [OF that] by simp
  assume x: "(k, x) \<in> set l"
  then have "k \<in> fst ` set (rev l)" using image_eqI [of k fst "(k, x)" "set l"] by simp
  then have "map_of (rev l) k \<noteq> None" unfolding map_of_eq_None_iff by simp
  then obtain y where y: "map_of (rev l) k = Some y" by auto
  then have "x = y" using assms [OF x, of y] map_of_SomeD [OF y] by simp
  then show "map_of (rev l) k = Some x" using y by simp
qed

lemma leaf_segments: "wf_tree v \<Longrightarrow> value_at v p = Some x \<Longrightarrow> list_all segment p"
proof (induction v p rule: value_at.induct)
  case (2 ob k p)
  then obtain v where v: "map_of ob k = Some v" "value_at v p = Some x" by (auto split: option.splits)
  then show ?case using 2 map_of_SomeD [OF v(1)] by (auto simp: list_all_iff)
qed auto

lemma join_segments_inject:
  "list_all segment p \<Longrightarrow> list_all segment q \<Longrightarrow> p \<noteq> [] \<Longrightarrow> q \<noteq> [] \<Longrightarrow> join [46] p = join [46] q \<longleftrightarrow> p = q"
proof
  assume *: "list_all segment p" "list_all segment q" "p \<noteq> []" "q \<noteq> []" and "join [46] p = join [46] q"
  then have "split_on 46 (join [46] p) = split_on 46 (join [46] q)" by simp
  moreover have "split_on 46 (join [46] p) = p" using *(1,3) by (intro split_on_join) (auto simp: list_all_iff segment_def)
  moreover have "split_on 46 (join [46] q) = q" using *(2,4) by (intro split_on_join) (auto simp: list_all_iff segment_def)
  ultimately show "p = q" by simp
qed simp

text \<open>Flattening: the entries are the leaves under their dotted paths.\<close>

lemma flatten_iff:
  assumes "wf_tree v" "isPlainObject v"
  shows "map_of (flattenValues v None []) k = Some x \<longleftrightarrow> (\<exists>p. leaf_at v p x \<and> k = join [46] p)"
proof -
  let ?l = "map (\<lambda>(p, x). (the (path_key None p), x)) (value_leaves v)"
  have p: "list_all segment p \<and> p \<noteq> [] \<and> the (path_key None p) = join [46] p" if "leaf_at v p x" for p x
  proof -
    have "list_all segment p" "p \<noteq> []" using that assms leaf_segments [OF assms(1), of p x] by (auto simp: leaf_at_def)
    then show ?thesis by (simp add: path_key_join)
  qed
  have mem: "(k, x) \<in> set ?l \<longleftrightarrow> (\<exists>p. leaf_at v p x \<and> k = join [46] p)" for k x
  proof -
    have "(k, x) \<in> set ?l \<longleftrightarrow> (\<exists>p. leaf_at v p x \<and> k = the (path_key None p))"
      using leaves_iff [OF assms(1), of _ x] by auto
    then show ?thesis using p by metis
  qed
  have "map_of (rev ?l) k = Some x \<longleftrightarrow> (k, x) \<in> set ?l"
  proof (rule map_of_functional)
    fix k x y assume "(k, x) \<in> set ?l" "(k, y) \<in> set ?l"
    then obtain q r where "leaf_at v q x" "leaf_at v r y" "join [46] q = join [46] r" using mem by auto
    then show "x = y" using join_segments_inject p by (metis leaf_at_def option.inject)
  qed
  moreover have "flattenValues v None [] = fold (\<lambda>(k, x). obj_set k x) ?l []"
    using assms(2) by (simp add: flatten_leaves fold_map comp_def case_prod_unfold)
  then have "map_of (flattenValues v None []) k = map_of (rev ?l) k" by (simp only: map_of_writes) (simp split: option.splits)
  ultimately show ?thesis unfolding mem by simp
qed


section \<open>Dotted keys\<close>

lemma map_of_set: "map_of (obj_set k v ob) j = (if j = k then Some v else map_of ob j)"
  by (simp add: obj_set_def update_conv')

lemma leaf_at_atom: "\<not> isPlainObject v \<Longrightarrow> leaf_at v p x \<longleftrightarrow> p = [] \<and> x = v"
  by (cases v; cases p) (auto simp: leaf_at_def)

lemma leaf_at_Cons: "leaf_at (VObj ob) (k # p) x \<longleftrightarrow> (\<exists>v. map_of ob k = Some v \<and> leaf_at v p x)"
  by (auto simp: leaf_at_def split: option.splits)

lemma leaf_at_empty [simp]: "\<not> leaf_at (VObj []) p x"
  by (cases p) (auto simp: leaf_at_def)

definition unrelated :: "jstr list \<Rightarrow> jstr list \<Rightarrow> bool" where
  "unrelated p q \<longleftrightarrow> (\<forall>r. p @ r \<noteq> q) \<and> (\<forall>r. q @ r \<noteq> p)"

lemma unrelated_Cons [simp]: "unrelated (k # p) (j # q) \<longleftrightarrow> k \<noteq> j \<or> unrelated p q"
  by (auto simp: unrelated_def)

lemma unrelated_Nil [simp]: "\<not> unrelated [] q" "\<not> unrelated q []"
  by (auto simp: unrelated_def)

text \<open>Writing at a path that no leaf is related to adds one leaf and keeps the others.\<close>

lemma set_segments_leaf:
  assumes "p \<noteq> []" "\<not> isPlainObject v" "\<And>q x. leaf_at (VObj ob) q x \<Longrightarrow> unrelated p q"
  shows "leaf_at (VObj (set_segments p v ob)) q x \<longleftrightarrow> (q = p \<and> x = v) \<or> leaf_at (VObj ob) q x"
  using assms
proof (induction p v ob arbitrary: q rule: set_segments.induct)
  case (2 s v ob)
  have free: "\<not> leaf_at (VObj ob) (s # r) y" for r y using 2(3) [of "s # r" y] by auto
  show ?case
  proof (cases q)
    case (Cons j r)
    then show ?thesis using free [of r x] 2(2) by (cases "j = s") (auto simp: leaf_at_Cons map_of_set leaf_at_atom)
  qed (auto simp: leaf_at_def)
next
  case (3 s s' ss v ob)
  let ?inner = "obj_of (obj_get ob s)"
  have inner: "leaf_at (VObj ?inner) r y \<longleftrightarrow> leaf_at (VObj ob) (s # r) y" for r y
  proof (cases "map_of ob s")
    case (Some w)
    have "isPlainObject w" using 3(4) [of "[s]" w] by (auto simp: leaf_at_Cons Some leaf_at_def)
    then show ?thesis by (cases w) (simp_all add: leaf_at_Cons Some obj_get_def obj_of_def)
  qed (simp add: leaf_at_Cons obj_get_def obj_of_def)
  have IH: "leaf_at (VObj (set_segments (s' # ss) v ?inner)) r x \<longleftrightarrow> (r = s' # ss \<and> x = v) \<or> leaf_at (VObj ?inner) r x" for r
    by (rule 3(1)) (use 3(3,4) in \<open>auto simp: inner dest: 3(4)\<close>)
  show ?case
  proof (cases q)
    case (Cons j r)
    show ?thesis
    proof (cases "j = s")
      case True
      then have "leaf_at (VObj (set_segments (s # s' # ss) v ob)) q x \<longleftrightarrow> leaf_at (VObj (set_segments (s' # ss) v ?inner)) r x"
        using Cons by (simp add: leaf_at_Cons map_of_set)
      then show ?thesis using Cons True by (simp add: IH inner)
    next
      case False
      then show ?thesis using Cons by (simp add: leaf_at_Cons map_of_set)
    qed
  qed (auto simp: leaf_at_def)
qed simp

lemma set_segments_wf:
  "wf_tree (VObj ob) \<Longrightarrow> list_all segment p \<Longrightarrow> wf_tree v \<Longrightarrow> wf_tree (VObj (set_segments p v ob))"
proof (induction p v ob rule: set_segments.induct)
  case (2 s v ob)
  then show ?case using set_update_subset [of s v ob] by (auto simp: obj_set_def [symmetric] list_all_iff)
next
  case (3 s s' ss v ob)
  have "wf_tree (VObj (obj_of (obj_get ob s)))"
  proof (cases "map_of ob s")
    case (Some w)
    have "wf_tree w" using 3(2) map_of_SomeD [OF Some] by (auto simp: list_all_iff)
    then show ?thesis by (cases w) (simp_all add: Some obj_get_def obj_of_def)
  qed (simp add: obj_get_def obj_of_def)
  then have "wf_tree (VObj (set_segments (s' # ss) v (obj_of (obj_get ob s))))" using 3 by simp
  then show ?case using 3(2,3) set_update_subset [of s "VObj (set_segments (s' # ss) v (obj_of (obj_get ob s)))" ob]
    by (auto simp: obj_set_def [symmetric] list_all_iff simp del: wf_tree.simps(1)) (auto simp: list_all_iff)
qed simp


lemma set_segments_single: "46 \<notin> set k \<Longrightarrow> set_segments (split_on 46 k) v ob = obj_set k v ob"
  by (simp add: split_on_free)

lemma expand_writes:
  assumes "\<forall>p\<in>set ob. \<not> isPlainObject (snd p)"
  shows "expandDotPaths (VObj ob) = VObj (fold (\<lambda>(k, v). set_segments (split_on 46 k) v) (own_entries ob) [])"
proof -
  have atom: "expandDotPaths v = v" if "\<not> isPlainObject v" for v using that by (cases v) auto
  have "own_entries (map (\<lambda>(k, v). (k, v, expandDotPaths v)) ob) = map (\<lambda>(k, v). (k, v, expandDotPaths v)) (own_entries ob)"
    using own_entries_map [of "\<lambda>v. (v, expandDotPaths v)" ob] by (simp add: case_prod_unfold)
  moreover have "fold (\<lambda>(k, v) r. if 46 \<in> set k then setDeepValue r k (fst v) else obj_set k (snd v) r)
      (map (\<lambda>(k, v). (k, v, expandDotPaths v)) (own_entries ob)) [] = fold (\<lambda>(k, v). set_segments (split_on 46 k) v) (own_entries ob) []"
    unfolding fold_map
    by (rule fold_cong) (use assms in \<open>auto simp: fun_eq_iff setDeepValue_def set_segments_single atom\<close>)
  ultimately show ?thesis by simp
qed

text \<open>Settings as the server keeps them: dotted keys of non-empty segments, none the beginning of another, and no plain object
  as a value.\<close>

definition flat_settings :: "jsobj \<Rightarrow> bool" where
  "flat_settings ob \<longleftrightarrow> obj_wf ob \<and> list_all (\<lambda>p. \<not> isPlainObject (snd p) \<and> list_all segment (split_on 46 (fst p))) ob \<and>
     (\<forall>k\<in>fst ` set ob. \<forall>j\<in>fst ` set ob. k = j \<or> unrelated (split_on 46 k) (split_on 46 j))"

lemma fold_writes_leaf:
  assumes "distinct (map fst es)" "\<forall>p\<in>set es. \<not> isPlainObject (snd p) \<and> list_all segment (split_on 46 (fst p))"
    "\<forall>k\<in>fst ` set es. \<forall>j\<in>fst ` set es. k = j \<or> unrelated (split_on 46 k) (split_on 46 j)"
  shows "wf_tree (VObj (fold (\<lambda>(k, v). set_segments (split_on 46 k) v) es [])) \<and>
    (\<forall>q x. leaf_at (VObj (fold (\<lambda>(k, v). set_segments (split_on 46 k) v) es [])) q x \<longleftrightarrow> (\<exists>k. (k, x) \<in> set es \<and> q = split_on 46 k))"
  using assms
proof (induction es rule: rev_induct)
  case (snoc e es)
  obtain k v where e: "e = (k, v)" by (cases e)
  let ?ob = "fold (\<lambda>(k, v). set_segments (split_on 46 k) v) es []"
  have IH: "wf_tree (VObj ?ob)" "\<And>q x. leaf_at (VObj ?ob) q x \<longleftrightarrow> (\<exists>k. (k, x) \<in> set es \<and> q = split_on 46 k)"
    using snoc by auto
  have v: "\<not> isPlainObject v" "list_all segment (split_on 46 k)" "k \<notin> fst ` set es" using snoc.prems e by auto
  have "unrelated (split_on 46 k) q" if leaf: "leaf_at (VObj ?ob) q x" for q x
  proof -
    obtain j where "(j, x) \<in> set es" "q = split_on 46 j" using leaf IH(2) by auto
    moreover from this have "k \<noteq> j" using v(3) by force
    ultimately show ?thesis using snoc.prems(3) e by force
  qed
  from set_segments_leaf [OF split_on_not_Nil v(1) this]
  have "leaf_at (VObj (set_segments (split_on 46 k) v ?ob)) q x \<longleftrightarrow> (q = split_on 46 k \<and> x = v) \<or> leaf_at (VObj ?ob) q x" for q x .
  moreover have "wf_tree v" using v(1) by (cases v) auto
  ultimately show ?case using set_segments_wf [OF IH(1) v(2)] by (auto simp: e IH(2))
qed simp

text \<open>C22. The default values of a settings form, dotted keys of the server's options, are the same record after they were expanded into
  the tree of the form and flattened into the baseline: no option is lost, added or changed.\<close>

theorem defaults_roundtrip:
  assumes "flat_settings ob"
  shows "map_of (flattenValues (expandDotPaths (VObj ob)) None []) = map_of ob"
proof -
  define es where "es = own_entries ob"
  define t where "t = VObj (fold (\<lambda>(k, v). set_segments (split_on 46 k) v) es [])"
  have wf: "obj_wf ob" and vals: "\<forall>p\<in>set ob. \<not> isPlainObject (snd p) \<and> list_all segment (split_on 46 (fst p))"
    using assms by (auto simp: flat_settings_def list_all_iff)
  have t: "expandDotPaths (VObj ob) = t" unfolding t_def es_def using expand_writes vals by blast
  have es: "distinct (map fst es)" "set es = set ob" using distinct_own_entries [OF wf] by (simp_all add: es_def)
  have leaf: "wf_tree t" "leaf_at t q x \<longleftrightarrow> (\<exists>k. (k, x) \<in> set ob \<and> q = split_on 46 k)" for q x
    using fold_writes_leaf [OF es(1)] vals assms unfolding t_def by (auto simp: flat_settings_def es(2))
  have "map_of (flattenValues t None []) k = Some x \<longleftrightarrow> map_of ob k = Some x" for k x
  proof -
    have "map_of (flattenValues t None []) k = Some x \<longleftrightarrow> (\<exists>p. leaf_at t p x \<and> k = join [46] p)"
      by (rule flatten_iff [OF leaf(1)]) (simp add: t_def)
    also have "\<dots> \<longleftrightarrow> (k, x) \<in> set ob" unfolding leaf(2) by auto
    finally show ?thesis using wf by (simp add: obj_wf_def)
  qed
  then show ?thesis unfolding t by (metis ext option.exhaust)
qed


section \<open>What a submit sends\<close>

function dirty_paths :: "jsval \<Rightarrow> jstr list list" where
  "dirty_paths d = (if \<not> truthy d \<or> \<not> is_object_type d then []
     else concat (map (\<lambda>(k, v). if v = VBool True then [[k]] else map ((#) k) (dirty_paths v)) (entries_of d)))"
  by pat_completeness auto
termination by (relation "measure size") (auto dest: element_smaller)

declare dirty_paths.simps [simp del]

lemma collect_writes: "collectDirtyValues d vs parent r = (if d = VBool True then (case parent of Some p \<Rightarrow> obj_set p vs r | None \<Rightarrow> r)
    else fold (\<lambda>p. obj_set (the (path_key parent p)) (foldl source_of vs p)) (dirty_paths d) r)"
proof (induction d vs parent r rule: collectDirtyValues.induct)
  case (1 d vs parent r)
  consider "d = VBool True" | "d \<noteq> VBool True" "\<not> truthy d \<or> \<not> is_object_type d" | "d \<noteq> VBool True" "truthy d" "is_object_type d" by blast
  then show ?case
  proof cases
    case 3
    define step where "step = (\<lambda>(k, v) r. if v = VBool True then obj_set (dot_key parent k) (source_of vs k) r
        else if truthy v \<and> is_object_type v then collectDirtyValues v (source_of vs k) (Some (dot_key parent k)) r else r)"
    have one: "step (k, v) r' = fold (\<lambda>p. obj_set (the (path_key parent p)) (foldl source_of vs p))
        (if v = VBool True then [[k]] else map ((#) k) (dirty_paths v)) r'" if "(k, v) \<in> set (entries_of d)" for k v r'
      using 1 [of "(k, v)" k v] that 3 by (auto simp: step_def fold_map comp_def dirty_paths.simps [of v])
    have "fold step es r = fold (\<lambda>p. obj_set (the (path_key parent p)) (foldl source_of vs p))
        (concat (map (\<lambda>(k, v). if v = VBool True then [[k]] else map ((#) k) (dirty_paths v)) es)) r" if "set es \<subseteq> set (entries_of d)" for es
      using that by (induction es arbitrary: r) (auto simp: one)
    then have "fold step (entries_of d) r = fold (\<lambda>p. obj_set (the (path_key parent p)) (foldl source_of vs p)) (dirty_paths d) r"
      using 3 by (simp add: dirty_paths.simps [of d])
    then show ?thesis using 3 unfolding collectDirtyValues.simps [of d] step_def by simp
  qed (simp_all add: collectDirtyValues.simps dirty_paths.simps [of d])
qed

lemma source_path: "wf_tree v \<Longrightarrow> value_at v p = Some x \<Longrightarrow> foldl source_of v p = x"
proof (induction v p rule: value_at.induct)
  case (2 ob k p)
  then obtain w where w: "map_of ob k = Some w" "value_at w p = Some x" by (auto split: option.splits)
  have "source_of (VObj ob) k = w" using 2(2) w(1) by (simp add: source_of_def obj_get_def map_of_own_entries)
  moreover have "wf_tree w" using 2(2) map_of_SomeD [OF w(1)] by (auto simp: list_all_iff)
  ultimately show ?case using 2(1) [OF w(1)] w(2) by simp
qed auto

text \<open>The entries collected for a tree that marks leaves of the values.\<close>

lemma collect_iff:
  assumes "wf_tree v" "d \<noteq> VBool True" "\<forall>p\<in>set (dirty_paths d). p \<noteq> [] \<and> (\<exists>x. leaf_at v p x)"
  shows "map_of (collectDirtyValues d v None []) k = Some x \<longleftrightarrow> (\<exists>p\<in>set (dirty_paths d). leaf_at v p x \<and> k = join [46] p)"
proof -
  let ?l = "map (\<lambda>p. (the (path_key None p), foldl source_of v p)) (dirty_paths d)"
  have p: "list_all segment p \<and> the (path_key None p) = join [46] p \<and> leaf_at v p (foldl source_of v p)" if p: "p \<in> set (dirty_paths d)" for p
  proof -
    obtain x where x: "leaf_at v p x" "p \<noteq> []" using assms(3) p by auto
    then have "list_all segment p" "foldl source_of v p = x"
      using leaf_segments [OF assms(1)] source_path [OF assms(1)] by (auto simp: leaf_at_def)
    then show ?thesis using x by (simp add: path_key_join)
  qed
  have mem: "(k, x) \<in> set ?l \<longleftrightarrow> (\<exists>p\<in>set (dirty_paths d). leaf_at v p x \<and> k = join [46] p)" for k x
    using p by (force simp: leaf_at_def)
  have "map_of (rev ?l) k = Some x \<longleftrightarrow> (k, x) \<in> set ?l"
  proof (rule map_of_functional)
    fix k x y assume "(k, x) \<in> set ?l" "(k, y) \<in> set ?l"
    then obtain q r where qr: "q \<in> set (dirty_paths d)" "r \<in> set (dirty_paths d)" "leaf_at v q x" "leaf_at v r y" "join [46] q = join [46] r"
      using mem by auto
    then have "q = r" using join_segments_inject p assms(3) by metis
    then show "x = y" using qr by (simp add: leaf_at_def)
  qed
  moreover have "collectDirtyValues d v None [] = fold (\<lambda>(k, x). obj_set k x) ?l []"
    using assms(2) by (simp add: collect_writes fold_map comp_def)
  then have "map_of (collectDirtyValues d v None []) k = map_of (rev ?l) k" by (simp only: map_of_writes) (simp split: option.splits)
  ultimately show ?thesis unfolding mem by simp
qed


section \<open>Runs of the form\<close>

datatype sevent = Defaults jsval | Edit jsval | Submit | Saved nat | Failed nat | Reset

text \<open>A state of the hook and the data of the submits whose onSubmit has not answered yet.\<close>

definition settings_handler :: "(jsval \<Rightarrow> jsval \<Rightarrow> jsval) \<Rightarrow> sevent \<Rightarrow> settings_state \<times> jsval list \<Rightarrow> settings_state \<times> jsval list" where
  "settings_handler dirty_tree ev c = (case c of (s, pending) \<Rightarrow> case ev of
     Defaults d \<Rightarrow> (defaults_effect d s, pending)
   | Edit v \<Rightarrow> (form_edit dirty_tree v s, pending)
   | Submit \<Rightarrow> (case submit_start s of (None, s') \<Rightarrow> (s', pending) | (Some _, s') \<Rightarrow> (s', pending @ [sf_values s]))
   | Saved i \<Rightarrow> (if i < length pending then (submit_done (pending ! i) s, take i pending @ drop (Suc i) pending) else c)
   | Failed i \<Rightarrow> (s, take i pending @ drop (Suc i) pending)
   | Reset \<Rightarrow> (handleReset s, pending))"

inductive settings_run :: "(jsval \<Rightarrow> jsval \<Rightarrow> jsval) \<Rightarrow> jsval \<Rightarrow> settings_state \<times> jsval list \<Rightarrow> bool" for dirty_tree d where
  mounted: "settings_run dirty_tree d (settings_mount d, [])"
| stepped: "settings_run dirty_tree d c \<Longrightarrow> settings_run dirty_tree d (settings_handler dirty_tree ev c)"

definition settings_inv :: "(jsval \<Rightarrow> jsval \<Rightarrow> jsval) \<Rightarrow> settings_state \<Rightarrow> bool" where
  "settings_inv dirty_tree s \<longleftrightarrow> sf_baseline s = flattenValues (sf_defaults s) None [] \<and> sf_serialized s = stringify (VObj (sf_baseline s)) \<and>
     (sf_dirty s = VObj [] \<and> sf_values s = sf_defaults s \<or> sf_dirty s = dirty_tree (sf_defaults s) (sf_values s))"

lemma settings_inv_run: "settings_run dirty_tree d c \<Longrightarrow> settings_inv dirty_tree (fst c)"
proof (induction rule: settings_run.induct)
  case mounted
  show ?case by (simp add: settings_inv_def settings_mount_def Let_def)
next
  case (stepped c ev)
  obtain s pending where c: "c = (s, pending)" by (cases c)
  have s: "settings_inv dirty_tree s" using stepped c by simp
  show ?case
    by (cases ev) (use s in \<open>auto simp: c settings_handler_def settings_inv_def defaults_effect_def form_edit_def form_reset_def
      submit_start_def submit_done_def handleReset_def Let_def\<close>)
qed

text \<open>What react-hook-form promises of its tree: it marks leaves of the values, among them those that the defaults do not have.\<close>

definition tracks_edits :: "(jsval \<Rightarrow> jsval \<Rightarrow> jsval) \<Rightarrow> bool" where
  "tracks_edits dirty_tree \<longleftrightarrow> (\<forall>d v. isPlainObject v \<and> wf_tree v \<longrightarrow> dirty_tree d v \<noteq> VBool True \<and>
     (\<forall>p\<in>set (dirty_paths (dirty_tree d v)). p \<noteq> [] \<and> (\<exists>x. leaf_at v p x)) \<and>
     (\<forall>p x. leaf_at v p x \<and> \<not> leaf_at d p x \<longrightarrow> p \<in> set (dirty_paths (dirty_tree d v))))"

lemma same_not_changed: "x \<noteq> VNum NaN \<Longrightarrow> defaultCompare x x"
  by (cases x) (auto simp: defaultCompare_def same_type_def num_eq_def)

definition sent :: "settings_state \<Rightarrow> jsobj" where
  "sent s = (case fst (submit_start s) of Some changed \<Rightarrow> changed | None \<Rightarrow> [])"


lemma sent_writes: "sent s = fold (\<lambda>(k, v). obj_set k v) (changedEntries s (sf_values s)) []"
  by (simp add: sent_def submit_start_def Let_def)

lemma wf_writes: "obj_wf r \<Longrightarrow> obj_wf (fold (\<lambda>(k, v). obj_set k v) l r)"
  by (induction l arbitrary: r) auto

lemma wf_collect: "obj_wf r \<Longrightarrow> obj_wf (collectDirtyValues d v parent r)"
proof -
  have "obj_wf (fold (\<lambda>p. obj_set (f p) (g p)) ps r)" if "obj_wf r" for f g r and ps :: "jstr list list"
    using that by (induction ps arbitrary: r) auto
  then show "obj_wf r \<Longrightarrow> ?thesis" by (auto simp: collect_writes split: option.splits)
qed

lemma sent_iff:
  "map_of (sent s) k = Some x \<longleftrightarrow> map_of (collectDirtyValues (sf_dirty s) (sf_values s) None []) k = Some x \<and>
     \<not> defaultCompare x (obj_get (sf_baseline s) k)"
proof -
  let ?c = "collectDirtyValues (sf_dirty s) (sf_values s) None []" and ?l = "changedEntries s (sf_values s)"
  have wf: "obj_wf ?c" by (simp add: wf_collect)
  have mem: "(k, x) \<in> set ?l \<longleftrightarrow> map_of ?c k = Some x \<and> \<not> defaultCompare x (obj_get (sf_baseline s) k)" for k x
    using wf by (auto simp: changedEntries_def obj_wf_def)
  have "map_of (sent s) k = map_of (rev ?l) k" unfolding sent_writes map_of_writes by (simp split: option.splits)
  also have "\<dots> = Some x \<longleftrightarrow> (k, x) \<in> set ?l" by (rule map_of_functional) (auto simp: mem)
  finally show ?thesis unfolding mem .
qed

lemma no_dirty_paths: "dirty_paths (VObj []) = []"
  by (simp add: dirty_paths.simps [of "VObj []"] own_entries_def)

lemma tracked:
  assumes "tracks_edits dirty_tree" "settings_inv dirty_tree s" "isPlainObject (sf_values s)" "wf_tree (sf_values s)"
  shows "sf_dirty s \<noteq> VBool True" "\<forall>p\<in>set (dirty_paths (sf_dirty s)). p \<noteq> [] \<and> (\<exists>x. leaf_at (sf_values s) p x)"
    "leaf_at (sf_values s) p x \<Longrightarrow> \<not> leaf_at (sf_defaults s) p x \<Longrightarrow> p \<in> set (dirty_paths (sf_dirty s))"
proof -
  consider "sf_dirty s = VObj []" "sf_values s = sf_defaults s" | "sf_dirty s = dirty_tree (sf_defaults s) (sf_values s)"
    using assms(2) unfolding settings_inv_def by blast
  note cases = this
  show "sf_dirty s \<noteq> VBool True" using assms(1,3,4) by (cases rule: cases) (simp_all add: tracks_edits_def)
  show "\<forall>p\<in>set (dirty_paths (sf_dirty s)). p \<noteq> [] \<and> (\<exists>x. leaf_at (sf_values s) p x)"
    using cases assms(1,3,4) unfolding tracks_edits_def by (metis empty_iff list.set(1) no_dirty_paths)
  show "leaf_at (sf_values s) p x \<Longrightarrow> \<not> leaf_at (sf_defaults s) p x \<Longrightarrow> p \<in> set (dirty_paths (sf_dirty s))"
    using cases assms(1,3,4) unfolding tracks_edits_def by metis
qed

text \<open>C16. A submit sends exactly the fields of the form that differ from the baseline, each under its dotted key with its value: no edit is lost
  and nothing that was not changed is sent. The form may have been reloaded, edited, saved and reset any number of times. Numbers
  are not NaN, which differs from itself.\<close>

theorem edits_sent_exactly:
  assumes tracks: "tracks_edits dirty_tree" and run: "settings_run dirty_tree d (s, pending)"
    and shape: "isPlainObject (sf_values s)" "wf_tree (sf_values s)" "isPlainObject (sf_defaults s)" "wf_tree (sf_defaults s)"
    and nan: "\<And>p. \<not> leaf_at (sf_values s) p (VNum NaN)"
  shows "map_of (sent s) k = Some x \<longleftrightarrow>
    (\<exists>p. leaf_at (sf_values s) p x \<and> k = join [46] p) \<and> \<not> defaultCompare x (obj_get (sf_baseline s) k)"
proof -
  let ?v = "sf_values s" and ?b = "sf_baseline s"
  have inv: "settings_inv dirty_tree s" using settings_inv_run [OF run] by simp
  have known: "defaultCompare x (obj_get ?b (join [46] p))" if leaf: "leaf_at (sf_defaults s) p x" "leaf_at ?v p x" for p x
  proof -
    have "map_of ?b (join [46] p) = Some x" using inv flatten_iff [OF shape(4,3)] leaf by (auto simp: settings_inv_def)
    moreover have "x \<noteq> VNum NaN" using nan leaf by auto
    ultimately show ?thesis by (simp add: obj_get_def same_not_changed)
  qed
  have collect: "map_of (collectDirtyValues (sf_dirty s) ?v None []) k = Some x \<longleftrightarrow> (\<exists>p\<in>set (dirty_paths (sf_dirty s)). leaf_at ?v p x \<and> k = join [46] p)"
    by (rule collect_iff [OF shape(2) tracked(1,2) [OF tracks inv shape(1,2)]])
  have marked: "p \<in> set (dirty_paths (sf_dirty s))" if "leaf_at ?v p x" "\<not> defaultCompare x (obj_get ?b (join [46] p))" for p
  proof -
    have "\<not> leaf_at (sf_defaults s) p x" using known that by blast
    then show ?thesis using tracked(3) [OF tracks inv shape(1,2)] that(1) by blast
  qed
  show ?thesis unfolding sent_iff collect using marked by auto
qed


text \<open>A tree that marks every leaf of the values.\<close>

fun mark_all :: "jsval \<Rightarrow> jsval" where
  "mark_all (VObj ob) = VObj (map (\<lambda>p. (fst p, mark_all (snd p))) ob)"
| "mark_all v = VBool True"

lemma mark_all_plain: "mark_all v = VBool True \<longleftrightarrow> \<not> isPlainObject v" "truthy (mark_all v)"
  by (cases v; simp)+

lemma dirty_paths_mark_all: "isPlainObject v \<Longrightarrow> dirty_paths (mark_all v) = map fst (value_leaves v)"
proof (induction v rule: value_leaves.induct)
  case (1 ob)
  have one: "(if mark_all v = VBool True then [[k]] else map ((#) k) (dirty_paths (mark_all v))) = map fst (map (\<lambda>(p, x). (k # p, x)) (value_leaves v))"
    if "(k, v) \<in> set ob" for k v
    using 1(1) [of "(k, v)"] that by (auto simp: mark_all_plain leaves_plain case_prod_unfold)
  have "concat (map (\<lambda>(k, v). if v = VBool True then [[k]] else map ((#) k) (dirty_paths v)) (map (\<lambda>p. (fst p, mark_all (snd p))) es)) =
      map fst (concat (map (\<lambda>(k, v). map (\<lambda>(p, x). (k # p, x)) (value_leaves v)) es))" if "set es \<subseteq> set ob" for es
    using that by (induction es) (auto simp: one)
  from this [of "own_entries ob"] show ?case
    by (simp add: leaves_obj dirty_paths.simps [of "VObj (map (\<lambda>p. (fst p, mark_all (snd p))) ob)"] own_entries_map)
qed auto

lemma tracks_mark_all: "tracks_edits (\<lambda>_. mark_all)"
  unfolding tracks_edits_def
proof (intro allI impI)
  fix d v assume v: "isPlainObject v \<and> wf_tree v"
  have paths: "dirty_paths (mark_all v) = map fst (value_leaves v)" using v dirty_paths_mark_all by blast
  have "p \<noteq> [] \<and> (\<exists>x. leaf_at v p x)" if "p \<in> set (map fst (value_leaves v))" for p
    using that v leaves_iff [of v] by (auto simp: leaf_at_def)
  moreover have "p \<in> set (map fst (value_leaves v))" if "leaf_at v p x" for p x
    using that v leaves_iff [of v p x] image_eqI [of p fst "(p, x)" "set (value_leaves v)"] by simp
  ultimately show "mark_all v \<noteq> VBool True \<and> (\<forall>p\<in>set (dirty_paths (mark_all v)). p \<noteq> [] \<and> (\<exists>x. leaf_at v p x)) \<and>
      (\<forall>p x. leaf_at v p x \<and> \<not> leaf_at d p x \<longrightarrow> p \<in> set (dirty_paths (mark_all v)))"
    unfolding paths using v mark_all_plain by blast
qed

definition two_options :: jsval where
  "two_options = VObj [(js ''a.b'', VNum (Fin 1)), (js ''c'', VBool False)]"

definition two_options_edited :: jsval where
  "two_options_edited = VObj [(js ''a'', VObj [(js ''b'', VNum (Fin 1))]), (js ''c'', VBool True)]"

theorem edits_sent_exactly_witness:
  "map_of (sent (form_edit (\<lambda>_. mark_all) two_options_edited (settings_mount two_options))) (js ''c'') = Some (VBool True)"
proof -
  let ?s = "form_edit (\<lambda>_. mark_all) two_options_edited (settings_mount two_options)"
  have "settings_run (\<lambda>_. mark_all) two_options (settings_handler (\<lambda>_. mark_all) (Edit two_options_edited) (settings_mount two_options, []))"
    by (intro settings_run.intros)
  then have run: "settings_run (\<lambda>_. mark_all) two_options (?s, [])" by (simp add: settings_handler_def)
  have vals: "sf_values ?s = two_options_edited" by (simp add: form_edit_def)
  have defs: "sf_defaults ?s = VObj [(js ''a'', VObj [(js ''b'', VNum (Fin 1))]), (js ''c'', VBool False)]" by code_simp
  have base: "obj_get (sf_baseline ?s) (js ''c'') = VBool False" by code_simp
  have wf: "wf_tree two_options_edited" "wf_tree (sf_defaults ?s)" unfolding defs by code_simp+
  have leaf: "leaf_at two_options_edited [js ''c''] (VBool True)" by code_simp
  have "value_leaves two_options_edited = [([js ''a'', js ''b''], VNum (Fin 1)), ([js ''c''], VBool True)]" by code_simp
  then have nan: "\<not> leaf_at two_options_edited p (VNum NaN)" for p using leaves_iff [OF wf(1), of p "VNum NaN"] by simp
  have plain: "isPlainObject two_options_edited" "isPlainObject (sf_defaults ?s)" unfolding defs by (simp_all add: two_options_edited_def)
  have "\<exists>p. leaf_at two_options_edited p (VBool True) \<and> js ''c'' = join [46] p" by (rule exI [of _ "[js ''c'']"]) (simp add: leaf)
  moreover have "\<not> defaultCompare (VBool True) (VBool False)" by (simp add: defaultCompare_def same_type_def)
  ultimately show ?thesis
    using edits_sent_exactly [OF tracks_mark_all run, unfolded vals base, OF plain(1) wf(1) plain(2) wf(2) nan, of "js ''c''" "VBool True"]
    by (simp only: base simp_thms)
qed

theorem defaults_roundtrip_witness:
  "map_of (flattenValues (expandDotPaths two_options) None []) (js ''a.b'') = Some (VNum (Fin 1))"
proof -
  let ?ob = "[(js ''a.b'', VNum (Fin 1)), (js ''c'', VBool False)]"
  have split: "split_on 46 (js ''a.b'') = [js ''a'', js ''b'']" "split_on 46 (js ''c'') = [js ''c'']" by code_simp+
  have neq: "js ''a'' \<noteq> js ''c''" "js ''a.b'' \<noteq> js ''c''" by code_simp+
  have "list_all segment [js ''a'', js ''b'', js ''c'']" by code_simp
  then have "flat_settings ?ob" using neq by (simp add: flat_settings_def obj_wf_def split eq_commute)
  from defaults_roundtrip [OF this] show ?thesis by (simp add: two_options_def)
qed

text \<open>What is edited while onSubmit runs is gone when it answers: the form is reset to the data that was submitted.\<close>

lemma edit_during_save_lost:
  "changedEntries s (sf_values s) \<noteq> [] \<Longrightarrow> sf_values (fst (settings_handler T (Saved (length pending))
     (settings_handler T (Edit v) (settings_handler T Submit (s, pending))))) = sf_values s"
  by (simp add: settings_handler_def submit_start_def Let_def submit_done_def form_reset_def)


end
