(* ===== verification/ApiClient.thy ===== *)
theory ApiClient
  imports JsJson
begin

text \<open>
  The client of the services: web/default/src/lib/api.ts. Concurrent GET requests of one key share one request, and two interceptors
  report failures. A request is a number; its answer is the body of a reply or a failure. A thrown value that reaches a caller is a
  failure of the request or an error of the language, whose message is a parameter. Toasts carry the value they show.
\<close>

section \<open>Sharing of requests\<close>

text \<open>\<open>inFlightGet\<close> is the map of the code; the pending requests are those that were sent and not settled, with the key
  each is removed under, if any.\<close>

record get_state =
  inFlightGet :: "(jstr \<times> nat) list"
  pending_gets :: "(nat \<times> jstr option) list"
  next_request :: nat

definition no_gets :: get_state where
  "no_gets = \<lparr> inFlightGet = [], pending_gets = [], next_request = 0 \<rparr>"

definition get_key :: "jstr \<Rightarrow> jsval \<Rightarrow> jstr" where
  "get_key url params = url @ js ''?'' @ (if truthy params then stringify params else js ''{}'')"

definition send_get :: "jstr option \<Rightarrow> get_state \<Rightarrow> nat \<times> get_state" where
  "send_get k s = (next_request s, s\<lparr> pending_gets := (next_request s, k) # pending_gets s, next_request := next_request s + 1 \<rparr>)"

definition api_get :: "bool \<Rightarrow> jstr \<Rightarrow> jsval \<Rightarrow> get_state \<Rightarrow> nat \<times> get_state" where
  "api_get disableDuplicate url params s =
     (if disableDuplicate then send_get None s
      else let k = get_key url params in
        case map_of (inFlightGet s) k of Some req \<Rightarrow> (req, s)
        | None \<Rightarrow> let (req, s') = send_get (Some k) s in (req, s'\<lparr> inFlightGet := AList.update k req (inFlightGet s') \<rparr>))"

text \<open>A request settles; \<open>finally\<close> removes its key.\<close>

definition settle_get :: "nat \<Rightarrow> get_state \<Rightarrow> get_state" where
  "settle_get req s = (case map_of (pending_gets s) req of None \<Rightarrow> s
     | Some k \<Rightarrow> (let s' = s\<lparr> pending_gets := AList.delete req (pending_gets s) \<rparr> in
         case k of Some key \<Rightarrow> s'\<lparr> inFlightGet := AList.delete key (inFlightGet s') \<rparr> | None \<Rightarrow> s'))"

inductive gets_reach :: "get_state \<Rightarrow> bool" where
  no_gets: "gets_reach no_gets"
| called: "gets_reach s \<Longrightarrow> gets_reach (snd (api_get disableDuplicate url params s))"
| settled: "gets_reach s \<Longrightarrow> gets_reach (settle_get req s)"

definition gets_inv :: "get_state \<Rightarrow> bool" where
  "gets_inv s \<longleftrightarrow> distinct (map fst (inFlightGet s)) \<and> distinct (map fst (pending_gets s)) \<and>
     (\<forall>(req, k)\<in>set (pending_gets s). req < next_request s) \<and>
     (\<forall>key req. map_of (inFlightGet s) key = Some req \<longleftrightarrow> map_of (pending_gets s) req = Some (Some key))"

lemma gets_invD:
  assumes "gets_inv s"
  shows "distinct (map fst (inFlightGet s))" "distinct (map fst (pending_gets s))"
    "map_of (pending_gets s) req = Some k \<Longrightarrow> req < next_request s"
    "map_of (inFlightGet s) key = Some req \<longleftrightarrow> map_of (pending_gets s) req = Some (Some key)"
  using assms map_of_SomeD unfolding gets_inv_def by fastforce+

lemma fresh_request: "gets_inv s \<Longrightarrow> map_of (pending_gets s) (next_request s) = None"
  using gets_invD(3) [of s "next_request s"] by (cases "map_of (pending_gets s) (next_request s)") auto

lemma gets_inv_send:
  assumes "gets_inv s"
  shows "gets_inv (snd (api_get disableDuplicate url params s))"
proof -
  let ?n = "next_request s"
  have fresh: "?n \<notin> fst ` set (pending_gets s)" using fresh_request [OF assms] by (simp add: map_of_eq_None_iff)
  have no_key: "map_of (inFlightGet s) key \<noteq> Some ?n" for key using gets_invD(4) [OF assms, of key ?n] fresh_request [OF assms] by simp
  have bound: "\<forall>(req, k)\<in>set (pending_gets s). req < Suc ?n" using assms by (auto simp: gets_inv_def)
  show ?thesis
  proof (cases "disableDuplicate \<or> map_of (inFlightGet s) (get_key url params) \<noteq> None")
    case True
    then show ?thesis
      using assms fresh no_key bound by (auto simp: api_get_def send_get_def Let_def gets_inv_def split: option.splits)
  next
    case False
    then show ?thesis
      using assms fresh no_key bound
      by (auto simp: api_get_def send_get_def Let_def gets_inv_def update_conv' distinct_update split: if_splits)
  qed
qed

lemma gets_inv_settle:
  assumes "gets_inv s"
  shows "gets_inv (settle_get req s)"
proof (cases "map_of (pending_gets s) req")
  case (Some k)
  have other: "map_of (pending_gets s) r = Some (Some key) \<Longrightarrow> map_of (pending_gets s) req = Some (Some key) \<Longrightarrow> r = req" for r key
    using gets_invD(4) [OF assms, of key] by (metis option.inject)
  have sub: "set (AList.delete req (pending_gets s)) \<subseteq> set (pending_gets s)" by (auto simp: AList.delete_eq)
  show ?thesis
  proof (cases k)
    case None
    then have "(req, Some key) \<notin> set (pending_gets s)" for key
      using eq_key_imp_eq_value [OF gets_invD(2) [OF assms]] map_of_SomeD [OF Some] by blast
    then show ?thesis using assms Some None sub gets_invD(4) [OF assms]
      by (auto simp: settle_get_def gets_inv_def delete_conv' distinct_delete)
  next
    case (Some key)
    have "map_of (inFlightGet s) key' = Some r \<and> key' \<noteq> key \<longleftrightarrow> map_of (pending_gets s) r = Some (Some key') \<and> r \<noteq> req" for key' r
      using gets_invD(4) [OF assms] other Some \<open>map_of (pending_gets s) req = Some k\<close> by (metis option.inject)
    then show ?thesis using assms Some \<open>map_of (pending_gets s) req = Some k\<close> sub
      by (auto simp: settle_get_def gets_inv_def delete_conv' distinct_delete Let_def)
  qed
qed (simp add: settle_get_def assms)

lemma gets_inv_reach: "gets_reach s \<Longrightarrow> gets_inv s"
  by (induction rule: gets_reach.induct) (simp_all add: gets_inv_send gets_inv_settle, simp add: gets_inv_def no_gets_def)

text \<open>C15. GET requests of one key share one request exactly while it runs: in every reachable state a call joins the pending request of its
  key when there is one, sends a new one otherwise, and two pending requests never have the same key. A settled request is
  never given to a later call.\<close>

theorem gets_share_pending:
  assumes "gets_reach s"
  shows "(case api_get False url params s of (req, s') \<Rightarrow>
      map_of (pending_gets s') req = Some (Some (get_key url params)) \<and>
      (if \<exists>r. map_of (pending_gets s) r = Some (Some (get_key url params)) then s' = s else req = next_request s)) \<and>
    (\<forall>r r' key. map_of (pending_gets s) r = Some (Some key) \<and> map_of (pending_gets s) r' = Some (Some key) \<longrightarrow> r = r')"
proof -
  note inv = gets_inv_reach [OF assms]
  have "r = r'" if "map_of (pending_gets s) r = Some (Some key)" "map_of (pending_gets s) r' = Some (Some key)" for r r' key
    using that gets_invD(4) [OF inv] by (metis option.inject)
  then show ?thesis
    using gets_invD(4) [OF inv, of "get_key url params"]
    by (auto simp: api_get_def send_get_def Let_def split: option.splits)
qed

theorem gets_share_pending_witness:
  "fst (api_get False (js ''/api/status'') VUndef (snd (api_get False (js ''/api/status'') VUndef no_gets))) = 0"
proof -
  let ?s = "snd (api_get False (js ''/api/status'') VUndef no_gets)"
  have s: "map_of (pending_gets ?s) 0 = Some (Some (get_key (js ''/api/status'') VUndef))"
    by (simp add: api_get_def send_get_def no_gets_def Let_def)
  have only: "map_of (pending_gets ?s) r = Some k \<Longrightarrow> r = 0" for r k
    by (auto simp: api_get_def send_get_def no_gets_def Let_def split: if_splits)
  have "gets_reach ?s" by (intro gets_reach.intros)
  from gets_share_pending [OF this, of "js ''/api/status''" VUndef] s only show ?thesis
    by (auto split: prod.splits if_splits)
qed

section \<open>Reports of failures\<close>

datatype ui_effect = Toast_success jsval | Toast_error jsval | Auth_reset | Invalidate | Callback "jsval list"

text \<open>A failure: the status, the body of the reply if there was one, and the message of the error.\<close>

record failure =
  fl_status :: "int option"
  fl_body :: jsval
  fl_message :: jstr

datatype api_answer = Answered jsval | Rejected failure

record request_config =
  rc_url :: jstr
  rc_skipBusinessError :: bool
  rc_skipErrorHandler :: bool

definition isSessionValidationRequest :: "jstr \<Rightarrow> bool" where
  "isSessionValidationRequest url \<longleftrightarrow> takeWhile (\<lambda>c. c \<noteq> 63) url = js ''/api/user/self''"

definition reply_interceptor :: "request_config \<Rightarrow> jsval \<Rightarrow> ui_effect list" where
  "reply_interceptor c body =
     (if \<not> rc_skipBusinessError c \<and> truthy body \<and> js_prop body (js ''success'') = VBool False
      then [Toast_error (js_or (js_prop body (js ''message'')) (VStr (js ''Request failed'')))] else [])"

definition failure_message :: "failure \<Rightarrow> jsval" where
  "failure_message f = js_or (js_prop (fl_body f) (js ''message'')) (js_or (VStr (fl_message f)) (VStr (js ''Request error'')))"

definition failure_interceptor :: "(jstr \<Rightarrow> jstr) \<Rightarrow> request_config \<Rightarrow> failure \<Rightarrow> ui_effect list" where
  "failure_interceptor tr c f =
     (if rc_skipErrorHandler c then []
      else if fl_status f = Some 401 \<and> isSessionValidationRequest (rc_url c) then [Toast_error (VStr (tr (js ''Session expired!''))), Auth_reset]
      else [Toast_error (failure_message f)])"

definition intercept :: "(jstr \<Rightarrow> jstr) \<Rightarrow> request_config \<Rightarrow> api_answer \<Rightarrow> ui_effect list" where
  "intercept tr c a = (case a of Answered body \<Rightarrow> reply_interceptor c body | Rejected f \<Rightarrow> failure_interceptor tr c f)"

text \<open>The headers, from the stored user identifier.\<close>

definition getCommonHeaders :: "jstr option \<Rightarrow> (jstr \<times> jstr) list" where
  "getCommonHeaders uid = (js ''Content-Type'', js ''application/json'') #
     (case uid of Some u \<Rightarrow> (if u \<noteq> [] then [(js ''New-Api-User'', u)] else []) | None \<Rightarrow> [])"

text \<open>The session is given up for a 401 of the session check alone.\<close>

lemma session_lost_iff:
  "Auth_reset \<in> set (intercept tr c a) \<longleftrightarrow>
     (\<exists>f. a = Rejected f \<and> fl_status f = Some 401 \<and> \<not> rc_skipErrorHandler c \<and> isSessionValidationRequest (rc_url c))"
  by (cases a) (auto simp: intercept_def reply_interceptor_def failure_interceptor_def)

end
