(* ===== verification/ServerActions.thy ===== *)
theory ServerActions
  imports ApiClient JsCoerce
begin

text \<open>
  The actions of the tables of channels and models: web/default/src/features/channels/lib/channel-actions.ts and
  features/models/lib/model-actions.ts over the client (ApiClient). An action is the list of its effects for the answers of its requests:
  toasts of the interceptors and of the action, the invalidation of the table's query and the call of the caller's
  callback. Ids enter a request only; the answers are given per id. A TypeError of a body that is null or
  undefined has an engine-specific message, a parameter.
\<close>

record action_env =
  act_tr :: "jstr \<Rightarrow> jstr"
  act_with :: "jstr \<Rightarrow> (jstr \<times> jsval) list \<Rightarrow> jstr"
  act_usd :: "jsval \<Rightarrow> jstr"
  act_type_error :: jstr
  has_query_client :: bool
  has_callback :: bool

datatype thrown = Request_failed failure | Type_error

definition plain_request :: request_config where
  "plain_request = \<lparr> rc_url = [], rc_skipBusinessError = False, rc_skipErrorHandler = False \<rparr>"

text \<open>\<open>try { const response = await call(); ... } catch\<close>: reading a property of null or undefined throws.\<close>

definition attempt :: "action_env \<Rightarrow> api_answer \<Rightarrow> (jsval \<Rightarrow> ui_effect list) \<Rightarrow> (thrown \<Rightarrow> ui_effect list) \<Rightarrow> ui_effect list" where
  "attempt E a on_reply on_error = intercept (act_tr E) plain_request a @
     (case a of Answered r \<Rightarrow> (if nullish r then on_error Type_error else on_reply r) | Rejected f \<Rightarrow> on_error (Request_failed f))"

definition response_ok :: "action_env \<Rightarrow> jsval \<Rightarrow> bool" where
  "response_ok E r \<longleftrightarrow> truthy (js_prop r (js ''success''))"

definition success_toast :: "action_env \<Rightarrow> jstr \<Rightarrow> ui_effect" where
  "success_toast E k = Toast_success (VStr (act_tr E k))"

definition error_toast :: "action_env \<Rightarrow> jstr \<Rightarrow> ui_effect" where
  "error_toast E k = Toast_error (VStr (act_tr E k))"

definition reply_message_or :: "action_env \<Rightarrow> jsval \<Rightarrow> jstr \<Rightarrow> ui_effect" where
  "reply_message_or E r k = Toast_error (js_or (js_prop r (js ''message'')) (VStr (act_tr E k)))"

text \<open>Invalidation of the list and the callback, when the caller gave them.\<close>

definition finish :: "action_env \<Rightarrow> jsval list \<Rightarrow> ui_effect list" where
  "finish E args = (if has_query_client E then [Invalidate] else []) @ (if has_callback E then [Callback args] else [])"

section \<open>Actions on channels\<close>

definition handleEnableChannel :: "action_env \<Rightarrow> api_answer \<Rightarrow> ui_effect list" where
  "handleEnableChannel E a = attempt E a (\<lambda>r. if response_ok E r then success_toast E (js ''Channel enabled successfully'') # finish E [] else [])
     (\<lambda>_. [error_toast E (js ''Failed to update channel'')])"

definition handleDisableChannel :: "action_env \<Rightarrow> api_answer \<Rightarrow> ui_effect list" where
  "handleDisableChannel E a = attempt E a (\<lambda>r. if response_ok E r then success_toast E (js ''Channel disabled successfully'') # finish E [] else [])
     (\<lambda>_. [error_toast E (js ''Failed to update channel'')])"

definition handleToggleChannelStatus :: "action_env \<Rightarrow> int \<Rightarrow> api_answer \<Rightarrow> ui_effect list" where
  "handleToggleChannelStatus E currentStatus a = (if currentStatus = 1 then handleDisableChannel E a else handleEnableChannel E a)"

definition handleDeleteChannel :: "action_env \<Rightarrow> api_answer \<Rightarrow> ui_effect list" where
  "handleDeleteChannel E a = attempt E a (\<lambda>r. if response_ok E r then success_toast E (js ''Channel deleted successfully'') # finish E [] else [])
     (\<lambda>_. [error_toast E (js ''Failed to delete channel'')])"

definition field_label :: "jstr \<Rightarrow> jstr" where
  "field_label s = (case s of [] \<Rightarrow> [] | c # cs \<Rightarrow> (if 97 \<le> c \<and> c \<le> 122 then c - 32 else c) # lower cs)"

definition handleUpdateChannelField :: "action_env \<Rightarrow> jstr \<Rightarrow> jsnum \<Rightarrow> api_answer \<Rightarrow> ui_effect list" where
  "handleUpdateChannelField E fieldName v a = attempt E a (\<lambda>r. if response_ok E r
       then Toast_success (VStr (act_with E (js ''{{field}} updated to {{value}}'') [(js ''field'', VStr (field_label fieldName)), (js ''value'', VNum v)])) # finish E []
       else [reply_message_or E r (js ''Failed to update channel'')])
     (\<lambda>_. [error_toast E (js ''Failed to update channel'')])"

definition handleUpdateTagField :: "action_env \<Rightarrow> jstr \<Rightarrow> jstr \<Rightarrow> jsnum \<Rightarrow> api_answer \<Rightarrow> ui_effect list" where
  "handleUpdateTagField E tag fieldName v a = attempt E a (\<lambda>r. if response_ok E r
       then Toast_success (VStr (act_with E (js ''{{field}} updated to {{value}} for tag: {{tag}}'')
         [(js ''field'', VStr (field_label fieldName)), (js ''value'', VNum v), (js ''tag'', VStr tag)])) # finish E []
       else [reply_message_or E r (js ''Failed to update channel'')])
     (\<lambda>_. [error_toast E (js ''Failed to update channel'')])"

text \<open>The parameters of a test and its outcome.\<close>

definition test_payload :: "jstr option \<Rightarrow> jstr option \<Rightarrow> bool \<Rightarrow> jsobj option" where
  "test_payload testModel endpointType stream =
     (let given = (\<lambda>k v. case v of Some s \<Rightarrow> (if s \<noteq> [] then [(js k, VStr s)] else []) | None \<Rightarrow> []);
          fields = given ''model'' testModel @ given ''endpoint_type'' endpointType @ (if stream then [(js ''stream'', VBool True)] else [])
      in if fields = [] then None else Some fields)"

definition handleTestChannel :: "action_env \<Rightarrow> api_answer \<Rightarrow> ui_effect list" where
  "handleTestChannel E a =
     (let call = (\<lambda>args. if has_callback E then [Callback args] else []) in
      attempt E a (\<lambda>r. if response_ok E r then success_toast E (js ''Channel test completed'') #
           call [VBool True, opt_prop (js_prop r (js ''data'')) (js ''response_time'')]
         else reply_message_or E r (js ''Failed to test channel'') #
           call [VBool False, VUndef, js_prop r (js ''message''), js_prop r (js ''error_code'')])
       (\<lambda>e. let body = (case e of Request_failed f \<Rightarrow> fl_body f | Type_error \<Rightarrow> VUndef);
                msg = js_or (opt_prop body (js ''message'')) (VStr (act_tr E (js ''Failed to test channel'')))
            in Toast_error msg # call [VBool False, VUndef, msg]))"

definition handleCopyChannel :: "action_env \<Rightarrow> api_answer \<Rightarrow> ui_effect list" where
  "handleCopyChannel E a = attempt E a (\<lambda>r. let i = opt_prop (js_prop r (js ''data'')) (js ''id'') in
       if response_ok E r \<and> truthy i then success_toast E (js ''Channel copied successfully'') # finish E [i] else [])
     (\<lambda>_. [error_toast E (js ''Failed to copy channel'')])"

definition error_text :: "action_env \<Rightarrow> thrown \<Rightarrow> jstr" where
  "error_text E e = (case e of Request_failed f \<Rightarrow> fl_message f | Type_error \<Rightarrow> act_type_error E)"

definition handleUpdateChannelBalance :: "action_env \<Rightarrow> api_answer \<Rightarrow> ui_effect list" where
  "handleUpdateChannelBalance E a = attempt E a (\<lambda>r. let b = js_prop r (js ''balance'') in
       if response_ok E r \<and> b \<noteq> VUndef
       then Toast_success (VStr (act_with E (js ''Balance updated: {{balance}}'') [(js ''balance'', VStr (act_usd E b))])) # finish E [b]
       else [reply_message_or E r (js ''Failed to update balance'')])
     (\<lambda>e. [Toast_error (VStr (error_text E e))])"

definition handleBatchDelete :: "action_env \<Rightarrow> nat \<Rightarrow> api_answer \<Rightarrow> ui_effect list" where
  "handleBatchDelete E n a = (if n = 0 then [error_toast E (js ''No channels selected'')]
     else attempt E a (\<lambda>r. let deleted = js_or (js_prop r (js ''data'')) (VNum (num_of_int (int n))) in
       if response_ok E r then Toast_success (VStr (act_with E (js ''{{count}} channel(s) deleted'') [(js ''count'', deleted)])) # finish E [deleted] else [])
     (\<lambda>_. [error_toast E (js ''Failed to delete channel'')]))"

definition handleBatchSetTag :: "action_env \<Rightarrow> nat \<Rightarrow> api_answer \<Rightarrow> ui_effect list" where
  "handleBatchSetTag E n a = (if n = 0 then [error_toast E (js ''No channels selected'')]
     else attempt E a (\<lambda>r. if response_ok E r then success_toast E (js ''Tag set successfully'') # finish E [] else [])
       (\<lambda>_. [error_toast E (js ''Failed to set tag'')]))"

definition handleEnableTagChannels :: "action_env \<Rightarrow> jstr \<Rightarrow> api_answer \<Rightarrow> ui_effect list" where
  "handleEnableTagChannels E tag a = attempt E a (\<lambda>r. if response_ok E r
       then Toast_success (VStr (act_with E (js ''Enabled all channels with tag: {{tag}}'') [(js ''tag'', VStr tag)])) # finish E [] else [])
     (\<lambda>_. [error_toast E (js ''Failed to enable tag channels'')])"

definition handleDisableTagChannels :: "action_env \<Rightarrow> jstr \<Rightarrow> api_answer \<Rightarrow> ui_effect list" where
  "handleDisableTagChannels E tag a = attempt E a (\<lambda>r. if response_ok E r
       then Toast_success (VStr (act_with E (js ''Disabled all channels with tag: {{tag}}'') [(js ''tag'', VStr tag)])) # finish E [] else [])
     (\<lambda>_. [error_toast E (js ''Failed to disable tag channels'')])"

definition handleDeleteAllDisabled :: "action_env \<Rightarrow> api_answer \<Rightarrow> ui_effect list" where
  "handleDeleteAllDisabled E a = attempt E a (\<lambda>r. let deleted = js_or (js_prop r (js ''data'')) (VNum (Fin 0)) in
       if response_ok E r then Toast_success (VStr (act_with E (js ''{{count}} disabled channel(s) deleted'') [(js ''count'', deleted)])) # finish E [deleted] else [])
     (\<lambda>_. [error_toast E (js ''Failed to delete disabled channels'')])"

definition handleFixAbilities :: "action_env \<Rightarrow> api_answer \<Rightarrow> ui_effect list" where
  "handleFixAbilities E a = attempt E a (\<lambda>r. let d = js_prop r (js ''data'') in
       if response_ok E r \<and> truthy d
       then Toast_success (VStr (act_with E (js ''Fixed abilities: {{success}} succeeded, {{fails}} failed'')
         [(js ''success'', js_prop d (js ''success'')), (js ''fails'', js_prop d (js ''fails''))])) # finish E [d] else [])
     (\<lambda>_. [error_toast E (js ''Failed to fix abilities'')])"

definition handleTestAllChannels :: "action_env \<Rightarrow> api_answer \<Rightarrow> ui_effect list" where
  "handleTestAllChannels E a = attempt E a (\<lambda>r. if response_ok E r
       then success_toast E (js ''Testing all enabled channels started. Please refresh to see results.'') # finish E []
       else [reply_message_or E r (js ''Failed to start testing all channels'')])
     (\<lambda>_. [error_toast E (js ''Failed to test all channels'')])"

definition handleUpdateAllBalances :: "action_env \<Rightarrow> api_answer \<Rightarrow> ui_effect list" where
  "handleUpdateAllBalances E a = attempt E a (\<lambda>r. if response_ok E r
       then success_toast E (js ''Updating all channel balances. This may take a while. Please refresh to see results.'') # finish E []
       else [reply_message_or E r (js ''Failed to update all balances'')])
     (\<lambda>_. [error_toast E (js ''Failed to update all balances'')])"

section \<open>One request for each id\<close>

definition count_val :: "nat \<Rightarrow> (jstr \<times> jsval) list" where
  "count_val n = [(js ''count'', VNum (num_of_int (int n)))]"

definition fulfilled :: "api_answer \<Rightarrow> bool" where
  "fulfilled a \<longleftrightarrow> (case a of Answered _ \<Rightarrow> True | Rejected _ \<Rightarrow> False)"

text \<open>Promise.allSettled: the answers in the order of their arrival, then the summary. \<open>batch_status\<close> is handleBatchEnable and
  handleBatchDisable, which differ in the status they send and in their texts.\<close>

definition batch_status :: "action_env \<Rightarrow> jstr \<Rightarrow> jstr \<Rightarrow> api_answer list \<Rightarrow> ui_effect list" where
  "batch_status E done_text failed_text answers =
     (if answers = [] then [error_toast E (js ''No channels selected'')]
      else let successCount = length (filter fulfilled answers); failCount = length (filter (\<lambda>a. \<not> fulfilled a) answers) in
        concat (map (intercept (act_tr E) plain_request) answers) @
        (if 0 < successCount then Toast_success (VStr (act_with E done_text (count_val successCount))) # finish E [] else []) @
        (if 0 < failCount then [Toast_error (VStr (act_with E failed_text (count_val failCount)))] else []))"

definition handleBatchEnable :: "action_env \<Rightarrow> api_answer list \<Rightarrow> ui_effect list" where
  "handleBatchEnable E = batch_status E (js ''{{count}} channel(s) enabled'') (js ''{{count}} channel(s) failed to enable'')"

definition handleBatchDisable :: "action_env \<Rightarrow> api_answer list \<Rightarrow> ui_effect list" where
  "handleBatchDisable E = batch_status E (js ''{{count}} channel(s) disabled'') (js ''{{count}} channel(s) failed to disable'')"

section \<open>Actions on models\<close>

definition model_error :: "action_env \<Rightarrow> jstr \<Rightarrow> thrown \<Rightarrow> ui_effect" where
  "model_error E k e = Toast_error (js_or (VStr (error_text E e)) (VStr (act_tr E k)))"

definition model_action :: "action_env \<Rightarrow> jstr \<Rightarrow> jstr \<Rightarrow> api_answer \<Rightarrow> ui_effect list" where
  "model_action E done_text failed_text a = attempt E a
     (\<lambda>r. if response_ok E r then success_toast E done_text # finish E [] else [reply_message_or E r failed_text]) (\<lambda>e. [model_error E failed_text e])"

definition handleEnableModel :: "action_env \<Rightarrow> api_answer \<Rightarrow> ui_effect list" where
  "handleEnableModel E = model_action E (js ''Model enabled successfully'') (js ''Failed to enable model'')"

definition handleDisableModel :: "action_env \<Rightarrow> api_answer \<Rightarrow> ui_effect list" where
  "handleDisableModel E = model_action E (js ''Model disabled successfully'') (js ''Failed to disable model'')"

definition handleToggleModelStatus :: "action_env \<Rightarrow> int \<Rightarrow> api_answer \<Rightarrow> ui_effect list" where
  "handleToggleModelStatus E currentStatus a = (if currentStatus = 1 then handleDisableModel E a else handleEnableModel E a)"

definition handleDeleteModel :: "action_env \<Rightarrow> api_answer \<Rightarrow> ui_effect list" where
  "handleDeleteModel E = model_action E (js ''Model deleted successfully'') (js ''Failed to delete model'')"

text \<open>Promise.all: the first rejection that arrives ends the action, and the other answers are still intercepted when they arrive.
  Otherwise the replies are counted by their success.\<close>

definition summarise :: "action_env \<Rightarrow> jstr \<Rightarrow> jstr \<Rightarrow> bool \<Rightarrow> jsval list \<Rightarrow> ui_effect list" where
  "summarise E done_text failed_text passes_count replies =
     (let successCount = length (filter (response_ok E) replies); failedCount = length (filter (\<lambda>r. \<not> response_ok E r) replies) in
      (if 0 < successCount then Toast_success (VStr (act_with E done_text (count_val successCount))) #
         finish E (if passes_count then [VNum (num_of_int (int successCount))] else []) else []) @
      (if 0 < failedCount then [Toast_error (VStr (act_with E failed_text (count_val failedCount)))] else []))"

fun settle_all :: "action_env \<Rightarrow> (jsval list \<Rightarrow> ui_effect list) \<Rightarrow> (thrown \<Rightarrow> ui_effect list) \<Rightarrow> bool \<Rightarrow> api_answer list \<Rightarrow> jsval list \<Rightarrow> ui_effect list" where
  "settle_all E then_do catch_do over [] replies =
     (if over then [] else if list_ex nullish replies then catch_do Type_error else then_do replies)"
| "settle_all E then_do catch_do over (Answered r # as) replies =
     intercept (act_tr E) plain_request (Answered r) @ settle_all E then_do catch_do over as (replies @ [r])"
| "settle_all E then_do catch_do over (Rejected f # as) replies =
     intercept (act_tr E) plain_request (Rejected f) @ (if over then [] else catch_do (Request_failed f)) @ settle_all E then_do catch_do True as replies"

definition batch_models :: "action_env \<Rightarrow> jstr \<Rightarrow> jstr \<Rightarrow> jstr \<Rightarrow> bool \<Rightarrow> api_answer list \<Rightarrow> ui_effect list" where
  "batch_models E done_text failed_text error_key passes_count answers =
     (if answers = [] then [error_toast E (js ''Please select at least one model'')]
      else settle_all E (summarise E done_text failed_text passes_count) (\<lambda>e. [model_error E error_key e]) False answers [])"

definition handleBatchDeleteModels :: "action_env \<Rightarrow> api_answer list \<Rightarrow> ui_effect list" where
  "handleBatchDeleteModels E = batch_models E (js ''Successfully deleted {{count}} model(s)'') (js ''Failed to delete {{count}} model(s)'')
     (js ''Batch delete failed'') True"

definition handleBatchEnableModels :: "action_env \<Rightarrow> api_answer list \<Rightarrow> ui_effect list" where
  "handleBatchEnableModels E = batch_models E (js ''Successfully enabled {{count}} model(s)'') (js ''Failed to enable {{count}} model(s)'')
     (js ''Batch enable failed'') False"

definition handleBatchDisableModels :: "action_env \<Rightarrow> api_answer list \<Rightarrow> ui_effect list" where
  "handleBatchDisableModels E = batch_models E (js ''Successfully disabled {{count}} model(s)'') (js ''Failed to disable {{count}} model(s)'')
     (js ''Batch disable failed'') False"

section \<open>What is reported\<close>

datatype channel_action = Enable_channel | Disable_channel | Delete_channel | Update_field jstr jsnum | Update_tag_field jstr jstr jsnum
  | Copy_channel | Update_balance | Batch_delete nat | Batch_tag nat | Enable_tag jstr | Disable_tag jstr | Delete_disabled
  | Fix_abilities | Test_all | Update_balances

fun run_action :: "action_env \<Rightarrow> channel_action \<Rightarrow> api_answer \<Rightarrow> ui_effect list" where
  "run_action E Enable_channel = handleEnableChannel E"
| "run_action E Disable_channel = handleDisableChannel E"
| "run_action E Delete_channel = handleDeleteChannel E"
| "run_action E (Update_field f v) = handleUpdateChannelField E f v"
| "run_action E (Update_tag_field t f v) = handleUpdateTagField E t f v"
| "run_action E Copy_channel = handleCopyChannel E"
| "run_action E Update_balance = handleUpdateChannelBalance E"
| "run_action E (Batch_delete n) = handleBatchDelete E (Suc n)"
| "run_action E (Batch_tag n) = handleBatchSetTag E (Suc n)"
| "run_action E (Enable_tag t) = handleEnableTagChannels E t"
| "run_action E (Disable_tag t) = handleDisableTagChannels E t"
| "run_action E Delete_disabled = handleDeleteAllDisabled E"
| "run_action E Fix_abilities = handleFixAbilities E"
| "run_action E Test_all = handleTestAllChannels E"
| "run_action E Update_balances = handleUpdateAllBalances E"

text \<open>An action reports a refusal itself when it has an else branch; some need more than the success of the reply.\<close>

fun reports_refusal :: "channel_action \<Rightarrow> bool" where
  "reports_refusal (Update_field _ _) = True"
| "reports_refusal (Update_tag_field _ _ _) = True"
| "reports_refusal Update_balance = True"
| "reports_refusal Test_all = True"
| "reports_refusal Update_balances = True"
| "reports_refusal _ = False"

fun has_payload :: "channel_action \<Rightarrow> jsobj \<Rightarrow> bool" where
  "has_payload Copy_channel ob = truthy (opt_prop (obj_get ob (js ''data'')) (js ''id''))"
| "has_payload Update_balance ob = (obj_get ob (js ''balance'') \<noteq> VUndef)"
| "has_payload Fix_abilities ob = truthy (obj_get ob (js ''data''))"
| "has_payload _ ob = True"

definition error_count :: "ui_effect list \<Rightarrow> nat" where
  "error_count es = length (filter (\<lambda>e. case e of Toast_error _ \<Rightarrow> True | _ \<Rightarrow> False) es)"

definition success_count :: "ui_effect list \<Rightarrow> nat" where
  "success_count es = length (filter (\<lambda>e. case e of Toast_success _ \<Rightarrow> True | _ \<Rightarrow> False) es)"

lemma counts_simps [simp]:
  "error_count [] = 0" "error_count (Toast_error m # es) = Suc (error_count es)" "error_count (Toast_success m # es) = error_count es"
  "error_count (Invalidate # es) = error_count es" "error_count (Callback xs # es) = error_count es" "error_count (Auth_reset # es) = error_count es"
  "error_count (es @ es') = error_count es + error_count es'"
  "success_count [] = 0" "success_count (Toast_error m # es) = success_count es" "success_count (Toast_success m # es) = Suc (success_count es)"
  "success_count (Invalidate # es) = success_count es" "success_count (Callback xs # es) = success_count es"
  "success_count (Auth_reset # es) = success_count es" "success_count (es @ es') = success_count es + success_count es'"
  by (simp_all add: error_count_def success_count_def)

lemma finish_counts [simp]: "error_count (finish E args) = 0" "success_count (finish E args) = 0"
  "Invalidate \<in> set (finish E args) \<longleftrightarrow> has_query_client E"
  by (auto simp: finish_def)

lemma action_toasts [simp]:
  "success_toast E k = Toast_success (VStr (act_tr E k))" "error_toast E k = Toast_error (VStr (act_tr E k))"
  "reply_message_or E r k = Toast_error (js_or (js_prop r (js ''message'')) (VStr (act_tr E k)))"
  by (simp_all add: success_toast_def error_toast_def reply_message_or_def)

lemma intercept_failed: "intercept tr plain_request (Rejected f) = [Toast_error (failure_message f)]"
  by (simp add: intercept_def failure_interceptor_def plain_request_def isSessionValidationRequest_def js_def)

lemma intercept_replied: "intercept tr plain_request (Answered (VObj ob)) =
    (if obj_get ob (js ''success'') = VBool False then [Toast_error (js_or (obj_get ob (js ''message'')) (VStr (js ''Request failed'')))] else [])"
  by (simp add: intercept_def reply_interceptor_def plain_request_def)

lemmas action_defs = handleEnableChannel_def handleDisableChannel_def handleDeleteChannel_def handleUpdateChannelField_def
  handleUpdateTagField_def handleCopyChannel_def handleUpdateChannelBalance_def handleBatchDelete_def handleBatchSetTag_def
  handleEnableTagChannels_def handleDisableTagChannels_def handleDeleteAllDisabled_def handleFixAbilities_def
  handleTestAllChannels_def handleUpdateAllBalances_def attempt_def response_ok_def Let_def

lemma failed_action: "error_count (run_action E act (Rejected f)) = 2 \<and> success_count (run_action E act (Rejected f)) = 0 \<and>
    Invalidate \<notin> set (run_action E act (Rejected f))"
  by (cases act) (simp_all add: action_defs intercept_failed)

lemma refused_action:
  assumes "obj_get ob (js ''success'') = VBool False"
  shows "error_count (run_action E act (Answered (VObj ob))) = (if reports_refusal act then 2 else 1) \<and>
    success_count (run_action E act (Answered (VObj ob))) = 0 \<and> Invalidate \<notin> set (run_action E act (Answered (VObj ob)))"
  by (cases act) (simp_all add: action_defs intercept_replied assms)

lemma accepted_action:
  assumes "obj_get ob (js ''success'') = VBool True"
  shows "error_count (run_action E act (Answered (VObj ob))) = (if act = Update_balance \<and> \<not> has_payload act ob then 1 else 0) \<and>
    success_count (run_action E act (Answered (VObj ob))) = (if has_payload act ob then 1 else 0) \<and>
    (Invalidate \<in> set (run_action E act (Answered (VObj ob))) \<longleftrightarrow> has_payload act ob \<and> has_query_client E)"
  by (cases act) (simp_all add: action_defs intercept_replied assms)


definition quiet_env :: action_env where
  "quiet_env = \<lparr> act_tr = id, act_with = (\<lambda>k _. k), act_usd = (\<lambda>_. []), act_type_error = [], has_query_client = True, has_callback = False \<rparr>"


text \<open>A refusal is a reply, and Promise.allSettled counts it as fulfilled: a batch that the service refused for every channel ends with the
  message that all of them were enabled.\<close>

lemma refused_batch_enabled:
  "handleBatchEnable quiet_env (replicate (Suc n) (Answered (VObj [(js ''success'', VBool False)]))) =
     replicate (Suc n) (Toast_error (VStr (js ''Request failed''))) @ [Toast_success (VStr (js ''{{count}} channel(s) enabled'')), Invalidate]"
proof -
  let ?a = "Answered (VObj [(js ''success'', VBool False)])"
  have "intercept (act_tr quiet_env) plain_request ?a = [Toast_error (VStr (js ''Request failed''))]"
    by (simp add: intercept_replied obj_get_def js_or_def)
  then have "concat (map (intercept (act_tr quiet_env) plain_request) (replicate m ?a)) = replicate m (Toast_error (VStr (js ''Request failed'')))" for m
    by (induction m) simp_all
  from this [of "Suc n"] show ?thesis
    by (simp add: handleBatchEnable_def batch_status_def fulfilled_def filter_replicate finish_def quiet_env_def del: replicate_Suc)
qed

section \<open>Batches of models\<close>

lemma batch_over: "Invalidate \<notin> set (settle_all E then_do catch_do True as replies)"
proof (induction as arbitrary: replies)
  case (Cons a as)
  have "Invalidate \<notin> set (intercept (act_tr E) plain_request b)" for b
    by (cases b) (simp_all add: intercept_failed, simp add: intercept_def reply_interceptor_def)
  then show ?case using Cons by (cases a) auto
qed simp

lemma batch_refreshes:
  assumes "\<And>e. Invalidate \<notin> set (catch_do e)"
  shows "Invalidate \<in> set (settle_all E then_do catch_do False as replies) \<longleftrightarrow>
    list_all fulfilled as \<and> \<not> list_ex nullish (replies @ concat (map (\<lambda>a. case a of Answered r \<Rightarrow> [r] | Rejected _ \<Rightarrow> []) as)) \<and>
    Invalidate \<in> set (then_do (replies @ concat (map (\<lambda>a. case a of Answered r \<Rightarrow> [r] | Rejected _ \<Rightarrow> []) as)))"
proof (induction as arbitrary: replies)
  case (Cons a as)
  have i: "Invalidate \<notin> set (intercept (act_tr E) plain_request b)" for b
    by (cases b) (simp_all add: intercept_failed, simp add: intercept_def reply_interceptor_def)
  show ?case by (cases a) (simp_all add: i Cons assms batch_over fulfilled_def)
qed (simp add: assms)

text \<open>The list of models is refreshed after a batch exactly when every request was answered and one was accepted. One failed request
  is enough that the models the others changed or deleted stay on the page as they were.\<close>

theorem batch_refresh_iff:
  "Invalidate \<in> set (handleBatchDeleteModels E answers) \<longleftrightarrow>
     has_query_client E \<and> list_all fulfilled answers \<and> (\<forall>r. Answered r \<in> set answers \<longrightarrow> \<not> nullish r) \<and>
     (\<exists>r. Answered r \<in> set answers \<and> response_ok E r)"
proof -
  let ?rs = "concat (map (\<lambda>a. case a of Answered r \<Rightarrow> [r] | Rejected _ \<Rightarrow> []) answers)"
  have rs: "r \<in> set ?rs \<longleftrightarrow> Answered r \<in> set answers" for r by (auto split: api_answer.splits)
  have some: "Invalidate \<in> set (summarise E d f True ?rs) \<longleftrightarrow> has_query_client E \<and> (\<exists>r\<in>set ?rs. response_ok E r)" for d f
    by (auto simp: summarise_def Let_def filter_empty_conv simp del: set_concat)
  show ?thesis
  proof (cases "answers = []")
    case False
    then show ?thesis
      unfolding handleBatchDeleteModels_def batch_models_def using False
      by (subst if_not_P, simp, subst batch_refreshes) (auto simp: model_error_def some rs list_ex_iff simp del: set_concat)
  qed (simp add: handleBatchDeleteModels_def batch_models_def)
qed

theorem batch_refresh_iff_witness:
  "Invalidate \<notin> set (handleBatchDeleteModels quiet_env [Answered (VObj [(js ''success'', VBool True)]),
     Rejected \<lparr> fl_status = Some 500, fl_body = VUndef, fl_message = [] \<rparr>])"
  by (subst batch_refresh_iff) (simp add: fulfilled_def)

end
