(* ===== verification/Spec2Isabelle.thy ===== *)
theory Spec2Isabelle
  imports Prelude JsNumber JsValue JsJson JsonPretty JsCoerce Regex
    HttpStatusRules StatusCodeRisk ModelMapping
    ChannelTypes ChannelUtils ChannelTags ChannelForm ChannelPayload
    ThinkTags ChatMessage ChatStream ChatStorage
    NavModules MaintenanceConfig
    BillingExpr BillingRules
    ParamOverride ParamOverrideSave ParamOverrideDrafts ParamOverrideTemplates ParamOverrideEditor ParamOverrideRun
    FundingOrder SecureVerification UpstreamUpdates TableUrlState
    JsRounding SystemConfig Currency
    KeyForm RedemptionForm SubscriptionPlan UserQuota
    Pricing PricingFilters DynamicPrice TierExpr Notifications
    Passkey SidebarNav TopupInfo WalletPayment WalletWorkspace
    ChartTime Charts ChartTotals SettingsForm ApiClient ServerActions
begin

text \<open>
  Verification of the web console of CodeGO-api (web/default/src): the TypeScript code that decides
  what the console stores, sends and shows. CodeGO-api is a gateway in front of providers of language
  models. Its Go services keep the data; the console edits channels (accounts at a provider), the
  rules that go with them, prices and settings, and holds a playground that streams answers of a
  model. The console's own logic is in functions over strings, numbers, JSON values and lists, and in
  the handlers of a stream; these are modelled here. Paths below are relative to web/default/src.

  The language. Prelude holds strings (lists of 16-bit code units) and the operations of strings and
  arrays; JsNumber holds binary64 numbers as exact rationals with rounding and printing; JsValue holds
  dynamic values with insertion-ordered objects; JsJson holds JSON.parse and JSON.stringify; JsCoerce
  holds Number(v), optional chaining and records of one type; Regex holds regular expressions with
  the backtracking order of JavaScript. The lemmas there give the laws the components use: trim,
  split and join, JSON text that reads back, the laws of property writes (the locale keyed_record),
  captures that match their group.

  Components, in the order of the imports.

  HttpStatusRules (lib/http-status-code-rules.ts): a text such as 401,403,500-599 is read into
  ranges of status codes, sorted and merged. Shown: the ranges of an accepted text are valid, apart
  and in order and cover what the tokens cover; printing and reading again changes nothing; the
  rejected tokens are exactly the malformed ones.

  StatusCodeRisk (features/channels/lib/status-code-risk-guard.ts): redirects of status codes that
  need a confirmation. Shown: the reported redirects are exactly those to or from a disallowed
  code, and only new ones are asked for.

  ModelMapping (features/channels/lib/model-mapping-validation.ts): the model names of a mapping against
  the models of a channel.

  ChannelTypes, ChannelUtils, ChannelTags (features/channels/constants.ts, types.ts,
  lib/channel-utils.ts): the channel record and its tables, the helpers of the table, the rows by tag.
  Shown: the rows are the channels in order with the tagged ones under one row per tag, whose summary is
  that of its members; two places where a helper does not do what its comment says.

  ChannelForm, ChannelPayload (features/channels/lib/channel-form.ts): a channel becomes the
  defaults of a form, and the form becomes the settings texts and the payload of a request. Settings
  texts are JSON objects whose keys the console does not own are kept. Shown: the keys
  of a settings text match the type of the channel, building the settings again changes nothing,
  settings and extra settings read back as they were written, a channel that is opened and
  saved without an edit keeps its fields, saving fails only for the named reasons.

  ThinkTags, ChatMessage, ChatStream, ChatStorage (features/playground): the split of an answer into
  visible text and thoughts, the message operations, the request and the stream, the storage. A
  stream is a list of events of the event source; \<open>stream_step\<close> runs the handler of an event on
  the state of the request and the messages. Shown: the split is exact and does not depend on how the
  text was cut into chunks, a stream of chunks and its end delivers the whole text once, nothing is
  an error after the end, a failed answer stays failed, messages and settings survive a reload.

  NavModules, MaintenanceConfig (lib/nav-modules.ts, features/system-settings/maintenance/config.ts):
  which pages and sidebar modules are open, read from a stored setting by the pages and by the form that
  edits it. Shown: each entry decides for itself with named defaults, and settings read back.

  BillingExpr, BillingRules (features/pricing/lib/billing-expr.ts): the reading of tiers, the reading and
  writing of request rules, and the split of an expression into both. Shown: every tier read is well
  formed, an expression put together from tiers and readable rules is split into the same, normal
  forms of conditions are valid and stable, what is written when, and two faults of the reader.

  ParamOverride, ParamOverrideSave, ParamOverrideDrafts, ParamOverrideTemplates, ParamOverrideEditor,
  ParamOverrideRun (features/channels/components/dialogs/param-override-editor-dialog.tsx): rules that
  override parameters of a request. ParamOverride reads, checks and writes them; Drafts holds the
  sub-editors, which read a draft from the text of a rule and write it again; Templates the presets;
  Editor the state of the dialog with its handlers; Run the steps of the dialog and what holds in every
  reachable state. Shown: rules that were saved reopen with the same payloads, moving a rule keeps the
  others in order, the first rule with an error is reported, the views of rules and of JSON text agree,
  an editor invariant, and inputs that are lost or throw.

  FundingOrder (features/subscriptions/billing.ts, lib/self-subscription.ts): which source pays first and
  the order of subscriptions. SecureVerification (features/auth/secure-verification): the dialog for a
  second factor as a step relation over clicks and answers; it refines a machine of five phases, at most
  one action waits, every answer ends the wait. UpstreamUpdates (features/channels/lib/upstream-update-utils.ts
  and its hook): one request of a kind at a time, and every lock is released. TableUrlState
  (hooks/use-table-url-state.ts): page and filters read back from the address, and a filter resets the page.

  SystemConfig (stores/system-config-store.ts, hooks/use-system-config.ts): settings of the status answer
  and the preload of the logo, which settles. Currency (lib/currency.ts, lib/format.ts) over JsRounding:
  amounts and quota units; a quota that is shown in the configured currency and typed back is the same
  quota. KeyForm, RedemptionForm, SubscriptionPlan, UserQuota (features/keys, redemption-codes,
  subscriptions, users): a stored record becomes a form and a payload again with the same fields, and
  where it does not. Pricing, PricingFilters, DynamicPrice, TierExpr (features/pricing): prices,
  groups and filters of the model list, the summary of an expression, and the visual editor of tiers,
  which only opens an expression that its tiers write again. Notifications: what is read stays read.

  Passkey (lib/passkey.ts): bytes and base64url texts, options and answers of credentials. Shown: the texts
  read back as the bytes and are safe in an address. SidebarNav (hooks/use-sidebar-config.ts,
  use-sidebar-data.ts, components/layout): the two layers of settings over the entries. Shown: the sidebar, the guards
  of the pages and the form of the administrator read a setting alike; the user's layer only hides;
  at most one entry is active, with one exception.

  TopupInfo, WalletPayment, WalletWorkspace (features/wallet): the reading of the lists of the server, the
  outcome of each payment request, and the page as a state with requests that are answered in any order.
  Shown: at most one payment, redemption and checkout is outstanding in every reachable state; the
  answers lead to a state where no button is blocked; with answers in order the price shown belongs to the amount
  and the wallet shown, and an overtaken answer breaks this; a payment counts as started exactly when a page opened.

  ChartTime (lib/time.ts over the calendar of the language), Charts, ChartTotals (features/dashboard/lib/charts.ts): usage records
  added up by label and model, the points of the charts and the tooltips. The maps of the code are tallies; the locale
  stat_field proves what a tally adds up to once, for quota and for calls. Shown: each chart adds up to the records whose label is
  on its axis, the totals to all records, the trend of the users to the total of the ranking; two faults of the labels.

  SettingsForm (features/system-settings/hooks/use-settings-form.ts): the form of the system settings. Shown: dotted options
  survive the way into the tree of the form and back; after any run of reloads, edits, saves and resets a submit sends
  exactly the fields that differ from the baseline; an edit during a save is lost.

  ApiClient (lib/api.ts), ServerActions (features/channels/lib/channel-actions.ts, features/models/lib/model-actions.ts): the client that shares
  pending GET requests and reports failures, and the actions of the tables over it. Shown: two pending requests never share a
  key and a settled one is never given again; how often each action reports each kind of answer and when the list is
  refreshed; batches that report what was refused as done, or do not refresh.

  Interfaces. Storage is a locale over reading and writing a text (text_store, text_codec, saved_value
  in ChatStorage), interpreted on the model of localStorage with the JSON functions; writes of one key
  of an object are the locale keyed_record, interpreted on objects; the top-level split is the locale
  top_separator, interpreted on both separators; stat_field is a counted property of the usage records, interpreted on quota and calls.

  Bounds. The JSON parser has fuel 2 * length + 2, two steps for each unit it consumes, so an input never
  exhausts it; a starred pattern iterates at most as often as the text has units, since an empty
  iteration is not taken; a search makes at most length + 1 steps. Printing a number looks for up to
  17 digits, which always identify a binary64 value. All other functions end by structure
  or by a measure (unwrapping parentheses shortens the text). The way back of a quota is shown for whole units
  up to 2^49 and rates within 2^-100 and 2^100, where the errors of the roundings stay below half a unit; the
  sums of a chart for whole amounts with a sum below 2^53, where additions are exact.

  Parameters. What is not the console's code enters as an argument: the comparison of localeCompare, the
  identifiers of nanoid, the events of sse.js, whether localStorage accepts a write, the answer of a
  request, the translation of a text, the browser's formats of numbers and Math.pow, the clock, the zone and dayjs, the
  parser of addresses, the search parameters of the router, the JavaScript engine behind new Function, and the computed
  styles of the page.

  Limits. Objects have no prototype: keys such as __proto__ or constructor are ordinary keys here.
  Case mapping is that of ASCII. Stored messages that are JSON of another shape are cast by the code
  without a check; the model ends such a load with a value of its own. Components and hooks that only
  render or call the server are not modelled: of the page files (tsx) only the handlers and guards named above are, and
  not the drawers of channels and models, the payment settings, the landing pages and the generated route tree. Nor
  are the Go services (internal, cmd) and the desktop shell (electron) modelled.
\<close>

end
